(* ===== verification/Prelude.thy ===== *)
theory Prelude
  imports Complex_Main "HOL-Library.AList"
begin

text \<open>
  What every component shares.

  \<^item> Python values: a \<open>dict\<close> is an association list in insertion order, with the
    library's \<open>AList.update\<close> (replace in place, else append) and \<open>AList.delete\<close>;
    a value of static type \<open>Any\<close> is a \<open>pyval\<close>; a float is an exact rational.
  \<^item> Text: a \<open>string\<close> holds ASCII characters. The case conversions and the white
    space below are the ones Python has on ASCII. Text that is outside ASCII
    occurs in this program in messages for people, which are constructors of
    error types here, and in log entries, which are lists of code points.
  \<^item> Contracts as locales: a machine with an invariant, a keyed store, an
    exclusive lease and a failure gate, each interpreted by the components.
\<close>

named_theorems py_defs \<open>unfolding of the small Python helpers\<close>
named_theorems dict_rules \<open>lookup after an operation on an insertion-ordered dict\<close>

section \<open>Time, dicts and dynamic values\<close>

type_synonym time = rat
type_synonym ('k, 'v) dict = "('k \<times> 'v) list"

datatype pyval =
    PNone
  | PBool bool
  | PInt int
  | PFloat rat
  | PStr string
  | PList "pyval list"
  | PDict "(string \<times> pyval) list"

fun truthy :: "pyval \<Rightarrow> bool" where
  "truthy PNone = False"
| "truthy (PBool b) = b"
| "truthy (PInt i) = (i \<noteq> 0)"
| "truthy (PFloat q) = (q \<noteq> 0)"
| "truthy (PStr s) = (s \<noteq> [])"
| "truthy (PList xs) = (xs \<noteq> [])"
| "truthy (PDict d) = (d \<noteq> [])"

abbreviation dict_get :: "('k, 'v) dict \<Rightarrow> 'k \<Rightarrow> 'v option" where
  "dict_get d k \<equiv> map_of d k"

abbreviation dict_set :: "'k \<Rightarrow> 'v \<Rightarrow> ('k, 'v) dict \<Rightarrow> ('k, 'v) dict" where
  "dict_set k v d \<equiv> AList.update k v d"

abbreviation dict_pop :: "'k \<Rightarrow> ('k, 'v) dict \<Rightarrow> ('k, 'v) dict" where
  "dict_pop k d \<equiv> AList.delete k d"

text \<open>\<open>{**d, **e}\<close> and \<open>d.update(e)\<close>: the entries of \<open>e\<close> written into \<open>d\<close> in order.\<close>

definition dict_merge :: "('k, 'v) dict \<Rightarrow> ('k, 'v) dict \<Rightarrow> ('k, 'v) dict" where
  "dict_merge d e = fold (\<lambda>(k, v) acc. AList.update k v acc) e d"

text \<open>A dict has one entry per key.\<close>

abbreviation dict_ok :: "('k, 'v) dict \<Rightarrow> bool" where
  "dict_ok d \<equiv> distinct (map fst d)"

lemma dict_get_set [simp, dict_rules]:
  "dict_get (dict_set k v d) k' = (if k' = k then Some v else dict_get d k')"
  by (simp add: update_conv')

lemma dict_get_pop [simp, dict_rules]:
  "dict_get (dict_pop k d) k' = (if k' = k then None else dict_get d k')"
  by (simp add: delete_conv')

lemma dict_ok_set [simp, intro]: "dict_ok d \<Longrightarrow> dict_ok (dict_set k v d)"
  by (rule distinct_update)

lemma dict_ok_pop [simp, intro]: "dict_ok d \<Longrightarrow> dict_ok (dict_pop k d)"
  by (rule distinct_delete)

lemma set_dict_pop: "set (dict_pop k d) = {p \<in> set d. fst p \<noteq> k}"
  by (auto simp: AList.delete_eq)

lemma set_dict_set_subset: "set (dict_set k v d) \<subseteq> insert (k, v) (set d)"
  by (induction d) auto

lemma dict_set_new: "k \<notin> fst ` set d \<Longrightarrow> dict_set k v d = d @ [(k, v)]"
  by (induction d) auto

lemma dict_ok_in_set: "dict_ok d \<Longrightarrow> (k, v) \<in> set d \<longleftrightarrow> dict_get d k = Some v"
  by (simp add: map_of_eq_Some_iff)

lemma dict_ok_filter [simp, intro]: "dict_ok d \<Longrightarrow> dict_ok (filter P d)"
  by (induction d) auto

lemma dict_get_filter:
  assumes "dict_ok d"
  shows "dict_get (filter (\<lambda>(k, v). P k v) d) k =
    (case dict_get d k of None \<Rightarrow> None | Some v \<Rightarrow> if P k v then Some v else None)"
  using assms by (induction d) (auto split: option.splits simp: map_of_eq_None_iff)

lemma dict_get_merge_other:
  "k \<notin> fst ` set e \<Longrightarrow> dict_get (dict_merge d e) k = dict_get d k"
  by (induction e arbitrary: d) (auto simp: dict_merge_def)

lemma dict_merge_Nil [simp]: "dict_merge d [] = d"
  by (simp add: dict_merge_def)

lemma dict_merge_Cons [simp]: "dict_merge d ((k, v) # e) = dict_merge (dict_set k v d) e"
  by (simp add: dict_merge_def)

section \<open>Text\<close>

definition py_space :: "char \<Rightarrow> bool" where
  "py_space c \<longleftrightarrow> (let n = (of_char c :: nat)
     in n = 32 \<or> 9 \<le> n \<and> n \<le> 13 \<or> 28 \<le> n \<and> n \<le> 31)"

definition lstrip :: "string \<Rightarrow> string" where
  "lstrip s = dropWhile py_space s"

definition rstrip :: "string \<Rightarrow> string" where
  "rstrip s = rev (dropWhile py_space (rev s))"

definition py_strip :: "string \<Rightarrow> string" where
  "py_strip s = rstrip (lstrip s)"

definition lower_char :: "char \<Rightarrow> char" where
  "lower_char c = (let n = (of_char c :: nat)
     in if 65 \<le> n \<and> n \<le> 90 then char_of (n + 32) else c)"

definition upper_char :: "char \<Rightarrow> char" where
  "upper_char c = (let n = (of_char c :: nat)
     in if 97 \<le> n \<and> n \<le> 122 then char_of (n - 32) else c)"

definition py_lower :: "string \<Rightarrow> string" where
  "py_lower s = map lower_char s"

definition py_upper :: "string \<Rightarrow> string" where
  "py_upper s = map upper_char s"

definition is_digit :: "char \<Rightarrow> bool" where
  "is_digit c \<longleftrightarrow> (let n = (of_char c :: nat) in 48 \<le> n \<and> n \<le> 57)"

definition is_upper_alpha :: "char \<Rightarrow> bool" where
  "is_upper_alpha c \<longleftrightarrow> (let n = (of_char c :: nat) in 65 \<le> n \<and> n \<le> 90)"

definition is_lower_alpha :: "char \<Rightarrow> bool" where
  "is_lower_alpha c \<longleftrightarrow> (let n = (of_char c :: nat) in 97 \<le> n \<and> n \<le> 122)"

definition is_alpha :: "char \<Rightarrow> bool" where
  "is_alpha c \<longleftrightarrow> is_upper_alpha c \<or> is_lower_alpha c"

text \<open>\<open>a or b\<close> on text.\<close>

definition or_else :: "string \<Rightarrow> string \<Rightarrow> string" where
  "or_else a b = (if a = [] then b else a)"

definition py_startswith :: "string \<Rightarrow> string \<Rightarrow> bool" where
  "py_startswith s p \<longleftrightarrow> take (length p) s = p"

fun split_on :: "char \<Rightarrow> string \<Rightarrow> string list" where
  "split_on d [] = [[]]"
| "split_on d (c # cs) =
     (if c = d then [] # split_on d cs
      else (case split_on d cs of [] \<Rightarrow> [[c]] | w # ws \<Rightarrow> (c # w) # ws))"

fun join_with :: "string \<Rightarrow> string list \<Rightarrow> string" where
  "join_with d [] = []"
| "join_with d [w] = w"
| "join_with d (w # ws) = w @ d @ join_with d ws"

lemma split_on_not_Nil [simp]: "split_on d s \<noteq> []"
  by (induction s) (auto split: list.splits)

lemma split_on_no_sep: "d \<notin> set w \<Longrightarrow> split_on d w = [w]"
  by (induction w) auto

lemma split_on_append: "d \<notin> set w \<Longrightarrow> split_on d (w @ d # s) = w # split_on d s"
  by (induction w) (auto split: list.splits)

lemma lower_char_idem [simp]: "lower_char (lower_char c) = lower_char c"
proof -
  have "(of_char (char_of (of_char c + 32 :: nat) :: char) :: nat) = of_char c + 32"
    if "(of_char c :: nat) \<le> 90"
    using that by (simp add: of_char_of)
  then show ?thesis by (auto simp: lower_char_def Let_def)
qed

lemma upper_char_idem [simp]: "upper_char (upper_char c) = upper_char c"
proof -
  have "(of_char (char_of (of_char c - 32 :: nat) :: char) :: nat) = of_char c - 32"
    if "(of_char c :: nat) \<le> 122"
    using that by (simp add: of_char_of)
  then show ?thesis by (auto simp: upper_char_def Let_def)
qed

lemma py_lower_idem [simp]: "py_lower (py_lower s) = py_lower s"
  by (simp add: py_lower_def)

lemma py_upper_idem [simp]: "py_upper (py_upper s) = py_upper s"
  by (simp add: py_upper_def)

lemma lstrip_rstrip_ends:
  "py_strip s = [] \<or> (\<not> py_space (hd (py_strip s)) \<and> \<not> py_space (last (py_strip s)))"
proof (cases "py_strip s = []")
  case False
  define t where "t = lstrip s"
  have t: "py_strip s = rev (dropWhile py_space (rev t))"
    by (simp add: py_strip_def rstrip_def t_def)
  have l: "\<not> py_space (last (py_strip s))"
    using False t hd_dropWhile [of py_space "rev t"] by (simp add: last_rev)
  have tne: "t \<noteq> []" using False t by auto
  have ht: "\<not> py_space (hd t)"
    using tne hd_dropWhile [of py_space s] by (simp add: t_def lstrip_def)
  have "hd (py_strip s) = hd t"
  proof -
    have "t = py_strip s @ rev (takeWhile py_space (rev t))"
      using t by (metis rev_append rev_rev_ident takeWhile_dropWhile_id)
    then show ?thesis using False by (metis hd_append2)
  qed
  with l ht show ?thesis by simp
qed simp

lemma py_strip_id: "s = [] \<or> (\<not> py_space (hd s) \<and> \<not> py_space (last s)) \<Longrightarrow> py_strip s = s"
proof (cases "s = []")
  case False
  assume "s = [] \<or> (\<not> py_space (hd s) \<and> \<not> py_space (last s))"
  with False have h: "\<not> py_space (hd s)" and l: "\<not> py_space (hd (rev s))"
    by (auto simp: hd_rev)
  have "dropWhile py_space s = s"
    using False h by (cases s) auto
  moreover have "dropWhile py_space (rev s) = rev s"
    using False l by (cases "rev s") auto
  ultimately show ?thesis by (simp add: py_strip_def lstrip_def rstrip_def)
qed (simp add: py_strip_def lstrip_def rstrip_def)

lemma py_strip_idem [simp]: "py_strip (py_strip s) = py_strip s"
  by (rule py_strip_id) (rule lstrip_rstrip_ends)

lemma py_strip_Nil [simp]: "py_strip [] = []"
  by (simp add: py_strip_def lstrip_def rstrip_def)

section \<open>Numbers\<close>

text \<open>\<open>int(q)\<close> on a float truncates towards zero.\<close>

definition py_trunc :: "rat \<Rightarrow> int" where
  "py_trunc q = (if 0 \<le> q then \<lfloor>q\<rfloor> else \<lceil>q\<rceil>)"

definition digit_char :: "nat \<Rightarrow> char" where
  "digit_char n = char_of (48 + n)"

definition digit_val :: "char \<Rightarrow> int" where
  "digit_val c = int (of_char c) - 48"

lemma digit_char_values [simp]:
  "digit_char 0 = CHR ''0''" "digit_char 1 = CHR ''1''" "digit_char (Suc 0) = CHR ''1''"
  "digit_char 2 = CHR ''2''" "digit_char 3 = CHR ''3''" "digit_char 4 = CHR ''4''"
  "digit_char 5 = CHR ''5''" "digit_char 6 = CHR ''6''" "digit_char 7 = CHR ''7''"
  "digit_char 8 = CHR ''8''" "digit_char 9 = CHR ''9''"
  by code_simp+

fun show_nat :: "nat \<Rightarrow> string" where
  "show_nat n = (if n < 10 then [digit_char n] else show_nat (n div 10) @ [digit_char (n mod 10)])"

declare show_nat.simps [simp del]

definition show_int :: "int \<Rightarrow> string" where
  "show_int i = (if i < 0 then CHR ''-'' # show_nat (nat (- i)) else show_nat (nat i))"

text \<open>
  \<open>int(text)\<close> in base ten: surrounding white space, one sign, and digits in
  which single underscores may separate digits. \<open>None\<close> is the \<open>ValueError\<close>.
\<close>

fun parse_digits :: "int \<Rightarrow> bool \<Rightarrow> string \<Rightarrow> int option" where
  "parse_digits acc after [] = (if after then Some acc else None)"
| "parse_digits acc after (c # cs) =
     (if is_digit c then parse_digits (10 * acc + digit_val c) True cs
      else if c = CHR ''_'' \<and> after then parse_digits acc False cs
      else None)"

definition parse_int :: "string \<Rightarrow> int option" where
  "parse_int s =
     (case py_strip s of
        [] \<Rightarrow> None
      | c # cs \<Rightarrow>
          (if c = CHR ''-'' then map_option uminus (parse_digits 0 False cs)
           else if c = CHR ''+'' then parse_digits 0 False cs
           else parse_digits 0 False (c # cs)))"

lemma of_char_digit_char [simp]: "n < 10 \<Longrightarrow> (of_char (digit_char n) :: nat) = 48 + n"
  by (simp add: digit_char_def of_char_of)

lemma digit_char_props [simp]:
  assumes "n < 10"
  shows "is_digit (digit_char n)" "digit_val (digit_char n) = int n"
    "\<not> py_space (digit_char n)" "digit_char n \<noteq> CHR ''-''" "digit_char n \<noteq> CHR ''+''"
proof -
  show "is_digit (digit_char n)" "\<not> py_space (digit_char n)" "digit_val (digit_char n) = int n"
    using assms by (auto simp: is_digit_def py_space_def Let_def digit_val_def)
  have "(of_char (digit_char n) :: nat) \<noteq> of_char (CHR ''-'')"
    "(of_char (digit_char n) :: nat) \<noteq> of_char (CHR ''+'')"
    using assms by simp_all
  then show "digit_char n \<noteq> CHR ''-''" "digit_char n \<noteq> CHR ''+''" by metis+
qed

lemma parse_digits_append_digit:
  "parse_digits acc b s = Some v \<Longrightarrow> n < 10 \<Longrightarrow>
    parse_digits acc b (s @ [digit_char n]) = Some (10 * v + int n)"
  by (induction acc b s rule: parse_digits.induct) (auto split: if_splits)

lemma show_nat_not_Nil [simp]: "show_nat n \<noteq> []"
  by (subst show_nat.simps) simp

lemma parse_digits_show_nat: "parse_digits 0 b (show_nat n) = Some (int n)"
proof (induction n rule: show_nat.induct)
  case (1 n)
  show ?case
  proof (cases "n < 10")
    case True
    then show ?thesis by (subst show_nat.simps) simp
  next
    case False
    with 1 have "parse_digits 0 b (show_nat (n div 10)) = Some (int (n div 10))" by simp
    from parse_digits_append_digit [OF this, of "n mod 10"] False
    show ?thesis by (subst show_nat.simps) (simp add: zmod_int zdiv_int)
  qed
qed

lemma show_nat_digits: "c \<in> set (show_nat n) \<Longrightarrow> \<exists>k<10. c = digit_char k"
proof (induction n rule: show_nat.induct)
  case (1 n)
  then show ?case
    by (subst (asm) (2) show_nat.simps) (force split: if_splits)
qed

lemma show_nat_no_space: "c \<in> set (show_nat n) \<Longrightarrow> \<not> py_space c"
  by (metis show_nat_digits digit_char_props(3))

lemma show_nat_strip: "py_strip (show_nat n) = show_nat n"
proof (rule py_strip_id, rule disjI2)
  have "hd (show_nat n) \<in> set (show_nat n)" "last (show_nat n) \<in> set (show_nat n)" by simp_all
  then show "\<not> py_space (hd (show_nat n)) \<and> \<not> py_space (last (show_nat n))"
    by (metis show_nat_digits digit_char_props(3))
qed

lemma parse_int_show_int [simp]: "parse_int (show_int i) = Some i"
proof (cases "i < 0")
  case True
  have "last (CHR ''-'' # show_nat (nat (- i))) \<in> set (show_nat (nat (- i)))" by simp
  then have "\<not> py_space (last (CHR ''-'' # show_nat (nat (- i))))"
    by (metis show_nat_digits digit_char_props(3))
  then have "py_strip (CHR ''-'' # show_nat (nat (- i))) = CHR ''-'' # show_nat (nat (- i))"
    by (intro py_strip_id disjI2) (simp add: py_space_def)
  with True show ?thesis
    by (simp add: parse_int_def show_int_def parse_digits_show_nat)
next
  case False
  obtain c cs where c: "show_nat (nat i) = c # cs" by (cases "show_nat (nat i)") auto
  then obtain k where "k < 10" "c = digit_char k" using show_nat_digits [of c "nat i"] by auto
  moreover from c have "py_strip (c # cs) = c # cs" by (metis show_nat_strip)
  ultimately show ?thesis
    using False c parse_digits_show_nat [of False "nat i"]
    by (simp add: parse_int_def show_int_def del: parse_digits.simps)
qed

lemma digit_char_not_underscore [simp]: "n < 10 \<Longrightarrow> digit_char n \<noteq> CHR ''_''"
proof
  assume "n < 10" and "digit_char n = CHR ''_''"
  then have "(of_char (digit_char n) :: nat) = of_char (CHR ''_'')" by simp
  with \<open>n < 10\<close> show False by simp
qed

lemma underscore_notin_show_nat [simp]: "CHR ''_'' \<notin> set (show_nat n)"
  by (metis show_nat_digits digit_char_not_underscore)

lemma underscore_notin_show_int [simp]: "CHR ''_'' \<notin> set (show_int i)"
  by (simp add: show_int_def)

lemma show_int_inj: "show_int i = show_int j \<longleftrightarrow> i = j"
  by (metis option.inject parse_int_show_int)

lemma underscore_suffix_inj:
  "p @ CHR ''_'' # show_int i = q @ CHR ''_'' # show_int j \<longleftrightarrow> p = q \<and> i = j"
proof
  assume a: "p @ CHR ''_'' # show_int i = q @ CHR ''_'' # show_int j"
  have t: "takeWhile (\<lambda>x. x \<noteq> CHR ''_'') (rev (r @ CHR ''_'' # show_int k)) = rev (show_int k)"
    for r k
  proof -
    have "takeWhile (\<lambda>x. x \<noteq> CHR ''_'') (rev (show_int k) @ CHR ''_'' # rev r)
      = rev (show_int k) @ takeWhile (\<lambda>x. x \<noteq> CHR ''_'') (CHR ''_'' # rev r)"
      using underscore_notin_show_int [of k] by (intro takeWhile_append2) auto
    then show ?thesis by simp
  qed
  from a t [of p i] t [of q j] have "i = j" by (simp add: show_int_inj)
  with a show "p = q \<and> i = j" by simp
qed simp

section \<open>Text beyond ASCII\<close>

text \<open>
  Text that people or other services write is a list of Unicode code points;
  \<open>uni\<close> reads an ASCII literal as one.
\<close>

type_synonym utext = "nat list"

definition uni :: "string \<Rightarrow> utext" where
  "uni s = map of_char s"

definition u_space :: "nat \<Rightarrow> bool" where
  "u_space c \<longleftrightarrow> (let n = int c in 9 \<le> n \<and> n \<le> 13 \<or> 28 \<le> n \<and> n \<le> 32 \<or> n = 133 \<or> n = 160
     \<or> n = 5760 \<or> 8192 \<le> n \<and> n \<le> 8202 \<or> n = 8232 \<or> n = 8233 \<or> n = 8239 \<or> n = 8287 \<or> n = 12288)"

definition u_strip :: "utext \<Rightarrow> utext" where
  "u_strip s = rev (dropWhile u_space (rev (dropWhile u_space s)))"

fun occurs :: "utext \<Rightarrow> utext \<Rightarrow> bool" where
  "occurs needle [] = (needle = [])"
| "occurs needle (c # cs) = (take (length needle) (c # cs) = needle \<or> occurs needle cs)"

text \<open>
  \<open>str.lower\<close> as far as a comparison with ASCII text can tell: the ASCII letters,
  and the two other characters whose lower case contains an ASCII letter (the capital I with a dot
  and the Kelvin sign).
\<close>

definition u_lower_code :: "nat \<Rightarrow> utext" where
  "u_lower_code c =
     (if 65 \<le> c \<and> c \<le> 90 then [c + 32] else if c = 304 then [105, 775]
      else if c = 8490 then [107] else [c])"

definition u_lower :: "utext \<Rightarrow> utext" where
  "u_lower s = concat (map u_lower_code s)"

end
