(* ===== verification/Contracts.thy ===== *)
theory Contracts
  imports Prelude
begin

text \<open>
  The interfaces the components meet, as locales. A component that keeps state
  interprets \<open>invariant_machine\<close> on its own step function; the components that
  hand out exclusive ownership interpret \<open>exclusive_lease\<close>; the components that
  block a caller after repeated failures interpret \<open>failure_gate\<close>; the
  components that look rows up by key interpret \<open>keyed_store\<close>.
\<close>

section \<open>A machine whose steps keep an invariant\<close>

locale invariant_machine =
  fixes step :: "'e \<Rightarrow> 's \<Rightarrow> 's"
    and inv :: "'s \<Rightarrow> bool"
  assumes step_keeps: "inv s \<Longrightarrow> inv (step e s)"
begin

lemma run_keeps: "inv s \<Longrightarrow> inv (fold step es s)"
  by (induction es arbitrary: s) (auto intro: step_keeps)

lemma run_prefix_keeps: "inv s \<Longrightarrow> inv (fold step (take n es) s)"
  by (rule run_keeps)

end

text \<open>A machine that also observes something which its invariant freezes.\<close>

locale frozen_machine = invariant_machine step inv
  for step :: "'e \<Rightarrow> 's \<Rightarrow> 's" and inv :: "'s \<Rightarrow> bool" +
  fixes obs :: "'s \<Rightarrow> 'o"
  assumes step_obs: "inv s \<Longrightarrow> obs (step e s) = obs s"
begin

lemma run_obs: "inv s \<Longrightarrow> obs (fold step es s) = obs s"
proof (induction es arbitrary: s)
  case (Cons e es)
  then show ?case using step_obs step_keeps by simp
qed simp

end

section \<open>Exclusive ownership of a resource\<close>

text \<open>
  \<open>claim u k s\<close> tries to make the owner \<open>who u\<close> of the caller \<open>u\<close> the holder of the
  resource \<open>k\<close>; its second result says whether it was granted. The provider promises
  that a grant makes this owner the holder, that a claim on a resource somebody else
  holds is refused, and that a claim never changes who holds a held resource.
\<close>

locale exclusive_lease =
  fixes holder :: "'s \<Rightarrow> 'k \<Rightarrow> 'o option"
    and claim :: "'u \<Rightarrow> 'k \<Rightarrow> 's \<Rightarrow> 's \<times> bool"
    and ok :: "'s \<Rightarrow> bool"
    and who :: "'u \<Rightarrow> 'o"
  assumes claim_ok: "ok s \<Longrightarrow> ok (fst (claim u k s))"
    and granted_holds: "ok s \<Longrightarrow> snd (claim u k s) \<Longrightarrow> holder (fst (claim u k s)) k = Some (who u)"
    and held_refused: "ok s \<Longrightarrow> holder s k = Some v \<Longrightarrow> v \<noteq> who u \<Longrightarrow> \<not> snd (claim u k s)"
    and held_kept: "ok s \<Longrightarrow> holder s j = Some v \<Longrightarrow> holder (fst (claim u k s)) j = Some v"
begin

lemma claims_ok: "ok s \<Longrightarrow> ok (fold (\<lambda>(u, k) s. fst (claim u k s)) cs s)"
  by (induction cs arbitrary: s) (auto intro: claim_ok)

lemma claims_keep_holder:
  "ok s \<Longrightarrow> holder s k = Some v \<Longrightarrow>
    holder (fold (\<lambda>(u, k) s. fst (claim u k s)) cs s) k = Some v"
  by (induction cs arbitrary: s) (auto intro: claim_ok held_kept)

lemma second_claimer_refused:
  assumes "ok s" and "snd (claim u k s)" and "who v \<noteq> who u"
  shows "\<not> snd (claim v k (fold (\<lambda>(u, k) s. fst (claim u k s)) cs (fst (claim u k s))))"
proof -
  have "holder (fold (\<lambda>(u, k) s. fst (claim u k s)) cs (fst (claim u k s))) k = Some (who u)"
    using assms by (intro claims_keep_holder claim_ok granted_holds)
  then show ?thesis using assms(1,3) claims_ok claim_ok [OF assms(1)] by (intro held_refused) auto
qed

end

section \<open>Blocking after repeated failures\<close>

text \<open>
  \<open>fail t s\<close> records a failure at time \<open>t\<close>, \<open>count s\<close> is the number of failures
  of the current window and \<open>in_window t s\<close> says that the window is still open at
  \<open>t\<close>. Reaching the threshold blocks.
\<close>

locale failure_gate =
  fixes fail :: "'t \<Rightarrow> 's \<Rightarrow> 's"
    and count :: "'s \<Rightarrow> int"
    and in_window :: "'t \<Rightarrow> 's \<Rightarrow> bool"
    and blocked :: "'t \<Rightarrow> 's \<Rightarrow> bool"
    and threshold :: int
  assumes fail_count: "in_window t s \<Longrightarrow> count (fail t s) = count s + 1"
    and fail_within: "in_window t s \<Longrightarrow> in_window t' (fail t s) = in_window t' s"
    and fail_blocks: "count (fail t s) \<ge> threshold \<Longrightarrow> blocked t (fail t s)"
begin

lemma fails_count:
  "(\<And>t. t \<in> set ts \<Longrightarrow> in_window t s) \<Longrightarrow> count (fold fail ts s) = count s + int (length ts)"
  by (induction ts arbitrary: s) (auto simp: fail_count fail_within)

lemma fails_within:
  "(\<And>t. t \<in> set ts \<Longrightarrow> in_window t s) \<Longrightarrow> in_window t' (fold fail ts s) = in_window t' s"
  by (induction ts arbitrary: s) (auto simp: fail_within)

lemma threshold_blocks:
  assumes "\<And>u. u \<in> set (ts @ [t]) \<Longrightarrow> in_window u s"
    and "threshold \<le> count s + int (length ts) + 1"
  shows "blocked t (fold fail (ts @ [t]) s)"
proof -
  have c: "count (fold fail ts s) = count s + int (length ts)"
    using assms(1) by (intro fails_count) auto
  have "in_window t (fold fail ts s)" using assms(1) fails_within [of ts s t] by auto
  then have "count (fail t (fold fail ts s)) \<ge> threshold" using assms(2) c by (simp add: fail_count)
  then show ?thesis using fail_blocks by auto
qed

end

section \<open>Rows by key\<close>

locale keyed_store =
  fixes look :: "'m \<Rightarrow> 'k \<Rightarrow> 'v option"
    and put :: "'k \<Rightarrow> 'v \<Rightarrow> 'm \<Rightarrow> 'm"
    and del :: "'k \<Rightarrow> 'm \<Rightarrow> 'm"
  assumes look_put: "look (put k v m) j = (if j = k then Some v else look m j)"
    and look_del: "look (del k m) j = (if j = k then None else look m j)"
begin

definition modify :: "'k \<Rightarrow> ('v \<Rightarrow> 'v) \<Rightarrow> 'm \<Rightarrow> 'm" where
  "modify k f m = (case look m k of None \<Rightarrow> m | Some v \<Rightarrow> put k (f v) m)"

lemma look_modify: "look (modify k f m) j = (if j = k then map_option f (look m j) else look m j)"
  by (auto simp: modify_def look_put split: option.splits)

lemma look_puts_other: "k \<notin> set ks \<Longrightarrow> look (fold (\<lambda>j. put j (f j)) ks m) k = look m k"
  by (induction ks arbitrary: m) (auto simp: look_put)

lemma look_puts:
  "k \<in> set ks \<Longrightarrow> look (fold (\<lambda>j. put j (f j)) ks m) k = Some (f k)"
proof (induction ks arbitrary: m)
  case (Cons j ks)
  then show ?case by (cases "k \<in> set ks") (auto simp: look_put look_puts_other)
qed simp

lemma look_dels: "look (fold del ks m) k = (if k \<in> set ks then None else look m k)"
  by (induction ks arbitrary: m) (auto simp: look_del)

end

interpretation dict: keyed_store "map_of :: ('k \<times> 'v) list \<Rightarrow> 'k \<Rightarrow> 'v option"
  "AList.update" "AList.delete"
  by unfold_locales (simp_all add: update_conv' delete_conv')

text \<open>\<open>d[k].field = v\<close> on a row that is there.\<close>

definition dict_modify :: "'k \<Rightarrow> ('v \<Rightarrow> 'v) \<Rightarrow> ('k, 'v) dict \<Rightarrow> ('k, 'v) dict" where
  "dict_modify k f d = (case dict_get d k of None \<Rightarrow> d | Some v \<Rightarrow> dict_set k (f v) d)"

lemma dict_modify_eq: "dict_modify k f d = dict.modify k f d"
  by (simp add: dict_modify_def dict.modify_def)

lemma dict_get_modify [simp, dict_rules]:
  "dict_get (dict_modify k f d) j = (if j = k then map_option f (dict_get d j) else dict_get d j)"
  unfolding dict_modify_eq by (rule dict.look_modify)

lemma dict_ok_modify [simp, intro]: "dict_ok d \<Longrightarrow> dict_ok (dict_modify k f d)"
  by (auto simp: dict_modify_def split: option.split)

lemma keys_dict_set_present: "dict_get d k = Some u \<Longrightarrow> map fst (dict_set k v d) = map fst d"
  by (induction d) (auto split: if_splits)

lemma keys_dict_modify [simp]: "map fst (dict_modify k f d) = map fst d"
  by (auto simp: dict_modify_def keys_dict_set_present split: option.split)

text \<open>All rows of a dict satisfy a predicate.\<close>

definition dict_all :: "('k \<Rightarrow> 'v \<Rightarrow> bool) \<Rightarrow> ('k, 'v) dict \<Rightarrow> bool" where
  "dict_all P d \<longleftrightarrow> (\<forall>(k, v)\<in>set d. P k v)"

lemma dict_all_get: "dict_all P d \<Longrightarrow> dict_get d k = Some v \<Longrightarrow> P k v"
  by (auto simp: dict_all_def dest: map_of_SomeD)

lemma dict_all_set: "dict_all P d \<Longrightarrow> P k v \<Longrightarrow> dict_all P (dict_set k v d)"
  using set_dict_set_subset [of k v d] by (fastforce simp: dict_all_def)

lemma dict_all_pop: "dict_all P d \<Longrightarrow> dict_all P (dict_pop k d)"
  by (auto simp: dict_all_def set_dict_pop)

lemma dict_all_filter: "dict_all P d \<Longrightarrow> dict_all P (filter Q d)"
  by (auto simp: dict_all_def)

lemma dict_all_modify:
  "dict_all P d \<Longrightarrow> (\<And>v. dict_get d k = Some v \<Longrightarrow> P k v \<Longrightarrow> P k (f v)) \<Longrightarrow> dict_all P (dict_modify k f d)"
  by (auto simp: dict_modify_def split: option.split intro: dict_all_set dict_all_get)

lemma dict_all_Nil [simp]: "dict_all P []"
  by (simp add: dict_all_def)

end
