(* ===== verification/TaskControl.thy ===== *)
theory TaskControl
  imports Contracts
begin

text \<open>
  The cooperative task controller of \<open>core/task_runtime.py\<close>: class
  \<open>RegisterTaskControl\<close> and its \<open>VerificationChallenge\<close>. Every method runs under
  the controller's lock, so one method is one transition. The wait for a
  verification code is a loop that gives the lock up between two rounds; a round
  is \<open>wait_poll\<close>, the call of the action handler between two rounds is followed by
  \<open>wait_action_done\<close>, and \<open>wait_run\<close> plays the rounds against what the other
  threads do in between.
\<close>

section \<open>State\<close>

datatype vstatus = VPending | VSubmitted | VCancelled | VExpired

text \<open>The label of the phase: the default is the Chinese text for "email code".\<close>

datatype phase_label = DefaultOtpLabel | PhaseLabel string

record challenge =
  ch_id :: string
  ch_attempt_id :: "int option"
  ch_phase :: string
  ch_phase_label :: phase_label
  ch_email :: string
  ch_timeout_seconds :: int
  ch_created_at :: time
  ch_expires_at :: time
  ch_status :: vstatus
  ch_code :: string
  ch_cancel_reason :: string
  ch_metadata :: "(string, pyval) dict"
  ch_actions :: "string list"
  ch_action_request :: "(string, pyval) dict"
  ch_action_seq :: int

record control =
  stop_requested :: bool
  completion_stop_requested :: bool
  after_current_requested :: bool
  pending_skip_requests :: int
  next_attempt_id :: int
  next_challenge_id :: int
  active_attempt_ids :: "int set"
  skip_active_attempt_ids :: "int set"
  pending_verification :: "challenge option"

text \<open>
  The exceptions of the controller, by the place that raises them:
  \<open>StopTaskRequested\<close> and \<open>SkipCurrentAttemptRequested\<close> are the program's own, the
  four \<open>Wait...\<close> are \<open>RuntimeError\<close>s, \<open>WaitTimeout\<close> is the \<open>TimeoutError\<close>, \<open>No...\<close>
  and \<open>UnknownChallenge\<close> are \<open>KeyError\<close>s and the rest are \<open>ValueError\<close>s.
\<close>

datatype ctl_error =
    StopTaskRequested
  | SkipCurrentAttemptRequested
  | WaitLost
  | WaitReplaced
  | WaitEmptyCode
  | WaitCancelled
  | WaitTimeout phase_label int
  | EmptyChallengeId
  | EmptyCode
  | EmptyAction
  | NoPendingChallenge
  | UnknownChallenge
  | ChallengeFinished
  | ChallengeExpired
  | UnsupportedAction string

type_synonym 'a ctl_result = "control \<times> (ctl_error + 'a)"

definition init_control :: control where
  "init_control = \<lparr>stop_requested = False, completion_stop_requested = False,
     after_current_requested = False, pending_skip_requests = 0, next_attempt_id = 1,
     next_challenge_id = 1, active_attempt_ids = {}, skip_active_attempt_ids = {},
     pending_verification = None\<rparr>"

text \<open>\<open>VerificationChallenge(...)\<close> with its field defaults and \<open>__post_init__\<close>.\<close>

definition new_challenge ::
  "string \<Rightarrow> int option \<Rightarrow> string \<Rightarrow> phase_label \<Rightarrow> string \<Rightarrow> int \<Rightarrow> time \<Rightarrow>
   (string, pyval) dict \<Rightarrow> string list \<Rightarrow> challenge" where
  "new_challenge cid attempt ph lbl email timeout created meta acts =
    \<lparr>ch_id = cid, ch_attempt_id = attempt, ch_phase = ph, ch_phase_label = lbl,
     ch_email = email, ch_timeout_seconds = timeout, ch_created_at = created,
     ch_expires_at = created + of_int (max timeout 1), ch_status = VPending, ch_code = [],
     ch_cancel_reason = [], ch_metadata = meta, ch_actions = acts,
     ch_action_request = [], ch_action_seq = 0\<rparr>"

text \<open>\<open>VerificationChallenge.to_dict\<close>: every field but the code and the cancel reason.\<close>

record challenge_view =
  cv_id :: string
  cv_attempt_id :: "int option"
  cv_phase :: string
  cv_phase_label :: phase_label
  cv_email :: string
  cv_timeout_seconds :: int
  cv_created_at :: time
  cv_expires_at :: time
  cv_status :: vstatus
  cv_metadata :: "(string, pyval) dict"
  cv_actions :: "string list"
  cv_action_request :: "(string, pyval) dict"
  cv_action_seq :: int

definition challenge_to_dict :: "challenge \<Rightarrow> challenge_view" where
  "challenge_to_dict ch =
    \<lparr>cv_id = ch_id ch, cv_attempt_id = ch_attempt_id ch, cv_phase = ch_phase ch,
     cv_phase_label = ch_phase_label ch, cv_email = ch_email ch,
     cv_timeout_seconds = ch_timeout_seconds ch, cv_created_at = ch_created_at ch,
     cv_expires_at = ch_expires_at ch, cv_status = ch_status ch,
     cv_metadata = ch_metadata ch, cv_actions = ch_actions ch,
     cv_action_request = ch_action_request ch, cv_action_seq = ch_action_seq ch\<rparr>"

section \<open>Stop, skip and attempts\<close>

definition cancel_pending_verification :: "string \<Rightarrow> control \<Rightarrow> control" where
  "cancel_pending_verification reason c =
    (case pending_verification c of
       None \<Rightarrow> c
     | Some ch \<Rightarrow>
         if ch_status ch \<noteq> VPending then c
         else c\<lparr>pending_verification := Some (ch\<lparr>ch_status := VCancelled,
                ch_cancel_reason := or_else reason ''cancelled''\<rparr>)\<rparr>)"

definition request_stop :: "control \<Rightarrow> control \<times> bool" where
  "request_stop c =
    (cancel_pending_verification ''stop_requested''
       (c\<lparr>stop_requested := True, after_current_requested := False\<rparr>),
     \<not> stop_requested c)"

definition request_completion_stop :: "control \<Rightarrow> control \<times> bool" where
  "request_completion_stop c =
    (cancel_pending_verification ''completion_stop_requested''
       (c\<lparr>completion_stop_requested := True\<rparr>),
     \<not> completion_stop_requested c)"

definition request_stop_after_current :: "control \<Rightarrow> control \<times> bool" where
  "request_stop_after_current c =
    (if stop_requested c then (c, False)
     else (c\<lparr>after_current_requested := True\<rparr>, \<not> after_current_requested c))"

definition request_skip_current :: "control \<Rightarrow> control" where
  "request_skip_current c =
    cancel_pending_verification ''skip_requested''
      (if active_attempt_ids c \<noteq> {}
       then c\<lparr>skip_active_attempt_ids := skip_active_attempt_ids c \<union> active_attempt_ids c\<rparr>
       else c\<lparr>pending_skip_requests := pending_skip_requests c + 1\<rparr>)"

definition start_attempt :: "control \<Rightarrow> control \<times> int option" where
  "start_attempt c =
    (if stop_requested c \<or> completion_stop_requested c \<or> after_current_requested c
     then (c, None)
     else (c\<lparr>next_attempt_id := next_attempt_id c + 1,
             active_attempt_ids := insert (next_attempt_id c) (active_attempt_ids c)\<rparr>,
           Some (next_attempt_id c)))"

definition finish_attempt :: "int option \<Rightarrow> control \<Rightarrow> control" where
  "finish_attempt attempt c =
    (case attempt of
       None \<Rightarrow> c
     | Some a \<Rightarrow>
        (let c' = c\<lparr>active_attempt_ids := active_attempt_ids c - {a},
                    skip_active_attempt_ids := skip_active_attempt_ids c - {a}\<rparr>
         in case pending_verification c' of
              None \<Rightarrow> c'
            | Some ch \<Rightarrow>
                if ch_attempt_id ch = Some a \<and> ch_status ch = VPending
                then cancel_pending_verification ''attempt_finished'' c' else c'))"

definition resume_attempt :: "int option \<Rightarrow> control \<Rightarrow> unit ctl_result" where
  "resume_attempt attempt c =
    (case attempt of
       None \<Rightarrow> (c, Inr ())
     | Some a \<Rightarrow>
         if stop_requested c \<or> completion_stop_requested c
         then (c\<lparr>active_attempt_ids := active_attempt_ids c - {a},
                 skip_active_attempt_ids := skip_active_attempt_ids c - {a}\<rparr>,
               Inl StopTaskRequested)
         else (c\<lparr>active_attempt_ids := insert a (active_attempt_ids c)\<rparr>, Inr ()))"

definition checkpoint :: "bool \<Rightarrow> int option \<Rightarrow> control \<Rightarrow> unit ctl_result" where
  "checkpoint consume_skip attempt c =
    (if stop_requested c \<or> completion_stop_requested c then (c, Inl StopTaskRequested)
     else if \<not> consume_skip then (c, Inr ())
     else if (\<exists>a\<in>set_option attempt. a \<in> skip_active_attempt_ids c)
       then (c\<lparr>skip_active_attempt_ids := skip_active_attempt_ids c - set_option attempt\<rparr>,
             Inl SkipCurrentAttemptRequested)
     else if pending_skip_requests c > 0
       then (c\<lparr>pending_skip_requests := pending_skip_requests c - 1\<rparr>,
             Inl SkipCurrentAttemptRequested)
     else (c, Inr ()))"

definition checkpoint_immediate_stop :: "control \<Rightarrow> ctl_error + unit" where
  "checkpoint_immediate_stop c = (if stop_requested c then Inl StopTaskRequested else Inr ())"

definition is_stop_requested :: "control \<Rightarrow> bool" where
  "is_stop_requested c = stop_requested c"

definition is_completion_stop_requested :: "control \<Rightarrow> bool" where
  "is_completion_stop_requested c = completion_stop_requested c"

definition is_stop_after_current_requested :: "control \<Rightarrow> bool" where
  "is_stop_after_current_requested c = after_current_requested c"

definition should_stop_starting_new_attempts :: "control \<Rightarrow> bool" where
  "should_stop_starting_new_attempts c \<longleftrightarrow>
     stop_requested c \<or> completion_stop_requested c \<or> after_current_requested c"

definition current_verification_snapshot :: "control \<Rightarrow> challenge_view option" where
  "current_verification_snapshot c =
    (case pending_verification c of
       None \<Rightarrow> None
     | Some ch \<Rightarrow> if ch_status ch \<noteq> VPending then None else Some (challenge_to_dict ch))"

record control_view =
  sv_stop_requested :: bool
  sv_completion_stop_requested :: bool
  sv_stop_after_current_requested :: bool
  sv_after_current_requested :: bool
  sv_stop_mode :: string
  sv_pending_skip_requests :: int
  sv_active_attempts :: nat
  sv_targeted_skip_attempts :: nat

definition control_snapshot :: "control \<Rightarrow> control_view" where
  "control_snapshot c =
    \<lparr>sv_stop_requested = stop_requested c,
     sv_completion_stop_requested = completion_stop_requested c,
     sv_stop_after_current_requested = after_current_requested c,
     sv_after_current_requested = after_current_requested c,
     sv_stop_mode = (if stop_requested c then ''immediate''
                     else if after_current_requested c then ''after_current'' else []),
     sv_pending_skip_requests = pending_skip_requests c,
     sv_active_attempts = card (active_attempt_ids c),
     sv_targeted_skip_attempts = card (skip_active_attempt_ids c)\<rparr>"

section \<open>The verification challenge\<close>

text \<open>
  Lines of \<open>wait_for_verification_code\<close> before its loop. \<open>t_id\<close> is the clock read for
  the challenge id, \<open>t_created\<close> the one for \<open>created_at\<close>.
\<close>

definition wait_begin ::
  "int option \<Rightarrow> string \<Rightarrow> string \<Rightarrow> string \<Rightarrow> int \<Rightarrow> (string, pyval) dict \<Rightarrow> string list \<Rightarrow>
   time \<Rightarrow> time \<Rightarrow> control \<Rightarrow> string ctl_result" where
  "wait_begin attempt ph lbl email timeout meta acts t_id t_created c =
    (let timeout_value = max timeout 1;
         phase_value = or_else (py_strip (or_else ph ''email_otp'')) ''email_otp'';
         label_value = (if py_strip lbl = [] then DefaultOtpLabel else PhaseLabel (py_strip lbl));
         email_value = py_strip email
     in case checkpoint True attempt c of
          (c', Inl e) \<Rightarrow> (c', Inl e)
        | (c', Inr _) \<Rightarrow>
            (let cid = ''verify_'' @ show_int (py_trunc (t_id * 1000)) @ ''_''
                         @ show_int (next_challenge_id c');
                 ch = new_challenge cid attempt phase_value label_value email_value
                        timeout_value t_created meta
                        (filter (\<lambda>s. s \<noteq> []) (map py_strip acts))
             in (c'\<lparr>next_challenge_id := next_challenge_id c' + 1,
                    pending_verification := Some ch\<rparr>, Inr cid)))"

datatype wait_step =
    WaitReturn string
  | WaitRaise ctl_error
  | WaitCall string "(string, pyval) dict" int
  | WaitSleep time

definition payload_action :: "(string, pyval) dict \<Rightarrow> string" where
  "payload_action d = (case dict_get d ''action'' of Some (PStr s) \<Rightarrow> s | _ \<Rightarrow> [])"

definition payload_body :: "(string, pyval) dict \<Rightarrow> (string, pyval) dict" where
  "payload_body d = (case dict_get d ''payload'' of Some (PDict p) \<Rightarrow> p | _ \<Rightarrow> [])"

text \<open>
  One round of the loop, from its \<open>checkpoint\<close> to the return, the raise, the call
  of the handler or the wait on the condition. \<open>has_handler\<close> is
  \<open>callable(action_handler)\<close>, \<open>handled\<close> is \<open>handled_action_seq\<close> and \<open>now\<close> the clock.
\<close>

definition wait_poll ::
  "string \<Rightarrow> int option \<Rightarrow> bool \<Rightarrow> int \<Rightarrow> time \<Rightarrow> control \<Rightarrow> control \<times> wait_step" where
  "wait_poll cid attempt has_handler handled now c0 =
    (case checkpoint True attempt c0 of
       (c, Inl e) \<Rightarrow> (c, WaitRaise e)
     | (c, Inr _) \<Rightarrow>
        (case pending_verification c of
           None \<Rightarrow> (c, WaitRaise WaitLost)
         | Some ch \<Rightarrow>
            if ch_id ch \<noteq> cid then (c, WaitRaise WaitReplaced)
            else if ch_status ch = VSubmitted then
              (let code = py_strip (ch_code ch); c' = c\<lparr>pending_verification := None\<rparr>
               in if code = [] then (c', WaitRaise WaitEmptyCode) else (c', WaitReturn code))
            else if ch_status ch = VCancelled then
              (let reason = or_else (ch_cancel_reason ch) ''cancelled'';
                   c' = c\<lparr>pending_verification := None\<rparr>
               in if reason = ''stop_requested'' then (c', WaitRaise StopTaskRequested)
                  else if reason = ''skip_requested'' then
                    (c'\<lparr>skip_active_attempt_ids := skip_active_attempt_ids c' - set_option attempt\<rparr>,
                     WaitRaise SkipCurrentAttemptRequested)
                  else (c', WaitRaise WaitCancelled))
            else if has_handler \<and> ch_action_seq ch > handled then
              (let act = payload_action (ch_action_request ch);
                   ch' = ch\<lparr>ch_metadata :=
                     dict_merge (ch_metadata ch)
                       [(''action_status'', PStr ''handling''), (''action'', PStr act)]\<rparr>
               in (c\<lparr>pending_verification := Some ch'\<rparr>,
                   WaitCall act (payload_body (ch_action_request ch)) (ch_action_seq ch)))
            else if now \<ge> ch_expires_at ch then
              (c\<lparr>pending_verification := None\<rparr>,
               WaitRaise (WaitTimeout (ch_phase_label ch) (ch_timeout_seconds ch)))
            else (c, WaitSleep (min (1 / 2) (ch_expires_at ch - now)))))"

text \<open>
  What the handler did: it returned a result (with the \<open>metadata\<close> of that result,
  empty when the result is no dict), or it raised an exception with this text.
\<close>

datatype handler_outcome = HandlerReturned "(string, pyval) dict" | HandlerRaised string

definition wait_action_done ::
  "string \<Rightarrow> int \<Rightarrow> int \<Rightarrow> handler_outcome \<Rightarrow> control \<Rightarrow> control \<times> int" where
  "wait_action_done cid handled action_seq out c =
    (let action_error = (case out of HandlerReturned _ \<Rightarrow> [] | HandlerRaised msg \<Rightarrow> msg);
         result_metadata = (case out of HandlerReturned m \<Rightarrow> m | HandlerRaised _ \<Rightarrow> [])
     in case pending_verification c of
          None \<Rightarrow> (c, handled)
        | Some ch \<Rightarrow>
            if ch_id ch = cid then
              (c\<lparr>pending_verification := Some (ch\<lparr>ch_metadata :=
                   dict_merge (dict_merge (ch_metadata ch) result_metadata)
                     [(''action_status'', PStr (if action_error \<noteq> [] then ''failed'' else ''done'')),
                      (''action_error'', PStr action_error)]\<rparr>)\<rparr>, action_seq)
            else (c, handled))"

definition submit_verification ::
  "string \<Rightarrow> string \<Rightarrow> time \<Rightarrow> control \<Rightarrow> challenge_view ctl_result" where
  "submit_verification cid code now c =
    (let cid_value = py_strip cid; code_value = py_strip code
     in if cid_value = [] then (c, Inl EmptyChallengeId)
        else if code_value = [] then (c, Inl EmptyCode)
        else case pending_verification c of
            None \<Rightarrow> (c, Inl NoPendingChallenge)
          | Some ch \<Rightarrow>
              if ch_id ch \<noteq> cid_value then (c, Inl UnknownChallenge)
              else if ch_status ch \<noteq> VPending then (c, Inl ChallengeFinished)
              else if now \<ge> ch_expires_at ch
                then (c\<lparr>pending_verification := None\<rparr>, Inl ChallengeExpired)
              else (let ch' = ch\<lparr>ch_code := code_value, ch_status := VSubmitted\<rparr>
                    in (c\<lparr>pending_verification := Some ch'\<rparr>, Inr (challenge_to_dict ch'))))"

definition update_verification_metadata ::
  "string \<Rightarrow> (string, pyval) dict \<Rightarrow> control \<Rightarrow> challenge_view ctl_result" where
  "update_verification_metadata cid patch c =
    (case pending_verification c of
       None \<Rightarrow> (c, Inl NoPendingChallenge)
     | Some ch \<Rightarrow>
         if ch_id ch \<noteq> py_strip cid then (c, Inl UnknownChallenge)
         else if ch_status ch \<noteq> VPending then (c, Inl ChallengeFinished)
         else (let ch' = ch\<lparr>ch_metadata := dict_merge (ch_metadata ch) patch\<rparr>
               in (c\<lparr>pending_verification := Some ch'\<rparr>, Inr (challenge_to_dict ch'))))"

text \<open>\<open>now\<close> is the clock of the expiry test, \<open>requested\<close> the one stored in the request.\<close>

definition request_verification_action ::
  "string \<Rightarrow> string \<Rightarrow> (string, pyval) dict \<Rightarrow> time \<Rightarrow> time \<Rightarrow> control \<Rightarrow> challenge_view ctl_result" where
  "request_verification_action cid action payload now requested c =
    (let cid_value = py_strip cid; action_value = py_strip action
     in if cid_value = [] then (c, Inl EmptyChallengeId)
        else if action_value = [] then (c, Inl EmptyAction)
        else case pending_verification c of
            None \<Rightarrow> (c, Inl NoPendingChallenge)
          | Some ch \<Rightarrow>
              if ch_id ch \<noteq> cid_value then (c, Inl UnknownChallenge)
              else if ch_status ch \<noteq> VPending then (c, Inl ChallengeFinished)
              else if now \<ge> ch_expires_at ch
                then (c\<lparr>pending_verification := None\<rparr>, Inl ChallengeExpired)
              else (let allowed = map py_strip (ch_actions ch)
                    in if allowed \<noteq> [] \<and> action_value \<notin> set allowed
                       then (c, Inl (UnsupportedAction action_value))
                       else (let seq = ch_action_seq ch + 1;
                                 ch' = ch\<lparr>ch_action_seq := seq,
                                   ch_action_request :=
                                     [(''seq'', PInt seq), (''action'', PStr action_value),
                                      (''payload'', PDict payload), (''requested_at'', PFloat requested)],
                                   ch_metadata := dict_merge (ch_metadata ch)
                                     [(''action_status'', PStr ''pending''),
                                      (''action'', PStr action_value),
                                      (''action_error'', PStr [])]\<rparr>
                             in (c\<lparr>pending_verification := Some ch'\<rparr>, Inr (challenge_to_dict ch')))))"

section \<open>Events\<close>

text \<open>
  What the threads of a task can do to its controller. \<open>EvPoll\<close> and \<open>EvHandled\<close> are
  the two kinds of transition of a thread that waits for a code.
\<close>

datatype control_event =
    EvStop
  | EvCompletionStop
  | EvStopAfterCurrent
  | EvSkip
  | EvStart
  | EvFinish "int option"
  | EvResume "int option"
  | EvCheckpoint bool "int option"
  | EvWaitBegin "int option" string string string int "(string, pyval) dict" "string list" time time
  | EvPoll string "int option" bool int time
  | EvHandled string int int handler_outcome
  | EvSubmit string string time
  | EvUpdateMeta string "(string, pyval) dict"
  | EvAction string string "(string, pyval) dict" time time

fun control_step :: "control_event \<Rightarrow> control \<Rightarrow> control" where
  "control_step EvStop c = fst (request_stop c)"
| "control_step EvCompletionStop c = fst (request_completion_stop c)"
| "control_step EvStopAfterCurrent c = fst (request_stop_after_current c)"
| "control_step EvSkip c = request_skip_current c"
| "control_step EvStart c = fst (start_attempt c)"
| "control_step (EvFinish a) c = finish_attempt a c"
| "control_step (EvResume a) c = fst (resume_attempt a c)"
| "control_step (EvCheckpoint b a) c = fst (checkpoint b a c)"
| "control_step (EvWaitBegin a ph lbl em n m acts t u) c = fst (wait_begin a ph lbl em n m acts t u c)"
| "control_step (EvPoll cid a h n now) c = fst (wait_poll cid a h n now c)"
| "control_step (EvHandled cid n sq out) c = fst (wait_action_done cid n sq out c)"
| "control_step (EvSubmit cid code now) c = fst (submit_verification cid code now c)"
| "control_step (EvUpdateMeta cid patch) c = fst (update_verification_metadata cid patch c)"
| "control_step (EvAction cid act pl now req) c =
     fst (request_verification_action cid act pl now req c)"

text \<open>
  The loop of \<open>wait_for_verification_code\<close> played against the other threads: before
  each round they run the events \<open>env\<close>, and while a handler runs (the lock is
  released) they run the events \<open>dur\<close>. The result is \<open>None\<close> when the schedule ends
  and the thread still waits.
\<close>

fun wait_run ::
  "(string \<Rightarrow> (string, pyval) dict \<Rightarrow> handler_outcome) option \<Rightarrow> string \<Rightarrow> int option \<Rightarrow> int \<Rightarrow>
   (control_event list \<times> time \<times> control_event list) list \<Rightarrow> control \<Rightarrow>
   control \<times> (ctl_error + string) option" where
  "wait_run handler cid attempt handled [] c = (c, None)"
| "wait_run handler cid attempt handled ((env, now, dur) # rest) c =
     (case wait_poll cid attempt (handler \<noteq> None) handled now (fold control_step env c) of
        (c', WaitReturn code) \<Rightarrow> (c', Some (Inr code))
      | (c', WaitRaise e) \<Rightarrow> (c', Some (Inl e))
      | (c', WaitSleep _) \<Rightarrow> wait_run handler cid attempt handled rest c'
      | (c', WaitCall act body sq) \<Rightarrow>
          (let out = (case handler of None \<Rightarrow> HandlerReturned [] | Some h \<Rightarrow> h act body);
               (c'', handled') = wait_action_done cid handled sq out (fold control_step dur c')
           in wait_run handler cid attempt handled' rest c''))"

section \<open>What every operation leaves alone\<close>

named_theorems control_defs \<open>the definitions of the controller's operations\<close>

lemmas control_op_defs [control_defs] =
  request_stop_def request_completion_stop_def request_stop_after_current_def
  request_skip_current_def start_attempt_def finish_attempt_def resume_attempt_def
  checkpoint_def wait_begin_def wait_poll_def wait_action_done_def submit_verification_def
  update_verification_metadata_def request_verification_action_def

lemma cancel_pending_fields [simp]:
  "stop_requested (cancel_pending_verification r c) = stop_requested c"
  "completion_stop_requested (cancel_pending_verification r c) = completion_stop_requested c"
  "after_current_requested (cancel_pending_verification r c) = after_current_requested c"
  "pending_skip_requests (cancel_pending_verification r c) = pending_skip_requests c"
  "next_attempt_id (cancel_pending_verification r c) = next_attempt_id c"
  "next_challenge_id (cancel_pending_verification r c) = next_challenge_id c"
  "active_attempt_ids (cancel_pending_verification r c) = active_attempt_ids c"
  "skip_active_attempt_ids (cancel_pending_verification r c) = skip_active_attempt_ids c"
  by (auto simp: cancel_pending_verification_def split: option.splits)

lemma checkpoint_fields [simp]:
  "stop_requested (fst (checkpoint b a c)) = stop_requested c"
  "completion_stop_requested (fst (checkpoint b a c)) = completion_stop_requested c"
  "after_current_requested (fst (checkpoint b a c)) = after_current_requested c"
  "next_attempt_id (fst (checkpoint b a c)) = next_attempt_id c"
  "next_challenge_id (fst (checkpoint b a c)) = next_challenge_id c"
  "active_attempt_ids (fst (checkpoint b a c)) = active_attempt_ids c"
  "pending_verification (fst (checkpoint b a c)) = pending_verification c"
  by (auto simp: checkpoint_def)

lemma checkpoint_skip_subset:
  "skip_active_attempt_ids (fst (checkpoint b a c)) \<subseteq> skip_active_attempt_ids c"
  by (auto simp: checkpoint_def)

text \<open>
  The fields a waiting thread and the challenge operations never write: the stop
  flags, the attempt counter and the active attempts.
\<close>

definition gate_fields :: "control \<Rightarrow> bool \<times> bool \<times> bool \<times> int \<times> int set" where
  "gate_fields c = (stop_requested c, completion_stop_requested c, after_current_requested c,
     next_attempt_id c, active_attempt_ids c)"

lemma gate_fields_updates [simp]:
  "gate_fields (c\<lparr>pending_verification := p\<rparr>) = gate_fields c"
  "gate_fields (c\<lparr>next_challenge_id := n\<rparr>) = gate_fields c"
  "gate_fields (c\<lparr>skip_active_attempt_ids := k\<rparr>) = gate_fields c"
  by (simp_all add: gate_fields_def)

lemma gate_fields_checkpoint: "checkpoint b a c = (c', r) \<Longrightarrow> gate_fields c' = gate_fields c"
  using checkpoint_fields [of b a c] by (simp add: gate_fields_def)

lemma gate_fields_wait_begin:
  "wait_begin a ph lbl em n m acts t u c = (c', r) \<Longrightarrow> gate_fields c' = gate_fields c"
  by (auto simp: wait_begin_def Let_def dest!: gate_fields_checkpoint split: prod.splits sum.splits)

lemma gate_fields_wait_poll:
  "wait_poll cid a h n now c = (c', r) \<Longrightarrow> gate_fields c' = gate_fields c"
  by (auto simp: wait_poll_def Let_def dest!: gate_fields_checkpoint
      split: prod.splits sum.splits option.splits if_splits)

lemma gate_fields_challenge_ops [simp]:
  "gate_fields (fst (wait_action_done cid n sq out c)) = gate_fields c"
  "gate_fields (fst (submit_verification cid code now c)) = gate_fields c"
  "gate_fields (fst (update_verification_metadata cid patch c)) = gate_fields c"
  "gate_fields (fst (request_verification_action cid act pl now req c)) = gate_fields c"
  by (auto simp: wait_action_done_def submit_verification_def update_verification_metadata_def
      request_verification_action_def Let_def split: option.splits handler_outcome.splits)

text \<open>No operation but the skip request adds to the set of attempts to skip.\<close>

lemma skip_ids_checkpoint:
  "checkpoint b a c = (c', r) \<Longrightarrow> skip_active_attempt_ids c' \<subseteq> skip_active_attempt_ids c"
  using checkpoint_skip_subset [of b a c] by simp

lemma skip_ids_wait_begin:
  "wait_begin a ph lbl em n m acts t u c = (c', r) \<Longrightarrow>
    skip_active_attempt_ids c' \<subseteq> skip_active_attempt_ids c"
  by (auto simp: wait_begin_def Let_def dest!: skip_ids_checkpoint split: prod.splits sum.splits)

lemma skip_ids_wait_poll:
  "wait_poll cid a h n now c = (c', r) \<Longrightarrow>
    skip_active_attempt_ids c' \<subseteq> skip_active_attempt_ids c"
  by (auto simp: wait_poll_def Let_def dest!: skip_ids_checkpoint
      split: prod.splits sum.splits option.splits if_splits)

lemma skip_ids_same [simp]:
  "skip_active_attempt_ids (fst (wait_action_done cid n sq out c)) = skip_active_attempt_ids c"
  "skip_active_attempt_ids (fst (submit_verification cid code now c)) = skip_active_attempt_ids c"
  "skip_active_attempt_ids (fst (update_verification_metadata cid patch c)) = skip_active_attempt_ids c"
  "skip_active_attempt_ids (fst (request_verification_action cid act pl now req c)) = skip_active_attempt_ids c"
  by (auto simp: wait_action_done_def submit_verification_def update_verification_metadata_def
      request_verification_action_def Let_def split: option.splits handler_outcome.splits)

end
