(* ===== verification/TaskControlProofs.thy ===== *)
theory TaskControlProofs
  imports TaskControl
begin

text \<open>
  What the task controller guarantees: an invariant of every reachable state, the
  finality of the stop gates, the freshness of attempt ids, the delivery of skips
  and codes, and the end of every wait at its deadline.
\<close>

section \<open>The invariant\<close>

text \<open>
  A cancelled challenge tells why it was cancelled, and a cancellation by a stop
  leaves the flag of that stop behind.
\<close>

definition cancel_reason_ok :: "control \<Rightarrow> bool" where
  "cancel_reason_ok c \<longleftrightarrow>
    (case pending_verification c of
       None \<Rightarrow> True
     | Some ch \<Rightarrow> ch_status ch = VCancelled \<longrightarrow>
         (ch_cancel_reason ch = ''stop_requested'' \<longrightarrow> stop_requested c) \<and>
         (ch_cancel_reason ch = ''completion_stop_requested'' \<longrightarrow> completion_stop_requested c))"

definition control_ok :: "control \<Rightarrow> bool" where
  "control_ok c \<longleftrightarrow>
     \<not> (stop_requested c \<and> after_current_requested c) \<and>
     skip_active_attempt_ids c \<subseteq> active_attempt_ids c \<and>
     finite (active_attempt_ids c) \<and>
     0 \<le> pending_skip_requests c \<and>
     cancel_reason_ok c"

lemma control_ok_cases:
  assumes "control_ok c"
  shows "\<not> (stop_requested c \<and> after_current_requested c)"
    "skip_active_attempt_ids c \<subseteq> active_attempt_ids c" "finite (active_attempt_ids c)"
    "0 \<le> pending_skip_requests c" "cancel_reason_ok c"
  using assms by (auto simp: control_ok_def)

lemma cancel_reason_ok_cancel:
  assumes "cancel_reason_ok c" and "r \<noteq> []"
    and "r = ''stop_requested'' \<Longrightarrow> stop_requested c"
    and "r = ''completion_stop_requested'' \<Longrightarrow> completion_stop_requested c"
  shows "cancel_reason_ok (cancel_pending_verification r c)"
proof (cases "pending_verification c")
  case None
  with assms(1) show ?thesis by (simp add: cancel_pending_verification_def)
next
  case (Some ch)
  show ?thesis
  proof (cases "ch_status ch = VPending")
    case True
    with Some assms(2-4) show ?thesis
      by (simp add: cancel_pending_verification_def cancel_reason_ok_def or_else_def)
  next
    case False
    with Some assms(1) show ?thesis by (simp add: cancel_pending_verification_def)
  qed
qed

lemma cancel_reason_ok_reasons [simp]:
  "cancel_reason_ok c \<Longrightarrow> stop_requested c \<Longrightarrow>
    cancel_reason_ok (cancel_pending_verification ''stop_requested'' c)"
  "cancel_reason_ok c \<Longrightarrow> completion_stop_requested c \<Longrightarrow>
    cancel_reason_ok (cancel_pending_verification ''completion_stop_requested'' c)"
  "cancel_reason_ok c \<Longrightarrow> cancel_reason_ok (cancel_pending_verification ''skip_requested'' c)"
  "cancel_reason_ok c \<Longrightarrow> cancel_reason_ok (cancel_pending_verification ''attempt_finished'' c)"
  by (rule cancel_reason_ok_cancel; simp)+

lemma cancel_reason_ok_same:
  assumes "cancel_reason_ok c" and "gate_fields c' = gate_fields c"
    and "pending_verification c' = None \<or> pending_verification c' = pending_verification c
      \<or> (\<exists>ch. pending_verification c' = Some ch \<and> ch_status ch \<noteq> VCancelled)"
  shows "cancel_reason_ok c'"
  using assms by (auto simp: cancel_reason_ok_def gate_fields_def split: option.splits)

lemma pending_skip_checkpoint:
  "checkpoint b a c = (c', r) \<Longrightarrow> 0 \<le> pending_skip_requests c \<Longrightarrow> 0 \<le> pending_skip_requests c'"
  by (auto simp: checkpoint_def split: if_splits)

lemma pending_verification_checkpoint:
  "checkpoint b a c = (c', r) \<Longrightarrow> pending_verification c' = pending_verification c"
  by (auto simp: checkpoint_def split: if_splits)

lemma control_ok_transfer:
  assumes "control_ok c" and "gate_fields c' = gate_fields c"
    and "skip_active_attempt_ids c' \<subseteq> skip_active_attempt_ids c"
    and "0 \<le> pending_skip_requests c'" and "cancel_reason_ok c'"
  shows "control_ok c'"
  using assms by (auto simp: control_ok_def gate_fields_def)

lemma control_ok_checkpoint: "control_ok c \<Longrightarrow> control_ok (fst (checkpoint b a c))"
proof -
  assume ok: "control_ok c"
  obtain c' r where c': "checkpoint b a c = (c', r)" by (cases "checkpoint b a c")
  have "cancel_reason_ok c'"
    using control_ok_cases(5) [OF ok] gate_fields_checkpoint [OF c'] pending_verification_checkpoint [OF c']
    by (rule cancel_reason_ok_same [OF _ _ disjI2 [OF disjI1]])
  with c' show ?thesis
    using control_ok_transfer [OF ok gate_fields_checkpoint [OF c'] skip_ids_checkpoint [OF c']
      pending_skip_checkpoint [OF c' control_ok_cases(4) [OF ok]]] by simp
qed

text \<open>
  What a transition may do to the slot of the challenge without touching its
  cancellation: clear it, keep it, or fill it with a challenge that is not cancelled.
\<close>

definition slot_kept :: "control \<Rightarrow> control \<Rightarrow> bool" where
  "slot_kept c c' \<longleftrightarrow> pending_verification c' = None
     \<or> pending_verification c' = pending_verification c
     \<or> (\<exists>ch. pending_verification c' = Some ch \<and> ch_status ch \<noteq> VCancelled)"

lemma slot_keptI [intro]:
  "pending_verification c' = None \<Longrightarrow> slot_kept c c'"
  "pending_verification c' = pending_verification c \<Longrightarrow> slot_kept c c'"
  "pending_verification c' = Some ch \<Longrightarrow> ch_status ch \<noteq> VCancelled \<Longrightarrow> slot_kept c c'"
  by (auto simp: slot_kept_def)

lemma control_ok_slot:
  assumes ok: "control_ok c" and "gate_fields c' = gate_fields c" and "slot_kept c c'"
    and "skip_active_attempt_ids c' \<subseteq> skip_active_attempt_ids c"
    and "0 \<le> pending_skip_requests c'"
  shows "control_ok c'"
  by (rule control_ok_transfer [OF assms(1,2,4,5)])
    (rule cancel_reason_ok_same [OF control_ok_cases(5) [OF ok] assms(2)],
     use assms(3) in \<open>simp add: slot_kept_def\<close>)

lemma control_ok_wait_begin: "control_ok c \<Longrightarrow> control_ok (fst (wait_begin a ph lbl em n m acts t u c))"
proof -
  assume ok: "control_ok c"
  obtain c1 r where c1: "checkpoint True a c = (c1, r)" by (cases "checkpoint True a c")
  then have ok1: "control_ok c1" using control_ok_checkpoint [OF ok, of True a] by simp
  show ?thesis
  proof (cases r)
    case Inl
    with c1 ok1 show ?thesis by (simp add: wait_begin_def Let_def)
  next
    case Inr
    show ?thesis
      by (rule control_ok_slot [OF ok1])
        (simp_all add: wait_begin_def Let_def c1 Inr slot_kept_def new_challenge_def
          control_ok_cases [OF ok1])
  qed
qed

lemma wait_poll_slot: "wait_poll cid a h n now c = (c', r) \<Longrightarrow> slot_kept c c'"
proof -
  assume c': "wait_poll cid a h n now c = (c', r)"
  obtain c1 q where c1: "checkpoint True a c = (c1, q)" by (cases "checkpoint True a c")
  note p = pending_verification_checkpoint [OF c1]
  show ?thesis
    using c' p unfolding wait_poll_def c1
    by (auto simp: Let_def slot_kept_def split: sum.splits option.splits if_splits)
qed

lemma wait_poll_pending_skip:
  assumes "wait_poll cid a h n now c = (c', r)" and "0 \<le> pending_skip_requests c"
  shows "0 \<le> pending_skip_requests c'"
  using assms
  by (auto simp: wait_poll_def Let_def dest: pending_skip_checkpoint
      split: prod.splits sum.splits option.splits if_splits)

lemma control_ok_wait_poll: "control_ok c \<Longrightarrow> control_ok (fst (wait_poll cid a h n now c))"
proof -
  assume ok: "control_ok c"
  obtain c' r where c': "wait_poll cid a h n now c = (c', r)" by (cases "wait_poll cid a h n now c")
  show ?thesis
    using control_ok_slot [OF ok gate_fields_wait_poll [OF c'] wait_poll_slot [OF c']
        skip_ids_wait_poll [OF c'] wait_poll_pending_skip [OF c' control_ok_cases(4) [OF ok]]] c'
    by simp
qed

lemma challenge_ops_slot:
  "cancel_reason_ok c \<Longrightarrow> cancel_reason_ok (fst (wait_action_done cid n sq out c))"
  "slot_kept c (fst (submit_verification cid code now c))"
  "slot_kept c (fst (update_verification_metadata cid patch c))"
  "slot_kept c (fst (request_verification_action cid act pl now req c))"
  by (auto simp: wait_action_done_def cancel_reason_ok_def Let_def slot_kept_def
      split: option.splits handler_outcome.splits)
    (auto simp: submit_verification_def update_verification_metadata_def
      request_verification_action_def Let_def slot_kept_def split: option.splits if_splits)

lemma challenge_ops_pending_skip [simp]:
  "pending_skip_requests (fst (wait_action_done cid n sq out c)) = pending_skip_requests c"
  "pending_skip_requests (fst (submit_verification cid code now c)) = pending_skip_requests c"
  "pending_skip_requests (fst (update_verification_metadata cid patch c)) = pending_skip_requests c"
  "pending_skip_requests (fst (request_verification_action cid act pl now req c)) = pending_skip_requests c"
  by (simp_all add: wait_action_done_def submit_verification_def update_verification_metadata_def
      request_verification_action_def Let_def split: option.split)

lemma control_ok_challenge_ops:
  assumes ok: "control_ok c"
  shows "control_ok (fst (wait_action_done cid n sq out c))"
    "control_ok (fst (submit_verification cid code now c))"
    "control_ok (fst (update_verification_metadata cid patch c))"
    "control_ok (fst (request_verification_action cid act pl now req c))"
proof -
  note f = control_ok_cases [OF ok]
  show "control_ok (fst (wait_action_done cid n sq out c))"
    by (rule control_ok_transfer [OF ok]) (simp_all add: f challenge_ops_slot)
  show "control_ok (fst (submit_verification cid code now c))"
    by (rule control_ok_slot [OF ok]) (simp_all add: f challenge_ops_slot)
  show "control_ok (fst (update_verification_metadata cid patch c))"
    by (rule control_ok_slot [OF ok]) (simp_all add: f challenge_ops_slot)
  show "control_ok (fst (request_verification_action cid act pl now req c))"
    by (rule control_ok_slot [OF ok]) (simp_all add: f challenge_ops_slot)
qed

lemma cancel_reason_ok_flags [simp]:
  "cancel_reason_ok c \<Longrightarrow> cancel_reason_ok (c\<lparr>stop_requested := True\<rparr>)"
  "cancel_reason_ok c \<Longrightarrow> cancel_reason_ok (c\<lparr>completion_stop_requested := True\<rparr>)"
  "cancel_reason_ok (c\<lparr>after_current_requested := b\<rparr>) = cancel_reason_ok c"
  "cancel_reason_ok (c\<lparr>skip_active_attempt_ids := k\<rparr>) = cancel_reason_ok c"
  "cancel_reason_ok (c\<lparr>pending_skip_requests := n\<rparr>) = cancel_reason_ok c"
  "cancel_reason_ok (c\<lparr>active_attempt_ids := k\<rparr>) = cancel_reason_ok c"
  "cancel_reason_ok (c\<lparr>next_attempt_id := n\<rparr>) = cancel_reason_ok c"
  by (auto simp: cancel_reason_ok_def split: option.splits)

lemma control_ok_stops:
  assumes ok: "control_ok c"
  shows "control_ok (fst (request_stop c))" "control_ok (fst (request_completion_stop c))"
    "control_ok (fst (request_stop_after_current c))"
  using control_ok_cases [OF ok]
  by (simp_all add: control_ok_def request_stop_def request_completion_stop_def
      request_stop_after_current_def)

lemma control_ok_skip:
  assumes ok: "control_ok c"
  shows "control_ok (request_skip_current c)"
  using control_ok_cases [OF ok]
  by (auto simp: control_ok_def request_skip_current_def)

lemma control_ok_attempts:
  assumes ok: "control_ok c"
  shows "control_ok (fst (start_attempt c))" "control_ok (fst (resume_attempt a c))"
    "control_ok (finish_attempt a c)"
proof -
  note f = control_ok_cases [OF ok]
  show "control_ok (fst (start_attempt c))"
    using f by (simp add: control_ok_def start_attempt_def subset_insertI2)
  show "control_ok (fst (resume_attempt a c))"
    using f by (auto simp: control_ok_def resume_attempt_def split: option.split)
  show "control_ok (finish_attempt a c)"
  proof (cases a)
    case None
    with ok show ?thesis by (simp add: finish_attempt_def)
  next
    case (Some i)
    with f show ?thesis
      by (auto simp: control_ok_def finish_attempt_def Let_def
          split: option.split)
  qed
qed

lemma control_step_ok: "control_ok c \<Longrightarrow> control_ok (control_step e c)"
  by (cases e) (simp_all add: control_ok_stops control_ok_skip control_ok_attempts control_ok_checkpoint control_ok_wait_begin
      control_ok_wait_poll control_ok_challenge_ops)

interpretation controller: invariant_machine control_step control_ok
  by unfold_locales (rule control_step_ok)

section \<open>The gates and the attempt ids\<close>

lemma gate_fieldsD:
  assumes "gate_fields c' = gate_fields c"
  shows "stop_requested c' = stop_requested c"
    "completion_stop_requested c' = completion_stop_requested c"
    "after_current_requested c' = after_current_requested c"
    "next_attempt_id c' = next_attempt_id c" "active_attempt_ids c' = active_attempt_ids c"
  using assms by (simp_all add: gate_fields_def)

lemma gate_fields_fst:
  "gate_fields (fst (checkpoint b a c)) = gate_fields c"
  "gate_fields (fst (wait_begin a ph lbl em n m acts t u c)) = gate_fields c"
  "gate_fields (fst (wait_poll cid a h k now c)) = gate_fields c"
  by (metis gate_fields_checkpoint prod.collapse)
    (metis gate_fields_wait_begin gate_fields_wait_poll prod.collapse)+

lemmas gate_kept =
  gate_fieldsD [OF gate_fields_fst(1)] gate_fieldsD [OF gate_fields_fst(2)]
  gate_fieldsD [OF gate_fields_fst(3)] gate_fieldsD [OF gate_fields_challenge_ops(1)]
  gate_fieldsD [OF gate_fields_challenge_ops(2)] gate_fieldsD [OF gate_fields_challenge_ops(3)]
  gate_fieldsD [OF gate_fields_challenge_ops(4)]

lemma control_step_flags:
  "stop_requested c \<Longrightarrow> stop_requested (control_step e c)"
  "completion_stop_requested c \<Longrightarrow> completion_stop_requested (control_step e c)"
  "after_current_requested c \<Longrightarrow> \<not> stop_requested (control_step e c) \<Longrightarrow>
    after_current_requested (control_step e c)"
  by (cases e; simp add: gate_kept request_stop_def request_completion_stop_def
      request_stop_after_current_def request_skip_current_def start_attempt_def
      finish_attempt_def resume_attempt_def Let_def split: option.split)+

lemma control_step_gate:
  "should_stop_starting_new_attempts c \<Longrightarrow> should_stop_starting_new_attempts (control_step e c)"
  using control_step_flags [of c e] by (auto simp: should_stop_starting_new_attempts_def)

interpretation gate: invariant_machine control_step should_stop_starting_new_attempts
  by unfold_locales (rule control_step_gate)

interpretation stopped: invariant_machine control_step stop_requested
  by unfold_locales (rule control_step_flags(1))

lemma control_step_next_id:
  "next_attempt_id (control_step e c) =
    (if e = EvStart \<and> \<not> should_stop_starting_new_attempts c
     then next_attempt_id c + 1 else next_attempt_id c)"
  by (cases e; simp add: gate_kept request_stop_def request_completion_stop_def
      request_stop_after_current_def request_skip_current_def start_attempt_def
      finish_attempt_def resume_attempt_def should_stop_starting_new_attempts_def Let_def
      split: option.split)

text \<open>The ids that the \<open>start_attempt\<close> calls of a run return, in order.\<close>

fun started_ids :: "control_event list \<Rightarrow> control \<Rightarrow> int list" where
  "started_ids [] c = []"
| "started_ids (e # es) c =
     (if e = EvStart then (case snd (start_attempt c) of None \<Rightarrow> [] | Some a \<Rightarrow> [a]) else [])
     @ started_ids es (control_step e c)"

lemma start_attempt_result:
  "snd (start_attempt c) =
    (if should_stop_starting_new_attempts c then None else Some (next_attempt_id c))"
  by (simp add: start_attempt_def should_stop_starting_new_attempts_def)

lemma started_ids_sorted:
  "sorted_wrt (<) (started_ids es c) \<and> (\<forall>a\<in>set (started_ids es c). next_attempt_id c \<le> a)"
proof (induction es arbitrary: c)
  case (Cons e es)
  let ?c = "control_step e c"
  have sorted: "sorted_wrt (<) (started_ids es ?c)"
    and low: "\<And>a. a \<in> set (started_ids es ?c) \<Longrightarrow> next_attempt_id ?c \<le> a"
    using Cons.IH [of ?c] by blast+
  show ?case
  proof (cases "e = EvStart \<and> \<not> should_stop_starting_new_attempts c")
    case True
    then have "next_attempt_id ?c = next_attempt_id c + 1" by (subst control_step_next_id) (rule if_P)
    then have "next_attempt_id c < a" if "a \<in> set (started_ids es ?c)" for a
      using low [OF that] by linarith
    with True sorted show ?thesis by (auto simp: start_attempt_result intro: less_imp_le)
  next
    case False
    then have "next_attempt_id ?c = next_attempt_id c" by (subst control_step_next_id) (rule if_not_P)
    then have "started_ids (e # es) c = started_ids es ?c"
      using False by (auto simp: start_attempt_result)
    with sorted low \<open>next_attempt_id ?c = next_attempt_id c\<close> show ?thesis by simp
  qed
qed simp

lemma started_ids_closed: "should_stop_starting_new_attempts c \<Longrightarrow> started_ids es c = []"
  by (induction es arbitrary: c) (auto simp: start_attempt_result control_step_gate)

section \<open>Deadlines\<close>

text \<open>
  Challenge ids are numbered: the challenge that got number \<open>n\<close> keeps the deadline
  \<open>d\<close> as long as it is in the slot, because no later challenge has its id.
\<close>

definition challenge_name :: "time \<Rightarrow> int \<Rightarrow> string" where
  "challenge_name t n = ''verify_'' @ show_int (py_trunc (t * 1000)) @ ''_'' @ show_int n"

lemma challenge_name_inj: "challenge_name t n = challenge_name u m \<Longrightarrow> n = m"
  using underscore_suffix_inj [of "show_int (py_trunc (t * 1000))" n "show_int (py_trunc (u * 1000))" m]
  by (simp add: challenge_name_def)

definition deadline_kept :: "string \<Rightarrow> int \<Rightarrow> time \<Rightarrow> control \<Rightarrow> bool" where
  "deadline_kept cid n d c \<longleftrightarrow> n < next_challenge_id c \<and>
     (\<forall>ch. pending_verification c = Some ch \<longrightarrow> ch_id ch = cid \<longrightarrow> ch_expires_at ch = d)"

lemma deadline_kept_transfer:
  assumes "deadline_kept cid n d c" and "next_challenge_id c' = next_challenge_id c"
    and "\<And>ch'. pending_verification c' = Some ch' \<Longrightarrow>
      \<exists>ch. pending_verification c = Some ch \<and> ch_id ch' = ch_id ch \<and> ch_expires_at ch' = ch_expires_at ch"
  shows "deadline_kept cid n d c'"
  using assms by (fastforce simp: deadline_kept_def)

text \<open>Two slots hold the same challenge, up to its status, code and metadata.\<close>

definition same_slot :: "control \<Rightarrow> control \<Rightarrow> bool" where
  "same_slot c c' \<longleftrightarrow> next_challenge_id c' = next_challenge_id c \<and>
     (\<forall>ch'. pending_verification c' = Some ch' \<longrightarrow>
        (\<exists>ch. pending_verification c = Some ch \<and> ch_id ch' = ch_id ch
           \<and> ch_expires_at ch' = ch_expires_at ch))"

lemma same_slot_refl [simp]: "same_slot c c"
  by (simp add: same_slot_def)

lemma same_slot_cancel: "same_slot c (cancel_pending_verification r c)"
  by (auto simp: cancel_pending_verification_def same_slot_def split: option.splits)

lemma same_slot_trans_eq:
  assumes "same_slot c c'" "next_challenge_id c = next_challenge_id b"
    "pending_verification c = pending_verification b"
  shows "same_slot b c'"
  using assms by (simp add: same_slot_def)

lemma same_slot_gates:
  "same_slot c (fst (request_stop c))" "same_slot c (fst (request_completion_stop c))"
  "same_slot c (fst (request_stop_after_current c))" "same_slot c (request_skip_current c)"
  "same_slot c (fst (start_attempt c))" "same_slot c (fst (resume_attempt a c))"
  "same_slot c (finish_attempt a c)" "same_slot c (fst (checkpoint b a c))"
  by (auto simp: request_stop_def request_completion_stop_def request_skip_current_def
      finish_attempt_def Let_def split: option.splits
      intro: same_slot_trans_eq [OF same_slot_cancel])
    (auto simp: request_stop_after_current_def start_attempt_def resume_attempt_def
      checkpoint_def same_slot_def split: option.splits)

lemma same_slot_challenge_ops:
  "same_slot c (fst (wait_action_done cid n sq out c))"
  "same_slot c (fst (submit_verification cid code now c))"
  "same_slot c (fst (update_verification_metadata cid patch c))"
  "same_slot c (fst (request_verification_action cid act pl now req c))"
  by (auto simp: wait_action_done_def submit_verification_def update_verification_metadata_def
      request_verification_action_def Let_def same_slot_def
      split: option.splits handler_outcome.splits if_splits)

lemma next_challenge_checkpoint:
  "checkpoint b a c = (c', r) \<Longrightarrow> next_challenge_id c' = next_challenge_id c"
  by (auto simp: checkpoint_def split: if_splits)

lemma same_slot_wait_poll: "same_slot c (fst (wait_poll cid a h n now c))"
proof -
  obtain c1 q where c1: "checkpoint True a c = (c1, q)" by (cases "checkpoint True a c")
  note p = pending_verification_checkpoint [OF c1] next_challenge_checkpoint [OF c1]
  have "same_slot c1 (fst (wait_poll cid a h n now c))"
    unfolding wait_poll_def c1
    by (auto simp: Let_def same_slot_def split: sum.splits option.splits if_splits)
  then show ?thesis by (rule same_slot_trans_eq) (simp_all add: p)
qed

lemma deadline_kept_wait_begin:
  assumes d: "deadline_kept (challenge_name t0 n) n d c"
  shows "deadline_kept (challenge_name t0 n) n d (fst (wait_begin a ph lbl em k m acts t u c))"
proof -
  obtain c1 q where c1: "checkpoint True a c = (c1, q)" by (cases "checkpoint True a c")
  note p = pending_verification_checkpoint [OF c1] next_challenge_checkpoint [OF c1]
  have "challenge_name t (next_challenge_id c) \<noteq> challenge_name t0 n"
    using d challenge_name_inj [of t "next_challenge_id c" t0 n] by (auto simp: deadline_kept_def)
  then show ?thesis
    using d p unfolding wait_begin_def c1
    by (auto simp: Let_def deadline_kept_def new_challenge_def challenge_name_def split: sum.splits)
qed

lemma control_step_deadline:
  assumes "deadline_kept (challenge_name t0 n) n d c"
  shows "deadline_kept (challenge_name t0 n) n d (control_step e c)"
proof (cases "\<exists>a ph lbl em k m acts t u. e = EvWaitBegin a ph lbl em k m acts t u")
  case True
  then show ?thesis using deadline_kept_wait_begin [OF assms] by auto
next
  case False
  then have "same_slot c (control_step e c)"
    by (cases e) (simp_all add: same_slot_gates same_slot_challenge_ops same_slot_wait_poll)
  then show ?thesis using assms by (auto simp: same_slot_def intro: deadline_kept_transfer)
qed

interpretation deadline: invariant_machine control_step "deadline_kept (challenge_name t n) n d"
  for t n d
  by unfold_locales (rule control_step_deadline)

section \<open>A wait\<close>

lemma wait_poll_stop:
  "stop_requested c \<Longrightarrow> wait_poll cid a h n now c = (c, WaitRaise StopTaskRequested)"
  by (simp add: wait_poll_def checkpoint_def)

lemma wait_poll_done_at_deadline:
  assumes "deadline_kept cid n d c" and "d \<le> now"
    and "wait_poll cid a False k now c = (c', r)"
  shows "(\<exists>code. r = WaitReturn code) \<or> (\<exists>e. r = WaitRaise e)"
proof -
  obtain c1 q where c1: "checkpoint True a c = (c1, q)" by (cases "checkpoint True a c")
  note p = pending_verification_checkpoint [OF c1] next_challenge_checkpoint [OF c1]
  show ?thesis
    using assms p unfolding wait_poll_def c1
    by (auto simp: Let_def deadline_kept_def split: sum.splits option.splits if_splits)
qed

lemma wait_poll_no_call:
  "wait_poll cid a False k now c = (c', r) \<Longrightarrow> r \<noteq> WaitCall act body sq"
  by (auto simp: wait_poll_def Let_def split: prod.splits sum.splits option.splits if_splits)

lemma deadline_kept_poll:
  assumes "deadline_kept (challenge_name t0 n) n d c" and "wait_poll cid a h k now c = (c', r)"
  shows "deadline_kept (challenge_name t0 n) n d c'"
  using control_step_deadline [OF assms(1), of "EvPoll cid a h k now"] assms(2) by simp

lemma wait_run_ends:
  assumes "deadline_kept (challenge_name t0 n) n d c"
    and "(env, now, dur) \<in> set sched" and "d \<le> now"
  shows "snd (wait_run None (challenge_name t0 n) a k sched c) \<noteq> None"
  using assms
proof (induction sched arbitrary: c)
  case (Cons x rest)
  obtain env' now' dur' where x: "x = (env', now', dur')" by (cases x)
  let ?c = "fold control_step env' c"
  have d: "deadline_kept (challenge_name t0 n) n d ?c"
    using Cons.prems(1) by (rule deadline.run_keeps)
  obtain c' r where r: "wait_poll (challenge_name t0 n) a False k now' ?c = (c', r)"
    by (cases "wait_poll (challenge_name t0 n) a False k now' ?c")
  show ?case
  proof (cases r)
    case (WaitSleep q)
    then have "\<not> d \<le> now'" using wait_poll_done_at_deadline [OF d _ r] by auto
    with Cons.prems(2,3) x have "(env, now, dur) \<in> set rest" by auto
    then show ?thesis
      using Cons.IH [OF deadline_kept_poll [OF d r]] Cons.prems(3) x r WaitSleep by simp
  next
    case (WaitCall act body sq)
    with wait_poll_no_call [OF r, of act body sq] show ?thesis by simp
  qed (use x r in simp_all)
qed simp

text \<open>
  With a handler a round can call it instead. After the deadline no new action is
  accepted, so the round after such a call has none left to handle.
\<close>

fun late_event :: "time \<Rightarrow> control_event \<Rightarrow> bool" where
  "late_event d (EvAction cid act pl now req) \<longleftrightarrow> d \<le> now"
| "late_event d _ \<longleftrightarrow> True"

definition actions_upto :: "string \<Rightarrow> int \<Rightarrow> control \<Rightarrow> bool" where
  "actions_upto cid b c \<longleftrightarrow>
     (\<forall>ch. pending_verification c = Some ch \<longrightarrow> ch_id ch = cid \<longrightarrow> ch_action_seq ch \<le> b)"

lemma actions_upto_transfer:
  assumes "actions_upto cid b c"
    and "\<And>ch'. pending_verification c' = Some ch' \<Longrightarrow> ch_id ch' = cid \<Longrightarrow>
      \<exists>ch. pending_verification c = Some ch \<and> ch_id ch = cid \<and> ch_action_seq ch' = ch_action_seq ch"
  shows "actions_upto cid b c'"
  using assms by (fastforce simp: actions_upto_def)

lemma actions_upto_poll:
  assumes "actions_upto cid b c"
  shows "actions_upto cid b (fst (wait_poll j a h k now c))"
proof -
  obtain c1 q where c1: "checkpoint True a c = (c1, q)" by (cases "checkpoint True a c")
  note p = pending_verification_checkpoint [OF c1]
  show ?thesis
    using assms p unfolding wait_poll_def c1
    by (auto simp: Let_def actions_upto_def split: sum.splits option.splits if_splits)
qed

lemma actions_upto_wait_begin:
  assumes d: "deadline_kept (challenge_name t0 n) n d c" and u: "actions_upto (challenge_name t0 n) b c"
  shows "actions_upto (challenge_name t0 n) b (fst (wait_begin a ph lbl em k m acts t u c))"
proof -
  obtain c1 q where c1: "checkpoint True a c = (c1, q)" by (cases "checkpoint True a c")
  note p = pending_verification_checkpoint [OF c1] next_challenge_checkpoint [OF c1]
  have "challenge_name t (next_challenge_id c) \<noteq> challenge_name t0 n"
    using d challenge_name_inj [of t "next_challenge_id c" t0 n] by (auto simp: deadline_kept_def)
  then show ?thesis
    using u p unfolding wait_begin_def c1
    by (auto simp: Let_def actions_upto_def new_challenge_def challenge_name_def split: sum.splits)
qed

lemma actions_upto_cancel: "actions_upto cid b c \<Longrightarrow> actions_upto cid b (cancel_pending_verification r c)"
  by (auto simp: cancel_pending_verification_def actions_upto_def split: option.splits)

lemma actions_upto_eq: "pending_verification c' = pending_verification c \<Longrightarrow> actions_upto cid b c' = actions_upto cid b c"
  by (simp add: actions_upto_def)

lemma actions_upto_gates:
  assumes "actions_upto cid b c"
  shows "actions_upto cid b (fst (request_stop c))" "actions_upto cid b (fst (request_completion_stop c))"
    "actions_upto cid b (fst (request_stop_after_current c))" "actions_upto cid b (request_skip_current c)"
    "actions_upto cid b (fst (start_attempt c))" "actions_upto cid b (fst (resume_attempt a c))"
    "actions_upto cid b (finish_attempt a c)" "actions_upto cid b (fst (checkpoint f a c))"
  using assms
  by (auto simp: request_stop_def request_completion_stop_def request_skip_current_def finish_attempt_def
      request_stop_after_current_def start_attempt_def resume_attempt_def checkpoint_def
      cancel_pending_verification_def actions_upto_def Let_def split: option.splits)

lemma actions_upto_challenge_ops:
  assumes "actions_upto cid b c"
  shows "actions_upto cid b (fst (wait_action_done j n sq out c))"
    "actions_upto cid b (fst (submit_verification j code now c))"
    "actions_upto cid b (fst (update_verification_metadata j patch c))"
  using assms
  by (auto simp: wait_action_done_def submit_verification_def update_verification_metadata_def
      Let_def actions_upto_def split: option.splits handler_outcome.splits if_splits)

lemma actions_upto_late_action:
  assumes "deadline_kept cid n d c" and "actions_upto cid b c" and "d \<le> now"
  shows "actions_upto cid b (fst (request_verification_action j act pl now req c))"
  using assms
  by (auto simp: request_verification_action_def actions_upto_def deadline_kept_def Let_def
      split: option.splits if_splits)

lemma actions_upto_late:
  assumes "deadline_kept (challenge_name t0 n) n d c" and "actions_upto (challenge_name t0 n) b c" and "late_event d e"
  shows "actions_upto (challenge_name t0 n) b (control_step e c)"
  using assms actions_upto_gates actions_upto_challenge_ops actions_upto_poll actions_upto_wait_begin [OF assms(1,2)]
    actions_upto_late_action [OF assms(1,2)]
  by (cases e) simp_all

lemma actions_upto_lates:
  "deadline_kept (challenge_name t0 n) n d c \<Longrightarrow> actions_upto (challenge_name t0 n) b c \<Longrightarrow> list_all (late_event d) es
    \<Longrightarrow> actions_upto (challenge_name t0 n) b (fold control_step es c)"
proof (induction es arbitrary: c)
  case (Cons e es)
  then show ?case
    using Cons.IH [OF control_step_deadline [OF Cons.prems(1), of e] actions_upto_late [OF Cons.prems(1,2), of e]] by simp
qed simp

lemma actions_upto_done:
  assumes "actions_upto cid sq c" and "wait_action_done cid k sq out c = (c', k')"
  shows "actions_upto cid k' c'"
  using assms
  by (auto simp: wait_action_done_def actions_upto_def Let_def split: option.splits handler_outcome.splits if_splits)

lemma wait_poll_called:
  assumes "wait_poll cid a h k now c = (c', WaitCall act body sq)"
  shows "actions_upto cid sq c'"
proof -
  obtain c1 q where c1: "checkpoint True a c = (c1, q)" by (cases "checkpoint True a c")
  show ?thesis
    using assms unfolding wait_poll_def c1
    by (auto simp: Let_def actions_upto_def split: sum.splits option.splits if_splits)
qed

lemma wait_poll_ends:
  assumes "deadline_kept cid n d c" and "d \<le> now" and "actions_upto cid k c"
    and "wait_poll cid a h k now c = (c', r)"
  shows "(\<exists>code. r = WaitReturn code) \<or> (\<exists>e. r = WaitRaise e)"
proof -
  obtain c1 q where c1: "checkpoint True a c = (c1, q)" by (cases "checkpoint True a c")
  note p = pending_verification_checkpoint [OF c1]
  show ?thesis
    using assms p unfolding wait_poll_def c1
    by (auto simp: Let_def deadline_kept_def actions_upto_def split: sum.splits option.splits if_splits)
qed

lemma wait_poll_no_sleep:
  assumes "deadline_kept cid n d c" and "d \<le> now" and "wait_poll cid a h k now c = (c', r)"
  shows "r \<noteq> WaitSleep q"
proof -
  obtain c1 p where c1: "checkpoint True a c = (c1, p)" by (cases "checkpoint True a c")
  note p = pending_verification_checkpoint [OF c1]
  show ?thesis
    using assms p unfolding wait_poll_def c1
    by (auto simp: Let_def deadline_kept_def split: sum.splits option.splits if_splits)
qed

lemma wait_run_ends_late:
  assumes "deadline_kept (challenge_name t0 n) n d c" and "d \<le> now1" and "d \<le> now2"
    and "list_all (late_event d) (dur1 @ env2)"
  shows "snd (wait_run h (challenge_name t0 n) a k ((env1, now1, dur1) # (env2, now2, dur2) # post) c) \<noteq> None"
proof -
  let ?cid = "challenge_name t0 n"
  let ?c = "fold control_step env1 c"
  have d: "deadline_kept ?cid n d ?c" using assms(1) by (rule deadline.run_keeps)
  obtain c1 r where r: "wait_poll ?cid a (h \<noteq> None) k now1 ?c = (c1, r)" by (metis surj_pair)
  show ?thesis
  proof (cases r)
    case (WaitSleep q)
    then show ?thesis using wait_poll_no_sleep [OF d assms(2) r] by simp
  next
    case (WaitCall act body sq)
    let ?out = "case h of None \<Rightarrow> HandlerReturned [] | Some h \<Rightarrow> h act body"
    let ?c2 = "fold control_step dur1 c1"
    obtain c3 k' where c3: "wait_action_done ?cid k sq ?out ?c2 = (c3, k')" by (metis surj_pair)
    have d1: "deadline_kept ?cid n d c1" by (rule deadline_kept_poll [OF d r])
    then have d2: "deadline_kept ?cid n d ?c2" by (rule deadline.run_keeps)
    then have d3: "deadline_kept ?cid n d c3"
      using control_step_deadline [OF d2, of "EvHandled ?cid k sq ?out"] c3 by simp
    have "actions_upto ?cid sq ?c2"
      using actions_upto_lates [OF d1 wait_poll_called [OF r [unfolded WaitCall]]] assms(4) by simp
    from actions_upto_done [OF this c3]
    have u: "actions_upto ?cid k' (fold control_step env2 c3)"
      using actions_upto_lates [OF d3] assms(4) by simp
    have d4: "deadline_kept ?cid n d (fold control_step env2 c3)" using d3 by (rule deadline.run_keeps)
    obtain c4 r' where r': "wait_poll ?cid a (h \<noteq> None) k' now2 (fold control_step env2 c3) = (c4, r')"
      by (metis surj_pair)
    from wait_poll_ends [OF d4 assms(3) u r'] show ?thesis using r WaitCall c3 r' by auto
  qed (use r in simp_all)
qed

lemma wait_run_ends_after:
  assumes "d \<le> now1" and "d \<le> now2" and "list_all (late_event d) (dur1 @ env2)"
  shows "deadline_kept (challenge_name t0 n) n d c \<Longrightarrow>
    snd (wait_run h (challenge_name t0 n) a k (pre @ (env1, now1, dur1) # (env2, now2, dur2) # post) c) \<noteq> None"
proof (induction pre arbitrary: c k)
  case Nil
  then show ?case using wait_run_ends_late [OF Nil assms] by simp
next
  case (Cons x pre)
  let ?cid = "challenge_name t0 n"
  obtain env now dur where x: "x = (env, now, dur)" by (cases x)
  obtain c1 r where r: "wait_poll ?cid a (h \<noteq> None) k now (fold control_step env c) = (c1, r)" by (metis surj_pair)
  have d1: "deadline_kept ?cid n d c1"
    using deadline_kept_poll [OF deadline.run_keeps [OF Cons.prems, of env] r] .
  show ?case
  proof (cases r)
    case (WaitCall act body sq)
    let ?out = "case h of None \<Rightarrow> HandlerReturned [] | Some h \<Rightarrow> h act body"
    obtain c3 k' where c3: "wait_action_done ?cid k sq ?out (fold control_step dur c1) = (c3, k')" by (metis surj_pair)
    have "deadline_kept ?cid n d c3"
      using control_step_deadline [OF deadline.run_keeps [OF d1, of dur], of "EvHandled ?cid k sq ?out"] c3 by simp
    then show ?thesis using Cons.IH x r WaitCall c3 by simp
  qed (use Cons.IH [OF d1] x r in simp_all)
qed

lemma wait_begin_ok:
  assumes "wait_begin a ph lbl em m meta acts t u c = (c', Inr cid)"
  shows "cid = challenge_name t (next_challenge_id c)"
    "next_challenge_id c' = next_challenge_id c + 1"
    "\<exists>ch. pending_verification c' = Some ch \<and> ch_id ch = cid \<and> ch_status ch = VPending
       \<and> ch_expires_at ch = u + of_int (max m 1) \<and> ch_attempt_id ch = a"
proof -
  obtain c1 q where c1: "checkpoint True a c = (c1, q)" by (cases "checkpoint True a c")
  note p = pending_verification_checkpoint [OF c1] next_challenge_checkpoint [OF c1]
  have "cid = challenge_name t (next_challenge_id c) \<and> next_challenge_id c' = next_challenge_id c + 1
    \<and> (\<exists>ch. pending_verification c' = Some ch \<and> ch_id ch = cid \<and> ch_status ch = VPending
       \<and> ch_expires_at ch = u + of_int (max m 1) \<and> ch_attempt_id ch = a)"
  proof (cases q)
    case Inl
    with assms show ?thesis by (simp add: wait_begin_def c1 Let_def)
  next
    case Inr
    with assms have "cid = challenge_name t (next_challenge_id c1)"
      and "c' = c1\<lparr>next_challenge_id := next_challenge_id c1 + 1,
        pending_verification := Some (new_challenge cid a
          (or_else (py_strip (or_else ph ''email_otp'')) ''email_otp'')
          (if py_strip lbl = [] then DefaultOtpLabel else PhaseLabel (py_strip lbl))
          (py_strip em) (max m 1) u meta (filter (\<lambda>s. s \<noteq> []) (map py_strip acts)))\<rparr>"
      by (auto simp: wait_begin_def c1 Let_def challenge_name_def)
    with p show ?thesis by (simp add: new_challenge_def)
  qed
  then show "cid = challenge_name t (next_challenge_id c)"
    "next_challenge_id c' = next_challenge_id c + 1"
    "\<exists>ch. pending_verification c' = Some ch \<and> ch_id ch = cid \<and> ch_status ch = VPending
       \<and> ch_expires_at ch = u + of_int (max m 1) \<and> ch_attempt_id ch = a" by blast+
qed

lemma wait_begin_deadline:
  assumes "wait_begin a ph lbl em m meta acts t u c = (c', Inr cid)"
  shows "deadline_kept (challenge_name t (next_challenge_id c)) (next_challenge_id c)
    (u + of_int (max m 1)) c'"
  using wait_begin_ok [OF assms] by (auto simp: deadline_kept_def)

lemma challenge_name_strip: "py_strip (challenge_name t n) = challenge_name t n"
proof (rule py_strip_id, rule disjI2)
  have "last (challenge_name t n) = last (show_int n)"
    by (simp add: challenge_name_def show_int_def)
  moreover have "last (show_int n) \<in> set (show_nat (nat \<bar>n\<bar>))"
    by (simp add: show_int_def)
  ultimately have "\<not> py_space (last (challenge_name t n))" by (metis show_nat_no_space)
  moreover have "\<not> py_space (hd (challenge_name t n))"
    by (simp add: challenge_name_def py_space_def)
  ultimately show "\<not> py_space (hd (challenge_name t n)) \<and> \<not> py_space (last (challenge_name t n))"
    by simp
qed

section \<open>Properties\<close>

text \<open>
  In every state that any interleaving of controller calls can reach from a
  fresh controller: an immediate stop has cleared the graceful one, only running
  attempts are marked to be skipped, the number of pending skips is not
  negative, and a challenge cancelled by a stop has the flag of that stop set.
\<close>

lemma control_reachable_ok: "control_ok (fold control_step es init_control)"
  by (rule controller.run_keeps)
    (simp add: control_ok_def cancel_reason_ok_def init_control_def)

text \<open>
  C8. The stop gates are final: once any of the three requests was made, no
  interleaving of calls starts another attempt, whatever the threads do.
\<close>

theorem stop_gate_final:
  assumes "c' \<in> {fst (request_stop c), fst (request_completion_stop c),
      fst (request_stop_after_current c)}"
  shows "started_ids es c' = [] \<and> snd (start_attempt (fold control_step es c')) = None"
proof -
  have "should_stop_starting_new_attempts c'"
    using assms by (auto simp: should_stop_starting_new_attempts_def request_stop_def
        request_completion_stop_def request_stop_after_current_def split: if_splits)
  then show ?thesis
    using gate.run_keeps by (auto simp: started_ids_closed start_attempt_result)
qed

theorem stop_gate_final_witness:
  "started_ids [EvStart, EvSkip, EvStart] (fst (request_stop_after_current init_control)) = [] \<and>
   snd (start_attempt (fold control_step [EvStart, EvSkip, EvStart]
     (fst (request_stop_after_current init_control)))) = None"
  by (rule stop_gate_final [of _ init_control]) simp

text \<open>
  Attempt ids are fresh: over any run of the controller the ids returned by
  \<open>start_attempt\<close> are strictly increasing, so no two attempts share one.
\<close>

lemma attempt_ids_fresh: "sorted_wrt (<) (started_ids es c)"
  using started_ids_sorted by blast

text \<open>
  A graceful stop is a dispatch boundary and not an interruption: after
  \<open>request_stop_after_current\<close> every checkpoint of a running attempt answers as it
  would have before, while no new attempt may start.
\<close>

lemma graceful_stop_no_interrupt:
  "snd (checkpoint b a (fst (request_stop_after_current c))) = snd (checkpoint b a c)
   \<and> snd (start_attempt (fst (request_stop_after_current c))) = None"
  by (auto simp: checkpoint_def request_stop_after_current_def start_attempt_def)

text \<open>
  C16. An immediate stop reaches every thread that waits for a code: whatever
  other calls come in between, the next round of the wait raises
  \<open>StopTaskRequested\<close>, and so does every later checkpoint.
\<close>

theorem stop_reaches_waiter:
  "snd (wait_poll cid a h k now (fold control_step es (fst (request_stop c))))
     = WaitRaise StopTaskRequested
   \<and> snd (checkpoint b a (fold control_step es (fst (request_stop c)))) = Inl StopTaskRequested"
proof -
  have "stop_requested (fst (request_stop c))" by (simp add: request_stop_def)
  then have "stop_requested (fold control_step es (fst (request_stop c)))"
    by (rule stopped.run_keeps)
  then show ?thesis by (simp add: wait_poll_stop checkpoint_def)
qed

text \<open>
  A skip is delivered once to each running attempt: after a skip request the
  next checkpoint of a running attempt raises \<open>SkipCurrentAttemptRequested\<close>, the
  one after it passes, and every other running attempt still has its own skip.
\<close>

lemma skip_delivered_once:
  assumes "a \<in> active_attempt_ids c" and "\<not> stop_requested c" and "\<not> completion_stop_requested c"
    and "pending_skip_requests c = 0"
  shows "let c1 = request_skip_current c;
             (c2, r1) = checkpoint True (Some a) c1;
             (c3, r2) = checkpoint True (Some a) c2
         in r1 = Inl SkipCurrentAttemptRequested \<and> r2 = Inr () \<and> c3 = c2 \<and>
            (\<forall>j. j \<in> active_attempt_ids c \<and> j \<noteq> a \<longrightarrow>
               snd (checkpoint True (Some j) c3) = Inl SkipCurrentAttemptRequested)"
  using assms by (auto simp: request_skip_current_def checkpoint_def Let_def)

text \<open>
  A submitted code reaches the thread that waits for it, once: after
  \<open>wait_for_verification_code\<close> has opened a challenge, a non-blank code submitted
  before the deadline is accepted, the next round returns exactly the stripped
  code and frees the slot, and a second submission is refused.
\<close>

lemma code_delivered:
  assumes "wait_begin a ph lbl em m meta acts t u c = (c1, Inr cid)"
    and "py_strip code \<noteq> []" and "now < u + of_int (max m 1)" and "py_strip code' \<noteq> []"
  shows "\<exists>c2 v. submit_verification cid code now c1 = (c2, Inr v)
     \<and> wait_poll cid a h k now' c2 = (c1\<lparr>pending_verification := None\<rparr>, WaitReturn (py_strip code))
     \<and> snd (submit_verification cid code' now'' c2) = Inl ChallengeFinished"
proof -
  from wait_begin_ok [OF assms(1)] obtain ch where cid: "py_strip cid = cid" "cid \<noteq> []"
    and ch: "pending_verification c1 = Some ch" "ch_id ch = cid" "ch_status ch = VPending"
      "ch_expires_at ch = u + of_int (max m 1)"
    by (auto simp: challenge_name_strip) (simp add: challenge_name_def)
  have pass: "snd (checkpoint True a c) = Inr ()"
    using assms(1) by (auto simp: wait_begin_def Let_def split: prod.splits sum.splits)
  then have "checkpoint True a c = (c, Inr ())"
    by (auto simp: checkpoint_def split: if_splits)
  then have gates: "\<not> stop_requested c1" "\<not> completion_stop_requested c1"
    "\<not> (\<exists>i\<in>set_option a. i \<in> skip_active_attempt_ids c1)" "\<not> pending_skip_requests c1 > 0"
    using assms(1) by (auto simp: wait_begin_def Let_def checkpoint_def split: if_splits)
  let ?ch = "ch\<lparr>ch_code := py_strip code, ch_status := VSubmitted\<rparr>"
  have "submit_verification cid code now c1
    = (c1\<lparr>pending_verification := Some ?ch\<rparr>, Inr (challenge_to_dict ?ch))"
    using cid ch assms(2,3) by (simp add: submit_verification_def Let_def)
  moreover have "wait_poll cid a h k now' (c1\<lparr>pending_verification := Some ?ch\<rparr>)
    = (c1\<lparr>pending_verification := None\<rparr>, WaitReturn (py_strip code))"
    using gates ch assms(2) by (simp add: wait_poll_def checkpoint_def Let_def)
  moreover have "snd (submit_verification cid code' now'' (c1\<lparr>pending_verification := Some ?ch\<rparr>))
    = Inl ChallengeFinished"
    using cid ch assms(4) by (simp add: submit_verification_def Let_def)
  ultimately show ?thesis by blast
qed

definition example_wait :: "control \<times> (ctl_error + string)" where
  "example_wait = wait_begin (Some 1) ''email_otp'' [] ''a@b.c'' 60 [] [] 1 1 init_control"

lemma example_wait_value:
  "wait_begin (Some 1) ''email_otp'' [] ''a@b.c'' 60 [] [] 1 1 init_control
    = (fst example_wait, Inr ''verify_1000_1'')"
  by (simp add: example_wait_def wait_begin_def checkpoint_def init_control_def Let_def
      py_trunc_def show_int_def show_nat.simps)

text \<open>
  C33. Every wait ends: whatever the action handler and whatever the other threads do,
  a wait that is opened at time \<open>u\<close> with a timeout of \<open>m\<close> seconds has returned or
  raised by the second of its rounds at or after \<open>u + max m 1\<close>, if the actions that
  are requested between these two rounds are dated by then too; without a handler it
  has ended by the first such round.
\<close>

theorem wait_ends_by_deadline:
  assumes "wait_begin a ph lbl em m meta acts t u c = (c1, Inr cid)"
    and "u + of_int (max m 1) \<le> now1" and "u + of_int (max m 1) \<le> now2"
    and "list_all (late_event (u + of_int (max m 1))) (dur1 @ env2)"
  shows "(\<exists>r. snd (wait_run h cid a 0 (pre @ [(env1, now1, dur1), (env2, now2, dur2)]) c1) = Some r)
    \<and> (\<exists>r. snd (wait_run None cid a 0 (pre @ [(env1, now1, dur1)]) c1) = Some r)"
  using wait_run_ends_after [OF assms(2-4) wait_begin_deadline [OF assms(1)], of h a 0 pre env1 dur2 "[]"]
    wait_run_ends [OF wait_begin_deadline [OF assms(1)] _ assms(2), of env1 dur1 "pre @ [(env1, now1, dur1)]" a 0]
    wait_begin_ok(1) [OF assms(1)]
  by auto

theorem wait_ends_by_deadline_witness:
  "\<exists>r. snd (wait_run (Some (\<lambda>act body. HandlerRaised ''x'')) ''verify_1000_1'' (Some 1) 0
     ([([EvStart], 30, [])] @ [([EvAction ''verify_1000_1'' ''resend'' [] 31 31], 61, []), ([EvStopAfterCurrent], 62, [])])
     (fst example_wait)) = Some r"
  using wait_ends_by_deadline [OF example_wait_value, of 61 62 "[]" "[EvStopAfterCurrent]"
      "Some (\<lambda>act body. HandlerRaised ''x'')" "[([EvStart], 30, [])]" "[EvAction ''verify_1000_1'' ''resend'' [] 31 31]" "[]"]
  by simp

text \<open>
  What the status of a handled action tells: a handler that raised is
  recorded as failed only when its exception has a text. The default text in
  the source is meant for an empty one but never applies (an exception object is
  always true), so an exception without a text is recorded as done.
\<close>

lemma handler_failure_status:
  assumes "pending_verification c = Some ch" and "ch_id ch = cid"
  shows "\<exists>ch'. pending_verification (fst (wait_action_done cid k sq (HandlerRaised msg) c)) = Some ch'
     \<and> dict_get (ch_metadata ch') ''action_status''
         = Some (PStr (if msg = [] then ''done'' else ''failed''))
     \<and> dict_get (ch_metadata ch') ''action_error'' = Some (PStr msg)"
  using assms by (simp add: wait_action_done_def Let_def)

end
