(* ===== verification/TaskStore.thy ===== *)
theory TaskStore
  imports TaskControlProofs
begin

text \<open>
  The task store of \<open>core/task_runtime.py\<close>: \<open>RegisterTaskRecord\<close> and
  \<open>RegisterTaskStore\<close>. A record owns one controller. Log entries and error texts
  are lists of Unicode code points, because the store counts UTF-8 bytes. An
  object has an identity (\<open>tr_ref\<close>), which \<open>finish\<close> compares after it had given up
  the lock.
\<close>

section \<open>Log text\<close>

text \<open>
  \<open>len(text.encode("utf-8", errors="replace"))\<close>: a surrogate cannot be encoded and
  becomes one question mark.
\<close>

definition utf8_width :: "nat \<Rightarrow> int" where
  "utf8_width cp = (if cp < 128 then 1 else if cp < 2048 then 2
     else if 55296 \<le> cp \<and> cp \<le> 57343 then 1
     else if cp < 65536 then 3 else 4)"

definition log_entry_bytes :: "utext \<Rightarrow> int" where
  "log_entry_bytes entry = sum_list (map utf8_width entry)"

definition log_bytes :: "utext list \<Rightarrow> int" where
  "log_bytes logs = sum_list (map log_entry_bytes logs)"

lemma log_entry_bytes_nonneg [simp]: "0 \<le> log_entry_bytes e"
  by (auto simp: log_entry_bytes_def utf8_width_def intro!: sum_list_nonneg)

lemma log_bytes_nonneg [simp]: "0 \<le> log_bytes logs"
  by (auto simp: log_bytes_def intro!: sum_list_nonneg)

lemma log_bytes_simps [simp]:
  "log_bytes [] = 0" "log_bytes (x # xs) = log_entry_bytes x + log_bytes xs"
  "log_bytes (xs @ ys) = log_bytes xs + log_bytes ys"
  by (simp_all add: log_bytes_def)

section \<open>State\<close>

record task_record =
  tr_ref :: nat
  tr_id :: string
  tr_platform :: string
  tr_source :: string
  tr_total :: int
  tr_supports_after_current :: bool
  tr_meta :: "(string, pyval) dict"
  tr_status :: string
  tr_progress :: string
  tr_logs :: "utext list"
  tr_logs_truncated :: bool
  tr_dropped_log_entries :: int
  tr_dropped_log_bytes :: int
  tr_retained_log_bytes :: int
  tr_success :: int
  tr_skipped :: int
  tr_errors :: "utext list"
  tr_cashier_urls :: "string list"
  tr_error :: utext
  tr_created_at :: time
  tr_updated_at :: time
  tr_control :: control

record task_store =
  ts_records :: "(string, task_record) dict"
  ts_max_finished_tasks :: int
  ts_cleanup_threshold :: int
  ts_active_max_log_entries :: int
  ts_active_max_log_bytes :: int
  ts_finished_max_log_entries :: int
  ts_finished_max_log_bytes :: int
  ts_on_terminal :: bool
  ts_next_ref :: nat

datatype store_error = TaskNotFound | TaskAlreadyFinished | AfterCurrentUnsupported

definition terminal_task_statuses :: "string set" where
  "terminal_task_statuses = {''done'', ''failed'', ''stopped'', ''partial'', ''interrupted''}"

definition new_store :: "int \<Rightarrow> int \<Rightarrow> int \<Rightarrow> int \<Rightarrow> int \<Rightarrow> int \<Rightarrow> bool \<Rightarrow> task_store" where
  "new_store max_finished threshold a_entries a_bytes f_entries f_bytes callback =
    \<lparr>ts_records = [], ts_max_finished_tasks = max_finished, ts_cleanup_threshold = threshold,
     ts_active_max_log_entries = max 1 a_entries, ts_active_max_log_bytes = max 1 a_bytes,
     ts_finished_max_log_entries = max 1 f_entries, ts_finished_max_log_bytes = max 1 f_bytes,
     ts_on_terminal = callback, ts_next_ref = 0\<rparr>"

section \<open>Snapshots\<close>

record task_view =
  tv_id :: string
  tv_status :: string
  tv_platform :: string
  tv_source :: string
  tv_meta :: "(string, pyval) dict"
  tv_progress :: string
  tv_logs :: "utext list"
  tv_logs_truncated :: bool
  tv_dropped_log_entries :: int
  tv_dropped_log_bytes :: int
  tv_retained_log_bytes :: int
  tv_log_start_index :: int
  tv_log_next_index :: int
  tv_success :: int
  tv_skipped :: int
  tv_errors :: "utext list"
  tv_control :: control_view
  tv_stop_after_current :: bool
  tv_stop_modes :: "string list"
  tv_pending_verification :: "challenge_view option"
  tv_cashier_urls :: "string list"
  tv_error :: utext

text \<open>
  \<open>RegisterTaskRecord.to_dict\<close>. The last three keys are absent from the dict when
  they are empty, which the empty values here stand for.
\<close>

definition record_to_dict :: "task_record \<Rightarrow> task_view" where
  "record_to_dict r =
    \<lparr>tv_id = tr_id r, tv_status = tr_status r, tv_platform = tr_platform r,
     tv_source = tr_source r, tv_meta = tr_meta r, tv_progress = tr_progress r,
     tv_logs = tr_logs r, tv_logs_truncated = tr_logs_truncated r,
     tv_dropped_log_entries = tr_dropped_log_entries r,
     tv_dropped_log_bytes = tr_dropped_log_bytes r,
     tv_retained_log_bytes = tr_retained_log_bytes r,
     tv_log_start_index = tr_dropped_log_entries r,
     tv_log_next_index = tr_dropped_log_entries r + int (length (tr_logs r)),
     tv_success = tr_success r, tv_skipped = tr_skipped r, tv_errors = tr_errors r,
     tv_control = control_snapshot (tr_control r),
     tv_stop_after_current = tr_supports_after_current r,
     tv_stop_modes = (if tr_supports_after_current r then [''immediate'', ''after_current'']
                      else [''immediate'']),
     tv_pending_verification = current_verification_snapshot (tr_control r),
     tv_cashier_urls = tr_cashier_urls r, tv_error = tr_error r\<rparr>"

section \<open>Bounded logs\<close>

text \<open>The loop of \<open>_trim_record_logs\<close> over the log, its byte count and its drop counters.\<close>

fun trim_loop ::
  "int \<Rightarrow> int \<Rightarrow> utext list \<Rightarrow> int \<Rightarrow> bool \<Rightarrow> int \<Rightarrow> int \<Rightarrow> utext list \<times> int \<times> bool \<times> int \<times> int" where
  "trim_loop max_entries max_bytes [] retained truncated n b = ([], retained, truncated, n, b)"
| "trim_loop max_entries max_bytes (x # xs) retained truncated n b =
     (if int (length (x # xs)) > max_entries \<or> retained > max_bytes
      then trim_loop max_entries max_bytes xs (max 0 (retained - log_entry_bytes x)) True
             (n + 1) (b + log_entry_bytes x)
      else (x # xs, retained, truncated, n, b))"

definition trim_record_logs :: "int \<Rightarrow> int \<Rightarrow> task_record \<Rightarrow> task_record" where
  "trim_record_logs max_entries max_bytes r =
    (case trim_loop max_entries max_bytes (tr_logs r) (tr_retained_log_bytes r)
            (tr_logs_truncated r) (tr_dropped_log_entries r) (tr_dropped_log_bytes r) of
       (logs, retained, truncated, n, b) \<Rightarrow>
         r\<lparr>tr_logs := logs, tr_retained_log_bytes := retained, tr_logs_truncated := truncated,
           tr_dropped_log_entries := n, tr_dropped_log_bytes := b\<rparr>)"

section \<open>Operations\<close>

definition set_terminal_callback :: "bool \<Rightarrow> task_store \<Rightarrow> task_store" where
  "set_terminal_callback callback s = s\<lparr>ts_on_terminal := callback\<rparr>"

definition new_record ::
  "nat \<Rightarrow> string \<Rightarrow> string \<Rightarrow> int \<Rightarrow> string \<Rightarrow> (string, pyval) dict \<Rightarrow> bool \<Rightarrow> time \<Rightarrow> time \<Rightarrow> task_record" where
  "new_record ref tid platform total_n source meta supports created updated =
    \<lparr>tr_ref = ref, tr_id = tid, tr_platform = platform, tr_source = source, tr_total = total_n,
     tr_supports_after_current = supports, tr_meta = meta, tr_status = ''pending'',
     tr_progress = ''0/'' @ show_int total_n, tr_logs = [], tr_logs_truncated = False,
     tr_dropped_log_entries = 0, tr_dropped_log_bytes = 0, tr_retained_log_bytes = 0,
     tr_success = 0, tr_skipped = 0, tr_errors = [], tr_cashier_urls = [], tr_error = [],
     tr_created_at = created, tr_updated_at = updated, tr_control = init_control\<rparr>"

definition store_create ::
  "string \<Rightarrow> string \<Rightarrow> int \<Rightarrow> string \<Rightarrow> (string, pyval) dict \<Rightarrow> bool \<Rightarrow> time \<Rightarrow> time \<Rightarrow>
   task_store \<Rightarrow> task_store \<times> task_record" where
  "store_create tid platform total_n source meta supports created updated s =
    (let r = new_record (ts_next_ref s) tid platform total_n source meta supports created updated
     in (s\<lparr>ts_records := dict_set tid r (ts_records s), ts_next_ref := ts_next_ref s + 1\<rparr>, r))"

definition store_exists :: "string \<Rightarrow> task_store \<Rightarrow> bool" where
  "store_exists tid s \<longleftrightarrow> dict_get (ts_records s) tid \<noteq> None"

text \<open>An absent or empty platform or source filters nothing.\<close>

definition has_active :: "string \<Rightarrow> string \<Rightarrow> task_store \<Rightarrow> bool" where
  "has_active platform source s \<longleftrightarrow>
    list_ex (\<lambda>(_, r). tr_status r \<in> {''pending'', ''running''}
       \<and> \<not> (platform \<noteq> [] \<and> tr_platform r \<noteq> platform)
       \<and> \<not> (source \<noteq> [] \<and> tr_source r \<noteq> source)) (ts_records s)"

definition update_record :: "string \<Rightarrow> (task_record \<Rightarrow> task_record) \<Rightarrow> task_store \<Rightarrow> task_store" where
  "update_record tid f s = s\<lparr>ts_records := dict_modify tid f (ts_records s)\<rparr>"

definition control_for :: "string \<Rightarrow> task_store \<Rightarrow> store_error + control" where
  "control_for tid s =
    (case dict_get (ts_records s) tid of None \<Rightarrow> Inl TaskNotFound | Some r \<Rightarrow> Inr (tr_control r))"

text \<open>The results of the three requests: the control view, \<open>changed\<close>, and the task snapshot.\<close>

definition store_request_stop ::
  "string \<Rightarrow> task_store \<Rightarrow> task_store \<times> (store_error + control_view \<times> bool \<times> task_view)" where
  "store_request_stop tid s =
    (case dict_get (ts_records s) tid of
       None \<Rightarrow> (s, Inl TaskNotFound)
     | Some r \<Rightarrow>
         if tr_status r \<in> terminal_task_statuses then (s, Inl TaskAlreadyFinished)
         else (let (c, changed) = request_stop (tr_control r); r' = r\<lparr>tr_control := c\<rparr>
               in (update_record tid (\<lambda>_. r') s,
                   Inr (tv_control (record_to_dict r'), changed, record_to_dict r'))))"

definition store_request_stop_after_current ::
  "string \<Rightarrow> task_store \<Rightarrow> task_store \<times> (store_error + control_view \<times> bool \<times> task_view)" where
  "store_request_stop_after_current tid s =
    (case dict_get (ts_records s) tid of
       None \<Rightarrow> (s, Inl TaskNotFound)
     | Some r \<Rightarrow>
         if tr_status r \<in> terminal_task_statuses then (s, Inl TaskAlreadyFinished)
         else if \<not> tr_supports_after_current r then (s, Inl AfterCurrentUnsupported)
         else (let (c, changed) = request_stop_after_current (tr_control r); r' = r\<lparr>tr_control := c\<rparr>
               in (update_record tid (\<lambda>_. r') s,
                   Inr (tv_control (record_to_dict r'), changed, record_to_dict r'))))"

definition store_request_skip_current ::
  "string \<Rightarrow> task_store \<Rightarrow> task_store \<times> (store_error + control_view)" where
  "store_request_skip_current tid s =
    (case control_for tid s of
       Inl e \<Rightarrow> (s, Inl e)
     | Inr c \<Rightarrow>
         (update_record tid (\<lambda>r. r\<lparr>tr_control := request_skip_current c\<rparr>) s,
          Inr (control_snapshot (request_skip_current c))))"

definition append_log :: "string \<Rightarrow> utext \<Rightarrow> time \<Rightarrow> task_store \<Rightarrow> task_store" where
  "append_log tid entry now s =
    update_record tid (\<lambda>r.
      (trim_record_logs (ts_active_max_log_entries s) (ts_active_max_log_bytes s)
         (r\<lparr>tr_logs := tr_logs r @ [entry],
            tr_retained_log_bytes := tr_retained_log_bytes r + log_entry_bytes entry\<rparr>))
      \<lparr>tr_updated_at := now\<rparr>) s"

text \<open>Setters that raise \<open>KeyError\<close> for an unknown task.\<close>

definition update_or_raise ::
  "string \<Rightarrow> (task_record \<Rightarrow> task_record) \<Rightarrow> task_store \<Rightarrow> task_store \<times> (store_error + unit)" where
  "update_or_raise tid f s =
    (if store_exists tid s then (update_record tid f s, Inr ()) else (s, Inl TaskNotFound))"

definition mark_running :: "string \<Rightarrow> time \<Rightarrow> task_store \<Rightarrow> task_store \<times> (store_error + unit)" where
  "mark_running tid now =
    update_or_raise tid (\<lambda>r. r\<lparr>tr_status := ''running'', tr_updated_at := now\<rparr>)"

definition set_progress :: "string \<Rightarrow> string \<Rightarrow> time \<Rightarrow> task_store \<Rightarrow> task_store \<times> (store_error + unit)" where
  "set_progress tid progress now =
    update_or_raise tid (\<lambda>r. r\<lparr>tr_progress := progress, tr_updated_at := now\<rparr>)"

definition add_cashier_url :: "string \<Rightarrow> string \<Rightarrow> time \<Rightarrow> task_store \<Rightarrow> task_store \<times> (store_error + unit)" where
  "add_cashier_url tid url now =
    update_or_raise tid (\<lambda>r. r\<lparr>tr_cashier_urls := tr_cashier_urls r @ [url], tr_updated_at := now\<rparr>)"

definition update_meta ::
  "string \<Rightarrow> (string, pyval) dict \<Rightarrow> time \<Rightarrow> task_store \<Rightarrow>
   task_store \<times> (store_error + (string, pyval) dict)" where
  "update_meta tid patch now s =
    (case dict_get (ts_records s) tid of
       None \<Rightarrow> (s, Inl TaskNotFound)
     | Some r \<Rightarrow>
        (let meta = dict_merge (tr_meta r) patch
         in (update_record tid (\<lambda>r. r\<lparr>tr_meta := meta, tr_updated_at := now\<rparr>) s, Inr meta)))"

text \<open>
  \<open>finish\<close> up to the release of the lock: the final status, the record, and what the
  rest of the method works on: the terminal snapshot, whether a callback is
  installed, and the identity of the record.
\<close>

definition final_status :: "string \<Rightarrow> bool \<Rightarrow> control \<Rightarrow> string" where
  "final_status status respect_immediate_stop c =
    (let s1 = (if is_stop_after_current_requested c \<and> status \<in> {''done'', ''failed''}
               then ''stopped'' else status)
     in if respect_immediate_stop \<and> is_stop_requested c \<and> status \<in> {''done'', ''failed''}
        then ''stopped'' else s1)"

definition finish_record ::
  "string \<Rightarrow> int \<Rightarrow> int \<Rightarrow> utext list \<Rightarrow> utext \<Rightarrow> bool \<Rightarrow> time \<Rightarrow> task_record \<Rightarrow> task_record" where
  "finish_record status success skipped errors error respect now r =
    r\<lparr>tr_status := final_status status respect (tr_control r), tr_success := success,
      tr_skipped := skipped, tr_errors := errors, tr_error := error, tr_updated_at := now\<rparr>"

text \<open>
  The retries of the callback: \<open>ok i\<close> says whether call \<open>i\<close> returns. The result is
  the number of calls and whether the last of them returned.
\<close>

fun callback_retries :: "(nat \<Rightarrow> bool) \<Rightarrow> nat \<Rightarrow> nat \<Rightarrow> nat \<times> bool" where
  "callback_retries ok i 0 = (i, False)"
| "callback_retries ok i (Suc left) =
     (if ok i then (Suc i, True) else callback_retries ok (Suc i) left)"

text \<open>The last block of \<open>finish\<close>: compact the log of the same record object, if it is still stored.\<close>

definition finish_compact :: "string \<Rightarrow> nat \<Rightarrow> task_store \<Rightarrow> task_store" where
  "finish_compact tid ref s =
    (case dict_get (ts_records s) tid of
       None \<Rightarrow> s
     | Some r \<Rightarrow>
         if tr_ref r = ref
         then update_record tid
                (trim_record_logs (ts_finished_max_log_entries s) (ts_finished_max_log_bytes s)) s
         else s)"

text \<open>
  The whole of \<open>finish\<close>: \<open>env\<close> is what the other threads do to the store while the
  lock is released. The result holds the snapshot given to the callback and what
  \<open>callback_retries\<close> says, when there was a callback to call.
\<close>

definition store_finish ::
  "string \<Rightarrow> string \<Rightarrow> int \<Rightarrow> int \<Rightarrow> utext list \<Rightarrow> utext \<Rightarrow> bool \<Rightarrow> time \<Rightarrow> (nat \<Rightarrow> bool) \<Rightarrow>
   (task_store \<Rightarrow> task_store) \<Rightarrow> task_store \<Rightarrow>
   task_store \<times> (store_error + (task_view \<times> nat \<times> bool) option)" where
  "store_finish tid status success skipped errors error respect now ok env s =
    (case dict_get (ts_records s) tid of
       None \<Rightarrow> (s, Inl TaskNotFound)
     | Some r \<Rightarrow>
        (let r' = finish_record status success skipped errors error respect now r;
             s1 = update_record tid (\<lambda>_. r') s;
             terminal = tr_status r' \<in> terminal_task_statuses;
             called = (if terminal \<and> ts_on_terminal s
                       then Some (record_to_dict r', callback_retries ok 0 3) else None);
             s2 = env s1
         in (if terminal then finish_compact tid (tr_ref r') s2 else s2, Inr called)))"

definition store_snapshot :: "string \<Rightarrow> task_store \<Rightarrow> store_error + task_view" where
  "store_snapshot tid s =
    (case dict_get (ts_records s) tid of
       None \<Rightarrow> Inl TaskNotFound | Some r \<Rightarrow> Inr (record_to_dict r))"

definition list_snapshots :: "task_store \<Rightarrow> task_view list" where
  "list_snapshots s = map (record_to_dict \<circ> snd) (ts_records s)"

definition log_state :: "string \<Rightarrow> task_store \<Rightarrow> store_error + (utext list \<times> string)" where
  "log_state tid s =
    (case dict_get (ts_records s) tid of
       None \<Rightarrow> Inl TaskNotFound | Some r \<Rightarrow> Inr (tr_logs r, tr_status r))"

definition log_window_state ::
  "string \<Rightarrow> task_store \<Rightarrow> store_error + (utext list \<times> string \<times> int \<times> int)" where
  "log_window_state tid s =
    (case dict_get (ts_records s) tid of
       None \<Rightarrow> Inl TaskNotFound
     | Some r \<Rightarrow> Inr (tr_logs r, tr_status r, tr_dropped_log_entries r,
                    tr_dropped_log_entries r + int (length (tr_logs r))))"

definition finished_tasks :: "task_store \<Rightarrow> (string \<times> task_record) list" where
  "finished_tasks s = filter (\<lambda>(_, r). tr_status r \<in> terminal_task_statuses) (ts_records s)"

definition cleanup_victims :: "task_store \<Rightarrow> (string \<times> task_record) list" where
  "cleanup_victims s =
    (let finished = finished_tasks s
     in take (nat (int (length finished) - ts_max_finished_tasks s))
          (sort_key (\<lambda>(_, r). tr_created_at r) finished))"

definition store_cleanup :: "task_store \<Rightarrow> task_store" where
  "store_cleanup s =
    (if int (length (ts_records s)) \<le> ts_cleanup_threshold s then s
     else if int (length (finished_tasks s)) \<le> ts_max_finished_tasks s then s
     else s\<lparr>ts_records := fold (\<lambda>(k, _). dict_pop k) (cleanup_victims s) (ts_records s)\<rparr>)"

end
