(* ===== verification/TaskStoreProofs.thy ===== *)
theory TaskStoreProofs
  imports TaskStore "HOL-Library.Multiset"
begin

text \<open>
  What the task store guarantees: the retained log is the longest suffix of the
  history that fits the limits and its cursor counts the whole history, finished
  tasks are compacted only after the terminal snapshot was taken, the cleanup
  removes the oldest finished tasks and no other, and a stop request reaches every
  later dispatch of the task.
\<close>

section \<open>The longest fitting suffix\<close>

definition log_fits :: "int \<Rightarrow> int \<Rightarrow> utext list \<Rightarrow> bool" where
  "log_fits max_entries max_bytes logs \<longleftrightarrow>
     int (length logs) \<le> max_entries \<and> log_bytes logs \<le> max_bytes"

fun fit_window :: "int \<Rightarrow> int \<Rightarrow> utext list \<Rightarrow> utext list" where
  "fit_window me mb [] = []"
| "fit_window me mb (x # xs) = (if log_fits me mb (x # xs) then x # xs else fit_window me mb xs)"

lemma trim_loop_fit:
  "trim_loop me mb xs (log_bytes xs) t n b =
    (let w = fit_window me mb xs; k = length xs - length w
     in (w, log_bytes w, t \<or> k > 0, n + int k, b + log_bytes (take k xs)))"
proof (induction xs arbitrary: t n b)
  case (Cons x xs)
  have len: "length (fit_window me mb ys) \<le> length ys" for ys
    by (induction ys) auto
  show ?case
  proof (cases "log_fits me mb (x # xs)")
    case True
    then show ?thesis by (simp add: log_fits_def Let_def)
  next
    case False
    then have "int (length (x # xs)) > me \<or> log_bytes (x # xs) > mb" by (auto simp: log_fits_def)
    then have "trim_loop me mb (x # xs) (log_bytes (x # xs)) t n b
      = trim_loop me mb xs (log_bytes xs) True (n + 1) (b + log_entry_bytes x)"
      by simp
    moreover have "length (x # xs) - length (fit_window me mb xs)
      = Suc (length xs - length (fit_window me mb xs))"
      using len [of xs] by simp
    ultimately show ?thesis using False len [of xs]
      by (simp add: Cons.IH Let_def less_Suc_eq_le del: trim_loop.simps)
  qed
qed simp

lemma fit_window_fits:
  assumes "0 \<le> me" and "0 \<le> mb"
  shows "log_fits me mb (fit_window me mb xs)"
  using assms by (induction xs) (auto simp: log_fits_def)

lemma fit_window_drop: "\<exists>k \<le> length xs. fit_window me mb xs = drop k xs"
proof (induction xs)
  case (Cons x xs)
  then obtain k where "k \<le> length xs" "fit_window me mb xs = drop k xs" by blast
  then show ?case by (cases "log_fits me mb (x # xs)") (auto intro: exI [of _ "Suc k"] exI [of _ 0])
qed simp

lemma fit_window_eq_drop: "fit_window me mb xs = drop (length xs - length (fit_window me mb xs)) xs"
proof -
  obtain k where k: "k \<le> length xs" and e: "fit_window me mb xs = drop k xs"
    using fit_window_drop by blast
  show ?thesis unfolding e using k by simp
qed

lemma log_fits_snoc: "log_fits me mb (xs @ [e]) \<Longrightarrow> log_fits me mb xs"
  using log_entry_bytes_nonneg [of e] by (simp add: log_fits_def del: log_entry_bytes_nonneg)

lemma fit_window_snoc: "fit_window me mb (fit_window me mb h @ [e]) = fit_window me mb (h @ [e])"
proof (induction h)
  case (Cons x xs)
  then show ?case
  proof (cases "log_fits me mb (x # xs)")
    case False
    then have "\<not> log_fits me mb ((x # xs) @ [e])" using log_fits_snoc by blast
    with False Cons show ?thesis by simp
  qed simp
qed simp

text \<open>Every longer suffix breaks a limit, so the window is the longest one.\<close>

lemma fit_window_longest:
  assumes "h = p @ w" and "log_fits me mb w"
  shows "length w \<le> length (fit_window me mb h)"
  using assms by (induction h arbitrary: p) (auto simp: append_eq_Cons_conv Cons_eq_append_conv)

section \<open>A record and its log history\<close>

definition log_inv :: "utext list \<Rightarrow> task_record \<Rightarrow> bool" where
  "log_inv h r \<longleftrightarrow> (\<exists>k \<le> length h. tr_logs r = drop k h \<and> tr_dropped_log_entries r = int k
     \<and> tr_dropped_log_bytes r = log_bytes (take k h) \<and> tr_retained_log_bytes r = log_bytes (drop k h)
     \<and> tr_logs_truncated r = (k > 0))"

lemma log_inv_retained: "log_inv h r \<Longrightarrow> tr_retained_log_bytes r = log_bytes (tr_logs r)"
  by (auto simp: log_inv_def)

lemma trim_record_logs_eq:
  assumes "tr_retained_log_bytes r = log_bytes (tr_logs r)"
  shows "tr_logs (trim_record_logs me mb r) = fit_window me mb (tr_logs r)"
    and "tr_retained_log_bytes (trim_record_logs me mb r) = log_bytes (fit_window me mb (tr_logs r))"
  using trim_loop_fit [of me mb "tr_logs r"] assms by (simp_all add: trim_record_logs_def Let_def)

lemma trim_record_logs_frame [simp]:
  "tr_status (trim_record_logs me mb r) = tr_status r"
  "tr_control (trim_record_logs me mb r) = tr_control r"
  "tr_ref (trim_record_logs me mb r) = tr_ref r"
  "tr_created_at (trim_record_logs me mb r) = tr_created_at r"
  by (auto simp: trim_record_logs_def split: prod.splits)

lemma take_drop_add: "k \<le> length h \<Longrightarrow> take (k + j) h = take k h @ take j (drop k h)"
  by (simp add: take_add)

lemma log_inv_trim:
  assumes "log_inv h r"
  shows "log_inv h (trim_record_logs me mb r)"
proof -
  from assms obtain k where k: "k \<le> length h" "tr_logs r = drop k h"
    "tr_dropped_log_entries r = int k" "tr_dropped_log_bytes r = log_bytes (take k h)"
    "tr_retained_log_bytes r = log_bytes (drop k h)" "tr_logs_truncated r = (k > 0)"
    by (auto simp: log_inv_def)
  define j where "j = length (drop k h) - length (fit_window me mb (drop k h))"
  have w: "fit_window me mb (drop k h) = drop (k + j) h"
    using fit_window_eq_drop [of me mb "drop k h"] by (simp add: j_def add.commute)
  have "k + j \<le> length h" using k(1) by (auto simp: j_def)
  moreover have "log_bytes (take (k + j) h) = log_bytes (take k h) + log_bytes (take j (drop k h))"
    using k(1) by (simp add: take_drop_add)
  moreover have "trim_loop me mb (drop k h) (log_bytes (drop k h)) (k > 0) (int k) (log_bytes (take k h))
    = (drop (k + j) h, log_bytes (drop (k + j) h), k > 0 \<or> j > 0, int k + int j,
       log_bytes (take k h) + log_bytes (take j (drop k h)))"
    using trim_loop_fit [of me mb "drop k h" "k > 0" "int k" "log_bytes (take k h)"]
    by (simp only: Let_def w [symmetric] j_def [symmetric])
  ultimately show ?thesis
    using k unfolding log_inv_def trim_record_logs_def
    by (intro exI [of _ "k + j"]) simp
qed

lemma log_inv_append:
  assumes "log_inv h r"
  shows "log_inv (h @ [e]) (r\<lparr>tr_logs := tr_logs r @ [e],
    tr_retained_log_bytes := tr_retained_log_bytes r + log_entry_bytes e\<rparr>)"
proof -
  from assms obtain k where "k \<le> length h" "tr_logs r = drop k h" "tr_dropped_log_entries r = int k"
    "tr_dropped_log_bytes r = log_bytes (take k h)" "tr_retained_log_bytes r = log_bytes (drop k h)"
    "tr_logs_truncated r = (k > 0)"
    by (auto simp: log_inv_def)
  then show ?thesis unfolding log_inv_def by (intro exI [of _ k]) simp
qed

lemma log_inv_update [simp]:
  "log_inv h (r\<lparr>tr_updated_at := t\<rparr>) = log_inv h r"
  "log_inv h (r\<lparr>tr_control := c\<rparr>) = log_inv h r"
  "log_inv h (r\<lparr>tr_status := st\<rparr>) = log_inv h r"
  "log_inv h (r\<lparr>tr_progress := p\<rparr>) = log_inv h r"
  "log_inv h (r\<lparr>tr_cashier_urls := us\<rparr>) = log_inv h r"
  "log_inv h (r\<lparr>tr_meta := m\<rparr>) = log_inv h r"
  "log_inv h (finish_record st a b es er rs t r) = log_inv h r"
  by (simp_all add: log_inv_def finish_record_def)

lemma log_inv_new [simp]: "log_inv [] (new_record ref tid p n src m sp t t')"
  by (simp add: log_inv_def new_record_def)

section \<open>The store as a machine\<close>

text \<open>
  Every call that changes the store; \<open>finish\<close> contributes its two critical sections,
  between which other threads may run.
\<close>

datatype store_event =
    SvCreate string string int string "(string, pyval) dict" bool time time
  | SvControl string control_event
  | SvStop string
  | SvStopAfterCurrent string
  | SvSkip string
  | SvLog string utext time
  | SvRunning string time
  | SvProgress string string time
  | SvCashier string string time
  | SvMeta string "(string, pyval) dict" time
  | SvFinish string string int int "utext list" utext bool time
  | SvCompact string nat
  | SvCleanup
  | SvCallback bool

fun store_step :: "store_event \<Rightarrow> task_store \<Rightarrow> task_store" where
  "store_step (SvCreate tid p n src m sp t t') s = fst (store_create tid p n src m sp t t' s)"
| "store_step (SvControl tid ev) s =
     update_record tid (\<lambda>r. r\<lparr>tr_control := control_step ev (tr_control r)\<rparr>) s"
| "store_step (SvStop tid) s = fst (store_request_stop tid s)"
| "store_step (SvStopAfterCurrent tid) s = fst (store_request_stop_after_current tid s)"
| "store_step (SvSkip tid) s = fst (store_request_skip_current tid s)"
| "store_step (SvLog tid e t) s = append_log tid e t s"
| "store_step (SvRunning tid t) s = fst (mark_running tid t s)"
| "store_step (SvProgress tid p t) s = fst (set_progress tid p t s)"
| "store_step (SvCashier tid u t) s = fst (add_cashier_url tid u t s)"
| "store_step (SvMeta tid m t) s = fst (update_meta tid m t s)"
| "store_step (SvFinish tid st a b es er rs t) s =
     update_record tid (finish_record st a b es er rs t) s"
| "store_step (SvCompact tid ref) s = finish_compact tid ref s"
| "store_step SvCleanup s = store_cleanup s"
| "store_step (SvCallback b) s = set_terminal_callback b s"

fun event_log :: "string \<Rightarrow> store_event \<Rightarrow> utext list" where
  "event_log tid (SvLog tid' e t) = (if tid' = tid then [e] else [])"
| "event_log tid _ = []"

fun event_creates :: "string \<Rightarrow> store_event \<Rightarrow> bool" where
  "event_creates tid (SvCreate tid' _ _ _ _ _ _ _) = (tid' = tid)"
| "event_creates tid _ = False"

text \<open>The entries a run appends to the log of one task.\<close>

definition appended :: "string \<Rightarrow> store_event list \<Rightarrow> utext list" where
  "appended tid es = concat (map (event_log tid) es)"

text \<open>How a step changes one record.\<close>

lemma get_update_record [simp]:
  "dict_get (ts_records (update_record tid f s)) j =
    (if j = tid then map_option f (dict_get (ts_records s) j) else dict_get (ts_records s) j)"
  by (simp add: update_record_def)

lemma get_pops:
  "dict_get (fold (\<lambda>(k, _). dict_pop k) vs d) j = (if j \<in> fst ` set vs then None else dict_get d j)"
  by (induction vs arbitrary: d) (auto simp: delete_conv')

lemma get_cleanup:
  "dict_get (ts_records (store_cleanup s)) j = Some r \<Longrightarrow> dict_get (ts_records s) j = Some r"
  by (auto simp: store_cleanup_def get_pops split: if_splits)

text \<open>
  What a step may do to a record that stays stored: one case per way the code
  writes a record. The first argument is what it appends to the log.
\<close>

inductive record_step :: "utext list \<Rightarrow> task_record \<Rightarrow> task_record \<Rightarrow> bool" where
  rs_same: "record_step [] r r"
| rs_control: "record_step [] r (r\<lparr>tr_control := control_step ev (tr_control r)\<rparr>)"
| rs_log: "record_step [e] r
    ((trim_record_logs me mb (r\<lparr>tr_logs := tr_logs r @ [e],
       tr_retained_log_bytes := tr_retained_log_bytes r + log_entry_bytes e\<rparr>))\<lparr>tr_updated_at := t\<rparr>)"
| rs_running: "record_step [] r (r\<lparr>tr_status := ''running'', tr_updated_at := t\<rparr>)"
| rs_progress: "record_step [] r (r\<lparr>tr_progress := p, tr_updated_at := t\<rparr>)"
| rs_cashier: "record_step [] r (r\<lparr>tr_cashier_urls := us, tr_updated_at := t\<rparr>)"
| rs_meta: "record_step [] r (r\<lparr>tr_meta := m, tr_updated_at := t\<rparr>)"
| rs_finish: "record_step [] r (finish_record st a b es er rs t r)"
| rs_compact: "record_step [] r (trim_record_logs me mb r)"

lemma log_inv_step:
  assumes "record_step l r r'" and "log_inv h r"
  shows "log_inv (h @ l) r'"
  using assms(1)
proof cases
  case (rs_log e me mb t)
  with assms(2) show ?thesis by (simp add: log_inv_trim log_inv_append)
qed (use assms(2) in \<open>simp_all add: log_inv_trim\<close>)

lemma update_record_step:
  assumes "dict_get (ts_records (update_record t f s)) tid = Some r'"
    and "\<And>r. dict_get (ts_records s) tid = Some r \<Longrightarrow> t = tid \<Longrightarrow> record_step l r (f r)"
    and "t \<noteq> tid \<Longrightarrow> l = []"
  shows "\<exists>r. dict_get (ts_records s) tid = Some r \<and> record_step l r r'"
proof (cases "t = tid")
  case True
  with assms(1) obtain r where "dict_get (ts_records s) tid = Some r" "r' = f r" by auto
  with True assms(2) show ?thesis by auto
next
  case False
  with assms(1,3) show ?thesis by (auto intro: rs_same)
qed

lemma same_store_step:
  assumes "dict_get (ts_records s) tid = Some r'" and "l = []"
  shows "\<exists>r. dict_get (ts_records s) tid = Some r \<and> record_step l r r'"
  using assms by (auto intro: rs_same)

lemma control_set_step:
  assumes "dict_get (ts_records (update_record t (\<lambda>_. r0\<lparr>tr_control := control_step ev (tr_control r0)\<rparr>) s)) tid
      = Some r'" and "dict_get (ts_records s) t = Some r0"
  shows "\<exists>r. dict_get (ts_records s) tid = Some r \<and> record_step [] r r'"
  using assms(1) by (rule update_record_step) (use assms(2) in \<open>auto intro: rs_control\<close>)

lemma update_or_raise_step:
  assumes "dict_get (ts_records (fst (update_or_raise t f s))) tid = Some r'"
    and "\<And>r. record_step [] r (f r)"
  shows "\<exists>r. dict_get (ts_records s) tid = Some r \<and> record_step [] r r'"
proof (cases "store_exists t s")
  case True
  with assms(1) have "dict_get (ts_records (update_record t f s)) tid = Some r'"
    by (simp add: update_or_raise_def)
  then show ?thesis by (rule update_record_step) (use assms(2) in auto)
next
  case False
  with assms(1) show ?thesis by (intro same_store_step) (simp_all add: update_or_raise_def)
qed

lemma request_stop_step:
  assumes "dict_get (ts_records (fst (store_request_stop t s))) tid = Some r'"
  shows "\<exists>r. dict_get (ts_records s) tid = Some r \<and> record_step [] r r'"
proof (cases "dict_get (ts_records s) t")
  case None
  with assms show ?thesis by (intro same_store_step) (simp_all add: store_request_stop_def)
next
  case (Some r)
  show ?thesis
  proof (cases "tr_status r \<in> terminal_task_statuses")
    case True
    with Some assms show ?thesis by (intro same_store_step) (simp_all add: store_request_stop_def)
  next
    case False
    obtain c ch where "request_stop (tr_control r) = (c, ch)" by fastforce
    with False Some assms show ?thesis
      by (intro control_set_step [where ev = EvStop and t = t, OF _ Some])
        (simp add: store_request_stop_def Let_def)
  qed
qed

lemma request_after_current_step:
  assumes "dict_get (ts_records (fst (store_request_stop_after_current t s))) tid = Some r'"
  shows "\<exists>r. dict_get (ts_records s) tid = Some r \<and> record_step [] r r'"
proof (cases "dict_get (ts_records s) t")
  case None
  with assms show ?thesis
    by (intro same_store_step) (simp_all add: store_request_stop_after_current_def)
next
  case (Some r)
  show ?thesis
  proof (cases "tr_status r \<in> terminal_task_statuses \<or> \<not> tr_supports_after_current r")
    case True
    with Some assms show ?thesis
      by (intro same_store_step) (auto simp: store_request_stop_after_current_def split: if_splits)
  next
    case False
    obtain c ch where "request_stop_after_current (tr_control r) = (c, ch)" by fastforce
    with False Some assms show ?thesis
      by (intro control_set_step [where ev = EvStopAfterCurrent and t = t, OF _ Some])
        (simp add: store_request_stop_after_current_def Let_def)
  qed
qed

lemma step_record:
  assumes "dict_get (ts_records (store_step ev s)) tid = Some r'" and "\<not> event_creates tid ev"
  shows "\<exists>r. dict_get (ts_records s) tid = Some r \<and> record_step (event_log tid ev) r r'"
proof (cases ev)
  case (SvCreate t p n src m sp u u')
  with assms show ?thesis
    by (intro same_store_step) (simp_all add: store_create_def Let_def split: if_splits)
next
  case (SvControl t e)
  with assms(1) have "dict_get (ts_records (update_record t
    (\<lambda>r. r\<lparr>tr_control := control_step e (tr_control r)\<rparr>) s)) tid = Some r'" by simp
  then show ?thesis unfolding SvControl by (rule update_record_step) (simp_all add: rs_control)
next
  case (SvStop t)
  with assms request_stop_step show ?thesis by simp
next
  case (SvStopAfterCurrent t)
  with assms request_after_current_step show ?thesis by simp
next
  case (SvSkip t)
  show ?thesis
  proof (cases "dict_get (ts_records s) t")
    case None
    with SvSkip assms show ?thesis
      by (intro same_store_step) (simp_all add: store_request_skip_current_def control_for_def)
  next
    case (Some r)
    with SvSkip assms(1) have "dict_get (ts_records (update_record t
      (\<lambda>x. x\<lparr>tr_control := request_skip_current (tr_control r)\<rparr>) s)) tid = Some r'"
      by (simp add: store_request_skip_current_def control_for_def)
    then have "\<exists>r. dict_get (ts_records s) tid = Some r \<and> record_step [] r r'"
      by (rule update_record_step)
        (use Some rs_control [where ev = EvSkip] in \<open>auto\<close>)
    with SvSkip show ?thesis by simp
  qed
next
  case (SvLog t e u)
  with assms(1) have "dict_get (ts_records (append_log t e u s)) tid = Some r'" by simp
  then show ?thesis unfolding SvLog append_log_def
    by (rule update_record_step) (simp_all add: rs_log)
next
  case (SvRunning t u)
  with assms(1) show ?thesis
    by (simp add: mark_running_def) (rule update_or_raise_step, assumption, rule rs_running)
next
  case (SvProgress t p u)
  with assms(1) show ?thesis
    by (simp add: set_progress_def) (rule update_or_raise_step, assumption, rule rs_progress)
next
  case (SvCashier t p u)
  with assms(1) show ?thesis
    by (simp add: add_cashier_url_def) (rule update_or_raise_step, assumption, rule rs_cashier)
next
  case (SvMeta t m u)
  show ?thesis
  proof (cases "dict_get (ts_records s) t")
    case None
    with SvMeta assms show ?thesis by (intro same_store_step) (simp_all add: update_meta_def)
  next
    case (Some r)
    with SvMeta assms(1) have "dict_get (ts_records (update_record t
      (\<lambda>x. x\<lparr>tr_meta := dict_merge (tr_meta r) m, tr_updated_at := u\<rparr>) s)) tid = Some r'"
      by (simp add: update_meta_def Let_def)
    then have "\<exists>r. dict_get (ts_records s) tid = Some r \<and> record_step [] r r'"
      by (rule update_record_step) (simp_all add: rs_meta)
    with SvMeta show ?thesis by simp
  qed
next
  case (SvFinish t st a b es er rs u)
  with assms(1) have "dict_get (ts_records (update_record t (finish_record st a b es er rs u) s)) tid
    = Some r'" by simp
  then show ?thesis unfolding SvFinish by (rule update_record_step) (simp_all add: rs_finish)
next
  case (SvCompact t ref)
  show ?thesis
  proof (cases "finish_compact t ref s = s")
    case True
    with SvCompact assms show ?thesis by (intro same_store_step) simp_all
  next
    case False
    then have "finish_compact t ref s = update_record t
        (trim_record_logs (ts_finished_max_log_entries s) (ts_finished_max_log_bytes s)) s"
      by (auto simp: finish_compact_def split: option.splits if_splits)
    with SvCompact assms(1) have "dict_get (ts_records (update_record t
        (trim_record_logs (ts_finished_max_log_entries s) (ts_finished_max_log_bytes s)) s)) tid = Some r'"
      by simp
    then have "\<exists>r. dict_get (ts_records s) tid = Some r \<and> record_step [] r r'"
      by (rule update_record_step) (simp_all add: rs_compact)
    with SvCompact show ?thesis by simp
  qed
next
  case SvCleanup
  with assms(1) have "dict_get (ts_records (store_cleanup s)) tid = Some r'" by simp
  from same_store_step [OF get_cleanup [OF this]] SvCleanup show ?thesis by simp
next
  case (SvCallback b)
  with assms show ?thesis by (intro same_store_step) (simp_all add: set_terminal_callback_def)
qed

lemma run_record:
  assumes "dict_get (ts_records (fold store_step es s)) tid = Some r'"
    and "\<forall>ev\<in>set es. \<not> event_creates tid ev"
    and "\<And>r. dict_get (ts_records s) tid = Some r \<Longrightarrow> P h r"
    and "\<And>l r r' h. record_step l r r' \<Longrightarrow> P h r \<Longrightarrow> P (h @ l) r'"
  shows "P (h @ appended tid es) r'"
  using assms(1-3)
proof (induction es arbitrary: s h)
  case (Cons ev es)
  have "P (h @ event_log tid ev) r1" if r1: "dict_get (ts_records (store_step ev s)) tid = Some r1" for r1
    using step_record [OF r1] Cons.prems(2,3) assms(4) by auto
  then have "P ((h @ event_log tid ev) @ appended tid es) r'"
    using Cons.prems(1,2) by (intro Cons.IH) auto
  then show ?case by (simp add: appended_def)
qed (simp add: appended_def)

section \<open>The invariant of the store\<close>

definition store_limits :: "task_store \<Rightarrow> int \<times> int \<times> int \<times> int \<times> int" where
  "store_limits s = (ts_max_finished_tasks s, ts_active_max_log_entries s, ts_active_max_log_bytes s,
     ts_finished_max_log_entries s, ts_finished_max_log_bytes s)"

definition store_ok :: "task_store \<Rightarrow> bool" where
  "store_ok s \<longleftrightarrow> dict_ok (ts_records s)"

lemma store_limits_update [simp]:
  "store_limits (update_record tid f s) = store_limits s"
  "store_ok (update_record tid f s) = store_ok s"
  by (simp_all add: store_limits_def store_ok_def update_record_def)

lemma dict_ok_pops: "dict_ok d \<Longrightarrow> dict_ok (fold (\<lambda>(k, _). dict_pop k) vs d)"
  by (induction vs arbitrary: d) (auto intro: dict_ok_pop)

lemma store_ok_cleanup: "store_ok s \<Longrightarrow> store_ok (store_cleanup s)"
  by (simp add: store_ok_def store_cleanup_def dict_ok_pops)

lemma store_limits_cleanup [simp]: "store_limits (store_cleanup s) = store_limits s"
  by (simp add: store_limits_def store_cleanup_def)

text \<open>The stores that one write to one record makes out of \<open>s\<close>.\<close>

definition one_write :: "task_store \<Rightarrow> task_store \<Rightarrow> bool" where
  "one_write s s' \<longleftrightarrow> s' = s \<or> (\<exists>t f. s' = update_record t f s)"

lemma one_write_simps [simp]: "one_write s s" "one_write s (update_record t f s)"
  by (auto simp: one_write_def)

lemma one_write_frame:
  assumes "one_write s s'"
  shows "store_limits s' = store_limits s" "store_ok s' = store_ok s"
  using assms by (auto simp: one_write_def)

lemma one_write_request_stop: "one_write s (fst (store_request_stop t s))"
  by (simp add: store_request_stop_def Let_def split: option.split prod.split)

lemma one_write_after_current: "one_write s (fst (store_request_stop_after_current t s))"
  by (simp add: store_request_stop_after_current_def Let_def split: option.split prod.split)

lemma store_step_cases:
  "one_write s (store_step ev s) \<or> ev = SvCleanup \<or> (\<exists>b. ev = SvCallback b) \<or> (\<exists>t. event_creates t ev)"
  by (cases ev) (simp_all add: one_write_request_stop one_write_after_current
      store_request_skip_current_def append_log_def update_meta_def Let_def finish_compact_def
      mark_running_def set_progress_def add_cashier_url_def update_or_raise_def
      split: option.split sum.split)

lemma store_step_create:
  assumes "event_creates t ev"
  shows "store_limits (store_step ev s) = store_limits s" "store_ok s \<Longrightarrow> store_ok (store_step ev s)"
  using assms
  by (cases ev; simp add: store_create_def Let_def store_limits_def store_ok_def)+

lemma store_step_frame:
  assumes "store_ok s"
  shows "store_ok (store_step ev s)" "store_limits (store_step ev s) = store_limits s"
proof -
  consider "one_write s (store_step ev s)" | "ev = SvCleanup" | b where "ev = SvCallback b"
    | t where "event_creates t ev"
    using store_step_cases by blast
  then have "store_ok (store_step ev s) \<and> store_limits (store_step ev s) = store_limits s"
  proof cases
    case 1
    with one_write_frame assms show ?thesis by simp
  next
    case 2
    with assms show ?thesis by (simp add: store_ok_cleanup)
  next
    case 3
    with assms show ?thesis by (simp add: set_terminal_callback_def store_ok_def store_limits_def)
  next
    case 4
    with store_step_create assms show ?thesis by simp
  qed
  then show "store_ok (store_step ev s)" "store_limits (store_step ev s) = store_limits s" by auto
qed

text \<open>No step changes the limits of the store.\<close>

interpretation store_machine: frozen_machine store_step store_ok store_limits
  by unfold_locales (simp_all add: store_step_frame)

lemma store_ok_new: "store_ok (new_store mf th ae ab fe fb cb)"
  by (simp add: store_ok_def new_store_def)

lemma store_limits_run:
  "store_limits (fold store_step es (new_store mf th ae ab fe fb cb))
    = (mf, max 1 ae, max 1 ab, max 1 fe, max 1 fb)"
  by (simp add: store_machine.run_obs [OF store_ok_new]) (simp add: store_limits_def new_store_def)

lemma store_create_get:
  "store_create tid p n src m sp t t' s = (s', r) \<Longrightarrow> dict_get (ts_records s') tid = Some r
    \<and> r = new_record (ts_next_ref s) tid p n src m sp t t' \<and> store_limits s' = store_limits s"
  by (auto simp: store_create_def Let_def store_limits_def)

section \<open>Finished tasks and the cleanup\<close>

lemma set_finished_tasks:
  "set (finished_tasks s) = {(k, r) \<in> set (ts_records s). tr_status r \<in> terminal_task_statuses}"
  by (auto simp: finished_tasks_def)

lemma set_cleanup_victims: "set (cleanup_victims s) \<subseteq> set (finished_tasks s)"
  unfolding cleanup_victims_def Let_def using set_take_subset by fastforce

lemma dict_pops_filter:
  "fold (\<lambda>(k, _). dict_pop k) vs d = filter (\<lambda>p. fst p \<notin> fst ` set vs) d"
proof (induction vs arbitrary: d)
  case (Cons v vs)
  have "dict_pop (fst v) d = filter (\<lambda>p. fst p \<noteq> fst v) d"
    by (induction d) auto
  then have "fold (\<lambda>(k, _). dict_pop k) (v # vs) d
    = filter (\<lambda>p. fst p \<notin> fst ` set vs) (filter (\<lambda>p. fst p \<noteq> fst v) d)"
    by (simp only: fold_simps split_beta Cons)
  also have "\<dots> = filter (\<lambda>p. fst p \<notin> fst ` set (v # vs)) d"
    unfolding filter_filter by (rule filter_cong) auto
  finally show ?case .
qed simp

lemma sorted_victims_oldest:
  assumes "v \<in> set (take n (sort_key f xs))" and "u \<in> set (drop n (sort_key f xs))"
  shows "f v \<le> (f u :: 'a::linorder)"
proof -
  have "sorted (map f (take n (sort_key f xs) @ drop n (sort_key f xs)))" by simp
  with assms show ?thesis unfolding map_append sorted_append by auto
qed

lemma length_filter_sort_key: "length (filter P (sort_key f xs)) = length (filter P xs)"
proof -
  have "mset (filter P (sort_key f xs)) = mset (filter P xs)" by simp
  then show ?thesis by (rule mset_eq_length)
qed

lemma length_filter_drop_victims:
  "length (filter (\<lambda>p. fst p \<notin> fst ` set (take n (sort_key f xs))) xs) \<le> length xs - n"
proof -
  let ?P = "\<lambda>p. fst p \<notin> fst ` set (take n (sort_key f xs))"
  have "length (filter ?P xs) = length (filter ?P (take n (sort_key f xs) @ drop n (sort_key f xs)))"
    by (simp only: append_take_drop_id length_filter_sort_key)
  also have "\<dots> = length (filter ?P (drop n (sort_key f xs)))"
    by (simp only: filter_append) (auto simp: filter_empty_conv)
  also have "\<dots> \<le> length xs - n"
    using length_filter_le [of ?P "drop n (sort_key f xs)"] by simp
  finally show ?thesis .
qed

lemma cleanup_records:
  assumes "int (length (ts_records s)) > ts_cleanup_threshold s"
    and "int (length (finished_tasks s)) > ts_max_finished_tasks s"
  shows "ts_records (store_cleanup s)
    = filter (\<lambda>p. fst p \<notin> fst ` set (cleanup_victims s)) (ts_records s)"
  using assms by (simp add: store_cleanup_def dict_pops_filter)

lemma cleanup_finished_bound:
  assumes "int (length (ts_records s)) > ts_cleanup_threshold s" and "0 \<le> ts_max_finished_tasks s"
  shows "int (length (finished_tasks (store_cleanup s))) \<le> ts_max_finished_tasks s"
proof (cases "int (length (finished_tasks s)) > ts_max_finished_tasks s")
  case True
  let ?n = "nat (int (length (finished_tasks s)) - ts_max_finished_tasks s)"
  have "finished_tasks (store_cleanup s)
    = filter (\<lambda>p. fst p \<notin> fst ` set (cleanup_victims s)) (finished_tasks s)"
    unfolding finished_tasks_def cleanup_records [OF assms(1) True] filter_filter
    by (rule filter_cong) auto
  then have "length (finished_tasks (store_cleanup s)) \<le> length (finished_tasks s) - ?n"
    using length_filter_drop_victims by (simp add: cleanup_victims_def Let_def)
  with True assms(2) show ?thesis by simp
next
  case False
  with assms(1) show ?thesis by (simp add: store_cleanup_def)
qed

lemma cleanup_keeps_active:
  assumes "store_ok s" and "(k, r) \<in> set (ts_records s)" and "tr_status r \<notin> terminal_task_statuses"
  shows "(k, r) \<in> set (ts_records (store_cleanup s))"
proof -
  have "k \<notin> fst ` set (cleanup_victims s)"
  proof
    assume "k \<in> fst ` set (cleanup_victims s)"
    then obtain u where "(k, u) \<in> set (finished_tasks s)" using set_cleanup_victims by force
    then have "(k, u) \<in> set (ts_records s)" "tr_status u \<in> terminal_task_statuses"
      by (auto simp: set_finished_tasks)
    with assms show False by (auto simp: store_ok_def dest: eq_key_imp_eq_value)
  qed
  with assms(2) show ?thesis by (auto simp: store_cleanup_def dict_pops_filter)
qed

lemma cleanup_removes_oldest:
  assumes "(k, r) \<in> set (ts_records s)" "(k, r) \<notin> set (ts_records (store_cleanup s))" "store_ok s"
    and "(j, u) \<in> set (ts_records (store_cleanup s))" "tr_status u \<in> terminal_task_statuses"
  shows "tr_status r \<in> terminal_task_statuses \<and> tr_created_at r \<le> tr_created_at u"
proof -
  let ?f = "\<lambda>(_, r). tr_created_at r"
  let ?n = "nat (int (length (finished_tasks s)) - ts_max_finished_tasks s)"
  have fin: "tr_status r \<in> terminal_task_statuses"
    using cleanup_keeps_active [OF assms(3,1)] assms(2) by blast
  have big: "int (length (ts_records s)) > ts_cleanup_threshold s"
    "int (length (finished_tasks s)) > ts_max_finished_tasks s"
    using assms(1,2) by (auto simp: store_cleanup_def split: if_splits)
  note recs = cleanup_records [OF big]
  have "k \<in> fst ` set (cleanup_victims s)" using assms(1,2) by (auto simp: recs)
  then obtain r' where v: "(k, r') \<in> set (cleanup_victims s)" by force
  then have "(k, r') \<in> set (ts_records s)" using set_cleanup_victims set_finished_tasks by blast
  with assms(1,3) have "r' = r" by (auto simp: store_ok_def dest: eq_key_imp_eq_value)
  with v have kv: "(k, r) \<in> set (take ?n (sort_key ?f (finished_tasks s)))"
    by (simp add: cleanup_victims_def Let_def)
  have "(j, u) \<in> set (finished_tasks s)" "(j, u) \<notin> set (cleanup_victims s)"
    using assms(4,5) by (auto simp: recs set_finished_tasks image_iff)
  then have "(j, u) \<in> set (drop ?n (sort_key ?f (finished_tasks s)))"
    by (metis (no_types, lifting) Un_iff append_take_drop_id cleanup_victims_def set_append set_sort)
  from sorted_victims_oldest [OF kv this] fin show ?thesis by simp
qed

lemma append_log_get:
  assumes "dict_get (ts_records s) tid = Some r"
  shows "dict_get (ts_records (append_log tid e u s)) tid = Some ((trim_record_logs
      (ts_active_max_log_entries s) (ts_active_max_log_bytes s)
      (r\<lparr>tr_logs := tr_logs r @ [e], tr_retained_log_bytes := tr_retained_log_bytes r + log_entry_bytes e\<rparr>))
      \<lparr>tr_updated_at := u\<rparr>)"
  using assms by (simp add: append_log_def)

lemma append_log_limits [simp]: "store_limits (append_log tid e u s) = store_limits s"
  by (simp add: append_log_def)

lemma callback_retries_result:
  "callback_retries ok i left = (n, b) \<Longrightarrow> i \<le> n \<and> n \<le> i + left \<and> (b \<longleftrightarrow> (\<exists>j. i \<le> j \<and> j < i + left \<and> ok j))"
proof (induction ok i left arbitrary: n b rule: callback_retries.induct)
  case (2 ok i left)
  show ?case
  proof (cases "ok i")
    case True
    with 2 show ?thesis by auto
  next
    case False
    with 2 have "Suc i \<le> n \<and> n \<le> Suc i + left \<and> (b \<longleftrightarrow> (\<exists>j. Suc i \<le> j \<and> j < Suc i + left \<and> ok j))"
      by simp
    moreover have "(\<exists>j. i \<le> j \<and> j < i + Suc left \<and> ok j) \<longleftrightarrow> (\<exists>j. Suc i \<le> j \<and> j < Suc i + left \<and> ok j)"
      using False by (metis Suc_leD add_Suc_right add_Suc le_antisym not_less_eq_eq)
    ultimately show ?thesis by simp
  qed
qed auto

lemma finish_record_fields [simp]:
  "tr_status (finish_record st a b es er rs t r) = final_status st rs (tr_control r)"
  "tr_ref (finish_record st a b es er rs t r) = tr_ref r"
  "tr_logs (finish_record st a b es er rs t r) = tr_logs r"
  by (simp_all add: finish_record_def)

lemma store_finish_result:
  assumes "dict_get (ts_records s) tid = Some r"
  shows "store_finish tid st a b es er rs t ok env s =
    (let fin = final_status st rs (tr_control r);
         s2 = env (update_record tid (finish_record st a b es er rs t) s)
     in (if fin \<in> terminal_task_statuses then finish_compact tid (tr_ref r) s2 else s2,
         Inr (if fin \<in> terminal_task_statuses \<and> ts_on_terminal s
              then Some (record_to_dict (finish_record st a b es er rs t r), callback_retries ok 0 3)
              else None)))"
proof -
  have eq: "update_record tid (\<lambda>_. finish_record st a b es er rs t r) s
    = update_record tid (finish_record st a b es er rs t) s"
    using assms by (simp add: update_record_def dict_modify_def)
  show ?thesis using assms by (simp add: store_finish_def Let_def eq)
qed

text \<open>What a run does to the gate of one task: a gate that is closed stays closed.\<close>

definition dispatch_closed :: "utext list \<Rightarrow> task_record \<Rightarrow> bool" where
  "dispatch_closed h r \<longleftrightarrow> should_stop_starting_new_attempts (tr_control r)"

lemma record_step_closed:
  assumes "record_step l r r'" and "dispatch_closed h r"
  shows "dispatch_closed (h @ l) r'"
  using assms(1)
proof cases
  case (rs_control ev)
  with assms(2) gate.step_keeps show ?thesis by (simp add: dispatch_closed_def)
qed (use assms(2) in \<open>simp_all add: dispatch_closed_def finish_record_def\<close>)

section \<open>Properties\<close>

text \<open>
  The log cursor counts the whole history: whatever the threads do after a
  task was created, a snapshot of the task shows a suffix of everything that was
  appended to it, its cursor runs from the number of dropped entries to the number
  of appended ones, and the dropped and the retained bytes add up to all bytes.
\<close>

lemma log_cursor_counts_history:
  assumes "store_create tid p n src m sp t t' s = (s1, r0)"
    and "\<forall>ev\<in>set es. \<not> event_creates tid ev"
    and "store_snapshot tid (fold store_step es s1) = Inr v"
  shows "tv_logs v = drop (nat (tv_log_start_index v)) (appended tid es)
     \<and> 0 \<le> tv_log_start_index v \<and> tv_log_next_index v = int (length (appended tid es))
     \<and> tv_dropped_log_bytes v + tv_retained_log_bytes v = log_bytes (appended tid es)"
proof -
  from assms(3) obtain r where r: "dict_get (ts_records (fold store_step es s1)) tid = Some r"
    and v: "v = record_to_dict r"
    by (auto simp: store_snapshot_def split: option.splits)
  have "log_inv ([] @ appended tid es) r"
    using r assms(2)
  proof (rule run_record)
    show "log_inv [] r" if "dict_get (ts_records s1) tid = Some r" for r
      using that store_create_get [OF assms(1)] log_inv_new by (metis option.inject)
  qed (rule log_inv_step)
  then obtain k where "k \<le> length (appended tid es)" "tr_logs r = drop k (appended tid es)"
    "tr_dropped_log_entries r = int k" "tr_dropped_log_bytes r = log_bytes (take k (appended tid es))"
    "tr_retained_log_bytes r = log_bytes (drop k (appended tid es))"
    by (auto simp: log_inv_def)
  moreover have "log_bytes (take k (appended tid es)) + log_bytes (drop k (appended tid es))
    = log_bytes (appended tid es)"
    by (metis append_take_drop_id log_bytes_simps(3))
  ultimately show ?thesis by (simp add: v record_to_dict_def)
qed

definition example_store :: task_store where
  "example_store = new_store 1 1 2 100 1 100 True"

definition example_log :: "store_event list" where
  "example_log = [SvLog ''t'' [65] 1, SvLog ''t'' [66] 2, SvLog ''t'' [67] 3]"

lemma example_create:
  "store_create ''t'' [] 1 [] [] True 0 0 example_store =
    (example_store\<lparr>ts_records := [(''t'', new_record 0 ''t'' [] 1 [] [] True 0 0)], ts_next_ref := 1\<rparr>,
     new_record 0 ''t'' [] 1 [] [] True 0 0)"
  by (simp add: store_create_def example_store_def new_store_def Let_def)

text \<open>
  C17. Logs are bounded and nothing is dropped without need: a task of a store built
  by the constructor, in whatever state the store is, retains after any sequence
  of appends exactly the longest suffix of the appended entries that has at most
  the configured number of entries and of UTF-8 bytes.
\<close>

theorem log_is_longest_window:
  assumes "store_create tid p n src m sp t t' (fold store_step es (new_store mf th ae ab fe fb cb)) = (s1, r0)"
  shows "let h = map fst logs; w = fit_window (max 1 ae) (max 1 ab) h
    in log_window_state tid (fold (\<lambda>(e, u). append_log tid e u) logs s1)
         = Inr (w, ''pending'', int (length h) - int (length w), int (length h))
     \<and> log_fits (max 1 ae) (max 1 ab) w
     \<and> (\<forall>q w'. h = q @ w' \<longrightarrow> log_fits (max 1 ae) (max 1 ab) w' \<longrightarrow> length w' \<le> length w)"
proof -
  have lim: "ts_active_max_log_entries s1 = max 1 ae" "ts_active_max_log_bytes s1 = max 1 ab"
    using store_create_get [OF assms] store_limits_run [of es mf th ae ab fe fb cb]
    by (auto simp: store_limits_def)
  have "\<exists>r. dict_get (ts_records (fold (\<lambda>(e, u). append_log tid e u) logs s1)) tid = Some r
     \<and> log_inv (map fst logs) r \<and> tr_logs r = fit_window (max 1 ae) (max 1 ab) (map fst logs)
     \<and> tr_status r = ''pending''
     \<and> store_limits (fold (\<lambda>(e, u). append_log tid e u) logs s1) = store_limits s1"
  proof (induction logs rule: rev_induct)
    case Nil
    with store_create_get [OF assms] show ?case by (auto simp: new_record_def log_inv_def)
  next
    case (snoc x logs)
    obtain e u where x: "x = (e, u)" by (cases x)
    let ?s = "fold (\<lambda>(e, u). append_log tid e u) logs s1"
    from snoc obtain r where r: "dict_get (ts_records ?s) tid = Some r" "log_inv (map fst logs) r"
      "tr_logs r = fit_window (max 1 ae) (max 1 ab) (map fst logs)" "tr_status r = ''pending''"
      "store_limits ?s = store_limits s1" by blast
    let ?r = "r\<lparr>tr_logs := tr_logs r @ [e], tr_retained_log_bytes := tr_retained_log_bytes r + log_entry_bytes e\<rparr>"
    have l: "ts_active_max_log_entries ?s = max 1 ae" "ts_active_max_log_bytes ?s = max 1 ab"
      using r(5) lim by (auto simp: store_limits_def)
    have inv: "log_inv (map fst logs @ [e]) ?r" by (rule log_inv_append) (rule r(2))
    have tl: "tr_logs (trim_record_logs (max 1 ae) (max 1 ab) ?r)
      = fit_window (max 1 ae) (max 1 ab) (map fst logs @ [e])"
      using trim_record_logs_eq(1) [OF log_inv_retained [OF inv]] fit_window_snoc by (simp add: r(3))
    have g: "dict_get (ts_records (append_log tid e u ?s)) tid
      = Some ((trim_record_logs (max 1 ae) (max 1 ab) ?r)\<lparr>tr_updated_at := u\<rparr>)"
      using append_log_get [OF r(1), of e u] by (simp only: l)
    have f: "fold (\<lambda>(e, u). append_log tid e u) (logs @ [x]) s1 = append_log tid e u ?s"
      by (simp add: x)
    show ?case unfolding f g
      using r(4,5) log_inv_trim [OF inv] tl by (simp add: x)
  qed
  then obtain r where r: "dict_get (ts_records (fold (\<lambda>(e, u). append_log tid e u) logs s1)) tid = Some r"
    "log_inv (map fst logs) r" "tr_logs r = fit_window (max 1 ae) (max 1 ab) (map fst logs)"
    "tr_status r = ''pending''" by blast
  have "tr_dropped_log_entries r = int (length (map fst logs)) - int (length (tr_logs r))"
    using r(2) by (auto simp: log_inv_def)
  with r(1,3,4) fit_window_fits [of "max 1 ae" "max 1 ab" "map fst logs"]
    fit_window_longest [of "map fst logs" _ _ "max 1 ae" "max 1 ab"]
  show ?thesis by (simp add: Let_def log_window_state_def)
qed

theorem log_is_longest_window_witness:
  "let h = map fst [([65], 1), ([66, 66], 2), ([67], 3 :: time)]; w = fit_window (max 1 2) (max 1 3) h
    in log_window_state ''t'' (fold (\<lambda>(e, u). append_log ''t'' e u)
           [([65], 1), ([66, 66], 2), ([67], 3)]
           (fst (store_create ''t'' [] 1 [] [] True 0 0 (fold store_step [] (new_store 1 1 2 3 1 1 False)))))
         = Inr (w, ''pending'', int (length h) - int (length w), int (length h))
     \<and> log_fits (max 1 2) (max 1 3) w
     \<and> (\<forall>q w'. h = q @ w' \<longrightarrow> log_fits (max 1 2) (max 1 3) w' \<longrightarrow> length w' \<le> length w)"
  by (rule log_is_longest_window) (rule prod.collapse [symmetric])

text \<open>
  What a finished task reports: a natural result of a run that was asked to stop
  is reported as stopped, any other status is kept; a terminal status is handed to
  the callback (with at most three calls, until one returns) together with the log
  as it was before the compaction.
\<close>

lemma finish_reports_full_log:
  assumes "dict_get (ts_records s) tid = Some r"
    and "store_finish tid st a b es er rs t ok env s = (s', Inr called)"
  shows "let fin = (if st \<in> {''done'', ''failed''} \<and> (after_current_requested (tr_control r)
                        \<or> rs \<and> stop_requested (tr_control r)) then ''stopped'' else st)
    in (called \<noteq> None \<longleftrightarrow> fin \<in> terminal_task_statuses \<and> ts_on_terminal s) \<and>
       (\<forall>v n k. called = Some (v, n, k) \<longrightarrow> tv_status v = fin \<and> tv_logs v = tr_logs r
          \<and> n \<le> 3 \<and> (k \<longleftrightarrow> ok 0 \<or> ok 1 \<or> ok 2))"
proof -
  let ?fin = "if st \<in> {''done'', ''failed''} \<and> (after_current_requested (tr_control r)
    \<or> rs \<and> stop_requested (tr_control r)) then ''stopped'' else st"
  have fin: "final_status st rs (tr_control r) = ?fin"
    by (auto simp: final_status_def is_stop_after_current_requested_def is_stop_requested_def Let_def)
  have called: "called = (if ?fin \<in> terminal_task_statuses \<and> ts_on_terminal s
    then Some (record_to_dict (finish_record st a b es er rs t r), callback_retries ok 0 3) else None)"
    using assms(2) unfolding store_finish_result [OF assms(1)] Let_def fin by auto
  have three: "(\<exists>j. 0 \<le> j \<and> j < 0 + 3 \<and> ok j) \<longleftrightarrow> ok 0 \<or> ok 1 \<or> ok 2"
    by (auto simp: numeral_3_eq_3 less_Suc_eq numeral_2_eq_2)
  obtain n k where nk: "callback_retries ok 0 3 = (n, k)" by fastforce
  have "n \<le> 3 \<and> (k \<longleftrightarrow> ok 0 \<or> ok 1 \<or> ok 2)"
    using callback_retries_result [OF nk] three by simp
  then show ?thesis
    unfolding Let_def called nk by (simp add: record_to_dict_def fin)
qed

text \<open>
  The compaction at the end of \<open>finish\<close> never touches another task's log: when
  the task id was removed or reused while the lock was released the store is left
  alone; when the record is still there, it keeps the longest suffix that fits the
  limits of finished tasks.
\<close>

lemma finish_compacts_own_record:
  assumes "dict_get (ts_records s) tid = Some r"
    and "store_finish tid st a b es er rs t ok env s = (s', Inr called)"
    and "final_status st rs (tr_control r) \<in> terminal_task_statuses"
  shows "let s2 = env (update_record tid (finish_record st a b es er rs t) s)
    in case dict_get (ts_records s2) tid of
         None \<Rightarrow> s' = s2
       | Some r2 \<Rightarrow>
           if tr_ref r2 \<noteq> tr_ref r then s' = s2
           else \<forall>h. log_inv h r2 \<longrightarrow> (\<exists>r3. dict_get (ts_records s') tid = Some r3 \<and> log_inv h r3
               \<and> tr_logs r3 = fit_window (ts_finished_max_log_entries s2)
                   (ts_finished_max_log_bytes s2) (tr_logs r2))"
proof -
  have s': "s' = finish_compact tid (tr_ref r)
    (env (update_record tid (finish_record st a b es er rs t) s))"
    using assms(2,3) unfolding store_finish_result [OF assms(1)] Let_def by auto
  define s2 where "s2 = env (update_record tid (finish_record st a b es er rs t) s)"
  show ?thesis
    unfolding Let_def s' s2_def [symmetric]
  proof (cases "dict_get (ts_records s2) tid")
    case (Some r2)
    then show "case dict_get (ts_records s2) tid of
         None \<Rightarrow> finish_compact tid (tr_ref r) s2 = s2
       | Some r2 \<Rightarrow>
           if tr_ref r2 \<noteq> tr_ref r then finish_compact tid (tr_ref r) s2 = s2
           else \<forall>h. log_inv h r2 \<longrightarrow> (\<exists>r3. dict_get (ts_records (finish_compact tid (tr_ref r) s2)) tid = Some r3
               \<and> log_inv h r3 \<and> tr_logs r3 = fit_window (ts_finished_max_log_entries s2)
                   (ts_finished_max_log_bytes s2) (tr_logs r2))"
      using trim_record_logs_eq(1) [OF log_inv_retained] log_inv_trim
      by (simp add: finish_compact_def)
  qed (simp add: finish_compact_def)
qed

text \<open>
  The cleanup never loses a task that is still pending or running, removes a
  finished task only when every finished task it keeps is at least as young, and
  (above the threshold) leaves at most the configured number of finished tasks.
  This holds in every state the store reaches from its constructor.
\<close>

lemma cleanup_keeps_active_and_newest:
  assumes "s = fold store_step es (new_store mf th ae ab fe fb cb)" and "0 \<le> mf"
  shows "(\<forall>(k, r)\<in>set (ts_records s). tr_status r \<notin> terminal_task_statuses \<longrightarrow>
            (k, r) \<in> set (ts_records (store_cleanup s)))
    \<and> (\<forall>(k, r)\<in>set (ts_records s) - set (ts_records (store_cleanup s)).
         \<forall>(j, u)\<in>set (ts_records (store_cleanup s)). tr_status u \<in> terminal_task_statuses \<longrightarrow>
           tr_created_at r \<le> tr_created_at u)
    \<and> (int (length (ts_records s)) > ts_cleanup_threshold s \<longrightarrow>
         int (length (finished_tasks (store_cleanup s))) \<le> mf)"
proof -
  have ok: "store_ok s" unfolding assms(1) by (rule store_machine.run_keeps) (rule store_ok_new)
  have mf: "ts_max_finished_tasks s = mf"
    using store_limits_run [of es mf th ae ab fe fb cb] by (simp add: assms(1) store_limits_def)
  have "int (length (finished_tasks (store_cleanup s))) \<le> mf"
    if "int (length (ts_records s)) > ts_cleanup_threshold s"
    using cleanup_finished_bound [OF that] assms(2) mf by simp
  then show ?thesis
    using cleanup_keeps_active [OF ok] cleanup_removes_oldest [OF _ _ ok] by blast
qed

text \<open>
  A stop that the store accepted closes the dispatch gate of the task for good:
  whatever any thread does afterwards, short of creating a task with the same id,
  no further attempt starts. A finished task refuses the stop and is not changed.
\<close>

lemma accepted_stop_is_final:
  assumes "store_request_stop tid s = (s', Inr res) \<or> store_request_stop_after_current tid s = (s', Inr res)"
    and "\<forall>ev\<in>set es. \<not> event_creates tid ev"
    and "dict_get (ts_records s) tid = Some r0"
  shows "tr_status r0 \<notin> terminal_task_statuses
    \<and> (\<forall>r. dict_get (ts_records (fold store_step es s')) tid = Some r \<longrightarrow> snd (start_attempt (tr_control r)) = None)"
proof -
  have nt: "tr_status r0 \<notin> terminal_task_statuses"
    using assms(1,3) by (auto simp: store_request_stop_def store_request_stop_after_current_def)
  have closed: "dispatch_closed [] r" if "dict_get (ts_records s') tid = Some r" for r
    using assms(1,3) nt that
    by (cases "request_stop (tr_control r0)"; cases "request_stop_after_current (tr_control r0)")
      (auto simp: store_request_stop_def store_request_stop_after_current_def Let_def dispatch_closed_def
        should_stop_starting_new_attempts_def request_stop_def request_stop_after_current_def
        split: if_splits)
  have "snd (start_attempt (tr_control r)) = None"
    if "dict_get (ts_records (fold store_step es s')) tid = Some r" for r
  proof -
    have "dispatch_closed ([] @ appended tid es) r"
      using that assms(2) closed record_step_closed by (rule run_record)
    then show ?thesis by (simp add: dispatch_closed_def start_attempt_result)
  qed
  with nt show ?thesis by blast
qed

end
