(* ===== verification/PixCdk.thy ===== *)
theory PixCdk
  imports Contracts
begin

text \<open>
  The registry of PIX activation codes (\<open>core/pix_cdk_usage.py\<close>): a table of current
  locks, one row per fingerprint, an append-only history of paid orders, and the
  secret of the fingerprint. Every public method is one transaction: an error
  rolls back, so it returns the store it started from. The clock and the random
  secret are arguments, and so is the keyed hash.
\<close>

section \<open>Codes and rows\<close>

text \<open>\<open>re.sub(r"[^A-Z0-9]+", "", value.upper())\<close>.\<close>

definition normalize_pix_cdk :: "string \<Rightarrow> string" where
  "normalize_pix_cdk v = filter (\<lambda>c. is_upper_alpha c \<or> is_digit c) (py_upper v)"

datatype pix_state = PixReserved | PixPaid | PixUncertain | PixBlocked

record pix_row =
  pr_state :: pix_state
  pr_task :: string
  pr_account :: int
  pr_order :: string
  pr_created_at :: string
  pr_updated_at :: string
  pr_paid_at :: string

record pix_event =
  pe_id :: nat
  pe_fingerprint :: string
  pe_task :: string
  pe_account :: int
  pe_order :: string
  pe_paid_at :: string
  pe_created_at :: string

record pix_usage =
  pu_fingerprint :: string
  pu_state :: pix_state
  pu_task :: string
  pu_account :: int
  pu_order :: string
  pu_paid_at :: string

record pix_store =
  px_rows :: "(string, pix_row) dict"
  px_history :: "pix_event list"
  px_next_id :: nat
  px_secret :: "string option"

datatype pix_error =
    PixFingerprintRequired
  | PixHistoryIncomplete
  | PixLeaseChanged
  | PixLeaseChangedAtCommit

definition empty_pix_store :: pix_store where
  "empty_pix_store = \<lparr>px_rows = [], px_history = [], px_next_id = 1, px_secret = None\<rparr>"

text \<open>The queries below select no \<open>paid_at\<close>, for which \<open>_usage_from_row\<close> puts the empty text.\<close>

definition usage_from_row :: "string \<Rightarrow> pix_row \<Rightarrow> pix_usage" where
  "usage_from_row fp r =
    \<lparr>pu_fingerprint = fp, pu_state = pr_state r, pu_task = pr_task r, pu_account = pr_account r,
     pu_order = pr_order r, pu_paid_at = []\<rparr>"

definition row_matches :: "pix_state \<Rightarrow> string \<Rightarrow> int \<Rightarrow> pix_row \<Rightarrow> bool" where
  "row_matches st task account r \<longleftrightarrow> pr_state r = st \<and> pr_task r = task \<and> pr_account r = account"

section \<open>Operations\<close>

definition insert_history ::
  "string \<Rightarrow> string \<Rightarrow> int \<Rightarrow> string \<Rightarrow> string \<Rightarrow> string \<Rightarrow> pix_store \<Rightarrow> pix_store" where
  "insert_history fp task account order paid_at created s =
    s\<lparr>px_history := px_history s @ [\<lparr>pe_id = px_next_id s, pe_fingerprint = fp, pe_task = task,
        pe_account = account, pe_order = order, pe_paid_at = paid_at, pe_created_at = created\<rparr>],
      px_next_id := px_next_id s + 1\<rparr>"

text \<open>An empty list of fingerprints migrates every row.\<close>

definition legacy_paid_rows :: "string list \<Rightarrow> pix_store \<Rightarrow> (string \<times> pix_row) list" where
  "legacy_paid_rows fps s =
    (let wanted = filter (\<lambda>v. v \<noteq> []) (map py_strip fps)
     in filter (\<lambda>(fp, r). pr_state r = PixPaid \<and> (wanted = [] \<or> fp \<in> set wanted)) (px_rows s))"

definition migrate_row :: "string \<Rightarrow> string \<times> pix_row \<Rightarrow> pix_store \<Rightarrow> pix_store" where
  "migrate_row now p s =
    (case p of (fp, r) \<Rightarrow>
       insert_history fp (pr_task r) (pr_account r) (pr_order r) (or_else (pr_paid_at r) now)
         (or_else (pr_created_at r) now) s)"

definition migrate_legacy_paid :: "string list \<Rightarrow> string \<Rightarrow> pix_store \<Rightarrow> pix_store \<times> nat" where
  "migrate_legacy_paid fps now s =
    (let rows = legacy_paid_rows fps s; s1 = fold (migrate_row now) rows s
     in (s1\<lparr>px_rows := filter (\<lambda>(fp, r). \<not> (fp \<in> fst ` set rows \<and> pr_state r = PixPaid)) (px_rows s1)\<rparr>,
         length rows))"

text \<open>
  \<open>hm secret code\<close> is the hexadecimal HMAC-SHA-256 and \<open>fresh\<close> the token drawn when
  there is no secret yet.
\<close>

definition pix_fingerprint ::
  "(string \<Rightarrow> string \<Rightarrow> string) \<Rightarrow> string \<Rightarrow> string \<Rightarrow> pix_store \<Rightarrow> pix_store \<times> string" where
  "pix_fingerprint hm fresh v s =
    (let code = normalize_pix_cdk v
     in if code = [] then (s, [])
        else (let secret = (case px_secret s of None \<Rightarrow> [] | Some t \<Rightarrow> t)
              in if secret = [] then (s\<lparr>px_secret := Some fresh\<rparr>, hm fresh code)
                 else (s, hm secret code)))"

definition states_for :: "string list \<Rightarrow> string \<Rightarrow> pix_store \<Rightarrow> pix_store \<times> (string, pix_usage) dict" where
  "states_for fps now s =
    (let wanted = filter (\<lambda>v. v \<noteq> []) (map py_strip fps)
     in if wanted = [] then (s, [])
        else (let s1 = fst (migrate_legacy_paid wanted now s)
              in (s1, map (\<lambda>(fp, r). (fp, usage_from_row fp r))
                        (filter (\<lambda>(fp, _). fp \<in> set wanted) (px_rows s1)))))"

definition history_for :: "string \<Rightarrow> pix_store \<Rightarrow> pix_usage list" where
  "history_for fp s =
    (let v = py_strip fp
     in if v = [] then []
        else map (\<lambda>e. \<lparr>pu_fingerprint = pe_fingerprint e, pu_state = PixPaid, pu_task = pe_task e,
                      pu_account = pe_account e, pu_order = pe_order e, pu_paid_at = pe_paid_at e\<rparr>)
               (filter (\<lambda>e. pe_fingerprint e = v) (px_history s)))"

definition new_row :: "pix_state \<Rightarrow> string \<Rightarrow> int \<Rightarrow> string \<Rightarrow> string \<Rightarrow> pix_row" where
  "new_row st task account order now =
    \<lparr>pr_state = st, pr_task = task, pr_account = account, pr_order = order,
     pr_created_at = now, pr_updated_at = now, pr_paid_at = []\<rparr>"

definition reserve :: "string \<Rightarrow> string \<Rightarrow> int \<Rightarrow> string \<Rightarrow> pix_store \<Rightarrow> pix_store \<times> (pix_error + pix_usage)" where
  "reserve fp task account now s =
    (let v = py_strip fp
     in if v = [] then (s, Inl PixFingerprintRequired)
        else (let s1 = fst (migrate_legacy_paid [v] now s)
              in case dict_get (px_rows s1) v of
                   None \<Rightarrow> (s1\<lparr>px_rows := px_rows s1 @ [(v, new_row PixReserved task account [] now)]\<rparr>,
                            Inr \<lparr>pu_fingerprint = v, pu_state = PixReserved, pu_task = task,
                                 pu_account = account, pu_order = [], pu_paid_at = []\<rparr>)
                 | Some r \<Rightarrow> (s1, Inr (usage_from_row v r))))"

text \<open>The \<open>WHERE\<close> clause on one fingerprint, and the two ways it is used.\<close>

definition row_leased :: "string \<Rightarrow> string \<Rightarrow> int \<Rightarrow> pix_store \<Rightarrow> bool" where
  "row_leased fp task account s \<longleftrightarrow>
    (case dict_get (px_rows s) fp of None \<Rightarrow> False | Some r \<Rightarrow> row_matches PixReserved task account r)"

definition delete_row :: "string \<Rightarrow> pix_store \<Rightarrow> pix_store" where
  "delete_row fp s = s\<lparr>px_rows := dict_pop fp (px_rows s)\<rparr>"

definition write_row :: "string \<Rightarrow> (pix_row \<Rightarrow> pix_row) \<Rightarrow> pix_store \<Rightarrow> pix_store" where
  "write_row fp f s = s\<lparr>px_rows := dict_modify fp f (px_rows s)\<rparr>"

definition release :: "string \<Rightarrow> string \<Rightarrow> int \<Rightarrow> pix_store \<Rightarrow> pix_store \<times> bool" where
  "release fp task account s =
    (if row_leased fp task account s then (delete_row fp s, True) else (s, False))"

definition paid_history_exists :: "string \<Rightarrow> string \<Rightarrow> int \<Rightarrow> string \<Rightarrow> pix_store \<Rightarrow> bool" where
  "paid_history_exists fp task account order s \<longleftrightarrow>
    list_ex (\<lambda>e. pe_fingerprint e = fp \<and> pe_task e = task \<and> pe_account e = account \<and> pe_order e = order)
      (px_history s)"

definition insert_paid_history ::
  "string \<Rightarrow> string \<Rightarrow> int \<Rightarrow> string \<Rightarrow> string \<Rightarrow> pix_store \<Rightarrow> pix_store" where
  "insert_paid_history fp task account order paid_at s =
    (if paid_history_exists fp task account order s then s
     else insert_history fp task account order paid_at paid_at s)"

definition paid_usage :: "string \<Rightarrow> pix_state \<Rightarrow> string \<Rightarrow> int \<Rightarrow> string \<Rightarrow> string \<Rightarrow> pix_usage" where
  "paid_usage fp st task account order now =
    \<lparr>pu_fingerprint = fp, pu_state = st, pu_task = task, pu_account = account, pu_order = order,
     pu_paid_at = now\<rparr>"

definition record_paid_history ::
  "string \<Rightarrow> string \<Rightarrow> int \<Rightarrow> string \<Rightarrow> string \<Rightarrow> string \<Rightarrow> pix_store \<Rightarrow> pix_store \<times> (pix_error + pix_usage)" where
  "record_paid_history fp task account order paid_at clock s =
    (let now = or_else (py_strip paid_at) clock; v = py_strip fp
     in if v = [] \<or> task = [] \<or> order = [] then (s, Inl PixHistoryIncomplete)
        else (insert_paid_history v task account order now s,
              Inr (paid_usage v PixPaid task account order now)))"

definition mark_paid ::
  "string \<Rightarrow> string \<Rightarrow> int \<Rightarrow> string \<Rightarrow> bool \<Rightarrow> int option \<Rightarrow> string \<Rightarrow> pix_store \<Rightarrow>
   pix_store \<times> (pix_error + pix_usage)" where
  "mark_paid fp task account order retain_block reservation_account now s =
    (let owner = (case reservation_account of None \<Rightarrow> account | Some a \<Rightarrow> a)
     in if \<not> row_leased fp task owner s then (s, Inl PixLeaseChanged)
        else (let s1 = insert_paid_history fp task account order now s;
                  found = row_leased fp task owner s1;
                  s2 = (if retain_block
                        then write_row fp (\<lambda>r. r\<lparr>pr_state := PixBlocked, pr_order := order,
                               pr_updated_at := now, pr_paid_at := now\<rparr>) s1
                        else delete_row fp s1)
              in if \<not> found then (s, Inl PixLeaseChangedAtCommit)
                 else (s2, Inr (paid_usage fp (if retain_block then PixBlocked else PixPaid)
                                  task account order now))))"

definition mark_uncertain ::
  "string \<Rightarrow> string \<Rightarrow> int \<Rightarrow> string \<Rightarrow> string \<Rightarrow> pix_store \<Rightarrow> pix_store \<times> pix_usage" where
  "mark_uncertain fp task account order now s =
    (let s1 = (if row_leased fp task account s
               then write_row fp (\<lambda>r. r\<lparr>pr_state := PixUncertain, pr_order := order, pr_updated_at := now\<rparr>) s
               else if dict_get (px_rows s) fp = None
               then s\<lparr>px_rows := px_rows s @ [(fp, new_row PixUncertain task account order now)]\<rparr>
               else s)
     in (s1, case dict_get (px_rows s1) fp of
               None \<Rightarrow> paid_usage fp PixUncertain [] 0 [] []
             | Some r \<Rightarrow> usage_from_row fp r))"

definition mark_blocked :: "string \<Rightarrow> string \<Rightarrow> int \<Rightarrow> string \<Rightarrow> pix_store \<Rightarrow> pix_store \<times> pix_usage" where
  "mark_blocked fp task account now s =
    (let s1 = (if row_leased fp task account s
               then write_row fp (\<lambda>r. r\<lparr>pr_state := PixBlocked, pr_updated_at := now\<rparr>) s else s)
     in (s1, case dict_get (px_rows s1) fp of
               None \<Rightarrow> paid_usage fp PixBlocked [] 0 [] []
             | Some r \<Rightarrow> usage_from_row fp r))"

text \<open>
  How the worker in \<open>api/tasks.py\<close> takes a lease: it reserves and accepts the answer
  only when the row is reserved by its own task and account.
\<close>

definition take_lease :: "string \<times> int \<Rightarrow> string \<Rightarrow> string \<Rightarrow> pix_store \<Rightarrow> pix_store \<times> bool" where
  "take_lease owner now fp s =
    (case reserve fp (fst owner) (snd owner) now s of
       (s', Inl _) \<Rightarrow> (s', False)
     | (s', Inr u) \<Rightarrow> (s', pu_state u = PixReserved \<and> pu_task u = fst owner \<and> pu_account u = snd owner))"

section \<open>What the operations do to the rows\<close>

lemma migrate_row_frame [simp]:
  "px_rows (fold (migrate_row now) ps s) = px_rows s"
  "px_secret (fold (migrate_row now) ps s) = px_secret s"
  by (induction ps arbitrary: s) (auto simp: migrate_row_def insert_history_def split: prod.split)

lemma insert_history_frame [simp]:
  "px_rows (insert_history fp t a ord p c s) = px_rows s"
  by (simp add: insert_history_def)

lemma insert_paid_history_rows [simp]:
  "px_rows (insert_paid_history fp t a ord p s) = px_rows s"
  "row_leased fp' t' a' (insert_paid_history fp t a ord p s) = row_leased fp' t' a' s"
  by (simp_all add: insert_paid_history_def row_leased_def)

lemma migrate_rows:
  "px_rows (fst (migrate_legacy_paid fps now s)) =
    filter (\<lambda>(fp, r). \<not> (fp \<in> fst ` set (legacy_paid_rows fps s) \<and> pr_state r = PixPaid)) (px_rows s)"
  by (simp add: migrate_legacy_paid_def Let_def)

lemma migrate_get:
  assumes "dict_ok (px_rows s)"
  shows "dict_get (px_rows (fst (migrate_legacy_paid fps now s))) k =
    (case dict_get (px_rows s) k of None \<Rightarrow> None
     | Some r \<Rightarrow> if \<not> (k \<in> fst ` set (legacy_paid_rows fps s) \<and> pr_state r = PixPaid) then Some r else None)"
  unfolding migrate_rows by (rule dict_get_filter) (rule assms)

text \<open>Migration removes only paid rows, and every paid row of the fingerprints asked for.\<close>

lemma migrate_keeps_rows:
  assumes "dict_ok (px_rows s)" and "dict_get (px_rows s) k = Some r" and "pr_state r \<noteq> PixPaid"
  shows "dict_get (px_rows (fst (migrate_legacy_paid fps now s))) k = Some r"
  unfolding migrate_get [OF assms(1)] using assms(2,3) by simp

lemma migrate_dict_ok: "dict_ok (px_rows s) \<Longrightarrow> dict_ok (px_rows (fst (migrate_legacy_paid fps now s)))"
  unfolding migrate_rows by (rule dict_ok_filter)

lemma migrate_get_back:
  assumes "dict_ok (px_rows s)" and "dict_get (px_rows (fst (migrate_legacy_paid fps now s))) k = Some r"
  shows "dict_get (px_rows s) k = Some r"
  using assms(2) unfolding migrate_get [OF assms(1)] by (auto split: option.splits if_splits)

lemma legacy_paid_wanted:
  assumes "v \<noteq> []" and "py_strip v = v" and "(v, r) \<in> set (px_rows s)" and "pr_state r = PixPaid"
  shows "v \<in> fst ` set (legacy_paid_rows [v] s)"
proof -
  have "(v, r) \<in> set (legacy_paid_rows [v] s)"
    using assms by (simp add: legacy_paid_rows_def Let_def)
  then show ?thesis by (rule image_eqI [rotated]) simp
qed

lemma migrate_no_paid:
  assumes "dict_ok (px_rows s)" and "v \<noteq> []" and "py_strip v = v"
    and "dict_get (px_rows (fst (migrate_legacy_paid [v] now s))) v = Some r"
  shows "pr_state r \<noteq> PixPaid"
proof
  assume p: "pr_state r = PixPaid"
  have g: "dict_get (px_rows s) v = Some r" by (rule migrate_get_back [OF assms(1,4)])
  have "v \<in> fst ` set (legacy_paid_rows [v] s)"
    by (rule legacy_paid_wanted [OF assms(2,3) map_of_SomeD [OF g] p])
  with assms(4) g p show False unfolding migrate_get [OF assms(1)] by simp
qed

end
