(* ===== verification/PixCdkProofs.thy ===== *)
theory PixCdkProofs
  imports PixCdk
begin

text \<open>
  What the registry of activation codes guarantees: a lease is exclusive until its
  own task ends it, a review lock is permanent, a paid order is recorded exactly
  once and never erased, and the migration of old rows loses nothing.
\<close>

section \<open>The registry as a machine\<close>

datatype pix_call =
    PxFingerprint string string
  | PxStates "string list" string
  | PxReserve string string int string
  | PxRelease string string int
  | PxHistory string string int string string string
  | PxPaid string string int string bool "int option" string
  | PxUncertain string string int string string
  | PxBlocked string string int string

fun pix_step :: "(string \<Rightarrow> string \<Rightarrow> string) \<Rightarrow> pix_call \<Rightarrow> pix_store \<Rightarrow> pix_store" where
  "pix_step hm (PxFingerprint fresh v) s = fst (pix_fingerprint hm fresh v s)"
| "pix_step hm (PxStates fps now) s = fst (states_for fps now s)"
| "pix_step hm (PxReserve fp t a now) s = fst (reserve fp t a now s)"
| "pix_step hm (PxRelease fp t a) s = fst (release fp t a s)"
| "pix_step hm (PxHistory fp t a ord p now) s = fst (record_paid_history fp t a ord p now s)"
| "pix_step hm (PxPaid fp t a ord keep ra now) s = fst (mark_paid fp t a ord keep ra now s)"
| "pix_step hm (PxUncertain fp t a ord now) s = fst (mark_uncertain fp t a ord now s)"
| "pix_step hm (PxBlocked fp t a now) s = fst (mark_blocked fp t a now s)"

text \<open>The calls by which the holder of a lease ends it.\<close>

fun ends_lease :: "string \<Rightarrow> string \<Rightarrow> int \<Rightarrow> pix_call \<Rightarrow> bool" where
  "ends_lease k task account (PxRelease fp t a) = (fp = k \<and> t = task \<and> a = account)"
| "ends_lease k task account (PxPaid fp t a ord keep ra now) =
     (fp = k \<and> t = task \<and> (case ra of None \<Rightarrow> a | Some b \<Rightarrow> b) = account)"
| "ends_lease k task account (PxUncertain fp t a ord now) = (fp = k \<and> t = task \<and> a = account)"
| "ends_lease k task account (PxBlocked fp t a now) = (fp = k \<and> t = task \<and> a = account)"
| "ends_lease k task account _ = False"

lemma write_row_get [simp]:
  "dict_get (px_rows (write_row fp f s)) k
    = (if k = fp then map_option f (dict_get (px_rows s) k) else dict_get (px_rows s) k)"
  by (simp add: write_row_def)

lemma delete_row_get [simp]:
  "dict_get (px_rows (delete_row fp s)) k = (if k = fp then None else dict_get (px_rows s) k)"
  by (simp add: delete_row_def)

lemma rows_ok_write [simp, intro]:
  "dict_ok (px_rows s) \<Longrightarrow> dict_ok (px_rows (write_row fp f s))"
  "dict_ok (px_rows s) \<Longrightarrow> dict_ok (px_rows (delete_row fp s))"
  by (simp_all add: write_row_def delete_row_def dict_ok_pop)

lemma dict_get_append_new:
  "dict_get d v = None \<Longrightarrow> dict_get (d @ [(v, r)]) k = (if k = v then Some r else dict_get d k)"
  by (auto simp: map_add_def split: option.splits)

lemma dict_ok_append_new: "dict_ok d \<Longrightarrow> dict_get d v = None \<Longrightarrow> dict_ok (d @ [(v, r)])"
  by (auto simp: map_of_eq_None_iff)

lemma row_leased_get:
  "row_leased fp t a s \<longleftrightarrow> (\<exists>r. dict_get (px_rows s) fp = Some r \<and> row_matches PixReserved t a r)"
  by (simp add: row_leased_def split: option.split)

text \<open>The four ways a call leaves the rows.\<close>

lemma reserve_rows:
  assumes "dict_ok (px_rows s)"
  shows "dict_ok (px_rows (fst (reserve fp t a now s)))"
    and "dict_get (px_rows s) k = Some r \<Longrightarrow> pr_state r \<noteq> PixPaid \<Longrightarrow>
      dict_get (px_rows (fst (reserve fp t a now s))) k = Some r"
proof -
  let ?s = "fst (migrate_legacy_paid [py_strip fp] now s)"
  have ok: "dict_ok (px_rows ?s)" by (rule migrate_dict_ok [OF assms])
  show "dict_ok (px_rows (fst (reserve fp t a now s)))"
    using assms ok dict_ok_append_new [OF ok]
    by (simp add: reserve_def Let_def split: option.split)
  assume r: "dict_get (px_rows s) k = Some r" "pr_state r \<noteq> PixPaid"
  note keep = migrate_keeps_rows [OF assms r, of "[py_strip fp]" now]
  show "dict_get (px_rows (fst (reserve fp t a now s))) k = Some r"
  proof (cases "dict_get (px_rows ?s) (py_strip fp)")
    case None
    with r keep show ?thesis
      by (auto simp: reserve_def Let_def dict_get_append_new)
  next
    case Some
    with r keep show ?thesis by (simp add: reserve_def Let_def)
  qed
qed

lemma mark_paid_rows:
  assumes "dict_ok (px_rows s)"
  shows "dict_ok (px_rows (fst (mark_paid fp t a ord keep ra now s)))"
    and "dict_get (px_rows s) k = Some r \<Longrightarrow>
      (pr_state r = PixReserved \<Longrightarrow>
        \<not> ends_lease k (pr_task r) (pr_account r) (PxPaid fp t a ord keep ra now)) \<Longrightarrow>
      dict_get (px_rows (fst (mark_paid fp t a ord keep ra now s))) k = Some r"
proof -
  let ?s = "insert_paid_history fp t a ord now s"
  have ok: "dict_ok (px_rows ?s)" using assms by simp
  show "dict_ok (px_rows (fst (mark_paid fp t a ord keep ra now s)))"
    using assms rows_ok_write [OF ok] by (simp add: mark_paid_def Let_def)
  show "dict_get (px_rows (fst (mark_paid fp t a ord keep ra now s))) k = Some r"
    if "dict_get (px_rows s) k = Some r" and "pr_state r = PixReserved \<Longrightarrow>
        \<not> ends_lease k (pr_task r) (pr_account r) (PxPaid fp t a ord keep ra now)"
    using that by (auto simp: mark_paid_def Let_def row_leased_get row_matches_def)
qed

lemma mark_uncertain_rows:
  assumes "dict_ok (px_rows s)"
  shows "dict_ok (px_rows (fst (mark_uncertain fp t a ord now s)))"
    and "dict_get (px_rows s) k = Some r \<Longrightarrow>
      (pr_state r = PixReserved \<Longrightarrow>
        \<not> ends_lease k (pr_task r) (pr_account r) (PxUncertain fp t a ord now)) \<Longrightarrow>
      dict_get (px_rows (fst (mark_uncertain fp t a ord now s))) k = Some r"
proof -
  show "dict_ok (px_rows (fst (mark_uncertain fp t a ord now s)))"
    using assms dict_ok_append_new [OF assms] rows_ok_write(1) [OF assms]
    by (simp add: mark_uncertain_def Let_def)
  show "dict_get (px_rows (fst (mark_uncertain fp t a ord now s))) k = Some r"
    if "dict_get (px_rows s) k = Some r" and "pr_state r = PixReserved \<Longrightarrow>
        \<not> ends_lease k (pr_task r) (pr_account r) (PxUncertain fp t a ord now)"
    using that by (auto simp: mark_uncertain_def Let_def row_leased_get row_matches_def dict_get_append_new)
qed

lemma mark_blocked_rows:
  assumes "dict_ok (px_rows s)"
  shows "dict_ok (px_rows (fst (mark_blocked fp t a now s)))"
    and "dict_get (px_rows s) k = Some r \<Longrightarrow>
      (pr_state r = PixReserved \<Longrightarrow>
        \<not> ends_lease k (pr_task r) (pr_account r) (PxBlocked fp t a now)) \<Longrightarrow>
      dict_get (px_rows (fst (mark_blocked fp t a now s))) k = Some r"
proof -
  show "dict_ok (px_rows (fst (mark_blocked fp t a now s)))"
    using assms rows_ok_write(1) [OF assms] by (simp add: mark_blocked_def Let_def)
  show "dict_get (px_rows (fst (mark_blocked fp t a now s))) k = Some r"
    if "dict_get (px_rows s) k = Some r" and "pr_state r = PixReserved \<Longrightarrow>
        \<not> ends_lease k (pr_task r) (pr_account r) (PxBlocked fp t a now)"
    using that by (auto simp: mark_blocked_def Let_def row_leased_get row_matches_def)
qed

lemma release_rows:
  assumes "dict_ok (px_rows s)"
  shows "dict_ok (px_rows (fst (release fp t a s)))"
    and "dict_get (px_rows s) k = Some r \<Longrightarrow>
      (pr_state r = PixReserved \<Longrightarrow> \<not> ends_lease k (pr_task r) (pr_account r) (PxRelease fp t a)) \<Longrightarrow>
      dict_get (px_rows (fst (release fp t a s))) k = Some r"
proof -
  show "dict_ok (px_rows (fst (release fp t a s)))"
    using assms rows_ok_write(2) [OF assms] by (simp add: release_def)
  show "dict_get (px_rows (fst (release fp t a s))) k = Some r"
    if "dict_get (px_rows s) k = Some r"
      and "pr_state r = PixReserved \<Longrightarrow> \<not> ends_lease k (pr_task r) (pr_account r) (PxRelease fp t a)"
    using that by (auto simp: release_def row_leased_get row_matches_def)
qed

lemma record_paid_history_rows [simp]:
  "px_rows (fst (record_paid_history fp t a ord p now s)) = px_rows s"
  by (simp add: record_paid_history_def Let_def)

lemma fingerprint_rows [simp]: "px_rows (fst (pix_fingerprint hm fresh v s)) = px_rows s"
  by (simp add: pix_fingerprint_def Let_def)

lemma states_for_rows:
  assumes "dict_ok (px_rows s)"
  shows "dict_ok (px_rows (fst (states_for fps now s)))"
    and "dict_get (px_rows s) k = Some r \<Longrightarrow> pr_state r \<noteq> PixPaid \<Longrightarrow>
      dict_get (px_rows (fst (states_for fps now s))) k = Some r"
  using assms migrate_dict_ok [OF assms] migrate_keeps_rows [OF assms]
  by (simp_all add: states_for_def Let_def)

lemma pix_step_rows:
  assumes "dict_ok (px_rows s)"
  shows "dict_ok (px_rows (pix_step hm c s))"
  using assms reserve_rows(1) [OF assms] mark_paid_rows(1) [OF assms] mark_uncertain_rows(1) [OF assms]
    mark_blocked_rows(1) [OF assms] release_rows(1) [OF assms] states_for_rows(1) [OF assms]
  by (cases c) simp_all

lemma pix_step_keeps_row:
  assumes "dict_ok (px_rows s)" and "dict_get (px_rows s) k = Some r" and "pr_state r \<noteq> PixPaid"
    and "pr_state r = PixReserved \<Longrightarrow> \<not> ends_lease k (pr_task r) (pr_account r) c"
  shows "dict_get (px_rows (pix_step hm c s)) k = Some r"
proof (cases c)
  case (PxPaid fp t a ord keep ra now)
  with mark_paid_rows(2) [OF assms(1,2)] assms(4) show ?thesis by simp
next
  case (PxUncertain fp t a ord now)
  with mark_uncertain_rows(2) [OF assms(1,2)] assms(4) show ?thesis by simp
next
  case (PxBlocked fp t a now)
  with mark_blocked_rows(2) [OF assms(1,2)] assms(4) show ?thesis by simp
next
  case (PxRelease fp t a)
  with release_rows(2) [OF assms(1,2)] assms(4) show ?thesis by simp
qed (use reserve_rows(2) [OF assms(1-3)] states_for_rows(2) [OF assms(1-3)] assms(2) in simp_all)

interpretation pix_rows: invariant_machine "pix_step hm" "\<lambda>s. dict_ok (px_rows s)" for hm
  by unfold_locales (rule pix_step_rows)

lemma pix_run_keeps_row:
  assumes "dict_ok (px_rows s)" and "dict_get (px_rows s) k = Some r" and "pr_state r \<noteq> PixPaid"
    and "pr_state r = PixReserved \<Longrightarrow> \<forall>c\<in>set cs. \<not> ends_lease k (pr_task r) (pr_account r) c"
  shows "dict_get (px_rows (fold (pix_step hm) cs s)) k = Some r"
  using assms(1,2,4)
proof (induction cs arbitrary: s)
  case (Cons c cs)
  have "dict_get (px_rows (pix_step hm c s)) k = Some r"
    using Cons.prems(3) by (intro pix_step_keeps_row [OF Cons.prems(1,2) assms(3)]) simp
  with Cons pix_step_rows [OF Cons.prems(1)] show ?case by simp
qed simp

section \<open>Leases\<close>

definition lease_holder :: "pix_store \<Rightarrow> string \<Rightarrow> (string \<times> int) option" where
  "lease_holder s fp =
    (case dict_get (px_rows s) (py_strip fp) of
       None \<Rightarrow> None
     | Some r \<Rightarrow> if pr_state r = PixPaid then None else Some (pr_task r, pr_account r))"

lemma lease_holder_Some:
  "lease_holder s fp = Some u \<longleftrightarrow> (\<exists>r. dict_get (px_rows s) (py_strip fp) = Some r
     \<and> pr_state r \<noteq> PixPaid \<and> u = (pr_task r, pr_account r))"
  by (auto simp: lease_holder_def split: option.splits if_splits)

lemma take_lease_fst: "fst (take_lease u now fp s) = fst (reserve fp (fst u) (snd u) now s)"
  by (auto simp: take_lease_def split: prod.split sum.split)

lemma take_lease_granted:
  assumes "dict_ok (px_rows s)" and "snd (take_lease u now fp s)"
  shows "\<exists>r. dict_get (px_rows (fst (take_lease u now fp s))) (py_strip fp) = Some r
    \<and> row_matches PixReserved (fst u) (snd u) r"
proof -
  let ?v = "py_strip fp"
  let ?s = "fst (migrate_legacy_paid [?v] now s)"
  have v: "?v \<noteq> []" using assms(2) by (auto simp: take_lease_def reserve_def)
  show ?thesis
  proof (cases "dict_get (px_rows ?s) ?v")
    case None
    with v show ?thesis
      by (simp add: take_lease_def reserve_def Let_def dict_get_append_new new_row_def row_matches_def
        del: map_of_append)
  next
    case (Some r)
    with v assms(2) show ?thesis
      by (simp add: take_lease_def reserve_def Let_def usage_from_row_def row_matches_def)
  qed
qed

lemma take_lease_refused:
  assumes "dict_ok (px_rows s)" and "lease_holder s fp = Some w" and "w \<noteq> u"
  shows "\<not> snd (take_lease u now fp s)"
proof
  assume g: "snd (take_lease u now fp s)"
  from assms(2) obtain r where r: "dict_get (px_rows s) (py_strip fp) = Some r"
    "pr_state r \<noteq> PixPaid" "w = (pr_task r, pr_account r)"
    by (auto simp: lease_holder_Some)
  from take_lease_granted [OF assms(1) g] reserve_rows(2) [OF assms(1) r(1,2)] r(3) assms(3)
  show False by (cases u) (auto simp: take_lease_fst row_matches_def)
qed

interpretation pix_lease: exclusive_lease lease_holder "\<lambda>u. take_lease u now"
  "\<lambda>s. dict_ok (px_rows s)" "\<lambda>u. u" for now
proof unfold_locales
  fix s :: pix_store and u :: "string \<times> int" and k :: string
  assume ok: "dict_ok (px_rows s)"
  show "dict_ok (px_rows (fst (take_lease u now k s)))"
    using reserve_rows(1) [OF ok] by (simp add: take_lease_fst)
  show "lease_holder (fst (take_lease u now k s)) k = Some u" if "snd (take_lease u now k s)"
    using take_lease_granted [OF ok that] by (cases u) (auto simp: lease_holder_Some row_matches_def)
  show "\<not> snd (take_lease u now k s)" if "lease_holder s k = Some v" "v \<noteq> u" for v
    by (rule take_lease_refused [OF ok that])
  show "lease_holder (fst (take_lease u now k s)) j = Some v" if "lease_holder s j = Some v" for j v
    using that reserve_rows(2) [OF ok] by (auto simp: lease_holder_Some take_lease_fst)
qed

section \<open>The history\<close>

lemma migrate_history:
  "px_history (fst (migrate_legacy_paid fps now s)) = px_history (fold (migrate_row now) (legacy_paid_rows fps s) s)"
  by (simp add: migrate_legacy_paid_def Let_def)

lemma insert_history_prefix: "\<exists>l. px_history (insert_history fp t a ord p c s) = px_history s @ l"
  by (simp add: insert_history_def)

lemma migrate_rows_prefix: "\<exists>l. px_history (fold (migrate_row now) ps s) = px_history s @ l"
proof (induction ps arbitrary: s)
  case (Cons p ps)
  obtain l where "px_history (migrate_row now p s) = px_history s @ l"
    by (cases p) (auto simp: migrate_row_def insert_history_def)
  with Cons [of "migrate_row now p s"] show ?case by auto
qed simp

lemma migrate_prefix: "\<exists>l. px_history (fst (migrate_legacy_paid fps now s)) = px_history s @ l"
  unfolding migrate_history by (rule migrate_rows_prefix)

lemma write_history [simp]:
  "px_history (write_row fp f s) = px_history s" "px_history (delete_row fp s) = px_history s"
  by (simp_all add: write_row_def delete_row_def)

lemma insert_paid_prefix: "\<exists>l. px_history (insert_paid_history fp t a ord p s) = px_history s @ l"
  by (simp add: insert_paid_history_def insert_history_def)

lemma pix_step_prefix: "\<exists>l. px_history (pix_step hm c s) = px_history s @ l"
proof (cases c)
  case (PxStates fps now)
  with migrate_prefix show ?thesis by (simp add: states_for_def Let_def)
next
  case (PxReserve fp t a now)
  with migrate_prefix show ?thesis by (simp add: reserve_def Let_def split: option.split)
next
  case (PxHistory fp t a ord p now)
  with insert_paid_prefix show ?thesis by (simp add: record_paid_history_def Let_def)
next
  case (PxPaid fp t a ord keep ra now)
  with insert_paid_prefix show ?thesis by (simp add: mark_paid_def Let_def)
qed (simp_all add: pix_fingerprint_def Let_def release_def mark_uncertain_def mark_blocked_def)

definition event_key :: "pix_event \<Rightarrow> string \<times> string \<times> int \<times> string" where
  "event_key e = (pe_fingerprint e, pe_task e, pe_account e, pe_order e)"

text \<open>
  The states that this code reaches: no row is paid (only older versions wrote such
  rows) and no order is recorded twice.
\<close>

definition pix_ok :: "pix_store \<Rightarrow> bool" where
  "pix_ok s \<longleftrightarrow> dict_ok (px_rows s) \<and> dict_all (\<lambda>_ r. pr_state r \<noteq> PixPaid) (px_rows s)
     \<and> distinct (map event_key (px_history s))"

lemma legacy_none: "pix_ok s \<Longrightarrow> legacy_paid_rows fps s = []"
  by (auto simp: pix_ok_def dict_all_def legacy_paid_rows_def Let_def filter_empty_conv)

lemma migrate_noop: "pix_ok s \<Longrightarrow> migrate_legacy_paid fps now s = (s, 0)"
  by (simp add: migrate_legacy_paid_def Let_def legacy_none split_def)

lemma paid_history_exists_key:
  "paid_history_exists fp t a ord s \<longleftrightarrow> (fp, t, a, ord) \<in> set (map event_key (px_history s))"
  by (auto simp: paid_history_exists_def list_ex_iff event_key_def)

lemma pix_ok_insert_paid: "pix_ok s \<Longrightarrow> pix_ok (insert_paid_history fp t a ord p s)"
  unfolding insert_paid_history_def paid_history_exists_key
  by (simp add: pix_ok_def insert_history_def event_key_def)

lemma pix_ok_write:
  "pix_ok s \<Longrightarrow> (\<And>r. pr_state (f r) \<noteq> PixPaid) \<Longrightarrow> pix_ok (write_row fp f s)"
  "pix_ok s \<Longrightarrow> pix_ok (delete_row fp s)"
  by (auto simp: pix_ok_def write_row_def delete_row_def intro: dict_all_modify dict_all_pop dict_ok_pop)

lemma pix_ok_append:
  "pix_ok s \<Longrightarrow> dict_get (px_rows s) v = None \<Longrightarrow> st \<noteq> PixPaid \<Longrightarrow>
    pix_ok (s\<lparr>px_rows := px_rows s @ [(v, new_row st t a ord now)]\<rparr>)"
  by (auto simp: pix_ok_def dict_all_def new_row_def map_of_eq_None_iff)

lemma pix_step_ok: "pix_ok s \<Longrightarrow> pix_ok (pix_step hm c s)"
proof (cases c)
  case (PxReserve fp t a now)
  assume "pix_ok s"
  with PxReserve show ?thesis
    by (simp add: reserve_def Let_def migrate_noop pix_ok_append split: option.split)
next
  case (PxPaid fp t a ord keep ra now)
  assume ok: "pix_ok s"
  then have "pix_ok (insert_paid_history fp t a ord now s)" by (rule pix_ok_insert_paid)
  with ok PxPaid show ?thesis by (simp add: mark_paid_def Let_def pix_ok_write)
next
  case (PxFingerprint fresh v)
  assume "pix_ok s"
  with PxFingerprint show ?thesis by (simp add: pix_fingerprint_def Let_def pix_ok_def)
qed (simp_all add: states_for_def Let_def migrate_noop record_paid_history_def pix_ok_insert_paid
  release_def pix_ok_write mark_uncertain_def pix_ok_append mark_blocked_def)

interpretation pix: invariant_machine "pix_step hm" pix_ok for hm
  by unfold_locales (rule pix_step_ok)

lemma pix_ok_empty: "pix_ok empty_pix_store"
  by (simp add: pix_ok_def empty_pix_store_def)

lemma pix_run_prefix: "\<exists>l. px_history (fold (pix_step hm) cs s) = px_history s @ l"
proof (induction cs arbitrary: s)
  case (Cons c cs)
  obtain l where "px_history (pix_step hm c s) = px_history s @ l" using pix_step_prefix by blast
  with Cons [of "pix_step hm c s"] show ?case by auto
qed simp

lemma insert_paid_exists: "paid_history_exists fp t a ord (insert_paid_history fp t a ord p s)"
  by (simp add: insert_paid_history_def paid_history_exists_def insert_history_def)

lemma exists_write [simp]:
  "paid_history_exists fp t a ord (write_row k f s) = paid_history_exists fp t a ord s"
  "paid_history_exists fp t a ord (delete_row k s) = paid_history_exists fp t a ord s"
  by (simp_all add: paid_history_exists_def)

lemma distinct_key_count:
  assumes "distinct (map f xs)" and "k \<in> set (map f xs)"
  shows "length (filter (\<lambda>x. f x = k) xs) = 1"
  using assms
proof (induction xs)
  case (Cons x xs)
  then show ?case
  proof (cases "f x = k")
    case True
    with Cons.prems(1) have "filter (\<lambda>x. f x = k) xs = []" by (auto simp: filter_empty_conv image_iff)
    with True show ?thesis by simp
  qed auto
qed simp

lemma migrate_row_history:
  "px_history (fold (migrate_row now) ps s) = px_history s @ map (\<lambda>(i, fp, r).
     \<lparr>pe_id = i, pe_fingerprint = fp, pe_task = pr_task r, pe_account = pr_account r,
      pe_order = pr_order r, pe_paid_at = or_else (pr_paid_at r) now,
      pe_created_at = or_else (pr_created_at r) now\<rparr>) (zip [px_next_id s..<px_next_id s + length ps] ps)"
proof (induction ps arbitrary: s)
  case (Cons p ps)
  obtain fp r where p: "p = (fp, r)" by (cases p)
  have "[px_next_id s..<px_next_id s + length (p # ps)]
    = px_next_id s # [Suc (px_next_id s)..<Suc (px_next_id s) + length ps]"
    using upt_conv_Cons [of "px_next_id s" "px_next_id s + length (p # ps)"] by (simp del: upt_Suc)
  then show ?case
    by (simp only: fold_simps Cons) (simp add: p migrate_row_def insert_history_def del: upt_Suc)
qed simp

lemma migrate_partition:
  "length (px_rows (fst (migrate_legacy_paid fps now s))) + length (legacy_paid_rows fps s)
    = length (px_rows s)"
proof -
  let ?Q = "\<lambda>(fp, r). pr_state r = PixPaid \<and> (filter (\<lambda>v. v \<noteq> []) (map py_strip fps) = []
    \<or> fp \<in> set (filter (\<lambda>v. v \<noteq> []) (map py_strip fps)))"
  have q: "legacy_paid_rows fps s = filter ?Q (px_rows s)"
    by (simp add: legacy_paid_rows_def Let_def)
  have "px_rows (fst (migrate_legacy_paid fps now s)) = filter (\<lambda>p. \<not> ?Q p) (px_rows s)"
    unfolding migrate_rows q by (intro filter_cong refl) (force split: prod.splits)
  then show ?thesis using sum_length_filter_compl [of ?Q "px_rows s"] by (simp only: q)
qed

section \<open>Properties\<close>

text \<open>
  C11. A lease on an activation code is exclusive: from the moment a task took it
  until that task itself ends it (by a release, a payment, or a review lock), the
  row stays reserved for the task, every other task is refused, and the task itself
  may ask again, whatever calls any process makes in between.
\<close>

theorem lease_exclusive_until_ended:
  assumes "dict_ok (px_rows s)" and "snd (take_lease u now fp s)" and "w \<noteq> u"
    and "\<forall>c\<in>set cs. \<not> ends_lease (py_strip fp) (fst u) (snd u) c"
  shows "let s' = fold (pix_step hm) cs (fst (take_lease u now fp s))
    in row_leased (py_strip fp) (fst u) (snd u) s' \<and> \<not> snd (take_lease w now' fp s')
       \<and> snd (take_lease u now' fp s')"
proof -
  let ?start = "fst (take_lease u now fp s)"
  let ?s = "fold (pix_step hm) cs ?start"
  have ok0: "dict_ok (px_rows ?start)"
    by (rule pix_lease.claim_ok [OF assms(1)])
  have ok: "dict_ok (px_rows ?s)" by (rule pix_rows.run_keeps [OF ok0])
  obtain r where r: "dict_get (px_rows ?start) (py_strip fp) = Some r" "row_matches PixReserved (fst u) (snd u) r"
    using take_lease_granted [OF assms(1,2)] by blast
  have g: "dict_get (px_rows ?s) (py_strip fp) = Some r"
    by (rule pix_run_keeps_row [OF ok0 r(1)]) (use r(2) assms(4) in \<open>auto simp: row_matches_def\<close>)
  have h: "lease_holder ?s fp = Some u"
    using g r(2) by (cases u) (auto simp: lease_holder_Some row_matches_def)
  have v: "py_strip fp \<noteq> []" using assms(2) by (auto simp: take_lease_def reserve_def)
  have "dict_get (px_rows (fst (migrate_legacy_paid [py_strip fp] now' ?s))) (py_strip fp) = Some r"
    by (rule migrate_keeps_rows [OF ok g]) (use r(2) in \<open>simp add: row_matches_def\<close>)
  then have "snd (take_lease u now' fp ?s)"
    using v r(2) by (simp add: take_lease_def reserve_def Let_def usage_from_row_def row_matches_def)
  with g r(2) pix_lease.held_refused [OF ok h assms(3) [symmetric]] show ?thesis
    by (auto simp: Let_def row_leased_get)
qed

theorem lease_exclusive_until_ended_witness:
  "let s' = fold (pix_step (\<lambda>_ c. c)) [PxReserve ''k'' ''t2'' 2 [], PxRelease ''k'' ''t2'' 2]
       (fst (take_lease (''t1'', 1) [] ''k'' empty_pix_store))
    in row_leased (py_strip ''k'') (fst (''t1'', 1 :: int)) (snd (''t1'', 1 :: int)) s'
       \<and> \<not> snd (take_lease (''t2'', 2) [] ''k'' s') \<and> snd (take_lease (''t1'', 1) [] ''k'' s')"
proof -
  have k: "py_strip ''k'' = ''k''" by (simp add: py_strip_id py_space_def)
  then have g: "snd (take_lease (''t1'', 1) [] ''k'' empty_pix_store)"
    by (simp add: take_lease_def reserve_def Let_def migrate_noop [OF pix_ok_empty])
      (simp add: empty_pix_store_def)
  have o: "dict_ok (px_rows empty_pix_store)" by (simp add: empty_pix_store_def)
  show ?thesis
    by (rule lease_exclusive_until_ended [OF o g]) simp_all
qed

text \<open>
  A review lock is permanent: once a code is uncertain or blocked, no sequence of
  calls changes its row, so nobody gets the code again and nobody can report it
  as paid.
\<close>

lemma review_lock_permanent:
  assumes "dict_ok (px_rows s)" and "dict_get (px_rows s) (py_strip fp) = Some r"
    and "pr_state r \<in> {PixUncertain, PixBlocked}"
  shows "let s' = fold (pix_step hm) cs s
    in dict_get (px_rows s') (py_strip fp) = Some r \<and> \<not> snd (take_lease u now fp s')
       \<and> mark_paid (py_strip fp) t a ord keep ra now s' = (s', Inl PixLeaseChanged)"
proof -
  let ?s = "fold (pix_step hm) cs s"
  have st: "pr_state r \<noteq> PixPaid" "pr_state r \<noteq> PixReserved" using assms(3) by auto
  have ok: "dict_ok (px_rows ?s)" by (rule pix_rows.run_keeps) (rule assms(1))
  have g: "dict_get (px_rows ?s) (py_strip fp) = Some r"
    by (rule pix_run_keeps_row [OF assms(1,2) st(1)]) (use st(2) in auto)
  have k: "dict_get (px_rows (fst (take_lease u now fp ?s))) (py_strip fp) = Some r"
    unfolding take_lease_fst by (rule reserve_rows(2) [OF ok g st(1)])
  have "\<not> snd (take_lease u now fp ?s)"
    using take_lease_granted [OF ok, of u now fp] k st(2) by (auto simp: row_matches_def)
  then show ?thesis using g st(2) by (simp add: Let_def mark_paid_def row_leased_get row_matches_def)
qed

text \<open>
  C32. A paid order is recorded exactly once and for ever: in the history of a
  registry that only this code wrote, an order that was reported as paid occurs
  exactly once whatever calls follow (repeated reports included), and no entry
  that was there before is lost.
\<close>

theorem paid_order_recorded_once:
  assumes "s = fold (pix_step hm) cs empty_pix_store"
    and "mark_paid fp t a ord keep ra now s = (s', Inr u) \<and> v = fp
      \<or> record_paid_history fp t a ord p now s = (s', Inr u) \<and> v = py_strip fp"
  shows "let h = px_history (fold (pix_step hm) cs' s')
    in length (filter (\<lambda>e. event_key e = (v, t, a, ord)) h) = 1
       \<and> take (length (px_history s)) h = px_history s"
proof -
  have ok: "pix_ok s" unfolding assms(1) by (rule pix.run_keeps) (rule pix_ok_empty)
  obtain c where s': "s' = pix_step hm c s"
    using assms(2) pix_step.simps(5,6) by (metis fst_conv)
  have ok': "pix_ok (fold (pix_step hm) cs' s')"
    unfolding s' by (rule pix.run_keeps) (rule pix_step_ok [OF ok])
  have "paid_history_exists v t a ord s'"
    using assms(2) insert_paid_exists
    by (auto simp: mark_paid_def record_paid_history_def Let_def split: if_splits)
  moreover obtain l where l: "px_history (fold (pix_step hm) cs' s') = px_history s' @ l"
    using pix_run_prefix by blast
  moreover obtain l' where "px_history s' = px_history s @ l'" using pix_step_prefix s' by blast
  ultimately have "(v, t, a, ord) \<in> set (map event_key (px_history (fold (pix_step hm) cs' s')))"
    and "take (length (px_history s)) (px_history (fold (pix_step hm) cs' s')) = px_history s"
    by (auto simp: paid_history_exists_key)
  with distinct_key_count [of event_key] ok' show ?thesis by (simp add: Let_def pix_ok_def)
qed

theorem paid_order_recorded_once_witness:
  "let s = fold (pix_step (\<lambda>_ c. c)) [] empty_pix_store;
       h = px_history (fold (pix_step (\<lambda>_ c. c)) [PxHistory ''k'' ''t'' 1 ''o'' [] ''later'']
             (fst (record_paid_history ''k'' ''t'' 1 ''o'' [] ''now'' s)))
    in length (filter (\<lambda>e. event_key e = (py_strip ''k'', ''t'', 1, ''o'')) h) = 1
       \<and> take (length (px_history s)) h = px_history s"
proof -
  have k: "py_strip ''k'' = ''k''" by (simp add: py_strip_id py_space_def)
  obtain s' u where r: "record_paid_history ''k'' ''t'' 1 ''o'' [] ''now''
      (fold (pix_step (\<lambda>_ c. c)) [] empty_pix_store) = (s', Inr u)"
    by (simp add: record_paid_history_def k Let_def)
  from paid_order_recorded_once [OF refl disjI2 [OF conjI [OF r refl]]] show ?thesis
    unfolding Let_def r fst_conv .
qed

text \<open>
  What a payment does to the lease: a report by anybody but the holder is refused
  and changes nothing; a report by the holder frees the code for the next task, or
  blocks it for ever when the code is good for one success only.
\<close>

lemma payment_frees_or_blocks:
  assumes "dict_ok (px_rows s)" and "fp \<noteq> []" and "py_strip fp = fp"
  shows "(\<not> row_leased fp t (case ra of None \<Rightarrow> a | Some b \<Rightarrow> b) s \<longrightarrow>
            mark_paid fp t a ord keep ra now s = (s, Inl PixLeaseChanged))
    \<and> (row_leased fp t (case ra of None \<Rightarrow> a | Some b \<Rightarrow> b) s \<longrightarrow>
         (\<exists>s' u. mark_paid fp t a ord keep ra now s = (s', Inr u)
            \<and> paid_history_exists fp t a ord s' \<and> snd (take_lease w now' fp s') = (\<not> keep)))"
proof (intro conjI impI)
  show "mark_paid fp t a ord keep ra now s = (s, Inl PixLeaseChanged)"
    if "\<not> row_leased fp t (case ra of None \<Rightarrow> a | Some b \<Rightarrow> b) s"
    using that by (simp add: mark_paid_def Let_def)
  assume l: "row_leased fp t (case ra of None \<Rightarrow> a | Some b \<Rightarrow> b) s"
  then obtain r where r: "dict_get (px_rows s) fp = Some r" by (auto simp: row_leased_get)
  let ?s1 = "insert_paid_history fp t a ord now s"
  let ?s' = "if keep then write_row fp (\<lambda>r. r\<lparr>pr_state := PixBlocked, pr_order := ord,
      pr_updated_at := now, pr_paid_at := now\<rparr>) ?s1 else delete_row fp ?s1"
  have m: "mark_paid fp t a ord keep ra now s = (?s',
      Inr (paid_usage fp (if keep then PixBlocked else PixPaid) t a ord now))"
    using l by (simp add: mark_paid_def Let_def)
  have ok: "dict_ok (px_rows ?s')" using assms(1) rows_ok_write [of ?s1] by simp
  have "snd (take_lease w now' fp ?s') = (\<not> keep)"
  proof (cases keep)
    case True
    have "dict_get (px_rows ?s') fp = Some (r\<lparr>pr_state := PixBlocked, pr_order := ord,
      pr_updated_at := now, pr_paid_at := now\<rparr>)" using r True by simp
    from migrate_keeps_rows [OF ok this, of "[fp]" now'] True assms(2,3) show ?thesis
      by (simp add: take_lease_def reserve_def Let_def usage_from_row_def)
  next
    case False
    then have "dict_get (px_rows ?s') fp = None" by simp
    then have "dict_get (px_rows (fst (migrate_legacy_paid [fp] now' ?s'))) fp = None"
      unfolding migrate_get [OF ok] by simp
    with False assms(2,3) show ?thesis by (simp add: take_lease_def reserve_def Let_def)
  qed
  moreover have "paid_history_exists fp t a ord ?s'" using insert_paid_exists by simp
  ultimately show "\<exists>s' u. mark_paid fp t a ord keep ra now s = (s', Inr u)
      \<and> paid_history_exists fp t a ord s' \<and> snd (take_lease w now' fp s') = (\<not> keep)"
    using m by blast
qed

text \<open>
  The migration of old paid rows loses nothing: every row of the table is
  afterwards still in the table or, when it was paid, in the history with its task,
  account, order and payment time, and the number of records is the same.
\<close>

lemma migration_loses_nothing:
  "let (s', n) = migrate_legacy_paid fps now s
   in (\<forall>(fp, r)\<in>set (px_rows s). (fp, r) \<in> set (px_rows s')
        \<or> (pr_state r = PixPaid \<and> (\<exists>e\<in>set (px_history s'). event_key e = (fp, pr_task r, pr_account r, pr_order r)
             \<and> pe_paid_at e = or_else (pr_paid_at r) now)))
      \<and> length (px_rows s') + length (px_history s') = length (px_rows s) + length (px_history s)
      \<and> length (px_rows s') + n = length (px_rows s)"
proof -
  obtain s' n where m: "migrate_legacy_paid fps now s = (s', n)" by fastforce
  then have s': "s' = fst (migrate_legacy_paid fps now s)" and n: "n = length (legacy_paid_rows fps s)"
    by (auto simp: migrate_legacy_paid_def Let_def)
  let ?ps = "legacy_paid_rows fps s"
  let ?ids = "[px_next_id s..<px_next_id s + length ?ps]"
  have hist: "px_history s' = px_history s @ map (\<lambda>(i, fp, r).
     \<lparr>pe_id = i, pe_fingerprint = fp, pe_task = pr_task r, pe_account = pr_account r,
      pe_order = pr_order r, pe_paid_at = or_else (pr_paid_at r) now,
      pe_created_at = or_else (pr_created_at r) now\<rparr>) (zip ?ids ?ps)"
    unfolding s' migrate_history by (rule migrate_row_history)
  have moved: "\<exists>e\<in>set (px_history s'). event_key e = (fp, pr_task r, pr_account r, pr_order r)
      \<and> pe_paid_at e = or_else (pr_paid_at r) now" if "(fp, r) \<in> set ?ps" for fp r
  proof -
    from that obtain i where "i < length ?ps" "?ps ! i = (fp, r)" by (auto simp: in_set_conv_nth)
    then have "(px_next_id s + i, fp, r) \<in> set (zip ?ids ?ps)"
      by (auto simp: set_zip intro!: exI [of _ i])
    then show ?thesis unfolding hist by (force simp: event_key_def)
  qed
  have "(fp, r) \<in> set (px_rows s') \<or> (pr_state r = PixPaid \<and> (fp, r) \<in> set ?ps)"
    if "(fp, r) \<in> set (px_rows s)" for fp r
    using that unfolding s' migrate_rows by (auto simp: legacy_paid_rows_def Let_def)
  with moved have "\<forall>(fp, r)\<in>set (px_rows s). (fp, r) \<in> set (px_rows s')
        \<or> (pr_state r = PixPaid \<and> (\<exists>e\<in>set (px_history s'). event_key e = (fp, pr_task r, pr_account r, pr_order r)
             \<and> pe_paid_at e = or_else (pr_paid_at r) now))" by blast
  moreover have "length (px_history s') = length (px_history s) + n" by (simp add: hist n)
  moreover have "length (px_rows s') + n = length (px_rows s)"
    unfolding s' n by (rule migrate_partition)
  ultimately show ?thesis unfolding m by simp
qed

end
