(* ===== verification/Rows.thy ===== *)
theory Rows
  imports Contracts "HOL-Library.Multiset"
begin

text \<open>
  What the components that work on database tables share: \<open>ORDER BY\<close> as a stable
  sort by a comparison, the binary order of texts, pyval-to-integer conversion, and
  ISO 8601 texts of instants (microseconds since 1970 in UTC).
\<close>

section \<open>ORDER BY\<close>

fun insort_by :: "('a \<Rightarrow> 'a \<Rightarrow> bool) \<Rightarrow> 'a \<Rightarrow> 'a list \<Rightarrow> 'a list" where
  "insort_by le x [] = [x]"
| "insort_by le x (y # ys) = (if le x y then x # y # ys else y # insort_by le x ys)"

definition sort_by :: "('a \<Rightarrow> 'a \<Rightarrow> bool) \<Rightarrow> 'a list \<Rightarrow> 'a list" where
  "sort_by le xs = foldr (insort_by le) xs []"

lemma sort_by_simps [simp]: "sort_by le [] = []" "sort_by le (x # xs) = insort_by le x (sort_by le xs)"
  by (simp_all add: sort_by_def)

lemma mset_insort_by [simp]: "mset (insort_by le x ys) = add_mset x (mset ys)"
  by (induction ys) auto

lemma mset_sort_by [simp]: "mset (sort_by le xs) = mset xs"
  by (induction xs) auto

lemma set_sort_by [simp]: "set (sort_by le xs) = set xs"
  using mset_sort_by by (metis set_mset_mset)

lemma length_sort_by [simp]: "length (sort_by le xs) = length xs"
  using mset_sort_by by (metis size_mset)

lemma distinct_sort_by [simp]: "distinct (sort_by le xs) = distinct xs"
  using mset_eq_imp_distinct_iff [OF mset_sort_by] .

lemma sorted_insort_by:
  assumes tot: "\<And>a b. le a b \<or> le b a" and tr: "\<And>a b c. le a b \<Longrightarrow> le b c \<Longrightarrow> le a c"
    and s: "sorted_wrt le ys"
  shows "sorted_wrt le (insort_by le x ys)"
  using s
proof (induction ys)
  case (Cons y ys)
  show ?case
  proof (cases "le x y")
    case True
    with Cons.prems tr show ?thesis by auto
  next
    case False
    then have "le y x" using tot by blast
    moreover have "set (insort_by le x ys) = insert x (set ys)" by (induction ys) auto
    ultimately show ?thesis using False Cons by auto
  qed
qed simp

lemma sorted_sort_by:
  assumes "\<And>a b. le a b \<or> le b a" and "\<And>a b c. le a b \<Longrightarrow> le b c \<Longrightarrow> le a c"
  shows "sorted_wrt le (sort_by le xs)"
proof (induction xs)
  case (Cons x xs)
  have "sorted_wrt le (insort_by le x (sort_by le xs))"
    by (rule sorted_insort_by [OF assms Cons])
  then show ?case by simp
qed simp

text \<open>The first row of an ordered query is a least one.\<close>

lemma sort_by_hd_least:
  assumes "\<And>a b. le a b \<or> le b a" and "\<And>a b c. le a b \<Longrightarrow> le b c \<Longrightarrow> le a c"
    and "sort_by le xs = x # ys"
  shows "x \<in> set xs \<and> (\<forall>y\<in>set xs. le x y)"
proof -
  have "sorted_wrt le (x # ys)" using sorted_sort_by [of le xs] assms by metis
  moreover have "set xs = set (x # ys)" using set_sort_by [of le xs] assms(3) by metis
  ultimately show ?thesis using assms(1) [of x x] by auto
qed

lemma set_insort_by [simp]: "set (insort_by le x ys) = insert x (set ys)"
  by (induction ys) auto

lemma filter_insort_by:
  assumes tr: "\<And>a b c. le a b \<Longrightarrow> le b c \<Longrightarrow> le a c" and s: "sorted_wrt le ys"
  shows "filter P (insort_by le x ys) = (if P x then insort_by le x (filter P ys) else filter P ys)"
  using s
proof (induction ys)
  case (Cons y ys)
  show ?case
  proof (cases "le x y")
    case True
    have "insort_by le x zs = x # zs" if "set zs \<subseteq> set (y # ys)" for zs
    proof (cases zs)
      case (Cons z zs')
      with that have "z = y \<or> le y z" using Cons.prems by auto
      with True tr have "le x z" by blast
      with Cons show ?thesis by simp
    qed simp
    moreover have "set (filter P (y # ys)) \<subseteq> set (y # ys)" by auto
    ultimately show ?thesis using True by simp
  next
    case False
    with Cons show ?thesis by auto
  qed
qed simp

lemma filter_sort_by:
  assumes "\<And>a b. le a b \<or> le b a" and "\<And>a b c. le a b \<Longrightarrow> le b c \<Longrightarrow> le a c"
  shows "filter P (sort_by le xs) = sort_by le (filter P xs)"
proof (induction xs)
  case (Cons x xs)
  have "sorted_wrt le (sort_by le xs)" by (rule sorted_sort_by [OF assms])
  from filter_insort_by [of le, OF assms(2) this] Cons show ?case by simp
qed simp

lemma sort_by_cong:
  assumes "\<And>x y. x \<in> set xs \<Longrightarrow> y \<in> set xs \<Longrightarrow> le x y = le' x y"
  shows "sort_by le xs = sort_by le' xs"
  using assms
proof (induction xs)
  case (Cons x xs)
  have "insort_by le x ys = insort_by le' x ys" if "set ys \<subseteq> set xs" for ys
    using that Cons.prems by (induction ys) auto
  with Cons show ?case by (metis list.set_intros(2) order_refl set_sort_by sort_by_simps(2))
qed simp

section \<open>The binary order of texts\<close>

fun text_le :: "string \<Rightarrow> string \<Rightarrow> bool" where
  "text_le [] t = True"
| "text_le (c # s) [] = False"
| "text_le (c # s) (d # t) = (let m = (of_char c :: nat); n = of_char d
     in m < n \<or> (m = n \<and> text_le s t))"

lemma text_le_refl [simp]: "text_le s s"
  by (induction s) auto

lemma text_le_total: "text_le s t \<or> text_le t s"
  by (induction s t rule: text_le.induct) (auto simp: Let_def)

lemma text_le_trans: "text_le s t \<Longrightarrow> text_le t u \<Longrightarrow> text_le s u"
proof (induction s t arbitrary: u rule: text_le.induct)
  case (3 c s d t)
  then show ?case by (cases u) (auto simp: Let_def)
qed auto

lemma text_le_antisym: "text_le s t \<Longrightarrow> text_le t s \<Longrightarrow> s = t"
proof (induction s t rule: text_le.induct)
  case (1 t)
  then show ?case by (cases t) auto
qed (auto simp: Let_def)

section \<open>\<open>int(value)\<close> on a dynamic value\<close>

text \<open>\<open>None\<close> is the \<open>TypeError\<close> or \<open>ValueError\<close>.\<close>

fun py_int :: "pyval \<Rightarrow> int option" where
  "py_int (PBool b) = Some (if b then 1 else 0)"
| "py_int (PInt i) = Some i"
| "py_int (PFloat q) = Some (py_trunc q)"
| "py_int (PStr s) = parse_int s"
| "py_int _ = None"

text \<open>\<open>int(value or 0)\<close>.\<close>

definition int_or_zero :: "pyval \<Rightarrow> int option" where
  "int_or_zero v = (if truthy v then py_int v else Some 0)"

section \<open>ISO 8601\<close>

definition pad :: "nat \<Rightarrow> int \<Rightarrow> string" where
  "pad k i = (let s = show_int i in replicate (k - length s) (CHR ''0'') @ s)"

text \<open>Year, month and day of a day number in the proleptic Gregorian calendar.\<close>

definition civil_of_days :: "int \<Rightarrow> int \<times> int \<times> int" where
  "civil_of_days n =
    (let z = n + 719468; era = z div 146097; doe = z mod 146097;
         yoe = (doe - doe div 1460 + doe div 36524 - doe div 146096) div 365;
         doy = doe - (365 * yoe + yoe div 4 - yoe div 100);
         mp = (5 * doy + 2) div 153;
         d = doy - (153 * mp + 2) div 5 + 1;
         m = (if mp < 10 then mp + 3 else mp - 9);
         y = yoe + era * 400
     in (if m \<le> 2 then y + 1 else y, m, d))"

definition iso_seconds :: "int \<Rightarrow> string" where
  "iso_seconds us =
    (let secs = us div 1000000; days = secs div 86400; r = secs mod 86400
     in case civil_of_days days of (y, m, d) \<Rightarrow>
          pad 4 y @ ''-'' @ pad 2 m @ ''-'' @ pad 2 d @ ''T'' @ pad 2 (r div 3600) @ '':''
          @ pad 2 (r div 60 mod 60) @ '':'' @ pad 2 (r mod 60))"

text \<open>\<open>isoformat(timespec="microseconds")\<close> of a naive UTC datetime.\<close>

definition iso_micro :: "int \<Rightarrow> string" where
  "iso_micro us = iso_seconds us @ ''.'' @ pad 6 (us mod 1000000)"

text \<open>The day number of a leap day and the first instant after it.\<close>

lemma civil_of_days_values:
  "civil_of_days 0 = (1970, 1, 1)" "civil_of_days 11016 = (2000, 2, 29)"
  "civil_of_days 11017 = (2000, 3, 1)" "civil_of_days 20454 = (2026, 1, 1)"
  by code_simp+

lemma iso_micro_epoch: "iso_micro 1 = ''1970-01-01T00:00:00.000001''"
  by code_simp

end
