(* ===== verification/FixedGroups.thy ===== *)
theory FixedGroups
  imports Rows
begin

text \<open>
  Fixed account groups (\<open>services/account_fixed_groups.py\<close>): the tables of groups,
  of members (one row per account, the primary key) and of accounts, and the
  operations on them inside one session. The subscription status of an account is
  an argument (\<open>services/account_filters.py\<close> computes it). A member row remembers
  the e-mail address and the creation time of its account, so that an account
  that reuses the number of a deleted one is not taken for it.
\<close>

section \<open>Tables\<close>

text \<open>A creation time is an instant (microseconds, UTC) or whatever text an import left.\<close>

datatype created_at = CreatedAt int | CreatedText string

record fx_account =
  fa_id :: int
  fa_platform :: string
  fa_email :: string
  fa_created_at :: created_at

record fx_group =
  fg_id :: string
  fg_parent :: string
  fg_name :: string
  fg_description :: string
  fg_pinned :: bool
  fg_revision :: int
  fg_created_at :: string
  fg_updated_at :: string

record fx_member =
  fm_group :: string
  fm_email :: string
  fm_created_at :: string
  fm_assigned_at :: string

record fx_db =
  fx_groups :: "(string, fx_group) dict"
  fx_members :: "(int, fx_member) dict"
  fx_accounts :: "fx_account list"

datatype fx_error =
    NoValidAccountIds
  | AccountsGone
  | GroupConflict "(int \<times> string \<times> string) list"

record replace_result =
  rr_account_ids :: "int list"
  rr_discarded :: "int list"
  rr_added :: "int list"
  rr_moved :: "int list"
  rr_removed :: "int list"
  rr_rebound :: "int list"

section \<open>Identities and identifiers\<close>

definition utc_iso :: "int \<Rightarrow> string" where
  "utc_iso us = iso_seconds us @ ''Z''"

fun created_at_identity :: "created_at \<Rightarrow> string" where
  "created_at_identity (CreatedAt us) = iso_micro us"
| "created_at_identity (CreatedText s) = py_strip s"

definition account_email_identity :: "fx_account \<Rightarrow> string" where
  "account_email_identity a = py_lower (py_strip (fa_email a))"

fun normalize_ids_loop :: "int \<Rightarrow> pyval list \<Rightarrow> int list \<Rightarrow> int list" where
  "normalize_ids_loop limit [] result = result"
| "normalize_ids_loop limit (raw # rest) result =
     (case raw of
        PBool _ \<Rightarrow> normalize_ids_loop limit rest result
      | _ \<Rightarrow>
         (case int_or_zero raw of
            None \<Rightarrow> normalize_ids_loop limit rest result
          | Some i \<Rightarrow>
              if i \<le> 0 \<or> i \<in> set result then normalize_ids_loop limit rest result
              else if int (length (result @ [i])) \<ge> limit then result @ [i]
              else normalize_ids_loop limit rest (result @ [i])))"

definition normalize_account_ids :: "int \<Rightarrow> pyval list \<Rightarrow> int list" where
  "normalize_account_ids limit values = normalize_ids_loop limit values []"

section \<open>Groups\<close>

definition get_fixed_group :: "string \<Rightarrow> fx_db \<Rightarrow> fx_group option" where
  "get_fixed_group gid db =
    (if py_strip gid = [] then None else dict_get (fx_groups db) (py_strip gid))"

text \<open>Pinned groups first, then the last updated, then the first created.\<close>

definition group_le :: "fx_group \<Rightarrow> fx_group \<Rightarrow> bool" where
  "group_le g h \<longleftrightarrow>
    (if fg_pinned g \<noteq> fg_pinned h then fg_pinned g
     else if fg_updated_at g \<noteq> fg_updated_at h then text_le (fg_updated_at h) (fg_updated_at g)
     else text_le (fg_created_at g) (fg_created_at h))"

definition list_fixed_groups :: "string \<Rightarrow> fx_db \<Rightarrow> fx_group list" where
  "list_fixed_groups parent db =
    (let p = py_strip parent
     in sort_by group_le (filter (\<lambda>g. p = [] \<or> fg_parent g = p) (map snd (fx_groups db))))"

definition fixed_group_name_exists :: "string \<Rightarrow> string \<Rightarrow> string \<Rightarrow> fx_db \<Rightarrow> bool" where
  "fixed_group_name_exists parent name ignore db =
    list_ex (\<lambda>(gid, g). fg_parent g = py_strip parent \<and> py_lower (fg_name g) = py_lower (py_strip name)
        \<and> \<not> (py_strip ignore \<noteq> [] \<and> gid = py_strip ignore)) (fx_groups db)"

text \<open>A second group under the same id violates the primary key: \<open>None\<close>.\<close>

definition create_fixed_group ::
  "string \<Rightarrow> string \<Rightarrow> string \<Rightarrow> string \<Rightarrow> bool \<Rightarrow> int \<Rightarrow> fx_db \<Rightarrow> (fx_db \<times> fx_group) option" where
  "create_fixed_group gid parent name description pinned us db =
    (let g = \<lparr>fg_id = py_strip gid, fg_parent = py_strip parent, fg_name = py_strip name,
              fg_description = py_strip description, fg_pinned = pinned, fg_revision = 1,
              fg_created_at = utc_iso us, fg_updated_at = utc_iso us\<rparr>
     in case dict_get (fx_groups db) (fg_id g) of
          Some _ \<Rightarrow> None
        | None \<Rightarrow> Some (db\<lparr>fx_groups := fx_groups db @ [(fg_id g, g)]\<rparr>, g))"

definition update_fixed_group_meta ::
  "string \<Rightarrow> string \<Rightarrow> string \<Rightarrow> bool \<Rightarrow> int \<Rightarrow> fx_db \<Rightarrow> fx_db" where
  "update_fixed_group_meta gid name description pinned us db =
    db\<lparr>fx_groups := dict_modify gid (\<lambda>g. g\<lparr>fg_name := py_strip name, fg_description := py_strip description,
        fg_pinned := pinned, fg_updated_at := utc_iso us\<rparr>) (fx_groups db)\<rparr>"

section \<open>Members\<close>

definition chatgpt_account :: "fx_db \<Rightarrow> int \<Rightarrow> fx_account option" where
  "chatgpt_account db i =
    (if i \<le> 0 then None
     else find (\<lambda>a. fa_platform a = ''chatgpt'' \<and> fa_id a = i) (fx_accounts db))"

definition conflicting_ids :: "string \<Rightarrow> int list \<Rightarrow> fx_db \<Rightarrow> int list" where
  "conflicting_ids gid ids db =
    filter (\<lambda>i. case dict_get (fx_members db) i of None \<Rightarrow> False | Some m \<Rightarrow> fm_group m \<noteq> gid) ids"

definition conflict_report :: "int list \<Rightarrow> fx_db \<Rightarrow> (int \<times> string \<times> string) list" where
  "conflict_report ids db =
    map (\<lambda>i. case dict_get (fx_members db) i of
               None \<Rightarrow> (i, [], [])
             | Some m \<Rightarrow> (i, fm_group m, case dict_get (fx_groups db) (fm_group m) of
                                         None \<Rightarrow> [] | Some g \<Rightarrow> fg_name g)) ids"

definition removed_ids :: "string \<Rightarrow> int list \<Rightarrow> fx_db \<Rightarrow> int list" where
  "removed_ids gid ids db =
    map fst (filter (\<lambda>(i, m). fm_group m = gid \<and> i \<notin> set ids) (fx_members db))"

definition identity_changed :: "fx_account \<Rightarrow> fx_member \<Rightarrow> bool" where
  "identity_changed a m \<longleftrightarrow>
    py_lower (py_strip (fm_email m)) \<noteq> account_email_identity a
    \<or> py_strip (fm_created_at m) \<noteq> created_at_identity (fa_created_at a)"

definition bind_member :: "string \<Rightarrow> string \<Rightarrow> fx_account \<Rightarrow> fx_member" where
  "bind_member gid now a =
    \<lparr>fm_group = gid, fm_email = account_email_identity a,
     fm_created_at = created_at_identity (fa_created_at a), fm_assigned_at = now\<rparr>"

text \<open>
  One round of the loop over the accounts: the member row it leaves, and whether the
  account is added, moved or rebound. \<open>existing\<close> is the row read before the loop.
\<close>

definition assign_member ::
  "string \<Rightarrow> string \<Rightarrow> fx_account \<Rightarrow> fx_member option \<Rightarrow> fx_member \<times> bool \<times> bool \<times> bool" where
  "assign_member gid now a existing =
    (case existing of
       None \<Rightarrow> (bind_member gid now a, True, False, False)
     | Some m \<Rightarrow>
        (let moved = fm_group m \<noteq> gid; changed = identity_changed a m
         in (if moved \<or> changed then bind_member gid now a else m, False, moved, changed)))"

fun assign_loop ::
  "string \<Rightarrow> string \<Rightarrow> int list \<Rightarrow> (int, fx_member) dict \<Rightarrow> fx_db \<Rightarrow>
   int list \<Rightarrow> int list \<Rightarrow> int list \<Rightarrow> fx_db \<times> int list \<times> int list \<times> int list" where
  "assign_loop gid now [] existing db added moved rebound = (db, added, moved, rebound)"
| "assign_loop gid now (i # rest) existing db added moved rebound =
     (case chatgpt_account db i of
        None \<Rightarrow> assign_loop gid now rest existing db added moved rebound
      | Some a \<Rightarrow>
         (case assign_member gid now a (dict_get existing i) of
            (m, is_added, is_moved, is_rebound) \<Rightarrow>
              assign_loop gid now rest existing (db\<lparr>fx_members := dict_set i m (fx_members db)\<rparr>)
                (if is_added then added @ [i] else added) (if is_moved then moved @ [i] else moved)
                (if is_rebound then rebound @ [i] else rebound)))"

definition replace_fixed_group_members ::
  "fx_group \<Rightarrow> pyval list \<Rightarrow> bool \<Rightarrow> int \<Rightarrow> int \<Rightarrow> fx_db \<Rightarrow> fx_db \<times> (fx_error + replace_result)" where
  "replace_fixed_group_members grp raw_ids move_conflicts max_members us db =
    (let requested = normalize_account_ids max_members raw_ids; gid = fg_id grp in
     if requested = [] then (db, Inl NoValidAccountIds)
     else (let resolved = filter (\<lambda>i. chatgpt_account db i \<noteq> None) requested;
               discarded = filter (\<lambda>i. chatgpt_account db i = None) requested in
     if resolved = [] then (db, Inl AccountsGone)
     else (let conflicts = conflicting_ids gid resolved db in
     if conflicts \<noteq> [] \<and> \<not> move_conflicts then (db, Inl (GroupConflict (conflict_report conflicts db)))
     else (let removed = removed_ids gid resolved db;
               db1 = db\<lparr>fx_members := fold dict_pop removed (fx_members db)\<rparr>;
               now = utc_iso us;
               (db2, added, moved, rebound) = assign_loop gid now resolved (fx_members db) db1 [] [] [];
               db3 = (if added \<noteq> [] \<or> moved \<noteq> [] \<or> removed \<noteq> [] \<or> rebound \<noteq> []
                      then db2\<lparr>fx_groups := dict_modify gid (\<lambda>g. g\<lparr>fg_revision :=
                               max 1 (if fg_revision g = 0 then 1 else fg_revision g) + 1,
                               fg_updated_at := now\<rparr>) (fx_groups db2)\<rparr>
                      else db2)
           in (db3, Inr \<lparr>rr_account_ids = resolved, rr_discarded = discarded, rr_added = added,
                          rr_moved = moved, rr_removed = removed, rr_rebound = rebound\<rparr>)))))"

section \<open>Reading a group\<close>

definition member_is_current :: "fx_account \<Rightarrow> fx_member \<Rightarrow> bool" where
  "member_is_current a m \<longleftrightarrow> \<not> identity_changed a m"

definition member_le :: "int \<times> fx_member \<times> fx_account \<Rightarrow> int \<times> fx_member \<times> fx_account \<Rightarrow> bool" where
  "member_le x y \<longleftrightarrow>
    (let s = fm_assigned_at (fst (snd x)); t = fm_assigned_at (fst (snd y))
     in if s \<noteq> t then text_le s t else fst x \<le> fst y)"

text \<open>The join of members and accounts, ordered, without rows of a replaced account.\<close>

definition member_join :: "fx_db \<Rightarrow> (int \<times> fx_member \<times> fx_account) list" where
  "member_join db =
    concat (map (\<lambda>(i, m). map (\<lambda>a. (i, m, a))
        (filter (\<lambda>a. fa_id a = i \<and> fa_platform a = ''chatgpt'') (fx_accounts db))) (fx_members db))"

definition fixed_group_members :: "string \<Rightarrow> fx_db \<Rightarrow> (fx_member \<times> fx_account) list" where
  "fixed_group_members gid db =
    map snd (filter (\<lambda>(i, m, a). member_is_current a m)
      (sort_by member_le (filter (\<lambda>(i, m, a). fm_group m = py_strip gid) (member_join db))))"

definition fixed_group_member_ids :: "string \<Rightarrow> fx_db \<Rightarrow> int list" where
  "fixed_group_member_ids gid db = map (fa_id \<circ> snd) (fixed_group_members gid db)"

datatype sub_status = SubFree | SubPlus | SubUnconfirmable | SubPendingRefresh

record group_view =
  gv_group :: fx_group
  gv_account_ids :: "int list"
  gv_account_count :: int
  gv_free :: int
  gv_plus :: int
  gv_unconfirmable :: int
  gv_pending_refresh :: int
  gv_unknown :: int
  gv_revision :: int

definition count_status :: "(fx_account \<Rightarrow> sub_status) \<Rightarrow> sub_status \<Rightarrow> fx_account list \<Rightarrow> int" where
  "count_status status st accounts = int (length (filter (\<lambda>a. status a = st) accounts))"

definition serialize_payload ::
  "(fx_account \<Rightarrow> sub_status) \<Rightarrow> fx_group \<Rightarrow> fx_account list \<Rightarrow> bool \<Rightarrow> group_view" where
  "serialize_payload status g accounts include_ids =
    \<lparr>gv_group = g, gv_account_ids = (if include_ids then map fa_id accounts else []),
     gv_account_count = int (length accounts),
     gv_free = count_status status SubFree accounts, gv_plus = count_status status SubPlus accounts,
     gv_unconfirmable = count_status status SubUnconfirmable accounts,
     gv_pending_refresh = count_status status SubPendingRefresh accounts,
     gv_unknown = count_status status SubUnconfirmable accounts + count_status status SubPendingRefresh accounts,
     gv_revision = (if fg_revision g = 0 then 1 else fg_revision g)\<rparr>"

definition serialize_fixed_group ::
  "(fx_account \<Rightarrow> sub_status) \<Rightarrow> bool \<Rightarrow> fx_db \<Rightarrow> fx_group \<Rightarrow> group_view" where
  "serialize_fixed_group status include_ids db g =
    serialize_payload status g (map snd (fixed_group_members (fg_id g) db)) include_ids"

text \<open>The batch version reads all members in one query, ordered by group first.\<close>

definition batch_le :: "int \<times> fx_member \<times> fx_account \<Rightarrow> int \<times> fx_member \<times> fx_account \<Rightarrow> bool" where
  "batch_le x y \<longleftrightarrow>
    (let g = fm_group (fst (snd x)); h = fm_group (fst (snd y))
     in if g \<noteq> h then text_le g h else member_le x y)"

definition batch_members :: "fx_group list \<Rightarrow> fx_db \<Rightarrow> (int \<times> fx_member \<times> fx_account) list" where
  "batch_members groups db =
    (let gids = filter (\<lambda>g. g \<noteq> []) (map (py_strip \<circ> fg_id) groups)
     in if gids = [] then []
        else filter (\<lambda>(i, m, a). member_is_current a m)
               (sort_by batch_le (filter (\<lambda>(i, m, a). fm_group m \<in> set gids) (member_join db))))"

definition serialize_fixed_groups ::
  "(fx_account \<Rightarrow> sub_status) \<Rightarrow> bool \<Rightarrow> fx_db \<Rightarrow> fx_group list \<Rightarrow> group_view list" where
  "serialize_fixed_groups status include_ids db groups =
    (let rows = batch_members groups db
     in map (\<lambda>g. serialize_payload status g
               (map (snd \<circ> snd) (filter (\<lambda>(i, m, a). py_strip (fm_group m) = py_strip (fg_id g)) rows))
               include_ids) groups)"

definition delete_fixed_group :: "string \<Rightarrow> fx_db \<Rightarrow> fx_db \<times> int list" where
  "delete_fixed_group gid db =
    (let rows = filter (\<lambda>(_, m). fm_group m = gid) (fx_members db)
     in (db\<lparr>fx_members := filter (\<lambda>(_, m). fm_group m \<noteq> gid) (fx_members db),
            fx_groups := dict_pop gid (fx_groups db)\<rparr>, map fst rows))"

end
