(* ===== verification/FixedGroupsProofs.thy ===== *)
theory FixedGroupsProofs
  imports FixedGroups
begin

text \<open>
  What fixed groups guarantee: after a replacement the members of a group are exactly
  the accounts asked for and no other group has lost an unrelated account, a
  repeated replacement changes nothing, and the batch view of many groups equals
  the view of each.
\<close>

section \<open>Identifiers\<close>

definition good_ids :: "int \<Rightarrow> int list \<Rightarrow> bool" where
  "good_ids limit ids \<longleftrightarrow> distinct ids \<and> (\<forall>i\<in>set ids. 0 < i) \<and> (int (length ids) \<le> limit \<or> length ids \<le> 1)"

lemma normalize_loop_good:
  assumes "distinct result" and "\<forall>i\<in>set result. 0 < i" and "result = [] \<or> int (length result) < limit"
  shows "good_ids limit (normalize_ids_loop limit raws result)"
  using assms
proof (induction raws arbitrary: result)
  case Nil
  then show ?case by (auto simp: good_ids_def)
next
  case (Cons raw raws)
  define v where "v = (case raw of PBool _ \<Rightarrow> None | _ \<Rightarrow> int_or_zero raw)"
  have step: "normalize_ids_loop limit (raw # raws) result =
    (case v of None \<Rightarrow> normalize_ids_loop limit raws result
     | Some i \<Rightarrow> if i \<le> 0 \<or> i \<in> set result then normalize_ids_loop limit raws result
              else if int (length (result @ [i])) \<ge> limit then result @ [i]
              else normalize_ids_loop limit raws (result @ [i]))"
    unfolding v_def by (cases raw) (simp_all split: option.split)
  show ?case
  proof (cases v)
    case None
    with step Cons show ?thesis by simp
  next
    case (Some i)
    consider "i \<le> 0 \<or> i \<in> set result"
      | "0 < i" "i \<notin> set result" "int (length (result @ [i])) \<ge> limit"
      | "0 < i" "i \<notin> set result" "int (length (result @ [i])) < limit" by linarith
    then show ?thesis
    proof cases
      case 1
      with step Some Cons show ?thesis by simp
    next
      case 2
      with Cons.prems have "good_ids limit (result @ [i])" by (auto simp: good_ids_def)
      with step Some 2 show ?thesis by simp
    next
      case 3
      with step Some Cons.IH [of "result @ [i]"] Cons.prems show ?thesis by simp
    qed
  qed
qed

lemma normalize_account_ids_good: "good_ids limit (normalize_account_ids limit raws)"
  unfolding normalize_account_ids_def by (rule normalize_loop_good) auto

lemma normalize_loop_ints:
  assumes "distinct (result @ ids)" and "\<forall>i\<in>set ids. 0 < i" and "ids = [] \<or> int (length (result @ ids)) \<le> max 1 limit"
  shows "normalize_ids_loop limit (map PInt ids) result = result @ ids"
  using assms
proof (induction ids arbitrary: result)
  case (Cons i ids)
  have i: "int_or_zero (PInt i) = Some i" using Cons.prems by (simp add: int_or_zero_def)
  show ?case
  proof (cases "int (length (result @ [i])) \<ge> limit")
    case True
    with Cons.prems have "ids = []" by (cases ids) auto
    with True i Cons.prems show ?thesis by simp
  next
    case False
    with Cons i show ?thesis by simp
  qed
qed simp

lemma normalize_ids_again:
  assumes "good_ids limit ids"
  shows "normalize_account_ids limit (map PInt ids) = ids"
  using assms normalize_loop_ints [of "[]" ids limit]
  by (cases ids) (auto simp: normalize_account_ids_def good_ids_def)

text \<open>
  What a request asks for, without the loop: the positive numbers that can be read from
  it, each at its first place, and of these as many as are allowed.
\<close>

definition readable_id :: "pyval \<Rightarrow> int option" where
  "readable_id raw = (case raw of PBool b \<Rightarrow> None | _ \<Rightarrow> int_or_zero raw)"

definition readable_ids :: "pyval list \<Rightarrow> int list" where
  "readable_ids raws = filter (\<lambda>i. 0 < i) (List.map_filter readable_id raws)"

definition first_places :: "'a list \<Rightarrow> 'a list" where
  "first_places xs = rev (remdups (rev xs))"

definition requested_ids :: "int \<Rightarrow> pyval list \<Rightarrow> int list" where
  "requested_ids limit raws = take (nat (max 1 limit)) (first_places (readable_ids raws))"

lemma remdups_snoc: "remdups (xs @ [x]) = filter (\<lambda>y. y \<noteq> x) (remdups xs) @ [x]"
  by (induction xs) auto

lemma first_places_simps [simp]:
  "first_places [] = []" "first_places (x # xs) = x # filter (\<lambda>y. y \<noteq> x) (first_places xs)"
  by (simp_all add: first_places_def remdups_snoc rev_filter)

lemma readable_ids_simps [simp]:
  "readable_ids [] = []"
  "readable_ids (raw # raws) =
    (case readable_id raw of Some i \<Rightarrow> if 0 < i then i # readable_ids raws else readable_ids raws
     | None \<Rightarrow> readable_ids raws)"
  by (simp_all add: readable_ids_def List.map_filter_simps split: option.split)

lemma normalize_loop_requested:
  "int (length result) < max 1 limit \<Longrightarrow>
    normalize_ids_loop limit raws result =
      result @ take (nat (max 1 limit) - length result) (filter (\<lambda>i. i \<notin> set result) (first_places (readable_ids raws)))"
proof (induction raws arbitrary: result)
  case (Cons raw raws)
  have step: "normalize_ids_loop limit (raw # raws) result =
    (case readable_id raw of None \<Rightarrow> normalize_ids_loop limit raws result
     | Some i \<Rightarrow> if i \<le> 0 \<or> i \<in> set result then normalize_ids_loop limit raws result
              else if int (length (result @ [i])) \<ge> limit then result @ [i]
              else normalize_ids_loop limit raws (result @ [i]))"
    by (cases raw) (simp_all add: readable_id_def split: option.split)
  show ?case
  proof (cases "readable_id raw")
    case None
    then show ?thesis using step Cons by simp
  next
    case (Some i)
    have skip: "filter (\<lambda>j. j \<notin> set result) (filter (\<lambda>j. j \<noteq> i) xs) = filter (\<lambda>j. j \<notin> set (result @ [i])) xs" for xs
      by (simp add: conj_commute)
    show ?thesis
    proof (cases "i \<le> 0 \<or> i \<in> set result")
      case True
      have "i \<in> set result \<Longrightarrow> filter (\<lambda>j. j \<notin> set result) (filter (\<lambda>j. j \<noteq> i) xs) = filter (\<lambda>j. j \<notin> set result) xs" for xs
        by (auto intro: filter_cong)
      then show ?thesis using True step Some Cons by auto
    next
      case False
      have n: "nat (max 1 limit) - length result = Suc (nat (max 1 limit) - length (result @ [i]))"
        using Cons.prems by simp
      show ?thesis
      proof (cases "int (length (result @ [i])) \<ge> limit")
        case True
        then have "nat (max 1 limit) - length (result @ [i]) = 0" using Cons.prems by auto
        then show ?thesis using True False step Some by (simp add: n del: length_append)
      next
        case F: False
        then have "nat limit - length result = Suc (nat limit - length (result @ [i]))" by simp
        with F show ?thesis using False step Some Cons.IH [of "result @ [i]"] Cons.prems
          by (simp add: skip [symmetric] del: length_append)
      qed
    qed
  qed
qed simp

lemma normalize_requested: "normalize_account_ids limit raws = requested_ids limit raws"
  using normalize_loop_requested [of "[]" limit raws] by (simp add: normalize_account_ids_def requested_ids_def)

lemma good_ids_filter: "good_ids limit ids \<Longrightarrow> good_ids limit (filter P ids)"
proof -
  define n where "n = length (filter P ids)"
  have "n \<le> length ids" unfolding n_def by (rule length_filter_le)
  moreover assume "good_ids limit ids"
  ultimately show ?thesis unfolding good_ids_def n_def [symmetric] by auto
qed

section \<open>Identities\<close>

lemma py_space_lower [simp]: "py_space (lower_char c) = py_space c"
proof (cases "65 \<le> (of_char c :: nat) \<and> of_char c \<le> (90 :: nat)")
  case True
  then have "(of_char (lower_char c) :: nat) = of_char c + 32"
    by (simp add: lower_char_def Let_def of_char_of)
  with True show ?thesis by (simp add: py_space_def Let_def)
next
  case False
  then show ?thesis by (auto simp: lower_char_def Let_def)
qed

lemma dropWhile_lower: "dropWhile py_space (map lower_char s) = map lower_char (dropWhile py_space s)"
  by (induction s) auto

lemma py_strip_lower: "py_strip (py_lower s) = py_lower (py_strip s)"
  by (simp add: py_strip_def lstrip_def rstrip_def py_lower_def dropWhile_lower rev_map)

lemma strip_no_space: "\<forall>c\<in>set s. \<not> py_space c \<Longrightarrow> py_strip s = s"
  by (rule py_strip_id) (use hd_in_set last_in_set in blast)

lemma punct_no_space [simp]:
  "\<not> py_space (CHR ''-'')" "\<not> py_space (CHR ''T'')" "\<not> py_space (CHR '':'')" "\<not> py_space (CHR ''.'')"
  "\<not> py_space (CHR ''0'')"
  by (simp_all add: py_space_def)

lemma show_int_no_space: "c \<in> set (show_int i) \<Longrightarrow> \<not> py_space c"
  by (auto simp: show_int_def split: if_splits dest: show_nat_no_space)

lemma pad_no_space: "c \<in> set (pad k i) \<Longrightarrow> \<not> py_space c"
  by (auto simp: pad_def Let_def dest: show_int_no_space)

lemma iso_micro_strip: "py_strip (iso_micro us) = iso_micro us"
  by (rule strip_no_space)
    (auto simp: iso_micro_def iso_seconds_def Let_def pad_no_space split: prod.split)

lemma identity_strip [simp]: "py_strip (created_at_identity c) = created_at_identity c"
  by (cases c) (simp_all add: iso_micro_strip)

lemma bound_member_current [simp]: "\<not> identity_changed a (bind_member gid now a)"
  by (simp add: identity_changed_def bind_member_def account_email_identity_def py_strip_lower)

section \<open>The loop over the accounts\<close>

lemma chatgpt_account_frame [simp]:
  "chatgpt_account (db\<lparr>fx_members := x\<rparr>) = chatgpt_account db"
  "chatgpt_account (db\<lparr>fx_groups := y\<rparr>) = chatgpt_account db"
  by (simp_all add: chatgpt_account_def fun_eq_iff)

definition new_member :: "string \<Rightarrow> string \<Rightarrow> (int, fx_member) dict \<Rightarrow> fx_db \<Rightarrow> int \<Rightarrow> fx_member" where
  "new_member gid now existing db i =
    fst (assign_member gid now (the (chatgpt_account db i)) (dict_get existing i))"

definition is_moved :: "string \<Rightarrow> (int, fx_member) dict \<Rightarrow> int \<Rightarrow> bool" where
  "is_moved gid existing i \<longleftrightarrow> (case dict_get existing i of None \<Rightarrow> False | Some m \<Rightarrow> fm_group m \<noteq> gid)"

definition is_rebound :: "(int, fx_member) dict \<Rightarrow> fx_db \<Rightarrow> int \<Rightarrow> bool" where
  "is_rebound existing db i \<longleftrightarrow>
    (case dict_get existing i of None \<Rightarrow> False | Some m \<Rightarrow> identity_changed (the (chatgpt_account db i)) m)"

lemma new_member_frame [simp]:
  "new_member gid now existing (db\<lparr>fx_members := u\<rparr>) = new_member gid now existing db"
  "is_rebound existing (db\<lparr>fx_members := u\<rparr>) = is_rebound existing db"
  by (auto simp: new_member_def is_rebound_def fun_eq_iff split: option.split)

lemma assign_loop_result:
  assumes "\<forall>i\<in>set ids. chatgpt_account db i \<noteq> None"
  shows "assign_loop gid now ids existing db added moved rebound =
    (db\<lparr>fx_members := fold (\<lambda>i. dict_set i (new_member gid now existing db i)) ids (fx_members db)\<rparr>,
     added @ filter (\<lambda>i. dict_get existing i = None) ids, moved @ filter (is_moved gid existing) ids,
     rebound @ filter (is_rebound existing db) ids)"
  using assms
proof (induction ids arbitrary: db added moved rebound)
  case (Cons i ids)
  obtain a where a: "chatgpt_account db i = Some a" using Cons.prems by auto
  obtain m x y z where m: "assign_member gid now a (dict_get existing i) = (m, x, y, z)"
    by (cases "assign_member gid now a (dict_get existing i)") auto
  have flags: "x = (dict_get existing i = None)" "y = is_moved gid existing i" "z = is_rebound existing db i"
    "m = new_member gid now existing db i"
    using m a by (auto simp: assign_member_def is_moved_def is_rebound_def new_member_def Let_def
        split: option.splits)
  show ?case using Cons.prems
    by (simp add: a m Cons.IH flags)
qed simp

lemma new_member_group [simp]: "fm_group (new_member gid now existing db i) = gid"
  by (auto simp: new_member_def assign_member_def bind_member_def Let_def split: option.split)

lemma new_member_current:
  "\<not> identity_changed (the (chatgpt_account db i)) (new_member gid now existing db i)"
  by (auto simp: new_member_def assign_member_def Let_def split: option.split)

text \<open>The successful replacement in one equation.\<close>

definition replaced_members ::
  "string \<Rightarrow> string \<Rightarrow> int list \<Rightarrow> fx_db \<Rightarrow> (int, fx_member) dict" where
  "replaced_members gid now ids db =
    fold (\<lambda>i. dict_set i (new_member gid now (fx_members db) db i)) ids
      (fold dict_pop (removed_ids gid ids db) (fx_members db))"

lemma get_replaced_members:
  "dict_get (replaced_members gid now ids db) i =
    (if i \<in> set ids then Some (new_member gid now (fx_members db) db i)
     else if i \<in> set (removed_ids gid ids db) then None else dict_get (fx_members db) i)"
  unfolding replaced_members_def
  by (simp add: dict.look_puts dict.look_puts_other dict.look_dels)

lemma replace_success:
  assumes "replace_fixed_group_members g raws mv limit us db = (db', Inr res)"
  defines "ids \<equiv> rr_account_ids res"
  shows "ids = filter (\<lambda>i. chatgpt_account db i \<noteq> None) (normalize_account_ids limit raws)"
    and "ids \<noteq> []" and "good_ids limit ids" and "\<forall>i\<in>set ids. chatgpt_account db i \<noteq> None"
    and "fx_members db' = replaced_members (fg_id g) (utc_iso us) ids db"
    and "fx_accounts db' = fx_accounts db"
    and "conflicting_ids (fg_id g) ids db = [] \<or> mv"
    and "rr_removed res = removed_ids (fg_id g) ids db"
    and "rr_added res = filter (\<lambda>i. dict_get (fx_members db) i = None) ids"
    and "rr_moved res = filter (is_moved (fg_id g) (fx_members db)) ids"
    and "rr_rebound res = filter (is_rebound (fx_members db) db) ids"
    and "rr_added res = [] \<and> rr_moved res = [] \<and> rr_removed res = [] \<and> rr_rebound res = [] \<longrightarrow>
          fx_groups db' = fx_groups db"
proof -
  let ?gid = "fg_id g"
  let ?ids = "filter (\<lambda>i. chatgpt_account db i \<noteq> None) (normalize_account_ids limit raws)"
  let ?db1 = "db\<lparr>fx_members := fold dict_pop (removed_ids ?gid ?ids db) (fx_members db)\<rparr>"
  have ex: "\<forall>i\<in>set ?ids. chatgpt_account ?db1 i \<noteq> None" by simp
  note loop = assign_loop_result [OF ex, of ?gid "utc_iso us" "fx_members db" "[]" "[]" "[]"]
  have ne: "\<not> normalize_account_ids limit raws = []" "\<not> ?ids = []"
    "\<not> (conflicting_ids ?gid ?ids db \<noteq> [] \<and> \<not> mv)"
    using assms(1) by (auto simp: replace_fixed_group_members_def Let_def split: if_splits)
  note r = assms(1) [unfolded replace_fixed_group_members_def Let_def loop new_member_frame prod.case
      if_not_P [OF ne(1)] if_not_P [OF ne(2)] if_not_P [OF ne(3)]]
  have i: "ids = ?ids" using r unfolding ids_def by (auto split: if_splits)
  show "ids = ?ids" by (rule i)
  show "ids \<noteq> []" "\<forall>i\<in>set ids. chatgpt_account db i \<noteq> None"
    "conflicting_ids ?gid ids db = [] \<or> mv"
    using ne unfolding i by auto
  show "good_ids limit ids"
    unfolding i by (rule good_ids_filter) (rule normalize_account_ids_good)
  show "fx_members db' = replaced_members (fg_id g) (utc_iso us) ids db"
    "fx_accounts db' = fx_accounts db"
    "rr_removed res = removed_ids (fg_id g) ids db"
    "rr_added res = filter (\<lambda>i. dict_get (fx_members db) i = None) ids"
    "rr_moved res = filter (is_moved (fg_id g) (fx_members db)) ids"
    "rr_rebound res = filter (is_rebound (fx_members db) db) ids"
    "rr_added res = [] \<and> rr_moved res = [] \<and> rr_removed res = [] \<and> rr_rebound res = [] \<longrightarrow>
          fx_groups db' = fx_groups db"
    using r unfolding i replaced_members_def by auto
qed

lemma replace_discarded:
  assumes "replace_fixed_group_members g raws mv limit us db = (db', Inr res)"
  shows "rr_discarded res = filter (\<lambda>i. chatgpt_account db i = None) (normalize_account_ids limit raws)"
  using assms by (auto simp: replace_fixed_group_members_def Let_def split: if_splits prod.splits)

lemma in_removed_ids:
  assumes "dict_ok (fx_members db)"
  shows "i \<in> set (removed_ids gid ids db) \<longleftrightarrow>
    (\<exists>m. dict_get (fx_members db) i = Some m \<and> fm_group m = gid) \<and> i \<notin> set ids"
  by (auto simp: removed_ids_def dict_ok_in_set [OF assms] image_iff)

lemma dict_set_same: "dict_get d k = Some v \<Longrightarrow> dict_set k v d = d"
  by (induction d) (auto split: if_splits)

lemma fold_dict_set_same:
  "\<forall>i\<in>set ids. dict_get d i = Some (f i) \<Longrightarrow> fold (\<lambda>i. dict_set i (f i)) ids d = d"
  by (induction ids) (simp_all add: dict_set_same)

lemma dict_ok_replaced: "dict_ok (fx_members db) \<Longrightarrow> dict_ok (replaced_members gid now ids db)"
proof -
  assume "dict_ok (fx_members db)"
  moreover have "dict_ok d \<Longrightarrow> dict_ok (fold dict_pop ks d)" for d :: "(int, fx_member) dict" and ks
    by (induction ks arbitrary: d) (simp_all add: dict_ok_pop)
  moreover have "dict_ok d \<Longrightarrow> dict_ok (fold (\<lambda>i. dict_set i (f i)) ks d)"
    for d :: "(int, fx_member) dict" and ks f
    by (induction ks arbitrary: d) (simp_all add: dict_ok_set)
  ultimately show ?thesis by (simp add: replaced_members_def)
qed

lemma chatgpt_account_same: "fx_accounts db' = fx_accounts db \<Longrightarrow> chatgpt_account db' = chatgpt_account db"
  by (simp add: chatgpt_account_def fun_eq_iff)

lemma member_le_total: "member_le x y \<or> member_le y x"
  using text_le_total by (auto simp: member_le_def Let_def)

lemma member_le_trans: "member_le x y \<Longrightarrow> member_le y z \<Longrightarrow> member_le x z"
  using text_le_trans text_le_antisym by (auto simp: member_le_def Let_def split: if_splits)

lemma batch_le_total: "batch_le x y \<or> batch_le y x"
  using text_le_total member_le_total by (auto simp: batch_le_def Let_def)

lemma batch_le_trans: "batch_le x y \<Longrightarrow> batch_le y z \<Longrightarrow> batch_le x z"
  using text_le_trans text_le_antisym member_le_trans
  by (auto simp: batch_le_def Let_def split: if_splits)

lemma member_join_member: "(i, m, a) \<in> set (member_join db) \<Longrightarrow> (i, m) \<in> set (fx_members db)"
  by (auto simp: member_join_def)

section \<open>Properties\<close>

lemma replaced_group:
  assumes "replace_fixed_group_members g raws mv limit us db = (db', Inr res)" and "dict_ok (fx_members db)"
  shows "(\<exists>m. dict_get (fx_members db') i = Some m \<and> fm_group m = fg_id g) \<longleftrightarrow> i \<in> set (rr_account_ids res)"
  unfolding replace_success(5) [OF assms(1)] get_replaced_members by (auto simp: in_removed_ids [OF assms(2)])

text \<open>
  C18. A replacement makes the group exactly what was asked for: afterwards an account
  is a member if and only if it is one of the numbers requested (the first ones up to
  the limit, each once) and exists; the numbers that do not exist are reported as
  discarded; an account of another group keeps its row unless it is reported as moved;
  and without the permission to move no account changes its group.
\<close>

theorem replace_members_exact:
  assumes "replace_fixed_group_members g raws mv limit us db = (db', Inr res)"
    and "dict_ok (fx_members db)"
  shows "(\<forall>i. (\<exists>m. dict_get (fx_members db') i = Some m \<and> fm_group m = fg_id g)
            \<longleftrightarrow> i \<in> set (requested_ids limit raws) \<and> chatgpt_account db i \<noteq> None)
    \<and> rr_account_ids res = filter (\<lambda>i. chatgpt_account db i \<noteq> None) (requested_ids limit raws)
    \<and> rr_discarded res = filter (\<lambda>i. chatgpt_account db i = None) (requested_ids limit raws)
    \<and> (\<forall>i m. dict_get (fx_members db) i = Some m \<and> fm_group m \<noteq> fg_id g \<and> i \<notin> set (rr_moved res)
            \<longrightarrow> dict_get (fx_members db') i = Some m)
    \<and> (\<not> mv \<longrightarrow> rr_moved res = []) \<and> distinct (rr_account_ids res)"
proof -
  note s = replace_success [OF assms(1)] and grp = replaced_group [OF assms]
  let ?ids = "rr_account_ids res"
  note get = get_replaced_members [of "fg_id g" "utc_iso us" ?ids db, folded s(5)]
  have ids: "?ids = filter (\<lambda>i. chatgpt_account db i \<noteq> None) (requested_ids limit raws)"
    using s(1) by (simp add: normalize_requested)
  moreover have "dict_get (fx_members db') i = Some m"
    if "dict_get (fx_members db) i = Some m" "fm_group m \<noteq> fg_id g" "i \<notin> set (rr_moved res)" for i m
  proof -
    have "i \<notin> set ?ids" using that unfolding s(10) by (auto simp: is_moved_def)
    with that show ?thesis unfolding get by (auto simp: in_removed_ids [OF assms(2)])
  qed
  moreover have "rr_moved res = []" if "\<not> mv"
    using s(7) that unfolding s(10)
    by (auto simp: conflicting_ids_def is_moved_def filter_empty_conv split: option.splits)
  moreover have "rr_discarded res = filter (\<lambda>i. chatgpt_account db i = None) (requested_ids limit raws)"
    using replace_discarded [OF assms(1)] by (simp add: normalize_requested)
  ultimately show ?thesis using s(3) grp unfolding good_ids_def by (simp add: ids)
qed

definition example_groups :: fx_db where
  "example_groups = \<lparr>fx_groups = [(''g'', \<lparr>fg_id = ''g'', fg_parent = ''p'', fg_name = ''a'',
       fg_description = [], fg_pinned = True, fg_revision = 1, fg_created_at = [], fg_updated_at = []\<rparr>)],
     fx_members = [(2, \<lparr>fm_group = ''h'', fm_email = ''b@x'', fm_created_at = ''c'', fm_assigned_at = []\<rparr>)],
     fx_accounts = [\<lparr>fa_id = 1, fa_platform = ''chatgpt'', fa_email = ''A@x'', fa_created_at = CreatedText ''c''\<rparr>,
       \<lparr>fa_id = 2, fa_platform = ''chatgpt'', fa_email = ''b@x'', fa_created_at = CreatedText ''c''\<rparr>]\<rparr>"

definition example_group :: fx_group where
  "example_group = snd (hd (fx_groups example_groups))"

definition example_replace :: "fx_db \<times> (fx_error + replace_result)" where
  "example_replace = replace_fixed_group_members example_group [PInt 1, PStr ''2'', PBool True, PInt 9]
     True 100 0 example_groups"

lemma example_replace_ok:
  "\<exists>res. replace_fixed_group_members example_group [PInt 1, PStr ''2'', PBool True, PInt 9] True 100 0
     example_groups = (fst example_replace, Inr res)"
proof -
  have "(case snd example_replace of Inl _ \<Rightarrow> False | Inr _ \<Rightarrow> True)" by code_simp
  then obtain res where "snd example_replace = Inr res" by (auto split: sum.splits)
  then show ?thesis by (metis example_replace_def prod.collapse)
qed

lemma example_requested:
  "requested_ids 100 [PInt 1, PStr ''2'', PBool True, PInt 9] = [1, 2, 9]"
  "filter (\<lambda>i. chatgpt_account example_groups i \<noteq> None) [1, 2, 9] = [1, 2]"
  by code_simp+

theorem replace_members_exact_witness:
  "\<forall>i. (\<exists>m. dict_get (fx_members (fst example_replace)) i = Some m \<and> fm_group m = fg_id example_group)
    \<longleftrightarrow> i \<in> {1, 2}"
proof -
  obtain res where r: "replace_fixed_group_members example_group [PInt 1, PStr ''2'', PBool True, PInt 9]
    True 100 0 example_groups = (fst example_replace, Inr res)" using example_replace_ok by blast
  have "dict_ok (fx_members example_groups)" by (simp add: example_groups_def)
  from replace_members_exact [OF r this] have
    "\<forall>i. (\<exists>m. dict_get (fx_members (fst example_replace)) i = Some m \<and> fm_group m = fg_id example_group)
      \<longleftrightarrow> i \<in> set (filter (\<lambda>i. chatgpt_account example_groups i \<noteq> None) [1, 2, 9])"
    unfolding example_requested(1) by auto
  then show ?thesis unfolding example_requested(2) by simp
qed

text \<open>
  Saving a group again changes nothing: a second replacement with the accounts
  that the first one stored reports no change and leaves every table, and so the
  revision of the group, as it is.
\<close>

lemma replace_idempotent:
  assumes "replace_fixed_group_members g raws mv limit us db = (db', Inr res)"
    and "dict_ok (fx_members db)" and "fg_id g' = fg_id g"
  shows "replace_fixed_group_members g' (map PInt (rr_account_ids res)) mv' limit us' db'
    = (db', Inr \<lparr>rr_account_ids = rr_account_ids res, rr_discarded = [], rr_added = [], rr_moved = [],
                  rr_removed = [], rr_rebound = []\<rparr>)"
proof -
  note s = replace_success [OF assms(1)]
  let ?ids = "rr_account_ids res" and ?gid = "fg_id g"
  have acc: "chatgpt_account db' = chatgpt_account db" by (rule chatgpt_account_same) (rule s(6))
  have get: "dict_get (fx_members db') i = Some (new_member ?gid (utc_iso us) (fx_members db) db i)"
    if "i \<in> set ?ids" for i
    unfolding s(5) get_replaced_members using that by simp
  have norm: "normalize_account_ids limit (map PInt ?ids) = ?ids" by (rule normalize_ids_again) (rule s(3))
  have res: "filter (\<lambda>i. chatgpt_account db' i \<noteq> None) ?ids = ?ids"
    "filter (\<lambda>i. chatgpt_account db' i = None) ?ids = []"
    using s(4) by (auto simp: acc filter_empty_conv intro: filter_True)
  have conf: "conflicting_ids ?gid ?ids db' = []"
    by (auto simp: conflicting_ids_def filter_empty_conv get)
  have ok: "dict_ok (fx_members db')" unfolding s(5) by (rule dict_ok_replaced) (rule assms(2))
  have rem: "removed_ids ?gid ?ids db' = []"
  proof -
    have "i \<notin> set (removed_ids ?gid ?ids db')" for i
      using replaced_group [OF assms(1,2)] by (auto simp: in_removed_ids [OF ok])
    then show ?thesis by (meson list.set_sel(1))
  qed
  have keep: "new_member ?gid now (fx_members db') db' i = new_member ?gid (utc_iso us) (fx_members db) db i"
    if "i \<in> set ?ids" for i now
    using new_member_current [of db i ?gid "utc_iso us" "fx_members db"]
    by (simp add: new_member_def [of _ now "fx_members db'"] assign_member_def get [OF that] acc Let_def)
  have same: "fold (\<lambda>i. dict_set i (new_member ?gid (utc_iso us') (fx_members db') db' i)) ?ids (fx_members db')
    = fx_members db'"
    by (rule fold_dict_set_same) (simp add: get keep)
  have flags: "filter (\<lambda>i. dict_get (fx_members db') i = None) ?ids = []"
    "filter (is_moved ?gid (fx_members db')) ?ids = []"
    "filter (is_rebound (fx_members db') db') ?ids = []"
    using new_member_current by (auto simp: filter_empty_conv get is_moved_def is_rebound_def acc)
  have ex: "\<forall>i\<in>set ?ids. chatgpt_account db' i \<noteq> None" using s(4) by (simp add: acc)
  show ?thesis
    using s(2) unfolding replace_fixed_group_members_def assms(3) norm Let_def res conf rem
    by (simp add: assign_loop_result [OF ex] flags same)
qed

text \<open>
  C34. The batch view of many groups, which reads all members in one query, equals the
  view of each group read alone, counts, order and accounts included.
\<close>

theorem batch_view_equals_single:
  assumes "\<forall>g\<in>set groups. fg_id g \<noteq> [] \<and> py_strip (fg_id g) = fg_id g"
    and "\<forall>(i, m)\<in>set (fx_members db). py_strip (fm_group m) = fm_group m"
  shows "serialize_fixed_groups status inc db groups = map (serialize_fixed_group status inc db) groups"
proof -
  let ?J = "member_join db" and ?cur = "\<lambda>(i, m, a). member_is_current a m"
  have "map (snd \<circ> snd) (filter (\<lambda>(i, m, a). py_strip (fm_group m) = py_strip (fg_id g)) (batch_members groups db))
    = map snd (fixed_group_members (fg_id g) db)" if g: "g \<in> set groups" for g
  proof -
    let ?gids = "filter (\<lambda>g. g \<noteq> []) (map (py_strip \<circ> fg_id) groups)"
    let ?in = "\<lambda>(i :: int, m, a :: fx_account). fm_group m \<in> set ?gids"
    let ?is = "\<lambda>(i :: int, m, a :: fx_account). fm_group m = fg_id g"
    have gid: "fg_id g \<in> set ?gids" using g assms(1) by force
    then have ne: "?gids \<noteq> []" by (metis empty_iff empty_set)
    have strip: "py_strip (fm_group m) = fm_group m" if "(i, m, a) \<in> set ?J" for i m a
      using member_join_member [OF that] assms(2) by blast
    have b: "batch_members groups db = filter ?cur (sort_by batch_le (filter ?in ?J))"
      using ne by (simp add: batch_members_def Let_def)
    have "filter (\<lambda>(i, m, a). py_strip (fm_group m) = py_strip (fg_id g)) (batch_members groups db)
      = filter ?is (batch_members groups db)"
      unfolding b by (rule filter_cong) (use strip g assms(1) in auto)
    also have "\<dots> = filter ?cur (filter ?is (sort_by batch_le (filter ?in ?J)))"
      unfolding b filter_filter by (rule filter_cong) auto
    also have "\<dots> = filter ?cur (sort_by batch_le (filter ?is (filter ?in ?J)))"
      by (subst filter_sort_by [OF batch_le_total batch_le_trans]) auto
    also have "filter ?is (filter ?in ?J) = filter ?is ?J"
      unfolding filter_filter by (rule filter_cong) (use gid in auto)
    also have "sort_by batch_le (filter ?is ?J) = sort_by member_le (filter ?is ?J)"
      by (rule sort_by_cong) (auto simp: batch_le_def)
    finally show ?thesis
      using g assms(1) by (simp add: fixed_group_members_def split_def)
  qed
  then show ?thesis
    by (simp add: serialize_fixed_groups_def serialize_fixed_group_def Let_def)
qed

theorem batch_view_equals_single_witness:
  "serialize_fixed_groups (\<lambda>_. SubFree) True (fst example_replace) [example_group]
    = map (serialize_fixed_group (\<lambda>_. SubFree) True (fst example_replace)) [example_group]"
proof (rule batch_view_equals_single)
  have "list_all (\<lambda>(i, m). fm_group m = ''g'') (fx_members (fst example_replace))" by code_simp
  moreover have "py_strip ''g'' = ''g''" by (simp add: py_strip_id py_space_def)
  ultimately show "\<forall>(i, m)\<in>set (fx_members (fst example_replace)). py_strip (fm_group m) = fm_group m"
    by (auto simp: list_all_iff)
qed (simp add: example_group_def example_groups_def py_strip_id py_space_def)

end
