(* ===== verification/ProxyPool.thy ===== *)
theory ProxyPool
  imports Rows
begin

text \<open>
  The proxy pool (\<open>core/proxy_pool.py\<close>) and the health score of a proxy
  (\<open>calculate_health_score\<close> in \<open>services/proxy_scanner.py\<close>): which proxies may be
  used, in which order, the round robin over them, and the reports that open and
  close the cooldown and the homepage circuit. \<open>last_probe_json\<close> is held as the
  value that \<open>json.loads\<close> yields for it, \<open>PNone\<close> when it yields none.
\<close>

section \<open>State\<close>

record proxy =
  pp_id :: int
  pp_url :: string
  pp_region :: string
  pp_desired_country :: string
  pp_exit_country :: string
  pp_exit_ip :: string
  pp_is_active :: bool
  pp_success_count :: int
  pp_fail_count :: int
  pp_consecutive_failures :: int
  pp_homepage_success_count :: int
  pp_homepage_fail_count :: int
  pp_homepage_consecutive_failures :: int
  pp_homepage_last_error :: string
  pp_homepage_last_status_code :: int
  pp_homepage_last_checked :: "time option"
  pp_homepage_circuit_open_until :: "time option"
  pp_cooldown_until :: "time option"
  pp_last_checked :: "time option"
  pp_last_latency_ms :: int
  pp_scan_status :: string
  pp_chatgpt_status :: string
  pp_chatgpt_status_code :: int
  pp_chatgpt_last_error :: string
  pp_chatgpt_last_checked_at :: "time option"
  pp_health_score :: rat
  pp_last_probe :: pyval

text \<open>The rows in table order, the configuration text and the cursor of the round robin.\<close>

record proxy_pool =
  pl_rows :: "proxy list"
  pl_cooldown_setting :: string
  pl_index :: nat

definition circuit_threshold :: int where "circuit_threshold = 3"
definition circuit_seconds :: rat where "circuit_seconds = 15 * 60"
definition failure_cooldown_seconds :: rat where "failure_cooldown_seconds = 5 * 60"

section \<open>Selection\<close>

definition is_future :: "time option \<Rightarrow> time \<Rightarrow> bool" where
  "is_future v now = (case v of None \<Rightarrow> False | Some t \<Rightarrow> t > now)"

definition cooldown_enabled :: "proxy_pool \<Rightarrow> bool" where
  "cooldown_enabled s \<longleftrightarrow>
    py_lower (py_strip (pl_cooldown_setting s)) \<notin> {''0'', ''false'', ''no'', ''off''}"

definition cooldown_open :: "bool \<Rightarrow> time \<Rightarrow> proxy \<Rightarrow> bool" where
  "cooldown_open enabled now p \<longleftrightarrow>
    enabled \<and> (is_future (pp_cooldown_until p) now \<or> is_future (pp_homepage_circuit_open_until p) now)"

definition success_rate :: "int \<Rightarrow> int \<Rightarrow> rat" where
  "success_rate success fail = of_int success / of_int (max (success + fail) 1)"

type_synonym proxy_key = "rat \<times> rat \<times> rat \<times> int"

definition proxy_sort_key :: "proxy \<Rightarrow> proxy_key" where
  "proxy_sort_key p =
    (pp_health_score p, success_rate (pp_homepage_success_count p) (pp_homepage_fail_count p),
     success_rate (pp_success_count p) (pp_fail_count p), - pp_consecutive_failures p)"

fun key_le :: "proxy_key \<Rightarrow> proxy_key \<Rightarrow> bool" where
  "key_le (a, b, c, d) (a', b', c', d') =
    (a < a' \<or> (a = a' \<and> (b < b' \<or> (b = b' \<and> (c < c' \<or> (c = c' \<and> d \<le> d'))))))"

text \<open>A key of a JSON object, and the empty object when the value there is not one.\<close>

fun sub_dict :: "pyval \<Rightarrow> string \<Rightarrow> pyval" where
  "sub_dict (PDict d) k = (case dict_get d k of Some (PDict e) \<Rightarrow> PDict e | _ \<Rightarrow> PDict [])"
| "sub_dict _ k = PDict []"

fun truthy_key :: "pyval \<Rightarrow> string \<Rightarrow> bool" where
  "truthy_key (PDict d) k = (case dict_get d k of None \<Rightarrow> False | Some v \<Rightarrow> truthy v)"
| "truthy_key _ k = False"

definition bad_chatgpt_statuses :: "string list" where
  "bad_chatgpt_statuses = [''blocked_403'', ''rate_limited_429'', ''timeout'', ''tls_error'', ''dns_error'',
     ''proxy_error'', ''proxy_auth_failed'', ''connection_error'', ''connection_refused'', ''failed'']"

definition matches_target :: "string \<Rightarrow> proxy \<Rightarrow> bool" where
  "matches_target target p =
    (if py_lower (py_strip target) \<in> {''chatgpt'', ''homepage''}
     then (let status = py_lower (py_strip (or_else (pp_chatgpt_status p) ''unchecked''));
               targets = sub_dict (sub_dict (pp_last_probe p) ''chatgpt'') ''targets''
           in status = ''ok''
              \<or> (truthy_key (sub_dict targets ''chatgpt'') ''ok'' \<and> truthy_key (sub_dict targets ''auth'') ''ok'')
              \<or> status \<notin> set bad_chatgpt_statuses)
     else True)"

definition matches_country :: "string \<Rightarrow> proxy \<Rightarrow> bool" where
  "matches_country country p =
    (let expected = py_upper (py_strip country); actual = py_upper (py_strip (pp_exit_country p))
     in if expected = [] then True
        else if actual \<noteq> [] then actual = expected
        else expected \<in> {py_upper (py_strip (pp_region p)), py_upper (py_strip (pp_desired_country p))})"

record candidate =
  cd_id :: int
  cd_url :: string
  cd_region :: string
  cd_exit_country :: string
  cd_exit_ip :: string
  cd_chatgpt_status :: string
  cd_health_score :: rat
  cd_latency_ms :: int

definition candidate_of :: "proxy \<Rightarrow> candidate" where
  "candidate_of p =
    \<lparr>cd_id = pp_id p, cd_url = pp_url p, cd_region = pp_region p, cd_exit_country = pp_exit_country p,
     cd_exit_ip = pp_exit_ip p, cd_chatgpt_status = or_else (pp_chatgpt_status p) ''unchecked'',
     cd_health_score = pp_health_score p, cd_latency_ms = pp_last_latency_ms p\<rparr>"

definition usable :: "bool \<Rightarrow> time \<Rightarrow> string \<Rightarrow> string \<Rightarrow> string \<Rightarrow> rat \<Rightarrow> proxy \<Rightarrow> bool" where
  "usable enabled now region country target min_score p \<longleftrightarrow>
    pp_is_active p \<and> (py_strip region = [] \<or> pp_region p = py_strip region)
    \<and> \<not> cooldown_open enabled now p \<and> matches_country country p \<and> matches_target target p
    \<and> \<not> (min_score \<noteq> 0 \<and> pp_health_score p < min_score)"

text \<open>\<open>sort(reverse=True)\<close> is stable: equal keys stay in table order.\<close>

definition get_candidate_records ::
  "string \<Rightarrow> string \<Rightarrow> string \<Rightarrow> int \<Rightarrow> rat \<Rightarrow> time \<Rightarrow> proxy_pool \<Rightarrow> candidate list" where
  "get_candidate_records region country target limit min_score now s =
    (let sorted_rows = sort_by (\<lambda>p q. key_le (proxy_sort_key q) (proxy_sort_key p))
           (filter (usable (cooldown_enabled s) now region country target min_score) (pl_rows s));
         rows = (if limit > 0 then take (nat limit) sorted_rows else sorted_rows)
     in map candidate_of (filter (\<lambda>p. py_strip (pp_url p) \<noteq> []) rows))"

definition get_next :: "string \<Rightarrow> time \<Rightarrow> proxy_pool \<Rightarrow> proxy_pool \<times> string option" where
  "get_next region now s =
    (let proxies = get_candidate_records region [] [] 0 0 now s
     in if proxies = [] then (s, None)
        else (s\<lparr>pl_index := pl_index s + 1\<rparr>,
              (let url = cd_url (proxies ! (pl_index s mod length proxies))
               in if url = [] then None else Some url)))"

section \<open>The health score\<close>

definition calculate_health_score :: "time \<Rightarrow> proxy \<Rightarrow> rat" where
  "calculate_health_score now p =
    (if \<not> pp_is_active p then 0
     else (let until = (case pp_cooldown_until p of None \<Rightarrow> pp_homepage_circuit_open_until p | Some t \<Rightarrow> Some t);
               scan = py_lower (or_else (pp_scan_status p) ''unchecked'');
               chat = py_lower (or_else (pp_chatgpt_status p) ''unchecked'');
               latency = pp_last_latency_ms p;
               desired = py_upper (py_strip (or_else (pp_desired_country p) (pp_region p)));
               exit_country = py_upper (py_strip (pp_exit_country p));
               s1 = (if is_future until now then 55 else 0);
               s2 = (if scan = ''failed'' then 55 else if scan = ''degraded'' then 25
                     else if scan = ''unchecked'' then 20 else 0);
               s3 = (if chat = ''blocked_403'' \<or> chat = ''rate_limited_429'' then 45
                     else if chat \<in> set bad_chatgpt_statuses then 35
                     else if chat = ''unchecked'' then 5 else 0);
               s4 = (if latency \<ge> 8000 then 30 else if latency \<ge> 3000 then 15
                     else if latency \<noteq> 0 \<and> latency \<le> 1200 then - 5 else 0);
               s5 = of_int (min 30 (max (pp_consecutive_failures p) (pp_homepage_consecutive_failures p) * 10));
               s6 = (if desired \<noteq> [] \<and> length desired \<le> 3 \<and> exit_country \<noteq> [] \<and> desired \<noteq> exit_country
                     then 10 else 0)
           in max 0 (min 100 (100 - s1 - s2 - s3 - s4 - s5 - s6))))"

section \<open>Reports\<close>

text \<open>The first row with the url is rewritten; an unknown url changes nothing.\<close>

fun update_first :: "string \<Rightarrow> (proxy \<Rightarrow> proxy) \<Rightarrow> proxy list \<Rightarrow> proxy list" where
  "update_first url f [] = []"
| "update_first url f (p # ps) = (if pp_url p = url then f p # ps else p # update_first url f ps)"

definition write_proxy :: "string \<Rightarrow> (proxy \<Rightarrow> proxy) \<Rightarrow> proxy_pool \<Rightarrow> proxy_pool" where
  "write_proxy url f s = s\<lparr>pl_rows := update_first url f (pl_rows s)\<rparr>"

definition rescore :: "time \<Rightarrow> proxy \<Rightarrow> proxy" where
  "rescore now p = p\<lparr>pp_health_score := calculate_health_score now p\<rparr>"

definition success_row :: "time \<Rightarrow> proxy \<Rightarrow> proxy" where
  "success_row now p = rescore now (p\<lparr>pp_success_count := pp_success_count p + 1,
     pp_consecutive_failures := 0, pp_cooldown_until := None, pp_last_checked := Some now\<rparr>)"

definition fail_row :: "bool \<Rightarrow> time \<Rightarrow> proxy \<Rightarrow> proxy" where
  "fail_row enabled now p =
    (let p1 = p\<lparr>pp_fail_count := pp_fail_count p + 1,
             pp_consecutive_failures := pp_consecutive_failures p + 1, pp_last_checked := Some now\<rparr>;
         until = Some (now + failure_cooldown_seconds);
         p2 = (if enabled then p1\<lparr>pp_cooldown_until := until, pp_homepage_circuit_open_until := until\<rparr> else p1)
     in rescore now p2)"

definition homepage_success_row :: "bool \<Rightarrow> int \<Rightarrow> time \<Rightarrow> proxy \<Rightarrow> proxy" where
  "homepage_success_row enabled status_code now p =
    (let code = (if status_code = 0 then 200 else status_code);
         p1 = p\<lparr>pp_homepage_success_count := pp_homepage_success_count p + 1,
             pp_homepage_consecutive_failures := 0, pp_homepage_last_error := [],
             pp_homepage_last_status_code := code, pp_homepage_last_checked := Some now,
             pp_chatgpt_status := ''ok'', pp_chatgpt_status_code := code, pp_chatgpt_last_error := [],
             pp_chatgpt_last_checked_at := Some now, pp_last_checked := Some now\<rparr>;
         p2 = (if enabled then p1\<lparr>pp_homepage_circuit_open_until := None\<rparr> else p1)
     in rescore now p2)"

definition failed_status :: "int \<Rightarrow> string \<Rightarrow> string \<Rightarrow> string" where
  "failed_status code error old =
    (if code = 403 then ''blocked_403'' else if code = 429 then ''rate_limited_429''
     else if code \<ge> 400 then ''http_'' @ show_int code
     else if error \<noteq> [] then ''failed'' else old)"

definition homepage_fail_row :: "bool \<Rightarrow> string \<Rightarrow> int \<Rightarrow> time \<Rightarrow> proxy \<Rightarrow> proxy" where
  "homepage_fail_row enabled error code now p =
    (let consecutive = pp_homepage_consecutive_failures p + 1;
         p1 = p\<lparr>pp_homepage_fail_count := pp_homepage_fail_count p + 1,
             pp_homepage_consecutive_failures := consecutive, pp_homepage_last_error := take 500 error,
             pp_homepage_last_status_code := code, pp_homepage_last_checked := Some now,
             pp_chatgpt_status_code := code,
             pp_chatgpt_status := failed_status code error (pp_chatgpt_status p),
             pp_chatgpt_last_error := take 500 error, pp_chatgpt_last_checked_at := Some now,
             pp_last_checked := Some now\<rparr>;
         p2 = (if enabled \<and> consecutive \<ge> circuit_threshold
               then p1\<lparr>pp_homepage_circuit_open_until := Some (now + circuit_seconds)\<rparr> else p1)
     in rescore now p2)"

definition report_success :: "string \<Rightarrow> time \<Rightarrow> proxy_pool \<Rightarrow> proxy_pool" where
  "report_success url now s = write_proxy url (success_row now) s"

definition report_fail :: "string \<Rightarrow> time \<Rightarrow> proxy_pool \<Rightarrow> proxy_pool" where
  "report_fail url now s = write_proxy url (fail_row (cooldown_enabled s) now) s"

definition report_homepage_success :: "string \<Rightarrow> int \<Rightarrow> time \<Rightarrow> proxy_pool \<Rightarrow> proxy_pool" where
  "report_homepage_success url status_code now s =
    write_proxy url (homepage_success_row (cooldown_enabled s) status_code now) s"

definition report_homepage_fail :: "string \<Rightarrow> string \<Rightarrow> int \<Rightarrow> time \<Rightarrow> proxy_pool \<Rightarrow> proxy_pool" where
  "report_homepage_fail url error status_code now s =
    write_proxy url (homepage_fail_row (cooldown_enabled s) error status_code now) s"

text \<open>\<open>check_all\<close> counts the outcomes of the scans, which are its argument.\<close>

fun check_all :: "string list \<Rightarrow> int \<times> int \<times> int" where
  "check_all [] = (0, 0, 0)"
| "check_all (status # rest) =
     (case check_all rest of (ok, bad, degraded) \<Rightarrow>
        if status = ''ok'' then (ok + 1, bad, degraded)
        else if status = ''degraded'' then (ok, bad, degraded + 1) else (ok, bad + 1, degraded))"

section \<open>The order of candidates\<close>

lemma key_le_total: "key_le k l \<or> key_le l k"
  by (cases k; cases l) auto

lemma key_le_trans: "key_le k l \<Longrightarrow> key_le l m \<Longrightarrow> key_le k m"
  by (cases k; cases l; cases m) auto

lemma write_proxy_frame [simp]:
  "cooldown_enabled (write_proxy url f s) = cooldown_enabled s"
  "pl_index (write_proxy url f s) = pl_index s"
  by (simp_all add: write_proxy_def cooldown_enabled_def)

lemma update_first_in:
  assumes "distinct (map pp_url ps)" and "\<And>p. pp_url (f p) = pp_url p"
  shows "p \<in> set (update_first url f ps) \<longleftrightarrow>
    (\<exists>q\<in>set ps. p = (if pp_url q = url then f q else q))"
  using assms(1)
proof (induction ps)
  case (Cons q ps)
  show ?case
  proof (cases "pp_url q = url")
    case True
    then have "\<forall>x\<in>set ps. pp_url x \<noteq> url" using Cons.prems by (metis distinct.simps(2) image_eqI list.set_map list.simps(9))
    with True show ?thesis by auto
  next
    case False
    with Cons show ?thesis by auto
  qed
qed simp

lemma urls_update_first [simp]:
  "(\<And>p. pp_url (f p) = pp_url p) \<Longrightarrow> map pp_url (update_first url f ps) = map pp_url ps"
  by (induction ps) auto

lemma rescore_frame [simp]:
  "pp_url (rescore now p) = pp_url p" "pp_cooldown_until (rescore now p) = pp_cooldown_until p"
  "pp_homepage_circuit_open_until (rescore now p) = pp_homepage_circuit_open_until p"
  "pp_homepage_consecutive_failures (rescore now p) = pp_homepage_consecutive_failures p"
  by (simp_all add: rescore_def)

lemma row_urls [simp]:
  "pp_url (success_row now p) = pp_url p" "pp_url (fail_row e now p) = pp_url p"
  "pp_url (homepage_success_row e c now p) = pp_url p" "pp_url (homepage_fail_row e m c now p) = pp_url p"
  by (simp_all add: success_row_def fail_row_def homepage_success_row_def homepage_fail_row_def Let_def)

lemma candidate_from_row:
  assumes "c \<in> set (get_candidate_records region country target limit ms now s)"
  shows "\<exists>p\<in>set (pl_rows s). c = candidate_of p \<and> py_strip (pp_url p) \<noteq> []
    \<and> usable (cooldown_enabled s) now region country target ms p"
  using assms
  by (auto simp: get_candidate_records_def Let_def split: if_splits dest!: in_set_takeD)

section \<open>Properties\<close>

text \<open>The answers of successive calls.\<close>

definition next_urls :: "string \<Rightarrow> time \<Rightarrow> nat \<Rightarrow> proxy_pool \<Rightarrow> string option list" where
  "next_urls region now n s =
    map (\<lambda>k. snd (get_next region now (((\<lambda>t. fst (get_next region now t)) ^^ k) s))) [0..<n]"

lemma candidates_index [simp]:
  "get_candidate_records region country target limit ms now (s\<lparr>pl_index := i\<rparr>)
    = get_candidate_records region country target limit ms now s"
  by (simp add: get_candidate_records_def cooldown_enabled_def)

lemma get_next_iterate:
  assumes "get_candidate_records region [] [] 0 0 now s \<noteq> []"
  shows "((\<lambda>t. fst (get_next region now t)) ^^ k) s = s\<lparr>pl_index := pl_index s + k\<rparr>"
proof (induction k)
  case (Suc k)
  then show ?case using assms by (simp add: get_next_def Let_def)
qed simp

lemma candidate_url_not_Nil: "c \<in> set (get_candidate_records region co ta li ms now s) \<Longrightarrow> cd_url c \<noteq> []"
  using candidate_from_row by (fastforce simp: candidate_of_def)

lemma rotation_mset:
  assumes "n = length xs" and "xs \<noteq> []"
  shows "mset (map (\<lambda>k. xs ! ((i + k) mod n)) [0..<n]) = mset xs"
proof -
  have "map (\<lambda>k. xs ! ((i + k) mod n)) [0..<n] = rotate i xs"
    using assms by (intro nth_equalityI) (simp_all add: nth_rotate)
  moreover have "mset (rotate i xs) = mset xs"
    unfolding rotate_drop_take mset_append by (metis append_take_drop_id mset_append union_commute)
  ultimately show ?thesis by simp
qed

text \<open>
  C29. The round robin is fair: with n candidates and the pool unchanged between the
  calls, any n successive calls of \<open>get_next\<close> return every candidate exactly once.
\<close>

theorem round_robin_fair:
  assumes "cs = get_candidate_records region [] [] 0 0 now s" and "cs \<noteq> []"
  shows "mset (next_urls region now (length cs) s) = mset (map (Some \<circ> cd_url) cs)"
proof -
  have n: "snd (get_next region now (((\<lambda>t. fst (get_next region now t)) ^^ k) s))
    = Some (cd_url (cs ! ((pl_index s + k) mod length cs)))" for k
  proof -
    have "(pl_index s + k) mod length cs < length cs" using assms(2) by simp
    then have "cd_url (cs ! ((pl_index s + k) mod length cs)) \<noteq> []"
      using candidate_url_not_Nil nth_mem unfolding assms(1) by blast
    then show ?thesis
      using assms get_next_iterate [of region now s k] by (simp add: get_next_def Let_def)
  qed
  have "mset (next_urls region now (length cs) s)
    = mset (map (Some \<circ> cd_url) (map (\<lambda>k. cs ! ((pl_index s + k) mod length cs)) [0..<length cs]))"
    by (simp add: next_urls_def n comp_def)
  also have "\<dots> = mset (map (Some \<circ> cd_url) cs)"
    using rotation_mset [OF refl assms(2), of "pl_index s"] by (simp only: mset_map)
  finally show ?thesis .
qed

definition blank_proxy :: "string \<Rightarrow> proxy" where
  "blank_proxy url = \<lparr>pp_id = 1, pp_url = url, pp_region = [], pp_desired_country = [],
     pp_exit_country = [], pp_exit_ip = [], pp_is_active = True, pp_success_count = 0, pp_fail_count = 0,
     pp_consecutive_failures = 0, pp_homepage_success_count = 0, pp_homepage_fail_count = 0,
     pp_homepage_consecutive_failures = 0, pp_homepage_last_error = [], pp_homepage_last_status_code = 0,
     pp_homepage_last_checked = None, pp_homepage_circuit_open_until = None, pp_cooldown_until = None,
     pp_last_checked = None, pp_last_latency_ms = 0, pp_scan_status = ''ok'', pp_chatgpt_status = ''ok'',
     pp_chatgpt_status_code = 0, pp_chatgpt_last_error = [], pp_chatgpt_last_checked_at = None,
     pp_health_score = 100, pp_last_probe = PNone\<rparr>"

definition example_pool :: proxy_pool where
  "example_pool = \<lparr>pl_rows = [blank_proxy ''u'', blank_proxy ''v''], pl_cooldown_setting = ''true'', pl_index = 5\<rparr>"

theorem round_robin_fair_witness:
  "mset (next_urls [] 0 (length (get_candidate_records [] [] [] 0 0 0 example_pool)) example_pool)
    = mset (map (Some \<circ> cd_url) (get_candidate_records [] [] [] 0 0 0 example_pool))"
proof (rule round_robin_fair [OF refl])
  have "length (get_candidate_records [] [] [] 0 0 0 example_pool) = 2" by code_simp
  then show "get_candidate_records [] [] [] 0 0 0 example_pool \<noteq> []" by auto
qed

text \<open>
  What a reported failure costs: while cooldowns are on, a proxy that was reported
  as failed is offered to nobody for five minutes, and this holds even when a
  success of the same proxy is reported in between: that report clears
  \<open>cooldown_until\<close> but not the homepage circuit, which the failure had opened too.
\<close>

lemma failed_proxy_not_offered:
  assumes "cooldown_enabled s" and "distinct (map pp_url (pl_rows s))"
    and "now < t + 300" and "t' \<le> now"
  shows "url \<notin> cd_url ` set (get_candidate_records region country target limit ms now (report_fail url t s))
    \<and> url \<notin> cd_url ` set (get_candidate_records region country target limit ms now
            (report_success url t' (report_fail url t s)))"
proof -
  let ?f = "fail_row (cooldown_enabled s) t"
  let ?s1 = "report_fail url t s" and ?s2 = "report_success url t' (report_fail url t s)"
  have u: "map pp_url (pl_rows ?s1) = map pp_url (pl_rows s)"
    by (simp add: report_fail_def write_proxy_def)
  have closed: "cooldown_open True now (?f p)" "cooldown_open True now (success_row t' (?f p))" for p
    using assms(1,3) by (simp_all add: fail_row_def success_row_def cooldown_open_def is_future_def Let_def
        failure_cooldown_seconds_def)
  have rows1: "p \<in> set (pl_rows ?s1) \<Longrightarrow> pp_url p = url \<Longrightarrow> \<exists>q. p = ?f q" for p
    unfolding report_fail_def write_proxy_def
    by (auto simp: update_first_in [OF assms(2)] split: if_splits)
  have rows2: "\<exists>q. p = success_row t' (?f q)" if "p \<in> set (pl_rows ?s2)" "pp_url p = url" for p
  proof -
    have d: "distinct (map pp_url (pl_rows ?s1))" unfolding u by (rule assms(2))
    from that obtain q where q: "q \<in> set (pl_rows ?s1)" "p = (if pp_url q = url then success_row t' q else q)"
      unfolding report_success_def [of url t' ?s1] write_proxy_def
      by (auto simp: update_first_in [OF d])
    with that(2) have "pp_url q = url" by (auto split: if_splits)
    with q rows1 show ?thesis by auto
  qed
  have e: "cooldown_enabled ?s1" "cooldown_enabled ?s2"
    using assms(1) by (simp_all add: report_fail_def report_success_def)
  have "pp_url p \<noteq> url" if "p \<in> set (pl_rows ?s1)" "usable True now region country target ms p" for p
    using that rows1 closed by (auto simp: usable_def)
  moreover have "pp_url p \<noteq> url" if "p \<in> set (pl_rows ?s2)" "usable True now region country target ms p" for p
    using that rows2 closed by (auto simp: usable_def)
  ultimately show ?thesis
    using candidate_from_row [of _ region country target limit ms now] e
    by (fastforce simp: candidate_of_def)
qed

text \<open>
  An open homepage circuit is not protected: three homepage failures close a proxy
  for fifteen minutes, but one ordinary failure reported afterwards replaces the
  end of the circuit by its own five minutes, so the proxy is offered again
  earlier than if that failure had not happened.
\<close>

lemma failure_shortens_open_circuit:
  assumes "pp_homepage_consecutive_failures p \<ge> 2" and "t \<le> t'" and "t' + 300 \<le> now" and "now < t + 900"
    and "\<not> is_future (pp_cooldown_until p) now"
  shows "cooldown_open True now (homepage_fail_row True error code t p)
    \<and> \<not> cooldown_open True now (fail_row True t' (homepage_fail_row True error code t p))"
  using assms
  by (simp add: cooldown_open_def is_future_def homepage_fail_row_def fail_row_def Let_def
      circuit_threshold_def circuit_seconds_def failure_cooldown_seconds_def)

end
