(* ===== verification/ExitIpRegistry.thy ===== *)
theory ExitIpRegistry
  imports Contracts
begin

text \<open>
  The registry of exit addresses (\<open>core/chatgpt_register_exit_ip_registry.py\<close>): one
  lease per address, active while an attempt runs and in cooldown afterwards. Every
  method reads the clock once, which is its argument \<open>now\<close>. IPv4 literals are parsed
  here as \<open>ipaddress\<close> does; \<open>v6net\<close> is the text of the /64 network when the text is
  an IPv6 literal.
\<close>

section \<open>Addresses\<close>

definition parse_octet :: "string \<Rightarrow> nat option" where
  "parse_octet s =
    (if s = [] \<or> \<not> list_all is_digit s \<or> length s > 3 \<or> (length s > 1 \<and> hd s = CHR ''0'') then None
     else (case parse_digits 0 False s of
             None \<Rightarrow> None | Some n \<Rightarrow> if n > 255 then None else Some (nat n)))"

definition parse_ipv4 :: "string \<Rightarrow> string option" where
  "parse_ipv4 s =
    (case map parse_octet (split_on (CHR ''.'') s) of
       [Some a, Some b, Some c, Some d] \<Rightarrow>
         Some (show_nat a @ ''.'' @ show_nat b @ ''.'' @ show_nat c @ ''.'' @ show_nat d)
     | _ \<Rightarrow> None)"

definition normalize_exit_ip :: "(string \<Rightarrow> string option) \<Rightarrow> string \<Rightarrow> string" where
  "normalize_exit_ip v6net value =
    (let t = py_strip value
     in if t = [] then []
        else (case parse_ipv4 t of
                Some a \<Rightarrow> a
              | None \<Rightarrow> (case v6net t of Some net \<Rightarrow> net | None \<Rightarrow> py_lower t)))"

section \<open>Leases\<close>

datatype lease_state = LeaseActive | LeaseCooldown

record exit_lease =
  el_owner :: string
  el_state :: lease_state
  el_expires_at :: time

type_synonym exit_registry = "(string, exit_lease) dict"

record exit_claim =
  ec_claimed :: bool
  ec_key :: string
  ec_holder :: string
  ec_state :: "lease_state option"
  ec_expires_in :: time

definition prune :: "time \<Rightarrow> exit_registry \<Rightarrow> exit_registry" where
  "prune now s = filter (\<lambda>(_, l). \<not> el_expires_at l \<le> now) s"

text \<open>A claim with a blank address or owner is invalid: it has no state of a lease.\<close>

definition claim_exit_ip ::
  "(string \<Rightarrow> string option) \<Rightarrow> string \<Rightarrow> string \<Rightarrow> rat \<Rightarrow> time \<Rightarrow> exit_registry \<Rightarrow> exit_registry \<times> exit_claim" where
  "claim_exit_ip v6net exit_ip owner ttl now s =
    (let key = normalize_exit_ip v6net exit_ip; owner_key = py_strip owner in
     if key = [] \<or> owner_key = []
     then (s, \<lparr>ec_claimed = False, ec_key = key, ec_holder = [], ec_state = None, ec_expires_in = 0\<rparr>)
     else (let s1 = prune now s;
               granted = (dict_set key \<lparr>el_owner = owner_key, el_state = LeaseActive,
                                        el_expires_at = now + max ttl 1\<rparr> s1,
                          \<lparr>ec_claimed = True, ec_key = key, ec_holder = owner_key,
                           ec_state = Some LeaseActive, ec_expires_in = 0\<rparr>)
           in case dict_get s1 key of
                None \<Rightarrow> granted
              | Some l \<Rightarrow>
                  if \<not> (el_state l = LeaseActive \<and> el_owner l = owner_key)
                  then (s1, \<lparr>ec_claimed = False, ec_key = key, ec_holder = el_owner l,
                             ec_state = Some (el_state l), ec_expires_in = max (el_expires_at l - now) 0\<rparr>)
                  else granted))"

definition held_by :: "string \<Rightarrow> exit_lease \<Rightarrow> bool" where
  "held_by owner_key l \<longleftrightarrow> el_state l = LeaseActive \<and> el_owner l = owner_key"

definition cooldown_lease :: "string \<Rightarrow> time \<Rightarrow> exit_lease" where
  "cooldown_lease owner_key until =
    \<lparr>el_owner = ''cooldown:'' @ owner_key, el_state = LeaseCooldown, el_expires_at = until\<rparr>"

definition release_owner :: "string \<Rightarrow> rat \<Rightarrow> time \<Rightarrow> exit_registry \<Rightarrow> exit_registry \<times> nat" where
  "release_owner owner cooldown_seconds now s =
    (let owner_key = py_strip owner; cooldown = max cooldown_seconds 0 in
     if owner_key = [] then (s, 0)
     else (let s1 = prune now s;
               s2 = (if cooldown \<le> 0 then filter (\<lambda>(_, l). \<not> held_by owner_key l) s1
                     else map (\<lambda>(k, l). (k, if held_by owner_key l
                                            then cooldown_lease owner_key (now + cooldown) else l)) s1)
           in (s2, length (filter (\<lambda>(_, l). held_by owner_key l) s1))))"

definition refresh_owner :: "string \<Rightarrow> rat \<Rightarrow> time \<Rightarrow> exit_registry \<Rightarrow> exit_registry \<times> nat" where
  "refresh_owner owner ttl now s =
    (let owner_key = py_strip owner in
     if owner_key = [] then (s, 0)
     else (let s1 = prune now s
           in (map (\<lambda>(k, l). (k, if held_by owner_key l then l\<lparr>el_expires_at := now + max ttl 1\<rparr> else l)) s1,
               length (filter (\<lambda>(_, l). held_by owner_key l) s1))))"

definition exit_snapshot :: "time \<Rightarrow> exit_registry \<Rightarrow> exit_registry \<times> (string \<times> string \<times> lease_state \<times> time) list" where
  "exit_snapshot now s =
    (let s1 = prune now s
     in (s1, map (\<lambda>(k, l). (k, el_owner l, el_state l, max (el_expires_at l - now) 0)) s1))"

section \<open>Lookups\<close>

lemma get_prune:
  assumes "dict_ok s"
  shows "dict_get (prune now s) k =
    (case dict_get s k of None \<Rightarrow> None | Some l \<Rightarrow> if \<not> el_expires_at l \<le> now then Some l else None)"
  unfolding prune_def by (rule dict_get_filter) (rule assms)

lemma prune_ok: "dict_ok s \<Longrightarrow> dict_ok (prune now s)"
  unfolding prune_def by (rule dict_ok_filter)

lemma get_map_values: "dict_get (map (\<lambda>(k, l). (k, f l)) s) k = map_option f (dict_get s k)"
  by (induction s) auto

lemma claim_ok: "dict_ok s \<Longrightarrow> dict_ok (fst (claim_exit_ip v6 ip u ttl now s))"
  using prune_ok [of s now] dict_ok_set
  by (simp add: claim_exit_ip_def Let_def split: option.split)

text \<open>Who holds an address at time \<open>now\<close>; an address in cooldown is held by its cooldown.\<close>

definition exit_holder :: "(string \<Rightarrow> string option) \<Rightarrow> time \<Rightarrow> exit_registry \<Rightarrow> string \<Rightarrow> string option" where
  "exit_holder v6net now s ip =
    (case dict_get s (normalize_exit_ip v6net ip) of
       None \<Rightarrow> None
     | Some l \<Rightarrow> if el_expires_at l \<le> now then None else Some (el_owner l))"

text \<open>What a claim does where address and owner are not blank, and what the contract sees of it.\<close>

lemma claim_lookup:
  assumes "normalize_exit_ip v6 ip \<noteq> []" and "py_strip u \<noteq> []"
  shows "fst (claim_exit_ip v6 ip u ttl now s) =
    (let key = normalize_exit_ip v6 ip; s1 = prune now s
     in if case dict_get s1 key of None \<Rightarrow> True | Some l \<Rightarrow> held_by (py_strip u) l
        then dict_set key \<lparr>el_owner = py_strip u, el_state = LeaseActive, el_expires_at = now + max ttl 1\<rparr> s1 else s1)"
    and "ec_claimed (snd (claim_exit_ip v6 ip u ttl now s)) =
    (case dict_get (prune now s) (normalize_exit_ip v6 ip) of None \<Rightarrow> True | Some l \<Rightarrow> held_by (py_strip u) l)"
  using assms by (auto simp: claim_exit_ip_def Let_def held_by_def split: option.split)

lemma claim_invalid:
  "normalize_exit_ip v6 ip = [] \<or> py_strip u = [] \<Longrightarrow>
    fst (claim_exit_ip v6 ip u ttl now s) = s \<and> \<not> ec_claimed (snd (claim_exit_ip v6 ip u ttl now s))"
  by (auto simp: claim_exit_ip_def)

definition claim_result ::
  "(string \<Rightarrow> string option) \<Rightarrow> rat \<Rightarrow> time \<Rightarrow> string \<Rightarrow> string \<Rightarrow> exit_registry \<Rightarrow> exit_registry \<times> bool" where
  "claim_result v6net ttl now u ip s =
    (fst (claim_exit_ip v6net ip u ttl now s), ec_claimed (snd (claim_exit_ip v6net ip u ttl now s)))"

lemma claim_granted_valid:
  "ec_claimed (snd (claim_exit_ip v6 ip u ttl now s)) \<Longrightarrow> normalize_exit_ip v6 ip \<noteq> [] \<and> py_strip u \<noteq> []"
  using claim_invalid by blast

interpretation exit_ips: exclusive_lease "exit_holder v6net now" "claim_result v6net ttl now" dict_ok py_strip
  for v6net now ttl
proof unfold_locales
  fix s :: exit_registry and u ip :: string
  assume ok: "dict_ok s"
  show "dict_ok (fst (claim_result v6net ttl now u ip s))" using claim_ok [OF ok] by (simp add: claim_result_def)
  let ?valid = "normalize_exit_ip v6net ip \<noteq> [] \<and> py_strip u \<noteq> []"
  show "exit_holder v6net now (fst (claim_result v6net ttl now u ip s)) ip = Some (py_strip u)"
    if g: "snd (claim_result v6net ttl now u ip s)"
  proof -
    have ?valid using g claim_granted_valid by (simp add: claim_result_def)
    then show ?thesis using g by (simp add: claim_result_def claim_lookup Let_def exit_holder_def)
  qed
  show "\<not> snd (claim_result v6net ttl now u ip s)"
    if "exit_holder v6net now s ip = Some v" "v \<noteq> py_strip u" for v
  proof (cases ?valid)
    case True
    with that show ?thesis
      by (auto simp: claim_result_def claim_lookup exit_holder_def get_prune [OF ok] held_by_def
          split: option.splits if_splits)
  next
    case False
    then have "\<not> ec_claimed (snd (claim_exit_ip v6net ip u ttl now s))" using claim_invalid by blast
    then show ?thesis by (simp add: claim_result_def)
  qed
  show "exit_holder v6net now (fst (claim_result v6net ttl now u ip s)) ip' = Some v"
    if "exit_holder v6net now s ip' = Some v" for ip' v
  proof (cases ?valid)
    case True
    with that show ?thesis
      by (auto simp: claim_result_def claim_lookup Let_def exit_holder_def get_prune [OF ok] held_by_def
          split: option.splits if_splits)
  next
    case False
    then have "fst (claim_exit_ip v6net ip u ttl now s) = s" using claim_invalid by blast
    with that show ?thesis by (simp add: claim_result_def)
  qed
qed

section \<open>Runs\<close>

datatype exit_event =
    ExitClaim string string rat time
  | ExitRelease string rat time
  | ExitRefresh string rat time
  | ExitSnapshot time

fun exit_step :: "(string \<Rightarrow> string option) \<Rightarrow> exit_event \<Rightarrow> exit_registry \<Rightarrow> exit_registry" where
  "exit_step v6net (ExitClaim ip u ttl now) s = fst (claim_exit_ip v6net ip u ttl now s)"
| "exit_step v6net (ExitRelease u c now) s = fst (release_owner u c now s)"
| "exit_step v6net (ExitRefresh u ttl now) s = fst (refresh_owner u ttl now s)"
| "exit_step v6net (ExitSnapshot now) s = fst (exit_snapshot now s)"

definition exit_run :: "(string \<Rightarrow> string option) \<Rightarrow> exit_event list \<Rightarrow> exit_registry \<Rightarrow> exit_registry" where
  "exit_run v6net evs s = fold (exit_step v6net) evs s"

lemma keys_map_values: "map fst (map (\<lambda>(k, l). (k, f l)) s) = map fst s"
  by (induction s) auto

lemma dict_ok_map_values: "dict_ok s \<Longrightarrow> dict_ok (map (\<lambda>(k, l). (k, f l)) s)"
  unfolding keys_map_values .

lemma exit_step_ok:
  assumes "dict_ok s"
  shows "dict_ok (exit_step v6net e s)"
proof (cases e)
  case (ExitClaim ip u ttl now)
  then show ?thesis using claim_ok [OF assms] by simp
next
  case (ExitRelease u c now)
  let ?u = "py_strip u"
  have "dict_ok (map (\<lambda>(k, l). (k, if held_by ?u l then cooldown_lease ?u (now + max c 0) else l)) (prune now s))"
    by (rule dict_ok_map_values) (rule prune_ok [OF assms])
  then show ?thesis using assms dict_ok_filter [OF prune_ok [OF assms]]
    by (simp del: map_map add: ExitRelease release_owner_def Let_def)
next
  case (ExitRefresh u ttl now)
  have "dict_ok (map (\<lambda>(k, l). (k, if held_by (py_strip u) l then l\<lparr>el_expires_at := now + max ttl 1\<rparr> else l)) (prune now s))"
    by (rule dict_ok_map_values) (rule prune_ok [OF assms])
  then show ?thesis using assms by (simp del: map_map add: ExitRefresh refresh_owner_def Let_def)
next
  case (ExitSnapshot now)
  then show ?thesis using prune_ok [OF assms] by (simp add: exit_snapshot_def Let_def)
qed

interpretation exit_registry: invariant_machine "exit_step v6net" dict_ok for v6net
  by unfold_locales (rule exit_step_ok)

text \<open>
  \<open>u\<close> has the address \<open>key\<close> until \<open>d\<close> at least; nothing takes it away before \<open>d\<close> but
  its own release, or its own claim or refresh with a shorter time to live.
\<close>

definition exit_held :: "string \<Rightarrow> string \<Rightarrow> time \<Rightarrow> exit_registry \<Rightarrow> bool" where
  "exit_held key u d s \<longleftrightarrow> dict_ok s \<and>
    (case dict_get s key of None \<Rightarrow> False | Some l \<Rightarrow> held_by u l \<and> d \<le> el_expires_at l)"

fun leaves_held :: "string \<Rightarrow> time \<Rightarrow> exit_event \<Rightarrow> bool" where
  "leaves_held u d (ExitClaim ip w ttl now) \<longleftrightarrow> now < d \<and> (py_strip w = u \<longrightarrow> d \<le> now + max ttl 1)"
| "leaves_held u d (ExitRefresh w ttl now) \<longleftrightarrow> now < d \<and> (py_strip w = u \<longrightarrow> d \<le> now + max ttl 1)"
| "leaves_held u d (ExitRelease w c now) \<longleftrightarrow> now < d \<and> py_strip w \<noteq> u"
| "leaves_held u d (ExitSnapshot now) \<longleftrightarrow> now < d"

lemma exit_heldI:
  "dict_ok s \<Longrightarrow> dict_get s key = Some l \<Longrightarrow> held_by u l \<Longrightarrow> d \<le> el_expires_at l \<Longrightarrow> exit_held key u d s"
  by (simp add: exit_held_def)

lemma exit_heldE:
  assumes "exit_held key u d s"
  obtains l where "dict_ok s" "dict_get s key = Some l" "held_by u l" "d \<le> el_expires_at l"
  using assms that by (cases "dict_get s key") (simp_all add: exit_held_def)

lemma held_prune: "exit_held key u d s \<Longrightarrow> now < d \<Longrightarrow> exit_held key u d (prune now s)"
proof (erule exit_heldE)
  fix l assume l: "dict_ok s" "dict_get s key = Some l" "held_by u l" "d \<le> el_expires_at l" "now < d"
  then have "dict_get (prune now s) key = Some l" by (simp add: get_prune [OF l(1)])
  then show ?thesis using exit_heldI [OF prune_ok [OF l(1)]] l by blast
qed

lemma held_claim:
  assumes h: "exit_held key u d s" and l: "leaves_held u d (ExitClaim ip w ttl now)"
  shows "exit_held key u d (fst (claim_exit_ip v6net ip w ttl now s))"
proof (cases "normalize_exit_ip v6net ip \<noteq> [] \<and> py_strip w \<noteq> []")
  case True
  have "exit_held key u d (prune now s)" using held_prune [OF h] l by simp
  then show ?thesis
  proof (rule exit_heldE)
    fix x assume x: "dict_ok (prune now s)" "dict_get (prune now s) key = Some x" "held_by u x" "d \<le> el_expires_at x"
    show ?thesis
      using x l True dict_ok_set [OF x(1)] by (auto simp: claim_lookup Let_def exit_held_def held_by_def)
  qed
next
  case False
  then show ?thesis using h claim_invalid by metis
qed

lemma held_map_values:
  assumes "exit_held key u d s" and "\<And>l. held_by u l \<Longrightarrow> d \<le> el_expires_at l \<Longrightarrow> held_by u (f l) \<and> d \<le> el_expires_at (f l)"
  shows "exit_held key u d (map (\<lambda>(k, l). (k, f l)) s)"
proof (rule exit_heldE [OF assms(1)])
  fix l assume l: "dict_ok s" "dict_get s key = Some l" "held_by u l" "d \<le> el_expires_at l"
  have "dict_get (map (\<lambda>(k, l). (k, f l)) s) key = Some (f l)" by (simp add: get_map_values l)
  from exit_heldI [OF dict_ok_map_values [OF l(1)] this] show ?thesis using assms(2) l(3,4) by blast
qed

lemma held_release:
  assumes h: "exit_held key u d s" and l: "leaves_held u d (ExitRelease w c now)"
  shows "exit_held key u d (fst (release_owner w c now s))"
proof -
  have p: "exit_held key u d (prune now s)" using held_prune [OF h] l by simp
  have n: "held_by u x \<Longrightarrow> \<not> held_by (py_strip w) x" for x using l by (auto simp: held_by_def)
  have "exit_held key u d (filter (\<lambda>(_, x). \<not> held_by (py_strip w) x) (prune now s))"
  proof (rule exit_heldE [OF p])
    fix x assume x: "dict_ok (prune now s)" "dict_get (prune now s) key = Some x" "held_by u x" "d \<le> el_expires_at x"
    have "dict_get (filter (\<lambda>(_, x). \<not> held_by (py_strip w) x) (prune now s)) key = Some x"
      using n [OF x(3)] by (simp add: dict_get_filter [OF x(1)] x(2))
    from exit_heldI [OF dict_ok_filter [OF x(1)] this] show ?thesis using x(3,4) by blast
  qed
  moreover have "exit_held key u d (map (\<lambda>(k, x). (k, if held_by (py_strip w) x then y else x)) (prune now s))" for y
    using n by (intro held_map_values [OF p]) auto
  ultimately show ?thesis using h by (simp add: release_owner_def Let_def)
qed

lemma held_refresh:
  assumes h: "exit_held key u d s" and l: "leaves_held u d (ExitRefresh w ttl now)"
  shows "exit_held key u d (fst (refresh_owner w ttl now s))"
proof -
  have p: "exit_held key u d (prune now s)" using held_prune [OF h] l by simp
  have "exit_held key u d (map (\<lambda>(k, x). (k, if held_by (py_strip w) x then x\<lparr>el_expires_at := now + max ttl 1\<rparr> else x)) (prune now s))"
    using l by (intro held_map_values [OF p]) (auto simp: held_by_def)
  then show ?thesis using h by (simp add: refresh_owner_def Let_def)
qed

lemma held_run:
  "exit_held key u d s \<Longrightarrow> list_all (leaves_held u d) evs \<Longrightarrow> exit_held key u d (exit_run v6net evs s)"
proof (induction evs arbitrary: s)
  case (Cons e evs)
  then have "exit_held key u d (exit_step v6net e s)"
    using held_claim held_release held_refresh held_prune [OF Cons.prems(1)]
    by (cases e) (simp_all add: exit_snapshot_def Let_def)
  then show ?case using Cons by (simp add: exit_run_def)
qed (simp add: exit_run_def)

section \<open>Properties\<close>

text \<open>
  C30. Two attempts never leave through one address: once an owner was granted an
  address for a time, every claim of another owner for an address of the same identity
  is refused as long as this time has not run out, whatever was claimed, released,
  refreshed or looked at in between and at whatever times, unless the owner itself
  released its addresses or asked for a shorter time.
\<close>

theorem one_task_per_exit:
  assumes "s = exit_run v6net before []"
    and "ec_claimed (snd (claim_exit_ip v6net ip u ttl t0 s))" and "d \<le> t0 + max ttl 1"
    and "list_all (leaves_held (py_strip u) d) evs"
    and "now < d" and "py_strip w \<noteq> py_strip u" and "normalize_exit_ip v6net ip' = normalize_exit_ip v6net ip"
  shows "\<not> ec_claimed (snd (claim_exit_ip v6net ip' w ttl' now
      (exit_run v6net evs (fst (claim_exit_ip v6net ip u ttl t0 s)))))"
proof -
  have ok: "dict_ok s" using exit_registry.run_keeps [of "[]" v6net before] assms(1) by (simp add: exit_run_def)
  have v: "normalize_exit_ip v6net ip \<noteq> []" "py_strip u \<noteq> []" using claim_granted_valid [OF assms(2)] by auto
  have "exit_held (normalize_exit_ip v6net ip) (py_strip u) d (fst (claim_exit_ip v6net ip u ttl t0 s))"
  proof (rule exit_heldI [OF claim_ok [OF ok]])
    show "dict_get (fst (claim_exit_ip v6net ip u ttl t0 s)) (normalize_exit_ip v6net ip)
        = Some \<lparr>el_owner = py_strip u, el_state = LeaseActive, el_expires_at = t0 + max ttl 1\<rparr>"
      using assms(2) unfolding claim_lookup [OF v] Let_def by simp
  qed (use assms(3) in \<open>simp_all add: held_by_def\<close>)
  from held_run [OF this assms(4), of v6net]
  have h: "exit_held (normalize_exit_ip v6net ip') (py_strip u) d (exit_run v6net evs (fst (claim_exit_ip v6net ip u ttl t0 s)))"
    (is "exit_held _ _ _ ?s") using assms(7) by simp
  then have "exit_holder v6net now ?s ip' = Some (py_strip u)" "dict_ok ?s"
    using assms(5) by (auto simp: exit_holder_def held_by_def elim!: exit_heldE)
  then show ?thesis using exit_ips.held_refused [of ?s v6net now ip' "py_strip u" w ttl'] assms(6)
    by (simp add: claim_result_def)
qed

theorem one_task_per_exit_witness:
  "\<not> ec_claimed (snd (claim_exit_ip (\<lambda>_. None) ''1.2.3.4 '' ''t2'' 9 64
      (exit_run (\<lambda>_. None) [ExitClaim ''1.2.3.5'' ''t3'' 9 50, ExitRelease ''t3'' 0 55, ExitRefresh '' t1'' 60 56]
        (fst (claim_exit_ip (\<lambda>_. None) ''1.2.3.4'' ''t1 '' 60 5 (exit_run (\<lambda>_. None) [ExitClaim ''1.2.3.4'' ''t0'' 1 1] []))))))"
proof (rule one_task_per_exit [OF refl])
  show "ec_claimed (snd (claim_exit_ip (\<lambda>_. None) ''1.2.3.4'' ''t1 '' 60 5
      (exit_run (\<lambda>_. None) [ExitClaim ''1.2.3.4'' ''t0'' 1 1] [])))" by code_simp
  show "list_all (leaves_held (py_strip ''t1 '') 65)
      [ExitClaim ''1.2.3.5'' ''t3'' 9 50, ExitRelease ''t3'' 0 55, ExitRefresh '' t1'' 60 56]" by code_simp
  show "py_strip ''t2'' \<noteq> py_strip ''t1 ''" by code_simp
  show "normalize_exit_ip (\<lambda>_. None) ''1.2.3.4 '' = normalize_exit_ip (\<lambda>_. None) ''1.2.3.4''" by code_simp
qed simp_all

text \<open>
  The cooldown of a released address is honoured by everybody: until it is over
  no task gets the address, the one that used it included, and from then on the
  next task gets it.
\<close>

lemma released_exit_cools_down:
  assumes "dict_ok s" and "exit_holder v6net now s ip = Some (py_strip u)" and "py_strip u \<noteq> []"
    and "dict_get s (normalize_exit_ip v6net ip) = Some l" and "el_state l = LeaseActive"
    and "0 < c" and "py_strip w \<noteq> []" and "normalize_exit_ip v6net ip \<noteq> []"
  shows "ec_claimed (snd (claim_exit_ip v6net ip w ttl later (fst (release_owner u c now s)))) \<longleftrightarrow> now + c \<le> later"
proof -
  let ?key = "normalize_exit_ip v6net ip" and ?u = "py_strip u"
  have l: "el_owner l = ?u" "\<not> el_expires_at l \<le> now"
    using assms(2,4) by (auto simp: exit_holder_def split: if_splits)
  let ?f = "\<lambda>l. if held_by ?u l then cooldown_lease ?u (now + c) else l"
  have r: "fst (release_owner u c now s) = map (\<lambda>(k, l). (k, ?f l)) (prune now s)"
    using assms(3,6) by (simp add: release_owner_def Let_def)
  have g: "dict_get (fst (release_owner u c now s)) ?key = Some (cooldown_lease ?u (now + c))"
    unfolding r get_map_values using assms(4,5) l
    by (simp add: get_prune [OF assms(1)] held_by_def)
  have ok: "dict_ok (fst (release_owner u c now s))"
    unfolding r by (rule dict_ok_map_values) (rule prune_ok [OF assms(1)])
  show ?thesis
    by (simp add: claim_lookup(2) [OF assms(8,7)] get_prune [OF ok] g) (simp add: cooldown_lease_def held_by_def)
qed

end
