(* ===== verification/OtpBudget.thy ===== *)
theory OtpBudget
  imports Prelude
begin

text \<open>
  The budget for waiting for one-time codes (\<open>services/chatgpt_core/otp_budget.py\<close>).
  The clock of the machine is an argument: \<open>t0\<close> is what it shows when the budget is
  started and \<open>now\<close> what it shows when the remaining time is computed.
\<close>

record otp_budget =
  ob_total_seconds :: int
  ob_started_at :: "time option"
  ob_deadline :: "time option"

record otp_wait_plan =
  wp_timeout_seconds :: int
  wp_requested_seconds :: int
  wp_remaining_seconds :: "int option"
  wp_exhausted :: bool

definition clamped :: "otp_wait_plan \<Rightarrow> bool" where
  "clamped p \<longleftrightarrow> (case wp_remaining_seconds p of None \<Rightarrow> False
                   | Some _ \<Rightarrow> wp_timeout_seconds p < wp_requested_seconds p)"

text \<open>\<open>None\<close> stands for a total that \<open>int\<close> cannot read.\<close>

definition new_otp_budget :: "int option \<Rightarrow> otp_budget" where
  "new_otp_budget total_s =
    \<lparr>ob_total_seconds = max (case total_s of None \<Rightarrow> 0 | Some n \<Rightarrow> n) 0, ob_started_at = None, ob_deadline = None\<rparr>"

definition budget_active :: "otp_budget \<Rightarrow> bool" where
  "budget_active b \<longleftrightarrow> ob_total_seconds b > 0"

definition budget_started :: "otp_budget \<Rightarrow> bool" where
  "budget_started b \<longleftrightarrow> ob_started_at b \<noteq> None"

definition ensure_started :: "time \<Rightarrow> otp_budget \<Rightarrow> otp_budget" where
  "ensure_started t0 b =
    (if \<not> budget_active b \<or> ob_started_at b \<noteq> None then b
     else b\<lparr>ob_started_at := Some t0, ob_deadline := Some (t0 + of_int (ob_total_seconds b))\<rparr>)"

definition remaining_seconds :: "time \<Rightarrow> time \<Rightarrow> otp_budget \<Rightarrow> otp_budget \<times> int option" where
  "remaining_seconds t0 now b =
    (if \<not> budget_active b then (b, None)
     else (let b1 = ensure_started t0 b
           in (b1, case ob_deadline b1 of None \<Rightarrow> None | Some d \<Rightarrow> Some (max 0 \<lceil>d - now\<rceil>))))"

definition is_exhausted :: "time \<Rightarrow> time \<Rightarrow> otp_budget \<Rightarrow> otp_budget \<times> bool" where
  "is_exhausted t0 now b =
    (case remaining_seconds t0 now b of
       (b1, None) \<Rightarrow> (b1, False) | (b1, Some r) \<Rightarrow> (b1, r \<le> 0))"

definition plan_wait :: "int option \<Rightarrow> time \<Rightarrow> time \<Rightarrow> otp_budget \<Rightarrow> otp_budget \<times> otp_wait_plan" where
  "plan_wait requested_timeout t0 now b =
    (let requested = max (case requested_timeout of None \<Rightarrow> 0 | Some n \<Rightarrow> n) 1
     in case remaining_seconds t0 now b of
          (b1, None) \<Rightarrow> (b1, \<lparr>wp_timeout_seconds = requested, wp_requested_seconds = requested,
                            wp_remaining_seconds = None, wp_exhausted = False\<rparr>)
        | (b1, Some remaining) \<Rightarrow>
            (if remaining \<le> 0
             then (b1, \<lparr>wp_timeout_seconds = 0, wp_requested_seconds = requested,
                        wp_remaining_seconds = Some 0, wp_exhausted = True\<rparr>)
             else (b1, \<lparr>wp_timeout_seconds = max 1 (min requested remaining), wp_requested_seconds = requested,
                        wp_remaining_seconds = Some remaining, wp_exhausted = False\<rparr>)))"

text \<open>
  A client that waits again and again: each round plans at time \<open>now\<close> and waits the
  time \<open>w\<close>, at most what the plan grants. The result is the budget and the time
  that was waited in all.
\<close>

fun wait_rounds :: "(int \<times> time \<times> time \<times> rat) list \<Rightarrow> otp_budget \<Rightarrow> rat \<Rightarrow> otp_budget \<times> rat" where
  "wait_rounds [] b waited = (b, waited)"
| "wait_rounds ((req, t0, now, w) # rest) b waited =
     (case plan_wait (Some req) t0 now b of
        (b', p) \<Rightarrow> wait_rounds rest b' (waited + max 0 (min w (of_int (wp_timeout_seconds p)))))"

text \<open>The rounds follow each other: a round starts no earlier than the one before ends.\<close>

fun rounds_ok :: "time \<Rightarrow> (int \<times> time \<times> time \<times> rat) list \<Rightarrow> otp_budget \<Rightarrow> bool" where
  "rounds_ok t [] b = True"
| "rounds_ok t ((req, t0, now, w) # rest) b =
     (t \<le> t0 \<and> t0 \<le> now \<and>
      (case plan_wait (Some req) t0 now b of
         (b', p) \<Rightarrow> rounds_ok (now + max 0 (min w (of_int (wp_timeout_seconds p)))) rest b'))"

lemma plan_wait_started:
  assumes "budget_active b" and "ob_started_at b = Some s" and "ob_deadline b = Some d"
  shows "fst (plan_wait r t0 now b) = b"
    and "of_int (wp_timeout_seconds (snd (plan_wait r t0 now b))) < max 0 (d - now) + 1"
    and "d \<le> now \<Longrightarrow> wp_timeout_seconds (snd (plan_wait r t0 now b)) = 0"
    and "d \<le> now \<Longrightarrow> wp_exhausted (snd (plan_wait r t0 now b))"
proof -
  have rem: "remaining_seconds t0 now b = (b, Some (max 0 \<lceil>d - now\<rceil>))"
    using assms by (simp add: remaining_seconds_def ensure_started_def)
  show "fst (plan_wait r t0 now b) = b" by (simp add: plan_wait_def rem Let_def)
  show "d \<le> now \<Longrightarrow> wp_timeout_seconds (snd (plan_wait r t0 now b)) = 0"
    "d \<le> now \<Longrightarrow> wp_exhausted (snd (plan_wait r t0 now b))"
    by (simp_all add: plan_wait_def rem Let_def)
  let ?w = "wp_timeout_seconds (snd (plan_wait r t0 now b))"
  have c: "of_int \<lceil>d - now\<rceil> < d - now + 1" by linarith
  have w: "?w \<le> max 0 \<lceil>d - now\<rceil>"
    by (auto simp: plan_wait_def rem Let_def)
  show "of_int ?w < max 0 (d - now) + 1"
  proof (cases "0 \<le> \<lceil>d - now\<rceil>")
    case True
    with w have "?w \<le> \<lceil>d - now\<rceil>" by simp
    then have "(of_int ?w :: rat) \<le> of_int \<lceil>d - now\<rceil>" by (simp only: of_int_le_iff)
    with c show ?thesis by linarith
  next
    case False
    with w have "?w \<le> 0" by simp
    then have "(of_int ?w :: rat) \<le> 0" by simp
    then show ?thesis by linarith
  qed
qed

lemma wait_rounds_bound:
  assumes "budget_active b" and "ob_started_at b = Some s" and "ob_deadline b = Some d"
    and "rounds_ok t rounds b" and "waited \<le> t - s" and "waited < d - s + 1"
  shows "snd (wait_rounds rounds b waited) < d - s + 1"
  using assms(4-6)
proof (induction rounds arbitrary: t waited)
  case (Cons x rounds)
  obtain req t0 now w where x: "x = (req, t0, now, w)" by (cases x)
  note p = plan_wait_started [OF assms(1-3), where r = "Some req" and ?t0.0 = t0 and now = now]
  obtain b' q where q: "plan_wait (Some req) t0 now b = (b', q)" by fastforce
  with p(1) have b': "b' = b" by simp
  let ?w = "max 0 (min w (of_int (wp_timeout_seconds q)))"
  have le: "t \<le> now" using Cons.prems(1) x by auto
  have r: "rounds_ok (now + ?w) rounds b" using Cons.prems(1) x q b' by simp
  have "waited + ?w \<le> now + ?w - s" using Cons.prems(2) le by linarith
  moreover have "waited + ?w < d - s + 1"
  proof (cases "d \<le> now")
    case True
    with p(3) q have "wp_timeout_seconds q = 0" by simp
    then have "?w = 0" by auto
    with Cons.prems(3) show ?thesis by linarith
  next
    case False
    with p(2) q have "?w < d - now + 1" by auto
    with Cons.prems(2) le show ?thesis by linarith
  qed
  ultimately show ?case using Cons.IH [OF r] by (simp add: x q b')
qed simp

section \<open>Properties\<close>

text \<open>
  C35. The budget bounds the whole wait: a client that keeps planning and waiting, each
  round after the one before, waits in all less than the total of the budget plus
  one second (the remaining time is rounded up), and once the deadline has passed
  every further plan is exhausted and grants nothing.
\<close>

theorem budget_bounds_total_wait:
  assumes "total_s > 0" and "rounds_ok t0 ((req, t0, now, w) # rounds) (new_otp_budget (Some total_s))"
  shows "snd (wait_rounds ((req, t0, now, w) # rounds) (new_otp_budget (Some total_s)) 0) < of_int total_s + 1
    \<and> (t0 + of_int total_s \<le> later \<longrightarrow>
         (let p = snd (plan_wait r u later (fst (plan_wait (Some req) t0 now (new_otp_budget (Some total_s)))))
          in wp_timeout_seconds p = 0 \<and> wp_exhausted p))"
proof -
  let ?b = "new_otp_budget (Some total_s)"
  let ?b1 = "ensure_started t0 ?b"
  have act: "budget_active ?b" "budget_active ?b1" "ob_started_at ?b1 = Some t0"
    "ob_deadline ?b1 = Some (t0 + of_int total_s)"
    using assms(1) by (simp_all add: budget_active_def new_otp_budget_def ensure_started_def)
  have same: "remaining_seconds t0 now ?b = remaining_seconds t0 now ?b1"
    using act assms(1)
    by (simp add: remaining_seconds_def ensure_started_def budget_active_def new_otp_budget_def)
  then have first: "plan_wait (Some req) t0 now ?b = plan_wait (Some req) t0 now ?b1"
    by (simp add: plan_wait_def)
  have "rounds_ok t0 ((req, t0, now, w) # rounds) ?b1"
    using assms(2) by (simp add: first)
  then have "snd (wait_rounds ((req, t0, now, w) # rounds) ?b1 0) < t0 + of_int total_s - t0 + 1"
    using assms(1) by (intro wait_rounds_bound [OF act(2-4)]) auto
  moreover have "fst (plan_wait (Some req) t0 now ?b) = ?b1"
    unfolding first by (rule plan_wait_started(1) [OF act(2-4)])
  ultimately show ?thesis
    using plan_wait_started(3,4) [OF act(2-4)] by (simp add: first Let_def)
qed

theorem budget_bounds_total_wait_witness:
  "snd (wait_rounds ((60, 1, 1, 60) # [(60, 61, 61, 60), (60, 91, 91, 5)]) (new_otp_budget (Some 90)) 0) < 91
    \<and> wp_exhausted (snd (plan_wait None 95 95 (fst (plan_wait (Some 60) 1 1 (new_otp_budget (Some 90))))))"
proof -
  have "rounds_ok 1 ((60, 1, 1, 60) # [(60, 61, 61, 60), (60, 91, 91, 5)]) (new_otp_budget (Some 90))"
    by (simp add: plan_wait_def remaining_seconds_def ensure_started_def budget_active_def
        new_otp_budget_def Let_def)
  from budget_bounds_total_wait [where later = 95 and r = None and u = 95, OF _ this] show ?thesis by (simp add: Let_def)
qed

end
