(* ===== verification/DeliveryAccess.thy ===== *)
theory DeliveryAccess
  imports Rows
begin

text \<open>
  Access to the delivery of accounts by card codes
  (\<open>services/delivery_cards/service.py\<close>, first part): the settings, the codes and
  their hashes, the bearer token of the external interface, and the rate limit with
  its block after repeated failures. \<open>sha\<close> is the hexadecimal SHA-256 of a text; the
  configuration is a dict of texts; each call reads the clock once.
\<close>

section \<open>Settings\<close>

type_synonym config = "(string, string) dict"

definition config_get :: "config \<Rightarrow> string \<Rightarrow> string \<Rightarrow> string" where
  "config_get cfg key default_value = (case dict_get cfg key of None \<Rightarrow> default_value | Some v \<Rightarrow> v)"

definition delivery_config_keys :: "(string, string) dict" where
  "delivery_config_keys =
    [(''delivery_cards_api_enabled'', ''false''),
     (''delivery_cards_api_rate_limit_per_minute'', ''60''),
     (''delivery_cards_api_failed_block_threshold'', ''12''),
     (''delivery_cards_api_failed_block_minutes'', ''15''),
     (''delivery_cards_api_failure_mode'', ''safe''),
     (''delivery_cards_allow_refetch_default'', ''true''),
     (''delivery_cards_max_refetch_count_default'', ''0''),
     (''delivery_cards_plus_sort_policy'', ''earliest_expiry''),
     (''delivery_cards_free_sort_policy'', ''oldest_created'')]"

text \<open>A setting read with its default from the table.\<close>

definition setting :: "config \<Rightarrow> string \<Rightarrow> string" where
  "setting cfg key =
    config_get cfg key (case dict_get delivery_config_keys key of None \<Rightarrow> [] | Some d \<Rightarrow> d)"

definition parse_bool :: "string \<Rightarrow> bool \<Rightarrow> bool" where
  "parse_bool v default_value =
    (let t = py_lower (py_strip v)
     in if t = [] then default_value
        else if t \<in> {''1'', ''true'', ''yes'', ''on'', ''enabled''} then True
        else if t \<in> {''0'', ''false'', ''no'', ''off'', ''disabled''} then False
        else default_value)"

definition safe_int :: "string \<Rightarrow> int \<Rightarrow> int" where
  "safe_int v default_value = (case parse_int v of None \<Rightarrow> default_value | Some i \<Rightarrow> i)"

record delivery_settings =
  ds_values :: config
  ds_api_enabled :: bool
  ds_token_configured :: bool
  ds_token_last4 :: string
  ds_rate_limit_per_minute :: int
  ds_failed_block_threshold :: int
  ds_failed_block_minutes :: int
  ds_failure_mode :: string

definition token_hash_key :: string where
  "token_hash_key = ''delivery_cards_api_token_hash''"

definition get_delivery_settings :: "config \<Rightarrow> delivery_settings" where
  "get_delivery_settings cfg =
    \<lparr>ds_values = map (\<lambda>(k, d). (k, config_get cfg k d)) delivery_config_keys,
     ds_api_enabled = parse_bool (setting cfg ''delivery_cards_api_enabled'') False,
     ds_token_configured = (config_get cfg token_hash_key [] \<noteq> []),
     ds_token_last4 = config_get cfg ''delivery_cards_api_token_last4'' [],
     ds_rate_limit_per_minute = safe_int (setting cfg ''delivery_cards_api_rate_limit_per_minute'') 60,
     ds_failed_block_threshold = safe_int (setting cfg ''delivery_cards_api_failed_block_threshold'') 12,
     ds_failed_block_minutes = safe_int (setting cfg ''delivery_cards_api_failed_block_minutes'') 15,
     ds_failure_mode = or_else (setting cfg ''delivery_cards_api_failure_mode'') ''safe''\<rparr>"

section \<open>Codes and secrets\<close>

definition code_blank :: "char \<Rightarrow> bool" where
  "code_blank c \<longleftrightarrow> of_char c \<in> {32, 9, 10, 13 :: nat}"

definition normalize_code :: "string \<Rightarrow> string" where
  "normalize_code v = filter (\<lambda>c. \<not> code_blank c) (py_upper (py_strip v))"

definition code_prefix :: "string \<Rightarrow> string" where
  "code_prefix v =
    (let n = normalize_code v
     in if CHR ''-'' \<in> set n then hd (split_on (CHR ''-'') n) else take 12 (filter is_alpha n))"

definition mask_code :: "string \<Rightarrow> string" where
  "mask_code v =
    (let n = normalize_code v; parts = split_on (CHR ''-'') n
     in if n = [] then []
        else if length parts \<ge> 3
        then join_with ''-'' [parts ! 0, parts ! 1, ''****'', last parts]
        else if length n \<le> 10 then take 2 n @ ''****'' @ drop (length n - 2) n
        else take 8 n @ ''****'' @ drop (length n - 4) n)"

text \<open>\<open>_hash_secret\<close>: \<open>fresh\<close> is the secret drawn when the configuration has none.\<close>

definition secret_key :: string where
  "secret_key = ''delivery_cards_code_hash_secret''"

definition ensure_secret :: "string \<Rightarrow> config \<Rightarrow> config" where
  "ensure_secret fresh cfg =
    (if config_get cfg secret_key [] = [] then dict_set secret_key fresh cfg else cfg)"

definition hash_code :: "(string \<Rightarrow> string) \<Rightarrow> config \<Rightarrow> string \<Rightarrow> string" where
  "hash_code sha cfg v = sha (config_get cfg secret_key [] @ '':'' @ normalize_code v)"

definition hash_token :: "(string \<Rightarrow> string) \<Rightarrow> config \<Rightarrow> string \<Rightarrow> string" where
  "hash_token sha cfg v =
    (let token = py_strip v
     in if token = [] then []
        else sha (''delivery-token:'' @ config_get cfg secret_key [] @ '':'' @ token))"

text \<open>\<open>groups\<close> are the four random groups, \<open>random_part\<close> the random part of the token.\<close>

definition generate_code :: "string \<Rightarrow> string list \<Rightarrow> string" where
  "generate_code prefix groups = py_upper (py_strip prefix) @ ''-'' @ join_with ''-'' groups"

definition rotate_api_token :: "(string \<Rightarrow> string) \<Rightarrow> string \<Rightarrow> string \<Rightarrow> config \<Rightarrow> config \<times> string \<times> string" where
  "rotate_api_token sha fresh random_part cfg =
    (let token = ''dc_live_'' @ random_part;
         last4 = drop (length token - 4) token;
         cfg1 = ensure_secret fresh cfg
     in (dict_merge cfg1 [(token_hash_key, hash_token sha cfg1 token),
           (''delivery_cards_api_token_last4'', last4)], token, last4))"

section \<open>Tokens\<close>

datatype delivery_message =
    MsgRateBlocked int
  | MsgRateLimit
  | MsgApiDisabled
  | MsgTokenNotConfigured
  | MsgTokenInvalid
  | MsgCodeEmpty
  | MsgCardUnavailable
  | MsgSkuDisabled
  | MsgCardDisabled
  | MsgCardLocked
  | MsgCardExpired
  | MsgReplay
  | MsgRefetchForbidden
  | MsgRefetchLimit
  | MsgRefetched
  | MsgPoolEmpty
  | MsgPoolEmptyFor string
  | MsgDuplicateMarked
  | MsgDuplicateRecord
  | MsgNoDuplicate
  | MsgFirstRedeem
  | MsgEnabled
  | MsgEnabledBound
  | MsgRepaired
  | MsgSkuMissing
  | MsgStockShort string int int int
  | MsgCodeGeneration
  | MsgCodeRequired
  | MsgCardMissing
  | MsgText string

record redeem_error =
  de_code :: string
  de_message :: delivery_message
  de_action :: string

definition redeem_error :: "string \<Rightarrow> delivery_message \<Rightarrow> string \<Rightarrow> redeem_error" where
  "redeem_error code msg action = \<lparr>de_code = code, de_message = msg, de_action = action\<rparr>"

definition extract_bearer_token :: "string \<Rightarrow> string" where
  "extract_bearer_token authorization =
    (let token = py_strip authorization
     in if py_startswith (py_lower token) ''bearer '' then py_strip (drop 7 token) else token)"

definition rate_limit_identity :: "(string \<Rightarrow> string) \<Rightarrow> config \<Rightarrow> string \<Rightarrow> string \<Rightarrow> string \<Rightarrow> string" where
  "rate_limit_identity sha cfg authorization client_ip consumer =
    (let token = extract_bearer_token authorization;
         fingerprint = (if token = [] then ''no-token'' else take 16 (hash_token sha cfg token))
     in take 120 (py_strip (or_else client_ip ''-'')) @ '':'' @ take 80 (py_strip consumer) @ '':'' @ fingerprint)"

definition verify_candidate_api_token :: "(string \<Rightarrow> string) \<Rightarrow> config \<Rightarrow> string \<Rightarrow> bool" where
  "verify_candidate_api_token sha cfg token =
    (let expected = py_strip (config_get cfg token_hash_key []); candidate = extract_bearer_token token
     in expected \<noteq> [] \<and> candidate \<noteq> [] \<and> hash_token sha cfg candidate = expected)"

definition verify_api_token :: "(string \<Rightarrow> string) \<Rightarrow> config \<Rightarrow> string \<Rightarrow> redeem_error + unit" where
  "verify_api_token sha cfg authorization =
    (let expected = py_strip (config_get cfg token_hash_key []); token = extract_bearer_token authorization in
     if \<not> ds_api_enabled (get_delivery_settings cfg)
     then Inl (redeem_error ''API_DISABLED'' MsgApiDisabled ''auth_failed'')
     else if expected = [] then Inl (redeem_error ''UNAUTHORIZED'' MsgTokenNotConfigured ''auth_failed'')
     else if token = [] \<or> hash_token sha cfg token \<noteq> expected
     then Inl (redeem_error ''UNAUTHORIZED'' MsgTokenInvalid ''auth_failed'')
     else Inr ())"

definition public_error_code :: "config \<Rightarrow> string \<Rightarrow> string" where
  "public_error_code cfg code =
    (let mode = py_lower (py_strip (or_else (config_get cfg ''delivery_cards_api_failure_mode'' ''safe'') ''safe''))
     in if mode \<noteq> ''debug'' \<and> code \<in> {''CARD_DISABLED'', ''CARD_EXPIRED'', ''CARD_NOT_AVAILABLE''}
        then ''CARD_NOT_AVAILABLE'' else code)"

section \<open>The rate limit\<close>

text \<open>An entry of \<open>_RATE_STATE\<close>; a field that was never written reads as zero.\<close>

record rate_item =
  ri_blocked_until :: time
  ri_window_start :: time
  ri_count :: int
  ri_failed_window_start :: time
  ri_failed_count :: int

type_synonym rate_state = "(string, rate_item) dict"

definition new_rate_item :: rate_item where
  "new_rate_item = \<lparr>ri_blocked_until = 0, ri_window_start = 0, ri_count = 0,
     ri_failed_window_start = 0, ri_failed_count = 0\<rparr>"

definition rate_item_of :: "string \<Rightarrow> rate_state \<Rightarrow> rate_item" where
  "rate_item_of identity st = (case dict_get st identity of None \<Rightarrow> new_rate_item | Some i \<Rightarrow> i)"

definition check_item :: "int \<Rightarrow> time \<Rightarrow> rate_item \<Rightarrow> rate_item \<times> (redeem_error + unit)" where
  "check_item limit now i =
    (if ri_blocked_until i > now
     then (i, Inl (redeem_error ''RATE_LIMITED'' (MsgRateBlocked (max 1 (py_trunc (ri_blocked_until i - now))))
                     ''rate_limited''))
     else (let i1 = (if now - ri_window_start i \<ge> 60 then i\<lparr>ri_window_start := now, ri_count := 0\<rparr> else i);
               i2 = i1\<lparr>ri_count := ri_count i1 + 1\<rparr>
           in if ri_count i2 > limit
              then (i2\<lparr>ri_blocked_until := now + 60\<rparr>,
                    Inl (redeem_error ''RATE_LIMITED'' MsgRateLimit ''rate_limited''))
              else (i2, Inr ())))"

definition rate_limit_of :: "config \<Rightarrow> int" where
  "rate_limit_of cfg = max 1 (ds_rate_limit_per_minute (get_delivery_settings cfg))"

definition check_api_rate_limit ::
  "config \<Rightarrow> string \<Rightarrow> time \<Rightarrow> rate_state \<Rightarrow> rate_state \<times> (redeem_error + unit)" where
  "check_api_rate_limit cfg identity now st =
    (case check_item (rate_limit_of cfg) now (rate_item_of identity st) of
       (i, r) \<Rightarrow> (dict_set identity i st, r))"

definition non_malicious_failure_codes :: "string set" where
  "non_malicious_failure_codes = {''POOL_EMPTY'', ''DUPLICATE_ACCOUNT_DETECTED'', ''ACCOUNT_ALLOCATION_FAILED''}"

definition fail_item :: "int \<Rightarrow> int \<Rightarrow> time \<Rightarrow> rate_item \<Rightarrow> rate_item" where
  "fail_item threshold block_minutes now i =
    (let i1 = (if now - ri_failed_window_start i \<ge> 300
               then i\<lparr>ri_failed_window_start := now, ri_failed_count := 0\<rparr> else i);
         i2 = i1\<lparr>ri_failed_count := ri_failed_count i1 + 1\<rparr>
     in if ri_failed_count i2 \<ge> threshold
        then i2\<lparr>ri_blocked_until := max (ri_blocked_until i2) (now + of_int (block_minutes * 60))\<rparr>
        else i2)"

definition block_threshold :: "config \<Rightarrow> int" where
  "block_threshold cfg = max 0 (ds_failed_block_threshold (get_delivery_settings cfg))"

definition block_minutes_of :: "config \<Rightarrow> int" where
  "block_minutes_of cfg = max 1 (ds_failed_block_minutes (get_delivery_settings cfg))"

definition record_api_failure :: "config \<Rightarrow> string \<Rightarrow> string \<Rightarrow> time \<Rightarrow> rate_state \<Rightarrow> rate_state" where
  "record_api_failure cfg identity code now st =
    (if identity = [] \<or> code \<in> non_malicious_failure_codes then st
     else if block_threshold cfg \<le> 0 then st
     else dict_set identity (fail_item (block_threshold cfg) (block_minutes_of cfg) now (rate_item_of identity st)) st)"

definition record_api_success :: "string \<Rightarrow> time \<Rightarrow> rate_state \<Rightarrow> rate_state" where
  "record_api_success identity now st =
    (if identity = [] then st
     else dict_set identity ((rate_item_of identity st)\<lparr>ri_failed_count := 0, ri_failed_window_start := now\<rparr>) st)"

section \<open>Blocking and limits\<close>

text \<open>The failure gate of one caller, at a fixed configuration.\<close>

definition in_fail_window :: "time \<Rightarrow> rate_item \<Rightarrow> bool" where
  "in_fail_window t i \<longleftrightarrow> t - ri_failed_window_start i < 300"

definition item_blocked :: "time \<Rightarrow> rate_item \<Rightarrow> bool" where
  "item_blocked t i \<longleftrightarrow> t < ri_blocked_until i"

interpretation delivery_gate: failure_gate "fail_item threshold (max 1 minutes)" ri_failed_count
  in_fail_window item_blocked threshold
  for threshold minutes
proof unfold_locales
  fix t t' :: time and i :: rate_item
  show "ri_failed_count (fail_item threshold (max 1 minutes) t i) = ri_failed_count i + 1"
    if "in_fail_window t i"
    using that by (simp add: fail_item_def Let_def in_fail_window_def)
  show "in_fail_window t' (fail_item threshold (max 1 minutes) t i) = in_fail_window t' i"
    if "in_fail_window t i"
    using that by (simp add: fail_item_def Let_def in_fail_window_def)
  have "(0 :: rat) < of_int (max 1 minutes * 60)" by (simp only: of_int_0_less_iff)
  then show "item_blocked t (fail_item threshold (max 1 minutes) t i)"
    if "threshold \<le> ri_failed_count (fail_item threshold (max 1 minutes) t i)"
    using that by (simp add: fail_item_def Let_def item_blocked_def split: if_splits)
qed

text \<open>Checks of one caller in one window: how many of them pass.\<close>

fun passed_checks :: "int \<Rightarrow> time list \<Rightarrow> rate_item \<Rightarrow> nat" where
  "passed_checks limit [] i = 0"
| "passed_checks limit (t # ts) i =
     (case check_item limit t i of
        (i', Inr _) \<Rightarrow> Suc (passed_checks limit ts i') | (i', Inl _) \<Rightarrow> passed_checks limit ts i')"

lemma passed_checks_bound:
  assumes "\<forall>t\<in>set ts. t - ri_window_start i < 60" and "0 \<le> ri_count i"
  shows "int (passed_checks limit ts i) \<le> max 0 (limit - ri_count i)"
  using assms
proof (induction ts arbitrary: i)
  case (Cons t ts)
  have w: "\<not> t - ri_window_start i \<ge> 60" using Cons.prems(1) by auto
  let ?i = "i\<lparr>ri_count := ri_count i + 1\<rparr>"
  consider "ri_blocked_until i > t" | "\<not> ri_blocked_until i > t" "ri_count i + 1 > limit"
    | "\<not> ri_blocked_until i > t" "ri_count i + 1 \<le> limit" by linarith
  then show ?case
  proof cases
    case 1
    then have "check_item limit t i = (i, Inl (redeem_error ''RATE_LIMITED''
        (MsgRateBlocked (max 1 (py_trunc (ri_blocked_until i - t)))) ''rate_limited''))"
      by (simp add: check_item_def)
    with Cons show ?thesis by simp
  next
    case 2
    then have "check_item limit t i = (?i\<lparr>ri_blocked_until := t + 60\<rparr>,
        Inl (redeem_error ''RATE_LIMITED'' MsgRateLimit ''rate_limited''))"
      using w by (simp add: check_item_def Let_def)
    with 2 Cons.IH [of "?i\<lparr>ri_blocked_until := t + 60\<rparr>"] Cons.prems show ?thesis by simp
  next
    case 3
    then have "check_item limit t i = (?i, Inr ())" using w by (simp add: check_item_def Let_def)
    with 3 Cons.IH [of ?i] Cons.prems show ?thesis by simp
  qed
qed simp

section \<open>Properties\<close>

text \<open>
  Repeated failures block a caller: when a caller has had, inside one window of
  five minutes, as many failures as the threshold, its next request is refused
  before the token is looked at.
\<close>

lemma failures_block_caller:
  assumes "identity \<noteq> []" and "code \<notin> non_malicious_failure_codes" and "0 < block_threshold cfg"
    and "\<forall>t\<in>set (ts @ [t]). in_fail_window t (rate_item_of identity st)"
    and "block_threshold cfg \<le> ri_failed_count (rate_item_of identity st) + int (length ts) + 1"
  shows "\<exists>e. snd (check_api_rate_limit cfg identity t
      (fold (\<lambda>t. record_api_failure cfg identity code t) (ts @ [t]) st)) = Inl e \<and> de_code e = ''RATE_LIMITED''"
proof -
  let ?f = "fail_item (block_threshold cfg) (max 1 (ds_failed_block_minutes (get_delivery_settings cfg)))"
  have items: "rate_item_of identity (fold (\<lambda>t. record_api_failure cfg identity code t) us st')
      = fold ?f us (rate_item_of identity st')" for us st'
    using assms(1-3)
    by (induction us arbitrary: st') (simp_all add: record_api_failure_def rate_item_of_def block_minutes_of_def)
  have "item_blocked t (fold ?f (ts @ [t]) (rate_item_of identity st))"
    using assms(4,5) by (intro delivery_gate.threshold_blocks) auto
  then show ?thesis
    by (simp only: check_api_rate_limit_def items)
      (auto simp: check_item_def item_blocked_def redeem_error_def split: prod.split)
qed

text \<open>
  The rate limit holds: of any number of requests that a caller makes within
  one minute from the start of its window, at most the configured number pass.
\<close>

lemma rate_limit_per_window:
  assumes "\<forall>t\<in>set ts. t - ri_window_start i < 60" and "0 \<le> ri_count i"
  shows "int (passed_checks (rate_limit_of cfg) ts i) \<le> max 0 (rate_limit_of cfg - ri_count i)"
  using assms by (rule passed_checks_bound)

end
