(* ===== verification/DeliveryStock.thy ===== *)
theory DeliveryStock
  imports DeliveryAccess
begin

text \<open>
  Stock of the card delivery (\<open>services/delivery_cards/service.py\<close>, second part): the
  tables, which accounts a product may hand out, the order in which it takes them,
  the check against a second delivery, and the marking of a delivered account. The
  three classifications of \<open>services/account_filters.py\<close> are arguments, bundled in
  \<open>account_rules\<close>. JSON columns are held as the values they encode.
\<close>

section \<open>Tables\<close>

record dl_account =
  ac_id :: int
  ac_platform :: string
  ac_email :: string
  ac_password :: string
  ac_status :: string
  ac_extra :: "(string, pyval) dict"
  ac_created_at :: time
  ac_updated_at :: time

record dl_sku =
  sk_id :: int
  sk_code :: string
  sk_name :: string
  sk_platform :: string
  sk_code_prefix :: string
  sk_delivery_profile :: string
  sk_sort_policy :: string
  sk_allow_refetch :: bool
  sk_max_refetch_count :: int
  sk_enabled :: bool
  sk_updated_at :: time

record dl_batch =
  ba_id :: int
  ba_name :: string
  ba_sku_code :: string
  ba_platform :: string
  ba_code_prefix :: string
  ba_total_count :: int
  ba_strict :: bool
  ba_expires_at :: string
  ba_note :: string

datatype card_status = CardUnused | CardRedeemed | CardDisabled | CardExpired | CardBlocked

record dl_card =
  dc_id :: int
  dc_batch_id :: int
  dc_sku_code :: string
  dc_platform :: string
  dc_code_hash :: string
  dc_code_mask :: string
  dc_code_prefix :: string
  dc_status :: card_status
  dc_account_id :: int
  dc_email_snapshot :: string
  dc_assigned_at :: string
  dc_redeem_count :: int
  dc_first_redeemed_at :: string
  dc_last_redeemed_at :: string
  dc_first_redeem_ip :: string
  dc_last_redeem_ip :: string
  dc_first_consumer :: string
  dc_last_consumer :: string
  dc_payload :: "(string, pyval) dict"
  dc_expires_at :: string
  dc_disabled_reason :: string
  dc_last_failure_code :: string
  dc_last_failure_at :: string
  dc_updated_at :: time

record dl_event =
  ev_id :: int
  ev_card_id :: int
  ev_batch_id :: int
  ev_sku_code :: string
  ev_account_id :: int
  ev_type :: string
  ev_success :: bool
  ev_failure_code :: string
  ev_delivery_sequence :: int
  ev_request_id :: string
  ev_idempotency_key :: string
  ev_consumer :: string
  ev_client_ip :: string
  ev_user_agent :: string
  ev_api_token_id :: string
  ev_response_profile :: string
  ev_message :: delivery_message
  ev_detail :: "(string, pyval) dict"

record duplicate_check =
  dk_ok :: bool
  dk_message :: delivery_message
  dk_card_ids :: "int list"
  dk_event_ids :: "int list"
  dk_log_ids :: "int list"

text \<open>One line of the stock summary.\<close>

record stock_item =
  si_sku_code :: string
  si_name :: string
  si_prefix :: string
  si_platform :: string
  si_enabled :: bool
  si_delivery_profile :: string
  si_sort_policy :: string
  si_available :: int
  si_unused :: int
  si_delta :: int
  si_risk :: bool
  si_next_account :: "(int \<times> string \<times> string \<times> string) option"

record dl_log =
  lg_id :: int
  lg_trace :: string
  lg_request_id :: string
  lg_idempotency_key :: string
  lg_consumer :: string
  lg_api_token_id :: string
  lg_client_ip :: string
  lg_user_agent :: string
  lg_code_prefix :: string
  lg_code_mask :: string
  lg_code_hash_prefix :: string
  lg_card_id :: int
  lg_batch_id :: int
  lg_sku_code :: string
  lg_account_id :: int
  lg_account_email :: string
  lg_action :: string
  lg_success :: bool
  lg_error_code :: string
  lg_redeem_index :: int
  lg_first_redeem :: bool
  lg_idempotent_replay :: bool
  lg_duplicate :: "duplicate_check option"
  lg_stock_before :: "stock_item list"
  lg_steps :: "(string \<times> bool) list"
  lg_response :: "(string, pyval) dict"
  lg_message :: delivery_message
  lg_duration_ms :: int
  lg_created_at :: time

record delivery_db =
  db_config :: config
  db_skus :: "dl_sku list"
  db_batches :: "dl_batch list"
  db_cards :: "(int, dl_card) dict"
  db_accounts :: "(int, dl_account) dict"
  db_events :: "dl_event list"
  db_logs :: "dl_log list"
  db_phones :: "(string \<times> string) list"

record account_rules =
  ar_validity :: "dl_account \<Rightarrow> string"
  ar_subscription :: "dl_account \<Rightarrow> string"
  ar_active_until :: "dl_account \<Rightarrow> rat option"

section \<open>Eligible accounts\<close>

definition extra_get :: "dl_account \<Rightarrow> string \<Rightarrow> pyval" where
  "extra_get a k = (case dict_get (ac_extra a) k of None \<Rightarrow> PNone | Some v \<Rightarrow> v)"

definition manually_used :: "dl_account \<Rightarrow> bool" where
  "manually_used a \<longleftrightarrow> truthy (extra_get a ''manually_used'')"

text \<open>A value that is used as a JSON object, empty when it is none.\<close>

fun as_dict :: "pyval \<Rightarrow> (string, pyval) dict" where
  "as_dict (PDict d) = d"
| "as_dict _ = []"

definition get_or_none :: "(string, pyval) dict \<Rightarrow> string \<Rightarrow> pyval" where
  "get_or_none d k = (case dict_get d k of None \<Rightarrow> PNone | Some v \<Rightarrow> v)"

definition safe_int_val :: "pyval \<Rightarrow> int \<Rightarrow> int" where
  "safe_int_val v default_value = (case py_int v of None \<Rightarrow> default_value | Some i \<Rightarrow> i)"

definition assignment_card_id :: "dl_account \<Rightarrow> int" where
  "assignment_card_id a =
    safe_int_val (get_or_none (as_dict (extra_get a ''delivery_card_assignment'')) ''card_id'') 0"

definition assigned_account_ids :: "delivery_db \<Rightarrow> int set" where
  "assigned_account_ids db = {i \<in> dc_account_id ` set (map snd (db_cards db)). 0 < i}"

definition eligible_for_sku :: "account_rules \<Rightarrow> time \<Rightarrow> string \<Rightarrow> int set \<Rightarrow> dl_account \<Rightarrow> bool" where
  "eligible_for_sku rules now sku_code used a \<longleftrightarrow>
     py_strip (ac_platform a) = ''chatgpt'' \<and> py_strip (ac_email a) \<noteq> [] \<and> py_strip (ac_password a) \<noteq> []
     \<and> py_lower (py_strip (ac_status a)) \<noteq> ''invalid'' \<and> \<not> manually_used a \<and> ac_id a \<notin> used
     \<and> ar_validity rules a = ''valid''
     \<and> (if sku_code = ''plus''
        then ar_subscription rules a = ''plus''
             \<and> \<not> (case ar_active_until rules a of None \<Rightarrow> False | Some e \<Rightarrow> e < now)
        else if sku_code = ''free'' then ar_subscription rules a = ''free''
        else ar_subscription rules a = sku_code)"

type_synonym account_key = "int \<times> rat \<times> rat \<times> int"

definition account_sort_key :: "account_rules \<Rightarrow> dl_sku \<Rightarrow> dl_account \<Rightarrow> account_key" where
  "account_sort_key rules sku a =
    (let policy = py_lower (py_strip (sk_sort_policy sku)); expiry = ar_active_until rules a in
     if policy \<in> {''earliest_expiry'', ''oldest_subscription_started''}
     then (if expiry \<noteq> None then 0 else 1, case expiry of None \<Rightarrow> 0 | Some e \<Rightarrow> e, ac_created_at a, ac_id a)
     else (0, ac_created_at a, ac_created_at a, ac_id a))"

fun akey_le :: "account_key \<Rightarrow> account_key \<Rightarrow> bool" where
  "akey_le (a, b, c, d) (a', b', c', d') =
    (a < a' \<or> (a = a' \<and> (b < b' \<or> (b = b' \<and> (c < c' \<or> (c = c' \<and> d \<le> d'))))))"

definition sku_candidates :: "account_rules \<Rightarrow> time \<Rightarrow> delivery_db \<Rightarrow> dl_sku \<Rightarrow> dl_account list" where
  "sku_candidates rules now db sku =
    (let rows = sort_by (\<lambda>a b. ac_id a \<le> ac_id b)
           (filter (\<lambda>a. ac_platform a = sk_platform sku) (map snd (db_accounts db)))
     in sort_by (\<lambda>a b. akey_le (account_sort_key rules sku a) (account_sort_key rules sku b))
          (filter (eligible_for_sku rules now (sk_code sku) (assigned_account_ids db)) rows))"

definition pick_next_account ::
  "account_rules \<Rightarrow> time \<Rightarrow> delivery_db \<Rightarrow> dl_sku \<Rightarrow> dl_account option \<times> int" where
  "pick_next_account rules now db sku =
    (let candidates = sku_candidates rules now db sku
     in (case candidates of [] \<Rightarrow> None | a # _ \<Rightarrow> Some a, int (length candidates)))"

definition available_account_count :: "account_rules \<Rightarrow> time \<Rightarrow> delivery_db \<Rightarrow> dl_sku \<Rightarrow> int" where
  "available_account_count rules now db sku =
    int (length (filter (eligible_for_sku rules now (sk_code sku) (assigned_account_ids db))
      (filter (\<lambda>a. ac_platform a = sk_platform sku) (map snd (db_accounts db)))))"

definition unused_card_count :: "delivery_db \<Rightarrow> string \<Rightarrow> int" where
  "unused_card_count db sku_code =
    int (length (filter (\<lambda>(_, c). dc_sku_code c = sku_code \<and> dc_status c = CardUnused) (db_cards db)))"

section \<open>Products and the stock summary\<close>

text \<open>
  \<open>get_skus\<close> writes the configured order of the two built-in products into the rows it
  read, so a transaction that commits afterwards stores it.
\<close>

definition sku_with_policy :: "config \<Rightarrow> dl_sku \<Rightarrow> dl_sku" where
  "sku_with_policy cfg s =
    (if sk_code s = ''plus''
     then s\<lparr>sk_sort_policy := config_get cfg ''delivery_cards_plus_sort_policy''
              (or_else (sk_sort_policy s) ''earliest_expiry'')\<rparr>
     else if sk_code s = ''free''
     then s\<lparr>sk_sort_policy := config_get cfg ''delivery_cards_free_sort_policy''
              (or_else (sk_sort_policy s) ''oldest_created'')\<rparr>
     else s)"

definition refresh_skus :: "delivery_db \<Rightarrow> delivery_db" where
  "refresh_skus db = db\<lparr>db_skus := map (sku_with_policy (db_config db)) (db_skus db)\<rparr>"

definition get_skus :: "delivery_db \<Rightarrow> dl_sku list" where
  "get_skus db = sort_by (\<lambda>a b. sk_id a \<le> sk_id b) (map (sku_with_policy (db_config db)) (db_skus db))"

text \<open>
  \<open>str(value or "")\<close> of a JSON value that is text, a number or a flag; a float, a list
  or an object, which no writer of these fields stores, reads as empty.
\<close>

fun text_of :: "pyval \<Rightarrow> string" where
  "text_of (PStr s) = s"
| "text_of (PInt i) = (if i = 0 then [] else show_int i)"
| "text_of (PBool b) = (if b then ''True'' else [])"
| "text_of _ = []"

definition subscription_until_text :: "dl_account \<Rightarrow> string" where
  "subscription_until_text a =
    (let sub = as_dict (get_or_none (as_dict (extra_get a ''chatgpt_local'')) ''subscription'');
         texts = map (\<lambda>v. py_strip (text_of v))
           [get_or_none sub ''subscription_active_until'', get_or_none sub ''subscription_expires_at_iso'',
            get_or_none sub ''subscription_expires_at'', extra_get a ''subscription_active_until'',
            extra_get a ''subscription_expires_at'', extra_get a ''chatgpt_subscription_active_until'']
     in case find (\<lambda>t. t \<noteq> []) texts of None \<Rightarrow> [] | Some t \<Rightarrow> t)"

definition stock_line :: "account_rules \<Rightarrow> time \<Rightarrow> delivery_db \<Rightarrow> dl_sku \<Rightarrow> stock_item" where
  "stock_line rules now db sku =
    (let available = available_account_count rules now db sku; unused = unused_card_count db (sk_code sku)
     in \<lparr>si_sku_code = sk_code sku, si_name = sk_name sku, si_prefix = sk_code_prefix sku,
         si_platform = sk_platform sku, si_enabled = sk_enabled sku,
         si_delivery_profile = sk_delivery_profile sku, si_sort_policy = sk_sort_policy sku,
         si_available = available, si_unused = unused, si_delta = available - unused,
         si_risk = (available - unused < 0),
         si_next_account = map_option (\<lambda>a. (ac_id a, ac_email a, subscription_until_text a, ac_status a))
           (fst (pick_next_account rules now db sku))\<rparr>)"

definition stock_summary :: "account_rules \<Rightarrow> time \<Rightarrow> delivery_db \<Rightarrow> stock_item list" where
  "stock_summary rules now db = map (stock_line rules now db) (get_skus db)"

section \<open>What is delivered\<close>

text \<open>The payload without its three fields of text for people (status label, messages).\<close>

definition normalize_phone_e164 :: "pyval \<Rightarrow> string" where
  "normalize_phone_e164 v =
    (let digits = filter is_digit (text_of v) in if digits = [] then [] else CHR ''+'' # digits)"

definition api_url_from_phone_pool :: "delivery_db \<Rightarrow> string \<Rightarrow> string" where
  "api_url_from_phone_pool db phone =
    (let n = normalize_phone_e164 (PStr phone)
     in if n = [] then []
        else (case find (\<lambda>(p, _). p = n) (db_phones db) of None \<Rightarrow> [] | Some (_, url) \<Rightarrow> py_strip url))"

text \<open>The text after the first occurrence of a separator, when it occurs.\<close>

fun after_sep :: "string \<Rightarrow> string \<Rightarrow> string option" where
  "after_sep sep [] = (if sep = [] then Some [] else None)"
| "after_sep sep (c # cs) =
     (if py_startswith (c # cs) sep then Some (drop (length sep) (c # cs)) else after_sep sep cs)"

definition or_text :: "pyval \<Rightarrow> pyval \<Rightarrow> pyval" where
  "or_text v w = (if truthy v then v else w)"

definition phone_binding_payload :: "delivery_db \<Rightarrow> dl_account \<Rightarrow> (string, pyval) dict" where
  "phone_binding_payload db a =
    (let b = as_dict (extra_get a ''chatgpt_phone_binding'');
         phone = normalize_phone_e164 (get_or_none b ''phone'');
         raw_line = py_strip (text_of (get_or_none b ''raw_line''));
         url0 = py_strip (text_of (or_text (get_or_none b ''api_url'') (get_or_none b ''sms_api'')));
         url1 = (if url0 = [] \<and> raw_line \<noteq> []
                 then (case after_sep ''----'' raw_line of None \<Rightarrow> [] | Some t \<Rightarrow> py_strip t) else url0);
         url = (if url1 = [] \<and> phone \<noteq> [] then api_url_from_phone_pool db phone else url1)
     in if phone = []
        then [(''bound'', PBool False), (''status'', PStr ''missing''), (''phone'', PStr []),
              (''phone_e164'', PStr []), (''api_url'', PStr []), (''sms_api'', PStr [])]
        else [(''bound'', PBool True),
              (''status'', PStr (py_strip (text_of (or_text (get_or_none b ''status'') (PStr ''bound''))))),
              (''phone'', PStr phone), (''phone_e164'', PStr phone), (''api_url'', PStr url),
              (''sms_api'', PStr url), (''raw_line'', PStr raw_line),
              (''bound_at'', PStr (py_strip (text_of (or_text (get_or_none b ''bound_at'')
                 (or_text (get_or_none b ''updated_at'') (get_or_none b ''created_at'')))))),
              (''api_expired_date'', PStr (py_strip (text_of (get_or_none b ''api_expired_date'')))),
              (''code_time'', PStr (py_strip (text_of (get_or_none b ''code_time'')))),
              (''task_id'', PStr (py_strip (text_of (get_or_none b ''task_id'')))),
              (''source'', PStr (py_strip (text_of (get_or_none b ''source''))))])"

definition build_delivery_payload ::
  "account_rules \<Rightarrow> delivery_db \<Rightarrow> dl_account \<Rightarrow> dl_sku \<Rightarrow> (string, pyval) dict" where
  "build_delivery_payload rules db a sku =
    (let pb = phone_binding_payload db a; bound = truthy (get_or_none pb ''bound'');
         base = [(''platform'', PStr (ac_platform a)), (''email'', PStr (ac_email a)),
           (''password'', PStr (ac_password a)), (''subscription_type'', PStr (ar_subscription rules a)),
           (''phone'', if bound then get_or_none pb ''phone'' else PStr []),
           (''sms_api'', if bound then get_or_none pb ''sms_api'' else PStr []),
           (''phone_binding'', PDict pb)]
     in if sk_delivery_profile sku = ''chatgpt_basic''
        then base @ [(''status'', PStr (ac_status a)),
                     (''subscription_active_until'', PStr (subscription_until_text a))]
        else base)"

definition mark_account_assigned :: "dl_card \<Rightarrow> string \<Rightarrow> time \<Rightarrow> dl_account \<Rightarrow> dl_account" where
  "mark_account_assigned c assigned_at now a =
    a\<lparr>ac_extra := dict_set ''delivery_card_assignment''
         (PDict [(''card_id'', PInt (dc_id c)), (''batch_id'', PInt (dc_batch_id c)),
                 (''sku_code'', PStr (dc_sku_code c)), (''code_mask'', PStr (dc_code_mask c)),
                 (''assigned_at'', PStr assigned_at), (''source'', PStr ''delivery_card_api'')])
         (dict_set ''manually_used'' (PBool True) (ac_extra a)),
      ac_updated_at := now\<rparr>"

section \<open>The check against a second delivery\<close>

definition duplicate_cards :: "delivery_db \<Rightarrow> int \<Rightarrow> int \<Rightarrow> int list" where
  "duplicate_cards db account_id card_id =
    map dc_id (filter (\<lambda>c. dc_account_id c = account_id \<and> dc_id c \<noteq> card_id
        \<and> dc_status c \<in> {CardRedeemed, CardDisabled, CardBlocked}) (map snd (db_cards db)))"

definition assert_no_duplicate :: "delivery_db \<Rightarrow> dl_account \<Rightarrow> int \<Rightarrow> duplicate_check" where
  "assert_no_duplicate db a card_id =
    (let used_by = assignment_card_id a; aid = ac_id a in
     if manually_used a \<and> used_by \<noteq> card_id
     then \<lparr>dk_ok = False, dk_message = MsgDuplicateMarked,
           dk_card_ids = (if used_by \<noteq> 0 then [used_by] else []), dk_event_ids = [], dk_log_ids = []\<rparr>
     else (let cards = duplicate_cards db aid card_id;
               events = map ev_id (filter (\<lambda>e. ev_account_id e = aid \<and> ev_success e \<and> ev_card_id e \<noteq> card_id)
                 (db_events db));
               logs = map lg_id (filter (\<lambda>l. lg_account_id l = aid \<and> lg_success l \<and> lg_card_id l \<noteq> card_id)
                 (db_logs db))
           in if cards \<noteq> [] \<or> events \<noteq> [] \<or> logs \<noteq> []
              then \<lparr>dk_ok = False, dk_message = MsgDuplicateRecord, dk_card_ids = cards,
                    dk_event_ids = events, dk_log_ids = logs\<rparr>
              else \<lparr>dk_ok = True, dk_message = MsgNoDuplicate, dk_card_ids = [], dk_event_ids = [],
                    dk_log_ids = []\<rparr>))"

section \<open>Facts about the choice\<close>

lemma akey_le_total: "akey_le k l \<or> akey_le l k"
  by (cases k; cases l) auto

lemma akey_le_trans: "akey_le k l \<Longrightarrow> akey_le l m \<Longrightarrow> akey_le k m"
  by (cases k; cases l; cases m) auto

lemma set_sku_candidates:
  "a \<in> set (sku_candidates rules now db sku) \<longleftrightarrow>
     a \<in> snd ` set (db_accounts db) \<and> ac_platform a = sk_platform sku
     \<and> eligible_for_sku rules now (sk_code sku) (assigned_account_ids db) a"
  by (auto simp: sku_candidates_def Let_def)

lemma length_sku_candidates: "int (length (sku_candidates rules now db sku)) = available_account_count rules now db sku"
proof -
  let ?P = "eligible_for_sku rules now (sk_code sku) (assigned_account_ids db)"
  let ?rows = "filter (\<lambda>a. ac_platform a = sk_platform sku) (map snd (db_accounts db))"
  have "mset (filter ?P (sort_by (\<lambda>a b. ac_id a \<le> ac_id b) ?rows)) = mset (filter ?P ?rows)"
    by (simp only: mset_filter mset_sort_by)
  then have "length (filter ?P (sort_by (\<lambda>a b. ac_id a \<le> ac_id b) ?rows)) = length (filter ?P ?rows)"
    by (rule mset_eq_length)
  then show ?thesis by (simp add: sku_candidates_def available_account_count_def Let_def)
qed

lemma picked_account:
  assumes "fst (pick_next_account rules now db sku) = Some a"
  shows "a \<in> snd ` set (db_accounts db)"
    and "eligible_for_sku rules now (sk_code sku) (assigned_account_ids db) a"
    and "\<And>b. b \<in> snd ` set (db_accounts db) \<Longrightarrow> ac_platform b = sk_platform sku \<Longrightarrow>
      eligible_for_sku rules now (sk_code sku) (assigned_account_ids db) b \<Longrightarrow>
      akey_le (account_sort_key rules sku a) (account_sort_key rules sku b)"
proof -
  let ?le = "\<lambda>a b. akey_le (account_sort_key rules sku a) (account_sort_key rules sku b)"
  obtain ys where ys: "sku_candidates rules now db sku = a # ys"
    using assms by (auto simp: pick_next_account_def Let_def split: list.splits)
  then have "a \<in> set (sku_candidates rules now db sku)" by simp
  then show "a \<in> snd ` set (db_accounts db)"
    "eligible_for_sku rules now (sk_code sku) (assigned_account_ids db) a"
    unfolding set_sku_candidates by simp_all
  let ?rows = "filter (eligible_for_sku rules now (sk_code sku) (assigned_account_ids db))
    (sort_by (\<lambda>a b. ac_id a \<le> ac_id b)
       (filter (\<lambda>a. ac_platform a = sk_platform sku) (map snd (db_accounts db))))"
  have e: "sort_by ?le ?rows = a # ys" using ys by (simp add: sku_candidates_def Let_def)
  have least: "a \<in> set ?rows \<and> (\<forall>y\<in>set ?rows. ?le a y)"
    by (rule sort_by_hd_least [OF _ _ e]) (use akey_le_total akey_le_trans in blast)+
  fix b
  assume "b \<in> snd ` set (db_accounts db)" "ac_platform b = sk_platform sku"
    "eligible_for_sku rules now (sk_code sku) (assigned_account_ids db) b"
  then have "b \<in> set ?rows" by auto
  with least show "?le a b" by blast
qed

lemma marked_account [simp]:
  "manually_used (mark_account_assigned c d now a)"
  "ac_id (mark_account_assigned c d now a) = ac_id a"
  "assignment_card_id (mark_account_assigned c d now a) = dc_id c"
  by (simp_all add: manually_used_def mark_account_assigned_def extra_get_def assignment_card_id_def
      get_or_none_def safe_int_val_def)

end
