(* ===== verification/DeliveryRedeem.thy ===== *)
theory DeliveryRedeem
  imports DeliveryStock
begin

text \<open>
  The redemption of a card code (\<open>services/delivery_cards/service.py\<close>, third part):
  the admission of a request, the transaction with its branches (idempotent replay,
  fetching again, empty pool, duplicate, first delivery), its roll back, and the
  call log. A transaction works on a copy of the tables, and the handler keeps the
  copy exactly on the branches that commit.
\<close>

section \<open>Requests and answers\<close>

record redeem_request =
  rq_code :: string
  rq_consumer :: string
  rq_request_id :: string
  rq_idempotency_key :: string
  rq_authorization :: string
  rq_client_ip :: string
  rq_user_agent :: string

text \<open>
  What a call takes from outside: the hash, a fresh secret, the classifications of
  \<open>account_filters\<close>, the parser of ISO texts, the trace id, the clock at the start
  and afterwards, the text of the current time, and the message of the exception
  when the database refuses the transaction.
\<close>

record redeem_env =
  re_sha :: "string \<Rightarrow> string"
  re_fresh :: string
  re_rules :: account_rules
  re_instant :: "string \<Rightarrow> time option"
  re_trace :: string
  re_started :: time
  re_now :: time
  re_now_iso :: string
  re_fault :: "string option"

record redeem_success =
  rs_first_redeem :: bool
  rs_idempotent_replay :: bool
  rs_redeem_index :: int
  rs_redeem_count :: int
  rs_sku_code :: string
  rs_sku_name :: string
  rs_card_status :: card_status
  rs_code_mask :: string
  rs_assigned_at :: string
  rs_first_redeemed_at :: string
  rs_last_redeemed_at :: string
  rs_account :: "(string, pyval) dict"

datatype redeem_response = RedeemOk redeem_success | RedeemFailed string delivery_message

record delivery_state =
  dl_rate :: rate_state
  dl_db :: delivery_db

section \<open>Rows\<close>

text \<open>The id that an insert gets: one above the largest of the table.\<close>

definition next_row_id :: "int list \<Rightarrow> int" where
  "next_row_id ids = fold max ids 0 + 1"

definition card_by_hash :: "delivery_db \<Rightarrow> string \<Rightarrow> dl_card option" where
  "card_by_hash db h = find (\<lambda>c. dc_code_hash c = h) (map snd (db_cards db))"

definition sku_by_code :: "delivery_db \<Rightarrow> string \<Rightarrow> dl_sku option" where
  "sku_by_code db code = find (\<lambda>s. sk_code s = code) (db_skus db)"

definition account_of_card :: "delivery_db \<Rightarrow> dl_card \<Rightarrow> dl_account option" where
  "account_of_card db c = (if 0 < dc_account_id c then dict_get (db_accounts db) (dc_account_id c) else None)"

definition save_card :: "dl_card \<Rightarrow> delivery_db \<Rightarrow> delivery_db" where
  "save_card c db = db\<lparr>db_cards := dict_set (dc_id c) c (db_cards db)\<rparr>"

definition save_account :: "dl_account \<Rightarrow> delivery_db \<Rightarrow> delivery_db" where
  "save_account a db = db\<lparr>db_accounts := dict_set (ac_id a) a (db_accounts db)\<rparr>"

definition add_event :: "dl_event \<Rightarrow> delivery_db \<Rightarrow> delivery_db" where
  "add_event e db = db\<lparr>db_events := db_events db @ [e\<lparr>ev_id := next_row_id (map ev_id (db_events db))\<rparr>]\<rparr>"

definition write_api_log :: "dl_log \<Rightarrow> delivery_db \<Rightarrow> delivery_db" where
  "write_api_log l db = db\<lparr>db_logs := db_logs db @ [l\<lparr>lg_id := next_row_id (map lg_id (db_logs db))\<rparr>]\<rparr>"

definition with_secret :: "string \<Rightarrow> bool \<Rightarrow> delivery_db \<Rightarrow> delivery_db" where
  "with_secret fresh needed db =
    (if needed then db\<lparr>db_config := ensure_secret fresh (db_config db)\<rparr> else db)"

section \<open>The call log\<close>

definition idempotency_key_of :: "redeem_request \<Rightarrow> string" where
  "idempotency_key_of rq = py_strip (or_else (rq_idempotency_key rq) (rq_request_id rq))"

definition consumer_of :: "redeem_request \<Rightarrow> string" where
  "consumer_of rq = take 120 (py_strip (rq_consumer rq))"

text \<open>
  The row of a call, with what every branch writes into it; a branch then sets its
  own fields. The configuration is one that already has its secret.
\<close>

definition make_api_log_payload ::
  "redeem_env \<Rightarrow> redeem_request \<Rightarrow> config \<Rightarrow> dl_card option \<Rightarrow> string \<Rightarrow> dl_account option \<Rightarrow> dl_log" where
  "make_api_log_payload env rq cfg on_card sku_code account =
    (let normalized = normalize_code (normalize_code (rq_code rq));
         hashed = (if normalized = [] then [] else hash_code (re_sha env) cfg normalized)
     in \<lparr>lg_id = 0, lg_trace = re_trace env, lg_request_id = take 200 (rq_request_id rq),
         lg_idempotency_key = take 200 (idempotency_key_of rq), lg_consumer = take 120 (consumer_of rq),
         lg_api_token_id = ''default'', lg_client_ip = take 120 (rq_client_ip rq),
         lg_user_agent = take 500 (rq_user_agent rq),
         lg_code_prefix = take 50 (case on_card of None \<Rightarrow> code_prefix normalized | Some c \<Rightarrow> dc_code_prefix c),
         lg_code_mask = take 120 (case on_card of None \<Rightarrow> mask_code normalized | Some c \<Rightarrow> dc_code_mask c),
         lg_code_hash_prefix = take 12 hashed,
         lg_card_id = (case on_card of None \<Rightarrow> 0 | Some c \<Rightarrow> dc_id c),
         lg_batch_id = (case on_card of None \<Rightarrow> 0 | Some c \<Rightarrow> dc_batch_id c),
         lg_sku_code = (case on_card of None \<Rightarrow> sku_code | Some c \<Rightarrow> dc_sku_code c),
         lg_account_id = (case account of None \<Rightarrow> 0 | Some a \<Rightarrow> ac_id a),
         lg_account_email = (case account of None \<Rightarrow> [] | Some a \<Rightarrow> ac_email a),
         lg_action = ''failed'', lg_success = False, lg_error_code = [], lg_redeem_index = 0,
         lg_first_redeem = False, lg_idempotent_replay = False, lg_duplicate = None,
         lg_stock_before = [], lg_steps = [], lg_response = [], lg_message = MsgText [],
         lg_duration_ms = max 0 (py_trunc ((re_now env - re_started env) * 1000)),
         lg_created_at = re_now env\<rparr>)"

definition failed_log ::
  "redeem_env \<Rightarrow> redeem_request \<Rightarrow> config \<Rightarrow> dl_card option \<Rightarrow> string \<Rightarrow> string \<Rightarrow> delivery_message \<Rightarrow> dl_log" where
  "failed_log env rq cfg on_card action code msg =
    (make_api_log_payload env rq cfg on_card [] None)\<lparr>lg_action := action, lg_error_code := code, lg_message := msg\<rparr>"

text \<open>\<open>write_failed_api_log\<close>, in a session of its own.\<close>

definition write_failed_api_log ::
  "redeem_env \<Rightarrow> redeem_request \<Rightarrow> dl_card option \<Rightarrow> string \<Rightarrow> string \<Rightarrow> delivery_message \<Rightarrow> delivery_db \<Rightarrow> delivery_db" where
  "write_failed_api_log env rq on_card action code msg db =
    (let db1 = with_secret (re_fresh env) (normalize_code (normalize_code (rq_code rq)) \<noteq> []) db
     in write_api_log (failed_log env rq (db_config db1) on_card action code msg) db1)"

section \<open>Parts of the transaction\<close>

text \<open>\<open>is_expired_text\<close>; \<open>instant\<close> parses an ISO text, a naive one as UTC, and fails as \<open>fromisoformat\<close> does.\<close>

definition is_expired_text :: "(string \<Rightarrow> time option) \<Rightarrow> time \<Rightarrow> string \<Rightarrow> bool" where
  "is_expired_text instant now v =
    (let t = py_strip v;
         n = (if t \<noteq> [] \<and> last t = CHR ''Z'' then butlast t @ ''+00:00'' else t)
     in if t = [] then False else (case instant n of None \<Rightarrow> False | Some d \<Rightarrow> d < now))"

definition find_success_event :: "delivery_db \<Rightarrow> int \<Rightarrow> string \<Rightarrow> dl_event option" where
  "find_success_event db card_id idempotency_key =
    (let key = py_strip idempotency_key
     in if key = [] then None
        else find (\<lambda>e. ev_card_id e = card_id \<and> ev_idempotency_key e = key \<and> ev_success e)
               (sort_by (\<lambda>a b. ev_id a \<le> ev_id b) (db_events db)))"

definition payload_account :: "(string, pyval) dict \<Rightarrow> (string, pyval) dict" where
  "payload_account payload = (case get_or_none payload ''account'' of PDict d \<Rightarrow> d | _ \<Rightarrow> payload)"

definition success_response ::
  "dl_card \<Rightarrow> dl_sku \<Rightarrow> (string, pyval) dict \<Rightarrow> bool \<Rightarrow> bool \<Rightarrow> int option \<Rightarrow> redeem_success" where
  "success_response c sku payload first replay redeem_index =
    (let index = (case redeem_index of None \<Rightarrow> dc_redeem_count c | Some i \<Rightarrow> i)
     in \<lparr>rs_first_redeem = first, rs_idempotent_replay = replay, rs_redeem_index = index,
         rs_redeem_count = (if dc_redeem_count c = 0 then index else dc_redeem_count c),
         rs_sku_code = sk_code sku, rs_sku_name = sk_name sku, rs_card_status = dc_status c,
         rs_code_mask = dc_code_mask c, rs_assigned_at = dc_assigned_at c,
         rs_first_redeemed_at = dc_first_redeemed_at c, rs_last_redeemed_at = dc_last_redeemed_at c,
         rs_account = payload_account payload\<rparr>)"

definition request_event ::
  "redeem_request \<Rightarrow> dl_card \<Rightarrow> int \<Rightarrow> string \<Rightarrow> delivery_message \<Rightarrow> dl_event" where
  "request_event rq c account_id etype msg =
    \<lparr>ev_id = 0, ev_card_id = dc_id c, ev_batch_id = dc_batch_id c, ev_sku_code = dc_sku_code c,
     ev_account_id = account_id, ev_type = etype, ev_success = True, ev_failure_code = [],
     ev_delivery_sequence = 0, ev_request_id = rq_request_id rq,
     ev_idempotency_key = idempotency_key_of rq, ev_consumer = consumer_of rq,
     ev_client_ip = rq_client_ip rq, ev_user_agent = rq_user_agent rq, ev_api_token_id = ''default'',
     ev_response_profile = [], ev_message = msg, ev_detail = []\<rparr>"

text \<open>How a transaction ends: an error with the card it concerns, or a commit with the failure code to count, if any.\<close>

datatype tx_end =
    TxRaise redeem_error "dl_card option"
  | TxCommit redeem_response "string option"

section \<open>Fetching again\<close>

text \<open>A redeemed card whose account lost its mark gets it back.\<close>

definition heal_account :: "redeem_env \<Rightarrow> dl_card \<Rightarrow> delivery_db \<Rightarrow> delivery_db" where
  "heal_account env c db =
    (case account_of_card db c of
       None \<Rightarrow> db
     | Some a \<Rightarrow>
         if manually_used a then db
         else save_account (mark_account_assigned c (or_else (dc_assigned_at c) (re_now_iso env)) (re_now env) a) db)"

definition refetched_card :: "redeem_env \<Rightarrow> redeem_request \<Rightarrow> dl_card \<Rightarrow> dl_card" where
  "refetched_card env rq c =
    c\<lparr>dc_redeem_count := dc_redeem_count c + 1, dc_last_redeemed_at := re_now_iso env,
      dc_last_redeem_ip := rq_client_ip rq, dc_last_consumer := consumer_of rq, dc_updated_at := re_now env\<rparr>"

definition redeem_again ::
  "redeem_env \<Rightarrow> redeem_request \<Rightarrow> dl_card \<Rightarrow> dl_sku \<Rightarrow> delivery_db \<Rightarrow> delivery_db \<times> tx_end" where
  "redeem_again env rq c sku db =
    (let existing = find_success_event db (dc_id c) (idempotency_key_of rq);
         db1 = heal_account env c db;
         account = account_of_card db1 c
     in case existing of
          Some e \<Rightarrow>
            (let index = (if ev_delivery_sequence e \<noteq> 0 then ev_delivery_sequence e
                          else if dc_redeem_count c \<noteq> 0 then dc_redeem_count c else 1);
                 r = success_response c sku (dc_payload c) False True (Some index);
                 l = (make_api_log_payload env rq (db_config db1) (Some c) (sk_code sku) account)
                       \<lparr>lg_action := ''idempotent_replay'', lg_success := True,
                        lg_redeem_index := index, lg_idempotent_replay := True,
                        lg_steps := [(''idempotency'', True)],
                        lg_response := [(''ok'', PBool True), (''redeem_index'', PInt index)],
                        lg_message := MsgReplay\<rparr>
             in (write_api_log l db1, TxCommit (RedeemOk r) None))
        | None \<Rightarrow>
            if \<not> sk_allow_refetch sku
            then (db1, TxRaise (redeem_error ''REFETCH_LIMIT_EXCEEDED'' MsgRefetchForbidden ''failed'') (Some c))
            else if 0 < sk_max_refetch_count sku \<and> sk_max_refetch_count sku \<le> dc_redeem_count c
            then (db1, TxRaise (redeem_error ''REFETCH_LIMIT_EXCEEDED'' MsgRefetchLimit ''failed'') (Some c))
            else
              (let c1 = refetched_card env rq c;
                   e = (request_event rq c1 (dc_account_id c1) ''refetch'' MsgRefetched)
                         \<lparr>ev_delivery_sequence := dc_redeem_count c1,
                          ev_response_profile := sk_delivery_profile sku\<rparr>;
                   l = (make_api_log_payload env rq (db_config db1) (Some c1) (sk_code sku) account)
                         \<lparr>lg_action := ''refetch'', lg_success := True,
                          lg_redeem_index := dc_redeem_count c1, lg_steps := [(''refetch'', True)],
                          lg_response := [(''ok'', PBool True), (''redeem_index'', PInt (dc_redeem_count c1))],
                          lg_message := MsgRefetched\<rparr>
               in (write_api_log l (add_event e (save_card c1 db1)),
                   TxCommit (RedeemOk (success_response c1 sku (dc_payload c1) False False None)) None)))"

section \<open>The first delivery\<close>

definition delivery_snapshot :: "redeem_env \<Rightarrow> delivery_db \<Rightarrow> dl_account \<Rightarrow> dl_sku \<Rightarrow> (string, pyval) dict" where
  "delivery_snapshot env db a sku =
    [(''account'', PDict (build_delivery_payload (re_rules env) db a sku)),
     (''profile'', PStr (sk_delivery_profile sku)), (''sku_code'', PStr (sk_code sku)),
     (''created_at'', PStr (re_now_iso env))]"

definition redeemed_card ::
  "redeem_env \<Rightarrow> redeem_request \<Rightarrow> dl_account \<Rightarrow> (string, pyval) dict \<Rightarrow> dl_card \<Rightarrow> dl_card" where
  "redeemed_card env rq a payload c =
    c\<lparr>dc_status := CardRedeemed, dc_account_id := ac_id a, dc_email_snapshot := ac_email a,
      dc_assigned_at := re_now_iso env, dc_redeem_count := 1,
      dc_first_redeemed_at := re_now_iso env, dc_last_redeemed_at := re_now_iso env,
      dc_first_redeem_ip := rq_client_ip rq, dc_last_redeem_ip := rq_client_ip rq,
      dc_first_consumer := consumer_of rq, dc_last_consumer := consumer_of rq,
      dc_payload := payload, dc_updated_at := re_now env\<rparr>"

definition deliver_first ::
  "redeem_env \<Rightarrow> redeem_request \<Rightarrow> dl_card \<Rightarrow> dl_sku \<Rightarrow> dl_account \<Rightarrow> int \<Rightarrow> stock_item list \<Rightarrow>
   duplicate_check \<Rightarrow> delivery_db \<Rightarrow> delivery_db \<times> tx_end" where
  "deliver_first env rq c sku a candidate_count stock dup db =
    (let payload = delivery_snapshot env db a sku;
         c1 = redeemed_card env rq a payload c;
         a1 = mark_account_assigned c1 (re_now_iso env) (re_now env) a;
         e = (request_event rq c1 (ac_id a) ''first_redeem'' MsgFirstRedeem)
               \<lparr>ev_delivery_sequence := 1, ev_response_profile := sk_delivery_profile sku,
                ev_detail := [(''candidate_count'', PInt candidate_count)]\<rparr>;
         pb = as_dict (get_or_none (payload_account payload) ''phone_binding'');
         l = (make_api_log_payload env rq (db_config db) (Some c1) (sk_code sku) (Some a1))
               \<lparr>lg_action := ''first_redeem'', lg_success := True, lg_redeem_index := 1,
                lg_first_redeem := True, lg_duplicate := Some dup, lg_stock_before := stock,
                lg_steps := [(''card_lookup'', True), (''stock_pick'', True), (''duplicate_check'', True), (''commit'', True)],
                lg_response := [(''ok'', PBool True), (''redeem_index'', PInt 1), (''email'', PStr (ac_email a)),
                  (''phone_bound'', PBool (truthy (get_or_none pb ''bound''))),
                  (''phone'', get_or_none (payload_account payload) ''phone'')],
                lg_message := MsgFirstRedeem\<rparr>
     in (write_api_log l (add_event e (save_account a1 (save_card c1 db))),
         TxCommit (RedeemOk (success_response c1 sku payload True False None)) None))"

definition redeem_unused ::
  "redeem_env \<Rightarrow> redeem_request \<Rightarrow> dl_card \<Rightarrow> dl_sku \<Rightarrow> delivery_db \<Rightarrow> delivery_db \<times> tx_end" where
  "redeem_unused env rq c sku db =
    (let stock = stock_summary (re_rules env) (re_now env) db;
         db1 = refresh_skus db;
         sku1 = sku_with_policy (db_config db) sku
     in case pick_next_account (re_rules env) (re_now env) db1 sku1 of
          (None, _) \<Rightarrow>
            (let c1 = c\<lparr>dc_last_failure_code := ''POOL_EMPTY'', dc_last_failure_at := re_now_iso env,
                        dc_updated_at := re_now env\<rparr>;
                 e = (request_event rq c1 0 ''failed'' MsgPoolEmpty)
                       \<lparr>ev_success := False, ev_failure_code := ''POOL_EMPTY''\<rparr>;
                 l = (make_api_log_payload env rq (db_config db1) (Some c1) (sk_code sku1) None)
                       \<lparr>lg_action := ''stock_empty'', lg_error_code := ''POOL_EMPTY'',
                        lg_stock_before := stock, lg_steps := [(''stock_pick'', False)],
                        lg_message := MsgPoolEmpty\<rparr>
             in (write_api_log l (add_event e (save_card c1 db1)),
                 TxCommit (RedeemFailed ''POOL_EMPTY'' (MsgPoolEmptyFor (sk_name sku1))) (Some ''POOL_EMPTY'')))
        | (Some a, n) \<Rightarrow>
            (let dup = assert_no_duplicate db1 a (dc_id c)
             in if \<not> dk_ok dup
                then (write_api_log
                        ((make_api_log_payload env rq (db_config db1) (Some c) (sk_code sku1) (Some a))
                           \<lparr>lg_action := ''duplicate_check'', lg_error_code := ''DUPLICATE_ACCOUNT_DETECTED'',
                            lg_duplicate := Some dup, lg_stock_before := stock,
                            lg_steps := [(''duplicate_check'', False)], lg_message := dk_message dup\<rparr>) db1,
                      TxCommit (RedeemFailed ''DUPLICATE_ACCOUNT_DETECTED'' (dk_message dup))
                        (Some ''DUPLICATE_ACCOUNT_DETECTED''))
                else deliver_first env rq c sku1 a n stock dup db1))"

section \<open>The transaction and the handler\<close>

definition redeem_tx :: "redeem_env \<Rightarrow> redeem_request \<Rightarrow> delivery_db \<Rightarrow> delivery_db \<times> tx_end" where
  "redeem_tx env rq db =
    (case card_by_hash db (hash_code (re_sha env) (db_config db) (normalize_code (rq_code rq))) of
       None \<Rightarrow> (db, TxRaise (redeem_error ''CARD_NOT_AVAILABLE'' MsgCardUnavailable ''failed'') None)
     | Some c \<Rightarrow>
         (case sku_by_code db (dc_sku_code c) of
            None \<Rightarrow> (db, TxRaise (redeem_error ''SKU_DISABLED'' MsgSkuDisabled ''failed'') (Some c))
          | Some sku \<Rightarrow>
              if \<not> sk_enabled sku
              then (db, TxRaise (redeem_error ''SKU_DISABLED'' MsgSkuDisabled ''failed'') (Some c))
              else if dc_status c = CardDisabled
              then (db, TxRaise (redeem_error ''CARD_DISABLED'' MsgCardDisabled ''failed'') (Some c))
              else if dc_status c = CardBlocked
              then (db, TxRaise (redeem_error ''CARD_NOT_AVAILABLE'' MsgCardLocked ''failed'') (Some c))
              else if dc_status c = CardUnused \<and> is_expired_text (re_instant env) (re_now env) (dc_expires_at c)
              then (save_card (c\<lparr>dc_status := CardExpired, dc_updated_at := re_now env\<rparr>) db,
                    TxRaise (redeem_error ''CARD_EXPIRED'' MsgCardExpired ''failed'') (Some c))
              else if dc_status c = CardRedeemed then redeem_again env rq c sku db
              else if dc_status c \<noteq> CardUnused
              then (db, TxRaise (redeem_error ''CARD_NOT_AVAILABLE'' MsgCardUnavailable ''failed'') (Some c))
              else redeem_unused env rq c sku db))"

text \<open>The checks before the transaction, with the configuration they leave.\<close>

definition admit_request ::
  "redeem_env \<Rightarrow> redeem_request \<Rightarrow> config \<Rightarrow> string \<Rightarrow> rate_state \<Rightarrow> rate_state \<times> (redeem_error + unit)" where
  "admit_request env rq cfg identity st =
    (case check_api_rate_limit cfg identity (re_now env) st of
       (st1, Inl e) \<Rightarrow> (st1, Inl e)
     | (st1, Inr _) \<Rightarrow>
         (case verify_api_token (re_sha env) cfg (rq_authorization rq) of
            Inl e \<Rightarrow> (st1, Inl e)
          | Inr _ \<Rightarrow>
              if normalize_code (rq_code rq) = []
              then (st1, Inl (redeem_error ''INVALID_REQUEST'' MsgCodeEmpty ''failed''))
              else (st1, Inr ())))"

definition finish_tx ::
  "redeem_env \<Rightarrow> redeem_request \<Rightarrow> string \<Rightarrow> rate_state \<Rightarrow> delivery_db \<Rightarrow> delivery_db \<times> tx_end \<Rightarrow>
   delivery_state \<times> redeem_response" where
  "finish_tx env rq identity st db r =
    (case r of
       (db1, TxCommit resp None) \<Rightarrow>
         (\<lparr>dl_rate = record_api_success identity (re_now env) st, dl_db = db1\<rparr>, resp)
     | (db1, TxCommit resp (Some code)) \<Rightarrow>
         (\<lparr>dl_rate = record_api_failure (db_config db1) identity code (re_now env) st, dl_db = db1\<rparr>, resp)
     | (_, TxRaise e on_card) \<Rightarrow>
         (\<lparr>dl_rate = record_api_failure (db_config db) identity (de_code e) (re_now env) st,
           dl_db = write_failed_api_log env rq on_card (de_action e) (de_code e) (de_message e) db\<rparr>,
          RedeemFailed (public_error_code (db_config db) (de_code e)) (de_message e)))"

definition redeem_card ::
  "redeem_env \<Rightarrow> redeem_request \<Rightarrow> delivery_state \<Rightarrow> delivery_state \<times> redeem_response" where
  "redeem_card env rq s =
    (let db = with_secret (re_fresh env) (extract_bearer_token (rq_authorization rq) \<noteq> []) (dl_db s);
         cfg = db_config db;
         identity = rate_limit_identity (re_sha env) cfg (rq_authorization rq) (rq_client_ip rq) (consumer_of rq)
     in case admit_request env rq cfg identity (dl_rate s) of
          (st, Inl e) \<Rightarrow>
            (\<lparr>dl_rate = record_api_failure cfg identity (de_code e) (re_now env) st,
              dl_db = write_failed_api_log env rq None (de_action e) (de_code e) (de_message e) db\<rparr>,
             RedeemFailed (public_error_code cfg (de_code e)) (de_message e))
        | (st, Inr _) \<Rightarrow>
            (case re_fault env of
               Some msg \<Rightarrow>
                 (\<lparr>dl_rate = record_api_failure cfg identity ''ACCOUNT_ALLOCATION_FAILED'' (re_now env) st,
                   dl_db = write_failed_api_log env rq None ''failed'' ''ACCOUNT_ALLOCATION_FAILED'' (MsgText msg) db\<rparr>,
                  RedeemFailed ''ACCOUNT_ALLOCATION_FAILED'' (MsgText msg))
             | None \<Rightarrow> finish_tx env rq identity st db (redeem_tx env rq db)))"

end
