(* ===== verification/DeliveryAdmin.thy ===== *)
theory DeliveryAdmin
  imports DeliveryRedeem
begin

text \<open>
  Administration of the card delivery (\<open>services/delivery_cards/service.py\<close>, last
  part): settings, batches and their codes, enabling and disabling a card, the
  consistency scan and its repair, and the listings.
\<close>

section \<open>Settings\<close>

definition set_sort_policy :: "string \<Rightarrow> string option \<Rightarrow> time \<Rightarrow> dl_sku list \<Rightarrow> dl_sku list" where
  "set_sort_policy code policy now skus =
    (case policy of
       None \<Rightarrow> skus
     | Some p \<Rightarrow> if p = [] then skus
         else map (\<lambda>s. if sk_code s = code then s\<lparr>sk_sort_policy := p, sk_updated_at := now\<rparr> else s) skus)"

text \<open>The keys of \<open>data\<close> are those of a dict, so each occurs once; a value that is absent reads as empty.\<close>

definition update_delivery_settings ::
  "(string, string option) dict \<Rightarrow> time \<Rightarrow> delivery_db \<Rightarrow> delivery_db \<times> delivery_settings" where
  "update_delivery_settings data now db =
    (let safe = map (\<lambda>(k, v). (k, case v of None \<Rightarrow> [] | Some t \<Rightarrow> t))
           (filter (\<lambda>(k, v). k \<in> fst ` set delivery_config_keys) data);
         db1 = (if safe = [] then db
                else db\<lparr>db_config := dict_merge (db_config db) safe,
                        db_skus := set_sort_policy ''free'' (dict_get safe ''delivery_cards_free_sort_policy'') now
                          (set_sort_policy ''plus'' (dict_get safe ''delivery_cards_plus_sort_policy'') now (db_skus db))\<rparr>)
     in (db1, get_delivery_settings (db_config db1)))"

definition rotate_delivery_token ::
  "(string \<Rightarrow> string) \<Rightarrow> string \<Rightarrow> string \<Rightarrow> delivery_db \<Rightarrow> delivery_db \<times> string \<times> string" where
  "rotate_delivery_token sha fresh random_part db =
    (case rotate_api_token sha fresh random_part (db_config db) of
       (cfg, token, last4) \<Rightarrow> (db\<lparr>db_config := cfg\<rparr>, token, last4))"

section \<open>Batches\<close>

datatype http_error = HttpError int delivery_message

record batch_view =
  bv_batch :: dl_batch
  bv_counts :: "(card_status \<times> int) list"

definition all_statuses :: "card_status list" where
  "all_statuses = [CardBlocked, CardDisabled, CardExpired, CardRedeemed, CardUnused]"

definition serialize_batch :: "delivery_db \<Rightarrow> dl_batch \<Rightarrow> batch_view" where
  "serialize_batch db b =
    \<lparr>bv_batch = b,
     bv_counts = filter (\<lambda>(_, n). n \<noteq> 0)
       (map (\<lambda>st. (st, int (length (filter (\<lambda>(_, c). dc_batch_id c = ba_id b \<and> dc_status c = st) (db_cards db)))))
         all_statuses)\<rparr>"

definition batch_count :: "batch_view \<Rightarrow> card_status \<Rightarrow> int" where
  "batch_count v st = (case dict_get (bv_counts v) st of None \<Rightarrow> 0 | Some n \<Rightarrow> n)"

record batch_request =
  br_name :: string
  br_sku_code :: string
  br_count :: int
  br_strict :: bool
  br_expires_at :: string
  br_note :: string

record issued_code =
  ic_code :: string
  ic_code_mask :: string
  ic_sku_code :: string
  ic_batch_name :: string
  ic_expires_at :: string

definition new_card :: "int \<Rightarrow> dl_batch \<Rightarrow> string \<Rightarrow> string \<Rightarrow> string \<Rightarrow> time \<Rightarrow> dl_card" where
  "new_card cid b sku_code code hashed now =
    \<lparr>dc_id = cid, dc_batch_id = ba_id b, dc_sku_code = sku_code, dc_platform = ba_platform b,
     dc_code_hash = hashed, dc_code_mask = mask_code code, dc_code_prefix = ba_code_prefix b,
     dc_status = CardUnused, dc_account_id = 0, dc_email_snapshot = [], dc_assigned_at = [],
     dc_redeem_count = 0, dc_first_redeemed_at = [], dc_last_redeemed_at = [],
     dc_first_redeem_ip = [], dc_last_redeem_ip = [], dc_first_consumer = [], dc_last_consumer = [],
     dc_payload = [], dc_expires_at = ba_expires_at b, dc_disabled_reason = [],
     dc_last_failure_code = [], dc_last_failure_at = [], dc_updated_at = now\<rparr>"

text \<open>
  One code: up to twenty draws, the first whose hash no card has. \<open>draw j\<close> are the
  random groups of attempt \<open>j\<close>.
\<close>

definition draw_code ::
  "(string \<Rightarrow> string) \<Rightarrow> string \<Rightarrow> string \<Rightarrow> (nat \<Rightarrow> string list) \<Rightarrow> delivery_db \<Rightarrow> (string \<times> string) option" where
  "draw_code sha fresh prefix draw db =
    find (\<lambda>(code, h). card_by_hash db h = None)
      (map (\<lambda>j. let code = generate_code prefix (draw j)
                in (code, hash_code sha (ensure_secret fresh (db_config db)) code)) [0..<20])"

text \<open>The cards of a batch, one after the other; \<open>None\<close> is the error that the draws are used up.\<close>

fun issue_cards ::
  "(string \<Rightarrow> string) \<Rightarrow> string \<Rightarrow> dl_sku \<Rightarrow> dl_batch \<Rightarrow> time \<Rightarrow> (nat \<Rightarrow> string list) list \<Rightarrow>
   delivery_db \<Rightarrow> issued_code list \<Rightarrow> (delivery_db \<times> issued_code list) option" where
  "issue_cards sha fresh sku b now [] db codes = Some (db, codes)"
| "issue_cards sha fresh sku b now (draw # draws) db codes =
     (case draw_code sha fresh (sk_code_prefix sku) draw db of
        None \<Rightarrow> None
      | Some (code, h) \<Rightarrow>
          (let c = new_card (next_row_id (map fst (db_cards db))) b (sk_code sku) code h now;
               item = \<lparr>ic_code = code, ic_code_mask = dc_code_mask c, ic_sku_code = sk_code sku,
                       ic_batch_name = ba_name b, ic_expires_at = ba_expires_at b\<rparr>
           in issue_cards sha fresh sku b now draws (save_card c db) (codes @ [item])))"

definition csv_field :: "string \<Rightarrow> string" where
  "csv_field s =
    (if \<exists>c\<in>set s. c \<in> {CHR '','', CHR 0x22, CHR 0x0A, CHR 0x0D}
     then CHR 0x22 # concat (map (\<lambda>c. if c = CHR 0x22 then [c, c] else [c]) s) @ [CHR 0x22]
     else s)"

definition csv_row :: "string list \<Rightarrow> string" where
  "csv_row cells = join_with '','' (map csv_field cells) @ [CHR 0x0D, CHR 0x0A]"

definition codes_to_csv :: "issued_code list \<Rightarrow> string" where
  "codes_to_csv codes =
    concat (csv_row [''code'', ''sku_code'', ''batch_name'', ''expires_at'']
      # map (\<lambda>i. csv_row [ic_code i, ic_sku_code i, ic_batch_name i, ic_expires_at i]) codes)"

record batch_result =
  bz_batch :: batch_view
  bz_codes :: "issued_code list"
  bz_csv :: string

definition batch_size :: "batch_request \<Rightarrow> int" where
  "batch_size br = max 1 (min (br_count br) 5000)"

text \<open>
  \<open>default_name\<close> is the name that a batch without one gets, \<open>draws i j\<close> the random
  groups of attempt \<open>j\<close> at card \<open>i\<close>. The batch row is committed before its cards, so it
  stays when the draws are used up.
\<close>

definition create_batch ::
  "(string \<Rightarrow> string) \<Rightarrow> string \<Rightarrow> account_rules \<Rightarrow> time \<Rightarrow> string \<Rightarrow> (nat \<Rightarrow> nat \<Rightarrow> string list) \<Rightarrow>
   batch_request \<Rightarrow> delivery_db \<Rightarrow> delivery_db \<times> (http_error + batch_result)" where
  "create_batch sha fresh rules now default_name draws br db =
    (case sku_by_code db (br_sku_code br) of
       None \<Rightarrow> (db, Inl (HttpError 400 MsgSkuMissing))
     | Some sku \<Rightarrow>
         if \<not> sk_enabled sku then (db, Inl (HttpError 400 MsgSkuMissing))
         else
           (let n = batch_size br;
                available = available_account_count rules now db sku;
                unused = unused_card_count db (sk_code sku)
            in if br_strict br \<and> available < unused + n
               then (db, Inl (HttpError 400 (MsgStockShort (sk_name sku) available unused n)))
               else
                 (let b = \<lparr>ba_id = next_row_id (map ba_id (db_batches db)),
                           ba_name = py_strip (or_else (br_name br) default_name), ba_sku_code = sk_code sku,
                           ba_platform = sk_platform sku, ba_code_prefix = sk_code_prefix sku,
                           ba_total_count = n, ba_strict = br_strict br,
                           ba_expires_at = py_strip (br_expires_at br), ba_note = py_strip (br_note br)\<rparr>;
                      db1 = with_secret fresh True (db\<lparr>db_batches := db_batches db @ [b]\<rparr>)
                  in case issue_cards sha fresh sku b now (map draws [0..<nat n]) db1 [] of
                       None \<Rightarrow> (db1, Inl (HttpError 500 MsgCodeGeneration))
                     | Some (db2, codes) \<Rightarrow>
                         (db2, Inr \<lparr>bz_batch = serialize_batch db2 b, bz_codes = codes, bz_csv = codes_to_csv codes\<rparr>))))"

section \<open>Enabling and disabling a card\<close>

definition admin_event :: "dl_card \<Rightarrow> string \<Rightarrow> delivery_message \<Rightarrow> (string, pyval) dict \<Rightarrow> dl_event" where
  "admin_event c etype msg detail =
    \<lparr>ev_id = 0, ev_card_id = dc_id c, ev_batch_id = dc_batch_id c, ev_sku_code = dc_sku_code c,
     ev_account_id = dc_account_id c, ev_type = etype, ev_success = True, ev_failure_code = [],
     ev_delivery_sequence = 0, ev_request_id = [], ev_idempotency_key = [], ev_consumer = [],
     ev_client_ip = [], ev_user_agent = [], ev_api_token_id = [], ev_response_profile = [],
     ev_message = msg, ev_detail = detail\<rparr>"

fun status_text :: "card_status \<Rightarrow> string" where
  "status_text CardUnused = ''unused''"
| "status_text CardRedeemed = ''redeemed''"
| "status_text CardDisabled = ''disabled''"
| "status_text CardExpired = ''expired''"
| "status_text CardBlocked = ''blocked''"

definition card_final_status :: "card_status \<Rightarrow> dl_card \<Rightarrow> card_status" where
  "card_final_status requested c =
    (if requested = CardUnused \<and> 0 < dc_account_id c then CardRedeemed else requested)"

definition set_card_status ::
  "int \<Rightarrow> card_status \<Rightarrow> string \<Rightarrow> time \<Rightarrow> delivery_db \<Rightarrow> delivery_db \<times> (http_error + dl_card)" where
  "set_card_status card_id requested reason now db =
    (case dict_get (db_cards db) card_id of
       None \<Rightarrow> (db, Inl (HttpError 404 MsgCardMissing))
     | Some c \<Rightarrow>
         (let st = card_final_status requested c;
              c1 = c\<lparr>dc_status := st, dc_disabled_reason := (if st = CardDisabled then py_strip reason else []),
                     dc_updated_at := now\<rparr>;
              e = admin_event c1 (if st = CardDisabled then ''admin_disable'' else ''admin_enable'')
                    (if reason \<noteq> [] then MsgText reason
                     else if st = CardRedeemed then MsgEnabledBound else MsgEnabled)
                    [(''requested_status'', PStr (status_text requested)), (''final_status'', PStr (status_text st))]
          in (add_event e (save_card c1 db), Inr c1)))"

section \<open>The consistency scan\<close>

datatype issue =
    RedeemedWithoutAccount int
  | AssignedAccountMissing int int
  | UsageMarkerMissing int int
  | UnusedCardHasAccount int int
  | DuplicateAssignedAccount int "int list"
  | SuccessLogCardMissing int int
  | SuccessLogAccountMismatch int int int int
  | SuccessLogCardUnredeemed int int

fun issue_type :: "issue \<Rightarrow> string" where
  "issue_type (RedeemedWithoutAccount _) = ''redeemed_without_account''"
| "issue_type (AssignedAccountMissing _ _) = ''assigned_account_missing''"
| "issue_type (UsageMarkerMissing _ _) = ''account_usage_marker_missing''"
| "issue_type (UnusedCardHasAccount _ _) = ''unused_card_has_account''"
| "issue_type (DuplicateAssignedAccount _ _) = ''duplicate_assigned_account''"
| "issue_type (SuccessLogCardMissing _ _) = ''success_log_card_missing''"
| "issue_type (SuccessLogAccountMismatch _ _ _ _) = ''success_log_account_mismatch''"
| "issue_type (SuccessLogCardUnredeemed _ _) = ''success_log_card_status_unredeemed''"

fun repairable :: "issue \<Rightarrow> bool" where
  "repairable (UsageMarkerMissing _ _) = True"
| "repairable (UnusedCardHasAccount _ _) = True"
| "repairable (SuccessLogCardUnredeemed _ _) = True"
| "repairable _ = False"

fun issue_card :: "issue \<Rightarrow> int" where
  "issue_card (RedeemedWithoutAccount c) = c"
| "issue_card (AssignedAccountMissing c _) = c"
| "issue_card (UsageMarkerMissing c _) = c"
| "issue_card (UnusedCardHasAccount c _) = c"
| "issue_card (DuplicateAssignedAccount _ _) = 0"
| "issue_card (SuccessLogCardMissing _ c) = c"
| "issue_card (SuccessLogAccountMismatch _ c _ _) = c"
| "issue_card (SuccessLogCardUnredeemed _ c) = c"

definition usage_marked :: "dl_account \<Rightarrow> int \<Rightarrow> bool" where
  "usage_marked a card_id \<longleftrightarrow> manually_used a \<and> assignment_card_id a = card_id"

definition card_issues :: "delivery_db \<Rightarrow> dl_card \<Rightarrow> issue list" where
  "card_issues db c =
    (let aid = dc_account_id c in
     (if dc_status c = CardRedeemed \<and> aid \<le> 0 then [RedeemedWithoutAccount (dc_id c)] else [])
     @ (if 0 < aid
        then (case dict_get (db_accounts db) aid of
                None \<Rightarrow> [AssignedAccountMissing (dc_id c) aid]
              | Some a \<Rightarrow>
                  (if \<not> usage_marked a (dc_id c) then [UsageMarkerMissing (dc_id c) aid] else [])
                  @ (if dc_status c = CardUnused then [UnusedCardHasAccount (dc_id c) aid] else []))
        else []))"

definition assigned_map :: "dl_card list \<Rightarrow> (int, dl_card list) dict" where
  "assigned_map cards =
    fold (\<lambda>c m. if 0 < dc_account_id c
            then dict_set (dc_account_id c) ((case dict_get m (dc_account_id c) of None \<Rightarrow> [] | Some cs \<Rightarrow> cs) @ [c]) m
            else m) cards []"

definition duplicate_issue :: "int \<times> dl_card list \<Rightarrow> issue list" where
  "duplicate_issue p =
    (let active = filter (\<lambda>c. dc_status c \<in> {CardUnused, CardRedeemed, CardDisabled, CardBlocked}) (snd p)
     in if 1 < length active then [DuplicateAssignedAccount (fst p) (map dc_id active)] else [])"

definition log_issues :: "delivery_db \<Rightarrow> dl_log \<Rightarrow> issue list" where
  "log_issues db l =
    (if \<not> lg_success l \<or> lg_card_id l = 0 then []
     else (case dict_get (db_cards db) (lg_card_id l) of
             None \<Rightarrow> [SuccessLogCardMissing (lg_id l) (lg_card_id l)]
           | Some c \<Rightarrow>
               (if lg_account_id l \<noteq> 0 \<and> dc_account_id c \<noteq> lg_account_id l
                then [SuccessLogAccountMismatch (lg_id l) (lg_card_id l) (lg_account_id l) (dc_account_id c)] else [])
               @ (if dc_status c = CardUnused \<and> 0 < dc_account_id c
                  then [SuccessLogCardUnredeemed (lg_id l) (lg_card_id l)] else [])))"

definition cards_by_id :: "delivery_db \<Rightarrow> dl_card list" where
  "cards_by_id db = sort_by (\<lambda>a b. dc_id a \<le> dc_id b) (map snd (db_cards db))"

definition all_issues :: "delivery_db \<Rightarrow> issue list" where
  "all_issues db =
    concat (map (card_issues db) (cards_by_id db))
    @ concat (map duplicate_issue (assigned_map (cards_by_id db)))
    @ concat (map (log_issues db) (db_logs db))"

record scan_report =
  sr_ok :: bool
  sr_issue_count :: nat
  sr_repairable_count :: nat
  sr_by_type :: "(string, int) dict"
  sr_issues :: "issue list"

definition count_types :: "issue list \<Rightarrow> (string, int) dict" where
  "count_types is = fold (\<lambda>i d. dict_set (issue_type i)
      ((case dict_get d (issue_type i) of None \<Rightarrow> 0 | Some n \<Rightarrow> n) + 1) d) is []"

definition scan_consistency :: "delivery_db \<Rightarrow> scan_report" where
  "scan_consistency db =
    (let is = all_issues db
     in \<lparr>sr_ok = (is = []), sr_issue_count = length is, sr_repairable_count = length (filter repairable is),
         sr_by_type = count_types is, sr_issues = take 500 is\<rparr>)"

section \<open>The repair\<close>

definition repaired_card :: "string \<Rightarrow> time \<Rightarrow> dl_card \<Rightarrow> dl_card" where
  "repaired_card now_iso now c =
    (if dc_status c = CardUnused
     then (let assigned = or_else (dc_assigned_at c) now_iso;
               first = or_else (dc_first_redeemed_at c) (or_else assigned now_iso)
           in c\<lparr>dc_status := CardRedeemed, dc_assigned_at := assigned, dc_first_redeemed_at := first,
                dc_last_redeemed_at := or_else (dc_last_redeemed_at c) (or_else first now_iso),
                dc_redeem_count := max 1 (dc_redeem_count c), dc_updated_at := now\<rparr>)
     else c\<lparr>dc_updated_at := now\<rparr>)"

record repair_state =
  rp_db :: delivery_db
  rp_seen :: "int set"
  rp_repaired :: "(int \<times> int \<times> string) list"

definition repair_issue :: "string \<Rightarrow> time \<Rightarrow> issue \<Rightarrow> repair_state \<Rightarrow> repair_state" where
  "repair_issue now_iso now i s =
    (if \<not> repairable i \<or> issue_card i = 0 \<or> issue_card i \<in> rp_seen s then s
     else (case dict_get (db_cards (rp_db s)) (issue_card i) of
             None \<Rightarrow> s
           | Some c \<Rightarrow>
               (case account_of_card (rp_db s) c of
                  None \<Rightarrow> s
                | Some a \<Rightarrow>
                    (let c1 = repaired_card now_iso now c;
                         a1 = mark_account_assigned c1 (or_else (dc_assigned_at c1) now_iso) now a
                     in \<lparr>rp_db = add_event (admin_event c1 ''admin_consistency_repair'' MsgRepaired
                                    [(''issue_type'', PStr (issue_type i))])
                                  (save_account a1 (save_card c1 (rp_db s))),
                         rp_seen = insert (issue_card i) (rp_seen s),
                         rp_repaired = rp_repaired s @ [(issue_card i, dc_account_id c1, issue_type i)]\<rparr>))))"

definition run_repair :: "string \<Rightarrow> time \<Rightarrow> delivery_db \<Rightarrow> repair_state" where
  "run_repair now_iso now db =
    fold (repair_issue now_iso now) (sr_issues (scan_consistency db))
      \<lparr>rp_db = db, rp_seen = {}, rp_repaired = []\<rparr>"

record repair_report =
  rr_before :: scan_report
  rr_after :: scan_report
  rr_repaired :: "(int \<times> int \<times> string) list"

definition repair_consistency :: "string \<Rightarrow> time \<Rightarrow> delivery_db \<Rightarrow> delivery_db \<times> repair_report" where
  "repair_consistency now_iso now db =
    (let s = run_repair now_iso now db
     in (rp_db s, \<lparr>rr_before = scan_consistency db, rr_after = scan_consistency (rp_db s),
                   rr_repaired = rp_repaired s\<rparr>))"

end
