(* ===== verification/DeliveryListing.thy ===== *)
theory DeliveryListing
  imports DeliveryAdmin
begin

text \<open>
  The listings of the card delivery (\<open>services/delivery_cards/service.py\<close>): batches,
  cards, events, call logs, one card with its history, and the summary of the
  administration page. None of them changes a table.
\<close>

section \<open>Filters\<close>

text \<open>
  \<open>column LIKE pattern\<close> as SQLite has it: \<open>%\<close> any text, \<open>_\<close> any character, the letters
  of either case alike. \<open>contains\<close> puts its argument between two \<open>%\<close> as it is.
\<close>

fun sql_like :: "string \<Rightarrow> string \<Rightarrow> bool" where
  "sql_like [] s = (s = [])"
| "sql_like (p # ps) [] = (p = CHR ''%'' \<and> sql_like ps [])"
| "sql_like (p # ps) (c # s) =
     (if p = CHR ''%'' then sql_like ps (c # s) \<or> sql_like (p # ps) s
      else (p = CHR ''_'' \<or> lower_char p = lower_char c) \<and> sql_like ps s)"

definition sql_contains :: "string \<Rightarrow> string \<Rightarrow> bool" where
  "sql_contains q s = sql_like (''%'' @ q @ ''%'') s"

fun occurs_in :: "string \<Rightarrow> string \<Rightarrow> bool" where
  "occurs_in q [] = (q = [])"
| "occurs_in q (c # s) = (py_startswith (c # s) q \<or> occurs_in q s)"

definition page_limit :: "int \<Rightarrow> nat" where
  "page_limit n = nat (max 1 (min (if n = 0 then 200 else n) 1000))"

definition newest_first :: "('a \<Rightarrow> int) \<Rightarrow> 'a list \<Rightarrow> 'a list" where
  "newest_first rid xs = sort_by (\<lambda>a b. rid b \<le> rid a) xs"

section \<open>Lists\<close>

definition list_batches :: "string \<Rightarrow> delivery_db \<Rightarrow> batch_view list" where
  "list_batches sku_code db =
    map (serialize_batch db) (newest_first ba_id
      (filter (\<lambda>b. sku_code = [] \<or> ba_sku_code b = sku_code) (db_batches db)))"

definition list_cards ::
  "string \<Rightarrow> card_status option \<Rightarrow> int \<Rightarrow> string \<Rightarrow> int \<Rightarrow> delivery_db \<Rightarrow> dl_card list" where
  "list_cards sku_code st batch_id search limit db =
    (let rows = take (page_limit limit) (newest_first dc_id
           (filter (\<lambda>c. (sku_code = [] \<or> dc_sku_code c = sku_code) \<and> (st = None \<or> st = Some (dc_status c))
                \<and> (batch_id = 0 \<or> dc_batch_id c = batch_id)) (map snd (db_cards db))));
         q = py_lower (py_strip search)
     in if q = [] then rows
        else filter (\<lambda>c. occurs_in q (py_lower (dc_code_mask c)) \<or> occurs_in q (py_lower (dc_email_snapshot c))) rows)"

record card_view =
  cv_card :: dl_card
  cv_account :: "dl_account option"
  cv_events :: "dl_event list"
  cv_logs :: "dl_log list"

definition card_detail :: "int \<Rightarrow> delivery_db \<Rightarrow> http_error + card_view" where
  "card_detail card_id db =
    (case dict_get (db_cards db) card_id of
       None \<Rightarrow> Inl (HttpError 404 MsgCardMissing)
     | Some c \<Rightarrow> Inr
         \<lparr>cv_card = c, cv_account = account_of_card db c,
          cv_events = take 50 (newest_first ev_id (filter (\<lambda>e. ev_card_id e = dc_id c) (db_events db))),
          cv_logs = take 50 (newest_first lg_id (filter (\<lambda>l. lg_card_id l = dc_id c) (db_logs db)))\<rparr>)"

text \<open>The hash of the code is taken with the secret, which the lookup makes when there is none.\<close>

definition lookup_card_by_code ::
  "(string \<Rightarrow> string) \<Rightarrow> string \<Rightarrow> string \<Rightarrow> delivery_db \<Rightarrow> delivery_db \<times> (http_error + card_view \<times> string \<times> string)" where
  "lookup_card_by_code sha fresh code db =
    (let n = normalize_code code; db1 = with_secret fresh True db in
     if n = [] then (db, Inl (HttpError 400 MsgCodeRequired))
     else (db1, case card_by_hash db1 (hash_code sha (db_config db1) n) of
                  None \<Rightarrow> Inl (HttpError 404 MsgCardMissing)
                | Some c \<Rightarrow>
                    (case card_detail (dc_id c) db1 of
                       Inl e \<Rightarrow> Inl e
                     | Inr v \<Rightarrow> Inr (v, dc_code_mask c, dc_code_prefix c))))"

definition list_events ::
  "string \<Rightarrow> bool option \<Rightarrow> string \<Rightarrow> string \<Rightarrow> string \<Rightarrow> int \<Rightarrow> delivery_db \<Rightarrow> dl_event list" where
  "list_events sku_code succeeded failure_code consumer request_id limit db =
    take (page_limit limit) (newest_first ev_id
      (filter (\<lambda>e. (sku_code = [] \<or> ev_sku_code e = sku_code) \<and> (succeeded = None \<or> succeeded = Some (ev_success e))
          \<and> (failure_code = [] \<or> ev_failure_code e = failure_code)
          \<and> (consumer = [] \<or> sql_contains consumer (ev_consumer e))
          \<and> (request_id = [] \<or> sql_contains request_id (ev_request_id e))) (db_events db)))"

definition list_api_logs ::
  "string \<Rightarrow> bool option \<Rightarrow> string \<Rightarrow> string \<Rightarrow> string \<Rightarrow> int \<Rightarrow> delivery_db \<Rightarrow> dl_log list" where
  "list_api_logs sku_code succeeded error_code consumer request_id limit db =
    take (page_limit limit) (newest_first lg_id
      (filter (\<lambda>l. (sku_code = [] \<or> lg_sku_code l = sku_code) \<and> (succeeded = None \<or> succeeded = Some (lg_success l))
          \<and> (error_code = [] \<or> lg_error_code l = error_code)
          \<and> (consumer = [] \<or> sql_contains consumer (lg_consumer l))
          \<and> (request_id = [] \<or> sql_contains request_id (lg_request_id l))) (db_logs db)))"

section \<open>The summary\<close>

text \<open>The number of the day in Beijing, eight hours ahead.\<close>

definition beijing_day :: "time \<Rightarrow> int" where
  "beijing_day t = \<lfloor>(t + 28800) / 86400\<rfloor>"

record delivery_summary =
  su_settings :: delivery_settings
  su_last_called_at :: "time option"
  su_today_success :: nat
  su_today_failed :: nat
  su_duplicate_failed :: nat
  su_pool_empty :: nat
  su_stock :: "stock_item list"
  su_recent_errors :: "dl_log list"

definition admin_summary :: "account_rules \<Rightarrow> time \<Rightarrow> delivery_db \<Rightarrow> delivery_summary" where
  "admin_summary rules now db =
    (let logs = db_logs db; today = filter (\<lambda>l. beijing_day (lg_created_at l) = beijing_day now) logs
     in \<lparr>su_settings = get_delivery_settings (db_config db),
         su_last_called_at = (if logs = [] then None else Some (lg_created_at (last logs))),
         su_today_success = length (filter lg_success today),
         su_today_failed = length (filter (\<lambda>l. \<not> lg_success l) today),
         su_duplicate_failed = length (filter (\<lambda>l. case lg_duplicate l of None \<Rightarrow> False | Some d \<Rightarrow> \<not> dk_ok d) today),
         su_pool_empty = length (filter (\<lambda>l. lg_error_code l = ''POOL_EMPTY'') today),
         su_stock = stock_summary rules now db,
         su_recent_errors = take 10 (newest_first lg_id (filter (\<lambda>l. \<not> lg_success l) logs))\<rparr>)"

end
