(* ===== verification/DeliveryProofs.thy ===== *)
theory DeliveryProofs
  imports DeliveryListing
begin

text \<open>
  The invariant of the card delivery, what its operations keep of every earlier
  state, and the properties that rest on the two: an account goes to one card, a
  binding is permanent, a code keeps its account, a failed request binds nothing.
\<close>

named_theorems delivery_frame \<open>tables that an operation on another table leaves alone\<close>

lemma write_api_log_frame [simp, delivery_frame]:
  "db_cards (write_api_log l db) = db_cards db" "db_accounts (write_api_log l db) = db_accounts db"
  "db_config (write_api_log l db) = db_config db" "db_skus (write_api_log l db) = db_skus db"
  "db_events (write_api_log l db) = db_events db" "db_batches (write_api_log l db) = db_batches db"
  by (simp_all add: write_api_log_def)

lemma add_event_frame [simp, delivery_frame]:
  "db_cards (add_event e db) = db_cards db" "db_accounts (add_event e db) = db_accounts db"
  "db_config (add_event e db) = db_config db" "db_skus (add_event e db) = db_skus db"
  "db_batches (add_event e db) = db_batches db"
  by (simp_all add: add_event_def)

lemma save_card_frame [simp, delivery_frame]:
  "db_cards (save_card c db) = dict_set (dc_id c) c (db_cards db)"
  "db_accounts (save_card c db) = db_accounts db" "db_config (save_card c db) = db_config db"
  "db_skus (save_card c db) = db_skus db" "db_events (save_card c db) = db_events db"
  by (simp_all add: save_card_def)

lemma save_account_frame [simp, delivery_frame]:
  "db_cards (save_account a db) = db_cards db"
  "db_accounts (save_account a db) = dict_set (ac_id a) a (db_accounts db)"
  "db_config (save_account a db) = db_config db"
  "db_skus (save_account a db) = db_skus db" "db_events (save_account a db) = db_events db"
  by (simp_all add: save_account_def)

lemma with_secret_frame [simp, delivery_frame]:
  "db_cards (with_secret fresh b db) = db_cards db" "db_accounts (with_secret fresh b db) = db_accounts db"
  "db_skus (with_secret fresh b db) = db_skus db" "db_events (with_secret fresh b db) = db_events db"
  by (simp_all add: with_secret_def)

lemma refresh_skus_frame [simp, delivery_frame]:
  "db_cards (refresh_skus db) = db_cards db" "db_accounts (refresh_skus db) = db_accounts db"
  "db_config (refresh_skus db) = db_config db" "db_events (refresh_skus db) = db_events db"
  by (simp_all add: refresh_skus_def)

lemma write_failed_api_log_frame [simp, delivery_frame]:
  "db_cards (write_failed_api_log env rq c action code msg db) = db_cards db"
  "db_accounts (write_failed_api_log env rq c action code msg db) = db_accounts db"
  by (simp_all add: write_failed_api_log_def Let_def)

section \<open>The invariant\<close>

definition limit_of :: "delivery_db \<Rightarrow> string \<Rightarrow> int" where
  "limit_of db code = (case sku_by_code db code of None \<Rightarrow> 0 | Some s \<Rightarrow> sk_max_refetch_count s)"

definition card_ok :: "(string \<Rightarrow> int) \<Rightarrow> dl_card \<Rightarrow> bool" where
  "card_ok limits c \<longleftrightarrow> 0 < dc_id c \<and> 0 \<le> dc_account_id c \<and> 0 \<le> dc_redeem_count c
     \<and> (dc_account_id c = 0 \<longrightarrow> dc_status c \<noteq> CardRedeemed)
     \<and> (0 < dc_account_id c \<longrightarrow> dc_status c \<noteq> CardUnused)
     \<and> (0 < limits (dc_sku_code c) \<longrightarrow> dc_redeem_count c \<le> limits (dc_sku_code c))"

text \<open>Two cards that may be in the tables together: other hashes, and no account in common.\<close>

definition apart :: "dl_card \<Rightarrow> dl_card \<Rightarrow> bool" where
  "apart c d \<longleftrightarrow> dc_code_hash c \<noteq> dc_code_hash d \<and> (0 < dc_account_id c \<longrightarrow> dc_account_id c \<noteq> dc_account_id d)"

definition accounts_ok :: "(int, dl_account) dict \<Rightarrow> bool" where
  "accounts_ok accounts \<longleftrightarrow> dict_ok accounts \<and> dict_all (\<lambda>k a. k = ac_id a \<and> 0 < k) accounts"

definition delivery_ok :: "delivery_db \<Rightarrow> bool" where
  "delivery_ok db \<longleftrightarrow> dict_ok (db_cards db)
     \<and> dict_all (\<lambda>k c. k = dc_id c \<and> card_ok (limit_of db) c) (db_cards db)
     \<and> (\<forall>p\<in>set (db_cards db). \<forall>q\<in>set (db_cards db). fst p \<noteq> fst q \<longrightarrow> apart (snd p) (snd q))
     \<and> accounts_ok (db_accounts db)"

lemma delivery_okI:
  assumes "dict_ok (db_cards db)"
    and "\<And>k c. dict_get (db_cards db) k = Some c \<Longrightarrow> k = dc_id c \<and> card_ok (limit_of db) c"
    and "\<And>k c j d. dict_get (db_cards db) k = Some c \<Longrightarrow> dict_get (db_cards db) j = Some d \<Longrightarrow> k \<noteq> j \<Longrightarrow> apart c d"
    and "accounts_ok (db_accounts db)"
  shows "delivery_ok db"
proof -
  have g: "dict_get (db_cards db) k = Some c" if "(k, c) \<in> set (db_cards db)" for k c
    using that dict_ok_in_set [OF assms(1)] by blast
  have "dict_all (\<lambda>k c. k = dc_id c \<and> card_ok (limit_of db) c) (db_cards db)"
    unfolding dict_all_def using g assms(2) by blast
  moreover have "apart (snd p) (snd q)"
    if "p \<in> set (db_cards db)" "q \<in> set (db_cards db)" "fst p \<noteq> fst q" for p q
    using that g [of "fst p" "snd p"] g [of "fst q" "snd q"] assms(3) by auto
  ultimately show ?thesis
    unfolding delivery_ok_def using assms(1,4) by (intro conjI ballI impI)
qed

lemma delivery_ok_card:
  assumes "delivery_ok db" and "dict_get (db_cards db) k = Some c"
  shows "k = dc_id c" and "card_ok (limit_of db) c" and "0 < k"
proof -
  have "k = dc_id c \<and> card_ok (limit_of db) c"
    using assms by (auto simp: delivery_ok_def dest: dict_all_get)
  then show "k = dc_id c" "card_ok (limit_of db) c" "0 < k" by (simp_all add: card_ok_def)
qed

lemma delivery_ok_apart:
  "delivery_ok db \<Longrightarrow> dict_get (db_cards db) k = Some c \<Longrightarrow> dict_get (db_cards db) j = Some d \<Longrightarrow> k \<noteq> j \<Longrightarrow> apart c d"
  by (fastforce simp: delivery_ok_def dest: map_of_SomeD)

lemma delivery_ok_dicts:
  assumes "delivery_ok db"
  shows "dict_ok (db_cards db)" "accounts_ok (db_accounts db)"
  using assms by (simp_all add: delivery_ok_def)

lemma accounts_ok_get: "accounts_ok as \<Longrightarrow> dict_get as k = Some a \<Longrightarrow> k = ac_id a \<and> 0 < k"
  unfolding accounts_ok_def by (auto dest: dict_all_get)

lemma accounts_ok_set: "accounts_ok as \<Longrightarrow> 0 < ac_id a \<Longrightarrow> accounts_ok (dict_set (ac_id a) a as)"
  unfolding accounts_ok_def by (auto intro: dict_all_set)

lemma find_Some_mem: "find P xs = Some x \<Longrightarrow> x \<in> set xs \<and> P x"
  by (auto simp: find_Some_iff)

lemma card_by_hash_get:
  assumes "delivery_ok db" and "card_by_hash db h = Some c"
  shows "dict_get (db_cards db) (dc_id c) = Some c" and "dc_code_hash c = h"
proof -
  have "c \<in> set (map snd (db_cards db)) \<and> dc_code_hash c = h"
    using assms(2) unfolding card_by_hash_def by (rule find_Some_mem)
  then have m: "c \<in> snd ` set (db_cards db)" and h: "dc_code_hash c = h" by simp_all
  then obtain k where "(k, c) \<in> set (db_cards db)" by auto
  then have k: "dict_get (db_cards db) k = Some c"
    using dict_ok_in_set [OF delivery_ok_dicts(1) [OF assms(1)]] by blast
  with delivery_ok_card(1) [OF assms(1) k] show "dict_get (db_cards db) (dc_id c) = Some c" by simp
  show "dc_code_hash c = h" by (rule h)
qed

lemma card_by_hash_unique:
  assumes "delivery_ok db" and "dict_get (db_cards db) k = Some c" and "card_by_hash db (dc_code_hash c) = Some d"
  shows "d = c"
proof (rule ccontr)
  assume "d \<noteq> c"
  note d = card_by_hash_get [OF assms(1,3)]
  have "k \<noteq> dc_id d" using d(1) assms(2) \<open>d \<noteq> c\<close> by auto
  from delivery_ok_apart [OF assms(1,2) d(1) this] d(2) show False by (simp add: apart_def)
qed

section \<open>What an operation keeps\<close>

definition binding :: "dl_card \<Rightarrow> int \<times> string \<times> string \<times> string \<times> string \<times> string \<times> (string, pyval) dict" where
  "binding c = (dc_account_id c, dc_email_snapshot c, dc_assigned_at c, dc_first_redeemed_at c,
     dc_first_redeem_ip c, dc_first_consumer c, dc_payload c)"

definition card_kept :: "dl_card \<Rightarrow> dl_card \<Rightarrow> bool" where
  "card_kept c c1 \<longleftrightarrow> dc_id c1 = dc_id c \<and> dc_code_hash c1 = dc_code_hash c \<and> dc_sku_code c1 = dc_sku_code c
     \<and> (0 < dc_account_id c \<longrightarrow> binding c1 = binding c)
     \<and> (dc_status c1 = CardExpired \<longrightarrow> dc_status c = CardExpired)"

definition secret_of :: "delivery_db \<Rightarrow> string" where
  "secret_of db = config_get (db_config db) secret_key []"

definition evolves :: "delivery_db \<Rightarrow> delivery_db \<Rightarrow> bool" where
  "evolves db db1 \<longleftrightarrow>
     (\<forall>k c. dict_get (db_cards db) k = Some c \<longrightarrow> (\<exists>c1. dict_get (db_cards db1) k = Some c1 \<and> card_kept c c1))
     \<and> (\<forall>k c1. dict_get (db_cards db) k = None \<longrightarrow> dict_get (db_cards db1) k = Some c1 \<longrightarrow> dc_status c1 \<noteq> CardExpired)
     \<and> set (db_events db) \<subseteq> set (db_events db1)
     \<and> (secret_of db \<noteq> [] \<longrightarrow> secret_of db1 = secret_of db)
     \<and> limit_of db1 = limit_of db"

definition good :: "delivery_db \<Rightarrow> delivery_db \<Rightarrow> bool" where
  "good db db1 \<longleftrightarrow> delivery_ok db1 \<and> evolves db db1"

lemma card_kept_trans: "card_kept c d \<Longrightarrow> card_kept d e \<Longrightarrow> card_kept c e"
  by (auto simp: card_kept_def binding_def)

lemma evolves_refl [simp]: "evolves db db"
  by (auto simp: evolves_def card_kept_def)

lemma evolves_trans:
  assumes "evolves a b" and "evolves b c"
  shows "evolves a c"
proof -
  have "\<exists>c2. dict_get (db_cards c) k = Some c2 \<and> card_kept x c2" if "dict_get (db_cards a) k = Some x" for k x
    using that assms card_kept_trans unfolding evolves_def by meson
  moreover have "dc_status z \<noteq> CardExpired"
    if "dict_get (db_cards a) k = None" "dict_get (db_cards c) k = Some z" for k z
  proof (cases "dict_get (db_cards b) k")
    case None
    with that assms(2) show ?thesis unfolding evolves_def by blast
  next
    case (Some y)
    with that assms(1) have "dc_status y \<noteq> CardExpired" unfolding evolves_def by blast
    moreover from Some assms(2) that have "card_kept y z" unfolding evolves_def by force
    ultimately show ?thesis by (auto simp: card_kept_def)
  qed
  ultimately show ?thesis using assms unfolding evolves_def by auto
qed

lemma good_refl: "delivery_ok db \<Longrightarrow> good db db"
  by (simp add: good_def)

lemma good_trans: "good a b \<Longrightarrow> good b c \<Longrightarrow> good a c"
  by (auto simp: good_def intro: evolves_trans)

text \<open>Operations that leave the cards alone.\<close>

lemma good_frame:
  assumes "delivery_ok db" and "db_cards db1 = db_cards db" and "accounts_ok (db_accounts db1)"
    and "limit_of db1 = limit_of db" and "set (db_events db) \<subseteq> set (db_events db1)"
    and "secret_of db \<noteq> [] \<Longrightarrow> secret_of db1 = secret_of db"
  shows "good db db1"
  using assms by (auto simp: good_def delivery_ok_def evolves_def card_kept_def)

lemma limit_of_cong: "db_skus db1 = db_skus db \<Longrightarrow> limit_of db1 = limit_of db"
  by (simp add: limit_of_def sku_by_code_def fun_eq_iff)

lemma secret_of_cong: "db_config db1 = db_config db \<Longrightarrow> secret_of db1 = secret_of db"
  by (simp add: secret_of_def)

lemma find_map_same: "(\<And>x. P (f x) = P x) \<Longrightarrow> find P (map f xs) = map_option f (find P xs)"
  by (induction xs) auto

lemma limit_of_map:
  assumes "\<And>s. sk_code (f s) = sk_code s" and "\<And>s. sk_max_refetch_count (f s) = sk_max_refetch_count s"
    and "db_skus db1 = map f (db_skus db)"
  shows "limit_of db1 = limit_of db"
proof
  fix code
  have "find (\<lambda>s. sk_code s = code) (map f (db_skus db)) = map_option f (find (\<lambda>s. sk_code s = code) (db_skus db))"
    by (rule find_map_same) (simp add: assms(1))
  then show "limit_of db1 code = limit_of db code"
    by (simp add: limit_of_def sku_by_code_def assms(2,3) split: option.split)
qed

lemma good_write_api_log: "delivery_ok db \<Longrightarrow> good db (write_api_log l db)"
  by (rule good_frame) (auto simp: delivery_ok_dicts intro: limit_of_cong secret_of_cong)

lemma good_add_event: "delivery_ok db \<Longrightarrow> good db (add_event e db)"
  by (rule good_frame) (auto simp: delivery_ok_dicts add_event_def intro: limit_of_cong secret_of_cong)

lemma good_save_account:
  "delivery_ok db \<Longrightarrow> 0 < ac_id a \<Longrightarrow> good db (save_account a db)"
  by (rule good_frame) (auto simp: delivery_ok_dicts intro: accounts_ok_set limit_of_cong secret_of_cong)

lemma good_with_secret: "delivery_ok db \<Longrightarrow> good db (with_secret fresh b db)"
  by (rule good_frame)
    (auto simp: delivery_ok_dicts secret_of_def with_secret_def ensure_secret_def intro: limit_of_cong)

lemma good_refresh_skus: "delivery_ok db \<Longrightarrow> good db (refresh_skus db)"
proof (rule good_frame)
  show "limit_of (refresh_skus db) = limit_of db"
    by (rule limit_of_map [of "sku_with_policy (db_config db)"]) (simp_all add: sku_with_policy_def refresh_skus_def)
qed (auto simp: delivery_ok_dicts intro: secret_of_cong)

lemma good_write_failed_api_log:
  assumes "delivery_ok db"
  shows "good db (write_failed_api_log env rq c action code msg db)"
proof -
  let ?db = "with_secret (re_fresh env) (normalize_code (normalize_code (rq_code rq)) \<noteq> []) db"
  have "good db ?db" by (rule good_with_secret [OF assms])
  moreover from this have "good ?db (write_failed_api_log env rq c action code msg db)"
    unfolding write_failed_api_log_def Let_def good_def [of db] by (blast intro: good_write_api_log)
  ultimately show ?thesis by (rule good_trans)
qed

text \<open>A card that is written: apart from the others, with what it had before.\<close>

lemma good_save_card:
  assumes ok: "delivery_ok db" and c1: "card_ok (limit_of db) c1"
    and others: "\<And>k d. dict_get (db_cards db) k = Some d \<Longrightarrow> k \<noteq> dc_id c1 \<Longrightarrow> apart c1 d"
    and old: "case dict_get (db_cards db) (dc_id c1) of None \<Rightarrow> dc_status c1 \<noteq> CardExpired | Some c \<Rightarrow> card_kept c c1"
  shows "good db (save_card c1 db)"
proof -
  have lim: "limit_of (save_card c1 db) = limit_of db" by (rule limit_of_cong) simp
  have sym: "apart d c1" if "apart c1 d" for d
    using that by (auto simp: apart_def)
  have "delivery_ok (save_card c1 db)"
  proof (rule delivery_okI)
    show "dict_ok (db_cards (save_card c1 db))" using delivery_ok_dicts(1) [OF ok] by (simp add: dict_ok_set)
    show "accounts_ok (db_accounts (save_card c1 db))" using delivery_ok_dicts(2) [OF ok] by simp
    show "k = dc_id c \<and> card_ok (limit_of (save_card c1 db)) c"
      if "dict_get (db_cards (save_card c1 db)) k = Some c" for k c
      using that c1 delivery_ok_card [OF ok] unfolding lim by (auto split: if_splits)
    show "apart c d" if "dict_get (db_cards (save_card c1 db)) k = Some c"
      "dict_get (db_cards (save_card c1 db)) j = Some d" "k \<noteq> j" for k c j d
      using that others sym delivery_ok_apart [OF ok] by (auto split: if_splits)
  qed
  moreover have "evolves db (save_card c1 db)"
    unfolding evolves_def lim secret_of_cong [of "save_card c1 db" db, simplified]
    using old by (auto split: option.splits simp: card_kept_def)
  ultimately show ?thesis by (simp add: good_def)
qed

lemma good_save_kept:
  assumes ok: "delivery_ok db" and c: "dict_get (db_cards db) k = Some c"
    and c1: "card_ok (limit_of db) c1" "card_kept c c1" "dc_account_id c1 = dc_account_id c"
  shows "good db (save_card c1 db)"
proof (rule good_save_card [OF ok c1(1)])
  have k: "k = dc_id c1" using delivery_ok_card(1) [OF ok c] c1(2) by (simp add: card_kept_def)
  show "apart c1 d" if "dict_get (db_cards db) j = Some d" "j \<noteq> dc_id c1" for j d
    using delivery_ok_apart [OF ok c that(1)] that(2) k c1(2,3) by (auto simp: apart_def card_kept_def)
  show "case dict_get (db_cards db) (dc_id c1) of None \<Rightarrow> dc_status c1 \<noteq> CardExpired | Some d \<Rightarrow> card_kept d c1"
    using c k c1(2) by simp
qed

section \<open>The redemption keeps the invariant\<close>

lemma good_then: "good a b \<Longrightarrow> (delivery_ok b \<Longrightarrow> good b c) \<Longrightarrow> good a c"
  by (auto simp: good_def intro: evolves_trans)

lemma account_of_card_get:
  assumes "account_of_card db c = Some a"
  shows "dict_get (db_accounts db) (dc_account_id c) = Some a" "0 < dc_account_id c"
  using assms by (auto simp: account_of_card_def split: if_splits)

lemma account_of_card_id:
  assumes "delivery_ok db" and "account_of_card db c = Some a"
  shows "ac_id a = dc_account_id c" "0 < ac_id a"
  using accounts_ok_get [OF delivery_ok_dicts(2) [OF assms(1)] account_of_card_get(1) [OF assms(2)]] by simp_all

lemma heal_account_frame [simp, delivery_frame]:
  "db_cards (heal_account env c db) = db_cards db" "db_events (heal_account env c db) = db_events db"
  "db_config (heal_account env c db) = db_config db"
  by (simp_all add: heal_account_def split: option.split)

lemma good_heal_account: "delivery_ok db \<Longrightarrow> good db (heal_account env c db)"
  using account_of_card_id(2) [of db c]
  by (auto simp: heal_account_def intro: good_refl good_save_account split: option.split)

lemma limit_of_sku: "sku_by_code db code = Some sku \<Longrightarrow> limit_of db code = sk_max_refetch_count sku"
  by (simp add: limit_of_def)

lemma good_save_event_log:
  assumes "good db db1" and "delivery_ok db1 \<Longrightarrow> good db1 (save_card c db1)"
  shows "good db (write_api_log l (add_event e (save_card c db1)))"
  using assms by (meson good_then good_write_api_log good_add_event)

lemma redeem_again_good:
  assumes ok: "delivery_ok db" and c: "dict_get (db_cards db) (dc_id c) = Some c"
    and st: "dc_status c = CardRedeemed" and sku: "sku_by_code db (dc_sku_code c) = Some sku"
  shows "good db (fst (redeem_again env rq c sku db))"
proof -
  let ?db = "heal_account env c db" and ?c = "refetched_card env rq c"
  have g: "good db ?db" by (rule good_heal_account [OF ok])
  have lim: "limit_of ?db = limit_of db" using g by (simp add: good_def evolves_def)
  have card: "card_ok (limit_of db) c" by (rule delivery_ok_card(2) [OF ok c])
  have "good ?db (save_card ?c ?db)"
    if d: "delivery_ok ?db" and l: "\<not> (0 < sk_max_refetch_count sku \<and> sk_max_refetch_count sku \<le> dc_redeem_count c)"
  proof (rule good_save_kept [OF d])
    show "dict_get (db_cards ?db) (dc_id c) = Some c" using c by simp
    show "card_ok (limit_of ?db) ?c"
      using card st l limit_of_sku [OF sku] unfolding lim by (auto simp: card_ok_def refetched_card_def)
    show "card_kept c ?c" by (auto simp: card_kept_def refetched_card_def binding_def)
    show "dc_account_id ?c = dc_account_id c" by (simp add: refetched_card_def)
  qed
  then have "good db (write_api_log l (add_event e (save_card ?c ?db)))"
    if "\<not> (0 < sk_max_refetch_count sku \<and> sk_max_refetch_count sku \<le> dc_redeem_count c)" for l e
    using g that by (intro good_save_event_log)
  moreover have "good db (write_api_log l ?db)" for l
    using g good_then good_write_api_log by blast
  ultimately show ?thesis
    using g unfolding redeem_again_def Let_def by (auto split: option.split)
qed

lemma picked_account_id:
  assumes "delivery_ok db" and "a \<in> snd ` set (db_accounts db)"
  shows "dict_get (db_accounts db) (ac_id a) = Some a" "0 < ac_id a"
proof -
  obtain k where k: "(k, a) \<in> set (db_accounts db)" using assms(2) by auto
  have ok: "accounts_ok (db_accounts db)" by (rule delivery_ok_dicts(2) [OF assms(1)])
  then have "dict_get (db_accounts db) k = Some a"
    using k dict_ok_in_set by (auto simp: accounts_ok_def)
  with accounts_ok_get [OF ok this] show "dict_get (db_accounts db) (ac_id a) = Some a" "0 < ac_id a" by simp_all
qed

lemma unassigned_account:
  assumes ok: "delivery_ok db" and a: "a \<notin> assigned_account_ids db" "0 < a"
    and c: "dict_get (db_cards db) k = Some c"
  shows "dc_account_id c \<noteq> a"
  using a map_of_SomeD [OF c] by (force simp: assigned_account_ids_def image_iff)

lemma redeemed_card_good:
  assumes ok: "delivery_ok db" and c: "dict_get (db_cards db) (dc_id c) = Some c"
    and st: "dc_status c = CardUnused"
    and a: "0 < ac_id a" "ac_id a \<notin> assigned_account_ids db"
  shows "good db (save_card (redeemed_card env rq a payload c) db)"
proof (rule good_save_card [OF ok])
  let ?c = "redeemed_card env rq a payload c"
  have card: "card_ok (limit_of db) c" by (rule delivery_ok_card(2) [OF ok c])
  then have z: "dc_account_id c = 0" using st by (simp add: card_ok_def)
  show "card_ok (limit_of db) ?c" using card a(1) by (simp add: card_ok_def redeemed_card_def)
  show "apart ?c d" if d: "dict_get (db_cards db) k = Some d" and "k \<noteq> dc_id ?c" for k d
  proof -
    have "apart c d" using delivery_ok_apart [OF ok c d] that by (simp add: redeemed_card_def)
    moreover have "dc_account_id d \<noteq> ac_id a" by (rule unassigned_account [OF ok a(2,1) d])
    ultimately show ?thesis by (simp add: apart_def redeemed_card_def)
  qed
  show "case dict_get (db_cards db) (dc_id ?c) of None \<Rightarrow> dc_status ?c \<noteq> CardExpired | Some d \<Rightarrow> card_kept d ?c"
    using c z by (simp add: redeemed_card_def card_kept_def)
qed

lemma assigned_account_ids_cong: "db_cards db1 = db_cards db \<Longrightarrow> assigned_account_ids db1 = assigned_account_ids db"
  by (simp add: assigned_account_ids_def)

lemma picked_fresh:
  assumes "delivery_ok db" and "pick_next_account rules now db sku = (Some a, n)"
  shows "0 < ac_id a" "ac_id a \<notin> assigned_account_ids db" "dict_get (db_accounts db) (ac_id a) = Some a"
proof -
  have p: "fst (pick_next_account rules now db sku) = Some a" using assms(2) by simp
  from picked_account_id [OF assms(1) picked_account(1) [OF p]]
  show "0 < ac_id a" "dict_get (db_accounts db) (ac_id a) = Some a" by simp_all
  from picked_account(2) [OF p] show "ac_id a \<notin> assigned_account_ids db"
    by (simp add: eligible_for_sku_def)
qed

lemma mark_account_id [simp]: "ac_id (mark_account_assigned c t now a) = ac_id a"
  by (simp add: mark_account_assigned_def)

lemma deliver_first_good:
  assumes "delivery_ok db" and "dict_get (db_cards db) (dc_id c) = Some c" and "dc_status c = CardUnused"
    and "0 < ac_id a" "ac_id a \<notin> assigned_account_ids db"
  shows "good db (fst (deliver_first env rq c sku a n stock dup db))"
proof -
  let ?c = "redeemed_card env rq a (delivery_snapshot env db a sku) c"
  let ?a = "mark_account_assigned ?c (re_now_iso env) (re_now env) a"
  have "good db (save_card ?c db)" by (rule redeemed_card_good [OF assms])
  moreover have "good x (save_account ?a x)" if "delivery_ok x" for x
    using that assms(4) by (intro good_save_account) simp_all
  ultimately have "good db (save_account ?a (save_card ?c db))" by (rule good_then)
  then have "good db (write_api_log l (add_event e (save_account ?a (save_card ?c db))))" for l e
    by (meson good_then good_write_api_log good_add_event)
  then show ?thesis unfolding deliver_first_def Let_def by simp
qed

lemma redeem_unused_good:
  assumes ok: "delivery_ok db" and c: "dict_get (db_cards db) (dc_id c) = Some c" and st: "dc_status c = CardUnused"
  shows "good db (fst (redeem_unused env rq c sku db))"
proof -
  let ?db = "refresh_skus db" and ?sku = "sku_with_policy (db_config db) sku"
  have g: "good db ?db" by (rule good_refresh_skus [OF ok])
  then have d: "delivery_ok ?db" by (simp add: good_def)
  have c': "dict_get (db_cards ?db) (dc_id c) = Some c" using c by simp
  obtain pick n where p: "pick_next_account (re_rules env) (re_now env) ?db ?sku = (pick, n)" by fastforce
  show ?thesis
  proof (cases pick)
    case None
    let ?c = "c\<lparr>dc_last_failure_code := ''POOL_EMPTY'', dc_last_failure_at := re_now_iso env,
      dc_updated_at := re_now env\<rparr>"
    have "good ?db (save_card ?c ?db)"
      by (rule good_save_kept [OF d c'])
        (use delivery_ok_card(2) [OF d c'] in \<open>simp_all add: card_ok_def card_kept_def binding_def\<close>)
    then have "good db (write_api_log l (add_event e (save_card ?c ?db)))" for l e
      by (rule good_save_event_log [OF g])
    with None p show ?thesis unfolding redeem_unused_def Let_def by simp
  next
    case (Some a)
    note f = picked_fresh [OF d p [unfolded Some]]
    have "good ?db (fst (deliver_first env rq c ?sku a n stock dup ?db))" for stock dup
      by (rule deliver_first_good [OF d c' st f(1,2)])
    then have "good db (fst (deliver_first env rq c ?sku a n stock dup ?db))" for stock dup
      using g good_trans by blast
    moreover have "good db (write_api_log l ?db)" for l
      using g good_then good_write_api_log by blast
    ultimately show ?thesis using p Some unfolding redeem_unused_def Let_def by simp
  qed
qed

lemma redeem_tx_cases:
  assumes "redeem_tx env rq db = (db1, TxCommit resp x)"
  obtains c sku where
    "card_by_hash db (hash_code (re_sha env) (db_config db) (normalize_code (rq_code rq))) = Some c"
    "sku_by_code db (dc_sku_code c) = Some sku" "dc_status c = CardRedeemed"
    "redeem_again env rq c sku db = (db1, TxCommit resp x)"
  | c sku where
    "card_by_hash db (hash_code (re_sha env) (db_config db) (normalize_code (rq_code rq))) = Some c"
    "sku_by_code db (dc_sku_code c) = Some sku" "dc_status c = CardUnused"
    "redeem_unused env rq c sku db = (db1, TxCommit resp x)"
  using assms unfolding redeem_tx_def by (auto split: option.splits if_splits)

lemma redeem_tx_good:
  assumes ok: "delivery_ok db" and tx: "redeem_tx env rq db = (db1, TxCommit resp x)"
  shows "good db db1"
  using tx
proof (cases rule: redeem_tx_cases)
  case (1 c sku)
  have "good db (fst (redeem_again env rq c sku db))"
    by (rule redeem_again_good [OF ok card_by_hash_get(1) [OF ok 1(1)] 1(3,2)])
  with 1(4) show ?thesis by simp
next
  case (2 c sku)
  have "good db (fst (redeem_unused env rq c sku db))"
    by (rule redeem_unused_good [OF ok card_by_hash_get(1) [OF ok 2(1)] 2(3)])
  with 2(4) show ?thesis by simp
qed

text \<open>The handler: which of its ends keeps the transaction's tables.\<close>

lemma redeem_card_cases:
  assumes "redeem_card env rq s = (s1, resp)"
  defines "db \<equiv> with_secret (re_fresh env) (extract_bearer_token (rq_authorization rq) \<noteq> []) (dl_db s)"
  obtains (failed) c action code msg pub where "resp = RedeemFailed pub msg"
      "dl_db s1 = write_failed_api_log env rq c action code msg db"
  | (committed) x where "redeem_tx env rq db = (dl_db s1, TxCommit resp x)"
      "verify_api_token (re_sha env) (db_config db) (rq_authorization rq) = Inr ()"
      "normalize_code (rq_code rq) \<noteq> []"
proof -
  define identity where
    "identity = rate_limit_identity (re_sha env) (db_config db) (rq_authorization rq) (rq_client_ip rq) (consumer_of rq)"
  obtain st adm where a: "admit_request env rq (db_config db) identity (dl_rate s) = (st, adm)" by fastforce
  note call = assms(1) [unfolded redeem_card_def Let_def, folded db_def, folded identity_def, unfolded a prod.case]
  show ?thesis
  proof (cases adm)
    case (Inl e)
    with call show ?thesis by (intro failed) auto
  next
    case (Inr u)
    then have v: "verify_api_token (re_sha env) (db_config db) (rq_authorization rq) = Inr ()"
        "normalize_code (rq_code rq) \<noteq> []"
      using a unfolding admit_request_def by (auto split: prod.splits sum.splits if_splits)
    show ?thesis
    proof (cases "re_fault env")
      case (Some msg)
      with call Inr show ?thesis by (intro failed) auto
    next
      case None
      obtain db1 e where t: "redeem_tx env rq db = (db1, e)" by fastforce
      from call Inr None have f: "finish_tx env rq identity st db (db1, e) = (s1, resp)" by (simp add: t)
      show ?thesis
      proof (cases e)
        case (TxRaise err c)
        with f show ?thesis by (intro failed) (auto simp: finish_tx_def)
      next
        case (TxCommit r x)
        with f have "resp = r" "dl_db s1 = db1" by (auto simp: finish_tx_def split: option.splits)
        with t TxCommit v show ?thesis by (intro committed) auto
      qed
    qed
  qed
qed

lemma redeem_card_good:
  assumes "delivery_ok (dl_db s)"
  shows "good (dl_db s) (dl_db (fst (redeem_card env rq s)))"
proof -
  let ?db = "with_secret (re_fresh env) (extract_bearer_token (rq_authorization rq) \<noteq> []) (dl_db s)"
  have g: "good (dl_db s) ?db" by (rule good_with_secret [OF assms])
  then have d: "delivery_ok ?db" by (simp add: good_def)
  obtain s1 resp where r: "redeem_card env rq s = (s1, resp)" by fastforce
  then show ?thesis
  proof (cases rule: redeem_card_cases)
    case failed
    with r good_trans [OF g good_write_failed_api_log [OF d]] show ?thesis by simp
  next
    case committed
    with r good_trans [OF g redeem_tx_good [OF d committed(1)]] show ?thesis by simp
  qed
qed

end
