(* ===== verification/DeliveryMachine.thy ===== *)
theory DeliveryMachine
  imports DeliveryProofs
begin

text \<open>
  The card delivery as a machine whose steps are its requests, the administration
  and the changes that the rest of the program makes to accounts, and the
  properties that hold over all its runs.
\<close>

section \<open>The administration keeps the invariant\<close>

lemma secret_not_setting: "secret_key \<notin> fst ` set delivery_config_keys"
  by (simp add: secret_key_def delivery_config_keys_def)

lemma config_get_merge_other:
  "k \<notin> fst ` set e \<Longrightarrow> config_get (dict_merge cfg e) k d = config_get cfg k d"
  by (simp add: config_get_def dict_get_merge_other)

lemma limit_of_sort_policy:
  assumes "db_skus db1 = set_sort_policy code p now (db_skus db)"
  shows "limit_of db1 = limit_of db"
proof -
  define f where "f = (\<lambda>s :: dl_sku. if p \<noteq> None \<and> p \<noteq> Some [] \<and> sk_code s = code
      then s\<lparr>sk_sort_policy := the p, sk_updated_at := now\<rparr> else s)"
  have "set_sort_policy code p now skus = map f skus" for skus
    by (cases p) (auto simp: set_sort_policy_def f_def)
  then show ?thesis
    using assms by (intro limit_of_map [of f]) (simp_all add: f_def)
qed

lemma update_settings_good:
  assumes ok: "delivery_ok db"
  shows "good db (fst (update_delivery_settings data now db))"
proof -
  define safe where "safe = map (\<lambda>(k, v). (k, case v of None \<Rightarrow> [] | Some t \<Rightarrow> t))
    (filter (\<lambda>(k, v). k \<in> fst ` set delivery_config_keys) data)"
  let ?plus = "set_sort_policy ''plus'' (dict_get safe ''delivery_cards_plus_sort_policy'') now"
  let ?free = "set_sort_policy ''free'' (dict_get safe ''delivery_cards_free_sort_policy'') now"
  let ?db = "db\<lparr>db_config := dict_merge (db_config db) safe, db_skus := ?free (?plus (db_skus db))\<rparr>"
  have "fst ` set safe \<subseteq> fst ` set delivery_config_keys" by (force simp: safe_def)
  then have k: "secret_key \<notin> fst ` set safe" using secret_not_setting by blast
  have "limit_of ?db = limit_of (db\<lparr>db_skus := ?plus (db_skus db)\<rparr>)"
    by (rule limit_of_sort_policy) simp
  also have "\<dots> = limit_of db" by (rule limit_of_sort_policy) simp
  finally have "limit_of ?db = limit_of db" .
  then have "good db ?db"
    using config_get_merge_other [OF k]
    by (intro good_frame [OF ok]) (simp_all add: delivery_ok_dicts(2) [OF ok] secret_of_def)
  then show ?thesis
    using good_refl [OF ok] unfolding update_delivery_settings_def Let_def safe_def [symmetric] by auto
qed

lemma rotate_good:
  assumes ok: "delivery_ok db"
  shows "good db (fst (rotate_delivery_token sha fresh random_part db))"
proof -
  have "secret_key \<notin> fst ` set [(token_hash_key, h), (''delivery_cards_api_token_last4'', l)]" for h l :: string
    by (simp add: secret_key_def token_hash_key_def)
  note m = config_get_merge_other [OF this]
  show ?thesis
    unfolding rotate_delivery_token_def rotate_api_token_def Let_def prod.case fst_conv
    by (rule good_frame [OF ok])
      (auto simp: delivery_ok_dicts(2) [OF ok] secret_of_def m ensure_secret_def
        simp del: dict_merge_Cons intro!: limit_of_cong)
qed

lemma fold_max_ge: "n \<le> fold max xs n \<and> (\<forall>x\<in>set xs. x \<le> fold max xs n)" for n :: int
proof (induction xs arbitrary: n)
  case (Cons x xs)
  have "max x n \<le> fold max xs (max x n) \<and> (\<forall>y\<in>set xs. y \<le> fold max xs (max x n))" by (rule Cons.IH)
  then show ?case by simp
qed simp

lemma next_row_id_fresh: "0 < next_row_id ids" "next_row_id ids \<notin> set ids"
  using fold_max_ge [of 0 ids] by (auto simp: next_row_id_def)

lemma draw_code_fresh:
  assumes "draw_code sha fresh prefix draw db = Some (code, h)"
  shows "card_by_hash db h = None"
proof -
  have "case (code, h) of (code, h) \<Rightarrow> card_by_hash db h = None"
    using find_Some_mem [OF assms [unfolded draw_code_def]] by blast
  then show ?thesis by simp
qed

lemma no_card_by_hash:
  "card_by_hash db h = None \<Longrightarrow> dict_get (db_cards db) k = Some c \<Longrightarrow> dc_code_hash c \<noteq> h"
  by (force simp: card_by_hash_def find_None_iff dest: map_of_SomeD)

lemma new_card_good:
  assumes ok: "delivery_ok db" and h: "card_by_hash db h = None"
  shows "good db (save_card (new_card (next_row_id (map fst (db_cards db))) b skc code h now) db)"
proof (rule good_save_card [OF ok])
  let ?c = "new_card (next_row_id (map fst (db_cards db))) b skc code h now"
  have "card_ok (limit_of db) ?c" using next_row_id_fresh(1) by (simp add: card_ok_def new_card_def)
  then show "card_ok (limit_of db) ?c" .
  show "apart ?c d" if "dict_get (db_cards db) k = Some d" "k \<noteq> dc_id ?c" for k d
    using no_card_by_hash [OF h that(1)] by (auto simp: apart_def new_card_def)
  have "dict_get (db_cards db) (dc_id ?c) = None"
    using next_row_id_fresh(2) [of "map fst (db_cards db)"] by (simp add: new_card_def map_of_eq_None_iff)
  then show "case dict_get (db_cards db) (dc_id ?c) of None \<Rightarrow> dc_status ?c \<noteq> CardExpired | Some d \<Rightarrow> card_kept d ?c"
    by (simp add: new_card_def)
qed

text \<open>What a batch adds: its cards, all unused and without an account.\<close>

lemma issue_cards_good:
  assumes "delivery_ok db" and "issue_cards sha fresh sku b now draws db codes = Some (db1, codes1)"
  shows "good db db1 \<and> db_accounts db1 = db_accounts db \<and> assigned_account_ids db1 = assigned_account_ids db
    \<and> unused_card_count db1 (sk_code sku) = unused_card_count db (sk_code sku) + int (length draws)
    \<and> length codes1 = length codes + length draws"
  using assms
proof (induction draws arbitrary: db codes)
  case Nil
  then show ?case by (simp add: good_refl)
next
  case (Cons draw draws)
  obtain code h where d: "draw_code sha fresh (sk_code_prefix sku) draw db = Some (code, h)"
    using Cons.prems(2) by (auto split: option.splits)
  define c where "c = new_card (next_row_id (map fst (db_cards db))) b (sk_code sku) code h now"
  have g: "good db (save_card c db)"
    unfolding c_def by (rule new_card_good [OF Cons.prems(1) draw_code_fresh [OF d]])
  have new: "db_cards (save_card c db) = db_cards db @ [(dc_id c, c)]"
    using next_row_id_fresh(2) [of "map fst (db_cards db)"]
    by (simp add: c_def new_card_def dict_set_new flip: set_map)
  have counts: "assigned_account_ids (save_card c db) = assigned_account_ids db"
    "unused_card_count (save_card c db) (sk_code sku) = unused_card_count db (sk_code sku) + 1"
    by (auto simp: assigned_account_ids_def unused_card_count_def new simp del: save_card_frame)
      (simp_all add: c_def new_card_def)
  from Cons.prems(2) d obtain codes' where
    "issue_cards sha fresh sku b now draws (save_card c db) codes' = Some (db1, codes1)"
    "length codes' = length codes + 1"
    unfolding c_def by (auto simp: Let_def)
  with Cons.IH [of "save_card c db" codes'] g counts show ?case
    by (auto simp: good_def intro: evolves_trans)
qed

lemma create_batch_good:
  assumes ok: "delivery_ok db"
  shows "good db (fst (create_batch sha fresh rules now name draws br db))"
proof -
  have g: "good db (with_secret fresh True (db\<lparr>db_batches := db_batches db @ [b]\<rparr>))" for b
  proof -
    have "good db (db\<lparr>db_batches := db_batches db @ [b]\<rparr>)"
      by (rule good_frame [OF ok]) (auto simp: delivery_ok_dicts(2) [OF ok] secret_of_def intro!: limit_of_cong)
    then show ?thesis by (rule good_then) (rule good_with_secret)
  qed
  have "good db db2"
    if "issue_cards sha fresh sku b now ds (with_secret fresh True (db\<lparr>db_batches := db_batches db @ [b']\<rparr>)) [] = Some (db2, codes)"
    for sku b ds b' db2 codes
    using g [of b'] that issue_cards_good by (meson good_then)
  then show ?thesis
    using g good_refl [OF ok] unfolding create_batch_def Let_def by (auto split: option.split)
qed

lemma set_card_status_good:
  assumes ok: "delivery_ok db" and st: "requested \<in> {CardUnused, CardDisabled}"
  shows "good db (fst (set_card_status card_id requested reason now db))"
proof (cases "dict_get (db_cards db) card_id")
  case None
  then show ?thesis by (simp add: set_card_status_def good_refl [OF ok])
next
  case (Some c)
  let ?c = "c\<lparr>dc_status := card_final_status requested c,
    dc_disabled_reason := (if card_final_status requested c = CardDisabled then py_strip reason else []), dc_updated_at := now\<rparr>"
  note card = delivery_ok_card(2) [OF ok Some]
  have "good db (save_card ?c db)"
  proof (rule good_save_kept [OF ok Some])
    show "card_ok (limit_of db) ?c" using card st by (auto simp: card_ok_def card_final_status_def)
    show "card_kept c ?c" using st by (auto simp: card_kept_def binding_def card_final_status_def)
  qed simp
  then have "good db (add_event e (save_card ?c db))" for e
    by (meson good_then good_add_event)
  with Some show ?thesis unfolding set_card_status_def Let_def by simp
qed

lemma repair_issue_good:
  assumes ok: "delivery_ok (rp_db s)"
  shows "good (rp_db s) (rp_db (repair_issue now_iso now i s))"
proof -
  let ?db = "rp_db s"
  have "good ?db (add_event e (save_account a1 (save_card c1 ?db)))"
    if c: "dict_get (db_cards ?db) (issue_card i) = Some c" and a: "account_of_card ?db c = Some a"
      and c1: "c1 = repaired_card now_iso now c" and a1: "ac_id a1 = ac_id a" for c a c1 a1 e
  proof -
    note card = delivery_ok_card(2) [OF ok c]
    from account_of_card_get(2) [OF a] card have st: "dc_status c \<noteq> CardUnused" by (simp add: card_ok_def)
    have "good ?db (save_card c1 ?db)"
      by (rule good_save_kept [OF ok c])
        (use card st in \<open>simp_all add: c1 repaired_card_def card_ok_def card_kept_def binding_def\<close>)
    moreover have "good x (save_account a1 x)" if "delivery_ok x" for x
      using that a1 account_of_card_id(2) [OF ok a] by (intro good_save_account) simp_all
    ultimately show ?thesis by (meson good_then good_add_event)
  qed
  then show ?thesis
    using good_refl [OF ok] unfolding repair_issue_def Let_def by (auto split: option.split)
qed

lemma repair_good:
  assumes "delivery_ok db"
  shows "good db (fst (repair_consistency now_iso now db))"
proof -
  have "good (rp_db s) (rp_db (fold (repair_issue now_iso now) issues s))" if "delivery_ok (rp_db s)" for issues s
    using that
  proof (induction issues arbitrary: s)
    case (Cons i rest)
    have g: "good (rp_db s) (rp_db (repair_issue now_iso now i s))" by (rule repair_issue_good [OF Cons.prems])
    then have "delivery_ok (rp_db (repair_issue now_iso now i s))" by (simp add: good_def)
    from good_trans [OF g Cons.IH [OF this]] show ?case by simp
  qed (simp add: good_refl)
  from this [of "\<lparr>rp_db = db, rp_seen = {}, rp_repaired = []\<rparr>"] assms show ?thesis
    by (simp add: repair_consistency_def run_repair_def Let_def)
qed

lemma lookup_good:
  "delivery_ok db \<Longrightarrow> good db (fst (lookup_card_by_code sha fresh code db))"
  using good_refl good_with_secret by (simp add: lookup_card_by_code_def Let_def)

section \<open>The machine\<close>

text \<open>
  \<open>OpAccounts\<close> stands for everything that the rest of the program does to the
  accounts table: any table whose keys are the positive ids of its rows.
\<close>

datatype delivery_op =
    OpRedeem redeem_env redeem_request
  | OpSettings "(string, string option) dict" time
  | OpRotateToken string string
  | OpCreateBatch string account_rules time string "nat \<Rightarrow> nat \<Rightarrow> string list" batch_request
  | OpDisable int string time
  | OpEnable int string time
  | OpRepair string time
  | OpLookup string string
  | OpAccounts "(int, dl_account) dict"

fun db_op :: "(string \<Rightarrow> string) \<Rightarrow> delivery_op \<Rightarrow> delivery_db \<Rightarrow> delivery_db" where
  "db_op sha (OpRedeem env rq) db = db"
| "db_op sha (OpSettings data now) db = fst (update_delivery_settings data now db)"
| "db_op sha (OpRotateToken fresh random_part) db = fst (rotate_delivery_token sha fresh random_part db)"
| "db_op sha (OpCreateBatch fresh rules now name draws br) db = fst (create_batch sha fresh rules now name draws br db)"
| "db_op sha (OpDisable card_id reason now) db = fst (set_card_status card_id CardDisabled reason now db)"
| "db_op sha (OpEnable card_id reason now) db = fst (set_card_status card_id CardUnused reason now db)"
| "db_op sha (OpRepair now_iso now) db = fst (repair_consistency now_iso now db)"
| "db_op sha (OpLookup fresh code) db = fst (lookup_card_by_code sha fresh code db)"
| "db_op sha (OpAccounts accounts) db = (if accounts_ok accounts then db\<lparr>db_accounts := accounts\<rparr> else db)"

fun delivery_step :: "(string \<Rightarrow> string) \<Rightarrow> delivery_op \<Rightarrow> delivery_state \<Rightarrow> delivery_state" where
  "delivery_step sha (OpRedeem env rq) s = fst (redeem_card (env\<lparr>re_sha := sha\<rparr>) rq s)"
| "delivery_step sha op s = s\<lparr>dl_db := db_op sha op (dl_db s)\<rparr>"

lemma db_op_good:
  assumes ok: "delivery_ok db"
  shows "good db (db_op sha op db)"
proof (cases op)
  case (OpAccounts accounts)
  have "good db (db\<lparr>db_accounts := accounts\<rparr>)" if "accounts_ok accounts"
    by (rule good_frame [OF ok]) (auto simp: that secret_of_def intro!: limit_of_cong)
  with OpAccounts show ?thesis by (simp add: good_refl [OF ok])
qed (simp_all add: ok good_refl update_settings_good rotate_good create_batch_good set_card_status_good
    repair_good lookup_good)

lemma delivery_step_good:
  assumes "delivery_ok (dl_db s)"
  shows "good (dl_db s) (dl_db (delivery_step sha op s))"
  using assms redeem_card_good db_op_good by (cases op) (simp_all del: db_op.simps)

text \<open>The machine, seen from a state it started in.\<close>

interpretation delivery: invariant_machine "delivery_step sha" "\<lambda>s. good (dl_db start) (dl_db s)"
  for sha start
  by unfold_locales (use delivery_step_good good_then in blast)

lemma delivery_run_good:
  "delivery_ok (dl_db s) \<Longrightarrow> good (dl_db s) (dl_db (fold (delivery_step sha) ops s))"
  using good_refl by (intro delivery.run_keeps)

lemma kept_card:
  assumes "good a b" and "dict_get (db_cards a) k = Some c"
  obtains d where "dict_get (db_cards b) k = Some d" "card_kept c d"
  using assms unfolding good_def evolves_def by blast

section \<open>What a successful answer says\<close>

definition same_code :: "redeem_request \<Rightarrow> redeem_request \<Rightarrow> bool" where
  "same_code rq rq' \<longleftrightarrow> normalize_code (rq_code rq') = normalize_code (rq_code rq)"

text \<open>The tables in which a request looks its card up.\<close>

abbreviation tx_start :: "redeem_env \<Rightarrow> redeem_request \<Rightarrow> delivery_state \<Rightarrow> delivery_db" where
  "tx_start env rq s \<equiv> with_secret (re_fresh env) (extract_bearer_token (rq_authorization rq) \<noteq> []) (dl_db s)"

definition request_hash :: "redeem_env \<Rightarrow> redeem_request \<Rightarrow> delivery_db \<Rightarrow> string" where
  "request_hash env rq db = hash_code (re_sha env) (db_config db) (normalize_code (rq_code rq))"

lemma request_hash_secret: "request_hash env rq db = re_sha env (secret_of db @ '':'' @ normalize_code (normalize_code (rq_code rq)))"
  by (simp add: request_hash_def hash_code_def secret_of_def)

lemma verified_token:
  assumes "verify_api_token sha cfg authorization = Inr u"
  shows "extract_bearer_token authorization \<noteq> []"
  using assms by (auto simp: verify_api_token_def Let_def split: if_splits)

lemma secret_after_token:
  assumes "re_fresh env \<noteq> []" and "extract_bearer_token (rq_authorization rq) \<noteq> []"
  shows "secret_of (tx_start env rq s) \<noteq> []"
  using assms by (simp add: with_secret_def ensure_secret_def secret_of_def config_get_def)

text \<open>What both kinds of success leave behind: the bound card, its snapshot in the answer, and the event.\<close>

definition delivered :: "redeem_request \<Rightarrow> delivery_db \<Rightarrow> dl_card \<Rightarrow> redeem_success \<Rightarrow> bool" where
  "delivered rq db c r \<longleftrightarrow> dict_get (db_cards db) (dc_id c) = Some c \<and> 0 < dc_account_id c
     \<and> dc_status c = CardRedeemed \<and> rs_account r = payload_account (dc_payload c)
     \<and> (\<exists>e\<in>set (db_events db). ev_card_id e = dc_id c
          \<and> (idempotency_key_of rq \<noteq> [] \<longrightarrow> ev_idempotency_key e = idempotency_key_of rq) \<and> ev_success e)"

lemma find_success_event_Some:
  assumes "find_success_event db card_id key = Some e"
  shows "py_strip key \<noteq> []" "e \<in> set (db_events db)" "ev_card_id e = card_id"
    "ev_idempotency_key e = py_strip key" "ev_success e"
proof -
  show k: "py_strip key \<noteq> []" using assms by (auto simp: find_success_event_def Let_def)
  have "e \<in> set (sort_by (\<lambda>a b. ev_id a \<le> ev_id b) (db_events db))
    \<and> ev_card_id e = card_id \<and> ev_idempotency_key e = py_strip key \<and> ev_success e"
    using assms k unfolding find_success_event_def Let_def by (simp only: if_False) (rule find_Some_mem)
  then show "e \<in> set (db_events db)" "ev_card_id e = card_id" "ev_idempotency_key e = py_strip key" "ev_success e"
    by simp_all
qed

lemma find_success_event_exists:
  assumes "e \<in> set (db_events db)" "ev_card_id e = card_id" "ev_idempotency_key e = py_strip key"
    "ev_success e" "py_strip key \<noteq> []"
  shows "find_success_event db card_id key \<noteq> None"
  using assms by (auto simp: find_success_event_def Let_def find_None_iff)

lemma idempotency_key_strip [simp]: "py_strip (idempotency_key_of rq) = idempotency_key_of rq"
  by (simp add: idempotency_key_of_def)

lemma added_event: "\<exists>e'\<in>set (db_events (add_event e db)). ev_card_id e' = ev_card_id e
    \<and> ev_idempotency_key e' = ev_idempotency_key e \<and> ev_success e' = ev_success e"
  by (auto simp: add_event_def)

lemma redeem_again_delivered:
  assumes ok: "delivery_ok db" and c: "dict_get (db_cards db) (dc_id c) = Some c" and st: "dc_status c = CardRedeemed"
    and r: "redeem_again env rq c sku db = (db1, TxCommit (RedeemOk r) x)"
  shows "\<exists>c1. delivered rq db1 c1 r \<and> dc_id c1 = dc_id c \<and> dc_payload c1 = dc_payload c"
    and "\<not> rs_first_redeem r"
    and "rs_idempotent_replay r \<longleftrightarrow> find_success_event db (dc_id c) (idempotency_key_of rq) \<noteq> None"
    and "rs_idempotent_replay r \<Longrightarrow> db_cards db1 = db_cards db \<and> db_events db1 = db_events db"
proof -
  have acc: "0 < dc_account_id c"
    using delivery_ok_card(2) [OF ok c] st by (auto simp: card_ok_def)
  let ?e = "find_success_event db (dc_id c) (idempotency_key_of rq)"
  show "\<exists>c1. delivered rq db1 c1 r \<and> dc_id c1 = dc_id c \<and> dc_payload c1 = dc_payload c"
  proof (cases ?e)
    case None
    with r c st acc show ?thesis
      unfolding redeem_again_def Let_def
      by (intro exI [of _ "refetched_card env rq c"])
        (auto simp: delivered_def refetched_card_def success_response_def Let_def add_event_def request_event_def
          split: if_splits)
  next
    case (Some e)
    with r c st acc find_success_event_Some [OF Some] show ?thesis
      unfolding redeem_again_def Let_def
      by (intro exI [of _ c]) (auto simp: delivered_def success_response_def Let_def)
  qed
  show "\<not> rs_first_redeem r" "rs_idempotent_replay r \<longleftrightarrow> ?e \<noteq> None"
    "rs_idempotent_replay r \<Longrightarrow> db_cards db1 = db_cards db \<and> db_events db1 = db_events db"
    using r unfolding redeem_again_def Let_def
    by (auto simp: success_response_def Let_def split: option.splits if_splits)
qed

lemma redeem_unused_delivered:
  assumes ok: "delivery_ok db" and c: "dict_get (db_cards db) (dc_id c) = Some c"
    and r: "redeem_unused env rq c sku db = (db1, TxCommit (RedeemOk r) x)"
  obtains a n dup stock where
    "pick_next_account (re_rules env) (re_now env) (refresh_skus db) (sku_with_policy (db_config db) sku) = (Some a, n)"
    "assert_no_duplicate (refresh_skus db) a (dc_id c) = dup" "dk_ok dup"
    "deliver_first env rq c (sku_with_policy (db_config db) sku) a n stock dup (refresh_skus db) = (db1, TxCommit (RedeemOk r) x)"
  using r unfolding redeem_unused_def Let_def by (auto split: prod.splits option.splits if_splits)

lemma deliver_first_delivered:
  assumes "deliver_first env rq c sku a n stock dup db = (db1, TxCommit (RedeemOk r) x)" and "0 < ac_id a"
  defines "c1 \<equiv> redeemed_card env rq a (delivery_snapshot env db a sku) c"
  shows "delivered rq db1 c1 r" and "rs_first_redeem r" and "\<not> rs_idempotent_replay r"
    and "dict_get (db_accounts db1) (ac_id a) = Some (mark_account_assigned c1 (re_now_iso env) (re_now env) a)"
proof -
  show "rs_first_redeem r" "\<not> rs_idempotent_replay r"
    "dict_get (db_accounts db1) (ac_id a) = Some (mark_account_assigned c1 (re_now_iso env) (re_now env) a)"
    using assms(1) unfolding deliver_first_def Let_def c1_def by (auto simp: success_response_def Let_def)
  show "delivered rq db1 c1 r"
    using assms(1,2) unfolding deliver_first_def Let_def c1_def delivered_def
    by (auto simp: redeemed_card_def success_response_def Let_def add_event_def request_event_def)
qed

lemma redeem_ok:
  assumes ok: "delivery_ok (dl_db s)" and r: "redeem_card env rq s = (s1, RedeemOk r)"
  obtains c c1 where
    "good (tx_start env rq s) (dl_db s1)"
    "card_by_hash (tx_start env rq s) (request_hash env rq (tx_start env rq s)) = Some c"
    "delivered rq (dl_db s1) c1 r" "card_kept c c1"
    "0 < dc_account_id c \<longrightarrow> \<not> rs_first_redeem r \<and> rs_account r = payload_account (dc_payload c)"
    "0 < dc_account_id c \<longrightarrow> idempotency_key_of rq \<noteq> [] \<longrightarrow>
       (\<exists>e\<in>set (db_events (dl_db s)). ev_card_id e = dc_id c \<and> ev_idempotency_key e = idempotency_key_of rq \<and> ev_success e) \<longrightarrow>
       rs_idempotent_replay r \<and> db_cards (dl_db s1) = db_cards (dl_db s) \<and> db_events (dl_db s1) = db_events (dl_db s)"
    "extract_bearer_token (rq_authorization rq) \<noteq> []"
proof -
  let ?db = "tx_start env rq s"
  have d: "delivery_ok ?db" using good_with_secret [OF ok] by (simp add: good_def)
  from r obtain x where tx: "redeem_tx env rq ?db = (dl_db s1, TxCommit (RedeemOk r) x)"
    and tok: "extract_bearer_token (rq_authorization rq) \<noteq> []"
    by (cases rule: redeem_card_cases) (auto dest: verified_token)
  note g = redeem_tx_good [OF d tx]
  from tx show ?thesis
  proof (cases rule: redeem_tx_cases)
    case (1 c sku)
    note c = card_by_hash_get(1) [OF d 1(1)]
    note again = redeem_again_delivered [OF d c 1(3,4)]
    from again(1) obtain c1 where c1: "delivered rq (dl_db s1) c1 r" "dc_id c1 = dc_id c" "dc_payload c1 = dc_payload c" by blast
    from kept_card [OF g c] c1 have k: "card_kept c c1" by (auto simp: delivered_def)
    have ev: "db_cards (tx_start env rq s) = db_cards (dl_db s)" "db_events (tx_start env rq s) = db_events (dl_db s)"
      by simp_all
    show ?thesis
      using again(2-4) c1 find_success_event_exists [of _ ?db "dc_id c" "idempotency_key_of rq"]
      by (intro that [OF g 1(1) [folded request_hash_def] c1(1) k _ _ tok]) (auto simp: delivered_def)
  next
    case (2 c sku)
    note c = card_by_hash_get(1) [OF d 2(1)]
    obtain a n dup stock where
      p: "pick_next_account (re_rules env) (re_now env) (refresh_skus ?db) (sku_with_policy (db_config ?db) sku) = (Some a, n)"
      and dl: "deliver_first env rq c (sku_with_policy (db_config ?db) sku) a n stock dup (refresh_skus ?db)
        = (dl_db s1, TxCommit (RedeemOk r) x)"
      by (rule redeem_unused_delivered [OF d c 2(4)])
    have "delivery_ok (refresh_skus ?db)" using good_refresh_skus [OF d] by (simp add: good_def)
    note f = picked_fresh [OF this p]
    note del = deliver_first_delivered(1) [OF dl f(1)]
    have "dc_account_id c = 0"
      using delivery_ok_card(2) [OF d c] 2(3) by (auto simp: card_ok_def)
    moreover from kept_card [OF g c] del
    have "card_kept c (redeemed_card env rq a (delivery_snapshot env (refresh_skus ?db) a (sku_with_policy (db_config ?db) sku)) c)"
      by (auto simp: delivered_def redeemed_card_def)
    ultimately show ?thesis
      by (intro that [OF g 2(1) [folded request_hash_def] del _ _ _ tok]) auto
  qed
qed

end
