(* ===== verification/DeliveryProperties.thy ===== *)
theory DeliveryProperties
  imports DeliveryMachine
begin

text \<open>
  The properties of the card delivery, each over all runs of its machine or over one
  call of its handler, with a small instance of the tables on which their hypotheses
  hold.
\<close>

section \<open>An instance\<close>

definition demo_account :: "int \<Rightarrow> dl_account" where
  "demo_account i = \<lparr>ac_id = i, ac_platform = ''chatgpt'', ac_email = ''u@x'', ac_password = ''p'',
     ac_status = ''ok'', ac_extra = [], ac_created_at = 0, ac_updated_at = 0\<rparr>"

definition demo_sku :: dl_sku where
  "demo_sku = \<lparr>sk_id = 1, sk_code = ''plus'', sk_name = ''Plus'', sk_platform = ''chatgpt'', sk_code_prefix = ''P'',
     sk_delivery_profile = ''chatgpt_basic'', sk_sort_policy = ''earliest_expiry'', sk_allow_refetch = True,
     sk_max_refetch_count = 2, sk_enabled = True, sk_updated_at = 0\<rparr>"

definition demo_batch :: dl_batch where
  "demo_batch = \<lparr>ba_id = 1, ba_name = ''b'', ba_sku_code = ''plus'', ba_platform = ''chatgpt'', ba_code_prefix = ''P'',
     ba_total_count = 1, ba_strict = True, ba_expires_at = [], ba_note = []\<rparr>"

text \<open>The hash of the instance is the text itself.\<close>

definition demo_config :: config where
  "demo_config = [(''delivery_cards_api_enabled'', ''true''), (secret_key, ''k''),
     (token_hash_key, ''delivery-token:k:t'')]"

definition demo_rules :: account_rules where
  "demo_rules = \<lparr>ar_validity = \<lambda>_. ''valid'', ar_subscription = \<lambda>_. ''plus'', ar_active_until = \<lambda>_. None\<rparr>"

definition demo_db :: delivery_db where
  "demo_db = \<lparr>db_config = demo_config, db_skus = [demo_sku], db_batches = [demo_batch],
     db_cards = [(1, new_card 1 demo_batch ''plus'' ''P-1'' ''k:P-1'' 0),
                 (2, (new_card 2 demo_batch ''plus'' ''P-2'' ''k:P-2'' 0)
                       \<lparr>dc_status := CardRedeemed, dc_account_id := 9, dc_redeem_count := 1\<rparr>)],
     db_accounts = [(7, demo_account 7)], db_events = [], db_logs = [], db_phones = []\<rparr>"

definition demo_state :: delivery_state where
  "demo_state = \<lparr>dl_rate = [], dl_db = demo_db\<rparr>"

definition demo_env :: redeem_env where
  "demo_env = \<lparr>re_sha = \<lambda>s. s, re_fresh = ''f'', re_rules = demo_rules, re_instant = \<lambda>_. None, re_trace = ''tr'',
     re_started = 100, re_now = 100, re_now_iso = ''now'', re_fault = None\<rparr>"

definition demo_request :: "string \<Rightarrow> redeem_request" where
  "demo_request code = \<lparr>rq_code = code, rq_consumer = ''c'', rq_request_id = ''r1'', rq_idempotency_key = [],
     rq_authorization = ''Bearer t'', rq_client_ip = ''ip'', rq_user_agent = []\<rparr>"

lemma demo_ok: "delivery_ok (dl_db demo_state)"
  by code_simp

lemma demo_fresh: "re_fresh demo_env \<noteq> []"
  by (simp add: demo_env_def)

definition demo_first :: "delivery_state \<times> redeem_response" where
  "demo_first = redeem_card demo_env (demo_request ''p-1'') demo_state"

lemma demo_first_ok:
  "\<exists>r. redeem_card demo_env (demo_request ''p-1'') demo_state = (fst demo_first, RedeemOk r) \<and> rs_first_redeem r"
proof -
  have "case snd demo_first of RedeemOk r \<Rightarrow> rs_first_redeem r | _ \<Rightarrow> False" by code_simp
  then show ?thesis
    by (cases "redeem_card demo_env (demo_request ''p-1'') demo_state") (auto simp: demo_first_def split: redeem_response.splits)
qed

lemma demo_second_ok:
  "\<exists>r. redeem_card demo_env (demo_request ''P-1'') (fst demo_first)
     = (fst (redeem_card demo_env (demo_request ''P-1'') (fst demo_first)), RedeemOk r)"
proof -
  have "case snd (redeem_card demo_env (demo_request ''P-1'') (fst demo_first)) of RedeemOk r \<Rightarrow> True | _ \<Rightarrow> False"
    by code_simp
  then show ?thesis
    by (cases "redeem_card demo_env (demo_request ''P-1'') (fst demo_first)") (auto split: redeem_response.splits)
qed

section \<open>Properties\<close>

text \<open>
  C13. An account is delivered by at most one card: whatever requests, administration,
  repairs and changes of the accounts table happen, two cards that are bound to the
  same account are one card.
\<close>

theorem account_delivered_once:
  assumes "delivery_ok (dl_db s)"
    and "dict_get (db_cards (dl_db (fold (delivery_step sha) ops s))) k = Some c"
    and "dict_get (db_cards (dl_db (fold (delivery_step sha) ops s))) j = Some d"
    and "0 < dc_account_id c" and "dc_account_id c = dc_account_id d"
  shows "k = j"
proof (rule ccontr)
  assume "k \<noteq> j"
  have "delivery_ok (dl_db (fold (delivery_step sha) ops s))"
    using delivery_run_good [OF assms(1)] by (simp add: good_def)
  from delivery_ok_apart [OF this assms(2,3) \<open>k \<noteq> j\<close>] assms(4,5) show False by (simp add: apart_def)
qed

theorem account_delivered_once_witness:
  "\<exists>c. (2 :: int) = 2 \<and> dict_get (db_cards (dl_db (fold (delivery_step (re_sha demo_env)) [] demo_state))) 2 = Some c
     \<and> 0 < dc_account_id c"
proof -
  have g: "\<exists>c. dict_get (db_cards (dl_db (fold (delivery_step (re_sha demo_env)) [] demo_state))) 2 = Some c
    \<and> 0 < dc_account_id c"
    by (simp add: demo_state_def demo_db_def)
  then obtain c where c: "dict_get (db_cards (dl_db (fold (delivery_step (re_sha demo_env)) [] demo_state))) 2 = Some c"
    "0 < dc_account_id c" by blast
  from account_delivered_once [OF demo_ok c(1,1,2) refl] c show ?thesis by blast
qed

text \<open>
  C2. A binding is permanent: once a card is bound, it stays in the table with its
  account, its snapshot of what was delivered and the data of its first redemption,
  through every later request, disabling, enabling and repair, and it never becomes
  unused, so it is never given a second account.
\<close>

theorem binding_permanent:
  assumes "delivery_ok (dl_db s)" and "dict_get (db_cards (dl_db s)) k = Some c" and "0 < dc_account_id c"
  shows "\<exists>d. dict_get (db_cards (dl_db (fold (delivery_step sha) ops s))) k = Some d
    \<and> binding d = binding c \<and> dc_status d \<noteq> CardUnused"
proof -
  note g = delivery_run_good [OF assms(1), of sha ops]
  from kept_card [OF g assms(2)] obtain d where
    d: "dict_get (db_cards (dl_db (fold (delivery_step sha) ops s))) k = Some d" "card_kept c d" by blast
  then have b: "binding d = binding c" using assms(3) by (simp add: card_kept_def)
  have "card_ok (limit_of (dl_db (fold (delivery_step sha) ops s))) d"
    using g delivery_ok_card(2) [OF _ d(1)] by (simp add: good_def)
  with b assms(3) have "dc_status d \<noteq> CardUnused" by (auto simp: card_ok_def binding_def)
  with d(1) b show ?thesis by blast
qed

theorem binding_permanent_witness:
  "\<exists>c d. dict_get (db_cards (dl_db demo_state)) 2 = Some c
    \<and> dict_get (db_cards (dl_db (fold (delivery_step (re_sha demo_env)) [OpDisable 2 ''x'' 1, OpEnable 2 [] 2] demo_state))) 2 = Some d
    \<and> binding d = binding c \<and> dc_status d \<noteq> CardUnused"
proof -
  have "\<exists>c. dict_get (db_cards (dl_db demo_state)) 2 = Some c \<and> 0 < dc_account_id c"
    by (simp add: demo_state_def demo_db_def)
  then obtain c where c: "dict_get (db_cards (dl_db demo_state)) 2 = Some c" "0 < dc_account_id c" by blast
  from binding_permanent [OF demo_ok c, of "re_sha demo_env" "[OpDisable 2 ''x'' 1, OpEnable 2 [] 2]"] c(1)
  show ?thesis by blast
qed

lemma request_hash_stable:
  assumes "secret_of db \<noteq> []" and "secret_of db \<noteq> [] \<Longrightarrow> secret_of db' = secret_of db"
    and "re_sha env' = re_sha env" and "same_code rq rq'"
  shows "request_hash env' rq' db' = request_hash env rq db"
  using assms by (simp add: request_hash_secret same_code_def)

text \<open>A request after another with the same code finds the card that the first one delivered.\<close>

lemma later_request_finds_card:
  assumes ok: "delivery_ok (dl_db s)" and first: "redeem_card env rq s = (s1, RedeemOk r)"
    and later: "redeem_card env' rq' (fold (delivery_step sha) ops s1) = (s3, RedeemOk r')"
    and env: "re_fresh env \<noteq> []" "re_sha env' = re_sha env" and rq: "same_code rq rq'"
  obtains c1 c2 where "delivered rq (dl_db s1) c1 r"
    "card_by_hash (tx_start env' rq' (fold (delivery_step sha) ops s1))
       (request_hash env' rq' (tx_start env' rq' (fold (delivery_step sha) ops s1))) = Some c2"
    "binding c2 = binding c1" "dc_id c2 = dc_id c1" "0 < dc_account_id c2"
    "delivery_ok (dl_db (fold (delivery_step sha) ops s1))"
    "set (db_events (dl_db s1)) \<subseteq> set (db_events (dl_db (fold (delivery_step sha) ops s1)))"
proof -
  let ?s2 = "fold (delivery_step sha) ops s1"
  let ?db = "tx_start env rq s" and ?db2 = "tx_start env' rq' ?s2"
  obtain c c1 where g: "good ?db (dl_db s1)" and h: "card_by_hash ?db (request_hash env rq ?db) = Some c"
    and del: "delivered rq (dl_db s1) c1 r" and kept: "card_kept c c1"
    and tok: "extract_bearer_token (rq_authorization rq) \<noteq> []"
    by (rule redeem_ok [OF ok first])
  have ok1: "delivery_ok (dl_db s1)" using g by (simp add: good_def)
  have run: "good (dl_db s1) (dl_db ?s2)" by (rule delivery_run_good [OF ok1])
  then have ok2: "delivery_ok (dl_db ?s2)" by (simp add: good_def)
  have g2: "good ?db ?db2"
    by (rule good_trans [OF good_trans [OF g run] good_with_secret [OF ok2]])
  from g2 have ok2': "delivery_ok ?db2" by (simp add: good_def)
  have d: "delivery_ok ?db" using good_with_secret [OF ok] by (simp add: good_def)
  have s: "secret_of ?db \<noteq> []" by (rule secret_after_token [OF env(1) tok])
  have hash: "request_hash env' rq' ?db2 = request_hash env rq ?db"
    by (rule request_hash_stable [OF s _ env(2) rq]) (use g2 in \<open>simp add: good_def evolves_def\<close>)
  obtain c2 where c2: "card_by_hash ?db2 (request_hash env' rq' ?db2) = Some c2"
    by (rule redeem_ok [OF ok2 later])
  obtain e where e: "dict_get (db_cards ?db2) (dc_id c1) = Some e" "card_kept c1 e"
    using kept_card [OF run] del by (auto simp: delivered_def)
  have "dc_code_hash e = request_hash env rq ?db"
    using e(2) kept card_by_hash_get(2) [OF d h] by (simp add: card_kept_def)
  with card_by_hash_unique [OF ok2' e(1)] c2 have "c2 = e" by (simp add: hash)
  moreover from e(2) del have "binding e = binding c1" "dc_id e = dc_id c1" "0 < dc_account_id e"
    by (auto simp: card_kept_def delivered_def binding_def)
  moreover have "set (db_events (dl_db s1)) \<subseteq> set (db_events (dl_db ?s2))"
    using run by (simp add: good_def evolves_def)
  ultimately show ?thesis using del c2 ok2 by (intro that [of c1 c2]) auto
qed

text \<open>
  C5. A code keeps its account: once a code was redeemed, every later successful
  request with that code, whatever happened in between, answers with the account
  data that the first one answered with, and is never a first redemption.
\<close>

theorem same_code_same_account:
  assumes "delivery_ok (dl_db s)" and "redeem_card env rq s = (s1, RedeemOk r)"
    and "redeem_card env' rq' (fold (delivery_step sha) ops s1) = (s3, RedeemOk r')"
    and "re_fresh env \<noteq> []" and "re_sha env' = re_sha env" and "same_code rq rq'"
  shows "rs_account r' = rs_account r \<and> \<not> rs_first_redeem r'"
proof -
  let ?s2 = "fold (delivery_step sha) ops s1"
  obtain c1 c2 where f: "delivered rq (dl_db s1) c1 r"
    "card_by_hash (tx_start env' rq' ?s2) (request_hash env' rq' (tx_start env' rq' ?s2)) = Some c2"
    "binding c2 = binding c1" "0 < dc_account_id c2" "delivery_ok (dl_db ?s2)"
    by (rule later_request_finds_card [OF assms])
  obtain c where
    "card_by_hash (tx_start env' rq' ?s2) (request_hash env' rq' (tx_start env' rq' ?s2)) = Some c"
    "0 < dc_account_id c \<longrightarrow> \<not> rs_first_redeem r' \<and> rs_account r' = payload_account (dc_payload c)"
    by (rule redeem_ok [OF f(5) assms(3)])
  with f show ?thesis by (simp add: delivered_def binding_def)
qed

theorem same_code_same_account_witness:
  "\<exists>r r'. redeem_card demo_env (demo_request ''p-1'') demo_state = (fst demo_first, RedeemOk r)
    \<and> redeem_card demo_env (demo_request ''P-1'') (fst demo_first)
        = (fst (redeem_card demo_env (demo_request ''P-1'') (fst demo_first)), RedeemOk r')
    \<and> rs_account r' = rs_account r \<and> \<not> rs_first_redeem r'"
proof -
  obtain r r' where r: "redeem_card demo_env (demo_request ''p-1'') demo_state = (fst demo_first, RedeemOk r)"
    "redeem_card demo_env (demo_request ''P-1'') (fst demo_first)
      = (fst (redeem_card demo_env (demo_request ''P-1'') (fst demo_first)), RedeemOk r')"
    using demo_first_ok demo_second_ok by blast
  have s: "same_code (demo_request ''p-1'') (demo_request ''P-1'')" by code_simp
  have "rs_account r' = rs_account r \<and> \<not> rs_first_redeem r'"
    by (rule same_code_same_account [where ops = "[]", OF demo_ok r(1), unfolded fold_simps, OF r(2) demo_fresh refl s])
  with r show ?thesis by blast
qed

text \<open>
  A repeated request changes nothing: when a request with an idempotency key (or
  request id) succeeded, a later successful request with the same code and key is
  answered as a replay, and no card and no event is changed or added.
\<close>

lemma replayed_request_changes_nothing:
  assumes "delivery_ok (dl_db s)" and "redeem_card env rq s = (s1, RedeemOk r)"
    and "redeem_card env' rq' (fold (delivery_step sha) ops s1) = (s3, RedeemOk r')"
    and "re_fresh env \<noteq> []" and "re_sha env' = re_sha env" and "same_code rq rq'"
    and "idempotency_key_of rq \<noteq> []" and "idempotency_key_of rq' = idempotency_key_of rq"
  shows "rs_idempotent_replay r'
    \<and> db_cards (dl_db s3) = db_cards (dl_db (fold (delivery_step sha) ops s1))
    \<and> db_events (dl_db s3) = db_events (dl_db (fold (delivery_step sha) ops s1))"
proof -
  let ?s2 = "fold (delivery_step sha) ops s1"
  obtain c1 c2 where f: "delivered rq (dl_db s1) c1 r"
    "card_by_hash (tx_start env' rq' ?s2) (request_hash env' rq' (tx_start env' rq' ?s2)) = Some c2"
    "dc_id c2 = dc_id c1" "0 < dc_account_id c2" "delivery_ok (dl_db ?s2)"
    "set (db_events (dl_db s1)) \<subseteq> set (db_events (dl_db ?s2))"
    by (rule later_request_finds_card [OF assms(1-6)])
  obtain c where
    "card_by_hash (tx_start env' rq' ?s2) (request_hash env' rq' (tx_start env' rq' ?s2)) = Some c"
    "0 < dc_account_id c \<longrightarrow> idempotency_key_of rq' \<noteq> [] \<longrightarrow>
       (\<exists>e\<in>set (db_events (dl_db ?s2)). ev_card_id e = dc_id c \<and> ev_idempotency_key e = idempotency_key_of rq' \<and> ev_success e) \<longrightarrow>
       rs_idempotent_replay r' \<and> db_cards (dl_db s3) = db_cards (dl_db ?s2) \<and> db_events (dl_db s3) = db_events (dl_db ?s2)"
    by (rule redeem_ok [OF f(5) assms(3)])
  moreover have "\<exists>e\<in>set (db_events (dl_db ?s2)). ev_card_id e = dc_id c2
      \<and> ev_idempotency_key e = idempotency_key_of rq' \<and> ev_success e"
    using f(1,3,6) assms(7,8) unfolding delivered_def by auto
  ultimately show ?thesis using f(2,4) assms(7,8) by simp
qed

text \<open>
  The account the pool owes to a product: one of the stored accounts of the product's
  platform, eligible and not delivered by any card, such that no other such account
  comes before it in the product's order (its sorting policy read from the
  configuration).
\<close>

definition best_account :: "redeem_env \<Rightarrow> delivery_db \<Rightarrow> dl_sku \<Rightarrow> dl_account \<Rightarrow> bool" where
  "best_account env db sku a \<longleftrightarrow>
     (let serves = (\<lambda>b. ac_platform b = sk_platform sku
            \<and> eligible_for_sku (re_rules env) (re_now env) (sk_code sku) (assigned_account_ids db) b);
          key = account_sort_key (re_rules env) (sku_with_policy (db_config db) sku)
      in dict_get (db_accounts db) (ac_id a) = Some a \<and> serves a
         \<and> (\<forall>b\<in>snd ` set (db_accounts db). serves b \<longrightarrow> akey_le (key a) (key b)))"

lemma sku_with_policy_same [simp]:
  "sk_code (sku_with_policy cfg sku) = sk_code sku"
  "sk_platform (sku_with_policy cfg sku) = sk_platform sku"
  by (simp_all add: sku_with_policy_def)

lemma picked_platform:
  assumes "pick_next_account rules now db sku = (Some a, n)"
  shows "ac_platform a = sk_platform sku"
proof -
  from assms have "a \<in> set (sku_candidates rules now db sku)"
    by (auto simp: pick_next_account_def Let_def split: list.splits)
  then show ?thesis unfolding set_sku_candidates by simp
qed

lemma picked_best:
  assumes ok: "delivery_ok db"
    and p: "pick_next_account (re_rules env) (re_now env) (refresh_skus db) (sku_with_policy (db_config db) sku) = (Some a, n)"
  shows "best_account env db sku a"
proof -
  let ?sku = "sku_with_policy (db_config db) sku"
  have same: "db_accounts (refresh_skus db) = db_accounts db"
    "assigned_account_ids (refresh_skus db) = assigned_account_ids db"
    by (simp_all cong: assigned_account_ids_cong)
  have ok1: "delivery_ok (refresh_skus db)" using good_refresh_skus [OF ok] by (simp add: good_def)
  have "fst (pick_next_account (re_rules env) (re_now env) (refresh_skus db) ?sku) = Some a" by (simp add: p)
  note best = picked_account [OF this, unfolded same sku_with_policy_same]
  from picked_fresh(3) [OF ok1 p] picked_platform [OF p] best(2,3) show ?thesis
    by (simp add: best_account_def Let_def same)
qed

text \<open>
  C24. The first redemption takes the right account: the request's code names an
  unused card, and the card's product is found; the card with that identifier becomes
  redeemed and bound to the best account for that product, an eligible and undelivered
  account of its platform and the least one in its order. The card stores the snapshot of
  this very account for this product, the account is marked as used by this card, and
  the answer is the account part of the snapshot.
\<close>

theorem first_redeem_delivers_best:
  assumes "delivery_ok (dl_db s)" and "redeem_card env rq s = (s1, RedeemOk r)" and "rs_first_redeem r"
  shows "\<exists>card sku a c a1.
      card_by_hash (tx_start env rq s) (request_hash env rq (tx_start env rq s)) = Some card
    \<and> dc_status card = CardUnused
    \<and> sku_by_code (tx_start env rq s) (dc_sku_code card) = Some sku
    \<and> best_account env (tx_start env rq s) sku a
    \<and> dict_get (db_cards (dl_db s1)) (dc_id card) = Some c
    \<and> dc_status c = CardRedeemed \<and> dc_account_id c = ac_id a
    \<and> dc_payload c = delivery_snapshot env (refresh_skus (tx_start env rq s)) a
        (sku_with_policy (db_config (tx_start env rq s)) sku)
    \<and> dict_get (db_accounts (dl_db s1)) (ac_id a) = Some a1 \<and> usage_marked a1 (dc_id card)
    \<and> rs_account r = payload_account (dc_payload c)"
proof -
  let ?db = "tx_start env rq s"
  have d: "delivery_ok ?db" using good_with_secret [OF assms(1)] by (simp add: good_def)
  from assms(2) obtain x where tx: "redeem_tx env rq ?db = (dl_db s1, TxCommit (RedeemOk r) x)"
    by (cases rule: redeem_card_cases) auto
  from tx obtain c sku where found: "card_by_hash ?db (request_hash env rq ?db) = Some c" "dc_status c = CardUnused"
      "sku_by_code ?db (dc_sku_code c) = Some sku"
    and u: "redeem_unused env rq c sku ?db = (dl_db s1, TxCommit (RedeemOk r) x)"
  proof (cases rule: redeem_tx_cases)
    case (1 c sku)
    from redeem_again_delivered(2) [OF d card_by_hash_get(1) [OF d 1(1)] 1(3,4)] assms(3) show ?thesis by simp
  next
    case (2 c sku)
    from that [OF 2(1) [folded request_hash_def] 2(3,2,4)] show ?thesis .
  qed
  let ?sku = "sku_with_policy (db_config ?db) sku"
  obtain a n dup stock where
    p: "pick_next_account (re_rules env) (re_now env) (refresh_skus ?db) ?sku = (Some a, n)"
    and dl: "deliver_first env rq c ?sku a n stock dup (refresh_skus ?db) = (dl_db s1, TxCommit (RedeemOk r) x)"
    by (rule redeem_unused_delivered [OF d card_by_hash_get(1) [OF d found(1)] u])
  have d1: "delivery_ok (refresh_skus ?db)" using good_refresh_skus [OF d] by (simp add: good_def)
  note del = deliver_first_delivered [OF dl picked_fresh(1) [OF d1 p]]
  let ?c = "redeemed_card env rq a (delivery_snapshot env (refresh_skus ?db) a ?sku) c"
  let ?a = "mark_account_assigned ?c (re_now_iso env) (re_now env) a"
  have c: "dc_id ?c = dc_id c" "dc_account_id ?c = ac_id a"
    "dc_payload ?c = delivery_snapshot env (refresh_skus ?db) a ?sku" by (simp_all add: redeemed_card_def)
  have "dict_get (db_cards (dl_db s1)) (dc_id c) = Some ?c" "dc_status ?c = CardRedeemed"
    "rs_account r = payload_account (dc_payload ?c)"
    using del(1) unfolding delivered_def c(1) by blast+
  moreover have "usage_marked ?a (dc_id c)" by (simp add: usage_marked_def c(1))
  moreover have "dict_get (db_accounts (dl_db s1)) (ac_id a) = Some ?a" using del by simp
  ultimately show ?thesis using found picked_best [OF d p] c(2,3) by blast
qed

theorem first_redeem_delivers_best_witness:
  "\<exists>card sku a. card_by_hash (tx_start demo_env (demo_request ''p-1'') demo_state)
      (request_hash demo_env (demo_request ''p-1'') (tx_start demo_env (demo_request ''p-1'') demo_state)) = Some card
    \<and> sku_by_code (tx_start demo_env (demo_request ''p-1'') demo_state) (dc_sku_code card) = Some sku
    \<and> best_account demo_env (tx_start demo_env (demo_request ''p-1'') demo_state) sku a"
proof -
  obtain r where "redeem_card demo_env (demo_request ''p-1'') demo_state = (fst demo_first, RedeemOk r)" "rs_first_redeem r"
    using demo_first_ok by blast
  from first_redeem_delivers_best [OF demo_ok this] show ?thesis by blast
qed

text \<open>What a failed request must leave: status, binding and count of every card.\<close>

definition card_view_of :: "dl_card \<Rightarrow> card_status \<times> (int \<times> string \<times> string \<times> string \<times> string \<times> string \<times> (string, pyval) dict) \<times> int" where
  "card_view_of c = (dc_status c, binding c, dc_redeem_count c)"

lemma redeem_unused_refused:
  assumes "redeem_unused env rq c sku db = (db1, TxCommit (RedeemFailed code msg) x)"
  shows "db_accounts db1 = db_accounts db
    \<and> (\<exists>c1. (db_cards db1 = db_cards db \<or> db_cards db1 = dict_set (dc_id c) c1 (db_cards db)) \<and> card_view_of c1 = card_view_of c)"
proof -
  obtain pick n where p: "pick_next_account (re_rules env) (re_now env) (refresh_skus db) (sku_with_policy (db_config db) sku)
      = (pick, n)" by fastforce
  show ?thesis
  proof (cases pick)
    case None
    let ?c = "c\<lparr>dc_last_failure_code := ''POOL_EMPTY'', dc_last_failure_at := re_now_iso env, dc_updated_at := re_now env\<rparr>"
    have "db_accounts db1 = db_accounts db \<and> db_cards db1 = dict_set (dc_id c) ?c (db_cards db)"
      using assms p None unfolding redeem_unused_def Let_def by auto
    moreover have "card_view_of ?c = card_view_of c" by (simp add: card_view_of_def binding_def)
    ultimately show ?thesis by blast
  next
    case (Some a)
    have "db_accounts db1 = db_accounts db \<and> db_cards db1 = db_cards db"
      using assms p Some unfolding redeem_unused_def deliver_first_def Let_def by (auto split: if_splits)
    then show ?thesis by blast
  qed
qed

text \<open>
  C31. A failed request binds nothing and counts nothing: whatever the reason of the
  refusal, no account is changed, and every card keeps its status, its binding and
  its redemption count. This holds for an expired card too, so the status \<open>expired\<close>
  that the transaction sets on it is lost with the roll back.
\<close>

theorem failed_redeem_binds_nothing:
  assumes "delivery_ok (dl_db s)" and "redeem_card env rq s = (s1, RedeemFailed code msg)"
  shows "db_accounts (dl_db s1) = db_accounts (dl_db s)
    \<and> map_option card_view_of (dict_get (db_cards (dl_db s1)) k) = map_option card_view_of (dict_get (db_cards (dl_db s)) k)"
  using assms(2)
proof (cases rule: redeem_card_cases)
  case failed
  then show ?thesis by simp
next
  case (committed x)
  let ?db = "tx_start env rq s"
  have d: "delivery_ok ?db" using good_with_secret [OF assms(1)] by (simp add: good_def)
  from committed(1) show ?thesis
  proof (cases rule: redeem_tx_cases)
    case (1 c sku)
    from 1(4) have False
      unfolding redeem_again_def Let_def by (auto split: option.splits if_splits)
    then show ?thesis ..
  next
    case (2 c sku)
    note c = card_by_hash_get(1) [OF d 2(1)]
    from redeem_unused_refused [OF 2(4)] c show ?thesis by auto
  qed
qed

theorem failed_redeem_binds_nothing_witness:
  "\<exists>code msg. redeem_card demo_env (demo_request ''nope'') demo_state
      = (fst (redeem_card demo_env (demo_request ''nope'') demo_state), RedeemFailed code msg)
    \<and> db_accounts (dl_db (fst (redeem_card demo_env (demo_request ''nope'') demo_state))) = db_accounts (dl_db demo_state)"
proof -
  have "case snd (redeem_card demo_env (demo_request ''nope'') demo_state) of RedeemFailed code msg \<Rightarrow> True | _ \<Rightarrow> False"
    by code_simp
  then obtain code msg where r: "redeem_card demo_env (demo_request ''nope'') demo_state
      = (fst (redeem_card demo_env (demo_request ''nope'') demo_state), RedeemFailed code msg)"
    by (cases "redeem_card demo_env (demo_request ''nope'') demo_state") (auto split: redeem_response.splits)
  from failed_redeem_binds_nothing [OF demo_ok r] r show ?thesis by blast
qed

text \<open>
  No card is ever stored as expired: from tables without an expired card no run
  of requests and administration reaches one, although a redemption sets that status.
\<close>

lemma expired_never_stored:
  assumes "delivery_ok (dl_db s)" and "\<forall>p\<in>set (db_cards (dl_db s)). dc_status (snd p) \<noteq> CardExpired"
  shows "\<forall>p\<in>set (db_cards (dl_db (fold (delivery_step sha) ops s))). dc_status (snd p) \<noteq> CardExpired"
proof
  fix p assume p: "p \<in> set (db_cards (dl_db (fold (delivery_step sha) ops s)))"
  let ?db = "dl_db (fold (delivery_step sha) ops s)"
  have g: "good (dl_db s) ?db" by (rule delivery_run_good [OF assms(1)])
  then have "dict_ok (db_cards ?db)" using delivery_ok_dicts(1) by (simp add: good_def)
  then have p': "dict_get (db_cards ?db) (fst p) = Some (snd p)"
    using p dict_ok_in_set [of "db_cards ?db" "fst p" "snd p"] by simp
  show "dc_status (snd p) \<noteq> CardExpired"
  proof (cases "dict_get (db_cards (dl_db s)) (fst p)")
    case None
    with g p' show ?thesis unfolding good_def evolves_def by blast
  next
    case (Some c)
    with kept_card [OF g Some] p' have "card_kept c (snd p)" by auto
    moreover have "dc_status c \<noteq> CardExpired" using assms(2) map_of_SomeD [OF Some] by auto
    ultimately show ?thesis by (auto simp: card_kept_def)
  qed
qed

text \<open>
  The limit on fetching holds over every run: when a product has a positive limit,
  no card of it is ever redeemed more often than that, the first time included.
\<close>

lemma refetch_limit_holds:
  assumes "delivery_ok (dl_db s)"
    and "dict_get (db_cards (dl_db (fold (delivery_step sha) ops s))) k = Some c"
    and "sku_by_code (dl_db (fold (delivery_step sha) ops s)) (dc_sku_code c) = Some sku"
    and "0 < sk_max_refetch_count sku"
  shows "dc_redeem_count c \<le> sk_max_refetch_count sku"
proof -
  have "delivery_ok (dl_db (fold (delivery_step sha) ops s))"
    using delivery_run_good [OF assms(1)] by (simp add: good_def)
  from delivery_ok_card(2) [OF this assms(2)] limit_of_sku [OF assms(3)] assms(4)
  show ?thesis by (simp add: card_ok_def)
qed

text \<open>
  A batch under the strict check is covered: when it succeeds, it has issued as
  many codes as asked, and the product has at least as many deliverable accounts as
  unused cards, the new ones included.
\<close>

lemma strict_batch_covered:
  assumes "delivery_ok db" and "create_batch sha fresh rules now name draws br db = (db1, Inr res)" and "br_strict br"
  shows "\<exists>sku. sku_by_code db (br_sku_code br) = Some sku
    \<and> int (length (bz_codes res)) = batch_size br
    \<and> unused_card_count db1 (sk_code sku) = unused_card_count db (sk_code sku) + batch_size br
    \<and> unused_card_count db1 (sk_code sku) \<le> available_account_count rules now db1 sku"
proof -
  obtain sku where sku: "sku_by_code db (br_sku_code br) = Some sku"
    using assms(2) by (auto simp: create_batch_def split: option.splits)
  have n: "0 < batch_size br" by (simp add: batch_size_def)
  from assms(2,3) sku obtain b where
    enough: "\<not> available_account_count rules now db sku < unused_card_count db (sk_code sku) + batch_size br"
    and cards: "issue_cards sha fresh sku b now (map draws [0..<nat (batch_size br)])
        (with_secret fresh True (db\<lparr>db_batches := db_batches db @ [b]\<rparr>)) [] = Some (db1, bz_codes res)"
    unfolding create_batch_def Let_def by (auto split: option.splits if_splits)
  let ?db = "with_secret fresh True (db\<lparr>db_batches := db_batches db @ [b]\<rparr>)"
  have "good db (db\<lparr>db_batches := db_batches db @ [b]\<rparr>)"
    by (rule good_frame [OF assms(1)]) (auto simp: delivery_ok_dicts(2) [OF assms(1)] secret_of_def intro!: limit_of_cong)
  then have "delivery_ok ?db" using good_with_secret by (auto simp: good_def)
  note i = issue_cards_good [OF this cards]
  have u: "unused_card_count db1 (sk_code sku) = unused_card_count db (sk_code sku) + batch_size br"
    using i n by (simp add: unused_card_count_def)
  have "available_account_count rules now db1 sku = available_account_count rules now db sku"
    using i assigned_account_ids_cong [of ?db db] by (simp add: available_account_count_def)
  with u enough i n sku show ?thesis by auto
qed

definition demo_batch_request :: batch_request where
  "demo_batch_request = \<lparr>br_name = ''n'', br_sku_code = ''plus'', br_count = 1, br_strict = True, br_expires_at = [], br_note = []\<rparr>"

definition demo_stock :: delivery_db where
  "demo_stock = demo_db\<lparr>db_accounts := [(7, demo_account 7), (8, demo_account 8)]\<rparr>"

end
