(* ===== verification/AuthCodec.thy ===== *)
theory AuthCodec
  imports Rows "HOL-Library.Word"
begin

unbundle bit_operations_syntax

text \<open>
  The encodings of the administrator authentication (\<open>api/auth.py\<close>): base64url as the
  tokens use it, base32 secrets and the six-digit codes of RFC 6238. Bytes are \<open>8 word\<close>;
  \<open>hmac_sha1\<close> is the keyed hash of a message.
\<close>

type_synonym byte = "8 word"

section \<open>Base64url\<close>

definition b64_alphabet :: string where
  "b64_alphabet = ''ABCDEFGHIJKLMNOPQRSTUVWXYZabcdefghijklmnopqrstuvwxyz0123456789-_''"

definition b64_char :: "nat \<Rightarrow> char" where
  "b64_char n = b64_alphabet ! n"

text \<open>The four sextets of a group of three bytes, and of the shorter last group.\<close>

fun b64url_encode :: "byte list \<Rightarrow> string" where
  "b64url_encode [] = []"
| "b64url_encode [a] = map b64_char [unat a div 4, unat a mod 4 * 16]"
| "b64url_encode [a, b] = map b64_char [unat a div 4, unat a mod 4 * 16 + unat b div 16, unat b mod 16 * 4]"
| "b64url_encode (a # b # c # bs) =
     map b64_char [unat a div 4, unat a mod 4 * 16 + unat b div 16, unat b mod 16 * 4 + unat c div 64, unat c mod 64]
     @ b64url_encode bs"

text \<open>
  The value of a character: the url-safe alphabet is mapped to the plain one first,
  so that the plain \<open>+\<close> and \<open>/\<close> have values too.
\<close>

definition b64_value :: "char \<Rightarrow> nat option" where
  "b64_value c =
    (if is_upper_alpha c then Some (of_char c - 65)
     else if is_lower_alpha c then Some (of_char c - 71)
     else if is_digit c then Some (of_char c + 4)
     else if c = CHR ''-'' \<or> c = CHR ''+'' then Some 62
     else if c = CHR ''_'' \<or> c = CHR ''/'' then Some 63
     else None)"

text \<open>
  \<open>binascii.a2b_base64\<close>, not strict: characters outside the alphabet are skipped, an
  equals sign ends the data once it completes the group, and data that ends inside a
  group is an error (\<open>None\<close>). \<open>pos\<close> is the place in the group, \<open>left\<close> the bits that
  are left over, \<open>pads\<close> the equals signs seen since the last character.
\<close>

fun a2b_base64 :: "nat \<Rightarrow> nat \<Rightarrow> nat \<Rightarrow> string \<Rightarrow> byte list option" where
  "a2b_base64 pos left pads [] = (if pos = 0 then Some [] else None)"
| "a2b_base64 pos left pads (c # cs) =
     (if c = CHR ''='' then
        (if 2 \<le> pos then (if 4 \<le> pos + pads + 1 then Some [] else a2b_base64 pos left (pads + 1) cs)
         else a2b_base64 pos left pads cs)
      else (case b64_value c of
              None \<Rightarrow> a2b_base64 pos left pads cs
            | Some v \<Rightarrow>
                if pos = 0 then a2b_base64 1 v 0 cs
                else if pos = 1
                then map_option (Cons (word_of_nat (left * 4 + v div 16))) (a2b_base64 2 (v mod 16) 0 cs)
                else if pos = 2
                then map_option (Cons (word_of_nat (left * 16 + v div 4))) (a2b_base64 3 (v mod 4) 0 cs)
                else map_option (Cons (word_of_nat (left * 64 + v))) (a2b_base64 0 0 0 cs)))"

definition b64url_decode :: "string \<Rightarrow> byte list option" where
  "b64url_decode v = a2b_base64 0 0 0 (v @ replicate (nat (- int (length v) mod 4)) (CHR ''=''))"

lemma b64_values: "map b64_value b64_alphabet = map Some [0..<64]" "CHR ''='' \<notin> set b64_alphabet" "length b64_alphabet = 64"
proof -
  show "map b64_value b64_alphabet = map Some [0..<64]"
    by code_simp
qed (simp_all add: b64_alphabet_def)

lemma b64_value_char:
  assumes "n < 64"
  shows "b64_value (b64_char n) = Some n \<and> b64_char n \<noteq> CHR ''=''"
proof -
  have "map b64_value b64_alphabet ! n = map Some [0..<64] ! n" by (simp only: b64_values(1))
  then have "b64_value (b64_char n) = Some n" using assms by (simp add: b64_char_def b64_values(3))
  moreover have "b64_char n \<in> set b64_alphabet" using assms by (simp add: b64_char_def b64_values(3))
  ultimately show ?thesis using b64_values(2) by metis
qed

lemma a2b_base64_char:
  assumes "n < 64"
  shows "a2b_base64 0 left pads (b64_char n # cs) = a2b_base64 1 n 0 cs"
    "a2b_base64 1 left pads (b64_char n # cs) = map_option (Cons (word_of_nat (left * 4 + n div 16))) (a2b_base64 2 (n mod 16) 0 cs)"
    "a2b_base64 2 left pads (b64_char n # cs) = map_option (Cons (word_of_nat (left * 16 + n div 4))) (a2b_base64 3 (n mod 4) 0 cs)"
    "a2b_base64 3 left pads (b64_char n # cs) = map_option (Cons (word_of_nat (left * 64 + n))) (a2b_base64 0 0 0 cs)"
  using b64_value_char [OF assms] by simp_all

lemma a2b_base64_pad:
  "a2b_base64 2 left 0 ''=='' = Some []" "a2b_base64 3 left 0 ''='' = Some []" "a2b_base64 0 left pads [] = Some []"
  by simp_all

lemma byte_bound [simp]: "unat (a :: byte) < 256"
  using unsigned_less [of a, where 'a = nat] by simp

lemma sextet_bounds:
  fixes a b c :: byte
  shows "unat a div 4 < 64" "unat a mod 4 * 16 < 64" "unat a mod 4 * 16 + unat b div 16 < 64"
    "unat b mod 16 * 4 < 64" "unat b mod 16 * 4 + unat c div 64 < 64" "unat c mod 64 < 64"
proof -
  have "unat a < 256" "unat b < 256" "unat c < 256" by simp_all
  then show "unat a div 4 < 64" "unat a mod 4 * 16 < 64" "unat a mod 4 * 16 + unat b div 16 < 64"
    "unat b mod 16 * 4 < 64" "unat b mod 16 * 4 + unat c div 64 < 64" "unat c mod 64 < 64"
    by linarith+
qed

lemma div_mod_join: "y < n \<Longrightarrow> (x * n + y) div n = (x :: nat)" "y < n \<Longrightarrow> (x * n + y) mod n = (y :: nat)"
  by simp_all

lemma word_of_sextets:
  fixes a b c :: byte
  shows "word_of_nat (unat a div 4 * 4 + (unat a mod 4 * 16) div 16) = a"
    "word_of_nat (unat a div 4 * 4 + (unat a mod 4 * 16 + unat b div 16) div 16) = a"
    "word_of_nat ((unat a mod 4 * 16 + unat b div 16) mod 16 * 16 + (unat b mod 16 * 4) div 4) = b"
    "word_of_nat ((unat a mod 4 * 16 + unat b div 16) mod 16 * 16 + (unat b mod 16 * 4 + unat c div 64) div 4) = b"
    "word_of_nat ((unat b mod 16 * 4 + unat c div 64) mod 4 * 64 + unat c mod 64) = c"
proof -
  have b: "unat b div 16 < 16" and c: "unat c div 64 < 4"
    using byte_bound [of b] byte_bound [of c] by linarith+
  have e: "(unat a mod 4 * 16) div 16 = unat a mod 4" "(unat b mod 16 * 4) div 4 = unat b mod 16" by simp_all
  show "word_of_nat (unat a div 4 * 4 + (unat a mod 4 * 16) div 16) = a"
    "word_of_nat (unat a div 4 * 4 + (unat a mod 4 * 16 + unat b div 16) div 16) = a"
    "word_of_nat ((unat a mod 4 * 16 + unat b div 16) mod 16 * 16 + (unat b mod 16 * 4) div 4) = b"
    "word_of_nat ((unat a mod 4 * 16 + unat b div 16) mod 16 * 16 + (unat b mod 16 * 4 + unat c div 64) div 4) = b"
    "word_of_nat ((unat b mod 16 * 4 + unat c div 64) mod 4 * 64 + unat c mod 64) = c"
    unfolding div_mod_join [OF b] div_mod_join [OF c] e div_mult_mod_eq by simp_all
qed

lemma length_b64url_encode: "length (b64url_encode bs) mod 4 = (case length bs mod 3 of 0 \<Rightarrow> 0 | Suc 0 \<Rightarrow> 2 | _ \<Rightarrow> 3)"
proof (induction bs rule: b64url_encode.induct)
  case (4 a b c bs)
  have "length (a # b # c # bs) mod 3 = length bs mod 3" by simp
  with 4 show ?case by simp
qed simp_all

text \<open>Encoding and then decoding, with whatever equals signs complete the last group.\<close>

lemma a2b_base64_encode:
  assumes "p = replicate (nat (- int (length (b64url_encode bs)) mod 4)) (CHR ''='')"
  shows "a2b_base64 0 0 0 (b64url_encode bs @ p) = Some bs"
  using assms
proof (induction bs rule: b64url_encode.induct)
  case 1
  then show ?case by simp
next
  case (2 a)
  then have p: "p = ''==''" by (simp add: numeral_2_eq_2)
  show ?case
    by (simp only: p b64url_encode.simps list.map append.simps a2b_base64_char sextet_bounds a2b_base64_pad
        word_of_sextets option.map)
next
  case (3 a b)
  then have p: "p = ''=''" by simp
  show ?case
    by (simp only: p b64url_encode.simps list.map append.simps a2b_base64_char sextet_bounds a2b_base64_pad
        word_of_sextets option.map)
next
  case (4 a b c bs)
  have "nat (- int (length (b64url_encode (a # b # c # bs))) mod 4) = nat (- int (length (b64url_encode bs)) mod 4)"
  proof -
    have "- int (length (b64url_encode (a # b # c # bs))) = - int (length (b64url_encode bs)) + 4 * - 1" by simp
    then show ?thesis by (simp only: mod_mult_self2)
  qed
  with 4 have "a2b_base64 0 0 0 (b64url_encode bs @ p) = Some bs" by metis
  then show ?case
    by (simp only: b64url_encode.simps list.map append.simps append_assoc a2b_base64_char sextet_bounds
        word_of_sextets option.map)
qed

section \<open>Base32 secrets\<close>

definition b32_value :: "char \<Rightarrow> nat option" where
  "b32_value c =
    (if is_upper_alpha c then Some (of_char c - 65)
     else if c \<in> {CHR ''2'', CHR ''3'', CHR ''4'', CHR ''5'', CHR ''6'', CHR ''7''} then Some (of_char c - 24)
     else None)"

definition quintets :: "nat list \<Rightarrow> nat" where
  "quintets vs = foldl (\<lambda>acc v. acc * 32 + v) 0 vs"

definition to_bytes5 :: "nat \<Rightarrow> byte list" where
  "to_bytes5 n = map (\<lambda>i. word_of_nat (n div 256 ^ i)) [4, 3, 2, 1, 0]"

text \<open>\<open>base64.b32decode\<close> on padded data: a last group of one, three or six characters is an error.\<close>

fun b32_decode :: "nat list \<Rightarrow> byte list option" where
  "b32_decode (a # b # c # d # e # f # g # h # vs) =
     map_option (append (to_bytes5 (quintets [a, b, c, d, e, f, g, h]))) (b32_decode vs)"
| "b32_decode vs =
     (if length vs \<in> {0, 2, 4, 5, 7}
      then Some (take (length vs * 5 div 8) (to_bytes5 (quintets vs * 32 ^ (8 - length vs))))
      else None)"

definition decode_totp_secret :: "string \<Rightarrow> byte list" where
  "decode_totp_secret secret =
    (let n = rev (dropWhile (\<lambda>c. c = CHR ''='')
           (rev (py_upper (filter (\<lambda>c. c \<noteq> CHR '' '') (py_strip secret)))))
     in if n = [] \<or> (\<exists>c\<in>set n. b32_value c = None) then []
        else (case b32_decode (map (\<lambda>c. the (b32_value c)) n) of None \<Rightarrow> [] | Some bs \<Rightarrow> bs))"

definition b32_alphabet :: string where
  "b32_alphabet = ''ABCDEFGHIJKLMNOPQRSTUVWXYZ234567''"

definition b32_char :: "nat \<Rightarrow> char" where
  "b32_char n = b32_alphabet ! n"

definition bytes5 :: "byte list \<Rightarrow> nat" where
  "bytes5 bs = foldl (\<lambda>acc b. acc * 256 + unat b) 0 bs"

definition b32_group :: "byte list \<Rightarrow> string" where
  "b32_group bs = map (\<lambda>i. b32_char (bytes5 bs div 32 ^ i mod 32)) [7, 6, 5, 4, 3, 2, 1, 0]"

text \<open>\<open>base64.b32encode\<close>: groups of five bytes; a shorter last group is filled with zeros and marked by equals signs.\<close>

fun b32_encode :: "byte list \<Rightarrow> string" where
  "b32_encode (a # b # c # d # e # bs) = b32_group [a, b, c, d, e] @ b32_encode bs"
| "b32_encode [] = []"
| "b32_encode bs =
     (let shown = (length bs * 8 + 4) div 5
      in take shown (b32_group (bs @ replicate (5 - length bs) 0)) @ replicate (8 - shown) (CHR ''=''))"

text \<open>A new secret from twenty drawn bytes.\<close>

definition generate_totp_secret :: "byte list \<Rightarrow> string" where
  "generate_totp_secret drawn = b32_encode drawn"

text \<open>\<open>urllib.parse.quote\<close> on ASCII text.\<close>

definition url_safe :: "char \<Rightarrow> bool" where
  "url_safe c \<longleftrightarrow> is_alpha c \<or> is_digit c \<or> c \<in> {CHR ''_'', CHR ''.'', CHR ''-'', CHR ''~'', CHR ''/''}"

definition hex_digit :: "nat \<Rightarrow> char" where
  "hex_digit n = ''0123456789ABCDEF'' ! n"

definition url_quote :: "string \<Rightarrow> string" where
  "url_quote t = concat (map (\<lambda>c. if url_safe c then [c]
     else [CHR ''%'', hex_digit (of_char c div 16), hex_digit (of_char c mod 16)]) t)"

definition totp_uri :: "string \<Rightarrow> string \<Rightarrow> string" where
  "totp_uri inst secret =
    (let name = ''AutoGPT-'' @ inst
     in ''otpauth://totp/'' @ url_quote (name @ '':admin'') @ ''?secret='' @ secret @ ''&issuer='' @ url_quote name)"

lemma b32_chars:
  "map b32_value b32_alphabet = map Some [0..<32]"
  "list_all (\<lambda>c. upper_char c = c \<and> \<not> py_space c \<and> c \<noteq> CHR '' '' \<and> c \<noteq> CHR ''='') b32_alphabet"
  "length b32_alphabet = 32"
  by code_simp+

lemma b32_char_props:
  assumes "n < 32"
  shows "b32_value (b32_char n) = Some n" "upper_char (b32_char n) = b32_char n" "\<not> py_space (b32_char n)"
    "b32_char n \<noteq> CHR '' ''" "b32_char n \<noteq> CHR ''=''"
proof -
  have "map b32_value b32_alphabet ! n = map Some [0..<32] ! n" by (simp only: b32_chars(1))
  then show "b32_value (b32_char n) = Some n" using assms by (simp add: b32_char_def b32_chars(3))
  have "b32_char n \<in> set b32_alphabet" using assms by (simp add: b32_char_def b32_chars(3))
  then show "upper_char (b32_char n) = b32_char n" "\<not> py_space (b32_char n)" "b32_char n \<noteq> CHR '' ''" "b32_char n \<noteq> CHR ''=''"
    using b32_chars(2) by (auto simp: list_all_iff)
qed

lemma digit_join: "n div 32 ^ Suc k * 32 + n div 32 ^ k mod 32 = (n div 32 ^ k :: nat)"
proof -
  have "n div 32 ^ Suc k = n div 32 ^ k div 32" by (simp only: power_Suc2 div_mult2_eq)
  then show ?thesis by simp
qed

lemma sucs: "Suc 6 = 7" "Suc 5 = 6" "Suc 4 = 5" "Suc 3 = 4" "Suc 2 = 3" "Suc 1 = 2" "Suc 0 = 1"
  by simp_all

lemma quintets_join:
  "0 * 32 + m7 = d7 \<Longrightarrow> d7 * 32 + m6 = d6 \<Longrightarrow> d6 * 32 + m5 = d5 \<Longrightarrow> d5 * 32 + m4 = d4 \<Longrightarrow> d4 * 32 + m3 = d3 \<Longrightarrow>
    d3 * 32 + m2 = d2 \<Longrightarrow> d2 * 32 + m1 = d1 \<Longrightarrow> d1 * 32 + m0 = d0 \<Longrightarrow> quintets [m7, m6, m5, m4, m3, m2, m1, m0] = d0"
  by (simp only: quintets_def foldl.simps)

lemma quintets_digits:
  assumes "n < 32 ^ 8"
  shows "quintets (map (\<lambda>i. n div 32 ^ i mod 32) [7, 6, 5, 4, 3, 2, 1, 0]) = n"
proof -
  have "n div 32 ^ 7 < 32" using assms by (simp add: div_less_iff_less_mult)
  then have top: "0 * 32 + n div 32 ^ 7 mod 32 = n div 32 ^ 7" by simp
  have "quintets [n div 32 ^ 7 mod 32, n div 32 ^ 6 mod 32, n div 32 ^ 5 mod 32, n div 32 ^ 4 mod 32, n div 32 ^ 3 mod 32,
      n div 32 ^ 2 mod 32, n div 32 ^ 1 mod 32, n div 32 ^ 0 mod 32] = n div 32 ^ 0"
    using top digit_join [of n 6, unfolded sucs] digit_join [of n 5, unfolded sucs] digit_join [of n 4, unfolded sucs]
      digit_join [of n 3, unfolded sucs] digit_join [of n 2, unfolded sucs]
      digit_join [of n 1, unfolded sucs] digit_join [of n 0, unfolded sucs] by (rule quintets_join)
  then show ?thesis by (simp only: list.map power_0 div_by_1)
qed

lemma byte_join: "(x * 256 + unat (b :: byte)) div 256 = x" "word_of_nat (x * 256 + unat (b :: byte)) = b"
proof -
  show "(x * 256 + unat b) div 256 = x" using byte_bound [of b] by simp
  have "(word_of_nat (x * 256 + unat b) :: byte) = word_of_nat x * word_of_nat 256 + b" by simp
  moreover have "(word_of_nat 256 :: byte) = 0" by simp
  ultimately show "word_of_nat (x * 256 + unat b) = b" by (metis add_0 mult_zero_right)
qed

lemma byte_shift: "(x * 256 + unat (b :: byte)) div 256 ^ Suc k = x div 256 ^ k"
  by (simp only: power_Suc div_mult2_eq byte_join(1))

lemma byte_shifts:
  "(x * 256 + unat (b :: byte)) div 256 ^ 1 = x div 256 ^ 0" "(x * 256 + unat (b :: byte)) div 256 ^ 2 = x div 256 ^ 1"
  "(x * 256 + unat (b :: byte)) div 256 ^ 3 = x div 256 ^ 2" "(x * 256 + unat (b :: byte)) div 256 ^ 4 = x div 256 ^ 3"
  using byte_shift [of x b 0] byte_shift [of x b 1] byte_shift [of x b 2] byte_shift [of x b 3] unfolding sucs .

lemma to_bytes5_bytes5: "to_bytes5 (bytes5 [a, b, c, d, e]) = [a, b, c, d, e]"
  by (simp only: to_bytes5_def bytes5_def foldl.simps list.map byte_shifts power_0 div_by_1 byte_join)

lemma five_digits:
  fixes a b c d e :: nat
  assumes "a < 256" "b < 256" "c < 256" "d < 256" "e < 256"
  shows "((((0 * 256 + a) * 256 + b) * 256 + c) * 256 + d) * 256 + e < 32 ^ 8"
  using assms by simp

lemma bytes5_bound: "bytes5 [a, b, c, d, e] < 32 ^ 8"
  unfolding bytes5_def foldl.simps by (rule five_digits; rule byte_bound)

lemma b32_group_values: "map (\<lambda>c. the (b32_value c)) (b32_group bs) = map (\<lambda>i. bytes5 bs div 32 ^ i mod 32) [7, 6, 5, 4, 3, 2, 1, 0]"
  by (simp add: b32_group_def b32_char_props)

lemma b32_decode_group: "b32_decode (map (\<lambda>c. the (b32_value c)) (b32_group [a, b, c, d, e]) @ vs) =
    map_option (append [a, b, c, d, e]) (b32_decode vs)"
proof -
  have "b32_decode (map (\<lambda>c. the (b32_value c)) (b32_group [a, b, c, d, e]) @ vs) =
    map_option (append (to_bytes5 (quintets (map (\<lambda>i. bytes5 [a, b, c, d, e] div 32 ^ i mod 32) [7, 6, 5, 4, 3, 2, 1, 0]))))
      (b32_decode vs)"
    by (simp only: b32_group_values list.map append.simps b32_decode.simps(1))
  then show ?thesis by (simp only: quintets_digits [OF bytes5_bound] to_bytes5_bytes5)
qed

lemma b32_decode_Nil: "b32_decode [] = Some []"
  by simp

lemma b32_decode_encode:
  "length bs mod 5 = 0 \<Longrightarrow> b32_decode (map (\<lambda>c. the (b32_value c)) (b32_encode bs)) = Some bs"
proof (induction bs rule: b32_encode.induct)
  case (1 a b c d e bs)
  then have "length bs mod 5 = 0" by simp
  from 1(1) [OF this] show ?case
    by (simp only: b32_encode.simps map_append b32_decode_group option.map append.simps)
qed (simp_all only: b32_encode.simps list.map b32_decode_Nil, simp_all)

lemma b32_group_chars:
  assumes "x \<in> set (b32_group g)"
  shows "\<exists>n<32. x = b32_char n"
proof -
  obtain i where "x = b32_char (bytes5 g div 32 ^ i mod 32)"
    using assms unfolding b32_group_def set_map by (rule imageE)
  then show ?thesis by (intro exI [of _ "bytes5 g div 32 ^ i mod 32"]) simp
qed

lemma b32_encode_chars:
  "length bs mod 5 = 0 \<Longrightarrow> x \<in> set (b32_encode bs) \<Longrightarrow> \<exists>n<32. x = b32_char n"
proof (induction bs rule: b32_encode.induct)
  case (1 a b c d e bs)
  then have "length bs mod 5 = 0" "x \<in> set (b32_group [a, b, c, d, e]) \<or> x \<in> set (b32_encode bs)" by simp_all
  with 1(1) b32_group_chars show ?case by blast
next
  case 2
  then show ?case by simp
qed (simp_all only: list.size, simp_all)

lemma length_b32_encode: "length bs mod 5 = 0 \<Longrightarrow> length (b32_encode bs) = length bs div 5 * 8"
proof (induction bs rule: b32_encode.induct)
  case (1 a b c d e bs)
  then have "length bs mod 5 = 0" by simp
  from 1(1) [OF this] show ?case by (simp add: b32_group_def)
next
  case 2
  then show ?case by simp
qed (simp_all only: list.size, simp_all)

lemma filter_all_true: "(\<And>x. x \<in> set xs \<Longrightarrow> P x) \<Longrightarrow> filter P xs = xs"
  by (induction xs) auto

lemma decode_b32_encode:
  assumes "length bs mod 5 = 0"
  shows "decode_totp_secret (b32_encode bs) = bs"
proof (cases "b32_encode bs = []")
  case True
  with assms length_b32_encode [OF assms] show ?thesis
    by (cases bs) (auto simp: decode_totp_secret_def py_upper_def)
next
  case False
  let ?t = "b32_encode bs"
  have p: "b32_value x \<noteq> None \<and> upper_char x = x \<and> \<not> py_space x \<and> x \<noteq> CHR '' '' \<and> x \<noteq> CHR ''=''" if "x \<in> set ?t" for x
    using b32_encode_chars [OF assms that] b32_char_props by auto
  have "py_strip ?t = ?t" using False p hd_in_set last_in_set by (intro py_strip_id) blast
  moreover have "filter (\<lambda>c. c \<noteq> CHR '' '') ?t = ?t" using p by (intro filter_all_true) blast
  moreover have "py_upper ?t = ?t" unfolding py_upper_def using p by (intro map_idI) blast
  moreover have "dropWhile (\<lambda>c. c = CHR ''='') (rev ?t) = rev ?t"
    using False p [of "last ?t"] by (cases ?t rule: rev_cases) auto
  moreover have "(\<exists>c\<in>set ?t. b32_value c = None) = False" using p by blast
  ultimately show ?thesis
    using False b32_decode_encode [OF assms] by (simp only: decode_totp_secret_def Let_def rev_rev_ident if_False option.case simp_thms)
qed

section \<open>Time-based codes\<close>

text \<open>\<open>struct.pack(">Q", counter)\<close>; the counter of a clock after 1970 fits.\<close>

definition pack_be64 :: "int \<Rightarrow> byte list" where
  "pack_be64 counter = map (\<lambda>i. ucast (drop_bit (8 * i) (word_of_int counter :: 64 word))) [7, 6, 5, 4, 3, 2, 1, 0]"

definition unpack_be32 :: "byte list \<Rightarrow> 32 word" where
  "unpack_be32 bs = foldl (\<lambda>acc b. push_bit 8 acc OR ucast b) 0 bs"

definition truncate_digest :: "byte list \<Rightarrow> nat" where
  "truncate_digest digest =
    (let offset = unat (last digest AND 0x0F)
     in unat (unpack_be32 (take 4 (drop offset digest)) AND 0x7FFFFFFF) mod 1000000)"

definition totp_at :: "(byte list \<Rightarrow> byte list \<Rightarrow> byte list) \<Rightarrow> string \<Rightarrow> int \<Rightarrow> string" where
  "totp_at hmac_sha1 secret counter =
    (let key = decode_totp_secret secret
     in if key = [] then [] else pad 6 (int (truncate_digest (hmac_sha1 key (pack_be64 counter)))))"

definition six_digits :: "string \<Rightarrow> bool" where
  "six_digits s \<longleftrightarrow> length s = 6 \<and> list_all is_digit s"

definition verify_totp :: "(byte list \<Rightarrow> byte list \<Rightarrow> byte list) \<Rightarrow> string \<Rightarrow> string \<Rightarrow> int \<Rightarrow> bool" where
  "verify_totp hmac_sha1 secret code now =
    (let counter = now div 30; user_code = py_strip code
     in six_digits user_code
        \<and> list_ex (\<lambda>delta. totp_at hmac_sha1 secret (counter + delta) = user_code) [- 1, 0, 1])"

lemma show_nat_digits_all: "list_all is_digit (show_nat n)"
  using show_nat_digits by (force simp: list_all_iff)

lemma length_show_nat: "n < 10 ^ Suc k \<Longrightarrow> length (show_nat n) \<le> Suc k"
proof (induction k arbitrary: n)
  case 0
  then show ?case by (subst show_nat.simps) simp
next
  case (Suc k)
  then have "length (show_nat (n div 10)) \<le> Suc k" by (intro Suc.IH) simp
  then show ?case by (subst show_nat.simps) simp
qed

lemma pad_six_digits:
  assumes "n < 1000000"
  shows "six_digits (pad 6 (int n))"
proof -
  have "length (show_nat n) \<le> Suc 5" using assms by (intro length_show_nat) simp
  moreover have "is_digit (CHR ''0'')" by (simp add: is_digit_def)
  ultimately show ?thesis
    using show_nat_digits_all [of n]
    by (auto simp: six_digits_def pad_def show_int_def list_all_iff Let_def)
qed

lemma six_digits_strip: "six_digits s \<Longrightarrow> py_strip s = s"
proof (rule py_strip_id, rule disjI2)
  assume s: "six_digits s"
  then have "s \<noteq> []" by (auto simp: six_digits_def)
  then have "hd s \<in> set s" "last s \<in> set s" by simp_all
  moreover have "\<not> py_space c" if "c \<in> set s" for c
    using s that by (auto simp: six_digits_def list_all_iff is_digit_def py_space_def Let_def)
  ultimately show "\<not> py_space (hd s) \<and> \<not> py_space (last s)" by blast
qed

lemma totp_at_six_digits: "decode_totp_secret secret \<noteq> [] \<Longrightarrow> six_digits (totp_at h secret counter)"
  by (simp add: totp_at_def truncate_digest_def Let_def pad_six_digits)

lemma shown_code_accepted:
  assumes "decode_totp_secret secret \<noteq> []" and "\<bar>now - shown\<bar> \<le> 30"
  shows "six_digits (totp_at h secret (shown div 30)) \<and> verify_totp h secret (totp_at h secret (shown div 30)) now"
proof -
  have d: "six_digits (totp_at h secret (shown div 30))" by (rule totp_at_six_digits [OF assms(1)])
  have "shown div 30 - now div 30 \<in> {- 1, 0, 1}" using assms(2) by auto
  then consider "now div 30 + - 1 = shown div 30" | "now div 30 + 0 = shown div 30" | "now div 30 + 1 = shown div 30"
    by fastforce
  then show ?thesis
    using d six_digits_strip [OF d] by cases (simp_all add: verify_totp_def Let_def)
qed

section \<open>Properties\<close>

text \<open>
  C36. Base64url is a round trip: decoding the text that an encoding produced, which
  carries no equals signs, gives back the bytes, for data of every length.
\<close>

theorem b64url_roundtrip: "b64url_decode (b64url_encode bs) = Some bs"
  unfolding b64url_decode_def by (rule a2b_base64_encode) (rule refl)

text \<open>
  The code that a secret shows at some time is six digits, and it is accepted at
  every time at most one step of thirty seconds away from it.
\<close>

lemma totp_code_accepted:
  assumes "decode_totp_secret secret \<noteq> []" and "\<bar>now - shown\<bar> \<le> 30"
  shows "six_digits (totp_at h secret (shown div 30)) \<and> verify_totp h secret (totp_at h secret (shown div 30)) now"
  using assms by (rule shown_code_accepted)

end
