(* ===== verification/AuthState.thy ===== *)
theory AuthState
  imports AuthCodec
begin

text \<open>
  Administrator authentication (\<open>api/auth.py\<close>), first part: settings, the identity of a
  request, tokens and the sessions behind them, the audit trail and the throttling of
  failures. The environment, the hashes, JSON and the address library are fields of
  \<open>auth_env\<close>; one call reads the clock once; the storage answers every query, so the
  error branches of the database are left out.
\<close>

section \<open>State and errors\<close>

datatype auth_detail =
    InstanceMissing | PasswordTooShort | PasswordTooLong | SessionExists
  | TokenFormat | TokenInvalid | TokenSignature | TokenClaimsIncomplete | TokenClaimsInvalid | SessionEnded
  | BootstrapTokenInvalid | BootstrapNotLocal | AlreadyInitialised | AuthMandatory
  | NoPasswordSet | WrongPassword | WrongCurrentPassword
  | TempTokenInvalid | TotpNotEnabled | TotpExhausted | TotpWrong
  | TotpAlreadyEnabled | TotpWeakSecret | TotpSetupWrong | TotpCurrentWrong

text \<open>An HTTP status with its detail, and status 429 with the seconds of its \<open>Retry-After\<close>.\<close>

datatype auth_error = HttpStatus int auth_detail | TooManyAttempts int

record session_row =
  sr_instance :: string
  sr_auth_version :: int
  sr_issued_at :: int
  sr_last_seen_at :: int
  sr_expires_at :: int
  sr_absolute_expires_at :: int
  sr_revoked_at :: int
  sr_revoke_reason :: string
  sr_client_ip :: string
  sr_user_agent :: string

record audit_row =
  ad_instance :: string
  ad_event_at :: int
  ad_client_ip :: string
  ad_user_agent :: string
  ad_stage :: string
  ad_outcome :: string
  ad_reason :: string
  ad_jti :: string

record throttle_row =
  th_failure_count :: int
  th_window_started_at :: int
  th_blocked_until :: int
  th_updated_at :: int

record pending_totp =
  pt_instance :: string
  pt_auth_version :: int
  pt_expires_at :: time
  pt_failure_count :: int

record auth_state =
  au_cfg :: "(string, string) dict"
  au_sessions :: "(string, session_row) dict"
  au_throttle :: "(string, throttle_row) dict"
  au_audit :: "audit_row list"
  au_pending :: "(string, pending_totp) dict"

record http_request =
  hr_peer :: "string option"
  hr_headers :: "(string, string) dict"

record ip_rules =
  ip_parse :: "string \<Rightarrow> string option"
  ip_trusted :: "string \<Rightarrow> bool"
  ip_loopback :: "string \<Rightarrow> bool"
  ip_local :: "string \<Rightarrow> bool"

record auth_env =
  ae_vars :: "(string, string) dict"
  ae_ip :: ip_rules
  ae_sha256 :: "string \<Rightarrow> string"
  ae_hmac_sha256 :: "byte list \<Rightarrow> byte list \<Rightarrow> byte list"
  ae_hmac_sha1 :: "byte list \<Rightarrow> byte list \<Rightarrow> byte list"
  ae_pw_hash :: "string \<Rightarrow> string"
  ae_pw_verify :: "string \<Rightarrow> string \<Rightarrow> bool"
  ae_pw_needs_rehash :: "string \<Rightarrow> bool"
  ae_dumps :: "(string, pyval) dict \<Rightarrow> string"
  ae_loads :: "string \<Rightarrow> pyval option"

text \<open>What one call brings: the request, the clock, and the random texts it would draw.\<close>

record auth_call =
  cl_request :: http_request
  cl_time :: time
  cl_jti :: string
  cl_temp_token :: string
  cl_secret :: string
  cl_totp_bytes :: "byte list"

definition call_now :: "auth_call \<Rightarrow> int" where
  "call_now c = \<lfloor>cl_time c\<rfloor>"

text \<open>A step that may raise, followed by another on the state it leaves.\<close>

definition and_then :: "'s \<times> ('e + 'a) \<Rightarrow> ('a \<Rightarrow> 's \<Rightarrow> 's \<times> ('e + 'b)) \<Rightarrow> 's \<times> ('e + 'b)" where
  "and_then r f = (case r of (s, Inl e) \<Rightarrow> (s, Inl e) | (s, Inr a) \<Rightarrow> f a s)"

section \<open>Settings\<close>

definition getenv :: "auth_env \<Rightarrow> string \<Rightarrow> string option" where
  "getenv env name = dict_get (ae_vars env) name"

definition cfg_get :: "(string, string) dict \<Rightarrow> string \<Rightarrow> string \<Rightarrow> string" where
  "cfg_get cfg key default_value = (case dict_get cfg key of None \<Rightarrow> default_value | Some v \<Rightarrow> v)"

definition instance_char :: "char \<Rightarrow> bool" where
  "instance_char c \<longleftrightarrow> is_alpha c \<or> is_digit c \<or> c \<in> {CHR ''_'', CHR ''.'', CHR ''-''}"

definition instance_text_ok :: "string \<Rightarrow> bool" where
  "instance_text_ok v \<longleftrightarrow> v \<noteq> [] \<and> (is_alpha (hd v) \<or> is_digit (hd v)) \<and> list_all instance_char (tl v) \<and> length v \<le> 128"

definition instance_id :: "auth_env \<Rightarrow> auth_error + string" where
  "instance_id env =
    (let v = py_strip (case getenv env ''APP_INSTANCE_ID'' of None \<Rightarrow> [] | Some t \<Rightarrow> t)
     in if v = [] \<or> \<not> instance_text_ok v then Inl (HttpStatus 503 InstanceMissing) else Inr v)"

definition bounded_integer :: "string \<Rightarrow> int \<Rightarrow> int \<Rightarrow> int \<Rightarrow> int" where
  "bounded_integer raw default_value lo hi =
    (let v = (case parse_int raw of None \<Rightarrow> default_value | Some i \<Rightarrow> i) in max lo (min hi v))"

text \<open>The first of some raw values that is there and not blank.\<close>

fun first_set :: "string option list \<Rightarrow> string" where
  "first_set [] = []"
| "first_set [v] = (case v of None \<Rightarrow> [] | Some t \<Rightarrow> t)"
| "first_set (v # vs) =
     (case v of None \<Rightarrow> first_set vs | Some t \<Rightarrow> if py_strip t = [] then first_set vs else t)"

definition integer_setting ::
  "auth_env \<Rightarrow> (string, string) dict \<Rightarrow> string \<Rightarrow> string \<Rightarrow> int \<Rightarrow> int \<Rightarrow> int \<Rightarrow> int" where
  "integer_setting env cfg env_name config_name default_value lo hi =
    bounded_integer (first_set [getenv env env_name, Some (cfg_get cfg config_name (show_int default_value))])
      default_value lo hi"

definition auth_version :: "(string, string) dict \<Rightarrow> int" where
  "auth_version cfg = (case parse_int (or_else (cfg_get cfg ''auth_version'' ''1'') ''1'') of
     None \<Rightarrow> 1 | Some i \<Rightarrow> max 1 i)"

definition max_session_seconds :: int where
  "max_session_seconds = 30 * 24 * 60 * 60"

definition session_idle_timeout :: "auth_env \<Rightarrow> (string, string) dict \<Rightarrow> int" where
  "session_idle_timeout env cfg =
    bounded_integer
      (first_set [getenv env ''AUTH_SESSION_IDLE_TIMEOUT_SECONDS'', getenv env ''AUTH_SESSION_TTL_SECONDS'',
         Some (cfg_get cfg ''auth_session_idle_timeout_seconds'' []),
         Some (cfg_get cfg ''auth_session_ttl_seconds'' (show_int (12 * 60 * 60)))])
      (12 * 60 * 60) 300 (7 * 24 * 60 * 60)"

definition session_renew_interval :: "auth_env \<Rightarrow> (string, string) dict \<Rightarrow> int" where
  "session_renew_interval env cfg =
    integer_setting env cfg ''AUTH_SESSION_RENEW_INTERVAL_SECONDS'' ''auth_session_renew_interval_seconds''
      (60 * 60) 60 (session_idle_timeout env cfg)"

definition session_absolute_timeout :: "auth_env \<Rightarrow> (string, string) dict \<Rightarrow> int" where
  "session_absolute_timeout env cfg =
    (let idle = session_idle_timeout env cfg
     in max idle (integer_setting env cfg ''AUTH_SESSION_ABSOLUTE_TIMEOUT_SECONDS''
          ''auth_session_absolute_timeout_seconds'' (7 * 24 * 60 * 60) idle max_session_seconds))"

section \<open>The identity of a request\<close>

definition printable :: "char \<Rightarrow> bool" where
  "printable c \<longleftrightarrow> (let n = (of_char c :: nat) in 32 \<le> n \<and> n \<le> 126)"

definition safe_header :: "string \<Rightarrow> nat \<Rightarrow> string" where
  "safe_header v maximum = take maximum (py_strip (filter printable v))"

definition parse_ip :: "auth_env \<Rightarrow> string \<Rightarrow> string option" where
  "parse_ip env v = (let t = py_strip v in if t = [] then None else ip_parse (ae_ip env) t)"

definition header_of :: "http_request \<Rightarrow> string \<Rightarrow> string" where
  "header_of rq name = (case dict_get (hr_headers rq) name of None \<Rightarrow> [] | Some v \<Rightarrow> v)"

definition is_trusted_proxy :: "auth_env \<Rightarrow> string option \<Rightarrow> bool" where
  "is_trusted_proxy env address = (case address of None \<Rightarrow> False | Some a \<Rightarrow> ip_trusted (ae_ip env) a)"

text \<open>The first hop from the right that is no known proxy.\<close>

definition forwarded_client :: "auth_env \<Rightarrow> string list \<Rightarrow> string" where
  "forwarded_client env forwarded =
    (case find (\<lambda>a. \<not> is_trusted_proxy env (Some a)) (rev forwarded) of
       Some a \<Rightarrow> a | None \<Rightarrow> hd forwarded)"

definition client_ip_of :: "auth_env \<Rightarrow> http_request \<Rightarrow> string" where
  "client_ip_of env rq =
    (let peer_text = (case hr_peer rq of None \<Rightarrow> ''unknown'' | Some p \<Rightarrow> p);
         peer_ip = parse_ip env peer_text;
         direct = (case peer_ip of Some a \<Rightarrow> a | None \<Rightarrow> or_else (safe_header peer_text 128) ''unknown'')
     in if \<not> is_trusted_proxy env peer_ip then direct
        else (case parse_ip env (header_of rq ''cf-connecting-ip'') of
                Some a \<Rightarrow> a
              | None \<Rightarrow>
                  (let forwarded = List.map_filter (parse_ip env) (split_on (CHR '','') (header_of rq ''x-forwarded-for''))
                   in if forwarded \<noteq> [] then forwarded_client env forwarded
                      else (case parse_ip env (header_of rq ''x-real-ip'') of Some a \<Rightarrow> a | None \<Rightarrow> direct))))"

definition request_metadata :: "auth_env \<Rightarrow> http_request \<Rightarrow> string \<times> string" where
  "request_metadata env rq = (client_ip_of env rq, safe_header (header_of rq ''user-agent'') 512)"

section \<open>The audit trail\<close>

definition lower_hex :: "char \<Rightarrow> bool" where
  "lower_hex c \<longleftrightarrow> is_digit c \<or> c \<in> {CHR ''a'', CHR ''b'', CHR ''c'', CHR ''d'', CHR ''e'', CHR ''f''}"

definition jti_ok :: "string \<Rightarrow> bool" where
  "jti_ok jti \<longleftrightarrow> length jti = 48 \<and> list_all lower_hex jti"

definition record_event ::
  "auth_env \<Rightarrow> string \<Rightarrow> auth_call \<Rightarrow> string \<Rightarrow> string \<Rightarrow> string \<Rightarrow> string \<Rightarrow> auth_state \<Rightarrow> auth_state" where
  "record_event env inst c stage outcome reason jti s =
    (let (ip, ua) = request_metadata env (cl_request c)
     in s\<lparr>au_audit := au_audit s @
           [\<lparr>ad_instance = inst, ad_event_at = call_now c, ad_client_ip = ip, ad_user_agent = ua,
             ad_stage = safe_header stage 64, ad_outcome = safe_header outcome 32,
             ad_reason = safe_header reason 128, ad_jti = (if jti_ok jti then jti else [])\<rparr>]\<rparr>)"

section \<open>Throttling\<close>

definition throttle_limits :: "auth_env \<Rightarrow> (string, string) dict \<Rightarrow> string \<Rightarrow> int \<times> int \<times> int" where
  "throttle_limits env cfg stage =
    (let totp = stage \<in> {''totp'', ''step_up_totp'', ''totp_setup''}
     in (integer_setting env cfg (if totp then ''AUTH_TOTP_MAX_FAILURES'' else ''AUTH_PASSWORD_MAX_FAILURES'')
           (if totp then ''auth_totp_max_failures'' else ''auth_password_max_failures'') 5 2 100,
         integer_setting env cfg ''AUTH_RATE_LIMIT_WINDOW_SECONDS'' ''auth_rate_limit_window_seconds'' 600 60 86400,
         integer_setting env cfg ''AUTH_RATE_LIMIT_COOLDOWN_SECONDS'' ''auth_rate_limit_cooldown_seconds'' 900 60 86400))"

definition bucket_key :: "auth_env \<Rightarrow> string \<Rightarrow> string \<Rightarrow> string \<Rightarrow> string" where
  "bucket_key env inst client_ip stage =
    ae_sha256 env (inst @ [char_of (0 :: nat)] @ client_ip @ [char_of (0 :: nat)] @ stage)"

definition call_bucket :: "auth_env \<Rightarrow> string \<Rightarrow> auth_call \<Rightarrow> string \<Rightarrow> string" where
  "call_bucket env inst c stage = bucket_key env inst (client_ip_of env (cl_request c)) stage"

definition blocked_until :: "string \<Rightarrow> auth_state \<Rightarrow> int" where
  "blocked_until key s = (case dict_get (au_throttle s) key of None \<Rightarrow> 0 | Some r \<Rightarrow> th_blocked_until r)"

definition enforce_rate_limit ::
  "auth_env \<Rightarrow> string \<Rightarrow> auth_call \<Rightarrow> string \<Rightarrow> auth_state \<Rightarrow> auth_state \<times> (auth_error + unit)" where
  "enforce_rate_limit env inst c stage s =
    (let until = blocked_until (call_bucket env inst c stage) s
     in if until > call_now c
        then (record_event env inst c stage ''blocked'' ''cooldown_active'' [] s,
              Inl (TooManyAttempts (max 1 (until - call_now c))))
        else (s, Inr ()))"

text \<open>The row that the upsert leaves, for a bucket without a row and for one with a row.\<close>

definition first_failure :: "int \<Rightarrow> int \<Rightarrow> int \<Rightarrow> throttle_row" where
  "first_failure maximum cooldown now =
    \<lparr>th_failure_count = 1, th_window_started_at = now,
     th_blocked_until = (if maximum \<le> 1 then now + cooldown else 0), th_updated_at = now\<rparr>"

definition next_failure :: "int \<Rightarrow> int \<Rightarrow> int \<Rightarrow> int \<Rightarrow> throttle_row \<Rightarrow> throttle_row" where
  "next_failure maximum window cooldown now r =
    (let reset = (th_window_started_at r \<le> now - window);
         next_count = (if reset then 1 else th_failure_count r + 1);
         latest_block = (if th_blocked_until r > now + cooldown then th_blocked_until r else now + cooldown)
     in \<lparr>th_failure_count = next_count,
         th_window_started_at = (if reset then now else th_window_started_at r),
         th_blocked_until = (if next_count \<ge> maximum then latest_block else if reset then 0 else th_blocked_until r),
         th_updated_at = now\<rparr>)"

definition register_failure ::
  "auth_env \<Rightarrow> string \<Rightarrow> auth_call \<Rightarrow> string \<Rightarrow> auth_state \<Rightarrow> auth_state \<times> int" where
  "register_failure env inst c stage s =
    (case throttle_limits env (au_cfg s) stage of (maximum, window, cooldown) \<Rightarrow>
       (let key = call_bucket env inst c stage;
            r = (case dict_get (au_throttle s) key of
                   None \<Rightarrow> first_failure maximum cooldown (call_now c)
                 | Some r \<Rightarrow> next_failure maximum window cooldown (call_now c) r)
        in (s\<lparr>au_throttle := dict_set key r (au_throttle s)\<rparr>, th_blocked_until r)))"

definition reset_rate_limit :: "auth_env \<Rightarrow> string \<Rightarrow> auth_call \<Rightarrow> string \<Rightarrow> auth_state \<Rightarrow> auth_state" where
  "reset_rate_limit env inst c stage s =
    s\<lparr>au_throttle := dict_pop (call_bucket env inst c stage) (au_throttle s)\<rparr>"

definition login_failure ::
  "auth_env \<Rightarrow> string \<Rightarrow> auth_call \<Rightarrow> string \<Rightarrow> string \<Rightarrow> auth_error \<Rightarrow> auth_state \<Rightarrow> auth_state \<times> (auth_error + 'a)" where
  "login_failure env inst c stage reason e s =
    (case register_failure env inst c stage s of
       (s1, until) \<Rightarrow>
         (record_event env inst c stage ''failure'' reason [] s1,
          Inl (if until > call_now c then TooManyAttempts (max 1 (until - call_now c)) else e)))"

end
