(* ===== verification/AuthRoutes.thy ===== *)
theory AuthRoutes
  imports AuthState
begin

text \<open>
  Administrator authentication (\<open>api/auth.py\<close>), second part: passwords, tokens and their
  sessions, the challenge between password and code, and the routes. A renewal of a
  session is a statement of its own that checks the row again, so that it can be
  interleaved with other calls.
\<close>

section \<open>Passwords\<close>

definition hex_char :: "char \<Rightarrow> bool" where
  "hex_char c \<longleftrightarrow> lower_hex (lower_char c)"

definition legacy_sha256 :: "string \<Rightarrow> bool" where
  "legacy_sha256 v \<longleftrightarrow> length v = 64 \<and> list_all hex_char v"

text \<open>Whether the password is right, and whether its hash should be replaced.\<close>

definition verify_password :: "auth_env \<Rightarrow> string \<Rightarrow> string \<Rightarrow> bool \<times> bool" where
  "verify_password env password stored =
    (let v = py_strip stored in
     if length password > 1024 then (False, False)
     else if py_startswith v ''$argon2''
     then (let valid = ae_pw_verify env v password in (valid, valid \<and> ae_pw_needs_rehash env v))
     else if legacy_sha256 v
     then (let valid = (ae_sha256 env password = py_lower v) in (valid, valid))
     else (False, False))"

definition validate_new_password :: "string \<Rightarrow> auth_error + unit" where
  "validate_new_password password =
    (if length password < 12 then Inl (HttpStatus 400 PasswordTooShort)
     else if length password > 1024 then Inl (HttpStatus 400 PasswordTooLong) else Inr ())"

definition set_cfg :: "string \<Rightarrow> string \<Rightarrow> auth_state \<Rightarrow> auth_state" where
  "set_cfg key v s = s\<lparr>au_cfg := dict_set key v (au_cfg s)\<rparr>"

definition password_hash_of :: "auth_state \<Rightarrow> string" where
  "password_hash_of s = cfg_get (au_cfg s) ''auth_password_hash'' []"

definition totp_secret_of :: "auth_state \<Rightarrow> string" where
  "totp_secret_of s = cfg_get (au_cfg s) ''auth_totp_secret'' []"

section \<open>Tokens\<close>

definition text_bytes :: "string \<Rightarrow> byte list" where
  "text_bytes s = map of_char s"

definition bytes_text :: "byte list \<Rightarrow> string" where
  "bytes_text bs = map (\<lambda>b. char_of (unat b)) bs"

text \<open>The base secret, drawn and stored when there is none.\<close>

definition base_secret :: "auth_env \<Rightarrow> auth_call \<Rightarrow> auth_state \<Rightarrow> auth_state \<times> string" where
  "base_secret env c s =
    (let from_env = py_strip (case getenv env ''APP_JWT_SECRET'' of None \<Rightarrow> [] | Some v \<Rightarrow> v);
         from_cfg = py_strip (cfg_get (au_cfg s) ''auth_jwt_secret'' [])
     in if from_env \<noteq> [] then (s, from_env)
        else if from_cfg \<noteq> [] then (s, from_cfg)
        else (set_cfg ''auth_jwt_secret'' (cl_secret c) s, cl_secret c))"

definition signing_key :: "auth_env \<Rightarrow> string \<Rightarrow> string \<Rightarrow> byte list" where
  "signing_key env inst secret =
    ae_hmac_sha256 env (text_bytes secret) (text_bytes (''auto-gpt-admin-jwt:v2:'' @ inst))"

definition sign_token :: "auth_env \<Rightarrow> byte list \<Rightarrow> string \<Rightarrow> string" where
  "sign_token env key text = b64url_encode (ae_hmac_sha256 env key (text_bytes text))"

definition token_header :: "(string, pyval) dict" where
  "token_header = [(''alg'', PStr ''HS256''), (''typ'', PStr ''JWT'')]"

definition issuer :: "string \<Rightarrow> string" where
  "issuer inst = ''auto-gpt-admin:'' @ inst"

definition audience :: "string \<Rightarrow> string" where
  "audience inst = ''auto-gpt-admin-api:'' @ inst"

definition token_claims :: "string \<Rightarrow> string \<Rightarrow> int \<Rightarrow> int \<Rightarrow> int \<Rightarrow> (string, pyval) dict" where
  "token_claims inst jti version now absolute_expires_at =
    [(''sub'', PStr ''admin''), (''iss'', PStr (issuer inst)), (''aud'', PStr (audience inst)), (''jti'', PStr jti),
     (''auth_version'', PInt version), (''iat'', PInt now), (''exp'', PInt absolute_expires_at)]"

definition encode_json :: "auth_env \<Rightarrow> (string, pyval) dict \<Rightarrow> string" where
  "encode_json env d = b64url_encode (text_bytes (ae_dumps env d))"

definition decode_json :: "auth_env \<Rightarrow> string \<Rightarrow> pyval option" where
  "decode_json env t = (case b64url_decode t of None \<Rightarrow> None | Some bs \<Rightarrow> ae_loads env (bytes_text bs))"

section \<open>Sessions\<close>

definition persist_session :: "string \<Rightarrow> string \<Rightarrow> session_row \<Rightarrow> auth_state \<Rightarrow> auth_state \<times> (auth_error + unit)" where
  "persist_session inst jti r s =
    (case dict_get (au_sessions s) jti of
       Some _ \<Rightarrow> (s, Inl (HttpStatus 503 SessionExists))
     | None \<Rightarrow>
         (s\<lparr>au_sessions := filter (\<lambda>(_, q). \<not> (sr_instance q = inst
              \<and> sr_expires_at q < sr_issued_at r - 30 * 86400)) (dict_set jti r (au_sessions s))\<rparr>, Inr ()))"

definition create_token ::
  "auth_env \<Rightarrow> string \<Rightarrow> auth_call \<Rightarrow> int option \<Rightarrow> auth_state \<Rightarrow> auth_state \<times> (auth_error + string)" where
  "create_token env inst c expire_seconds s =
    (let now = call_now c;
         idle = (case expire_seconds of
                   Some n \<Rightarrow> max 1 (min max_session_seconds n) | None \<Rightarrow> session_idle_timeout env (au_cfg s));
         absolute = (case expire_seconds of
                   Some n \<Rightarrow> max 1 (min max_session_seconds n) | None \<Rightarrow> session_absolute_timeout env (au_cfg s));
         version = auth_version (au_cfg s);
         (ip, ua) = request_metadata env (cl_request c);
         (s1, secret) = base_secret env c s;
         body = encode_json env token_header @ ''.'' @
                encode_json env (token_claims inst (cl_jti c) version now (now + absolute));
         row = \<lparr>sr_instance = inst, sr_auth_version = version, sr_issued_at = now, sr_last_seen_at = now,
                sr_expires_at = min (now + idle) (now + absolute), sr_absolute_expires_at = now + absolute,
                sr_revoked_at = 0, sr_revoke_reason = [], sr_client_ip = ip, sr_user_agent = ua\<rparr>
     in and_then (persist_session inst (cl_jti c) row s1)
          (\<lambda>_ s2. (s2, Inr (body @ ''.'' @ sign_token env (signing_key env inst secret) body))))"

text \<open>\<open>str(data.get("jti") or "")\<close>; a float or a container has no text that could be an id.\<close>

fun jti_text :: "pyval \<Rightarrow> string" where
  "jti_text (PStr t) = t"
| "jti_text (PInt i) = (if i = 0 then [] else show_int i)"
| "jti_text (PBool b) = (if b then ''True'' else [])"
| "jti_text _ = []"

record auth_claims =
  ac_jti :: string
  ac_version :: int
  ac_issued_at :: int
  ac_expires_at :: int

definition claim :: "(string, pyval) dict \<Rightarrow> string \<Rightarrow> pyval" where
  "claim d k = (case dict_get d k of None \<Rightarrow> PNone | Some v \<Rightarrow> v)"

text \<open>The checks of the claims of a signed token.\<close>

definition check_claims :: "string \<Rightarrow> int \<Rightarrow> int \<Rightarrow> (string, pyval) dict \<Rightarrow> auth_error + auth_claims" where
  "check_claims inst current_version now d =
    (case (py_int (claim d ''iat''), py_int (claim d ''exp''), py_int (claim d ''auth_version'')) of
       (Some iat, Some expires, Some version) \<Rightarrow>
         (let jti = jti_text (claim d ''jti'') in
          if claim d ''sub'' \<noteq> PStr ''admin'' \<or> claim d ''iss'' \<noteq> PStr (issuer inst)
             \<or> claim d ''aud'' \<noteq> PStr (audience inst) \<or> \<not> jti_ok jti \<or> iat > now + 60 \<or> expires \<le> now
             \<or> expires \<le> iat \<or> expires - iat > max_session_seconds \<or> version \<noteq> current_version
          then Inl (HttpStatus 401 TokenClaimsInvalid)
          else Inr \<lparr>ac_jti = jti, ac_version = version, ac_issued_at = iat, ac_expires_at = expires\<rparr>)
     | _ \<Rightarrow> Inl (HttpStatus 401 TokenClaimsIncomplete))"

text \<open>The claims of a token whose header and signature are right; a payload that is no object has no claims.\<close>

definition signed_claims :: "auth_env \<Rightarrow> string \<Rightarrow> string \<Rightarrow> string \<Rightarrow> auth_error + (string, pyval) dict" where
  "signed_claims env inst secret token =
    (case split_on (CHR ''.'') token of
       [h, p, sig] \<Rightarrow>
         (case (decode_json env h, decode_json env p) of
            (Some hv, Some pv) \<Rightarrow>
              if (case hv of PDict d \<Rightarrow> set d \<noteq> set token_header | _ \<Rightarrow> True) then Inl (HttpStatus 401 TokenInvalid)
              else if sig \<noteq> sign_token env (signing_key env inst secret) (h @ ''.'' @ p)
              then Inl (HttpStatus 401 TokenSignature)
              else Inr (case pv of PDict d \<Rightarrow> d | _ \<Rightarrow> [])
          | _ \<Rightarrow> Inl (HttpStatus 401 TokenFormat))
     | _ \<Rightarrow> Inl (HttpStatus 401 TokenFormat))"

definition token_well_formed :: "auth_env \<Rightarrow> string \<Rightarrow> bool" where
  "token_well_formed env token \<longleftrightarrow>
    (case split_on (CHR ''.'') token of
       [h, p, sig] \<Rightarrow> (case decode_json env h of
           Some (PDict d) \<Rightarrow> set d = set token_header \<and> decode_json env p \<noteq> None | _ \<Rightarrow> False)
     | _ \<Rightarrow> False)"

definition session_valid :: "string \<Rightarrow> int \<Rightarrow> auth_claims \<Rightarrow> session_row \<Rightarrow> bool" where
  "session_valid inst now cs r \<longleftrightarrow> sr_instance r = inst \<and> sr_auth_version r = ac_version cs
     \<and> sr_issued_at r = ac_issued_at cs \<and> sr_absolute_expires_at r = ac_expires_at cs \<and> sr_revoked_at r = 0
     \<and> sr_expires_at r > now \<and> sr_absolute_expires_at r > now \<and> sr_expires_at r \<le> sr_absolute_expires_at r"

text \<open>What a renewal writes: the activity with the value it saw before, and the new idle deadline.\<close>

record renewal =
  rn_jti :: string
  rn_version :: int
  rn_expires_at :: int
  rn_now :: int
  rn_activity :: "(int \<times> string \<times> string) option"
  rn_new_expires_at :: "int option"

definition plan_renewal :: "auth_env \<Rightarrow> auth_call \<Rightarrow> (string, string) dict \<Rightarrow> auth_claims \<Rightarrow> session_row \<Rightarrow> renewal option" where
  "plan_renewal env c cfg cs r =
    (let now = call_now c; idle = session_idle_timeout env cfg; interval = session_renew_interval env cfg;
         activity_due = (sr_last_seen_at r \<le> now - 5 * 60);
         renewal_due = (sr_expires_at r \<le> now + idle - interval);
         new_expires = min (now + idle) (sr_absolute_expires_at r);
         (ip, ua) = request_metadata env (cl_request c)
     in if activity_due \<or> (renewal_due \<and> new_expires > sr_expires_at r)
        then Some \<lparr>rn_jti = ac_jti cs, rn_version = ac_version cs, rn_expires_at = ac_expires_at cs, rn_now = now,
               rn_activity = (if activity_due then Some (sr_last_seen_at r, ip, ua) else None),
               rn_new_expires_at = (if renewal_due \<and> new_expires > sr_expires_at r then Some new_expires else None)\<rparr>
        else None)"

definition renew_row :: "renewal \<Rightarrow> session_row \<Rightarrow> session_row" where
  "renew_row n r =
    (let r1 = (case rn_activity n of
                 None \<Rightarrow> r
               | Some (_, ip, ua) \<Rightarrow> r\<lparr>sr_last_seen_at := rn_now n, sr_client_ip := ip, sr_user_agent := ua\<rparr>)
     in case rn_new_expires_at n of
          None \<Rightarrow> r1
        | Some e \<Rightarrow> r1\<lparr>sr_expires_at := (if sr_expires_at r < e then e else sr_expires_at r)\<rparr>)"

definition renewal_applies :: "string \<Rightarrow> renewal \<Rightarrow> session_row \<Rightarrow> bool" where
  "renewal_applies inst n r \<longleftrightarrow> sr_instance r = inst \<and> sr_auth_version r = rn_version n \<and> sr_revoked_at r = 0
     \<and> sr_expires_at r > rn_now n \<and> sr_absolute_expires_at r = rn_expires_at n \<and> sr_absolute_expires_at r > rn_now n
     \<and> (case rn_activity n of None \<Rightarrow> True | Some (seen, _, _) \<Rightarrow> sr_last_seen_at r = seen)"

definition apply_renewal :: "string \<Rightarrow> renewal \<Rightarrow> auth_state \<Rightarrow> auth_state" where
  "apply_renewal inst n s =
    (case dict_get (au_sessions s) (rn_jti n) of
       None \<Rightarrow> s
     | Some r \<Rightarrow> if renewal_applies inst n r
         then s\<lparr>au_sessions := dict_set (rn_jti n) (renew_row n r) (au_sessions s)\<rparr> else s)"

text \<open>The order of the checks is that of the source: a token that is no token is refused before the key is made.\<close>

definition verify_token ::
  "auth_env \<Rightarrow> string \<Rightarrow> auth_call \<Rightarrow> string \<Rightarrow> auth_state \<Rightarrow> auth_state \<times> (auth_error + auth_claims)" where
  "verify_token env inst c token s =
    (if \<not> token_well_formed env token
     then (s, case signed_claims env inst [] token of Inl e \<Rightarrow> Inl e | Inr _ \<Rightarrow> Inl (HttpStatus 401 TokenFormat))
     else
       (case base_secret env c s of
          (s1, secret) \<Rightarrow>
            (case signed_claims env inst secret token of
               Inl e \<Rightarrow> (s1, Inl e)
             | Inr d \<Rightarrow>
                 (case check_claims inst (auth_version (au_cfg s1)) (call_now c) d of
                    Inl e \<Rightarrow> (s1, Inl e)
                  | Inr cs \<Rightarrow>
                      (case dict_get (au_sessions s1) (ac_jti cs) of
                         None \<Rightarrow> (s1, Inl (HttpStatus 401 SessionEnded))
                       | Some r \<Rightarrow>
                           if session_valid inst (call_now c) cs r
                           then (case plan_renewal env c (au_cfg s1) cs r of
                                   None \<Rightarrow> s1 | Some n \<Rightarrow> apply_renewal inst n s1, Inr cs)
                           else (s1, Inl (HttpStatus 401 SessionEnded)))))))"

definition revoke_session :: "string \<Rightarrow> auth_call \<Rightarrow> string \<Rightarrow> string \<Rightarrow> auth_state \<Rightarrow> auth_state" where
  "revoke_session inst c jti reason s =
    (case dict_get (au_sessions s) jti of
       None \<Rightarrow> s
     | Some r \<Rightarrow> if sr_instance r = inst \<and> sr_revoked_at r = 0
         then s\<lparr>au_sessions := dict_set jti (r\<lparr>sr_revoked_at := call_now c, sr_revoke_reason := safe_header reason 128\<rparr>)
                (au_sessions s)\<rparr> else s)"

definition revoked_row :: "string \<Rightarrow> auth_call \<Rightarrow> string \<Rightarrow> session_row \<Rightarrow> session_row" where
  "revoked_row inst c reason r =
    (if sr_instance r = inst \<and> sr_revoked_at r = 0
     then r\<lparr>sr_revoked_at := call_now c, sr_revoke_reason := safe_header reason 128\<rparr> else r)"

definition revoke_all_sessions :: "string \<Rightarrow> auth_call \<Rightarrow> string \<Rightarrow> auth_state \<Rightarrow> auth_state \<times> nat" where
  "revoke_all_sessions inst c reason s =
    (s\<lparr>au_sessions := map (\<lambda>(k, r). (k, revoked_row inst c reason r)) (au_sessions s)\<rparr>,
     length (filter (\<lambda>(_, r). sr_instance r = inst \<and> sr_revoked_at r = 0) (au_sessions s)))"

definition replace_auth_config ::
  "string \<Rightarrow> auth_call \<Rightarrow> (string, string) dict \<Rightarrow> string \<Rightarrow> auth_state \<Rightarrow> auth_state" where
  "replace_auth_config inst c values reason s =
    fst (revoke_all_sessions inst c reason
      (s\<lparr>au_cfg := dict_merge (au_cfg s) (dict_set ''auth_version'' (show_int (auth_version (au_cfg s) + 1)) values)\<rparr>))"

end
