(* ===== verification/AuthHandlers.thy ===== *)
theory AuthHandlers
  imports AuthRoutes
begin

text \<open>
  Administrator authentication (\<open>api/auth.py\<close>), third part: the step-up checks, the
  challenge between password and code, and the routes, composed into one step of the
  service. The framework's own length checks of the request bodies are left out.
\<close>

section \<open>Step-up checks\<close>

definition when_rehash :: "auth_env \<Rightarrow> string \<Rightarrow> bool \<Rightarrow> auth_state \<Rightarrow> auth_state" where
  "when_rehash env password needed s =
    (if needed then set_cfg ''auth_password_hash'' (ae_pw_hash env password) s else s)"

definition require_step_up_password ::
  "auth_env \<Rightarrow> string \<Rightarrow> auth_call \<Rightarrow> string \<Rightarrow> string \<Rightarrow> auth_state \<Rightarrow> auth_state \<times> (auth_error + unit)" where
  "require_step_up_password env inst c password jti s =
    and_then (enforce_rate_limit env inst c ''step_up_password'' s) (\<lambda>_ s1.
      (case verify_password env password (password_hash_of s1) of
         (valid, rehash) \<Rightarrow>
           if password_hash_of s1 = [] \<or> \<not> valid
           then login_failure env inst c ''step_up_password'' ''invalid_current_password''
                  (HttpStatus 400 WrongCurrentPassword) s1
           else (record_event env inst c ''step_up_password'' ''success'' ''current_password_verified'' jti
                   (reset_rate_limit env inst c ''step_up_password'' (when_rehash env password rehash s1)), Inr ())))"

definition require_step_up_totp ::
  "auth_env \<Rightarrow> string \<Rightarrow> auth_call \<Rightarrow> string \<Rightarrow> string \<Rightarrow> string \<Rightarrow> auth_state \<Rightarrow> auth_state \<times> (auth_error + unit)" where
  "require_step_up_totp env inst c code secret jti s =
    and_then (enforce_rate_limit env inst c ''step_up_totp'' s) (\<lambda>_ s1.
      if \<not> verify_totp (ae_hmac_sha1 env) secret code (call_now c)
      then login_failure env inst c ''step_up_totp'' ''invalid_current_totp'' (HttpStatus 400 TotpCurrentWrong) s1
      else (record_event env inst c ''step_up_totp'' ''success'' ''current_totp_verified'' jti
              (reset_rate_limit env inst c ''step_up_totp'' s1), Inr ()))"

text \<open>First-run access: the configured token, else a request from this machine or its gateway.\<close>

definition local_bootstrap :: "auth_env \<Rightarrow> http_request \<Rightarrow> bool" where
  "local_bootstrap env rq \<longleftrightarrow>
    (let effective = parse_ip env (client_ip_of env rq);
         peer = parse_ip env (case hr_peer rq of None \<Rightarrow> [] | Some p \<Rightarrow> p)
     in (case effective of None \<Rightarrow> False | Some a \<Rightarrow> ip_loopback (ae_ip env) a)
        \<or> (case peer of None \<Rightarrow> False
           | Some p \<Rightarrow> effective = peer \<and> is_trusted_proxy env peer
               \<and> (ip_local (ae_ip env) p \<or> ip_loopback (ae_ip env) p)))"

definition require_bootstrap_access ::
  "auth_env \<Rightarrow> string \<Rightarrow> auth_call \<Rightarrow> string \<Rightarrow> auth_state \<Rightarrow> auth_state \<times> (auth_error + unit)" where
  "require_bootstrap_access env inst c supplied s =
    (let configured = (case getenv env ''APP_AUTH_BOOTSTRAP_TOKEN'' of None \<Rightarrow> [] | Some t \<Rightarrow> t);
         granted = (\<lambda>reason. (record_event env inst c ''bootstrap'' ''success'' reason []
                      (reset_rate_limit env inst c ''bootstrap'' s), Inr ()))
     in if configured \<noteq> []
        then (if configured = supplied then granted ''bootstrap_token_verified''
              else login_failure env inst c ''bootstrap'' ''invalid_bootstrap_token''
                     (HttpStatus 403 BootstrapTokenInvalid) s)
        else if local_bootstrap env (cl_request c) then granted ''local_bootstrap_source_verified''
        else login_failure env inst c ''bootstrap'' ''bootstrap_source_not_local'' (HttpStatus 403 BootstrapNotLocal) s)"

section \<open>Answers\<close>

record status_details =
  sd_has_totp :: bool
  sd_idle_timeout :: int
  sd_absolute_timeout :: int
  sd_algorithm :: string

record auth_status =
  as_has_password :: bool
  as_instance_id :: string
  as_bootstrap_token_required :: bool
  as_min_password_length :: int
  as_details :: "status_details option"

datatype auth_answer =
    AnsToken string
  | AnsTwoFactor string
  | AnsDone
  | AnsRevoked nat
  | AnsSessions "(string \<times> session_row) list"
  | AnsAudit "audit_row list"
  | AnsStatus auth_status
  | AnsSecret string string

text \<open>A new token, checked as a request would check it, with the entry in the trail.\<close>

definition issue_token ::
  "auth_env \<Rightarrow> string \<Rightarrow> auth_call \<Rightarrow> string \<Rightarrow> string \<Rightarrow> auth_state \<Rightarrow> auth_state \<times> (auth_error + auth_answer)" where
  "issue_token env inst c stage reason s =
    and_then (create_token env inst c None s) (\<lambda>token s1.
      and_then (verify_token env inst c token s1) (\<lambda>cs s2.
        (record_event env inst c stage ''success'' reason (ac_jti cs) s2, Inr (AnsToken token))))"

definition setup_password ::
  "auth_env \<Rightarrow> string \<Rightarrow> auth_call \<Rightarrow> string \<Rightarrow> string \<Rightarrow> auth_state \<Rightarrow> auth_state \<times> (auth_error + auth_answer)" where
  "setup_password env inst c password bootstrap_token s =
    and_then (s, validate_new_password password) (\<lambda>_ s0.
    and_then (enforce_rate_limit env inst c ''bootstrap'' s0) (\<lambda>_ s1.
      if password_hash_of s1 \<noteq> []
      then login_failure env inst c ''bootstrap'' ''password_already_initialized'' (HttpStatus 409 AlreadyInitialised) s1
      else and_then (require_bootstrap_access env inst c bootstrap_token s1) (\<lambda>_ s2.
        issue_token env inst c ''credential_change'' ''password_initialized''
          (replace_auth_config inst c [(''auth_password_hash'', ae_pw_hash env password)] ''password_setup'' s2))))"

definition live_pending :: "time \<Rightarrow> (string, pending_totp) dict \<Rightarrow> (string, pending_totp) dict" where
  "live_pending now d = filter (\<lambda>(_, p). \<not> pt_expires_at p \<le> now) d"

text \<open>The password was right: a challenge for the code, or the token at once.\<close>

definition password_accepted ::
  "auth_env \<Rightarrow> string \<Rightarrow> auth_call \<Rightarrow> auth_state \<Rightarrow> auth_state \<times> (auth_error + auth_answer)" where
  "password_accepted env inst c s =
    (if totp_secret_of s \<noteq> []
     then (s\<lparr>au_pending := dict_set (cl_temp_token c)
                 \<lparr>pt_instance = inst, pt_auth_version = auth_version (au_cfg s),
                  pt_expires_at = cl_time c + 300, pt_failure_count = 0\<rparr>
                 (live_pending (cl_time c) (au_pending s))\<rparr>,
           Inr (AnsTwoFactor (cl_temp_token c)))
     else issue_token env inst c ''login'' ''password_only'' s)"

definition login :: "auth_env \<Rightarrow> string \<Rightarrow> auth_call \<Rightarrow> string \<Rightarrow> auth_state \<Rightarrow> auth_state \<times> (auth_error + auth_answer)" where
  "login env inst c password s =
    and_then (enforce_rate_limit env inst c ''password'' s) (\<lambda>_ s1.
      if password_hash_of s1 = []
      then login_failure env inst c ''password'' ''authentication_not_initialized'' (HttpStatus 403 NoPasswordSet) s1
      else (case verify_password env password (password_hash_of s1) of
              (valid, rehash) \<Rightarrow>
                if \<not> valid
                then login_failure env inst c ''password'' ''invalid_password'' (HttpStatus 401 WrongPassword) s1
                else
                  password_accepted env inst c
                    (record_event env inst c ''password'' ''success''
                       (if rehash then ''password_verified_hash_migrated'' else ''password_verified'') []
                       (reset_rate_limit env inst c ''password'' (when_rehash env password rehash s1)))))"

datatype challenge_state = ChallengeInvalid | ChallengeDisabled | ChallengeAccepted | ChallengeExhausted | ChallengeWrongCode

text \<open>The critical section of the challenge: what becomes of it, and what stays pending.\<close>

definition judge_challenge ::
  "auth_env \<Rightarrow> string \<Rightarrow> auth_call \<Rightarrow> string \<Rightarrow> string \<Rightarrow> auth_state \<Rightarrow> (string, pending_totp) dict \<times> challenge_state" where
  "judge_challenge env inst c temp code s =
    (let d = live_pending (cl_time c) (au_pending s); gone = dict_pop temp d in
     (case dict_get d temp of
        None \<Rightarrow> (gone, ChallengeInvalid)
      | Some p \<Rightarrow>
          if \<not> (pt_instance p = inst \<and> pt_auth_version p = auth_version (au_cfg s)) then (gone, ChallengeInvalid)
          else if totp_secret_of s = [] then (gone, ChallengeDisabled)
          else if verify_totp (ae_hmac_sha1 env) (totp_secret_of s) code (call_now c) then (gone, ChallengeAccepted)
          else (let p1 = p\<lparr>pt_failure_count := pt_failure_count p + 1\<rparr>
                in if pt_failure_count p1 \<ge> 5 then (gone, ChallengeExhausted)
                   else (dict_set temp p1 d, ChallengeWrongCode))))"

definition verify_totp_route ::
  "auth_env \<Rightarrow> string \<Rightarrow> auth_call \<Rightarrow> string \<Rightarrow> string \<Rightarrow> auth_state \<Rightarrow> auth_state \<times> (auth_error + auth_answer)" where
  "verify_totp_route env inst c temp code s =
    and_then (enforce_rate_limit env inst c ''totp'' s) (\<lambda>_ s0.
      (case judge_challenge env inst c temp code s0 of
         (pending, verdict) \<Rightarrow>
           (let s1 = s0\<lparr>au_pending := pending\<rparr> in
            case verdict of
              ChallengeInvalid \<Rightarrow>
                login_failure env inst c ''totp'' ''invalid_temp_token'' (HttpStatus 401 TempTokenInvalid) s1
            | ChallengeDisabled \<Rightarrow>
                (record_event env inst c ''totp'' ''failure'' ''totp_not_enabled'' [] s1, Inl (HttpStatus 400 TotpNotEnabled))
            | ChallengeExhausted \<Rightarrow>
                (record_event env inst c ''totp'' ''failure'' ''totp_challenge_attempts_exhausted'' []
                   (fst (register_failure env inst c ''totp'' s1)), Inl (HttpStatus 401 TotpExhausted))
            | ChallengeWrongCode \<Rightarrow>
                login_failure env inst c ''totp'' ''invalid_totp'' (HttpStatus 400 TotpWrong) s1
            | ChallengeAccepted \<Rightarrow>
                issue_token env inst c ''login'' ''password_and_totp''
                  (record_event env inst c ''totp'' ''success'' ''totp_verified'' []
                     (reset_rate_limit env inst c ''totp'' s1)))))"

section \<open>Routes of a signed-in administrator\<close>

definition require_auth ::
  "auth_env \<Rightarrow> string \<Rightarrow> auth_call \<Rightarrow> string \<Rightarrow> auth_state \<Rightarrow> auth_state \<times> (auth_error + auth_claims)" where
  "require_auth = verify_token"

definition change_password ::
  "auth_env \<Rightarrow> string \<Rightarrow> auth_call \<Rightarrow> auth_claims \<Rightarrow> string \<Rightarrow> string \<Rightarrow> auth_state \<Rightarrow> auth_state \<times> (auth_error + auth_answer)" where
  "change_password env inst c cs current new_password s =
    and_then (s, validate_new_password new_password) (\<lambda>_ s0.
    and_then (require_step_up_password env inst c current (ac_jti cs) s0) (\<lambda>_ s1.
      (record_event env inst c ''credential_change'' ''success'' ''password_changed'' (ac_jti cs)
         (replace_auth_config inst c [(''auth_password_hash'', ae_pw_hash env new_password)] ''password_changed'' s1),
       Inr AnsDone)))"

text \<open>The shape of a secret: letters and base32 digits, then equals signs.\<close>

definition secret_text_ok :: "string \<Rightarrow> bool" where
  "secret_text_ok secret \<longleftrightarrow>
    (let core = rev (dropWhile (\<lambda>c. c = CHR ''='') (rev secret))
     in core \<noteq> [] \<and> list_all (\<lambda>c. b32_value (upper_char c) \<noteq> None) core)"

definition strong_secret :: "string \<Rightarrow> bool" where
  "strong_secret secret \<longleftrightarrow> 16 \<le> length secret \<and> length secret \<le> 128 \<and> secret_text_ok secret
     \<and> 20 \<le> length (decode_totp_secret secret)"

definition enable_2fa ::
  "auth_env \<Rightarrow> string \<Rightarrow> auth_call \<Rightarrow> auth_claims \<Rightarrow> string \<Rightarrow> string \<Rightarrow> string \<Rightarrow> auth_state \<Rightarrow>
   auth_state \<times> (auth_error + auth_answer)" where
  "enable_2fa env inst c cs secret code current s =
    (if totp_secret_of s \<noteq> [] then (s, Inl (HttpStatus 409 TotpAlreadyEnabled))
     else if \<not> strong_secret secret then (s, Inl (HttpStatus 400 TotpWeakSecret))
     else
       and_then (require_step_up_password env inst c current (ac_jti cs) s) (\<lambda>_ s1.
       and_then (enforce_rate_limit env inst c ''totp_setup'' s1) (\<lambda>_ s2.
         if \<not> verify_totp (ae_hmac_sha1 env) secret code (call_now c)
         then login_failure env inst c ''totp_setup'' ''invalid_totp_setup_code'' (HttpStatus 400 TotpSetupWrong) s2
         else (record_event env inst c ''credential_change'' ''success'' ''totp_enabled'' (ac_jti cs)
                 (replace_auth_config inst c [(''auth_totp_secret'', secret)] ''totp_enabled''
                    (reset_rate_limit env inst c ''totp_setup'' s2)), Inr AnsDone))))"

definition disable_2fa ::
  "auth_env \<Rightarrow> string \<Rightarrow> auth_call \<Rightarrow> auth_claims \<Rightarrow> string \<Rightarrow> string \<Rightarrow> auth_state \<Rightarrow> auth_state \<times> (auth_error + auth_answer)" where
  "disable_2fa env inst c cs current code s =
    (let secret = totp_secret_of s in
     if secret = [] then (s, Inl (HttpStatus 400 TotpNotEnabled))
     else
       and_then (require_step_up_password env inst c current (ac_jti cs) s) (\<lambda>_ s1.
       and_then (require_step_up_totp env inst c code secret (ac_jti cs) s1) (\<lambda>_ s2.
         (record_event env inst c ''credential_change'' ''success'' ''totp_disabled'' (ac_jti cs)
            (replace_auth_config inst c [(''auth_totp_secret'', [])] ''totp_disabled'' s2), Inr AnsDone))))"

definition logout :: "auth_env \<Rightarrow> string \<Rightarrow> auth_call \<Rightarrow> auth_claims \<Rightarrow> auth_state \<Rightarrow> auth_state" where
  "logout env inst c cs s =
    record_event env inst c ''logout'' ''success'' ''session_revoked'' (ac_jti cs)
      (revoke_session inst c (ac_jti cs) ''logout'' s)"

definition revoke_all_route :: "auth_env \<Rightarrow> string \<Rightarrow> auth_call \<Rightarrow> auth_claims \<Rightarrow> auth_state \<Rightarrow> auth_state \<times> nat" where
  "revoke_all_route env inst c cs s =
    (case revoke_all_sessions inst c ''admin_revoke_all'' s of
       (s1, n) \<Rightarrow> (record_event env inst c ''logout'' ''success'' ''all_sessions_revoked'' (ac_jti cs) s1, n))"

definition list_sessions :: "string \<Rightarrow> auth_call \<Rightarrow> bool \<Rightarrow> auth_state \<Rightarrow> (string \<times> session_row) list" where
  "list_sessions inst c active_only s =
    take 200 (sort_by (\<lambda>(_, q) (_, r). sr_issued_at r \<le> sr_issued_at q)
      (filter (\<lambda>(_, r). sr_instance r = inst \<and> (active_only \<longrightarrow>
           sr_revoked_at r = 0 \<and> sr_expires_at r > call_now c \<and> sr_absolute_expires_at r > call_now c))
        (au_sessions s)))"

text \<open>The trail, newest first; rows of one instant in the order of their ids, the last first.\<close>

definition list_audit :: "string \<Rightarrow> nat \<Rightarrow> auth_state \<Rightarrow> audit_row list" where
  "list_audit inst limit s =
    take limit (sort_by (\<lambda>q r. ad_event_at r \<le> ad_event_at q)
      (rev (filter (\<lambda>r. ad_instance r = inst) (au_audit s))))"

datatype auth_route =
    RSetup string string
  | RLogin string
  | RVerifyTotp string string
  | RStatus "string option"
  | RSetupTotp string
  | RLogout string
  | RChangePassword string string string
  | REnableTotp string string string string
  | RDisableTotp string string string
  | RDisableAuth string
  | RSessions string bool
  | RRevokeAll string
  | RAudit string nat

definition signed_in ::
  "auth_env \<Rightarrow> string \<Rightarrow> auth_call \<Rightarrow> string \<Rightarrow> (auth_claims \<Rightarrow> auth_state \<Rightarrow> auth_state \<times> (auth_error + auth_answer)) \<Rightarrow>
   auth_state \<Rightarrow> auth_state \<times> (auth_error + auth_answer)" where
  "signed_in env inst c token f s = and_then (require_auth env inst c token s) f"

text \<open>What everybody may know, and the details for a signed-in administrator.\<close>

definition password_algorithm :: "string \<Rightarrow> string" where
  "password_algorithm hash_text =
    (if py_startswith hash_text ''$argon2id$'' then ''argon2id''
     else if legacy_sha256 hash_text then ''legacy_sha256'' else ''unknown'')"

definition auth_status_route ::
  "auth_env \<Rightarrow> string \<Rightarrow> auth_call \<Rightarrow> string option \<Rightarrow> auth_state \<Rightarrow> auth_state \<times> (auth_error + auth_answer)" where
  "auth_status_route env inst c token s =
    (let status = \<lparr>as_has_password = password_hash_of s \<noteq> [], as_instance_id = inst,
           as_bootstrap_token_required = (case getenv env ''APP_AUTH_BOOTSTRAP_TOKEN'' of None \<Rightarrow> False | Some t \<Rightarrow> t \<noteq> []),
           as_min_password_length = 12, as_details = None\<rparr>
     in (case token of
           None \<Rightarrow> (s, Inr (AnsStatus status))
         | Some t \<Rightarrow> signed_in env inst c t (\<lambda>_ s1.
             (s1, Inr (AnsStatus (status\<lparr>as_details := Some
                \<lparr>sd_has_totp = totp_secret_of s1 \<noteq> [], sd_idle_timeout = session_idle_timeout env (au_cfg s1),
                 sd_absolute_timeout = session_absolute_timeout env (au_cfg s1),
                 sd_algorithm = password_algorithm (password_hash_of s)\<rparr>\<rparr>)))) s))"

text \<open>One request to a running instance.\<close>

fun handle_route ::
  "auth_env \<Rightarrow> string \<Rightarrow> auth_call \<Rightarrow> auth_route \<Rightarrow> auth_state \<Rightarrow> auth_state \<times> (auth_error + auth_answer)" where
  "handle_route env inst c (RSetup password token) s = setup_password env inst c password token s"
| "handle_route env inst c (RLogin password) s = login env inst c password s"
| "handle_route env inst c (RVerifyTotp temp code) s = verify_totp_route env inst c temp code s"
| "handle_route env inst c (RStatus token) s = auth_status_route env inst c token s"
| "handle_route env inst c (RSetupTotp token) s =
     signed_in env inst c token (\<lambda>_ s1.
       (s1, Inr (AnsSecret (generate_totp_secret (cl_totp_bytes c)) (totp_uri inst (generate_totp_secret (cl_totp_bytes c)))))) s"
| "handle_route env inst c (RLogout token) s = signed_in env inst c token (\<lambda>cs s1. (logout env inst c cs s1, Inr AnsDone)) s"
| "handle_route env inst c (RChangePassword token current new_password) s =
     signed_in env inst c token (\<lambda>cs. change_password env inst c cs current new_password) s"
| "handle_route env inst c (REnableTotp token secret code current) s =
     signed_in env inst c token (\<lambda>cs. enable_2fa env inst c cs secret code current) s"
| "handle_route env inst c (RDisableTotp token current code) s =
     signed_in env inst c token (\<lambda>cs. disable_2fa env inst c cs current code) s"
| "handle_route env inst c (RDisableAuth token) s =
     signed_in env inst c token (\<lambda>cs s1.
       (record_event env inst c ''credential_change'' ''failure'' ''authentication_disable_forbidden'' (ac_jti cs) s1,
        Inl (HttpStatus 409 AuthMandatory))) s"
| "handle_route env inst c (RSessions token active_only) s =
     signed_in env inst c token (\<lambda>cs s1. (s1, Inr (AnsSessions (list_sessions inst c active_only s1)))) s"
| "handle_route env inst c (RRevokeAll token) s =
     signed_in env inst c token (\<lambda>cs s1.
       (case revoke_all_route env inst c cs s1 of (s2, n) \<Rightarrow> (s2, Inr (AnsRevoked n)))) s"
| "handle_route env inst c (RAudit token limit) s =
     signed_in env inst c token (\<lambda>cs s1. (s1, Inr (AnsAudit (list_audit inst limit s1)))) s"

text \<open>
  A misconfigured instance answers every request with 503, unless the request fails
  before the first use of the instance id.
\<close>

fun route_token :: "auth_route \<Rightarrow> string option" where
  "route_token (RSetup _ _) = None"
| "route_token (RLogin _) = None"
| "route_token (RVerifyTotp _ _) = None"
| "route_token (RStatus t) = None"
| "route_token (RSetupTotp t) = Some t"
| "route_token (RLogout t) = Some t"
| "route_token (RChangePassword t _ _) = Some t"
| "route_token (REnableTotp t _ _ _) = Some t"
| "route_token (RDisableTotp t _ _) = Some t"
| "route_token (RDisableAuth t) = Some t"
| "route_token (RSessions t _) = Some t"
| "route_token (RRevokeAll t) = Some t"
| "route_token (RAudit t _) = Some t"

definition early_error :: "auth_env \<Rightarrow> auth_route \<Rightarrow> auth_error \<Rightarrow> auth_error" where
  "early_error env r e =
    (case r of
       RSetup password _ \<Rightarrow> (case validate_new_password password of Inl e' \<Rightarrow> e' | Inr _ \<Rightarrow> e)
     | _ \<Rightarrow>
        (case route_token r of
           None \<Rightarrow> e
         | Some t \<Rightarrow> if token_well_formed env t then e
             else (case signed_claims env [] [] t of Inl e' \<Rightarrow> e' | Inr _ \<Rightarrow> e)))"

definition serve ::
  "auth_env \<Rightarrow> auth_call \<Rightarrow> auth_route \<Rightarrow> auth_state \<Rightarrow> auth_state \<times> (auth_error + auth_answer)" where
  "serve env c r s =
    (case instance_id env of Inl e \<Rightarrow> (s, Inl (early_error env r e)) | Inr inst \<Rightarrow> handle_route env inst c r s)"

end
