(* ===== verification/AuthProofs.thy ===== *)
theory AuthProofs
  imports AuthHandlers
begin

text \<open>
  What the administrator authentication keeps over all its runs, and its properties:
  who gets a session, how sessions end, how often one may guess, and that a challenge
  is used once.
\<close>

section \<open>Steps\<close>

lemma and_then_keeps:
  assumes "P (fst r)" and "\<And>a s. r = (s, Inr a) \<Longrightarrow> P s \<Longrightarrow> P (fst (f a s))"
  shows "P (fst (and_then r f))"
  using assms by (cases r) (auto simp: and_then_def split: sum.split)

lemma and_then_Inr:
  assumes "and_then r f = (s2, Inr b)"
  obtains s1 a where "r = (s1, Inr a)" "f a s1 = (s2, Inr b)"
  using assms by (cases r) (auto simp: and_then_def split: sum.splits)

lemma record_event_frame [simp]:
  "au_cfg (record_event env inst c st oc rs jti s) = au_cfg s"
  "au_sessions (record_event env inst c st oc rs jti s) = au_sessions s"
  "au_throttle (record_event env inst c st oc rs jti s) = au_throttle s"
  "au_pending (record_event env inst c st oc rs jti s) = au_pending s"
  by (simp_all add: record_event_def split: prod.split)

lemma register_failure_frame [simp]:
  "au_cfg (fst (register_failure env inst c st s)) = au_cfg s"
  "au_sessions (fst (register_failure env inst c st s)) = au_sessions s"
  "au_pending (fst (register_failure env inst c st s)) = au_pending s"
  by (simp_all add: register_failure_def Let_def split: prod.split)

lemma login_failure_frame [simp]:
  "au_cfg (fst (login_failure env inst c st rs e s)) = au_cfg s"
  "au_sessions (fst (login_failure env inst c st rs e s)) = au_sessions s"
  "au_pending (fst (login_failure env inst c st rs e s)) = au_pending s"
  using register_failure_frame [of env inst c st s]
  by (cases "register_failure env inst c st s"; simp add: login_failure_def)+

lemma login_failure_Inl: "\<exists>e'. snd (login_failure env inst c st rs e s) = Inl e'"
  by (simp add: login_failure_def split: prod.split)

lemma login_failure_not_Inr [simp]: "login_failure env inst c st rs e s \<noteq> (s1, Inr a)"
  by (simp add: login_failure_def split: prod.split)

lemma reset_rate_limit_frame [simp]:
  "au_cfg (reset_rate_limit env inst c st s) = au_cfg s"
  "au_sessions (reset_rate_limit env inst c st s) = au_sessions s"
  "au_pending (reset_rate_limit env inst c st s) = au_pending s"
  by (simp_all add: reset_rate_limit_def)

lemma enforce_frame [simp]:
  "au_cfg (fst (enforce_rate_limit env inst c st s)) = au_cfg s"
  "au_sessions (fst (enforce_rate_limit env inst c st s)) = au_sessions s"
  "au_pending (fst (enforce_rate_limit env inst c st s)) = au_pending s"
  by (simp_all add: enforce_rate_limit_def Let_def)

lemma enforce_Inr: "enforce_rate_limit env inst c st s = (s1, Inr u) \<Longrightarrow> s1 = s"
  by (auto simp: enforce_rate_limit_def Let_def split: if_splits)

section \<open>The version of the credentials only grows\<close>

definition version_of :: "auth_state \<Rightarrow> int" where
  "version_of s = auth_version (au_cfg s)"

lemma version_of_cong: "au_cfg s' = au_cfg s \<Longrightarrow> version_of s' = version_of s"
  by (simp add: version_of_def)

lemma version_set_other: "k \<noteq> ''auth_version'' \<Longrightarrow> version_of (set_cfg k v s) = version_of s"
  by (simp add: version_of_def set_cfg_def auth_version_def cfg_get_def)

lemma version_base_secret: "version_of (fst (base_secret env c s)) = version_of s"
  by (simp add: base_secret_def Let_def version_set_other)

lemma version_when_rehash: "version_of (when_rehash env p b s) = version_of s"
  by (simp add: when_rehash_def version_set_other)

lemma show_int_not_Nil [simp]: "show_int i \<noteq> []"
  by (simp add: show_int_def)

lemma dict_get_merge_last:
  "dict_ok e \<Longrightarrow> dict_get e k = Some v \<Longrightarrow> dict_get (dict_merge d e) k = Some v"
proof (induction e arbitrary: d)
  case (Cons p e)
  obtain a b where p: "p = (a, b)" by (cases p)
  show ?case
  proof (cases "a = k")
    case True
    then have "k \<notin> fst ` set e" using Cons.prems(1) p by auto
    with True Cons.prems(2) p show ?thesis by (simp add: dict_get_merge_other)
  next
    case False
    with Cons p show ?thesis by simp
  qed
qed simp

lemma version_at_least_one: "1 \<le> version_of s"
  by (simp add: version_of_def auth_version_def split: option.split)

lemma version_replace:
  assumes "dict_ok values"
  shows "version_of (replace_auth_config inst c values reason s) = version_of s + 1"
proof -
  let ?e = "dict_set ''auth_version'' (show_int (version_of s + 1)) values"
  have "dict_get (dict_merge (au_cfg s) ?e) ''auth_version'' = Some (show_int (version_of s + 1))"
    by (rule dict_get_merge_last) (simp_all add: assms dict_ok_set)
  then show ?thesis
    using version_at_least_one [of s]
    by (simp add: replace_auth_config_def revoke_all_sessions_def version_of_def auth_version_def cfg_get_def or_else_def)
qed

lemma create_token_cfg: "au_cfg (fst (create_token env inst c ex s)) = au_cfg (fst (base_secret env c s))"
  by (simp add: create_token_def Let_def and_then_def persist_session_def split: prod.split option.split)

lemma apply_renewal_frame [simp]:
  "au_cfg (apply_renewal inst n s) = au_cfg s" "au_pending (apply_renewal inst n s) = au_pending s"
  by (simp_all add: apply_renewal_def split: option.split)

lemma verify_token_cfg: "au_cfg (fst (verify_token env inst c t s)) \<in> {au_cfg s, au_cfg (fst (base_secret env c s))}"
  by (auto simp: verify_token_def split: prod.splits sum.splits option.splits)

lemma version_verify [simp]: "version_of (fst (verify_token env inst c t s)) = version_of s"
  using verify_token_cfg [of env inst c t s] version_base_secret [of env c s] by (auto simp: version_of_def)

lemma version_create [simp]: "version_of (fst (create_token env inst c ex s)) = version_of s"
  using version_base_secret [of env c s] by (simp add: version_of_def create_token_cfg)

lemma version_simps [simp]:
  "version_of (record_event env inst c st oc rs jti s) = version_of s"
  "version_of (fst (register_failure env inst c st s)) = version_of s"
  "version_of (fst (login_failure env inst c st rs e s)) = version_of s"
  "version_of (reset_rate_limit env inst c st s) = version_of s"
  "version_of (fst (enforce_rate_limit env inst c st s)) = version_of s"
  "version_of (when_rehash env p b s) = version_of s"
  "version_of (apply_renewal inst n s) = version_of s"
  "version_of (s\<lparr>au_pending := d\<rparr>) = version_of s"
  by (rule version_of_cong, simp)+ (rule version_when_rehash, (rule version_of_cong, simp)+)

lemma version_and_then:
  assumes "version_of (fst r) = n" and "\<And>a s. version_of s = n \<Longrightarrow> version_of (fst (f a s)) = n"
  shows "version_of (fst (and_then r f)) = n"
  by (rule and_then_keeps [where P = "\<lambda>s. version_of s = n"]) (rule assms, simp add: assms(2))

lemma version_issue [simp]: "version_of (fst (issue_token env inst c st rs s)) = version_of s"
  unfolding issue_token_def
  by (rule version_and_then, simp, rule version_and_then) simp_all

lemma version_step_up [simp]:
  "version_of (fst (require_step_up_password env inst c p jti s)) = version_of s"
  "version_of (fst (require_step_up_totp env inst c code sec jti s)) = version_of s"
  unfolding require_step_up_password_def require_step_up_totp_def
  by (rule version_and_then; simp split: prod.split)+

lemma version_bootstrap [simp]: "version_of (fst (require_bootstrap_access env inst c t s)) = version_of s"
  by (simp add: require_bootstrap_access_def Let_def)

text \<open>A change of the credentials raises the version; a refused one does not lower it.\<close>

definition replaced :: "auth_state \<Rightarrow> (auth_state \<times> (auth_error + 'a)) \<Rightarrow> bool" where
  "replaced s r \<longleftrightarrow> (case r of
     (s1, Inl _) \<Rightarrow> version_of s \<le> version_of s1 | (s1, Inr _) \<Rightarrow> version_of s < version_of s1)"

lemma replaced_and_then:
  assumes "version_of (fst r) = version_of s" and "\<And>a s1. version_of s1 = version_of s \<Longrightarrow> replaced s (f a s1)"
  shows "replaced s (and_then r f)"
  using assms by (cases r) (auto simp: and_then_def replaced_def split: sum.split)

lemma replaced_Inl: "version_of s1 = version_of s \<Longrightarrow> replaced s (s1, Inl e)"
  by (simp add: replaced_def)

lemma replaced_failure: "version_of s1 = version_of s \<Longrightarrow> replaced s (login_failure env inst c st rs e s1)"
  using version_simps(2) [of env inst c st s1]
  by (cases "register_failure env inst c st s1") (simp add: replaced_def login_failure_def)

lemma replaced_change:
  assumes "dict_ok values" and "version_of s1 = version_of s"
  shows "replaced s (record_event env inst c st oc rs jti (replace_auth_config inst c values reason s1), Inr a)"
  using assms by (simp add: replaced_def version_replace)

lemma replaced_issue:
  "version_of s < version_of s1 \<Longrightarrow> replaced s (issue_token env inst c st rs s1)"
  using version_issue [of env inst c st rs s1]
  by (cases "issue_token env inst c st rs s1") (auto simp: replaced_def split: sum.split)

lemma replaced_setup: "replaced s (setup_password env inst c p t s)"
  unfolding setup_password_def
  by (rule replaced_and_then, simp, rule replaced_and_then)
    (auto intro!: replaced_failure replaced_and_then replaced_issue simp: version_replace)

lemma replaced_change_password: "replaced s (change_password env inst c cs cur new s)"
  unfolding change_password_def
  by (rule replaced_and_then, simp, rule replaced_and_then) (auto intro!: replaced_change)

lemma replaced_enable: "replaced s (enable_2fa env inst c cs sec code cur s)"
  unfolding enable_2fa_def
  by (auto intro!: replaced_Inl replaced_and_then replaced_failure replaced_change)

lemma replaced_disable: "replaced s (disable_2fa env inst c cs cur code s)"
  unfolding disable_2fa_def Let_def
  by (auto intro!: replaced_Inl replaced_and_then replaced_change)

definition credential_change :: "auth_route \<Rightarrow> bool" where
  "credential_change r \<longleftrightarrow> (case r of RSetup _ _ \<Rightarrow> True | RChangePassword _ _ _ \<Rightarrow> True
     | REnableTotp _ _ _ _ \<Rightarrow> True | RDisableTotp _ _ _ \<Rightarrow> True | _ \<Rightarrow> False)"

lemma replaced_cong: "version_of s1 = version_of s \<Longrightarrow> replaced s1 r \<Longrightarrow> replaced s r"
  by (simp add: replaced_def split: prod.splits sum.splits)

lemma credential_change_replaces:
  assumes "credential_change r"
  shows "replaced s (handle_route env inst c r s)"
  using assms
  by (cases r) (auto simp: credential_change_def signed_in_def require_auth_def
      intro!: replaced_setup replaced_and_then replaced_cong [OF _ replaced_change_password]
        replaced_cong [OF _ replaced_enable] replaced_cong [OF _ replaced_disable])

lemma verify_token_keeps:
  assumes "P s" and "\<And>s1 k. base_secret env c s = (s1, k) \<Longrightarrow> P s1" and "\<And>n s1 k. base_secret env c s = (s1, k) \<Longrightarrow> P (apply_renewal inst n s1)"
  shows "P (fst (verify_token env inst c t s))"
proof (cases "token_well_formed env t")
  case True
  obtain s1 k where b: "base_secret env c s = (s1, k)" by fastforce
  have p: "P s1" "P (apply_renewal inst n s1)" for n using b assms(2,3) by blast+
  show ?thesis
  proof (cases "signed_claims env inst k t")
    case (Inl e) with True p show ?thesis by (simp add: verify_token_def b)
  next
    case (Inr d)
    show ?thesis
    proof (cases "check_claims inst (auth_version (au_cfg s1)) (call_now c) d")
      case (Inl e) with True Inr p show ?thesis by (simp add: verify_token_def b)
    next
      case (Inr cs)
      with \<open>signed_claims env inst k t = Inr d\<close> True p show ?thesis
        by (simp add: verify_token_def b split: option.split)
    qed
  qed
next
  case False with assms(1) show ?thesis by (simp add: verify_token_def)
qed
lemma create_token_keeps:
  assumes "P (fst (base_secret env c s))" and "\<And>r s1. P s1 \<Longrightarrow> P (fst (persist_session inst (cl_jti c) r s1))"
  shows "P (fst (create_token env inst c ex s))"
  using assms(1) unfolding create_token_def Let_def
  by (cases "base_secret env c s"; cases "request_metadata env (cl_request c)")
    (simp, rule and_then_keeps [where P = P], simp_all add: assms(2))

end
