(* ===== verification/AuthContract.thy ===== *)
theory AuthContract
  imports AuthProofs Contracts
begin

text \<open>
  The service as a machine, and the contract an invariant of it has to meet: it is
  enough that the primitive writes keep the invariant, then every route, every late
  renewal and every run keeps it.
\<close>

section \<open>The machine\<close>

text \<open>
  An event is a request, or the write of a renewal whose check happened earlier: any
  renewal may be applied at any time, so every interleaving of checks and writes is
  covered.
\<close>

datatype auth_event = EvRequest auth_call auth_route | EvRenewal renewal

fun auth_step :: "auth_env \<Rightarrow> string \<Rightarrow> auth_event \<Rightarrow> auth_state \<Rightarrow> auth_state" where
  "auth_step env inst (EvRequest c r) s = fst (handle_route env inst c r s)"
| "auth_step env inst (EvRenewal n) s = apply_renewal inst n s"

text \<open>The routes that may draw a session id or a challenge.\<close>

definition draws :: "auth_route \<Rightarrow> bool" where
  "draws r \<longleftrightarrow> (case r of RSetup _ _ \<Rightarrow> True | RLogin _ \<Rightarrow> True | RVerifyTotp _ _ \<Rightarrow> True | _ \<Rightarrow> False)"

section \<open>The contract of an invariant\<close>

text \<open>\<open>fresh c\<close> says what the random texts of a call must avoid.\<close>

locale auth_invariant =
  fixes env :: auth_env and inst :: string and P :: "auth_state \<Rightarrow> bool" and fresh :: "auth_call \<Rightarrow> bool"
  assumes audit: "P s \<Longrightarrow> P (s\<lparr>au_audit := a\<rparr>)"
    and throttle: "P s \<Longrightarrow> P (s\<lparr>au_throttle := t\<rparr>)"
    and setting: "P s \<Longrightarrow> k \<noteq> ''auth_version'' \<Longrightarrow> P (set_cfg k v s)"
    and renewal: "P s \<Longrightarrow> P (apply_renewal inst n s)"
    and persist: "P s \<Longrightarrow> fresh c \<Longrightarrow> P (fst (persist_session inst (cl_jti c) r s))"
    and open_challenge: "P s \<Longrightarrow> fresh c \<Longrightarrow> P (s\<lparr>au_pending := dict_set (cl_temp_token c) p (live_pending now (au_pending s))\<rparr>)"
    and judge: "P s \<Longrightarrow> P (s\<lparr>au_pending := fst (judge_challenge env inst c temp code s)\<rparr>)"
    and revoke: "P s \<Longrightarrow> P (revoke_session inst c j rs s)"
    and revoke_all: "P s \<Longrightarrow> P (fst (revoke_all_sessions inst c rs s))"
    and replace_config: "P s \<Longrightarrow> dict_ok values \<Longrightarrow> P (replace_auth_config inst c values rs s)"
begin

lemma event [simp]: "P s \<Longrightarrow> P (record_event env inst c st oc rs j s)"
  by (simp add: record_event_def audit split: prod.split)

lemma failure [simp]: "P s \<Longrightarrow> P (fst (register_failure env inst c st s))"
  by (simp add: register_failure_def Let_def throttle split: prod.split)

lemma reset [simp]: "P s \<Longrightarrow> P (reset_rate_limit env inst c st s)"
  by (simp add: reset_rate_limit_def throttle)

lemma enforce [simp]: "P s \<Longrightarrow> P (fst (enforce_rate_limit env inst c st s))"
  by (simp add: enforce_rate_limit_def Let_def)

lemma rejected [simp]: "P s \<Longrightarrow> P (fst (login_failure env inst c st rs e s))"
  using failure [of s c st] by (cases "register_failure env inst c st s") (simp add: login_failure_def)

lemma rehash [simp]: "P s \<Longrightarrow> P (when_rehash env p b s)"
  by (simp add: when_rehash_def setting)

lemma secret [simp]: "P s \<Longrightarrow> P (fst (base_secret env c s))"
  by (simp add: base_secret_def Let_def setting)

lemma keeps: "P (fst r) \<Longrightarrow> (\<And>a s. P s \<Longrightarrow> P (fst (f a s))) \<Longrightarrow> P (fst (and_then r f))"
  by (rule and_then_keeps [where P = P])

lemma verify [simp]: "P s \<Longrightarrow> P (fst (verify_token env inst c t s))"
  using secret [of s c] by (intro verify_token_keeps [where P = P]) (simp_all add: renewal)

lemma create: "P s \<Longrightarrow> fresh c \<Longrightarrow> P (fst (create_token env inst c ex s))"
  by (rule create_token_keeps [where P = P]) (simp_all add: persist)

lemma issue: "P s \<Longrightarrow> fresh c \<Longrightarrow> P (fst (issue_token env inst c st rs s))"
  unfolding issue_token_def by (rule keeps, rule create, assumption+, rule keeps) simp_all

lemma step_up [simp]:
  "P s \<Longrightarrow> P (fst (require_step_up_password env inst c p j s))"
  "P s \<Longrightarrow> P (fst (require_step_up_totp env inst c code sec j s))"
  unfolding require_step_up_password_def require_step_up_totp_def
  by (rule keeps; simp split: prod.split)+

lemma bootstrap [simp]: "P s \<Longrightarrow> P (fst (require_bootstrap_access env inst c t s))"
  by (simp add: require_bootstrap_access_def Let_def)

lemma setup_keeps: "P s \<Longrightarrow> fresh c \<Longrightarrow> P (fst (setup_password env inst c p t s))"
  unfolding setup_password_def
  by (rule keeps, simp, rule keeps) (auto intro!: keeps issue replace_config)

lemma accepted: "P s \<Longrightarrow> fresh c \<Longrightarrow> P (fst (password_accepted env inst c s))"
  by (simp add: password_accepted_def open_challenge issue)

lemma login_keeps: "P s \<Longrightarrow> fresh c \<Longrightarrow> P (fst (login env inst c p s))"
  unfolding login_def by (rule keeps) (simp_all add: accepted split: prod.split)

lemma totp_keeps: "P s \<Longrightarrow> fresh c \<Longrightarrow> P (fst (verify_totp_route env inst c t code s))"
  unfolding verify_totp_route_def
proof (rule keeps, simp)
  fix a s0
  assume "P s0" and f: "fresh c"
  obtain d v where j: "judge_challenge env inst c t code s0 = (d, v)" by fastforce
  with judge [OF \<open>P s0\<close>, of c t code] have d: "P (s0\<lparr>au_pending := d\<rparr>)" by simp
  show "P (fst (case judge_challenge env inst c t code s0 of
         (pending, verdict) \<Rightarrow>
           (let s1 = s0\<lparr>au_pending := pending\<rparr> in
            case verdict of
              ChallengeInvalid \<Rightarrow>
                login_failure env inst c ''totp'' ''invalid_temp_token'' (HttpStatus 401 TempTokenInvalid) s1
            | ChallengeDisabled \<Rightarrow>
                (record_event env inst c ''totp'' ''failure'' ''totp_not_enabled'' [] s1, Inl (HttpStatus 400 TotpNotEnabled))
            | ChallengeExhausted \<Rightarrow>
                (record_event env inst c ''totp'' ''failure'' ''totp_challenge_attempts_exhausted'' []
                   (fst (register_failure env inst c ''totp'' s1)), Inl (HttpStatus 401 TotpExhausted))
            | ChallengeWrongCode \<Rightarrow>
                login_failure env inst c ''totp'' ''invalid_totp'' (HttpStatus 400 TotpWrong) s1
            | ChallengeAccepted \<Rightarrow>
                issue_token env inst c ''login'' ''password_and_totp''
                  (record_event env inst c ''totp'' ''success'' ''totp_verified'' []
                     (reset_rate_limit env inst c ''totp'' s1)))))"
    using d f by (cases v) (simp_all add: j issue)
qed

lemma change_keeps [simp]:
  "P s \<Longrightarrow> P (fst (change_password env inst c cs cur new s))"
  "P s \<Longrightarrow> P (fst (enable_2fa env inst c cs sec code cur s))"
  "P s \<Longrightarrow> P (fst (disable_2fa env inst c cs cur code s))"
  unfolding change_password_def enable_2fa_def disable_2fa_def Let_def
  by (auto simp: replace_config intro!: keeps)

lemma revoke_all_keeps: "P s \<Longrightarrow> P (fst (revoke_all_route env inst c cs s))"
  using revoke_all [of s c "''admin_revoke_all''"]
  by (cases "revoke_all_sessions inst c ''admin_revoke_all'' s") (simp add: revoke_all_route_def)

lemma signed_in_keeps: "P s \<Longrightarrow> (\<And>cs s. P s \<Longrightarrow> P (fst (f cs s))) \<Longrightarrow> P (fst (signed_in env inst c t f s))"
  unfolding signed_in_def require_auth_def by (rule keeps) simp_all

text \<open>Only three routes draw anything.\<close>

lemma other_route:
  assumes "P s" and "\<not> draws r"
  shows "P (fst (handle_route env inst c r s))"
proof (cases r)
  case (RRevokeAll t)
  show ?thesis unfolding RRevokeAll handle_route.simps
  proof (rule signed_in_keeps [OF assms(1)])
    fix cs s1
    assume "P s1"
    from revoke_all_keeps [OF this, of c cs]
    show "P (fst (case revoke_all_route env inst c cs s1 of (s2, n) \<Rightarrow> (s2, Inr (AnsRevoked n))))"
      by (cases "revoke_all_route env inst c cs s1") simp
  qed
qed (use assms in \<open>auto simp: draws_def logout_def revoke auth_status_route_def Let_def intro!: signed_in_keeps split: option.split\<close>)

lemma route: "P s \<Longrightarrow> fresh c \<Longrightarrow> P (fst (handle_route env inst c r s))"
  by (cases "draws r") (auto simp: other_route setup_keeps login_keeps totp_keeps draws_def split: auth_route.splits)

fun fresh_event :: "auth_event \<Rightarrow> bool" where
  "fresh_event (EvRequest c r) = fresh c"
| "fresh_event (EvRenewal n) = True"

lemma step: "P s \<Longrightarrow> fresh_event e \<Longrightarrow> P (auth_step env inst e s)"
  by (cases e) (simp_all add: route renewal)

lemma run: "P s \<Longrightarrow> list_all fresh_event es \<Longrightarrow> P (fold (auth_step env inst) es s)"
  by (induction es arbitrary: s) (auto intro: step)

end

end
