(* ===== verification/AuthSafety.thy ===== *)
theory AuthSafety
  imports AuthContract
begin

text \<open>The service as a machine, and the properties over its runs.\<close>

declare map_of_eq_Some_iff [simp del] Some_eq_map_of_iff [simp del] map_of_is_SomeI [simp del]

section \<open>The version never falls\<close>

interpretation version_bound: auth_invariant env inst "\<lambda>s. v \<le> version_of s" "\<lambda>_. True"
  for env inst v
proof unfold_locales
  fix s :: auth_state and c :: auth_call and r j rs p now temp code n k t and x :: string and vs :: "(string, string) dict"
  assume v: "v \<le> version_of s"
  show "v \<le> version_of (s\<lparr>au_audit := a\<rparr>)" "v \<le> version_of (s\<lparr>au_throttle := t\<rparr>)" for a t
    using v by (simp_all add: version_of_def)
  show "v \<le> version_of (apply_renewal inst n s)" using v by simp
  show "v \<le> version_of (fst (persist_session inst (cl_jti c) r s))"
    using v by (simp add: version_of_def persist_session_def split: option.split)
  show "v \<le> version_of (s\<lparr>au_pending := dict_set (cl_temp_token c) p (live_pending now (au_pending s))\<rparr>)"
    "v \<le> version_of (s\<lparr>au_pending := fst (judge_challenge env inst c temp code s)\<rparr>)"
    using v by simp_all
  show "v \<le> version_of (revoke_session inst c j rs s)" "v \<le> version_of (fst (revoke_all_sessions inst c rs s))"
    using v by (simp_all add: version_of_def revoke_session_def revoke_all_sessions_def split: option.split)
  show "v \<le> version_of (set_cfg k x s)" if "k \<noteq> ''auth_version''" using v that by (simp add: version_set_other)
  show "v \<le> version_of (replace_auth_config inst c vs rs s)" if "dict_ok vs" using v that by (simp add: version_replace)
qed

lemma version_run: "version_of s \<le> version_of (fold (auth_step env inst) es s)"
proof (rule version_bound.run)
  show "list_all (auth_invariant.fresh_event (\<lambda>_. True)) es"
    by (simp add: list_all_iff) (metis auth_event.exhaust version_bound.fresh_event.simps)
qed simp

text \<open>What a request may draw for its new session and its new challenge.\<close>

fun drawn_jti :: "auth_event \<Rightarrow> string option" where
  "drawn_jti (EvRequest c r) = Some (cl_jti c)"
| "drawn_jti (EvRenewal n) = None"

fun drawn_temp :: "auth_event \<Rightarrow> string option" where
  "drawn_temp (EvRequest c r) = Some (cl_temp_token c)"
| "drawn_temp (EvRenewal n) = None"

section \<open>Claims of accepted tokens\<close>

lemma signed_claims_unique:
  assumes "signed_claims env inst k t = Inr d" and "signed_claims env inst k' t = Inr d'"
  shows "d = d'"
  using assms by (auto simp: signed_claims_def split: list.splits option.splits pyval.splits if_splits)

lemma check_claims_version:
  assumes "check_claims inst v now d = Inr cs"
  shows "ac_version cs = v" and "py_int (claim d ''auth_version'') = Some v" and "ac_jti cs = jti_text (claim d ''jti'')"
  using assms by (auto simp: check_claims_def Let_def split: option.splits if_splits)

lemma verify_token_accepted:
  assumes "verify_token env inst c t s = (s1, Inr cs)"
  obtains k d r where "signed_claims env inst k t = Inr d"
    "check_claims inst (version_of s) (call_now c) d = Inr cs"
    "dict_get (au_sessions s) (ac_jti cs) = Some r" "session_valid inst (call_now c) cs r"
proof -
  have v: "version_of (fst (base_secret env c s)) = version_of s" by (rule version_base_secret)
  have se: "au_sessions (fst (base_secret env c s)) = au_sessions s"
    by (simp add: base_secret_def Let_def set_cfg_def)
  obtain s2 k where b: "base_secret env c s = (s2, k)" by fastforce
  from assms b v se show ?thesis
    unfolding verify_token_def version_of_def
    by (auto split: if_splits sum.splits option.splits intro: that [unfolded version_of_def])
qed

lemma refused_if: "(\<And>cs s1. r = (s1, Inr cs) \<Longrightarrow> False) \<Longrightarrow> \<exists>e. snd r = Inl e"
  by (cases r; cases "snd r") auto

lemma accepted_pair: "snd r = Inr a \<Longrightarrow> r = (fst r, Inr a)"
  by (cases r) simp

text \<open>
  C12. A change of the credentials ends every session: a token that was accepted before
  the password or the second factor was set, changed or removed is refused for ever
  after, whatever happens before and after the change.
\<close>

theorem credential_change_ends_sessions:
  assumes "snd (verify_token env inst c token s) = Inr cs" and "credential_change r"
    and "snd (handle_route env inst c1 r (fold (auth_step env inst) es s)) = Inr answer"
  shows "\<exists>e. snd (verify_token env inst c2 token (fold (auth_step env inst) es'
           (fst (handle_route env inst c1 r (fold (auth_step env inst) es s))))) = Inl e"
proof (rule refused_if)
  let ?s = "fold (auth_step env inst) es s" and ?s1 = "fst (handle_route env inst c1 r (fold (auth_step env inst) es s))"
  let ?s' = "fold (auth_step env inst) es' ?s1"
  fix cs' s2
  assume "verify_token env inst c2 token ?s' = (s2, Inr cs')"
  then obtain k' d' where d': "signed_claims env inst k' token = Inr d'"
    "check_claims inst (version_of ?s') (call_now c2) d' = Inr cs'"
    by (rule verify_token_accepted)
  obtain k d where d: "signed_claims env inst k token = Inr d"
    "check_claims inst (version_of s) (call_now c) d = Inr cs"
    by (rule verify_token_accepted [OF accepted_pair [OF assms(1)]])
  have "version_of s \<le> version_of ?s" by (rule version_run)
  also have "\<dots> < version_of ?s1"
    using credential_change_replaces [OF assms(2), of ?s env inst c1] assms(3)
    by (simp add: replaced_def split: prod.splits sum.splits)
  also have "\<dots> \<le> version_of ?s'" by (rule version_run)
  finally have "version_of s < version_of ?s'" .
  with signed_claims_unique [OF d(1) d'(1)] check_claims_version(2) [OF d(2)] check_claims_version(2) [OF d'(2)]
  show False by simp
qed

text \<open>An instance with a password and one session, for the concrete cases below.\<close>

definition demo_jti :: string where "demo_jti = replicate 48 CHR ''a''"

definition demo_env :: auth_env where
  "demo_env = \<lparr>ae_vars = [(''APP_JWT_SECRET'', ''k''), (''AUTH_SESSION_IDLE_TIMEOUT_SECONDS'', ''1000''),
       (''AUTH_SESSION_ABSOLUTE_TIMEOUT_SECONDS'', ''1000'')],
     ae_ip = \<lparr>ip_parse = Some, ip_trusted = (\<lambda>_. False), ip_loopback = (\<lambda>_. True), ip_local = (\<lambda>_. True)\<rparr>,
     ae_sha256 = (\<lambda>t. t), ae_hmac_sha256 = (\<lambda>k m. take 2 m), ae_hmac_sha1 = (\<lambda>k m. replicate 20 1),
     ae_pw_hash = (\<lambda>p. ''$argon2'' @ p), ae_pw_verify = (\<lambda>h p. h = ''$argon2'' @ p), ae_pw_needs_rehash = (\<lambda>_. False),
     ae_dumps = (\<lambda>d. if d = token_header then ''h'' else ''p''),
     ae_loads = (\<lambda>t. if t = ''h'' then Some (PDict token_header)
        else if t = ''p'' then Some (PDict (token_claims ''i'' demo_jti 1 1000 2000)) else None)\<rparr>"

definition demo_call :: "int \<Rightarrow> auth_call" where
  "demo_call t = \<lparr>cl_request = \<lparr>hr_peer = Some ''10.0.0.1'', hr_headers = []\<rparr>, cl_time = of_int t,
     cl_jti = ''new'', cl_temp_token = ''tmp'', cl_secret = ''s'', cl_totp_bytes = []\<rparr>"

definition demo_state :: auth_state where
  "demo_state = \<lparr>au_cfg = [(''auth_password_hash'', ''$argon2old-password'')],
     au_sessions = [(demo_jti, \<lparr>sr_instance = ''i'', sr_auth_version = 1, sr_issued_at = 1000, sr_last_seen_at = 1400,
        sr_expires_at = 2000, sr_absolute_expires_at = 2000, sr_revoked_at = 0, sr_revoke_reason = [],
        sr_client_ip = ''10.0.0.1'', sr_user_agent = []\<rparr>)],
     au_throttle = [], au_audit = [], au_pending = []\<rparr>"

definition demo_token :: string where
  "demo_token = (let body = encode_json demo_env token_header @ ''.'' @ encode_json demo_env []
     in body @ ''.'' @ sign_token demo_env (signing_key demo_env ''i'' ''k'') body)"

definition demo_claims :: auth_claims where
  "demo_claims = \<lparr>ac_jti = demo_jti, ac_version = 1, ac_issued_at = 1000, ac_expires_at = 2000\<rparr>"

lemma call_now_demo [simp]: "call_now (demo_call t) = t"
  by (simp add: call_now_def demo_call_def)

lemma demo_secret: "base_secret demo_env c s = (s, ''k'')"
  by (simp add: base_secret_def demo_env_def getenv_def py_strip_def lstrip_def rstrip_def py_space_def)

lemma demo_well_formed: "token_well_formed demo_env demo_token"
  by code_simp

lemma demo_signed: "signed_claims demo_env ''i'' ''k'' demo_token = Inr (token_claims ''i'' demo_jti 1 1000 2000)"
  by code_simp

lemma demo_checked: "check_claims ''i'' (auth_version (au_cfg demo_state)) 1500 (token_claims ''i'' demo_jti 1 1000 2000) = Inr demo_claims"
  by code_simp

lemma demo_accepted: "snd (verify_token demo_env ''i'' (demo_call 1500) demo_token demo_state) = Inr demo_claims"
proof -
  have "dict_get (au_sessions demo_state) demo_jti = Some (snd (hd (au_sessions demo_state)))"
    by (simp add: demo_state_def)
  moreover have "session_valid ''i'' 1500 demo_claims (snd (hd (au_sessions demo_state)))"
    by (simp add: demo_state_def demo_claims_def session_valid_def)
  moreover have "ac_jti demo_claims = demo_jti" by (simp add: demo_claims_def)
  ultimately show ?thesis
    by (simp add: verify_token_def demo_secret demo_well_formed demo_signed demo_checked)
qed
lemma demo_throttle: "au_throttle demo_state = []"
  by (simp add: demo_state_def)

lemma demo_verified:
  obtains s1 where "verify_token demo_env ''i'' (demo_call 1500) demo_token demo_state = (s1, Inr demo_claims)"
    "au_cfg s1 = au_cfg demo_state" "au_throttle s1 = []"
proof -
  have "au_throttle (fst (verify_token demo_env ''i'' (demo_call 1500) demo_token demo_state)) = []"
    by (rule verify_token_keeps [where P = "\<lambda>s. au_throttle s = []"])
      (auto simp: demo_secret demo_throttle apply_renewal_def split: option.split)
  moreover have "au_cfg (fst (verify_token demo_env ''i'' (demo_call 1500) demo_token demo_state)) = au_cfg demo_state"
    using verify_token_cfg [of demo_env "''i''" "demo_call 1500" demo_token demo_state] by (simp add: demo_secret)
  ultimately show ?thesis using accepted_pair [OF demo_accepted] that by blast
qed

lemma demo_password: "verify_password demo_env ''old-password'' ''$argon2old-password'' = (True, False)"
  by code_simp

lemma demo_change:
  "snd (handle_route demo_env ''i'' (demo_call 1500)
     (RChangePassword demo_token ''old-password'' ''brand-new-password'') demo_state) = Inr AnsDone"
proof -
  obtain s1 where v: "verify_token demo_env ''i'' (demo_call 1500) demo_token demo_state = (s1, Inr demo_claims)"
    "au_cfg s1 = au_cfg demo_state" "au_throttle s1 = []" by (rule demo_verified)
  then have "password_hash_of s1 = ''$argon2old-password''"
    by (simp add: password_hash_of_def cfg_get_def demo_state_def)
  with v show ?thesis
    by (simp add: signed_in_def require_auth_def and_then_def change_password_def validate_new_password_def
        require_step_up_password_def enforce_rate_limit_def blocked_until_def demo_password)
qed

theorem credential_change_ends_sessions_witness:
  "\<exists>e. snd (verify_token demo_env ''i'' (demo_call 1600) demo_token
     (fst (handle_route demo_env ''i'' (demo_call 1500)
        (RChangePassword demo_token ''old-password'' ''brand-new-password'') demo_state))) = Inl e"
proof -
  have "credential_change (RChangePassword demo_token ''old-password'' ''brand-new-password'')"
    by (simp add: credential_change_def)
  from credential_change_ends_sessions [where es = "[]" and es' = "[]", simplified fold_simps id_apply,
      OF demo_accepted this demo_change]
  show ?thesis .
qed

section \<open>Ended sessions\<close>

definition dead :: "string \<Rightarrow> auth_state \<Rightarrow> bool" where
  "dead jti s \<longleftrightarrow> dict_ok (au_sessions s)
     \<and> (case dict_get (au_sessions s) jti of None \<Rightarrow> True | Some r \<Rightarrow> sr_revoked_at r \<noteq> 0)"

lemma dead_cong: "au_sessions s' = au_sessions s \<Longrightarrow> dead jti s' = dead jti s"
  by (simp add: dead_def)

lemma dead_set: "dead jti s \<Longrightarrow> k \<noteq> jti \<Longrightarrow> dead jti (s\<lparr>au_sessions := dict_set k r (au_sessions s)\<rparr>)"
  by (simp add: dead_def dict_ok_set)

lemma dead_filter:
  assumes "dead jti s"
  shows "dead jti (s\<lparr>au_sessions := filter P (au_sessions s)\<rparr>)"
proof -
  have "dict_get (filter P (au_sessions s)) jti = (case dict_get (au_sessions s) jti of
      None \<Rightarrow> None | Some v \<Rightarrow> if P (jti, v) then Some v else None)"
    using dict_get_filter [of "au_sessions s" "\<lambda>k v. P (k, v)" jti] assms by (simp add: dead_def case_prod_unfold)
  with assms show ?thesis by (cases "dict_get (au_sessions s) jti") (simp_all add: dead_def dict_ok_filter)
qed

lemma dead_persist:
  assumes "dead jti s" and "j \<noteq> jti"
  shows "dead jti (fst (persist_session inst j r s))"
  using dead_filter [OF dead_set [OF assms]] assms(1) by (simp add: persist_session_def split: option.split)

lemma deadD: "dead jti s \<Longrightarrow> dict_get (au_sessions s) jti = Some r \<Longrightarrow> sr_revoked_at r \<noteq> 0"
  by (simp add: dead_def)

lemma dead_apply_renewal:
  assumes "dead jti s"
  shows "dead jti (apply_renewal inst n s)"
proof (cases "dict_get (au_sessions s) (rn_jti n)")
  case (Some r)
  show ?thesis
  proof (cases "renewal_applies inst n r")
    case True
    then have "rn_jti n \<noteq> jti" using deadD [OF assms, of r] Some by (metis renewal_applies_def)
    from dead_set [OF assms this, of "renew_row n r"] show ?thesis
      by (simp add: apply_renewal_def Some True)
  qed (simp add: apply_renewal_def Some assms)
qed (simp add: apply_renewal_def assms)

lemma dict_get_map_snd [simp]: "dict_get (map (\<lambda>(k, r). (k, f r)) d) k = map_option f (dict_get d k)"
  by (induction d) auto

lemma keys_map_snd [simp]: "map (fst \<circ> (\<lambda>(k, r). (k, f r))) d = map fst d"
  by (induction d) auto

lemma dead_revoked_row:
  assumes "dead jti s"
  shows "dead jti (s\<lparr>au_sessions := map (\<lambda>(k, r). (k, revoked_row inst c rs r)) (au_sessions s)\<rparr>)"
proof (cases "dict_get (au_sessions s) jti")
  case (Some r)
  with deadD [OF assms] have "sr_revoked_at (revoked_row inst c rs r) \<noteq> 0" by (simp add: revoked_row_def)
  with Some assms show ?thesis by (simp add: dead_def)
qed (use assms in \<open>simp add: dead_def\<close>)

lemma dead_replace: "dead jti s \<Longrightarrow> dead jti (replace_auth_config inst c values rs s)"
proof -
  let ?s = "s\<lparr>au_cfg := dict_merge (au_cfg s) (dict_set ''auth_version'' (show_int (auth_version (au_cfg s) + 1)) values)\<rparr>"
  assume "dead jti s"
  then have "dead jti ?s" by (simp add: dead_def)
  from dead_revoked_row [OF this] show ?thesis
    by (simp add: replace_auth_config_def revoke_all_sessions_def)
qed

lemma dead_revoke: "dead jti s \<Longrightarrow> dead jti (revoke_session inst c j rs s)"
  by (cases "j = jti") (auto simp: revoke_session_def dead_def dict_ok_set split: option.splits)

lemma dead_sessions: "au_sessions s' = au_sessions s \<Longrightarrow> dead jti s \<Longrightarrow> dead jti s'"
  by (simp add: dead_def)

interpretation ended: auth_invariant env inst "dead jti" "\<lambda>c. cl_jti c \<noteq> jti" for env inst jti
proof unfold_locales
  fix s :: auth_state and c :: auth_call and r j rs p now temp code n k and x :: string and vs :: "(string, string) dict"
  assume d: "dead jti s"
  show "dead jti (s\<lparr>au_audit := a\<rparr>)" "dead jti (s\<lparr>au_throttle := t\<rparr>)" for a t
    by (rule dead_sessions [OF _ d], simp)+
  show "dead jti (set_cfg k x s)" by (rule dead_sessions [OF _ d]) (simp add: set_cfg_def)
  show "dead jti (apply_renewal inst n s)" by (rule dead_apply_renewal [OF d])
  show "dead jti (fst (persist_session inst (cl_jti c) r s))" if "cl_jti c \<noteq> jti" by (rule dead_persist [OF d that])
  show "dead jti (s\<lparr>au_pending := dict_set (cl_temp_token c) p (live_pending now (au_pending s))\<rparr>)"
    "dead jti (s\<lparr>au_pending := fst (judge_challenge env inst c temp code s)\<rparr>)"
    by (rule dead_sessions [OF _ d], simp)+
  show "dead jti (revoke_session inst c j rs s)" by (rule dead_revoke [OF d])
  show "dead jti (fst (revoke_all_sessions inst c rs s))" by (simp add: revoke_all_sessions_def dead_revoked_row [OF d])
  show "dead jti (replace_auth_config inst c vs rs s)" by (rule dead_replace [OF d])
qed

lemma dead_run:
  assumes "dead jti s" and "\<forall>e\<in>set es. drawn_jti e \<noteq> Some jti"
  shows "dead jti (fold (auth_step env inst) es s)"
proof (rule ended.run [OF assms(1)])
  show "list_all (auth_invariant.fresh_event (\<lambda>c. cl_jti c \<noteq> jti)) es"
    unfolding list_all_iff
  proof
    fix e
    assume "e \<in> set es"
    with assms(2) show "ended.fresh_event jti e" by (cases e) auto
  qed
qed

lemma dead_refuses:
  assumes "dead jti s" and "verify_token env inst c t s = (s1, Inr cs)"
  shows "ac_jti cs \<noteq> jti"
proof
  assume "ac_jti cs = jti"
  moreover obtain r where "dict_get (au_sessions s) (ac_jti cs) = Some r" "session_valid inst (call_now c) cs r"
    by (rule verify_token_accepted [OF assms(2)])
  ultimately show False using assms(1) by (simp add: dead_def session_valid_def)
qed

text \<open>A row of this instance, or no row.\<close>

definition own_row :: "string \<Rightarrow> string \<Rightarrow> auth_state \<Rightarrow> bool" where
  "own_row inst jti s \<longleftrightarrow> dict_ok (au_sessions s)
     \<and> (case dict_get (au_sessions s) jti of None \<Rightarrow> True | Some r \<Rightarrow> sr_instance r = inst)"

lemma own_row_base_secret: "own_row inst jti (fst (base_secret env c s)) = own_row inst jti s"
  by (simp add: own_row_def base_secret_def set_cfg_def Let_def)

lemma own_row_apply_renewal: "own_row inst jti s \<Longrightarrow> own_row inst jti (apply_renewal inst n s)"
  by (cases "dict_get (au_sessions s) (rn_jti n)")
    (simp_all add: apply_renewal_def own_row_def renewal_applies_def renew_row_def Let_def split: option.splits)

lemma own_row_verify:
  assumes "own_row inst jti s"
  shows "own_row inst jti (fst (verify_token env inst c t s))"
proof (rule verify_token_keeps [where P = "own_row inst jti", OF assms])
  fix n s1 k
  assume "base_secret env c s = (s1, k)"
  with own_row_base_secret [of inst jti env c s] assms show d: "own_row inst jti s1" by simp
  then show "own_row inst jti (apply_renewal inst n s1)" by (rule own_row_apply_renewal)
qed

lemma own_row_accepted:
  assumes "dict_ok (au_sessions s)" and "snd (verify_token env inst c t s) = Inr cs"
  shows "own_row inst (ac_jti cs) s"
proof -
  obtain r where "dict_get (au_sessions s) (ac_jti cs) = Some r" "session_valid inst (call_now c) cs r"
    by (rule verify_token_accepted [OF accepted_pair [OF assms(2)]])
  then show ?thesis by (simp add: own_row_def assms(1) session_valid_def)
qed

lemma dead_after_revoke: "own_row inst jti s \<Longrightarrow> call_now c \<noteq> 0 \<Longrightarrow> dead jti (revoke_session inst c jti rs s)"
  by (simp add: revoke_session_def own_row_def dead_def split: option.splits)

lemma dead_after_revoke_all:
  "own_row inst jti s \<Longrightarrow> call_now c \<noteq> 0 \<Longrightarrow> dead jti (fst (revoke_all_sessions inst c rs s))"
  by (simp add: revoke_all_sessions_def own_row_def dead_def revoked_row_def split: option.splits)

text \<open>A request that is meant to end the session of a token.\<close>

definition ends_session :: "string \<Rightarrow> auth_route \<Rightarrow> bool" where
  "ends_session token r \<longleftrightarrow> (case r of RLogout t \<Rightarrow> t = token | RRevokeAll _ \<Rightarrow> True | _ \<Rightarrow> False)"

lemma dead_after_end:
  assumes "own_row inst (ac_jti cs) s" and "call_now c \<noteq> 0" and "ends_session token r"
    and "snd (verify_token env inst c token s) = Inr cs" and "snd (handle_route env inst c r s) = Inr answer"
  shows "dead (ac_jti cs) (fst (handle_route env inst c r s))"
proof -
  have own: "own_row inst (ac_jti cs) (fst (verify_token env inst c t s))" for t
    using assms(1) by (rule own_row_verify)
  consider (logout) "r = RLogout token" | (all) t where "r = RRevokeAll t"
    using assms(3) by (cases r) (auto simp: ends_session_def)
  then show ?thesis
  proof cases
    case logout
    from dead_after_revoke [OF own [of token] assms(2)] accepted_pair [OF assms(4)] show ?thesis
      by (cases "verify_token env inst c token s") (simp add: logout signed_in_def require_auth_def and_then_def logout_def)
  next
    case all
    with assms(5) obtain s1 cs1 where v: "verify_token env inst c t s = (s1, Inr cs1)"
      by (cases "verify_token env inst c t s"; cases "snd (verify_token env inst c t s)")
        (auto simp: signed_in_def require_auth_def and_then_def)
    from dead_after_revoke_all [OF own [of t] assms(2), of "''admin_revoke_all''"] show ?thesis
      by (cases "revoke_all_sessions inst c ''admin_revoke_all'' s1")
        (simp add: all v signed_in_def require_auth_def and_then_def revoke_all_route_def)
  qed
qed

text \<open>
  C27. A session that was ended stays ended: after the logout of a token, or after all
  sessions were revoked, that token is refused for ever, late renewals included, unless
  the same session id is drawn again for a new session.
\<close>

theorem ended_session_stays_dead:
  assumes "dict_ok (au_sessions s)" and "call_now c \<noteq> 0" and "ends_session token r"
    and "snd (verify_token env inst c token s) = Inr cs" and "snd (handle_route env inst c r s) = Inr answer"
    and "\<forall>e\<in>set es. drawn_jti e \<noteq> Some (ac_jti cs)"
  shows "\<exists>e. snd (verify_token env inst c2 token (fold (auth_step env inst) es (fst (handle_route env inst c r s)))) = Inl e"
proof (rule refused_if)
  fix cs' s2
  assume v: "verify_token env inst c2 token (fold (auth_step env inst) es (fst (handle_route env inst c r s))) = (s2, Inr cs')"
  have "dead (ac_jti cs) (fold (auth_step env inst) es (fst (handle_route env inst c r s)))"
    by (rule dead_run [OF dead_after_end [OF own_row_accepted [OF assms(1,4)] assms(2-5)] assms(6)])
  from dead_refuses [OF this v] have "ac_jti cs' \<noteq> ac_jti cs" .
  moreover obtain k d where "signed_claims env inst k token = Inr d" "check_claims inst (version_of s) (call_now c) d = Inr cs"
    by (rule verify_token_accepted [OF accepted_pair [OF assms(4)]])
  moreover obtain k' d' v' t' where "signed_claims env inst k' token = Inr d'" "check_claims inst v' t' d' = Inr cs'"
    by (rule verify_token_accepted [OF v])
  ultimately show False by (metis signed_claims_unique check_claims_version(3))
qed

theorem ended_session_stays_dead_witness:
  "\<exists>e. snd (verify_token demo_env ''i'' (demo_call 1600) demo_token
     (fst (handle_route demo_env ''i'' (demo_call 1500) (RLogout demo_token) demo_state))) = Inl e"
proof -
  have "snd (handle_route demo_env ''i'' (demo_call 1500) (RLogout demo_token) demo_state) = Inr AnsDone"
    by (subst handle_route.simps, subst signed_in_def, subst require_auth_def, subst accepted_pair [OF demo_accepted])
      (simp add: and_then_def)
  with ended_session_stays_dead [where es = "[]" and s = demo_state and c = "demo_call 1500" and r = "RLogout demo_token",
      OF _ _ _ demo_accepted, of AnsDone "demo_call 1600"]
  show ?thesis by (simp add: ends_session_def demo_state_def)
qed

end
