(* ===== verification/AuthLimits.thy ===== *)
theory AuthLimits
  imports AuthSafety
begin

text \<open>
  The properties of the login itself: what it takes to get a session, that a challenge
  between password and code is used once, and how often one may guess.
\<close>

section \<open>A challenge is used once\<close>

definition used_up :: "string \<Rightarrow> auth_state \<Rightarrow> bool" where
  "used_up temp s \<longleftrightarrow> dict_get (au_pending s) temp = None"

lemma used_up_cong: "au_pending s' = au_pending s \<Longrightarrow> used_up temp s \<Longrightarrow> used_up temp s'"
  by (simp add: used_up_def)

lemma dict_get_live_pending: "dict_get d k = None \<Longrightarrow> dict_get (live_pending now d) k = None"
  by (auto simp: live_pending_def map_of_eq_None_iff)

lemma judged_challenge:
  "dict_get (au_pending s) t = None \<Longrightarrow> dict_get (fst (judge_challenge env inst c temp code s)) t = None"
  using dict_get_live_pending [of "au_pending s" t "cl_time c"]
  by (cases "t = temp") (auto simp: judge_challenge_def Let_def split: option.split)

interpretation spent: auth_invariant env inst "used_up temp" "\<lambda>c. cl_temp_token c \<noteq> temp" for env inst temp
proof unfold_locales
  fix s :: auth_state and c :: auth_call and r j rs p now temp' code n k and x :: string and vs :: "(string, string) dict"
  assume u: "used_up temp s"
  show "used_up temp (s\<lparr>au_audit := a\<rparr>)" "used_up temp (s\<lparr>au_throttle := t\<rparr>)" for a t
    by (rule used_up_cong [OF _ u], simp)+
  show "used_up temp (set_cfg k x s)" by (rule used_up_cong [OF _ u]) (simp add: set_cfg_def)
  show "used_up temp (apply_renewal inst n s)" by (rule used_up_cong [OF _ u]) simp
  show "used_up temp (fst (persist_session inst (cl_jti c) r s))"
    by (rule used_up_cong [OF _ u]) (simp add: persist_session_def split: option.split)
  show "used_up temp (s\<lparr>au_pending := dict_set (cl_temp_token c) p (live_pending now (au_pending s))\<rparr>)"
    if "cl_temp_token c \<noteq> temp"
    using u that dict_get_live_pending by (simp add: used_up_def)
  show "used_up temp (s\<lparr>au_pending := fst (judge_challenge env inst c temp' code s)\<rparr>)"
    using u judged_challenge by (simp add: used_up_def)
  show "used_up temp (revoke_session inst c j rs s)" "used_up temp (fst (revoke_all_sessions inst c rs s))"
    "used_up temp (replace_auth_config inst c vs rs s)"
    by (rule used_up_cong [OF _ u], simp add: revoke_session_def revoke_all_sessions_def replace_auth_config_def split: option.split)+
qed

lemma used_up_run:
  assumes "used_up temp s" and "\<forall>e\<in>set es. drawn_temp e \<noteq> Some temp"
  shows "used_up temp (fold (auth_step env inst) es s)"
proof (rule spent.run [OF assms(1)])
  show "list_all (spent.fresh_event temp) es"
    unfolding list_all_iff
  proof
    fix e
    assume "e \<in> set es"
    with assms(2) show "spent.fresh_event temp e" by (cases e) auto
  qed
qed

lemma used_up_refuses:
  assumes "used_up temp s"
  shows "\<exists>e. snd (verify_totp_route env inst c temp code s) = Inl e"
proof (rule refused_if)
  fix a s1
  assume "verify_totp_route env inst c temp code s = (s1, Inr a)"
  moreover have "judge_challenge env inst c temp code s = (fst (judge_challenge env inst c temp code s), ChallengeInvalid)"
    using assms dict_get_live_pending [of "au_pending s" temp] by (simp add: judge_challenge_def used_up_def)
  ultimately show False
    unfolding verify_totp_route_def
    by (elim and_then_Inr) (auto simp: Let_def dest!: enforce_Inr split: prod.splits)
qed

lemma pending_base_secret: "au_pending (fst (base_secret env c s)) = au_pending s"
  by (simp add: base_secret_def set_cfg_def Let_def)

lemma issue_keeps_pending: "au_pending (fst (issue_token env inst c st rs x)) = au_pending x"
  unfolding issue_token_def
proof (rule and_then_keeps [where P = "\<lambda>s. au_pending s = au_pending x"])
  show "au_pending (fst (create_token env inst c None x)) = au_pending x"
    by (rule create_token_keeps [where P = "\<lambda>s. au_pending s = au_pending x"])
      (simp_all add: pending_base_secret persist_session_def split: option.split)
  fix token and s1 :: auth_state
  assume p: "au_pending s1 = au_pending x"
  have "au_pending (fst (verify_token env inst c token s1)) = au_pending x"
    using pending_base_secret [of env c s1] p
    by (intro verify_token_keeps [where P = "\<lambda>s. au_pending s = au_pending x"]) simp_all
  then show "au_pending (fst (and_then (verify_token env inst c token s1)
      (\<lambda>cs s2. (record_event env inst c st ''success'' rs (ac_jti cs) s2, Inr (AnsToken token))))) = au_pending x"
    by (rule and_then_keeps [where P = "\<lambda>s. au_pending s = au_pending x"]) simp
qed

text \<open>The accepted code consumes its challenge.\<close>

lemma accepted_code:
  assumes "verify_totp_route env inst c temp code s = (s1, Inr answer)"
  obtains "judge_challenge env inst c temp code s = (dict_pop temp (live_pending (cl_time c) (au_pending s)), ChallengeAccepted)"
    "(s1, Inr answer) = issue_token env inst c ''login'' ''password_and_totp''
        (record_event env inst c ''totp'' ''success'' ''totp_verified'' []
           (reset_rate_limit env inst c ''totp'' (s\<lparr>au_pending := dict_pop temp (live_pending (cl_time c) (au_pending s))\<rparr>)))"
proof -
  obtain s0 u where e: "enforce_rate_limit env inst c ''totp'' s = (s0, Inr u)" and
    r: "(case judge_challenge env inst c temp code s0 of
         (pending, verdict) \<Rightarrow>
           (let s1 = s0\<lparr>au_pending := pending\<rparr> in
            case verdict of
              ChallengeInvalid \<Rightarrow>
                login_failure env inst c ''totp'' ''invalid_temp_token'' (HttpStatus 401 TempTokenInvalid) s1
            | ChallengeDisabled \<Rightarrow>
                (record_event env inst c ''totp'' ''failure'' ''totp_not_enabled'' [] s1, Inl (HttpStatus 400 TotpNotEnabled))
            | ChallengeExhausted \<Rightarrow>
                (record_event env inst c ''totp'' ''failure'' ''totp_challenge_attempts_exhausted'' []
                   (fst (register_failure env inst c ''totp'' s1)), Inl (HttpStatus 401 TotpExhausted))
            | ChallengeWrongCode \<Rightarrow>
                login_failure env inst c ''totp'' ''invalid_totp'' (HttpStatus 400 TotpWrong) s1
            | ChallengeAccepted \<Rightarrow>
                issue_token env inst c ''login'' ''password_and_totp''
                  (record_event env inst c ''totp'' ''success'' ''totp_verified'' []
                     (reset_rate_limit env inst c ''totp'' s1)))) = (s1, Inr answer)"
    using assms unfolding verify_totp_route_def by (rule and_then_Inr)
  obtain d v where j: "judge_challenge env inst c temp code s = (d, v)" by fastforce
  from r have i: "v = ChallengeAccepted" "(s1, Inr answer) = issue_token env inst c ''login'' ''password_and_totp''
        (record_event env inst c ''totp'' ''success'' ''totp_verified'' []
           (reset_rate_limit env inst c ''totp'' (s\<lparr>au_pending := d\<rparr>)))"
    unfolding enforce_Inr [OF e] j by (cases v; simp)+
  moreover from j i(1) have "d = dict_pop temp (live_pending (cl_time c) (au_pending s))"
    by (auto simp: judge_challenge_def Let_def split: option.splits if_splits)
  ultimately show ?thesis using that j by simp
qed

text \<open>
  A challenge is used once: after a code was accepted for it, every further attempt
  with the same challenge is refused, whatever happens in between, unless a later
  login draws the same text again.
\<close>

lemma challenge_single_use:
  assumes "snd (handle_route env inst c (RVerifyTotp temp code) s) = Inr answer"
    and "\<forall>e\<in>set es. drawn_temp e \<noteq> Some temp"
  shows "\<exists>e. snd (handle_route env inst c2 (RVerifyTotp temp code2)
           (fold (auth_step env inst) es (fst (handle_route env inst c (RVerifyTotp temp code) s)))) = Inl e"
proof -
  let ?s1 = "fst (handle_route env inst c (RVerifyTotp temp code) s)"
  have "verify_totp_route env inst c temp code s = (?s1, Inr answer)"
    using accepted_pair [OF assms(1)] by simp
  then have i: "(?s1, Inr answer) = issue_token env inst c ''login'' ''password_and_totp''
        (record_event env inst c ''totp'' ''success'' ''totp_verified'' []
           (reset_rate_limit env inst c ''totp'' (s\<lparr>au_pending := dict_pop temp (live_pending (cl_time c) (au_pending s))\<rparr>)))"
    by (rule accepted_code)
  from arg_cong [where f = "\<lambda>r. au_pending (fst r)", OF i]
  have "au_pending ?s1 = dict_pop temp (live_pending (cl_time c) (au_pending s))"
    unfolding issue_keeps_pending by simp
  then have "used_up temp ?s1" by (simp add: used_up_def)
  from used_up_refuses [OF used_up_run [OF this assms(2)]] show ?thesis by simp
qed

text \<open>The same instance with a second factor and an open challenge.\<close>

definition demo_totp_state :: auth_state where
  "demo_totp_state = \<lparr>au_cfg = [(''auth_password_hash'', ''$argon2old-password''), (''auth_totp_secret'', ''JBSWY3DPEHPK3PXP'')],
     au_sessions = [], au_throttle = [], au_audit = [],
     au_pending = [(''tmp'', \<lparr>pt_instance = ''i'', pt_auth_version = 1, pt_expires_at = 1200, pt_failure_count = 0\<rparr>)]\<rparr>"

definition demo_code :: string where
  "demo_code = totp_at (\<lambda>k m. replicate 20 1) ''JBSWY3DPEHPK3PXP'' (1000 div 30)"

definition demo_code_call :: auth_call where
  "demo_code_call = (demo_call 1000)\<lparr>cl_jti := demo_jti\<rparr>"

lemma demo_code_call_simps [simp]:
  "call_now demo_code_call = 1000" "cl_jti demo_code_call = demo_jti" "cl_time demo_code_call = 1000"
  by (simp_all add: demo_code_call_def call_now_def demo_call_def)

lemma demo_code_right: "verify_totp (ae_hmac_sha1 demo_env) ''JBSWY3DPEHPK3PXP'' demo_code 1000"
proof -
  have "decode_totp_secret ''JBSWY3DPEHPK3PXP'' \<noteq> []"
    by (simp add: decode_totp_secret_def py_strip_def lstrip_def rstrip_def py_space_def py_upper_def upper_char_def
        b32_value_def is_upper_alpha_def to_bytes5_def quintets_def)
  from shown_code_accepted [OF this, of 1000 1000] show ?thesis by (simp add: demo_code_def demo_env_def)
qed

lemma demo_timeouts: "session_idle_timeout demo_env cfg = 1000" "session_absolute_timeout demo_env cfg = 1000"
proof -
  have p: "parse_int ''1000'' = Some 1000" "py_strip ''1000'' = ''1000''" by code_simp+
  show i: "session_idle_timeout demo_env cfg = 1000"
    by (simp add: session_idle_timeout_def bounded_integer_def getenv_def demo_env_def p)
  show "session_absolute_timeout demo_env cfg = 1000"
    by (simp add: session_absolute_timeout_def integer_setting_def i bounded_integer_def max_session_seconds_def Let_def)
      (simp add: getenv_def demo_env_def p)
qed

lemma demo_encoded: "encode_json demo_env d = (if d = token_header then encode_json demo_env token_header else encode_json demo_env [])"
  by (simp add: encode_json_def demo_env_def token_header_def)

lemma demo_created:
  assumes "au_sessions s = []" and "auth_version (au_cfg s) = 1"
  obtains row where "create_token demo_env ''i'' demo_code_call None s = (s\<lparr>au_sessions := [(demo_jti, row)]\<rparr>, Inr demo_token)"
    "session_valid ''i'' 1000 demo_claims row"
proof -
  obtain ip ua where m: "request_metadata demo_env (cl_request demo_code_call) = (ip, ua)" by fastforce
  have e: "encode_json demo_env (token_claims ''i'' demo_jti 1 1000 2000) = encode_json demo_env []"
    by (subst demo_encoded) (simp add: token_claims_def token_header_def)
  show ?thesis
    by (rule that [of "\<lparr>sr_instance = ''i'', sr_auth_version = 1, sr_issued_at = 1000, sr_last_seen_at = 1000,
        sr_expires_at = 2000, sr_absolute_expires_at = 2000, sr_revoked_at = 0, sr_revoke_reason = [],
        sr_client_ip = ip, sr_user_agent = ua\<rparr>"]) (simp_all add: create_token_def demo_secret m demo_timeouts and_then_def persist_session_def assms Let_def
        e demo_token_def session_valid_def demo_claims_def)
qed

lemma demo_code_accepted:
  "\<exists>answer. snd (handle_route demo_env ''i'' demo_code_call (RVerifyTotp ''tmp'' demo_code) demo_totp_state) = Inr answer"
proof -
  let ?s = "record_event demo_env ''i'' demo_code_call ''totp'' ''success'' ''totp_verified'' []
     (reset_rate_limit demo_env ''i'' demo_code_call ''totp'' (demo_totp_state\<lparr>au_pending := []\<rparr>))"
  have v: "auth_version (au_cfg demo_totp_state) = 1" by code_simp
  have t: "totp_secret_of demo_totp_state = ''JBSWY3DPEHPK3PXP''"
    by (simp add: totp_secret_of_def cfg_get_def demo_totp_state_def)
  have "judge_challenge demo_env ''i'' demo_code_call ''tmp'' demo_code demo_totp_state = ([], ChallengeAccepted)"
    using demo_code_right v t by (simp add: judge_challenge_def live_pending_def Let_def) (simp add: demo_totp_state_def)
  then have "verify_totp_route demo_env ''i'' demo_code_call ''tmp'' demo_code demo_totp_state
      = issue_token demo_env ''i'' demo_code_call ''login'' ''password_and_totp'' ?s"
    by (simp add: verify_totp_route_def enforce_rate_limit_def blocked_until_def and_then_def Let_def)
      (simp add: demo_totp_state_def)
  moreover obtain row where c: "create_token demo_env ''i'' demo_code_call None ?s = (?s\<lparr>au_sessions := [(demo_jti, row)]\<rparr>, Inr demo_token)"
    "session_valid ''i'' 1000 demo_claims row"
    using v by (rule_tac s = ?s in demo_created) (simp_all add: demo_totp_state_def)
  moreover have "check_claims ''i'' 1 1000 (token_claims ''i'' demo_jti 1 1000 2000) = Inr demo_claims" by code_simp
  moreover have "ac_jti demo_claims = demo_jti" by (simp add: demo_claims_def)
  ultimately show ?thesis
    using v by (simp add: issue_token_def and_then_def verify_token_def demo_secret demo_well_formed demo_signed)
qed

section \<open>What it takes to get a session\<close>

text \<open>The first-run check lets a request pass.\<close>

definition bootstrap_allowed :: "auth_env \<Rightarrow> auth_call \<Rightarrow> string \<Rightarrow> bool" where
  "bootstrap_allowed env c supplied \<longleftrightarrow>
    (case getenv env ''APP_AUTH_BOOTSTRAP_TOKEN'' of
       None \<Rightarrow> local_bootstrap env (cl_request c)
     | Some t \<Rightarrow> if t = [] then local_bootstrap env (cl_request c) else supplied = t)"

definition right_password :: "auth_env \<Rightarrow> string \<Rightarrow> auth_state \<Rightarrow> bool" where
  "right_password env p s \<longleftrightarrow> password_hash_of s \<noteq> [] \<and> fst (verify_password env p (password_hash_of s))"

definition live_challenge :: "string \<Rightarrow> auth_call \<Rightarrow> string \<Rightarrow> auth_state \<Rightarrow> bool" where
  "live_challenge inst c temp s \<longleftrightarrow> (\<exists>p. dict_get (au_pending s) temp = Some p
     \<and> cl_time c < pt_expires_at p \<and> pt_instance p = inst \<and> pt_auth_version p = version_of s)"

definition may_open_session :: "auth_env \<Rightarrow> string \<Rightarrow> auth_call \<Rightarrow> auth_route \<Rightarrow> auth_state \<Rightarrow> bool" where
  "may_open_session env inst c r s \<longleftrightarrow>
    (case r of
       RSetup p token \<Rightarrow> password_hash_of s = [] \<and> bootstrap_allowed env c token
     | RLogin p \<Rightarrow> right_password env p s \<and> totp_secret_of s = []
     | RVerifyTotp temp code \<Rightarrow> live_challenge inst c temp s \<and> totp_secret_of s \<noteq> []
         \<and> verify_totp (ae_hmac_sha1 env) (totp_secret_of s) code (call_now c)
     | _ \<Rightarrow> False)"

definition absent :: "string \<Rightarrow> auth_state \<Rightarrow> bool" where
  "absent j s \<longleftrightarrow> dict_get (au_sessions s) j = None"

lemma absent_cong: "au_sessions s' = au_sessions s \<Longrightarrow> absent j s \<Longrightarrow> absent j s'"
  by (simp add: absent_def)

lemma absent_filter: "absent j s \<Longrightarrow> absent j (s\<lparr>au_sessions := filter Q (au_sessions s)\<rparr>)"
  by (auto simp: absent_def map_of_eq_None_iff)

interpretation unopened: auth_invariant env inst "absent j" "\<lambda>_. False" for env inst j
proof unfold_locales
  fix s :: auth_state and c :: auth_call and r i rs p now temp code n k and x :: string and vs :: "(string, string) dict"
  assume u: "absent j s"
  show "absent j (s\<lparr>au_audit := a\<rparr>)" "absent j (s\<lparr>au_throttle := t\<rparr>)" for a t
    by (rule absent_cong [OF _ u], simp)+
  show "absent j (set_cfg k x s)" by (rule absent_cong [OF _ u]) (simp add: set_cfg_def)
  show "absent j (apply_renewal inst n s)" "absent j (revoke_session inst c i rs s)"
    using u by (auto simp: absent_def apply_renewal_def revoke_session_def split: option.split)
  show "absent j (s\<lparr>au_pending := fst (judge_challenge env inst c temp code s)\<rparr>)"
    by (rule absent_cong [OF _ u]) simp
  show "absent j (fst (revoke_all_sessions inst c rs s))" "absent j (replace_auth_config inst c vs rs s)"
    using u by (simp_all add: absent_def revoke_all_sessions_def replace_auth_config_def)
qed simp_all

lemma totp_secret_cong: "au_cfg s' = au_cfg s \<Longrightarrow> totp_secret_of s' = totp_secret_of s"
  by (simp add: totp_secret_of_def)

lemma totp_secret_after_password:
  "totp_secret_of (record_event env inst c st oc rs j (reset_rate_limit env inst c st' (when_rehash env p b s))) = totp_secret_of s"
  by (simp add: totp_secret_of_def when_rehash_def set_cfg_def cfg_get_def)

lemma login_opens:
  assumes "absent j s" and "\<not> may_open_session env inst c (RLogin p) s"
  shows "absent j (fst (login env inst c p s))"
  unfolding login_def
proof (rule and_then_keeps [where P = "absent j"])
  fix a s1
  assume "enforce_rate_limit env inst c ''password'' s = (s1, Inr a)"
  then have s1: "s1 = s" by (rule enforce_Inr)
  obtain valid rehash where v: "verify_password env p (password_hash_of s) = (valid, rehash)" by fastforce
  show "absent j (fst (if password_hash_of s1 = []
      then login_failure env inst c ''password'' ''authentication_not_initialized'' (HttpStatus 403 NoPasswordSet) s1
      else (case verify_password env p (password_hash_of s1) of
              (valid, rehash) \<Rightarrow>
                if \<not> valid
                then login_failure env inst c ''password'' ''invalid_password'' (HttpStatus 401 WrongPassword) s1
                else
                  password_accepted env inst c
                    (record_event env inst c ''password'' ''success''
                       (if rehash then ''password_verified_hash_migrated'' else ''password_verified'') []
                       (reset_rate_limit env inst c ''password'' (when_rehash env p rehash s1))))))"
  proof (cases "password_hash_of s = [] \<or> \<not> valid")
    case True
    with assms(1) v show ?thesis by (auto simp: s1 unopened.rejected)
  next
    case False
    with assms(2) v have t: "totp_secret_of s \<noteq> []" by (simp add: may_open_session_def right_password_def)
    have "absent j (x\<lparr>au_pending := d\<rparr>)" if "absent j x" for x d
      by (rule absent_cong [OF _ that]) simp
    with False t assms(1) show ?thesis
      unfolding s1 v password_accepted_def totp_secret_after_password by (simp add: unopened.event unopened.reset unopened.rehash)
  qed
qed (rule unopened.enforce [OF assms(1)])

lemma dict_get_live:
  assumes "dict_ok d"
  shows "dict_get (live_pending now d) k =
    (case dict_get d k of None \<Rightarrow> None | Some p \<Rightarrow> if pt_expires_at p \<le> now then None else Some p)"
  using dict_get_filter [OF assms, of "\<lambda>_ p. \<not> pt_expires_at p \<le> now" k]
  by (simp add: live_pending_def split: option.split)

lemma totp_opens:
  assumes "absent j s" and "\<not> may_open_session env inst c (RVerifyTotp temp code) s" and "dict_ok (au_pending s)"
  shows "absent j (fst (verify_totp_route env inst c temp code s))"
  unfolding verify_totp_route_def
proof (rule and_then_keeps [where P = "absent j"])
  fix a s0
  assume "enforce_rate_limit env inst c ''totp'' s = (s0, Inr a)"
  then have s0: "s0 = s" by (rule enforce_Inr)
  obtain d v where j: "judge_challenge env inst c temp code s = (d, v)" by fastforce
  have d: "absent j (s\<lparr>au_pending := d\<rparr>)" by (rule absent_cong [OF _ assms(1)]) simp
  have "v \<noteq> ChallengeAccepted"
  proof
    assume "v = ChallengeAccepted"
    with j have "live_challenge inst c temp s \<and> totp_secret_of s \<noteq> []
        \<and> verify_totp (ae_hmac_sha1 env) (totp_secret_of s) code (call_now c)"
      using dict_get_live [OF assms(3), of "cl_time c" temp]
      by (auto simp: judge_challenge_def live_challenge_def version_of_def Let_def split: option.splits if_splits)
    with assms(2) show False by (simp add: may_open_session_def)
  qed
  then show "absent j (fst (case judge_challenge env inst c temp code s0 of
         (pending, verdict) \<Rightarrow>
           (let s1 = s0\<lparr>au_pending := pending\<rparr> in
            case verdict of
              ChallengeInvalid \<Rightarrow>
                login_failure env inst c ''totp'' ''invalid_temp_token'' (HttpStatus 401 TempTokenInvalid) s1
            | ChallengeDisabled \<Rightarrow>
                (record_event env inst c ''totp'' ''failure'' ''totp_not_enabled'' [] s1, Inl (HttpStatus 400 TotpNotEnabled))
            | ChallengeExhausted \<Rightarrow>
                (record_event env inst c ''totp'' ''failure'' ''totp_challenge_attempts_exhausted'' []
                   (fst (register_failure env inst c ''totp'' s1)), Inl (HttpStatus 401 TotpExhausted))
            | ChallengeWrongCode \<Rightarrow>
                login_failure env inst c ''totp'' ''invalid_totp'' (HttpStatus 400 TotpWrong) s1
            | ChallengeAccepted \<Rightarrow>
                issue_token env inst c ''login'' ''password_and_totp''
                  (record_event env inst c ''totp'' ''success'' ''totp_verified'' []
                     (reset_rate_limit env inst c ''totp'' s1)))))"
    using d unfolding s0 j by (cases v) (simp_all add: unopened.rejected unopened.event unopened.failure)
qed (rule unopened.enforce [OF assms(1)])

lemma bootstrap_granted:
  assumes "require_bootstrap_access env inst c t s = (s1, Inr a)"
  shows "bootstrap_allowed env c t"
  using assms by (auto simp: require_bootstrap_access_def bootstrap_allowed_def Let_def split: if_splits option.splits)

lemma setup_opens:
  assumes "absent j s" and "\<not> may_open_session env inst c (RSetup p t) s"
  shows "absent j (fst (setup_password env inst c p t s))"
  unfolding setup_password_def
proof (rule and_then_keeps [where P = "absent j"], simp add: assms(1), rule and_then_keeps [where P = "absent j"])
  fix a s0 b s1
  assume "(s, validate_new_password p) = (s0, Inr a)" and e: "enforce_rate_limit env inst c ''bootstrap'' s0 = (s1, Inr b)"
  then have s1: "s1 = s" using enforce_Inr [OF e] by simp
  have "absent j (fst (and_then (require_bootstrap_access env inst c t s)
      (\<lambda>_ s2. issue_token env inst c ''credential_change'' ''password_initialized''
          (replace_auth_config inst c [(''auth_password_hash'', ae_pw_hash env p)] ''password_setup'' s2))))"
    if "password_hash_of s = []"
  proof (rule and_then_keeps [where P = "absent j"])
    fix a s2
    assume "require_bootstrap_access env inst c t s = (s2, Inr a)"
    with assms(2) that bootstrap_granted have False by (fastforce simp: may_open_session_def)
    then show "absent j (fst (issue_token env inst c ''credential_change'' ''password_initialized''
          (replace_auth_config inst c [(''auth_password_hash'', ae_pw_hash env p)] ''password_setup'' s2)))" ..
  qed (rule unopened.bootstrap [OF assms(1)])
  then show "absent j (fst (if password_hash_of s1 \<noteq> []
      then login_failure env inst c ''bootstrap'' ''password_already_initialized'' (HttpStatus 409 AlreadyInitialised) s1
      else and_then (require_bootstrap_access env inst c t s1) (\<lambda>_ s2.
        issue_token env inst c ''credential_change'' ''password_initialized''
          (replace_auth_config inst c [(''auth_password_hash'', ae_pw_hash env p)] ''password_setup'' s2))))"
    using assms(1) unfolding s1 by (simp add: unopened.rejected)
qed (auto intro: unopened.enforce)

text \<open>
  C14. Nobody gets a session without credentials: a request that adds a session row
  either sets the first password with first-run access, or logs in with the right
  password where no second factor is set, or answers a live challenge of this instance
  and of the present credentials with a right code.
\<close>

theorem session_needs_credentials:
  assumes "dict_get (au_sessions s) j = None" and "dict_ok (au_pending s)"
    and "dict_get (au_sessions (fst (handle_route env inst c r s))) j = Some row"
  shows "may_open_session env inst c r s"
proof (rule ccontr)
  assume n: "\<not> may_open_session env inst c r s"
  have a: "absent j s" using assms(1) by (simp add: absent_def)
  have "absent j (fst (handle_route env inst c r s))"
  proof (cases "draws r")
    case True
    with n show ?thesis
      by (cases r) (simp_all add: draws_def setup_opens [OF a] login_opens [OF a] totp_opens [OF a _ assms(2)])
  qed (rule unopened.other_route [OF a])
  with assms(3) show False by (simp add: absent_def)
qed

lemma timeouts_positive: "300 \<le> session_idle_timeout env cfg" "300 \<le> session_absolute_timeout env cfg"
  by (simp_all add: session_idle_timeout_def session_absolute_timeout_def bounded_integer_def Let_def)

lemma sessions_base_secret: "au_sessions (fst (base_secret env c s)) = au_sessions s"
  by (simp add: base_secret_def set_cfg_def Let_def)

text \<open>A created session is there.\<close>

lemma persisted_row:
  assumes "dict_get (au_sessions s) j = None" and "dict_ok (au_sessions s)" and "sr_issued_at r \<le> sr_expires_at r"
  shows "dict_get (au_sessions (fst (persist_session inst j r s))) j = Some r"
  using assms(1,3) dict_get_filter [OF dict_ok_set [OF assms(2)],
      of "\<lambda>_ q. \<not> (sr_instance q = inst \<and> sr_expires_at q < sr_issued_at r - 30 * 86400)" j r j]
  by (simp add: persist_session_def)

lemma created_row:
  assumes "dict_get (au_sessions s) (cl_jti c) = None" and "dict_ok (au_sessions s)"
  shows "dict_get (au_sessions (fst (create_token env inst c None s))) (cl_jti c) \<noteq> None"
proof -
  obtain s1 k where b: "base_secret env c s = (s1, k)" by fastforce
  with sessions_base_secret [of env c s] have s1: "au_sessions s1 = au_sessions s" by simp
  obtain ip ua where m: "request_metadata env (cl_request c) = (ip, ua)" by fastforce
  have "dict_get (au_sessions (fst (persist_session inst (cl_jti c) r s1))) (cl_jti c) \<noteq> None"
    if "sr_issued_at r \<le> sr_expires_at r" for r
    using persisted_row [of s1 "cl_jti c" r inst] assms that by (simp add: s1)
  then show ?thesis
    using timeouts_positive [of env "au_cfg s"]
    unfolding create_token_def Let_def b m prod.case option.case
    by (intro and_then_keeps [where P = "\<lambda>s. dict_get (au_sessions s) (cl_jti c) \<noteq> None"]) simp_all
qed

lemma issued_row:
  assumes "dict_get (au_sessions s) (cl_jti c) = None" and "dict_ok (au_sessions s)"
  shows "dict_get (au_sessions (fst (issue_token env inst c st rs s))) (cl_jti c) \<noteq> None"
  unfolding issue_token_def
proof (rule and_then_keeps [where P = "\<lambda>s. dict_get (au_sessions s) (cl_jti c) \<noteq> None", OF created_row [OF assms]])
  fix token and s1 :: auth_state
  assume p: "dict_get (au_sessions s1) (cl_jti c) \<noteq> None"
  have "dict_get (au_sessions (fst (verify_token env inst c token s1))) (cl_jti c) \<noteq> None"
  proof (rule verify_token_keeps [where P = "\<lambda>s. dict_get (au_sessions s) (cl_jti c) \<noteq> None", OF p])
    fix n s2 k
    assume "base_secret env c s1 = (s2, k)"
    with sessions_base_secret [of env c s1] have "au_sessions s2 = au_sessions s1" by simp
    with p show q: "dict_get (au_sessions s2) (cl_jti c) \<noteq> None" by simp
    show "dict_get (au_sessions (apply_renewal inst n s2)) (cl_jti c) \<noteq> None"
      using q by (simp add: apply_renewal_def split: option.split)
  qed
  then show "dict_get (au_sessions (fst (and_then (verify_token env inst c token s1)
      (\<lambda>cs s2. (record_event env inst c st ''success'' rs (ac_jti cs) s2, Inr (AnsToken token)))))) (cl_jti c) \<noteq> None"
    by (rule and_then_keeps [where P = "\<lambda>s. dict_get (au_sessions s) (cl_jti c) \<noteq> None"]) simp
qed

theorem session_needs_credentials_witness:
  "may_open_session demo_env ''i'' (demo_call 1500) (RLogin ''old-password'') demo_state"
proof -
  have h: "password_hash_of demo_state = ''$argon2old-password''" "totp_secret_of demo_state = []"
    by (simp_all add: password_hash_of_def totp_secret_of_def cfg_get_def demo_state_def)
  have j: "cl_jti (demo_call 1500) = ''new''" by (simp add: demo_call_def)
  have s: "dict_get (au_sessions demo_state) ''new'' = None" "dict_ok (au_sessions demo_state)" "dict_ok (au_pending demo_state)"
    by (simp_all add: demo_state_def demo_jti_def numeral_eq_Suc)
  have "fst (login demo_env ''i'' (demo_call 1500) ''old-password'' demo_state) =
      fst (issue_token demo_env ''i'' (demo_call 1500) ''login'' ''password_only''
        (record_event demo_env ''i'' (demo_call 1500) ''password'' ''success'' ''password_verified'' []
          (reset_rate_limit demo_env ''i'' (demo_call 1500) ''password'' (when_rehash demo_env ''old-password'' False demo_state))))"
    unfolding login_def
    by (simp add: enforce_rate_limit_def blocked_until_def demo_throttle and_then_def h demo_password password_accepted_def
        totp_secret_after_password)
  moreover have "dict_get (au_sessions (fst (issue_token demo_env ''i'' (demo_call 1500) ''login'' ''password_only''
        (record_event demo_env ''i'' (demo_call 1500) ''password'' ''success'' ''password_verified'' []
          (reset_rate_limit demo_env ''i'' (demo_call 1500) ''password'' (when_rehash demo_env ''old-password'' False demo_state))))))
      (cl_jti (demo_call 1500)) \<noteq> None"
    by (rule issued_row) (simp_all add: s j when_rehash_def)
  ultimately obtain row where
    "dict_get (au_sessions (fst (handle_route demo_env ''i'' (demo_call 1500) (RLogin ''old-password'') demo_state))) ''new'' = Some row"
    unfolding j handle_route.simps by fastforce
  then show ?thesis by (rule session_needs_credentials [OF s(1,3)])
qed

text \<open>
  The secret that the enrolment offers is one that it then accepts: it has the
  strength asked for, and decoding it gives the twenty drawn bytes back.
\<close>

lemma offered_secret_accepted:
  assumes "length drawn = 20"
  shows "strong_secret (generate_totp_secret drawn) \<and> decode_totp_secret (generate_totp_secret drawn) = drawn"
proof -
  let ?t = "b32_encode drawn"
  have m: "length drawn mod 5 = 0" and l: "length ?t = 32"
    using assms length_b32_encode [of drawn] by simp_all
  have p: "b32_value (upper_char x) \<noteq> None \<and> x \<noteq> CHR ''=''" if "x \<in> set ?t" for x
    using b32_encode_chars [OF m that] b32_char_props by auto
  have "dropWhile (\<lambda>c. c = CHR ''='') (rev ?t) = rev ?t"
    using l p [of "last ?t"] by (cases ?t rule: rev_cases) auto
  with l p have "secret_text_ok ?t" by (auto simp: secret_text_ok_def Let_def list_all_iff)
  with l assms decode_b32_encode [OF m] show ?thesis by (simp add: strong_secret_def generate_totp_secret_def)
qed

section \<open>How often one may guess\<close>

interpretation throttle: failure_gate "next_failure maximum window cooldown" th_failure_count
  "\<lambda>now r. now < th_window_started_at r + window" "\<lambda>now r. now + cooldown \<le> th_blocked_until r" maximum
  for maximum window cooldown
  by unfold_locales (simp_all add: next_failure_def Let_def)

lemma next_failure_below:
  "now < th_window_started_at r + window \<Longrightarrow> th_failure_count r + 1 < maximum \<Longrightarrow>
    th_blocked_until (next_failure maximum window cooldown now r) = th_blocked_until r"
  by (simp add: next_failure_def Let_def)

lemma next_failure_window:
  "now < th_window_started_at r + window \<Longrightarrow>
    th_window_started_at (next_failure maximum window cooldown now r) = th_window_started_at r"
  by (simp add: next_failure_def Let_def)

lemma integer_setting_lower: "lo \<le> hi \<Longrightarrow> lo \<le> integer_setting env cfg e k d lo hi"
  by (simp add: integer_setting_def bounded_integer_def)

lemma password_maximum: "throttle_limits env cfg stage = (maximum, window, cooldown) \<Longrightarrow> 2 \<le> maximum"
  using integer_setting_lower [of 2 100 env cfg] by (simp add: throttle_limits_def Let_def) (metis Pair_inject)

text \<open>What \<open>k\<close> failures of one window leave in a bucket.\<close>

definition counted :: "int \<Rightarrow> int \<Rightarrow> int \<Rightarrow> nat \<Rightarrow> throttle_row option \<Rightarrow> bool" where
  "counted maximum cooldown t0 k row \<longleftrightarrow>
    (case row of
       None \<Rightarrow> k = 0
     | Some r \<Rightarrow> t0 \<le> th_window_started_at r
         \<and> (if th_failure_count r < maximum then int k \<le> th_failure_count r \<and> th_blocked_until r = 0
            else t0 + cooldown \<le> th_blocked_until r))"

lemma counted_first:
  "2 \<le> maximum \<Longrightarrow> t0 \<le> now \<Longrightarrow> counted maximum cooldown t0 (Suc 0) (Some (first_failure maximum cooldown now))"
  by (simp add: counted_def first_failure_def)

lemma counted_next:
  assumes "counted maximum cooldown t0 k (Some r)" and "t0 \<le> now" and "now < t0 + window"
    and "th_blocked_until r \<le> now" and "now < t0 + cooldown"
  shows "counted maximum cooldown t0 (Suc k) (Some (next_failure maximum window cooldown now r))"
proof -
  have below: "th_failure_count r < maximum" "int k \<le> th_failure_count r" "th_blocked_until r = 0" "t0 \<le> th_window_started_at r"
    using assms(1,4,5) by (auto simp: counted_def split: if_splits)
  have w: "now < th_window_started_at r + window" using assms(3) below(4) by simp
  have c: "th_failure_count (next_failure maximum window cooldown now r) = th_failure_count r + 1"
    using throttle.fail_count [of now r window maximum cooldown] w by simp
  show ?thesis
  proof (cases "th_failure_count r + 1 < maximum")
    case True
    with next_failure_below [OF w] below show ?thesis
      by (simp add: counted_def c next_failure_window [OF w])
  next
    case False
    with throttle.fail_blocks [where t = now and s = r and maximum = maximum and window = window and cooldown = cooldown] assms(2) below(4) show ?thesis
      by (simp add: counted_def c next_failure_window [OF w])
  qed
qed

text \<open>One wrong login, blocked or not.\<close>

lemma wrong_login:
  assumes limits: "throttle_limits env (au_cfg s) ''password'' = (maximum, window, cooldown)"
    and set: "password_hash_of s \<noteq> []" and wrong: "\<not> fst (verify_password env p (password_hash_of s))"
    and t: "t0 \<le> call_now c" "call_now c < t0 + window" "call_now c < t0 + cooldown" and "0 \<le> t0"
    and inv: "counted maximum cooldown t0 k (dict_get (au_throttle s) (call_bucket env inst c ''password''))"
  shows "au_cfg (fst (login env inst c p s)) = au_cfg s"
    and "counted maximum cooldown t0 (Suc k)
      (dict_get (au_throttle (fst (login env inst c p s))) (call_bucket env inst c ''password''))"
proof -
  let ?key = "call_bucket env inst c ''password''"
  obtain rehash where v: "verify_password env p (password_hash_of s) = (False, rehash)"
    using wrong by (cases "verify_password env p (password_hash_of s)") auto
  have "au_cfg (fst (login env inst c p s)) = au_cfg s \<and> counted maximum cooldown t0 (Suc k)
      (dict_get (au_throttle (fst (login env inst c p s))) ?key)"
  proof (cases "call_now c < blocked_until ?key s")
    case True
    with t(1) \<open>0 \<le> t0\<close> obtain r where r: "dict_get (au_throttle s) ?key = Some r" "0 < th_blocked_until r"
      by (cases "dict_get (au_throttle s) ?key") (auto simp: blocked_until_def)
    with True have "login env inst c p s = (record_event env inst c ''password'' ''blocked'' ''cooldown_active'' [] s,
        Inl (TooManyAttempts (max 1 (blocked_until ?key s - call_now c))))"
      by (simp add: login_def enforce_rate_limit_def and_then_def)
    with True r inv show ?thesis
      by (simp add: counted_def blocked_until_def split: if_splits)
  next
    case False
    then have l: "login env inst c p s = login_failure env inst c ''password'' ''invalid_password'' (HttpStatus 401 WrongPassword) s"
      by (simp add: login_def enforce_rate_limit_def and_then_def set v)
    show ?thesis
    proof (cases "dict_get (au_throttle s) ?key")
      case None
      with inv have "k = 0" by (simp add: counted_def)
      with None counted_first [OF password_maximum [OF limits] t(1)] show ?thesis
        by (simp add: l login_failure_def register_failure_def limits Let_def)
    next
      case (Some r)
      with False have "th_blocked_until r \<le> call_now c" by (simp add: blocked_until_def)
      with Some counted_next [OF inv [unfolded Some] t(1,2) _ t(3)] show ?thesis
        by (simp add: l login_failure_def register_failure_def limits Let_def)
    qed
  qed
  then show "au_cfg (fst (login env inst c p s)) = au_cfg s"
    and "counted maximum cooldown t0 (Suc k) (dict_get (au_throttle (fst (login env inst c p s))) ?key)" by simp_all
qed

text \<open>Login attempts that all come from one bucket, lie in one window and are wrong.\<close>

definition wrong_attempts ::
  "auth_env \<Rightarrow> string \<Rightarrow> string \<Rightarrow> int \<Rightarrow> int \<Rightarrow> auth_state \<Rightarrow> (auth_call \<times> string) list \<Rightarrow> bool" where
  "wrong_attempts env inst key t0 t1 s attempts \<longleftrightarrow>
    list_all (\<lambda>(c, p). call_bucket env inst c ''password'' = key \<and> t0 \<le> call_now c \<and> call_now c < t1
      \<and> \<not> fst (verify_password env p (password_hash_of s))) attempts"

definition login_events :: "(auth_call \<times> string) list \<Rightarrow> auth_event list" where
  "login_events attempts = map (\<lambda>(c, p). EvRequest c (RLogin p)) attempts"

lemma wrong_attempts_counted:
  assumes "throttle_limits env (au_cfg s) ''password'' = (maximum, window, cooldown)"
    and "password_hash_of s \<noteq> []" and "0 \<le> t0"
    and "wrong_attempts env inst key t0 (t0 + min window cooldown) s attempts"
    and "counted maximum cooldown t0 k (dict_get (au_throttle s) key)"
  shows "au_cfg (fold (auth_step env inst) (login_events attempts) s) = au_cfg s
    \<and> counted maximum cooldown t0 (k + length attempts)
        (dict_get (au_throttle (fold (auth_step env inst) (login_events attempts) s)) key)"
  using assms
proof (induction attempts arbitrary: s k)
  case Nil
  then show ?case by (simp add: login_events_def)
next
  case (Cons a attempts)
  obtain c p where a: "a = (c, p)" by fastforce
  from Cons.prems(4) have c: "call_bucket env inst c ''password'' = key" "t0 \<le> call_now c" "call_now c < t0 + window"
    "call_now c < t0 + cooldown" "\<not> fst (verify_password env p (password_hash_of s))"
    and rest: "wrong_attempts env inst key t0 (t0 + min window cooldown) s attempts"
    by (auto simp: wrong_attempts_def a)
  let ?s = "fst (login env inst c p s)"
  have cfg: "au_cfg ?s = au_cfg s" and cnt: "counted maximum cooldown t0 (Suc k) (dict_get (au_throttle ?s) key)"
    using wrong_login [OF Cons.prems(1,2) c(5) c(2-4) Cons.prems(3), of k inst] Cons.prems(5) by (simp_all add: c(1))
  have h: "password_hash_of ?s = password_hash_of s" by (simp add: password_hash_of_def cfg)
  from Cons.IH [of ?s "Suc k"] Cons.prems(1-3) rest cnt show ?case
    by (simp add: h cfg a login_events_def wrong_attempts_def)
qed

text \<open>
  Guessing is limited: when a client of whom no failure is recorded has made, within
  one window, as many wrong password attempts as the settings allow, every further
  login from it is refused until the cooldown is over, the right password included.
\<close>

lemma guess_limit:
  assumes "throttle_limits env (au_cfg s) ''password'' = (maximum, window, cooldown)"
    and "password_hash_of s \<noteq> []" and "dict_get (au_throttle s) key = None" and "0 \<le> t0"
    and "wrong_attempts env inst key t0 (t0 + min window cooldown) s attempts" and "maximum \<le> int (length attempts)"
    and "call_bucket env inst c ''password'' = key" and "call_now c < t0 + cooldown"
  shows "\<exists>n. snd (handle_route env inst c (RLogin guess) (fold (auth_step env inst) (login_events attempts) s))
           = Inl (TooManyAttempts n)"
proof -
  let ?s = "fold (auth_step env inst) (login_events attempts) s"
  have "counted maximum cooldown t0 (length attempts) (dict_get (au_throttle ?s) key)"
    using wrong_attempts_counted [OF assms(1,2,4,5), of 0] assms(3) by (simp add: counted_def)
  moreover from assms(6) password_maximum [OF assms(1)] have "attempts \<noteq> []" by auto
  ultimately have "t0 + cooldown \<le> blocked_until key ?s"
    using assms(6) by (auto simp: counted_def blocked_until_def split: option.splits if_splits)
  with assms(7,8) show ?thesis by (simp add: login_def enforce_rate_limit_def and_then_def)
qed

lemma demo_limits: "throttle_limits demo_env (au_cfg demo_state) ''password'' = (5, 600, 900)"
proof -
  have "parse_int (show_int n) = Some n" for n by simp
  moreover have "first_set [None, Some t] = t" for t by simp
  ultimately show ?thesis
    by (simp add: throttle_limits_def integer_setting_def bounded_integer_def getenv_def demo_env_def cfg_get_def demo_state_def)
qed

end
