(* ===== verification/RotationState.thy ===== *)
theory RotationState
  imports Prelude
begin

text \<open>
  The data of \<open>src/services/chatgpt_core/registration_domain_rotation.py\<close>: the
  items of a rotation group (one per registration domain), the group's durable
  snapshot, its runtime companion and the manager with its two indexes.

  A group keeps a bounded number of domain tasks in flight (its slots). The
  scheduler starts the task of the next pending domain whenever a slot is free,
  gives a domain up when its quality is poor, retries a task that failed for a
  technical reason, and fails the whole group when the failures look systemic.

  What the manager is constructed with is the record \<open>rotation_env\<close>: the
  \<open>n\<close>-th call of the start callback, the \<open>n\<close>-th attempt to store a snapshot (all
  three tries of it), the \<open>n\<close>-th scheduling of a timer and the \<open>n\<close>-th pair of log
  line and stop request each have an outcome. Texts that people read are the
  constructors they are built from; \<open>sanitize_error_message\<close> is a parameter.
\<close>

section \<open>States\<close>

datatype domain_state =
    Pending | Starting | Active | Draining | RetryWait
  | StartFailed | Completed | DomainFailed | DomainInterrupted | DomainStopped
  | QualityRejected | TechnicalFailed | Cancelled

datatype group_state =
    Running | Stopping | Failing
  | GroupCompleted | GroupStopped | GroupFailed | GroupInterrupted

fun live_task :: "domain_state \<Rightarrow> bool" where
  "live_task Starting = True"
| "live_task Active = True"
| "live_task Draining = True"
| "live_task _ = False"

definition holds_slot :: "domain_state \<Rightarrow> bool" where
  "holds_slot s \<longleftrightarrow> live_task s \<or> s = RetryWait"

fun group_over :: "group_state \<Rightarrow> bool" where
  "group_over Running = False"
| "group_over Stopping = False"
| "group_over Failing = False"
| "group_over _ = True"

section \<open>Constants\<close>

definition technical_retry_limit :: nat where
  "technical_retry_limit = 2"

definition technical_retry_backoff :: "rat list" where
  "technical_retry_backoff = [5, 15]"

definition circuit_distinct_domains :: nat where
  "circuit_distinct_domains = 2"

definition circuit_window_seconds :: rat where
  "circuit_window_seconds = 30"

text \<open>The categories of technical failures in the order they are tried.\<close>

datatype failure_category =
    DynamicProxyUnavailable | ProxyUnavailable | TlsFailure | NetworkFailure
  | UpstreamUnavailable | TaskTimeout | BrowserDependencyUnavailable
  | StorageTemporarilyUnavailable | TaskInterrupted

definition failure_categories :: "(failure_category \<times> utext list) list" where
  "failure_categories =
     [(DynamicProxyUnavailable,
        [uni ''dynamic proxy'', uni ''proxy pool unavailable'',
         [21160, 24577, 20195, 29702, 27809, 26377, 21487, 29992, 20505, 36873],
         [20195, 29702, 39044, 26816, 22833, 36133],
         [27809, 26377, 21487, 29992, 20505, 36873]]),
      (ProxyUnavailable, [uni ''proxy'', uni ''socks'', [20195, 29702]]),
      (TlsFailure,
        [uni ''ssl'', uni ''tls'', uni ''wrong_version_number'', uni ''certificate verify'']),
      (NetworkFailure,
        [uni ''connection'', uni ''econn'', uni ''network'', uni ''socket'', uni ''broken pipe'',
         uni ''dns'', [36830, 25509], [32593, 32476]]),
      (UpstreamUnavailable,
        [uni ''429'', uni ''502'', uni ''503'', uni ''504'', uni ''cloudflare'', uni ''gateway'',
         uni ''internal server error'', uni ''rate limit'', uni ''service unavailable'',
         uni ''too many requests'', uni ''upstream'', [19978, 28216], [38480, 27969],
         [26381, 21153, 19981, 21487, 29992]]),
      (TaskTimeout, [uni ''timeout'', uni ''timed out'', uni ''hard timeout'', [36229, 26102]]),
      (BrowserDependencyUnavailable,
        [uni ''browser closed'', uni ''browser_crashed'', uni ''sentinel_browser'',
         uni ''targetclosederror'', [27983, 35272, 22120, 23481, 37327]]),
      (StorageTemporarilyUnavailable,
        [uni ''database is locked'', uni ''disk i/o'', uni ''persistence failed'',
         uni ''write failed'', [25968, 25454, 24211, 34987, 38145, 23450],
         [20889, 20837, 22833, 36133]])]"

definition technical_link_reason_codes :: "string list" where
  "technical_link_reason_codes =
     [''account_identity_changed'', ''account_identity_changed_before_submit'',
      ''account_not_found'', ''invalid_account_id'', ''invalid_frozen_profile'',
      ''payment_link_persist_failed'', ''payment_link_queue_rejected'',
      ''postprocessor_unavailable'', ''task_exception'']"

definition technical_link_message_markers :: "utext list" where
  "technical_link_message_markers =
     [uni ''429'', uni ''502'', uni ''503'', uni ''504'', uni ''broken pipe'', uni ''cloudflare'',
      uni ''connection'', uni ''dns'', uni ''econn'', uni ''fetch failed'', uni ''gateway'',
      uni ''internal server error'', uni ''network'', uni ''proxy'', uni ''rate limit'',
      uni ''socket'', uni ''ssl'', uni ''service unavailable'', uni ''tls'', uni ''timeout'',
      uni ''timed out'', uni ''too many requests'', uni ''upstream'', [19978, 28216],
      [36830, 25509], [20195, 29702], [38480, 27969], [26381, 21153, 19981, 21487, 29992],
      [32593, 32476], [36229, 26102], [37197, 32622, 19981, 21487, 29992]]"

section \<open>Records\<close>

record task_attempt =
  at_task :: string
  at_number :: nat
  at_state :: domain_state
  at_error :: utext
  at_started :: "time option"
  at_terminal :: "time option"

record domain_quality =
  q_decisions :: nat
  q_accepted :: nat
  q_disallowed :: nat
  q_rejection_rate :: rat
  q_registered :: nat
  q_link_success :: nat
  q_link_miss :: nat
  q_link_neutral :: nat
  q_link_pending :: nat
  q_miss_streak :: nat

definition new_quality :: domain_quality where
  "new_quality = \<lparr>q_decisions = 0, q_accepted = 0, q_disallowed = 0, q_rejection_rate = 0,
     q_registered = 0, q_link_success = 0, q_link_miss = 0, q_link_neutral = 0,
     q_link_pending = 0, q_miss_streak = 0\<rparr>"

text \<open>
  Why a domain is drained for quality, with the numbers its message shows
  (rejections, decisions and the two policy values, or streak and threshold).
\<close>

datatype quality_code =
    RejectionRateExceeded nat nat rat nat
  | NoPaymentLinkStreak nat nat

record quality_trigger =
  qt_code :: quality_code
  qt_at :: time

record technical_failure =
  tf_code :: failure_category
  tf_message :: utext
  tf_retry_count :: nat
  tf_retry_limit :: nat
  tf_retry_at :: "time option"
  tf_occurred :: time
  tf_recovered :: "time option"

record domain_item =
  it_domain :: string
  it_position :: nat
  it_state :: domain_state
  it_task :: string
  it_quality :: domain_quality
  it_trigger :: "quality_trigger option"
  it_error :: utext
  it_attempts :: "task_attempt list"
  it_attempt_count :: nat
  it_retry_count :: nat
  it_retry_limit :: nat
  it_next_retry :: "time option"
  it_technical :: "technical_failure option"
  it_started :: "time option"
  it_terminal :: "time option"

record rotation_policy =
  rp_rejection_threshold :: rat
  rp_min_samples :: nat
  rp_streak_threshold :: nat
  rp_retry_limit :: nat
  rp_backoff :: "rat list"
  rp_circuit_domains :: nat
  rp_circuit_window :: rat

text \<open>Why a group failed or stopped, with the values its message shows.\<close>

datatype failure_code =
    DomainTaskStartFailed
  | TechnicalCircuitOpen nat failure_category
  | TechnicalRetryExhausted failure_category nat
  | TechnicalRetryScheduleFailed
  | TechnicalFailureAfterProgress failure_category
  | DomainTaskInterrupted
  | DomainTaskFailed

datatype stop_text = NoStopText | FailureText failure_code string | UserText utext | RestartText

record group_failure =
  gf_code :: failure_code
  gf_domain :: string
  gf_error :: utext
  gf_occurred :: time

record technical_event =
  te_domain :: string
  te_position :: nat
  te_task :: string
  te_attempt :: nat
  te_code :: failure_category
  te_message :: utext
  te_occurred :: time

record group_snapshot =
  gs_id :: string
  gs_state :: group_state
  gs_domain_count :: nat
  gs_count_per_task :: nat
  gs_concurrency_per_task :: nat
  gs_slots :: nat
  gs_policy :: rotation_policy
  gs_items :: "domain_item list"
  gs_failure :: "group_failure option"
  gs_technical :: "technical_event list"
  gs_stop_reason :: stop_text
  gs_created :: time
  gs_updated :: time
  gs_finished :: "time option"

datatype link_state = LinkPending | AwaitingLink | LinkSuccess | LinkMiss | LinkNeutral

record ledger_account =
  la_id :: nat
  la_order :: nat
  la_state :: link_state
  la_reason :: string
  la_updated :: time

text \<open>
  A runtime group. Its serial number is the identity of the Python object, which
  a retry callback compares; the template of the registration request is opaque
  and is only passed to the start callback.
\<close>

record runtime_group =
  rg_serial :: nat
  rg_snap :: group_snapshot
  rg_template :: bool
  rg_ledgers :: "(nat, (nat, ledger_account) dict) dict"
  rg_handles :: "(nat, nat) dict"
  rg_events :: "(time \<times> failure_category \<times> nat) list"

section \<open>The manager and its surroundings\<close>

datatype start_result = Returned string | Raised utext

record start_outcome =
  so_bound :: "string list"
  so_result :: start_result

record rotation_env =
  re_start :: "nat \<Rightarrow> start_outcome"
  re_persist :: "nat \<Rightarrow> bool"
  re_schedule :: "nat \<Rightarrow> utext option"
  re_log :: "nat \<Rightarrow> bool"
  re_sanitize :: "utext \<Rightarrow> utext"

text \<open>Both clocks of the process, read once per operation.\<close>

record clock =
  ck_wall :: time
  ck_mono :: time

text \<open>A timer that was scheduled and whose callback has not run yet.\<close>

record retry_timer =
  rt_number :: nat
  rt_group :: string
  rt_serial :: nat
  rt_position :: nat
  rt_retry :: nat
  rt_delay :: rat

record start_call =
  sc_serial :: nat
  sc_position :: nat
  sc_domain :: string

datatype stop_mode = AfterCurrent | Immediate

datatype stop_why = ForQuality quality_code | ForGroupFailure | ForGroupStop

record stop_call =
  sp_task :: string
  sp_mode :: stop_mode
  sp_why :: stop_why

record shared =
  sh_tasks :: "(string, string \<times> nat) dict"
  sh_stored :: "(string, group_snapshot) dict"
  sh_starts :: "start_call list"
  sh_stops :: "stop_call list"
  sh_stop_tries :: nat
  sh_writes :: nat
  sh_scheduled :: nat
  sh_timers :: "retry_timer list"
  sh_cancelled :: "nat list"

record manager =
  mg_groups :: "(string, runtime_group) dict"
  mg_shared :: shared
  mg_serials :: nat

definition empty_shared :: shared where
  "empty_shared = \<lparr>sh_tasks = [], sh_stored = [], sh_starts = [], sh_stops = [],
     sh_stop_tries = 0, sh_writes = 0, sh_scheduled = 0, sh_timers = [], sh_cancelled = []\<rparr>"

definition empty_manager :: manager where
  "empty_manager = \<lparr>mg_groups = [], mg_shared = empty_shared, mg_serials = 0\<rparr>"

end
