(* ===== verification/RotationOps.thy ===== *)
theory RotationOps
  imports RotationState
begin

text \<open>
  The operations of \<open>RegistrationDomainRotationManager\<close>. Those that the code runs
  on one runtime group take the group together with what the manager shares
  between groups, and name an item by its index in the snapshot. Values that only
  the manager itself writes are read back as they are. What an operation
  publishes to a task's metadata is a copy of the item and is left out.
\<close>

type_synonym group_run = "runtime_group \<times> shared"

abbreviation snap :: "group_run \<Rightarrow> group_snapshot" where
  "snap r \<equiv> rg_snap (fst r)"

abbreviation items :: "group_run \<Rightarrow> domain_item list" where
  "items r \<equiv> gs_items (rg_snap (fst r))"

definition upd_snap :: "(group_snapshot \<Rightarrow> group_snapshot) \<Rightarrow> group_run \<Rightarrow> group_run" where
  "upd_snap f r = (fst r\<lparr>rg_snap := f (rg_snap (fst r))\<rparr>, snd r)"

definition upd_item :: "nat \<Rightarrow> (domain_item \<Rightarrow> domain_item) \<Rightarrow> group_run \<Rightarrow> group_run" where
  "upd_item i f r = upd_snap (\<lambda>s. s\<lparr>gs_items := (gs_items s)[i := f (gs_items s ! i)]\<rparr>) r"

definition upd_shared :: "(shared \<Rightarrow> shared) \<Rightarrow> group_run \<Rightarrow> group_run" where
  "upd_shared f r = (fst r, f (snd r))"

section \<open>Reading\<close>

definition nonneg_int :: "int \<Rightarrow> nat" where
  "nonneg_int v = nat v"

definition positive_int :: "int \<Rightarrow> nat \<Rightarrow> nat" where
  "positive_int v default_value = (if 0 < v then nat v else default_value)"

fun index_from :: "nat \<Rightarrow> ('a \<Rightarrow> bool) \<Rightarrow> 'a list \<Rightarrow> nat option" where
  "index_from n P [] = None"
| "index_from n P (x # xs) = (if P x then Some n else index_from (n + 1) P xs)"

definition item_for_position :: "nat \<Rightarrow> group_run \<Rightarrow> nat option" where
  "item_for_position p r = index_from 0 (\<lambda>it. it_position it = p) (items r)"

definition slots_held :: "group_run \<Rightarrow> nat" where
  "slots_held r = length (filter (\<lambda>it. holds_slot (it_state it)) (items r))"

definition first_pending :: "group_run \<Rightarrow> nat option" where
  "first_pending r = index_from 0 (\<lambda>it. it_state it = Pending) (items r)"

section \<open>Storing and binding\<close>

definition persist :: "rotation_env \<Rightarrow> clock \<Rightarrow> group_run \<Rightarrow> bool \<times> group_run" where
  "persist env ck r =
     (let r1 = upd_snap (\<lambda>s. s\<lparr>gs_updated := ck_wall ck\<rparr>) r; sh = snd r1; s = snap r1;
          ok = re_persist env (sh_writes sh)
      in (ok, upd_shared (\<lambda>sh. sh\<lparr>sh_writes := sh_writes sh + 1,
                 sh_stored := if ok then dict_set (gs_id s) s (sh_stored sh) else sh_stored sh\<rparr>) r1))"

definition persisted :: "rotation_env \<Rightarrow> clock \<Rightarrow> group_run \<Rightarrow> group_run" where
  "persisted env ck r = snd (persist env ck r)"

definition bind_attempt :: "time \<Rightarrow> string \<Rightarrow> task_attempt list \<Rightarrow> task_attempt list" where
  "bind_attempt now t ats =
     (case index_from 0 (\<lambda>a. at_task a = t) ats of
        None \<Rightarrow> ats @ [\<lparr>at_task = t, at_number = length ats + 1, at_state = Active, at_error = [],
                      at_started = Some now, at_terminal = None\<rparr>]
      | Some k \<Rightarrow> ats[k := (ats ! k)\<lparr>at_state := Active,
          at_started := Some (case at_started (ats ! k) of Some s \<Rightarrow> s | None \<Rightarrow> now)\<rparr>])"

definition bind_item :: "time \<Rightarrow> string \<Rightarrow> domain_item \<Rightarrow> domain_item" where
  "bind_item now t it =
     (let ats = bind_attempt now t (it_attempts it)
      in it\<lparr>it_attempts := ats, it_task := t, it_state := Active, it_attempt_count := length ats,
           it_error := [], it_next_retry := None, it_terminal := None,
           it_started := Some (case it_started it of Some s \<Rightarrow> s | None \<Rightarrow> now)\<rparr>)"

definition bind_task :: "rotation_env \<Rightarrow> clock \<Rightarrow> nat \<Rightarrow> string \<Rightarrow> group_run \<Rightarrow> group_run" where
  "bind_task env ck i task r =
     (let t = py_strip task
      in if t = [] then r
         else persisted env ck
           (upd_shared (\<lambda>sh. sh\<lparr>sh_tasks :=
                dict_set t (gs_id (snap r), it_position (items r ! i)) (sh_tasks sh)\<rparr>)
             (upd_item i (bind_item (ck_wall ck) t) r)))"

section \<open>Winding a group down\<close>

text \<open>The log lines about a stop come before the request; when one raises, no request is made.\<close>

definition request_drain :: "rotation_env \<Rightarrow> string \<Rightarrow> stop_mode \<Rightarrow> stop_why \<Rightarrow> shared \<Rightarrow> shared" where
  "request_drain env task mode why sh =
     sh\<lparr>sh_stop_tries := sh_stop_tries sh + 1,
        sh_stops := sh_stops sh @ (if re_log env (sh_stop_tries sh)
          then [\<lparr>sp_task = task, sp_mode = mode, sp_why = why\<rparr>] else [])\<rparr>"

definition cancel_handle :: "nat \<Rightarrow> group_run \<Rightarrow> group_run" where
  "cancel_handle p r =
     (case dict_get (rg_handles (fst r)) p of
        None \<Rightarrow> r
      | Some n \<Rightarrow> (fst r\<lparr>rg_handles := dict_pop p (rg_handles (fst r))\<rparr>,
                  snd r\<lparr>sh_cancelled := sh_cancelled (snd r) @ [n]\<rparr>))"

definition cancel_all_handles :: "group_run \<Rightarrow> group_run" where
  "cancel_all_handles r = fold cancel_handle (map fst (rg_handles (fst r))) r"

definition cancel_pending_item :: "time \<Rightarrow> domain_item \<Rightarrow> domain_item" where
  "cancel_pending_item now it =
     (if it_state it = Pending then it\<lparr>it_state := Cancelled, it_terminal := Some now\<rparr> else it)"

definition cancel_pending :: "clock \<Rightarrow> group_run \<Rightarrow> group_run" where
  "cancel_pending ck r =
     upd_snap (\<lambda>s. s\<lparr>gs_items := map (cancel_pending_item (ck_wall ck)) (gs_items s)\<rparr>) r"

definition circuit_cancel_text :: utext where
  "circuit_cancel_text = [21516, 32452, 22522, 30784, 35774, 26045, 29076, 26029, 65292, 24050,
     21462, 28040, 25216, 26415, 37325, 35797]"

fun each_item ::
  "(nat \<Rightarrow> domain_item \<Rightarrow> shared \<Rightarrow> domain_item \<times> shared) \<Rightarrow> nat \<Rightarrow> domain_item list \<Rightarrow> shared \<Rightarrow>
     domain_item list \<times> shared" where
  "each_item f n [] sh = ([], sh)"
| "each_item f n (it # its) sh =
     (let (it', sh1) = f n it sh; (its', sh2) = each_item f (n + 1) its sh1 in (it' # its', sh2))"

definition over_items ::
  "(nat \<Rightarrow> domain_item \<Rightarrow> shared \<Rightarrow> domain_item \<times> shared) \<Rightarrow> group_run \<Rightarrow> group_run" where
  "over_items f r =
     (let (its, sh) = each_item f 0 (items r) (snd r)
      in (fst r\<lparr>rg_snap := rg_snap (fst r)\<lparr>gs_items := its\<rparr>\<rparr>, sh))"

definition drain_item ::
  "rotation_env \<Rightarrow> clock \<Rightarrow> stop_mode \<Rightarrow> stop_why \<Rightarrow> domain_item \<Rightarrow> shared \<Rightarrow> domain_item \<times> shared" where
  "drain_item env ck mode why it sh =
     (if \<not> live_task (it_state it) then (it, sh)
      else if it_task it = []
      then (it\<lparr>it_state := DomainStopped, it_terminal := Some (ck_wall ck)\<rparr>, sh)
      else (it\<lparr>it_state := Draining\<rparr>, request_drain env (it_task it) mode why sh))"

definition fail_domain_item ::
  "rotation_env \<Rightarrow> clock \<Rightarrow> nat \<Rightarrow> nat \<Rightarrow> domain_item \<Rightarrow> shared \<Rightarrow> domain_item \<times> shared" where
  "fail_domain_item env ck failed n it sh =
     (if n = failed then (it, sh)
      else if it_state it = RetryWait
      then (it\<lparr>it_state := TechnicalFailed, it_next_retry := None,
              it_terminal := Some (ck_wall ck),
              it_error := take 1000 (if it_error it = [] then circuit_cancel_text else it_error it)\<rparr>, sh)
      else drain_item env ck AfterCurrent ForGroupFailure it sh)"

definition begin_group_failure ::
  "rotation_env \<Rightarrow> clock \<Rightarrow> nat \<Rightarrow> failure_code \<Rightarrow> group_run \<Rightarrow> group_run" where
  "begin_group_failure env ck i code r =
     (let it = items r ! i; domain = or_else (it_domain it) ''-'';
          r1 = upd_snap (\<lambda>s. s\<lparr>gs_state := Failing, gs_stop_reason := FailureText code domain,
                 gs_failure := Some \<lparr>gf_code = code, gf_domain = domain,
                   gf_error = take 1000 (it_error it), gf_occurred = ck_wall ck\<rparr>\<rparr>) r
      in over_items (fail_domain_item env ck i) (cancel_all_handles (cancel_pending ck r1)))"

definition retire_runtime :: "group_run \<Rightarrow> group_run" where
  "retire_runtime r =
     (let r1 = cancel_all_handles r
      in (fst r1\<lparr>rg_template := False, rg_ledgers := [], rg_events := []\<rparr>,
          snd r1\<lparr>sh_tasks := filter (\<lambda>(t, g, p). g \<noteq> gs_id (snap r1)) (sh_tasks (snd r1))\<rparr>))"

definition final_state :: "group_run \<Rightarrow> group_state" where
  "final_state r =
     (case gs_state (snap r) of
        Stopping \<Rightarrow> GroupStopped
      | Failing \<Rightarrow> GroupFailed
      | Running \<Rightarrow> (if \<exists>it\<in>set (items r). it_task it \<noteq> [] then GroupCompleted else GroupFailed)
      | s \<Rightarrow> s)"

definition idle :: "group_run \<Rightarrow> bool" where
  "idle r \<longleftrightarrow> (\<forall>it\<in>set (items r). \<not> holds_slot (it_state it) \<and> it_state it \<noteq> Pending)"

text \<open>The first result says that the group leaves the manager's index.\<close>

definition finalize_if_idle :: "rotation_env \<Rightarrow> clock \<Rightarrow> group_run \<Rightarrow> bool \<times> group_run" where
  "finalize_if_idle env ck r =
     (if \<not> idle r then (False, r)
      else (let (ok, r1) = persist env ck (upd_snap (\<lambda>s. s\<lparr>gs_state := final_state r,
                  gs_finished := Some (case gs_finished s of Some f \<Rightarrow> f | None \<Rightarrow> ck_wall ck)\<rparr>) r)
            in (ok, retire_runtime r1)))"

section \<open>Filling the slots\<close>

definition start_domain :: "rotation_env \<Rightarrow> clock \<Rightarrow> nat \<Rightarrow> group_run \<Rightarrow> bool \<times> group_run" where
  "start_domain env ck i r =
     (let r1 = persisted env ck (upd_item i (\<lambda>it. it\<lparr>it_state := Starting, it_task := [],
                 it_next_retry := None, it_terminal := None,
                 it_started := Some (case it_started it of Some s \<Rightarrow> s | None \<Rightarrow> ck_wall ck)\<rparr>) r);
          it = items r1 ! i;
          outcome = re_start env (length (sh_starts (snd r1)));
          r2 = upd_shared (\<lambda>sh. sh\<lparr>sh_starts := sh_starts sh @ [\<lparr>sc_serial = rg_serial (fst r1),
                 sc_position = it_position it, sc_domain = it_domain it\<rparr>]\<rparr>) r1;
          r3 = fold (bind_task env ck i) (so_bound outcome) r2
      in case so_result outcome of
           Returned t \<Rightarrow> (True, if it_task (items r3 ! i) = [] then bind_task env ck i t r3 else r3)
         | Raised e \<Rightarrow>
             (False, persisted env ck (begin_group_failure env ck i DomainTaskStartFailed
                (upd_item i (\<lambda>it. it\<lparr>it_state := StartFailed, it_error := take 1000 (re_sanitize env e),
                    it_terminal := Some (ck_wall ck)\<rparr>) r3))))"

definition pending_count :: "group_run \<Rightarrow> nat" where
  "pending_count r = length (filter (\<lambda>it. it_state it = Pending) (items r))"

lemma index_from_Some:
  "index_from n P xs = Some i \<Longrightarrow> n \<le> i \<and> i - n < length xs \<and> P (xs ! (i - n))
     \<and> (\<forall>j < i - n. \<not> P (xs ! j))"
proof (induction xs arbitrary: n)
  case (Cons x xs)
  then show ?case
    by (cases "P x") (fastforce simp: nth_Cons' Suc_diff_le split: if_splits)+
qed simp

lemma index_from_0_Some:
  "index_from 0 P xs = Some i \<Longrightarrow> i < length xs \<and> P (xs ! i) \<and> (\<forall>j<i. \<not> P (xs ! j))"
  using index_from_Some [of 0 P xs i] by simp

lemma index_from_None: "index_from n P xs = None \<longleftrightarrow> (\<forall>x\<in>set xs. \<not> P x)"
  by (induction xs arbitrary: n) auto

lemma upd_simps [simp]:
  "fst (upd_shared f r) = fst r" "snd (upd_shared f r) = f (snd r)"
  "rg_snap (fst (upd_snap g r)) = g (rg_snap (fst r))" "snd (upd_snap g r) = snd r"
  "gs_items (rg_snap (fst (upd_item i h r))) = (items r)[i := h (items r ! i)]" "snd (upd_item i h r) = snd r"
  by (simp_all add: upd_shared_def upd_snap_def upd_item_def)

lemma items_persisted [simp]: "items (persisted env ck r) = items r"
  by (simp add: persisted_def persist_def Let_def)

lemma items_bind_task:
  "items (bind_task env ck i t r) =
     (if py_strip t = [] then items r else (items r)[i := bind_item (ck_wall ck) (py_strip t) (items r ! i)])"
  by (simp add: bind_task_def Let_def)

lemma bound_item_state:
  "i < length (items r) \<Longrightarrow> it_state (items r ! i) \<noteq> Pending \<Longrightarrow>
    it_state (items (fold (bind_task env ck i) ts r) ! i) \<noteq> Pending
    \<and> length (items (fold (bind_task env ck i) ts r)) = length (items r)
    \<and> (\<forall>j. j \<noteq> i \<longrightarrow> items (fold (bind_task env ck i) ts r) ! j = items r ! j)"
  by (induction ts arbitrary: r) (auto simp: items_bind_task bind_item_def Let_def)

lemma filter_length_less:
  assumes "length ys = length xs" and "i < length xs" and "P (xs ! i)" and "\<not> P (ys ! i)"
    and "\<And>j. j \<noteq> i \<Longrightarrow> ys ! j = xs ! j"
  shows "length (filter P ys) < length (filter P xs)"
proof -
  have "j < length xs \<and> P (xs ! j)" if "j < length ys \<and> P (ys ! j)" for j
    using assms that by (cases "j = i") auto
  then have "{j. j < length ys \<and> P (ys ! j)} \<subseteq> {j. j < length xs \<and> P (xs ! j)} - {i}"
    using assms(4) by auto
  then have "{j. j < length ys \<and> P (ys ! j)} \<subset> {j. j < length xs \<and> P (xs ! j)}"
    using assms(2,3) by auto
  then show ?thesis by (simp add: length_filter_conv_card psubset_card_mono)
qed

lemma start_domain_pending:
  assumes "first_pending r = Some i" and "start_domain env ck i r = (True, r')"
  shows "pending_count r' < pending_count r"
proof -
  have i: "i < length (items r)" "it_state (items r ! i) = Pending"
    using index_from_0_Some assms(1) unfolding first_pending_def by blast+
  have "length (items r') = length (items r) \<and> it_state (items r' ! i) \<noteq> Pending
    \<and> (\<forall>j. j \<noteq> i \<longrightarrow> items r' ! j = items r ! j)"
  proof -
    define r2 where "r2 = (let r1 = persisted env ck (upd_item i (\<lambda>it. it\<lparr>it_state := Starting, it_task := [],
                 it_next_retry := None, it_terminal := None,
                 it_started := Some (case it_started it of Some s \<Rightarrow> s | None \<Rightarrow> ck_wall ck)\<rparr>) r) in
        upd_shared (\<lambda>sh. sh\<lparr>sh_starts := sh_starts sh @ [\<lparr>sc_serial = rg_serial (fst r1),
                 sc_position = it_position (items r1 ! i), sc_domain = it_domain (items r1 ! i)\<rparr>]\<rparr>) r1)"
    have r2: "length (items r2) = length (items r)" "it_state (items r2 ! i) \<noteq> Pending"
      "\<forall>j. j \<noteq> i \<longrightarrow> items r2 ! j = items r ! j"
      using i by (simp_all add: r2_def Let_def)
    from assms(2) obtain ts t where
      "r' = (let r3 = fold (bind_task env ck i) ts r2 in
          if it_task (items r3 ! i) = [] then bind_task env ck i t r3 else r3)"
      unfolding start_domain_def r2_def Let_def by (auto split: start_result.splits)
    then have "r' = fold (bind_task env ck i) ts r2 \<or> r' = fold (bind_task env ck i) (ts @ [t]) r2"
      by (auto simp: Let_def)
    then show ?thesis
      using bound_item_state [of i r2 env ck] r2 i by metis
  qed
  then show ?thesis
    unfolding pending_count_def using i by (intro filter_length_less [where i = i]) auto
qed

function fill_loop :: "rotation_env \<Rightarrow> clock \<Rightarrow> group_run \<Rightarrow> group_run" where
  "fill_loop env ck r =
     (if gs_slots (snap r) \<le> slots_held r then r
      else case first_pending r of
             None \<Rightarrow> r
           | Some i \<Rightarrow> (case start_domain env ck i r of
                 (True, r') \<Rightarrow> fill_loop env ck r'
               | (False, r') \<Rightarrow> r'))"
  by pat_completeness auto
termination
  by (relation "measure (\<lambda>(env, ck, r). pending_count r)") (auto dest: start_domain_pending [OF _ sym])

declare fill_loop.simps [simp del]

definition fill_slots :: "rotation_env \<Rightarrow> clock \<Rightarrow> group_run \<Rightarrow> group_run" where
  "fill_slots env ck r = (if gs_state (snap r) \<noteq> Running then r else fill_loop env ck r)"

end
