(* ===== verification/RotationManager.thy ===== *)
theory RotationManager
  imports RotationOps
begin

text \<open>
  Technical retries, the quality gates, the end of a task and the manager's own
  entry points: \<open>create_group\<close>, the callbacks of the registration pipeline,
  \<open>handle_task_terminal\<close>, the retry timers, \<open>stop_group\<close>, \<open>get_group\<close> and a
  restart of the process.
\<close>

section \<open>Classifying the end of a task\<close>

record task_report =
  tk_status :: string
  tk_error :: utext
  tk_errors :: "utext list"
  tk_success :: int
  tk_skipped :: int
  tk_progress :: string

definition interrupted_text :: utext where
  "interrupted_text = [27880, 20876, 20219, 21153, 24847, 22806, 20013, 26029]"

definition abnormal_text :: utext where
  "abnormal_text = [27880, 20876, 20219, 21153, 24322, 24120, 32467, 26463]"

definition terminal_status :: "task_report \<Rightarrow> string" where
  "terminal_status tk = py_lower (py_strip (or_else (tk_status tk) ''stopped''))"

definition terminal_error :: "rotation_env \<Rightarrow> task_report \<Rightarrow> utext" where
  "terminal_error env tk =
     (case filter (\<lambda>v. v \<noteq> []) (map (\<lambda>c. u_strip (re_sanitize env c)) (tk_error tk # rev (tk_errors tk))) of
        v # vs \<Rightarrow> take 1000 v
      | [] \<Rightarrow> if terminal_status tk = ''interrupted'' then interrupted_text else abnormal_text)"

definition text_category :: "utext \<Rightarrow> failure_category option" where
  "text_category text =
     map_option fst (find (\<lambda>(c, markers). \<exists>m\<in>set markers. occurs m text) failure_categories)"

definition retryable_failure :: "string \<Rightarrow> utext \<Rightarrow> failure_category option" where
  "retryable_failure status error =
     (if status = ''interrupted'' then Some TaskInterrupted
      else let text = u_lower (u_strip error) in if text = [] then None else text_category text)"

definition progress_count :: "string \<Rightarrow> nat" where
  "progress_count text =
     (let p = py_strip text
      in if CHR ''/'' \<in> set p
         then (case parse_int (hd (split_on (CHR ''/'') p)) of None \<Rightarrow> 0 | Some i \<Rightarrow> nonneg_int i)
         else 0)"

definition has_progress :: "domain_item \<Rightarrow> task_report \<Rightarrow> bool" where
  "has_progress it tk \<longleftrightarrow>
     0 < q_decisions (it_quality it) \<or> 0 < q_registered (it_quality it)
     \<or> 0 < nonneg_int (tk_success tk) \<or> 0 < nonneg_int (tk_skipped tk)
     \<or> 0 < progress_count (tk_progress tk)"

section \<open>Technical failures and retries\<close>

definition label_text :: "failure_category \<Rightarrow> utext" where
  "label_text c =
     (case c of
        DynamicProxyUnavailable \<Rightarrow> [21160, 24577, 20195, 29702, 19981, 21487, 29992]
      | ProxyUnavailable \<Rightarrow> [20195, 29702, 36830, 25509, 24322, 24120]
      | TlsFailure \<Rightarrow> [84, 76, 83, 47, 83, 83, 76, 32, 36830, 25509, 24322, 24120]
      | NetworkFailure \<Rightarrow> [32593, 32476, 36830, 25509, 24322, 24120]
      | UpstreamUnavailable \<Rightarrow> [19978, 28216, 26381, 21153, 24322, 24120]
      | TaskTimeout \<Rightarrow> [20219, 21153, 25191, 34892, 36229, 26102]
      | BrowserDependencyUnavailable \<Rightarrow> [27983, 35272, 22120, 20381, 36182, 19981, 21487, 29992]
      | StorageTemporarilyUnavailable \<Rightarrow> [29366, 24577, 23384, 20648, 26242, 26102, 19981, 21487, 29992]
      | TaskInterrupted \<Rightarrow> interrupted_text)"

definition retry_delay_seconds :: "nat \<Rightarrow> rat" where
  "retry_delay_seconds retry_count =
     technical_retry_backoff ! min (max 1 retry_count - 1) (length technical_retry_backoff - 1)"

definition recent_events ::
  "rat \<Rightarrow> time \<Rightarrow> (time \<times> failure_category \<times> nat) list \<Rightarrow> (time \<times> failure_category \<times> nat) list" where
  "recent_events window now evs = filter (\<lambda>(t, c, p). now - t \<le> window) evs"

definition event_domains :: "failure_category \<Rightarrow> (time \<times> failure_category \<times> nat) list \<Rightarrow> nat" where
  "event_domains code evs = length (remdups (map (\<lambda>(t, c, p). p) (filter (\<lambda>(t, c, p). c = code) evs)))"

definition keep_last :: "nat \<Rightarrow> 'a list \<Rightarrow> 'a list" where
  "keep_last n xs = drop (length xs - n) xs"

definition circuit_window :: "rotation_policy \<Rightarrow> rat" where
  "circuit_window p = max (rp_circuit_window p) 1"

definition record_technical_failure ::
  "clock \<Rightarrow> nat \<Rightarrow> string \<Rightarrow> failure_category \<Rightarrow> utext \<Rightarrow> group_run \<Rightarrow> nat \<times> group_run" where
  "record_technical_failure ck i task code error r =
     (let it = items r ! i;
          evs = recent_events (circuit_window (gs_policy (snap r))) (ck_mono ck) (rg_events (fst r))
                  @ [(ck_mono ck, code, it_position it)];
          ev = \<lparr>te_domain = it_domain it, te_position = it_position it, te_task = task,
                te_attempt = max 1 (it_attempt_count it), te_code = code,
                te_message = take 1000 (if error = [] then label_text code else error),
                te_occurred = ck_wall ck\<rparr>
      in (event_domains code evs,
          upd_snap (\<lambda>s. s\<lparr>gs_technical := keep_last 20 (gs_technical s @ [ev])\<rparr>)
            (fst r\<lparr>rg_events := evs\<rparr>, snd r)))"

definition mark_recovery :: "clock \<Rightarrow> nat \<Rightarrow> group_run \<Rightarrow> group_run" where
  "mark_recovery ck i r =
     (let p = it_position (items r ! i)
      in upd_item i (\<lambda>it. it\<lparr>it_technical := map_option (\<lambda>f. if tf_recovered f = None
              then f\<lparr>tf_recovered := Some (ck_wall ck)\<rparr> else f) (it_technical it)\<rparr>)
           (fst r\<lparr>rg_events := filter (\<lambda>(t, c, q). q \<noteq> p) (rg_events (fst r))\<rparr>, snd r))"

definition failed_item ::
  "clock \<Rightarrow> failure_category \<Rightarrow> utext \<Rightarrow> domain_item \<Rightarrow> domain_item" where
  "failed_item ck code error it =
     it\<lparr>it_state := TechnicalFailed, it_error := error,
        it_technical := Some \<lparr>tf_code = code, tf_message = error, tf_retry_count = it_retry_count it,
          tf_retry_limit = it_retry_limit it, tf_retry_at = None, tf_occurred = ck_wall ck,
          tf_recovered = None\<rparr>\<rparr>"

definition waiting_item ::
  "clock \<Rightarrow> failure_category \<Rightarrow> utext \<Rightarrow> domain_item \<Rightarrow> domain_item" where
  "waiting_item ck code error it =
     (let n = it_retry_count it + 1; due = ck_wall ck + retry_delay_seconds n
      in it\<lparr>it_state := RetryWait, it_retry_count := n, it_error := error, it_terminal := None,
            it_next_retry := Some due,
            it_technical := Some \<lparr>tf_code = code, tf_message = error, tf_retry_count = n,
              tf_retry_limit = it_retry_limit it, tf_retry_at = Some due, tf_occurred = ck_wall ck,
              tf_recovered = None\<rparr>\<rparr>)"

text \<open>Handing the callback to the scheduler: a timer, or the exception it raised.\<close>

definition schedule_timer :: "rotation_env \<Rightarrow> clock \<Rightarrow> nat \<Rightarrow> group_run \<Rightarrow> group_run" where
  "schedule_timer env ck i r =
     (let it = items r ! i; n = sh_scheduled (snd r);
          r1 = upd_shared (\<lambda>sh. sh\<lparr>sh_scheduled := n + 1\<rparr>) r
      in case re_schedule env n of
           None \<Rightarrow> (fst r1\<lparr>rg_handles := dict_set (it_position it) n (rg_handles (fst r1))\<rparr>,
                    snd r1\<lparr>sh_timers := sh_timers (snd r1) @ [\<lparr>rt_number = n, rt_group = gs_id (snap r),
                      rt_serial = rg_serial (fst r), rt_position = it_position it,
                      rt_retry = it_retry_count it,
                      rt_delay = retry_delay_seconds (it_retry_count it)\<rparr>]\<rparr>)
         | Some e \<Rightarrow> begin_group_failure env ck i TechnicalRetryScheduleFailed
             (upd_item i (\<lambda>it. it\<lparr>it_state := TechnicalFailed,
                it_error := take 1000 (re_sanitize env e), it_next_retry := None\<rparr>) r1))"

definition schedule_technical_retry ::
  "rotation_env \<Rightarrow> clock \<Rightarrow> nat \<Rightarrow> string \<Rightarrow> failure_category \<Rightarrow> utext \<Rightarrow> group_run \<Rightarrow> group_run" where
  "schedule_technical_retry env ck i task code error r =
     (let limit = rp_retry_limit (gs_policy (snap r));
          (domains, r1) = record_technical_failure ck i task code error
             (upd_item i (\<lambda>it. it\<lparr>it_retry_limit := limit\<rparr>) r);
          n = it_retry_count (items r1 ! i)
      in if rp_circuit_domains (gs_policy (snap r)) \<le> domains
         then begin_group_failure env ck i (TechnicalCircuitOpen domains code)
                (upd_item i (failed_item ck code error) r1)
         else if limit \<le> n
         then begin_group_failure env ck i (TechnicalRetryExhausted code n)
                (upd_item i (failed_item ck code error) r1)
         else schedule_timer env ck i
                (persisted env ck (upd_item i (waiting_item ck code error) r1)))"

section \<open>The quality gates\<close>

definition trigger_quality_stop ::
  "rotation_env \<Rightarrow> clock \<Rightarrow> nat \<Rightarrow> quality_code \<Rightarrow> group_run \<Rightarrow> group_run" where
  "trigger_quality_stop env ck i code r =
     (let it = items r ! i
      in if it_state it \<noteq> Active \<or> it_task it = [] then r
         else upd_shared (request_drain env (it_task it) AfterCurrent (ForQuality code))
           (persisted env ck (upd_item i (\<lambda>it. it\<lparr>it_state := Draining,
              it_trigger := Some \<lparr>qt_code = code, qt_at = ck_wall ck\<rparr>\<rparr>) r)))"

text \<open>\<open>round(q, 1)\<close> rounds half to even.\<close>

definition round_tenth :: "rat \<Rightarrow> rat" where
  "round_tenth q =
     (let n = \<lfloor>10 * q\<rfloor>; d = 10 * q - of_int n
      in (if d < 1 / 2 \<or> (d = 1 / 2 \<and> even n) then of_int n else of_int (n + 1)) / 10)"

datatype decision = Accepted | Disallowed

definition parse_decision :: "string \<Rightarrow> decision option" where
  "parse_decision text =
     (let d = py_lower (py_strip text)
      in if d = ''accepted'' then Some Accepted
         else if d = ''registration_disallowed'' then Some Disallowed else None)"

definition rejection_rate :: "nat \<Rightarrow> nat \<Rightarrow> rat" where
  "rejection_rate disallowed decisions =
     (if decisions = 0 then 0 else 100 * of_nat disallowed / of_nat decisions)"

definition count_decision :: "decision \<Rightarrow> domain_quality \<Rightarrow> domain_quality" where
  "count_decision d q =
     (let n = q_decisions q + 1;
          a = q_accepted q + (if d = Accepted then 1 else 0);
          b = q_disallowed q + (if d = Disallowed then 1 else 0)
      in q\<lparr>q_decisions := n, q_accepted := a, q_disallowed := b,
           q_rejection_rate := round_tenth (rejection_rate b n)\<rparr>)"

definition too_many_rejections :: "rotation_policy \<Rightarrow> domain_quality \<Rightarrow> bool" where
  "too_many_rejections p q \<longleftrightarrow>
     rp_min_samples p \<le> q_decisions q
     \<and> rp_rejection_threshold p < rejection_rate (q_disallowed q) (q_decisions q)"

definition registration_result ::
  "rotation_env \<Rightarrow> clock \<Rightarrow> nat \<Rightarrow> decision \<Rightarrow> group_run \<Rightarrow> group_run" where
  "registration_result env ck i d r =
     (let r1 = persisted env ck (upd_item i (\<lambda>it. it\<lparr>it_quality := count_decision d (it_quality it)\<rparr>)
                 (mark_recovery ck i r));
          q = it_quality (items r1 ! i); p = gs_policy (snap r1)
      in if too_many_rejections p q
         then trigger_quality_stop env ck i (RejectionRateExceeded (q_disallowed q) (q_decisions q)
                (rp_rejection_threshold p) (rp_min_samples p)) r1
         else r1)"

definition ledger_at :: "nat \<Rightarrow> runtime_group \<Rightarrow> (nat, ledger_account) dict" where
  "ledger_at p g = (case dict_get (rg_ledgers g) p of None \<Rightarrow> [] | Some l \<Rightarrow> l)"

definition ledger :: "nat \<Rightarrow> group_run \<Rightarrow> (nat, ledger_account) dict" where
  "ledger i r = ledger_at (it_position (items r ! i)) (fst r)"

definition set_ledger :: "nat \<Rightarrow> (nat, ledger_account) dict \<Rightarrow> group_run \<Rightarrow> group_run" where
  "set_ledger i l r =
     (fst r\<lparr>rg_ledgers := dict_set (it_position (items r ! i)) l (rg_ledgers (fst r))\<rparr>, snd r)"

definition ledger_order :: "(nat, ledger_account) dict \<Rightarrow> ledger_account list" where
  "ledger_order l =
     sort_key la_order (sort_key la_id (map snd l))"

definition miss_streak :: "ledger_account list \<Rightarrow> nat" where
  "miss_streak as =
     length (takeWhile (\<lambda>s. s \<noteq> LinkSuccess)
       (rev (filter (\<lambda>s. s = LinkSuccess \<or> s = LinkMiss) (map la_state as))))"

definition count_state :: "link_state \<Rightarrow> ledger_account list \<Rightarrow> nat" where
  "count_state s as = length (filter (\<lambda>a. la_state a = s) as)"

definition recompute_link_quality :: "nat \<Rightarrow> group_run \<Rightarrow> group_run" where
  "recompute_link_quality i r =
     (let as = ledger_order (ledger i r)
      in upd_item i (\<lambda>it. it\<lparr>it_quality := (it_quality it)\<lparr>
           q_registered := length as, q_link_success := count_state LinkSuccess as,
           q_link_miss := count_state LinkMiss as, q_link_neutral := count_state LinkNeutral as,
           q_link_pending := count_state LinkPending as + count_state AwaitingLink as,
           q_miss_streak := miss_streak as\<rparr>\<rparr>) r)"

definition registered_account ::
  "rotation_env \<Rightarrow> clock \<Rightarrow> nat \<Rightarrow> nat \<Rightarrow> int \<Rightarrow> group_run \<Rightarrow> group_run" where
  "registered_account env ck i account order r =
     (let r1 = mark_recovery ck i r; l = ledger i r1;
          l' = (if dict_get l account = None
                then dict_set account \<lparr>la_id = account, la_order = positive_int order 1,
                       la_state = LinkPending, la_reason = ''registration_succeeded'',
                       la_updated = ck_wall ck\<rparr> l
                else l)
      in persisted env ck (recompute_link_quality i (set_ledger i l' r1)))"

definition set_outcome :: "clock \<Rightarrow> link_state \<Rightarrow> string \<Rightarrow> ledger_account \<Rightarrow> ledger_account" where
  "set_outcome ck s reason a = a\<lparr>la_state := s, la_reason := take 128 reason, la_updated := ck_wall ck\<rparr>"

definition too_many_misses :: "rotation_policy \<Rightarrow> domain_quality \<Rightarrow> bool" where
  "too_many_misses p q \<longleftrightarrow> rp_streak_threshold p \<le> q_miss_streak q"

definition after_link_outcome :: "rotation_env \<Rightarrow> clock \<Rightarrow> nat \<Rightarrow> group_run \<Rightarrow> group_run" where
  "after_link_outcome env ck i r =
     (let r1 = persisted env ck (recompute_link_quality i r);
          q = it_quality (items r1 ! i); p = gs_policy (snap r1)
      in if too_many_misses p q
         then trigger_quality_stop env ck i (NoPaymentLinkStreak (q_miss_streak q) (rp_streak_threshold p)) r1
         else r1)"

text \<open>
  A result of the eligibility probe or of the link extraction: the account it
  names, its normalised state and reason, and its message.
\<close>

record link_report =
  lr_account :: int
  lr_state :: string
  lr_reason :: string
  lr_message :: utext

definition eligibility_change :: "string \<Rightarrow> link_state \<Rightarrow> link_state option" where
  "eligibility_change state current =
     (if state = ''eligible''
      then (if current \<in> {LinkPending, AwaitingLink} then Some AwaitingLink else None)
      else if state = ''ineligible''
      then (if current \<noteq> LinkSuccess then Some LinkMiss else None)
      else if state = ''probe_failed'' \<or> state = ''skipped''
      then (if current \<notin> {LinkSuccess, LinkMiss} then Some LinkNeutral else None)
      else if current \<notin> {LinkSuccess, LinkMiss, LinkNeutral} then Some LinkPending else None)"

definition technical_link_failure :: "string \<Rightarrow> utext \<Rightarrow> bool" where
  "technical_link_failure reason message \<longleftrightarrow>
     py_lower (py_strip reason) \<in> set technical_link_reason_codes
     \<or> (\<exists>m\<in>set technical_link_message_markers. occurs m (u_lower (u_strip message)))"

definition link_change :: "string \<Rightarrow> string \<Rightarrow> utext \<Rightarrow> link_state \<Rightarrow> link_state option" where
  "link_change state reason message current =
     (if state \<in> {''link_succeeded'', ''submitted'', ''submit_failed''} then Some LinkSuccess
      else if state = ''extract_failed'' \<and> current \<noteq> LinkSuccess
      then Some (if technical_link_failure reason message then LinkNeutral else LinkMiss)
      else if state = ''pending_auth'' \<and> current \<notin> {LinkSuccess, LinkMiss, LinkNeutral}
      then Some LinkPending
      else if current \<notin> {LinkSuccess, LinkMiss} then Some LinkNeutral else None)"

definition apply_outcome ::
  "rotation_env \<Rightarrow> clock \<Rightarrow> nat \<Rightarrow> nat \<Rightarrow> string \<Rightarrow> (link_state \<Rightarrow> link_state option) \<Rightarrow>
     group_run \<Rightarrow> group_run" where
  "apply_outcome env ck i account reason change r =
     (case dict_get (ledger i r) account of
        None \<Rightarrow> r
      | Some a \<Rightarrow> after_link_outcome env ck i
          (case change (la_state a) of
             None \<Rightarrow> r
           | Some s \<Rightarrow> set_ledger i (dict_set account (set_outcome ck s reason a) (ledger i r)) r))"

section \<open>The end of a task\<close>

definition end_attempt :: "clock \<Rightarrow> string \<Rightarrow> domain_state \<Rightarrow> utext \<Rightarrow> domain_item \<Rightarrow> domain_item" where
  "end_attempt ck t s error it =
     (case index_from 0 (\<lambda>a. at_task a = t) (it_attempts it) of
        None \<Rightarrow> it
      | Some k \<Rightarrow> it\<lparr>it_attempts := (it_attempts it)[k := (it_attempts it ! k)\<lparr>at_state := s,
                     at_error := take 1000 error, at_terminal := Some (ck_wall ck)\<rparr>]\<rparr>)"

definition end_state :: "group_state \<Rightarrow> string \<Rightarrow> domain_item \<Rightarrow> domain_state" where
  "end_state gstate status it =
     (if it_trigger it \<noteq> None then QualityRejected
      else if gstate = Stopping then DomainStopped
      else if status = ''done'' then Completed
      else if status = ''failed'' then DomainFailed
      else if status = ''interrupted'' then DomainInterrupted
      else DomainStopped)"

definition drop_ledger :: "nat \<Rightarrow> group_run \<Rightarrow> group_run" where
  "drop_ledger i r =
     (fst r\<lparr>rg_ledgers := dict_pop (it_position (items r ! i)) (rg_ledgers (fst r))\<rparr>, snd r)"

definition task_ended ::
  "rotation_env \<Rightarrow> clock \<Rightarrow> nat \<Rightarrow> string \<Rightarrow> task_report \<Rightarrow> group_run \<Rightarrow> bool \<times> group_run" where
  "task_ended env ck i t tk r0 =
     (let r = upd_shared (\<lambda>sh. sh\<lparr>sh_tasks := dict_pop t (sh_tasks sh)\<rparr>) r0;
          it = items r ! i; gstate = gs_state (snap r); status = terminal_status tk;
          error = terminal_error env tk; retryable = retryable_failure status error;
          progress = has_progress it tk;
          abnormal = (status = ''failed'' \<or> status = ''interrupted'')
      in if abnormal \<and> it_trigger it = None \<and> gstate = Running \<and> retryable \<noteq> None \<and> \<not> progress
         then let r1 = upd_item i (\<lambda>it. (end_attempt ck t TechnicalFailed error it)
                        \<lparr>it_terminal := Some (ck_wall ck)\<rparr>) r;
                  r2 = schedule_technical_retry env ck i t (the retryable) error r1;
                  r3 = (if it_state (items r2 ! i) \<noteq> RetryWait then drop_ledger i r2 else r2)
              in finalize_if_idle env ck (fill_slots env ck (persisted env ck r3))
         else let s = end_state gstate status it;
                  plain = (it_trigger it = None \<and> gstate \<noteq> Stopping \<and> gstate \<noteq> Failing);
                  r1 = upd_item i (\<lambda>it. it\<lparr>it_state := s\<rparr>) r;
                  r2 = (if plain \<and> status = ''done'' then mark_recovery ck i r1 else r1);
                  r3 = upd_item i (\<lambda>it. end_attempt ck t s (if abnormal then error else [])
                         (it\<lparr>it_error := (if plain \<and> abnormal then error else it_error it),
                             it_terminal := Some (ck_wall ck), it_next_retry := None\<rparr>)) r2;
                  r4 = drop_ledger i r3;
                  r5 = (if abnormal \<and> it_trigger it = None \<and> gstate = Running
                        then begin_group_failure env ck i
                          (case retryable of
                             Some code \<Rightarrow> if progress then TechnicalFailureAfterProgress code
                               else if status = ''interrupted'' then DomainTaskInterrupted
                               else DomainTaskFailed
                           | None \<Rightarrow> if status = ''interrupted'' then DomainTaskInterrupted
                               else DomainTaskFailed) r4
                        else r4)
              in finalize_if_idle env ck (fill_slots env ck (persisted env ck r5)))"

end
