(* ===== verification/RotationMachine.thy ===== *)
theory RotationMachine
  imports RotationManager
begin

text \<open>
  The manager's entry points, each under its lock and therefore one step, and the
  machine whose events are the calls of those entry points, the retry timers that
  come due and restarts of the process.
\<close>

section \<open>Looking up and putting back\<close>

text \<open>The group object lives in the manager's index; \<open>finalize\<close> may take it out.\<close>

definition put_group :: "string \<Rightarrow> group_run \<Rightarrow> manager \<Rightarrow> manager" where
  "put_group gid r m = m\<lparr>mg_groups := dict_set gid (fst r) (mg_groups m), mg_shared := snd r\<rparr>"

definition settle_group :: "string \<Rightarrow> bool \<times> group_run \<Rightarrow> manager \<Rightarrow> manager" where
  "settle_group gid br m =
     (if fst br then m\<lparr>mg_groups := dict_pop gid (mg_groups m), mg_shared := snd (snd br)\<rparr>
      else put_group gid (snd br) m)"

definition resolve_task :: "string \<Rightarrow> manager \<Rightarrow> (string \<times> group_run \<times> nat) option" where
  "resolve_task task m =
     (case dict_get (sh_tasks (mg_shared m)) (py_strip task) of
        None \<Rightarrow> None
      | Some (gid, p) \<Rightarrow>
          (case dict_get (mg_groups m) gid of
             None \<Rightarrow> None
           | Some g \<Rightarrow>
               (case item_for_position p (g, mg_shared m) of
                  None \<Rightarrow> None
                | Some i \<Rightarrow> Some (gid, (g, mg_shared m), i))))"

section \<open>Creating a group\<close>

record group_request =
  gq_id :: string
  gq_domains :: "string list"
  gq_count :: int
  gq_concurrency :: int
  gq_slots :: int
  gq_threshold :: rat
  gq_min_samples :: int
  gq_streak :: int

datatype create_error = MissingInput | AlreadyExists | NotPersisted

definition normalize_domain :: "string \<Rightarrow> string" where
  "normalize_domain d =
     dropWhile (\<lambda>c. c = CHR ''@'' \<or> c = CHR ''.'') (py_lower (py_strip d))"

definition normalize_domains :: "string list \<Rightarrow> string list" where
  "normalize_domains ds =
     fold (\<lambda>d acc. let n = normalize_domain d in if n = [] \<or> n \<in> set acc then acc else acc @ [n]) ds []"

definition new_item :: "nat \<Rightarrow> string \<Rightarrow> domain_item" where
  "new_item p d = \<lparr>it_domain = d, it_position = p, it_state = Pending, it_task = [],
     it_quality = new_quality, it_trigger = None, it_error = [], it_attempts = [],
     it_attempt_count = 0, it_retry_count = 0, it_retry_limit = technical_retry_limit,
     it_next_retry = None, it_technical = None, it_started = None, it_terminal = None\<rparr>"

definition new_policy :: "group_request \<Rightarrow> rotation_policy" where
  "new_policy q = \<lparr>rp_rejection_threshold = min (max (gq_threshold q) 0) 100,
     rp_min_samples = positive_int (gq_min_samples q) 10,
     rp_streak_threshold = positive_int (gq_streak q) 10,
     rp_retry_limit = technical_retry_limit, rp_backoff = technical_retry_backoff,
     rp_circuit_domains = circuit_distinct_domains, rp_circuit_window = circuit_window_seconds\<rparr>"

definition new_snapshot :: "clock \<Rightarrow> group_request \<Rightarrow> string \<Rightarrow> string list \<Rightarrow> group_snapshot" where
  "new_snapshot ck q gid ds = \<lparr>gs_id = gid, gs_state = Running, gs_domain_count = length ds,
     gs_count_per_task = positive_int (gq_count q) 1,
     gs_concurrency_per_task = positive_int (gq_concurrency q) 1,
     gs_slots = min (positive_int (gq_slots q) 1) (length ds), gs_policy = new_policy q,
     gs_items = map (\<lambda>i. new_item (i + 1) (ds ! i)) [0..<length ds],
     gs_failure = None, gs_technical = [], gs_stop_reason = NoStopText,
     gs_created = ck_wall ck, gs_updated = ck_wall ck, gs_finished = None\<rparr>"

definition new_group :: "nat \<Rightarrow> group_snapshot \<Rightarrow> runtime_group" where
  "new_group n s = \<lparr>rg_serial = n, rg_snap = s, rg_template = True, rg_ledgers = [],
     rg_handles = [], rg_events = []\<rparr>"

definition create_group ::
  "rotation_env \<Rightarrow> clock \<Rightarrow> group_request \<Rightarrow> manager \<Rightarrow> (create_error + group_snapshot) \<times> manager" where
  "create_group env ck q m =
     (let gid = py_strip (gq_id q); ds = normalize_domains (gq_domains q)
      in if gid = [] \<or> ds = [] then (Inl MissingInput, m)
         else if dict_get (mg_groups m) gid \<noteq> None then (Inl AlreadyExists, m)
         else (let (ok, r) = persist env ck
                     (new_group (mg_serials m) (new_snapshot ck q gid ds), mg_shared m);
                   m1 = m\<lparr>mg_serials := mg_serials m + 1\<rparr>
               in if \<not> ok then (Inl NotPersisted, m1\<lparr>mg_shared := snd r\<rparr>)
                  else (let br = finalize_if_idle env ck (fill_slots env ck r)
                        in (Inr (snap (snd br)), settle_group gid br m1))))"

section \<open>The callbacks of the registration pipeline\<close>

definition on_task ::
  "string \<Rightarrow> (nat \<Rightarrow> group_run \<Rightarrow> bool \<times> group_run) \<Rightarrow> manager \<Rightarrow> manager" where
  "on_task task f m =
     (case resolve_task task m of
        None \<Rightarrow> m
      | Some (gid, r, i) \<Rightarrow> settle_group gid (f i r) m)"

definition record_registration_result ::
  "rotation_env \<Rightarrow> clock \<Rightarrow> string \<Rightarrow> string \<Rightarrow> manager \<Rightarrow> manager" where
  "record_registration_result env ck task text m =
     (case parse_decision text of
        None \<Rightarrow> m
      | Some d \<Rightarrow> on_task task (\<lambda>i r. (False, registration_result env ck i d r)) m)"

definition record_registered_account ::
  "rotation_env \<Rightarrow> clock \<Rightarrow> string \<Rightarrow> int \<Rightarrow> int \<Rightarrow> manager \<Rightarrow> manager" where
  "record_registered_account env ck task account order m =
     (if positive_int account 0 = 0 then m
      else on_task task
        (\<lambda>i r. (False, registered_account env ck i (positive_int account 0) order r)) m)"

definition record_eligibility_result ::
  "rotation_env \<Rightarrow> clock \<Rightarrow> string \<Rightarrow> link_report \<Rightarrow> manager \<Rightarrow> manager" where
  "record_eligibility_result env ck task lr m =
     (let state = py_lower (py_strip (or_else (lr_state lr) ''probe_failed''));
          reason = py_lower (py_strip (or_else (lr_reason lr) state))
      in if positive_int (lr_account lr) 0 = 0 then m
         else on_task task (\<lambda>i r. (False, apply_outcome env ck i (positive_int (lr_account lr) 0)
                reason (eligibility_change state) r)) m)"

definition record_link_result ::
  "rotation_env \<Rightarrow> clock \<Rightarrow> string \<Rightarrow> link_report \<Rightarrow> manager \<Rightarrow> manager" where
  "record_link_result env ck task lr m =
     (let state = py_lower (py_strip (lr_state lr));
          reason = py_lower (py_strip (or_else (lr_reason lr) state))
      in if positive_int (lr_account lr) 0 = 0 then m
         else on_task task (\<lambda>i r. (False, apply_outcome env ck i (positive_int (lr_account lr) 0)
                reason (link_change state reason (lr_message lr)) r)) m)"

definition handle_task_terminal ::
  "rotation_env \<Rightarrow> clock \<Rightarrow> string \<Rightarrow> task_report \<Rightarrow> manager \<Rightarrow> manager" where
  "handle_task_terminal env ck task tk m =
     on_task task (\<lambda>i r. task_ended env ck i (py_strip task) tk r) m"

section \<open>Retry timers\<close>

text \<open>
  A timer's callback runs at most once. A cancelled timer may still run: its
  callback can already be waiting for the lock when it is cancelled.
\<close>

definition retry_item :: "domain_item \<Rightarrow> domain_item" where
  "retry_item it = it\<lparr>it_state := Pending, it_task := [], it_next_retry := None\<rparr>"

definition retry_due :: "retry_timer \<Rightarrow> nat \<Rightarrow> group_run \<Rightarrow> bool" where
  "retry_due t i r \<longleftrightarrow> gs_state (snap r) = Running \<and> it_state (items r ! i) = RetryWait
     \<and> it_retry_count (items r ! i) = rt_retry t"

definition retry_callback :: "rotation_env \<Rightarrow> clock \<Rightarrow> retry_timer \<Rightarrow> manager \<Rightarrow> manager" where
  "retry_callback env ck t m =
     (case dict_get (mg_groups m) (rt_group t) of
        None \<Rightarrow> m
      | Some g \<Rightarrow>
          if rg_serial g \<noteq> rt_serial t then m
          else (let r = cancel_handle (rt_position t) (g, mg_shared m)
                in case item_for_position (rt_position t) r of
                     None \<Rightarrow> put_group (rt_group t) r m
                   | Some i \<Rightarrow>
                       if \<not> retry_due t i r then put_group (rt_group t) r m
                       else settle_group (rt_group t)
                         (finalize_if_idle env ck (persisted env ck (fill_slots env ck
                            (persisted env ck (upd_item i retry_item r))))) m))"

definition timer_fires :: "rotation_env \<Rightarrow> clock \<Rightarrow> nat \<Rightarrow> manager \<Rightarrow> manager" where
  "timer_fires env ck n m =
     (case find (\<lambda>t. rt_number t = n) (sh_timers (mg_shared m)) of
        None \<Rightarrow> m
      | Some t \<Rightarrow> retry_callback env ck t
          (m\<lparr>mg_shared := (mg_shared m)\<lparr>sh_timers :=
               filter (\<lambda>t. rt_number t \<noteq> n) (sh_timers (mg_shared m))\<rparr>\<rparr>))"

section \<open>Stopping, reading and restarting\<close>

definition default_stop_text :: utext where
  "default_stop_text = [29992, 25143, 20572, 27490, 22495, 21517, 36718, 25442, 20219, 21153, 32452]"

definition stop_item ::
  "rotation_env \<Rightarrow> clock \<Rightarrow> stop_mode \<Rightarrow> nat \<Rightarrow> domain_item \<Rightarrow> shared \<Rightarrow> domain_item \<times> shared" where
  "stop_item env ck mode n it sh =
     (if it_state it = Pending
      then (it\<lparr>it_state := Cancelled, it_terminal := Some (ck_wall ck)\<rparr>, sh)
      else if it_state it = RetryWait
      then (it\<lparr>it_state := DomainStopped, it_next_retry := None, it_terminal := Some (ck_wall ck)\<rparr>, sh)
      else drain_item env ck mode ForGroupStop it sh)"

definition stop_group ::
  "rotation_env \<Rightarrow> clock \<Rightarrow> string \<Rightarrow> string \<Rightarrow> utext \<Rightarrow> manager \<Rightarrow> group_snapshot option \<times> manager" where
  "stop_group env ck group_id mode reason m =
     (let gid = py_strip group_id;
          how = (if mode = ''immediate'' then Immediate else AfterCurrent)
      in case dict_get (mg_groups m) gid of
           None \<Rightarrow> (dict_get (sh_stored (mg_shared m)) gid, m)
         | Some g \<Rightarrow>
             if group_over (gs_state (rg_snap g)) then (Some (rg_snap g), m)
             else (let r1 = upd_snap (\<lambda>s. s\<lparr>gs_state := Stopping, gs_stop_reason :=
                          UserText (take 1000 (if reason = [] then default_stop_text else reason))\<rparr>)
                          (g, mg_shared m);
                       br = finalize_if_idle env ck (persisted env ck
                              (over_items (stop_item env ck how) (cancel_all_handles r1)))
                   in (Some (snap (snd br)), settle_group gid br m)))"

definition get_group ::
  "rotation_env \<Rightarrow> clock \<Rightarrow> string \<Rightarrow> manager \<Rightarrow> group_snapshot option \<times> manager" where
  "get_group env ck group_id m =
     (let gid = py_strip group_id
      in case dict_get (mg_groups m) gid of
           None \<Rightarrow> (dict_get (sh_stored (mg_shared m)) gid, m)
         | Some g \<Rightarrow>
             (Some (rg_snap g),
              if group_over (gs_state (rg_snap g))
              then (let (ok, r) = persist env ck (g, mg_shared m)
                    in settle_group gid (if ok then (True, retire_runtime r) else (False, r)) m)
              else m))"

definition interrupt_item :: "time \<Rightarrow> domain_item \<Rightarrow> domain_item" where
  "interrupt_item now it =
     (if holds_slot (it_state it)
      then it\<lparr>it_state := DomainInterrupted, it_terminal := Some now\<rparr> else it)"

definition interrupt_snapshot :: "time \<Rightarrow> group_snapshot \<Rightarrow> group_snapshot" where
  "interrupt_snapshot now s =
     s\<lparr>gs_state := GroupInterrupted, gs_stop_reason := RestartText, gs_updated := now,
       gs_finished := Some now, gs_items := map (interrupt_item now) (gs_items s)\<rparr>"

definition mark_stale_interrupted ::
  "time \<Rightarrow> (string, group_snapshot) dict \<Rightarrow> nat \<times> (string, group_snapshot) dict" where
  "mark_stale_interrupted now stored =
     (length (filter (\<lambda>(g, s). \<not> group_over (gs_state s)) stored),
      map (\<lambda>(g, s). (g, if group_over (gs_state s) then s else interrupt_snapshot now s)) stored)"

definition restart :: "clock \<Rightarrow> manager \<Rightarrow> manager" where
  "restart ck m =
     m\<lparr>mg_groups := [], mg_shared := (mg_shared m)\<lparr>sh_tasks := [], sh_timers := [],
         sh_stored := snd (mark_stale_interrupted (ck_wall ck) (sh_stored (mg_shared m)))\<rparr>\<rparr>"

section \<open>The machine\<close>

datatype rotation_event =
    EvCreate group_request
  | EvRegistration string string
  | EvAccount string int int
  | EvEligibility string link_report
  | EvLink string link_report
  | EvTerminal string task_report
  | EvTimer nat
  | EvStop string string utext
  | EvGet string
  | EvRestart

fun rotation_step :: "rotation_env \<Rightarrow> clock \<times> rotation_event \<Rightarrow> manager \<Rightarrow> manager" where
  "rotation_step env (ck, EvCreate q) m = snd (create_group env ck q m)"
| "rotation_step env (ck, EvRegistration t d) m = record_registration_result env ck t d m"
| "rotation_step env (ck, EvAccount t a k) m = record_registered_account env ck t a k m"
| "rotation_step env (ck, EvEligibility t lr) m = record_eligibility_result env ck t lr m"
| "rotation_step env (ck, EvLink t lr) m = record_link_result env ck t lr m"
| "rotation_step env (ck, EvTerminal t tk) m = handle_task_terminal env ck t tk m"
| "rotation_step env (ck, EvTimer n) m = timer_fires env ck n m"
| "rotation_step env (ck, EvStop g mode why) m = snd (stop_group env ck g mode why m)"
| "rotation_step env (ck, EvGet g) m = snd (get_group env ck g m)"
| "rotation_step env (ck, EvRestart) m = restart ck m"

definition rotation_run ::
  "rotation_env \<Rightarrow> (clock \<times> rotation_event) list \<Rightarrow> manager \<Rightarrow> manager" where
  "rotation_run env evs m = fold (rotation_step env) evs m"

end
