(* ===== verification/RotationProofs.thy ===== *)
theory RotationProofs
  imports RotationMachine
begin

text \<open>
  What each operation on a group does to the part of the state the guarantees
  are about, under the behaviour of the start callback that \<open>fresh_starts\<close>
  states: the callback names every task it starts by an identifier of its own.
  \<open>group_ok\<close> is the invariant of one group beside the shared part, \<open>moves\<close> is
  what every operation may change of both.
\<close>

section \<open>The start callback\<close>

text \<open>
  \<open>enqueue_register_task\<close> makes a new task identifier for every call, binds it
  before the worker starts, and returns it.
\<close>

definition fresh_starts :: "rotation_env \<Rightarrow> (nat \<Rightarrow> string) \<Rightarrow> bool" where
  "fresh_starts env tid \<longleftrightarrow> inj tid \<and>
     (\<forall>n. tid n \<noteq> [] \<and> py_strip (tid n) = tid n \<and> (\<forall>b\<in>set (so_bound (re_start env n)). py_strip b = tid n)
        \<and> (\<forall>t. so_result (re_start env n) = Returned t \<longrightarrow> py_strip t = tid n))"

section \<open>The invariant of a group\<close>

definition starts_of :: "nat \<Rightarrow> nat \<Rightarrow> shared \<Rightarrow> nat" where
  "starts_of s p sh = length (filter (\<lambda>c. sc_serial c = s \<and> sc_position c = p) (sh_starts sh))"

definition untouched :: "domain_item \<Rightarrow> bool" where
  "untouched it \<longleftrightarrow> it_trigger it = None \<and> q_decisions (it_quality it) = 0
     \<and> q_registered (it_quality it) = 0"

definition mapped :: "group_run \<Rightarrow> domain_item \<Rightarrow> bool" where
  "mapped r it \<longleftrightarrow> it_task it \<noteq> []
     \<and> dict_get (sh_tasks (snd r)) (it_task it) = Some (gs_id (snap r), it_position it)"

definition good_quality :: "rotation_policy \<Rightarrow> domain_quality \<Rightarrow> bool" where
  "good_quality p q \<longleftrightarrow> \<not> too_many_rejections p q \<and> \<not> too_many_misses p q"

definition waiting :: "domain_state \<Rightarrow> bool" where
  "waiting s \<longleftrightarrow> s = Pending \<or> s = RetryWait"

text \<open>The quality counters of a domain in use agree with the ledger of its accounts.\<close>

definition ledger_sound :: "group_run \<Rightarrow> domain_item \<Rightarrow> bool" where
  "ledger_sound r it \<longleftrightarrow>
     (let as = ledger_order (ledger_at (it_position it) (fst r))
      in q_registered (it_quality it) = length as \<and> q_miss_streak (it_quality it) = miss_streak as)"

fun state_ok :: "group_run \<Rightarrow> domain_item \<Rightarrow> domain_state \<Rightarrow> bool" where
  "state_ok r it Pending = (gs_state (snap r) = Running \<and> untouched it \<and> ledger_sound r it)"
| "state_ok r it Starting = False"
| "state_ok r it RetryWait = (gs_state (snap r) = Running \<and> untouched it \<and> ledger_sound r it
     \<and> dict_get (rg_handles (fst r)) (it_position it) \<noteq> None)"
| "state_ok r it Active = (gs_state (snap r) = Running \<and> mapped r it \<and> it_trigger it = None
     \<and> ledger_sound r it \<and> good_quality (gs_policy (snap r)) (it_quality it))"
| "state_ok r it Draining = (\<not> group_over (gs_state (snap r)) \<and> mapped r it
     \<and> (gs_state (snap r) = Running \<longrightarrow> it_trigger it \<noteq> None))"
| "state_ok r it StartFailed = (gs_state (snap r) \<noteq> Running)"
| "state_ok r it _ = True"

definition item_ok :: "group_run \<Rightarrow> domain_item \<Rightarrow> bool" where
  "item_ok r it \<longleftrightarrow> state_ok r it (it_state it)
     \<and> it_retry_count it \<le> technical_retry_limit
     \<and> starts_of (rg_serial (fst r)) (it_position it) (snd r)
         \<le> it_retry_count it + (if waiting (it_state it) then 0 else 1)"

definition task_state :: "domain_state \<Rightarrow> bool" where
  "task_state s \<longleftrightarrow> s = Active \<or> s = Draining \<or> s = StartFailed"

definition tasks_ok :: "group_run \<Rightarrow> bool" where
  "tasks_ok r \<longleftrightarrow> (\<forall>t p. dict_get (sh_tasks (snd r)) t = Some (gs_id (snap r), p) \<longrightarrow>
     \<not> group_over (gs_state (snap r))
     \<and> (\<exists>it\<in>set (items r). it_position it = p \<and> it_task it = t \<and> task_state (it_state it)))"

definition timer_of :: "group_run \<Rightarrow> nat \<Rightarrow> nat \<Rightarrow> retry_timer \<Rightarrow> bool" where
  "timer_of r p n t \<longleftrightarrow> rt_number t = n \<and> rt_serial t = rg_serial (fst r) \<and> rt_position t = p
     \<and> rt_group t = gs_id (snap r)
     \<and> (\<exists>it\<in>set (items r). it_position it = p \<and> it_state it = RetryWait \<and> it_retry_count it = rt_retry t)"

definition handles_ok :: "group_run \<Rightarrow> bool" where
  "handles_ok r \<longleftrightarrow>
     (\<forall>p n. dict_get (rg_handles (fst r)) p = Some n \<longrightarrow>
        gs_state (snap r) = Running \<and> n \<notin> set (sh_cancelled (snd r))
        \<and> (\<exists>t\<in>set (sh_timers (snd r)). timer_of r p n t))
     \<and> (\<forall>t\<in>set (sh_timers (snd r)). rt_serial t = rg_serial (fst r) \<longrightarrow> gs_state (snap r) = Running \<longrightarrow>
          dict_get (rg_handles (fst r)) (rt_position t) = Some (rt_number t))"

definition policy_ok :: "rotation_policy \<Rightarrow> bool" where
  "policy_ok p \<longleftrightarrow> rp_retry_limit p = technical_retry_limit \<and> 0 < rp_min_samples p
     \<and> 0 < rp_streak_threshold p \<and> rp_circuit_domains p = circuit_distinct_domains
     \<and> rp_circuit_window p = circuit_window_seconds"

definition task_dict :: "shared \<Rightarrow> bool" where
  "task_dict sh \<longleftrightarrow> dict_ok (sh_tasks sh)"

definition shared_ok :: "(nat \<Rightarrow> string) \<Rightarrow> shared \<Rightarrow> bool" where
  "shared_ok tid sh \<longleftrightarrow> task_dict sh
     \<and> (\<forall>t v. dict_get (sh_tasks sh) t = Some v \<longrightarrow> (\<exists>n<length (sh_starts sh). t = tid n))
     \<and> (\<forall>t\<in>set (sh_timers sh). rt_number t < sh_scheduled sh)
     \<and> distinct (map rt_number (sh_timers sh))
     \<and> (\<forall>n\<in>set (sh_cancelled sh). n < sh_scheduled sh)
     \<and> (\<forall>s p. starts_of s p sh \<le> technical_retry_limit + 1)"

definition positions_ok :: "domain_item list \<Rightarrow> bool" where
  "positions_ok its \<longleftrightarrow> (\<forall>i<length its. it_position (its ! i) = i + 1)"

definition group_ok :: "(nat \<Rightarrow> string) \<Rightarrow> group_run \<Rightarrow> bool" where
  "group_ok tid r \<longleftrightarrow> shared_ok tid (snd r) \<and> positions_ok (items r)
     \<and> (\<forall>it\<in>set (items r). item_ok r it) \<and> tasks_ok r \<and> handles_ok r
     \<and> policy_ok (gs_policy (snap r)) \<and> 0 < gs_slots (snap r) \<and> slots_held r \<le> gs_slots (snap r)"

text \<open>Between operations, no slot is idle while a domain waits, and a group in progress has work.\<close>

definition filled :: "group_run \<Rightarrow> bool" where
  "filled r \<longleftrightarrow> (gs_state (snap r) = Running \<longrightarrow> first_pending r \<noteq> None \<longrightarrow>
     slots_held r = gs_slots (snap r))"

definition settled :: "(nat \<Rightarrow> string) \<Rightarrow> group_run \<Rightarrow> bool" where
  "settled tid r \<longleftrightarrow> group_ok tid r \<and> filled r
     \<and> (\<not> group_over (gs_state (snap r)) \<longrightarrow> 0 < slots_held r)
     \<and> (group_over (gs_state (snap r)) \<longrightarrow> idle r)"

section \<open>What operations may change\<close>

text \<open>
  The work left in a group: a domain that waits can be started, and each start
  can end in a failure that is retried.
\<close>

fun weight :: "domain_state \<Rightarrow> nat \<Rightarrow> nat" where
  "weight s n =
     (if waiting s then 2 * (technical_retry_limit - n) + 2
      else if live_task s then 2 * (technical_retry_limit - n) + 1 else 0)"

declare weight.simps [simp del]

definition item_weight :: "domain_item \<Rightarrow> nat" where
  "item_weight it = weight (it_state it) (it_retry_count it)"

definition work :: "group_run \<Rightarrow> nat" where
  "work r = sum_list (map item_weight (items r))"

definition frame :: "string \<Rightarrow> nat \<Rightarrow> shared \<Rightarrow> shared \<Rightarrow> bool" where
  "frame gid s sh sh' \<longleftrightarrow>
     (\<forall>t g p. g \<noteq> gid \<longrightarrow> (dict_get (sh_tasks sh') t = Some (g, p) \<longleftrightarrow> dict_get (sh_tasks sh) t = Some (g, p)))
     \<and> (\<forall>t. rt_serial t \<noteq> s \<longrightarrow> (t \<in> set (sh_timers sh') \<longleftrightarrow> t \<in> set (sh_timers sh)))
     \<and> (\<forall>n\<in>set (sh_cancelled sh'). n \<in> set (sh_cancelled sh)
          \<or> (\<forall>t\<in>set (sh_timers sh'). rt_number t = n \<longrightarrow> rt_serial t = s))
     \<and> (\<forall>s' p. s' \<noteq> s \<longrightarrow> starts_of s' p sh' = starts_of s' p sh)
     \<and> (\<forall>c\<in>set (sh_starts sh'). c \<in> set (sh_starts sh) \<or> sc_serial c = s)
     \<and> (\<forall>n\<in>set (sh_cancelled sh). n \<in> set (sh_cancelled sh'))
     \<and> sh_scheduled sh \<le> sh_scheduled sh'"

definition moves :: "group_run \<Rightarrow> group_run \<Rightarrow> bool" where
  "moves r r' \<longleftrightarrow> frame (gs_id (snap r)) (rg_serial (fst r)) (snd r) (snd r')
     \<and> gs_id (snap r') = gs_id (snap r) \<and> rg_serial (fst r') = rg_serial (fst r)
     \<and> gs_slots (snap r') = gs_slots (snap r) \<and> length (items r') = length (items r)
     \<and> gs_policy (snap r') = gs_policy (snap r)
     \<and> work r' \<le> work r
     \<and> (gs_state (snap r) \<noteq> Running \<longrightarrow>
          gs_state (snap r') \<noteq> Running \<and> sh_starts (snd r') = sh_starts (snd r))
     \<and> (group_over (gs_state (snap r)) \<longrightarrow> group_over (gs_state (snap r')))"

section \<open>Composition\<close>

lemma frame_refl [simp]: "frame g s sh sh"
  by (simp add: frame_def)

lemma frame_trans:
  assumes "frame g s a b" and "frame g s b c"
  shows "frame g s a c"
proof -
  have "n \<in> set (sh_cancelled a) \<or> (\<forall>t\<in>set (sh_timers c). rt_number t = n \<longrightarrow> rt_serial t = s)"
    if "n \<in> set (sh_cancelled c)" for n
  proof (cases "n \<in> set (sh_cancelled b)")
    case True
    then consider "n \<in> set (sh_cancelled a)"
      | "\<forall>t\<in>set (sh_timers b). rt_number t = n \<longrightarrow> rt_serial t = s"
      using assms(1) unfolding frame_def by blast
    then show ?thesis using assms(2) unfolding frame_def by (cases, blast) metis
  qed (use that assms(2) in \<open>simp add: frame_def, metis\<close>)
  moreover have "c' \<in> set (sh_starts a) \<or> sc_serial c' = s" if "c' \<in> set (sh_starts c)" for c'
    using that assms unfolding frame_def by metis
  moreover have "sh_scheduled a \<le> sh_scheduled c" using assms unfolding frame_def by linarith
  ultimately show ?thesis using assms unfolding frame_def by simp
qed

lemma moves_refl [simp]: "moves r r"
  by (simp add: moves_def)

lemma moves_trans:
  assumes "moves a b" and "moves b c"
  shows "moves a c"
proof -
  have "frame (gs_id (snap a)) (rg_serial (fst a)) (snd a) (snd c)"
    using assms frame_trans unfolding moves_def by metis
  then show ?thesis using assms unfolding moves_def by simp
qed

section \<open>Fields\<close>

text \<open>The part of a group and of the shared state that the invariant reads.\<close>

definition same_core :: "group_run \<Rightarrow> group_run \<Rightarrow> bool" where
  "same_core r r' \<longleftrightarrow> items r' = items r \<and> gs_id (snap r') = gs_id (snap r)
     \<and> gs_state (snap r') = gs_state (snap r) \<and> gs_slots (snap r') = gs_slots (snap r)
     \<and> gs_policy (snap r') = gs_policy (snap r) \<and> rg_serial (fst r') = rg_serial (fst r)
     \<and> rg_handles (fst r') = rg_handles (fst r) \<and> rg_ledgers (fst r') = rg_ledgers (fst r)
     \<and> sh_tasks (snd r') = sh_tasks (snd r)
     \<and> sh_timers (snd r') = sh_timers (snd r) \<and> sh_cancelled (snd r') = sh_cancelled (snd r)
     \<and> sh_starts (snd r') = sh_starts (snd r) \<and> sh_scheduled (snd r') = sh_scheduled (snd r)"

lemma same_core_persisted [simp]: "same_core r (persisted env ck r)"
  by (simp add: same_core_def persisted_def persist_def Let_def upd_snap_def)

lemma persisted_simps [simp]:
  "gs_id (snap (persisted env ck r)) = gs_id (snap r)"
  "gs_state (snap (persisted env ck r)) = gs_state (snap r)"
  "gs_slots (snap (persisted env ck r)) = gs_slots (snap r)"
  "gs_policy (snap (persisted env ck r)) = gs_policy (snap r)"
  "rg_serial (fst (persisted env ck r)) = rg_serial (fst r)"
  "rg_handles (fst (persisted env ck r)) = rg_handles (fst r)"
  "rg_ledgers (fst (persisted env ck r)) = rg_ledgers (fst r)"
  "rg_events (fst (persisted env ck r)) = rg_events (fst r)"
  "sh_tasks (snd (persisted env ck r)) = sh_tasks (snd r)"
  "sh_timers (snd (persisted env ck r)) = sh_timers (snd r)"
  "sh_cancelled (snd (persisted env ck r)) = sh_cancelled (snd r)"
  "sh_starts (snd (persisted env ck r)) = sh_starts (snd r)"
  "sh_scheduled (snd (persisted env ck r)) = sh_scheduled (snd r)"
  by (simp_all add: persisted_def persist_def Let_def upd_snap_def)

lemma upd_item_simps [simp]:
  "gs_id (snap (upd_item i f r)) = gs_id (snap r)"
  "gs_state (snap (upd_item i f r)) = gs_state (snap r)"
  "gs_slots (snap (upd_item i f r)) = gs_slots (snap r)"
  "gs_policy (snap (upd_item i f r)) = gs_policy (snap r)"
  "rg_serial (fst (upd_item i f r)) = rg_serial (fst r)"
  "rg_handles (fst (upd_item i f r)) = rg_handles (fst r)"
  "rg_ledgers (fst (upd_item i f r)) = rg_ledgers (fst r)"
  "rg_events (fst (upd_item i f r)) = rg_events (fst r)"
  by (simp_all add: upd_item_def upd_snap_def)

lemma same_core_refl [simp]: "same_core r r"
  by (simp add: same_core_def)

lemma same_core_trans: "same_core a b \<Longrightarrow> same_core b c \<Longrightarrow> same_core a c"
  by (simp add: same_core_def)

lemma same_core_sym: "same_core a b \<Longrightarrow> same_core b a"
  by (simp add: same_core_def)

lemma starts_of_cong: "sh_starts a = sh_starts b \<Longrightarrow> starts_of s p a = starts_of s p b"
  by (simp add: starts_of_def)

lemma state_ok_cong:
  assumes "same_core r r'"
  shows "state_ok r' it s = state_ok r it s"
  using assms by (cases s) (simp_all add: same_core_def mapped_def ledger_sound_def ledger_at_def)

lemma group_ok_cong:
  assumes "same_core r r'"
  shows "group_ok tid r' = group_ok tid r"
proof -
  have st: "starts_of s p (snd r') = starts_of s p (snd r)" for s p
    using assms by (intro starts_of_cong) (simp add: same_core_def)
  have "item_ok r' it = item_ok r it" for it
    using assms state_ok_cong [OF assms] st by (simp add: item_ok_def same_core_def)
  moreover have "shared_ok tid (snd r') = shared_ok tid (snd r)"
    using assms st by (simp add: shared_ok_def same_core_def task_dict_def)
  moreover have "timer_of r' = timer_of r"
    using assms by (intro ext) (simp add: timer_of_def same_core_def)
  ultimately show ?thesis
    using assms by (simp add: group_ok_def tasks_ok_def handles_ok_def slots_held_def same_core_def)
qed

lemma moves_cong:
  assumes "same_core r r'"
  shows "moves r r'"
proof -
  have "frame g s (snd r) (snd r')" for g s
    using assms by (auto simp: frame_def same_core_def starts_of_def)
  then show ?thesis using assms by (simp add: moves_def same_core_def work_def)
qed

section \<open>Replacing one item\<close>

lemma slots_held_update:
  assumes "i < length its"
  shows "length (filter P (its[i := x])) + (if P (its ! i) then 1 else 0)
    = length (filter P its) + (if P x then 1 else (0::nat))"
  using assms
proof (induction its arbitrary: i)
  case (Cons y ys)
  then show ?case by (cases i) auto
qed simp

lemma work_update:
  fixes f :: "'a \<Rightarrow> nat"
  assumes "i < length its"
  shows "sum_list (map f (its[i := x])) + f (its ! i) = sum_list (map f its) + f x"
  using assms
proof (induction its arbitrary: i)
  case (Cons y ys)
  then show ?case by (cases i) auto
qed simp

lemma positions_ok_update:
  "positions_ok its \<Longrightarrow> i < length its \<Longrightarrow> it_position x = i + 1 \<Longrightarrow> positions_ok (its[i := x])"
  by (simp add: positions_ok_def nth_list_update)

lemma positions_ok_same:
  assumes "positions_ok its" and "it \<in> set its" and "i < length its" and "it_position it = i + 1"
  shows "it = its ! i"
  using assms by (auto simp: positions_ok_def in_set_conv_nth)

lemma in_update_cases:
  assumes "y \<in> set (its[i := x])" and "i < length its"
  obtains "y = x" | j where "j < length its" "j \<noteq> i" "y = its ! j"
  using assms by (auto simp: in_set_conv_nth nth_list_update split: if_splits)

lemma group_ok_replace:
  assumes ok: "group_ok tid r" and i: "i < length (items r)"
    and its: "items r' = (items r)[i := x]" and pos: "it_position x = i + 1"
    and same: "gs_id (snap r') = gs_id (snap r)" "gs_state (snap r') = gs_state (snap r)"
      "gs_slots (snap r') = gs_slots (snap r)" "gs_policy (snap r') = gs_policy (snap r)"
      "rg_serial (fst r') = rg_serial (fst r)"
    and ledgers: "\<And>p. p \<noteq> i + 1 \<Longrightarrow> ledger_at p (fst r') = ledger_at p (fst r)"
    and sh: "shared_ok tid (snd r')"
    and starts: "\<And>p. p \<noteq> i + 1 \<Longrightarrow>
      starts_of (rg_serial (fst r)) p (snd r') = starts_of (rg_serial (fst r)) p (snd r)"
    and x: "item_ok r' x"
    and slots: "holds_slot (it_state x) \<Longrightarrow>
      holds_slot (it_state (items r ! i)) \<or> slots_held r < gs_slots (snap r)"
    and tasks: "\<And>t p. p \<noteq> i + 1 \<Longrightarrow> dict_get (sh_tasks (snd r')) t = Some (gs_id (snap r), p) \<longleftrightarrow>
      dict_get (sh_tasks (snd r)) t = Some (gs_id (snap r), p)"
    and own_task: "\<And>t. dict_get (sh_tasks (snd r')) t = Some (gs_id (snap r), i + 1) \<Longrightarrow>
      \<not> group_over (gs_state (snap r)) \<and> it_task x = t \<and> task_state (it_state x)"
    and handles: "\<And>p. p \<noteq> i + 1 \<Longrightarrow> dict_get (rg_handles (fst r')) p = dict_get (rg_handles (fst r)) p"
    and own_handle: "\<And>n. dict_get (rg_handles (fst r')) (i + 1) = Some n \<Longrightarrow>
      gs_state (snap r) = Running \<and> n \<notin> set (sh_cancelled (snd r')) \<and> it_state x = RetryWait
      \<and> (\<exists>t\<in>set (sh_timers (snd r')). rt_number t = n \<and> rt_serial t = rg_serial (fst r)
           \<and> rt_position t = i + 1 \<and> rt_group t = gs_id (snap r) \<and> it_retry_count x = rt_retry t)"
    and timers: "\<And>t. rt_serial t = rg_serial (fst r) \<Longrightarrow> rt_position t \<noteq> i + 1 \<Longrightarrow>
      t \<in> set (sh_timers (snd r')) \<longleftrightarrow> t \<in> set (sh_timers (snd r))"
    and own_timer: "\<And>t. t \<in> set (sh_timers (snd r')) \<Longrightarrow> rt_serial t = rg_serial (fst r) \<Longrightarrow>
      rt_position t = i + 1 \<Longrightarrow> gs_state (snap r) = Running \<Longrightarrow>
      dict_get (rg_handles (fst r')) (i + 1) = Some (rt_number t)"
    and cancelled: "\<And>p n. p \<noteq> i + 1 \<Longrightarrow> dict_get (rg_handles (fst r)) p = Some n \<Longrightarrow>
      n \<notin> set (sh_cancelled (snd r)) \<Longrightarrow> n \<notin> set (sh_cancelled (snd r'))"
  shows "group_ok tid r'"
proof -
  have po: "positions_ok (items r)" using ok by (simp add: group_ok_def)
  have other: "it_position (items r ! j) = j + 1" if "j < length (items r)" for j
    using po that by (simp add: positions_ok_def)
  have keep: "item_ok r' (items r ! j)" if j: "j < length (items r)" "j \<noteq> i" for j
  proof -
    let ?it = "items r ! j"
    have o: "item_ok r ?it" using ok j by (simp add: group_ok_def)
    have p: "it_position ?it \<noteq> i + 1" using j other by simp
    have m: "mapped r' ?it = mapped r ?it" using tasks [OF p] same by (simp add: mapped_def)
    have l: "ledger_sound r' ?it = ledger_sound r ?it" using ledgers [OF p] by (simp add: ledger_sound_def)
    have "state_ok r' ?it s = state_ok r ?it s" for s
      using m l handles [OF p] same by (cases s) simp_all
    then show ?thesis using o starts [OF p] same by (simp add: item_ok_def)
  qed
  have all: "\<forall>it\<in>set (items r'). item_ok r' it"
    unfolding its by (metis in_update_cases i keep x)
  have moved: "\<exists>it\<in>set (items r'). it_position it = p \<and> Q it"
    if "\<exists>it\<in>set (items r). it_position it = p \<and> Q it" "p \<noteq> i + 1" for p Q
  proof -
    from that obtain j where j: "j < length (items r)" "it_position (items r ! j) = p" "Q (items r ! j)"
      by (auto simp: in_set_conv_nth)
    with that other i have "j \<noteq> i" by auto
    then have "items r' ! j = items r ! j" "j < length (items r')" using its j by simp_all
    then show ?thesis using j by (metis nth_mem)
  qed
  have xin: "x \<in> set (items r')" unfolding its using i by (rule set_update_memI)
  have "tasks_ok r'"
    unfolding tasks_ok_def
  proof (intro allI impI)
    fix t p assume a: "dict_get (sh_tasks (snd r')) t = Some (gs_id (snap r'), p)"
    show "\<not> group_over (gs_state (snap r')) \<and>
      (\<exists>it\<in>set (items r'). it_position it = p \<and> it_task it = t \<and> task_state (it_state it))"
    proof (cases "p = i + 1")
      case True
      then show ?thesis using own_task a same xin pos by metis
    next
      case False
      then have "dict_get (sh_tasks (snd r)) t = Some (gs_id (snap r), p)" using tasks a same by simp
      then have "\<not> group_over (gs_state (snap r)) \<and>
        (\<exists>it\<in>set (items r). it_position it = p \<and> it_task it = t \<and> task_state (it_state it))"
        using ok by (simp add: group_ok_def tasks_ok_def)
      then show ?thesis using moved [OF _ False] same by simp
    qed
  qed
  moreover have "handles_ok r'"
    unfolding handles_ok_def
  proof (intro conjI allI impI ballI)
    fix p n assume a: "dict_get (rg_handles (fst r')) p = Some n"
    have "gs_state (snap r) = Running \<and> n \<notin> set (sh_cancelled (snd r')) \<and>
      (\<exists>t\<in>set (sh_timers (snd r')). timer_of r' p n t)"
    proof (cases "p = i + 1")
      case True
      then show ?thesis using own_handle a same xin pos unfolding timer_of_def by metis
    next
      case False
      then have h: "dict_get (rg_handles (fst r)) p = Some n" using handles a by simp
      then obtain t where t: "t \<in> set (sh_timers (snd r))" "timer_of r p n t"
        and n: "gs_state (snap r) = Running" "n \<notin> set (sh_cancelled (snd r))"
        using ok unfolding group_ok_def handles_ok_def by blast
      have "t \<in> set (sh_timers (snd r'))" using t False timers by (auto simp: timer_of_def)
      moreover have "timer_of r' p n t" using t moved [OF _ False] same by (simp add: timer_of_def)
      ultimately show ?thesis using n cancelled [OF False h] by blast
    qed
    then show "gs_state (snap r') = Running" "n \<notin> set (sh_cancelled (snd r'))"
      "\<exists>t\<in>set (sh_timers (snd r')). timer_of r' p n t" using same by simp_all
  next
    fix t assume t: "t \<in> set (sh_timers (snd r'))" "rt_serial t = rg_serial (fst r')"
      and run: "gs_state (snap r') = Running"
    show "dict_get (rg_handles (fst r')) (rt_position t) = Some (rt_number t)"
    proof (cases "rt_position t = i + 1")
      case True
      then show ?thesis using own_timer t run same by metis
    next
      case False
      then have "t \<in> set (sh_timers (snd r))" using timers t same by simp
      then have "dict_get (rg_handles (fst r)) (rt_position t) = Some (rt_number t)"
        using ok t run same by (simp add: group_ok_def handles_ok_def)
      then show ?thesis using handles [OF False] by simp
    qed
  qed
  moreover have "slots_held r' \<le> gs_slots (snap r')"
    using slots_held_update [OF i, of "\<lambda>it. holds_slot (it_state it)" x] slots ok its same
    by (auto simp: slots_held_def group_ok_def split: if_splits)
  moreover have "positions_ok (items r')"
    unfolding its using positions_ok_update po i pos by blast
  ultimately show ?thesis using ok all sh same by (simp add: group_ok_def)
qed

end
