(* ===== verification/RotationWind.thy ===== *)
theory RotationWind
  imports RotationProofs
begin

text \<open>
  Winding a group down, by a failure or by the operator: nothing waits any more,
  every task in flight is asked to stop, and no timer is left armed.
\<close>

section \<open>Lists\<close>

lemma filter_length_le:
  assumes "length ys = length xs" and "\<And>j. j < length xs \<Longrightarrow> P (ys ! j) \<Longrightarrow> P (xs ! j)"
  shows "length (filter P ys) \<le> length (filter P xs)"
proof -
  have "{j. j < length ys \<and> P (ys ! j)} \<subseteq> {j. j < length xs \<and> P (xs ! j)}"
    using assms by auto
  then show ?thesis by (simp add: length_filter_conv_card card_mono)
qed

lemma sum_list_le:
  fixes f :: "'a \<Rightarrow> nat"
  assumes "length ys = length xs" and "\<And>j. j < length xs \<Longrightarrow> f (ys ! j) \<le> f (xs ! j)"
  shows "sum_list (map f ys) \<le> sum_list (map f xs)"
  using assms
proof (induction xs arbitrary: ys)
  case (Cons x xs)
  then obtain y zs where ys: "ys = y # zs" by (cases ys) auto
  have "f y \<le> f x" using Cons.prems(2) [of 0] ys by simp
  moreover have "sum_list (map f zs) \<le> sum_list (map f xs)"
    using Cons.prems ys by (intro Cons.IH) force+
  ultimately show ?case using ys by simp
qed simp

lemma all_nth: "(\<forall>x\<in>set xs. P x) \<longleftrightarrow> (\<forall>j<length xs. P (xs ! j))"
  by (metis in_set_conv_nth)

section \<open>Cancelling timers\<close>

definition quiet :: "group_run \<Rightarrow> group_run \<Rightarrow> bool" where
  "quiet r r' \<longleftrightarrow> items r' = items r \<and> gs_id (snap r') = gs_id (snap r)
     \<and> gs_state (snap r') = gs_state (snap r) \<and> gs_slots (snap r') = gs_slots (snap r)
     \<and> gs_policy (snap r') = gs_policy (snap r) \<and> rg_serial (fst r') = rg_serial (fst r)
     \<and> sh_tasks (snd r') = sh_tasks (snd r) \<and> sh_timers (snd r') = sh_timers (snd r)
     \<and> sh_starts (snd r') = sh_starts (snd r) \<and> sh_scheduled (snd r') = sh_scheduled (snd r)"

lemma quiet_refl [simp]: "quiet r r"
  by (simp add: quiet_def)

lemma quiet_trans: "quiet a b \<Longrightarrow> quiet b c \<Longrightarrow> quiet a c"
  by (simp add: quiet_def)

lemma cancel_handle_effect:
  "quiet r (cancel_handle p r)
   \<and> (\<forall>q. dict_get (rg_handles (fst (cancel_handle p r))) q
        = (if q = p then None else dict_get (rg_handles (fst r)) q))
   \<and> set (sh_cancelled (snd (cancel_handle p r)))
        = set (sh_cancelled (snd r)) \<union> {n. dict_get (rg_handles (fst r)) p = Some n}"
  by (auto simp: cancel_handle_def quiet_def split: option.splits)

lemma cancel_handles_effect:
  "quiet r (fold cancel_handle ps r)
   \<and> (\<forall>q. dict_get (rg_handles (fst (fold cancel_handle ps r))) q
        = (if q \<in> set ps then None else dict_get (rg_handles (fst r)) q))
   \<and> set (sh_cancelled (snd (fold cancel_handle ps r)))
        = set (sh_cancelled (snd r)) \<union> {n. \<exists>p\<in>set ps. dict_get (rg_handles (fst r)) p = Some n}"
proof (induction ps arbitrary: r)
  case (Cons p ps)
  have eq: "fold cancel_handle (p # ps) r = fold cancel_handle ps (cancel_handle p r)" by simp
  show ?case
    unfolding eq
    using Cons.IH [of "cancel_handle p r"] cancel_handle_effect [of r p]
    by (auto intro: quiet_trans split: if_splits)
qed simp

lemma cancel_all_effect:
  "quiet r (cancel_all_handles r)
   \<and> (\<forall>q. dict_get (rg_handles (fst (cancel_all_handles r))) q = None)
   \<and> set (sh_cancelled (snd (cancel_all_handles r)))
        = set (sh_cancelled (snd r)) \<union> {n. \<exists>p. dict_get (rg_handles (fst r)) p = Some n}"
proof -
  let ?ks = "map fst (rg_handles (fst r))"
  have none: "dict_get (rg_handles (fst r)) q = None" if "q \<notin> set ?ks" for q
    using that by (simp add: map_of_eq_None_iff)
  have "{n. \<exists>p\<in>set ?ks. dict_get (rg_handles (fst r)) p = Some n}
    = {n. \<exists>p. dict_get (rg_handles (fst r)) p = Some n}"
    using none by (metis option.distinct(1))
  then show ?thesis
    using cancel_handles_effect [of r ?ks] none
    unfolding cancel_all_handles_def by presburger
qed

section \<open>Passing over all items\<close>

definition only_stops :: "shared \<Rightarrow> shared \<Rightarrow> bool" where
  "only_stops sh sh' \<longleftrightarrow> sh_tasks sh' = sh_tasks sh \<and> sh_timers sh' = sh_timers sh
     \<and> sh_cancelled sh' = sh_cancelled sh \<and> sh_starts sh' = sh_starts sh
     \<and> sh_scheduled sh' = sh_scheduled sh \<and> sh_stored sh' = sh_stored sh
     \<and> sh_writes sh' = sh_writes sh"

lemma only_stops_refl [simp]: "only_stops sh sh"
  by (simp add: only_stops_def)

lemma only_stops_request [simp]: "only_stops sh (request_drain env t mode why sh)"
  by (simp add: only_stops_def request_drain_def)

lemma each_item_effect:
  assumes "\<And>n it sh. fst (f n it sh) = g n it" and "\<And>n it sh. only_stops sh (snd (f n it sh))"
  shows "length (fst (each_item f n its sh)) = length its
    \<and> (\<forall>j<length its. fst (each_item f n its sh) ! j = g (n + j) (its ! j))
    \<and> only_stops sh (snd (each_item f n its sh))"
proof (induction its arbitrary: n sh)
  case (Cons it its)
  obtain it' sh1 where h: "f n it sh = (it', sh1)" by fastforce
  obtain its' sh2 where t: "each_item f (n + 1) its sh1 = (its', sh2)" by fastforce
  have "it' = g n it" "only_stops sh sh1" using assms h by (metis fst_conv, metis snd_conv)
  moreover have "length its' = length its" "\<forall>j<length its. its' ! j = g (Suc n + j) (its ! j)"
    "only_stops sh1 sh2" using Cons.IH [of "n + 1" sh1] t by simp_all
  ultimately show ?case
    using h t by (auto simp: only_stops_def nth_Cons' less_Suc_eq_0_disj split: nat.splits)
qed simp

section \<open>A group that winds down\<close>

definition ended :: "group_run \<Rightarrow> domain_item \<Rightarrow> bool" where
  "ended r it \<longleftrightarrow> \<not> holds_slot (it_state it) \<and> it_state it \<noteq> Pending
     \<and> it_retry_count it \<le> technical_retry_limit
     \<and> starts_of (rg_serial (fst r)) (it_position it) (snd r) \<le> it_retry_count it + 1"

definition own_timers :: "group_run \<Rightarrow> bool" where
  "own_timers r \<longleftrightarrow> (\<forall>p n. dict_get (rg_handles (fst r)) p = Some n \<longrightarrow>
     (\<exists>t\<in>set (sh_timers (snd r)). rt_number t = n \<and> rt_serial t = rg_serial (fst r)))"

definition windable :: "(nat \<Rightarrow> string) \<Rightarrow> group_run \<Rightarrow> bool" where
  "windable tid r \<longleftrightarrow> shared_ok tid (snd r) \<and> positions_ok (items r)
     \<and> (\<forall>it\<in>set (items r). item_ok r it \<or> ended r it) \<and> tasks_ok r \<and> own_timers r
     \<and> policy_ok (gs_policy (snap r)) \<and> 0 < gs_slots (snap r) \<and> slots_held r \<le> gs_slots (snap r)
     \<and> \<not> group_over (gs_state (snap r))"

lemma handles_own_timers: "handles_ok r \<Longrightarrow> own_timers r"
  by (fastforce simp: handles_ok_def own_timers_def timer_of_def)

lemma group_ok_windable: "group_ok tid r \<Longrightarrow> \<not> group_over (gs_state (snap r)) \<Longrightarrow> windable tid r"
  by (simp add: group_ok_def windable_def handles_own_timers)

text \<open>What a pass of winding down does to one item.\<close>

definition wound_item :: "domain_item \<Rightarrow> domain_item \<Rightarrow> bool" where
  "wound_item it it' \<longleftrightarrow> it_position it' = it_position it \<and> it_task it' = it_task it
     \<and> it_retry_count it' = it_retry_count it \<and> it_quality it' = it_quality it
     \<and> it_trigger it' = it_trigger it
     \<and> (if waiting (it_state it)
        then it_state it' \<in> {Cancelled, TechnicalFailed, DomainStopped}
        else if live_task (it_state it)
        then it_state it' = (if it_task it = [] then DomainStopped else Draining)
        else it_state it' = it_state it)"

definition wound :: "group_run \<Rightarrow> group_run \<Rightarrow> bool" where
  "wound r r' \<longleftrightarrow> length (items r') = length (items r)
     \<and> (\<forall>j<length (items r). wound_item (items r ! j) (items r' ! j))
     \<and> gs_id (snap r') = gs_id (snap r) \<and> gs_slots (snap r') = gs_slots (snap r)
     \<and> gs_policy (snap r') = gs_policy (snap r) \<and> rg_serial (fst r') = rg_serial (fst r)
     \<and> (gs_state (snap r') = Failing \<or> gs_state (snap r') = Stopping)
     \<and> (\<forall>p. dict_get (rg_handles (fst r')) p = None)
     \<and> sh_tasks (snd r') = sh_tasks (snd r) \<and> sh_timers (snd r') = sh_timers (snd r)
     \<and> sh_starts (snd r') = sh_starts (snd r) \<and> sh_scheduled (snd r') = sh_scheduled (snd r)
     \<and> set (sh_cancelled (snd r')) = set (sh_cancelled (snd r))
         \<union> {n. \<exists>p. dict_get (rg_handles (fst r)) p = Some n}"

lemma wound_weight: "wound_item it it' \<Longrightarrow> item_weight it' \<le> item_weight it"
  by (auto simp: wound_item_def item_weight_def weight.simps waiting_def split: if_splits)

lemma wound_slot: "wound_item it it' \<Longrightarrow> holds_slot (it_state it') \<Longrightarrow> holds_slot (it_state it)"
  by (auto simp: wound_item_def holds_slot_def waiting_def split: if_splits)

lemma frame_cancelled:
  assumes sh: "shared_ok tid sh" and same: "sh_tasks sh' = sh_tasks sh" "sh_timers sh' = sh_timers sh"
      "sh_starts sh' = sh_starts sh" "sh_scheduled sh' = sh_scheduled sh"
    and c: "set (sh_cancelled sh) \<subseteq> set (sh_cancelled sh')"
    and own: "\<And>n. n \<in> set (sh_cancelled sh') \<Longrightarrow> n \<in> set (sh_cancelled sh)
      \<or> (\<exists>t\<in>set (sh_timers sh). rt_number t = n \<and> rt_serial t = s)"
  shows "frame g s sh sh'" and "shared_ok tid sh'"
proof -
  have uniq: "t = t'" if "t \<in> set (sh_timers sh)" "t' \<in> set (sh_timers sh)" "rt_number t = rt_number t'" for t t'
    using sh that unfolding shared_ok_def by (metis distinct_map inj_onD)
  show "frame g s sh sh'"
    unfolding frame_def using same c own uniq by (auto simp: starts_of_def) (metis own uniq)
  have "n < sh_scheduled sh" if "n \<in> set (sh_cancelled sh')" for n
    using own [OF that] sh by (auto simp: shared_ok_def)
  then show "shared_ok tid sh'" using sh same by (simp add: shared_ok_def starts_of_def task_dict_def)
qed

lemma wound_ok:
  assumes w: "windable tid r" and d: "wound r r'"
  shows "group_ok tid r'" and "moves r r'"
proof -
  have timer: "\<exists>t\<in>set (sh_timers (snd r)). rt_number t = n \<and> rt_serial t = rg_serial (fst r)"
    if "dict_get (rg_handles (fst r)) p = Some n" for p n
    using w that by (auto simp: windable_def own_timers_def)
  have c: "n \<in> set (sh_cancelled (snd r)) \<or> (\<exists>t\<in>set (sh_timers (snd r)). rt_number t = n \<and> rt_serial t = rg_serial (fst r))"
    if "n \<in> set (sh_cancelled (snd r'))" for n
    using that d timer unfolding wound_def by blast
  have sh: "shared_ok tid (snd r)" using w by (simp add: windable_def)
  have st: "sh_tasks (snd r') = sh_tasks (snd r)" "sh_timers (snd r') = sh_timers (snd r)"
    "sh_starts (snd r') = sh_starts (snd r)" "sh_scheduled (snd r') = sh_scheduled (snd r)"
    "set (sh_cancelled (snd r)) \<subseteq> set (sh_cancelled (snd r'))"
    using d by (simp_all add: wound_def)
  note fr = frame_cancelled [OF sh st, where s = "rg_serial (fst r)"]
  have frame: "frame g (rg_serial (fst r)) (snd r) (snd r')" for g by (rule fr) (rule c)
  have sh': "shared_ok tid (snd r')" by (rule fr) (rule c)
  have len: "length (items r') = length (items r)" using d by (simp add: wound_def)
  have wi: "wound_item (items r ! j) (items r' ! j)" if "j < length (items r)" for j
    using d that by (simp add: wound_def)
  have over: "\<not> group_over (gs_state (snap r'))" "gs_state (snap r') \<noteq> Running"
    using d by (auto simp: wound_def)
  have item: "item_ok r' (items r' ! j)" if j: "j < length (items r')" for j
  proof -
    let ?it = "items r ! j" and ?it' = "items r' ! j"
    have jr: "j < length (items r)" using j len by simp
    note wj = wi [OF jr]
    have o: "item_ok r ?it \<or> ended r ?it" using w jr by (simp add: windable_def)
    have rest: "it_retry_count ?it' \<le> technical_retry_limit"
      "starts_of (rg_serial (fst r')) (it_position ?it') (snd r') \<le> it_retry_count ?it' + 1"
      using o wj d unfolding item_ok_def ended_def wound_item_def wound_def
      by (auto simp: starts_of_def split: if_splits)
    have st: "state_ok r' ?it' (it_state ?it') \<and> \<not> waiting (it_state ?it')"
    proof (cases "live_task (it_state ?it)")
      case True
      then have nw: "\<not> waiting (it_state ?it)" by (auto simp: waiting_def)
      have "\<not> ended r ?it" using True by (auto simp: ended_def holds_slot_def)
      then have ok: "item_ok r ?it" using o by blast
      then have "mapped r ?it" using True by (cases "it_state ?it") (simp_all add: item_ok_def)
      then have "mapped r' ?it'" using wj d by (simp add: mapped_def wound_item_def wound_def)
      moreover have "it_state ?it' = Draining"
        using wj True nw \<open>mapped r ?it\<close> by (simp add: wound_item_def mapped_def)
      ultimately show ?thesis using over by (simp add: waiting_def)
    next
      case False
      then have "it_state ?it' \<notin> {Pending, Starting, RetryWait, Active, Draining}"
        using wj by (auto simp: wound_item_def waiting_def split: if_splits)
      then show ?thesis using over by (cases "it_state ?it'") (simp_all add: waiting_def)
    qed
    then show ?thesis using rest by (simp add: item_ok_def)
  qed
  have tasks: "tasks_ok r'"
    unfolding tasks_ok_def
  proof (intro allI impI conjI)
    fix t p assume "dict_get (sh_tasks (snd r')) t = Some (gs_id (snap r'), p)"
    then have "dict_get (sh_tasks (snd r)) t = Some (gs_id (snap r), p)" using d by (simp add: wound_def)
    then obtain j where j: "j < length (items r)" "it_position (items r ! j) = p"
      "it_task (items r ! j) = t" "task_state (it_state (items r ! j))"
      using w unfolding windable_def tasks_ok_def by (metis in_set_conv_nth)
    have "task_state (it_state (items r' ! j))"
    proof (cases "live_task (it_state (items r ! j))")
      case True
      then have "\<not> ended r (items r ! j)" by (auto simp: ended_def holds_slot_def)
      then have "item_ok r (items r ! j)" using w j by (auto simp: windable_def)
      then have "mapped r (items r ! j)" using True by (cases "it_state (items r ! j)") (simp_all add: item_ok_def)
      then show ?thesis using wi [OF j(1)] True
        by (auto simp: wound_item_def mapped_def task_state_def waiting_def split: if_splits)
    next
      case False
      then show ?thesis using wi [OF j(1)] j
        by (auto simp: wound_item_def task_state_def waiting_def split: if_splits)
    qed
    then show "\<exists>it\<in>set (items r'). it_position it = p \<and> it_task it = t \<and> task_state (it_state it)"
      using wi [OF j(1)] j len by (intro bexI [of _ "items r' ! j"]) (auto simp: wound_item_def)
  qed (rule over)
  have slots: "slots_held r' \<le> slots_held r"
    unfolding slots_held_def using len wi wound_slot by (intro filter_length_le) auto
  have "positions_ok (items r')"
    using w wi len unfolding windable_def positions_ok_def wound_item_def by simp
  moreover have "handles_ok r'" using d over by (simp add: handles_ok_def wound_def)
  ultimately show "group_ok tid r'"
    using w d sh' tasks slots item by (simp add: group_ok_def windable_def all_nth wound_def)
  have "work r' \<le> work r"
    unfolding work_def using len wi wound_weight by (intro sum_list_le) auto
  then show "moves r r'"
    using frame d over w by (simp add: moves_def wound_def windable_def)
qed

section \<open>Failing a group and stopping it\<close>

definition fail_pure :: "clock \<Rightarrow> nat \<Rightarrow> nat \<Rightarrow> domain_item \<Rightarrow> domain_item" where
  "fail_pure ck failed n it =
     (if n = failed then it
      else if it_state it = RetryWait
      then it\<lparr>it_state := TechnicalFailed, it_next_retry := None,
              it_terminal := Some (ck_wall ck),
              it_error := take 1000 (if it_error it = [] then circuit_cancel_text else it_error it)\<rparr>
      else if \<not> live_task (it_state it) then it
      else if it_task it = [] then it\<lparr>it_state := DomainStopped, it_terminal := Some (ck_wall ck)\<rparr>
      else it\<lparr>it_state := Draining\<rparr>)"

definition stop_pure :: "clock \<Rightarrow> nat \<Rightarrow> domain_item \<Rightarrow> domain_item" where
  "stop_pure ck n it =
     (if it_state it = Pending then it\<lparr>it_state := Cancelled, it_terminal := Some (ck_wall ck)\<rparr>
      else if it_state it = RetryWait
      then it\<lparr>it_state := DomainStopped, it_next_retry := None, it_terminal := Some (ck_wall ck)\<rparr>
      else if \<not> live_task (it_state it) then it
      else if it_task it = [] then it\<lparr>it_state := DomainStopped, it_terminal := Some (ck_wall ck)\<rparr>
      else it\<lparr>it_state := Draining\<rparr>)"

lemma fail_item_effect:
  "fst (fail_domain_item env ck i n it sh) = fail_pure ck i n it"
  "only_stops sh (snd (fail_domain_item env ck i n it sh))"
  by (auto simp: fail_domain_item_def fail_pure_def drain_item_def)

lemma stop_item_effect:
  "fst (stop_item env ck mode n it sh) = stop_pure ck n it"
  "only_stops sh (snd (stop_item env ck mode n it sh))"
  by (auto simp: stop_item_def stop_pure_def drain_item_def)

lemma over_items_effect:
  assumes "\<And>n it sh. fst (f n it sh) = g n it" and "\<And>n it sh. only_stops sh (snd (f n it sh))"
  shows "length (items (over_items f r)) = length (items r)
    \<and> (\<forall>j<length (items r). items (over_items f r) ! j = g j (items r ! j))
    \<and> gs_id (snap (over_items f r)) = gs_id (snap r)
    \<and> gs_state (snap (over_items f r)) = gs_state (snap r)
    \<and> gs_slots (snap (over_items f r)) = gs_slots (snap r)
    \<and> gs_policy (snap (over_items f r)) = gs_policy (snap r)
    \<and> rg_serial (fst (over_items f r)) = rg_serial (fst r)
    \<and> rg_handles (fst (over_items f r)) = rg_handles (fst r)
    \<and> only_stops (snd r) (snd (over_items f r))"
  using each_item_effect [of f g 0 "items r" "snd r", OF assms]
  by (auto simp: over_items_def Let_def split: prod.splits)

lemma begin_group_failure_effect:
  assumes i: "i < length (items r)"
    and fin: "\<not> holds_slot (it_state (items r ! i))" "it_state (items r ! i) \<noteq> Pending"
  shows "wound r (begin_group_failure env ck i code r)"
    and "gs_state (snap (begin_group_failure env ck i code r)) = Failing"
    and "items (begin_group_failure env ck i code r) ! i = items r ! i"
proof -
  obtain r1 where r1: "begin_group_failure env ck i code r
      = over_items (fail_domain_item env ck i) (cancel_all_handles (cancel_pending ck r1))"
    and f1: "items r1 = items r" "gs_id (snap r1) = gs_id (snap r)" "gs_state (snap r1) = Failing"
      "gs_slots (snap r1) = gs_slots (snap r)" "gs_policy (snap r1) = gs_policy (snap r)"
      "rg_serial (fst r1) = rg_serial (fst r)" "rg_handles (fst r1) = rg_handles (fst r)" "snd r1 = snd r"
    unfolding begin_group_failure_def Let_def by (simp add: upd_snap_def)
  let ?r2 = "cancel_pending ck r1" and ?r3 = "cancel_all_handles (cancel_pending ck r1)"
  have f2: "items ?r2 = map (cancel_pending_item (ck_wall ck)) (items r)" "gs_id (snap ?r2) = gs_id (snap r)"
    "gs_state (snap ?r2) = Failing" "gs_slots (snap ?r2) = gs_slots (snap r)"
    "gs_policy (snap ?r2) = gs_policy (snap r)" "rg_serial (fst ?r2) = rg_serial (fst r)"
    "rg_handles (fst ?r2) = rg_handles (fst r)" "snd ?r2 = snd r"
    using f1 by (simp_all add: cancel_pending_def upd_snap_def)
  note f3 = cancel_all_effect [of ?r2, unfolded quiet_def]
  note f4 = over_items_effect [of "fail_domain_item env ck i" "fail_pure ck i" ?r3, OF fail_item_effect]
  have nth: "items (begin_group_failure env ck i code r) ! j
      = fail_pure ck i j (cancel_pending_item (ck_wall ck) (items r ! j))" if "j < length (items r)" for j
    using f4 f3 f2 that unfolding r1 by simp
  have w: "wound_item (items r ! j) (items (begin_group_failure env ck i code r) ! j)"
    if j: "j < length (items r)" for j
  proof (cases "j = i")
    case True
    then show ?thesis using nth [OF j] fin
      by (auto simp: fail_pure_def cancel_pending_item_def wound_item_def waiting_def holds_slot_def)
  next
    case False
    then show ?thesis unfolding nth [OF j]
      by (auto simp: fail_pure_def cancel_pending_item_def wound_item_def waiting_def)
  qed
  show "wound r (begin_group_failure env ck i code r)"
    unfolding wound_def using w f4 f3 f2 unfolding r1 only_stops_def by simp
  show "gs_state (snap (begin_group_failure env ck i code r)) = Failing"
    using f4 f3 f2 unfolding r1 by simp
  show "items (begin_group_failure env ck i code r) ! i = items r ! i"
    using nth [OF i] fin by (simp add: fail_pure_def cancel_pending_item_def)
qed

end
