(* ===== verification/RotationFill.thy ===== *)
theory RotationFill
  imports RotationWind
begin

text \<open>
  Starting the next domain and filling the slots: each start uses a free slot and
  lowers the work that is left; a start that fails winds the group down.
\<close>

section \<open>Binding a task\<close>

definition bound_to :: "nat \<Rightarrow> string \<Rightarrow> group_run \<Rightarrow> group_run \<Rightarrow> bool" where
  "bound_to i k r r' \<longleftrightarrow>
     (\<exists>x. items r' = (items r)[i := x] \<and> it_position x = it_position (items r ! i)
        \<and> it_state x = Active \<and> it_task x = k \<and> it_retry_count x = it_retry_count (items r ! i)
        \<and> it_quality x = it_quality (items r ! i) \<and> it_trigger x = it_trigger (items r ! i))
     \<and> (\<forall>t. dict_get (sh_tasks (snd r')) t = (if t = k
          then Some (gs_id (snap r), it_position (items r ! i)) else dict_get (sh_tasks (snd r)) t))
     \<and> (task_dict (snd r) \<longrightarrow> task_dict (snd r'))
     \<and> gs_id (snap r') = gs_id (snap r) \<and> gs_state (snap r') = gs_state (snap r)
     \<and> gs_slots (snap r') = gs_slots (snap r) \<and> gs_policy (snap r') = gs_policy (snap r)
     \<and> rg_serial (fst r') = rg_serial (fst r) \<and> rg_handles (fst r') = rg_handles (fst r)
     \<and> rg_ledgers (fst r') = rg_ledgers (fst r)
     \<and> sh_timers (snd r') = sh_timers (snd r) \<and> sh_cancelled (snd r') = sh_cancelled (snd r)
     \<and> sh_starts (snd r') = sh_starts (snd r) \<and> sh_scheduled (snd r') = sh_scheduled (snd r)"

lemma bound_to_trans:
  assumes "bound_to i k a b" and "bound_to i k b c" and "i < length (items a)"
  shows "bound_to i k a c"
proof -
  from assms(1) obtain x where x: "items b = (items a)[i := x]"
    "it_position x = it_position (items a ! i)" "it_retry_count x = it_retry_count (items a ! i)"
    "it_quality x = it_quality (items a ! i)" "it_trigger x = it_trigger (items a ! i)"
    unfolding bound_to_def by blast
  from assms(2) obtain y where y: "items c = (items b)[i := y]"
    "it_position y = it_position (items b ! i)" "it_state y = Active" "it_task y = k"
    "it_retry_count y = it_retry_count (items b ! i)" "it_quality y = it_quality (items b ! i)"
    "it_trigger y = it_trigger (items b ! i)"
    unfolding bound_to_def by blast
  have "items b ! i = x" using x assms(3) by simp
  then have "\<exists>y. items c = (items a)[i := y] \<and> it_position y = it_position (items a ! i)
        \<and> it_state y = Active \<and> it_task y = k \<and> it_retry_count y = it_retry_count (items a ! i)
        \<and> it_quality y = it_quality (items a ! i) \<and> it_trigger y = it_trigger (items a ! i)"
    using x y by (intro exI [of _ y]) simp
  then show ?thesis
    using assms(1,2) \<open>items b ! i = x\<close> x(2) unfolding bound_to_def by simp
qed

lemma bind_task_effect:
  assumes "py_strip t = k" and "k \<noteq> []" and "i < length (items r)"
  shows "bound_to i k r (bind_task env ck i t r)"
proof -
  let ?y = "bind_item (ck_wall ck) k (items r ! i)"
  have "it_position ?y = it_position (items r ! i)" "it_state ?y = Active" "it_task ?y = k"
    "it_retry_count ?y = it_retry_count (items r ! i)" "it_quality ?y = it_quality (items r ! i)"
    "it_trigger ?y = it_trigger (items r ! i)"
    by (simp_all add: bind_item_def Let_def)
  then show ?thesis
    using assms unfolding bound_to_def bind_task_def Let_def task_dict_def
    by (auto intro!: exI [of _ ?y])
qed

lemma bind_tasks_effect:
  assumes "\<forall>b\<in>set bs. py_strip b = k" and "k \<noteq> []" and "i < length (items r)" and "bs \<noteq> []"
  shows "bound_to i k r (fold (bind_task env ck i) bs r)"
  using assms
proof (induction bs arbitrary: r)
  case (Cons b bs)
  have one: "bound_to i k r (bind_task env ck i b r)" using Cons.prems by (intro bind_task_effect) auto
  show ?case
  proof (cases "bs = []")
    case False
    have "length (items (bind_task env ck i b r)) = length (items r)"
      using one unfolding bound_to_def by auto
    then have "bound_to i k (bind_task env ck i b r) (fold (bind_task env ck i) bs (bind_task env ck i b r))"
      using Cons False by simp
    then show ?thesis using bound_to_trans [OF one] Cons.prems(3) by simp
  qed (use one in simp)
qed simp

section \<open>Ending an item before the group winds down\<close>

lemma windable_replace:
  assumes ok: "group_ok tid r" and i: "i < length (items r)"
    and its: "items r' = (items r)[i := x]" and pos: "it_position x = i + 1"
    and same: "gs_id (snap r') = gs_id (snap r)" "gs_state (snap r') = gs_state (snap r)"
      "gs_slots (snap r') = gs_slots (snap r)" "gs_policy (snap r') = gs_policy (snap r)"
      "rg_serial (fst r') = rg_serial (fst r)" "rg_handles (fst r') = rg_handles (fst r)"
    and ledgers: "\<And>p. p \<noteq> i + 1 \<Longrightarrow> ledger_at p (fst r') = ledger_at p (fst r)"
    and run: "\<not> group_over (gs_state (snap r))"
    and sh: "shared_ok tid (snd r')"
    and starts: "\<And>p. p \<noteq> i + 1 \<Longrightarrow>
      starts_of (rg_serial (fst r)) p (snd r') = starts_of (rg_serial (fst r)) p (snd r)"
    and x: "ended r' x"
    and tasks: "\<And>t p. p \<noteq> i + 1 \<Longrightarrow> dict_get (sh_tasks (snd r')) t = Some (gs_id (snap r), p) \<longleftrightarrow>
      dict_get (sh_tasks (snd r)) t = Some (gs_id (snap r), p)"
    and own_task: "\<And>t. dict_get (sh_tasks (snd r')) t = Some (gs_id (snap r), i + 1) \<Longrightarrow>
      it_task x = t \<and> task_state (it_state x)"
    and timers: "set (sh_timers (snd r)) \<subseteq> set (sh_timers (snd r'))"
  shows "windable tid r'"
proof -
  have po: "positions_ok (items r)" using ok by (simp add: group_ok_def)
  have other: "it_position (items r ! j) = j + 1" if "j < length (items r)" for j
    using po that by (simp add: positions_ok_def)
  have keep: "item_ok r' (items r ! j)" if j: "j < length (items r)" "j \<noteq> i" for j
  proof -
    let ?it = "items r ! j"
    have o: "item_ok r ?it" using ok j by (simp add: group_ok_def)
    have p: "it_position ?it \<noteq> i + 1" using j other by simp
    have m: "mapped r' ?it = mapped r ?it" using tasks [OF p] same by (simp add: mapped_def)
    have l: "ledger_sound r' ?it = ledger_sound r ?it" using ledgers [OF p] by (simp add: ledger_sound_def)
    have "state_ok r' ?it s = state_ok r ?it s" for s
      using m l same by (cases s) simp_all
    then show ?thesis using o starts [OF p] same by (simp add: item_ok_def)
  qed
  have all: "\<forall>it\<in>set (items r'). item_ok r' it \<or> ended r' it"
    unfolding its by (metis in_update_cases i keep x)
  have xin: "x \<in> set (items r')" unfolding its using i by (rule set_update_memI)
  have "tasks_ok r'"
    unfolding tasks_ok_def
  proof (intro allI impI conjI)
    fix t p assume a: "dict_get (sh_tasks (snd r')) t = Some (gs_id (snap r'), p)"
    show "\<exists>it\<in>set (items r'). it_position it = p \<and> it_task it = t \<and> task_state (it_state it)"
    proof (cases "p = i + 1")
      case True
      then show ?thesis using own_task a same xin pos by metis
    next
      case False
      then have "dict_get (sh_tasks (snd r)) t = Some (gs_id (snap r), p)" using tasks a same by simp
      then obtain j where j: "j < length (items r)" "it_position (items r ! j) = p"
        "it_task (items r ! j) = t" "task_state (it_state (items r ! j))"
        using ok unfolding group_ok_def tasks_ok_def by (metis in_set_conv_nth)
      with False other i have "j \<noteq> i" by auto
      then have "items r' ! j = items r ! j" "j < length (items r')" using its j by simp_all
      then show ?thesis using j by (metis nth_mem)
    qed
  qed (use run same in simp)
  moreover have "own_timers r'"
    using handles_own_timers [of r] ok timers same unfolding group_ok_def own_timers_def by fastforce
  moreover have "slots_held r' \<le> gs_slots (snap r')"
    using slots_held_update [OF i, of "\<lambda>it. holds_slot (it_state it)" x] x ok its same
    by (auto simp: slots_held_def group_ok_def ended_def split: if_splits)
  moreover have "positions_ok (items r')"
    unfolding its using positions_ok_update po i pos by blast
  ultimately show ?thesis using ok all sh same run by (simp add: windable_def group_ok_def)
qed

lemma task_item:
  assumes "group_ok tid r" and "dict_get (sh_tasks (snd r)) t = Some (gs_id (snap r), p)"
  obtains i where "i < length (items r)" and "p = i + 1" and "it_position (items r ! i) = p"
    and "it_task (items r ! i) = t" and "task_state (it_state (items r ! i))"
    and "\<not> group_over (gs_state (snap r))"
proof -
  have "tasks_ok r" "positions_ok (items r)" using assms(1) by (simp_all add: group_ok_def)
  with assms(2) obtain it where "it \<in> set (items r)" "it_position it = p" "it_task it = t"
    "task_state (it_state it)" "\<not> group_over (gs_state (snap r))"
    unfolding tasks_ok_def by blast
  moreover then obtain i where "i < length (items r)" "items r ! i = it" by (metis in_set_conv_nth)
  moreover then have "it_position it = i + 1"
    using \<open>positions_ok (items r)\<close> by (auto simp: positions_ok_def)
  ultimately show ?thesis using that by metis
qed

section \<open>One start\<close>

lemma starts_of_append:
  "starts_of s p (sh\<lparr>sh_starts := sh_starts sh @ [c]\<rparr>)
     = starts_of s p sh + (if sc_serial c = s \<and> sc_position c = p then 1 else 0)"
  by (simp add: starts_of_def)

lemma fresh_task:
  assumes "fresh_starts env tid" and "shared_ok tid sh"
  shows "dict_get (sh_tasks sh) (tid (length (sh_starts sh))) = None"
proof (rule ccontr)
  assume "dict_get (sh_tasks sh) (tid (length (sh_starts sh))) \<noteq> None"
  then obtain v where "dict_get (sh_tasks sh) (tid (length (sh_starts sh))) = Some v" by blast
  then obtain n where "n < length (sh_starts sh)" "tid (length (sh_starts sh)) = tid n"
    using assms(2) unfolding shared_ok_def by blast
  then show False using assms(1) by (auto simp: fresh_starts_def dest: injD)
qed

text \<open>A start as the invariant sees it: the task is bound, or it may be and the item ends.\<close>

definition start_sees :: "nat \<Rightarrow> string \<Rightarrow> bool \<Rightarrow> domain_item \<Rightarrow> group_run \<Rightarrow> group_run \<Rightarrow> bool" where
  "start_sees i k b x r r' \<longleftrightarrow> items r' = (items r)[i := x]
     \<and> it_position x = it_position (items r ! i) \<and> it_retry_count x = it_retry_count (items r ! i)
     \<and> it_quality x = it_quality (items r ! i) \<and> it_trigger x = it_trigger (items r ! i)
     \<and> (b \<longrightarrow> it_task x = k)
     \<and> (\<forall>t. dict_get (sh_tasks (snd r')) t = (if t = k \<and> b
          then Some (gs_id (snap r), it_position (items r ! i)) else dict_get (sh_tasks (snd r)) t))
     \<and> (task_dict (snd r) \<longrightarrow> task_dict (snd r'))
     \<and> gs_id (snap r') = gs_id (snap r) \<and> gs_state (snap r') = gs_state (snap r)
     \<and> gs_slots (snap r') = gs_slots (snap r) \<and> gs_policy (snap r') = gs_policy (snap r)
     \<and> rg_serial (fst r') = rg_serial (fst r) \<and> rg_handles (fst r') = rg_handles (fst r)
     \<and> rg_ledgers (fst r') = rg_ledgers (fst r)
     \<and> sh_timers (snd r') = sh_timers (snd r) \<and> sh_cancelled (snd r') = sh_cancelled (snd r)
     \<and> sh_scheduled (snd r') = sh_scheduled (snd r)
     \<and> (\<exists>d. sh_starts (snd r') = sh_starts (snd r) @ [\<lparr>sc_serial = rg_serial (fst r),
           sc_position = it_position (items r ! i), sc_domain = d\<rparr>])"

lemma start_domain_effect:
  assumes f: "fresh_starts env tid" and i: "i < length (items r)"
  shows "(\<exists>r' x. start_domain env ck i r = (True, r') \<and> it_state x = Active
            \<and> start_sees i (tid (length (sh_starts (snd r)))) True x r r')
       \<or> (\<exists>r4 x b. start_domain env ck i r
              = (False, persisted env ck (begin_group_failure env ck i DomainTaskStartFailed r4))
            \<and> it_state x = StartFailed \<and> start_sees i (tid (length (sh_starts (snd r)))) b x r r4)"
proof -
  define n where "n = length (sh_starts (snd r))"
  define k where "k = tid n"
  define out where "out = re_start env n"
  have k: "k \<noteq> []" and bs: "\<forall>b\<in>set (so_bound out). py_strip b = k"
    and ret: "so_result out = Returned t \<Longrightarrow> py_strip t = k" for t
    using f by (auto simp: fresh_starts_def k_def out_def)
  define g where "g = (\<lambda>it :: domain_item. it\<lparr>it_state := Starting, it_task := [], it_next_retry := None, it_terminal := None,
     it_started := Some (case it_started it of Some s \<Rightarrow> s | None \<Rightarrow> ck_wall ck)\<rparr>)"
  define r1 where "r1 = persisted env ck (upd_item i g r)"
  define r2 where "r2 = upd_shared (\<lambda>sh. sh\<lparr>sh_starts := sh_starts sh @ [\<lparr>sc_serial = rg_serial (fst r1),
     sc_position = it_position (items r1 ! i), sc_domain = it_domain (items r1 ! i)\<rparr>]\<rparr>) r1"
  define r3 where "r3 = fold (bind_task env ck i) (so_bound out) r2"
  have out': "re_start env (length (sh_starts (snd r1))) = out" by (simp add: out_def n_def r1_def)
  have eq: "start_domain env ck i r = (case so_result out of
       Returned t \<Rightarrow> (True, if it_task (items r3 ! i) = [] then bind_task env ck i t r3 else r3)
     | Raised e \<Rightarrow> (False, persisted env ck (begin_group_failure env ck i DomainTaskStartFailed
          (upd_item i (\<lambda>it. it\<lparr>it_state := StartFailed, it_error := take 1000 (re_sanitize env e),
             it_terminal := Some (ck_wall ck)\<rparr>) r3))))"
    unfolding start_domain_def Let_def out' [unfolded r1_def g_def] r3_def r2_def r1_def g_def
    by (simp cong: start_result.case_cong)
  have i2: "items r2 = (items r)[i := g (items r ! i)]" "items r2 ! i = g (items r ! i)" "i < length (items r2)"
    using i by (simp_all add: r2_def r1_def)
  have td: "task_dict (snd r2) = task_dict (snd r)" using i by (simp add: r2_def r1_def task_dict_def)
  have g: "it_position (g it) = it_position it" "it_retry_count (g it) = it_retry_count it"
    "it_quality (g it) = it_quality it" "it_trigger (g it) = it_trigger it" "it_task (g it) = []" for it
    by (simp_all add: g_def)
  have s2: "gs_id (snap r2) = gs_id (snap r)" "gs_state (snap r2) = gs_state (snap r)"
    "gs_slots (snap r2) = gs_slots (snap r)" "gs_policy (snap r2) = gs_policy (snap r)"
    "rg_serial (fst r2) = rg_serial (fst r)" "rg_handles (fst r2) = rg_handles (fst r)"
    "rg_ledgers (fst r2) = rg_ledgers (fst r)"
    "sh_tasks (snd r2) = sh_tasks (snd r)" "sh_timers (snd r2) = sh_timers (snd r)"
    "sh_cancelled (snd r2) = sh_cancelled (snd r)" "sh_scheduled (snd r2) = sh_scheduled (snd r)"
    "sh_starts (snd r2) = sh_starts (snd r) @ [\<lparr>sc_serial = rg_serial (fst r),
       sc_position = it_position (items r ! i), sc_domain = it_domain (g (items r ! i))\<rparr>]"
    using i by (simp_all add: r2_def r1_def g)
  have sees: "\<exists>x. it_state x = Active \<and> start_sees i k True x r r'" if b: "bound_to i k r2 r'" for r'
  proof -
    from b obtain x where x: "items r' = (items r2)[i := x]"
      "it_position x = it_position (items r2 ! i)" "it_state x = Active" "it_task x = k"
      "it_retry_count x = it_retry_count (items r2 ! i)" "it_quality x = it_quality (items r2 ! i)"
      "it_trigger x = it_trigger (items r2 ! i)" unfolding bound_to_def by blast
    have "start_sees i k True x r r'"
      using b x i2 s2 g td unfolding start_sees_def bound_to_def by simp
    then show ?thesis using x(3) by blast
  qed
  have b3: "bound_to i k r2 r3" if "so_bound out \<noteq> []"
    unfolding r3_def using bs k i2(3) that by (rule bind_tasks_effect)
  show ?thesis
  proof (cases "so_result out")
    case (Returned t)
    have "bound_to i k r2 (if it_task (items r3 ! i) = [] then bind_task env ck i t r3 else r3)"
    proof (cases "so_bound out = []")
      case True
      then show ?thesis using i2 g ret [OF Returned] k by (simp add: r3_def bind_task_effect)
    next
      case False
      then have "it_task (items r3 ! i) = k" using b3 i2 unfolding bound_to_def by auto
      then show ?thesis using b3 [OF False] k by simp
    qed
    from sees [OF this] show ?thesis using eq Returned by (auto simp: k_def n_def)
  next
    case (Raised e)
    let ?h = "\<lambda>it. it\<lparr>it_state := StartFailed, it_error := take 1000 (re_sanitize env e),
             it_terminal := Some (ck_wall ck)\<rparr>"
    have "\<exists>x b. it_state x = StartFailed \<and> start_sees i k b x r (upd_item i ?h r3)"
    proof (cases "so_bound out = []")
      case True
      then have r3: "r3 = r2" by (simp add: r3_def)
      have "start_sees i k False (?h (g (items r ! i))) r (upd_item i ?h r3)"
        using i2 s2 g i td unfolding r3 start_sees_def by simp
      then show ?thesis by (intro exI [of _ "?h (g (items r ! i))"] exI [of _ False]) simp
    next
      case False
      obtain x where x: "start_sees i k True x r r3" using sees [OF b3 [OF False]] by blast
      then have "items r3 ! i = x" using i by (simp add: start_sees_def)
      then have "start_sees i k True (?h x) r (upd_item i ?h r3)"
        using x unfolding start_sees_def by simp
      then show ?thesis by (intro exI [of _ "?h x"] exI [of _ True]) simp
    qed
    then obtain x b where xb: "it_state x = StartFailed" "start_sees i k b x r (upd_item i ?h r3)" by blast
    have sd: "start_domain env ck i r = (False, persisted env ck
        (begin_group_failure env ck i DomainTaskStartFailed (upd_item i ?h r3)))"
      using eq Raised by simp
    show ?thesis
      by (rule disjI2, rule exI [of _ "upd_item i ?h r3"], rule exI [of _ x], rule exI [of _ b])
        (use sd xb in \<open>simp add: k_def n_def\<close>)
  qed
qed

lemma start_sees_shared:
  assumes f: "fresh_starts env tid" and ok: "group_ok tid r" and i: "i < length (items r)"
    and p: "it_state (items r ! i) = Pending"
    and s: "start_sees i (tid (length (sh_starts (snd r)))) b x r r'"
  shows "shared_ok tid (snd r')" and "frame (gs_id (snap r)) (rg_serial (fst r)) (snd r) (snd r')"
proof -
  let ?k = "tid (length (sh_starts (snd r)))"
  have sh: "shared_ok tid (snd r)" using ok by (simp add: group_ok_def)
  have pos: "it_position (items r ! i) = i + 1" using ok i by (simp add: group_ok_def positions_ok_def)
  obtain d where st: "sh_starts (snd r') = sh_starts (snd r) @ [\<lparr>sc_serial = rg_serial (fst r),
      sc_position = i + 1, sc_domain = d\<rparr>]"
    using s pos by (auto simp: start_sees_def)
  have count: "starts_of s' p' (snd r') = starts_of s' p' (snd r)
      + (if s' = rg_serial (fst r) \<and> p' = i + 1 then 1 else 0)" for s' p'
    using st by (simp add: starts_of_def)
  have "item_ok r (items r ! i)" using ok i by (simp add: group_ok_def)
  then have own: "starts_of (rg_serial (fst r)) (i + 1) (snd r) \<le> technical_retry_limit"
    using p pos by (auto simp: item_ok_def waiting_def)
  have bound: "starts_of s' p' (snd r') \<le> technical_retry_limit + 1" for s' p'
    using count [of s' p'] own sh by (auto simp: shared_ok_def)
  have tasks: "\<exists>n<length (sh_starts (snd r')). t = tid n" if t: "dict_get (sh_tasks (snd r')) t = Some v" for t v
  proof (cases "t = ?k")
    case False
    then have "dict_get (sh_tasks (snd r)) t = Some v" using s t by (simp add: start_sees_def)
    then obtain n where "n < length (sh_starts (snd r))" "t = tid n"
      using sh unfolding shared_ok_def by blast
    then show ?thesis using st by (intro exI [of _ n]) simp
  qed (use st in auto)
  show "shared_ok tid (snd r')"
    using sh bound tasks s unfolding shared_ok_def start_sees_def by simp
  show "frame (gs_id (snap r)) (rg_serial (fst r)) (snd r) (snd r')"
  proof -
    have "dict_get (sh_tasks (snd r)) ?k = None" by (rule fresh_task [OF f sh])
    then show ?thesis
      using s st count by (auto simp: frame_def start_sees_def)
  qed
qed

lemma start_sees_tasks:
  assumes f: "fresh_starts env tid" and ok: "group_ok tid r" and i: "i < length (items r)"
    and p: "it_state (items r ! i) = Pending"
    and s: "start_sees i (tid (length (sh_starts (snd r)))) b x r r'"
  shows "p \<noteq> i + 1 \<Longrightarrow> dict_get (sh_tasks (snd r')) t = Some (gs_id (snap r), p) \<longleftrightarrow>
      dict_get (sh_tasks (snd r)) t = Some (gs_id (snap r), p)"
    and "dict_get (sh_tasks (snd r')) t = Some (gs_id (snap r), i + 1) \<Longrightarrow>
      b \<and> it_task x = t \<and> t = tid (length (sh_starts (snd r)))"
proof -
  let ?k = "tid (length (sh_starts (snd r)))"
  have sh: "shared_ok tid (snd r)" and po: "positions_ok (items r)" using ok by (simp_all add: group_ok_def)
  have pos: "it_position (items r ! i) = i + 1" using po i by (simp add: positions_ok_def)
  have none: "dict_get (sh_tasks (snd r)) ?k = None" by (rule fresh_task [OF f sh])
  show "dict_get (sh_tasks (snd r')) t = Some (gs_id (snap r), p) \<longleftrightarrow>
      dict_get (sh_tasks (snd r)) t = Some (gs_id (snap r), p)" if "p \<noteq> i + 1"
    using s pos none that by (auto simp: start_sees_def)
  show "b \<and> it_task x = t \<and> t = ?k" if t: "dict_get (sh_tasks (snd r')) t = Some (gs_id (snap r), i + 1)"
  proof (cases "t = ?k \<and> b")
    case False
    then have "dict_get (sh_tasks (snd r)) t = Some (gs_id (snap r), i + 1)"
      using s t by (auto simp: start_sees_def)
    from task_item [OF ok this] obtain j where "i + 1 = j + 1" "task_state (it_state (items r ! j))" by metis
    with p show ?thesis by (simp add: task_state_def)
  qed (use s in \<open>simp add: start_sees_def\<close>)
qed

lemma start_bound_ok:
  assumes f: "fresh_starts env tid" and ok: "group_ok tid r" and i: "i < length (items r)"
    and p: "it_state (items r ! i) = Pending" and free: "slots_held r < gs_slots (snap r)"
    and x: "it_state x = Active"
    and s: "start_sees i (tid (length (sh_starts (snd r)))) True x r r'"
  shows "group_ok tid r'" and "moves r r'" and "work r' < work r"
proof -
  let ?k = "tid (length (sh_starts (snd r)))" and ?old = "items r ! i"
  have po: "positions_ok (items r)" using ok by (simp add: group_ok_def)
  have pos: "it_position ?old = i + 1" using po i by (simp add: positions_ok_def)
  have o: "item_ok r ?old" using ok i by (simp add: group_ok_def)
  then have run: "gs_state (snap r) = Running" and un: "untouched ?old" using p by (simp_all add: item_ok_def)
  note tk = start_sees_tasks [OF f ok i p s]
  have k: "?k \<noteq> []" using f by (simp add: fresh_starts_def)
  have same: "gs_id (snap r') = gs_id (snap r)" "gs_state (snap r') = gs_state (snap r)"
    "gs_slots (snap r') = gs_slots (snap r)" "gs_policy (snap r') = gs_policy (snap r)"
    "rg_serial (fst r') = rg_serial (fst r)" "rg_handles (fst r') = rg_handles (fst r)"
    "sh_timers (snd r') = sh_timers (snd r)" "sh_cancelled (snd r') = sh_cancelled (snd r)"
    "items r' = (items r)[i := x]" "it_position x = i + 1"
    "it_retry_count x = it_retry_count ?old" "it_quality x = it_quality ?old" "it_trigger x = it_trigger ?old"
    using s pos by (simp_all add: start_sees_def)
  have led: "ledger_at p (fst r') = ledger_at p (fst r)" for p
    using s by (simp add: start_sees_def ledger_at_def)
  obtain d where st: "sh_starts (snd r') = sh_starts (snd r) @ [\<lparr>sc_serial = rg_serial (fst r),
      sc_position = i + 1, sc_domain = d\<rparr>]"
    using s pos by (auto simp: start_sees_def)
  have ls: "ledger_sound r' x" "q_miss_streak (it_quality x) = 0"
    using o p un same led pos
    by (auto simp: item_ok_def ledger_sound_def untouched_def Let_def miss_streak_def)
  have "policy_ok (gs_policy (snap r))" using ok by (simp add: group_ok_def)
  then have "good_quality (gs_policy (snap r)) (it_quality x)"
    using un o same ls
    by (auto simp: good_quality_def policy_ok_def untouched_def item_ok_def too_many_rejections_def too_many_misses_def)
  moreover have "mapped r' x" using s same k pos by (simp add: mapped_def start_sees_def)
  moreover have "starts_of (rg_serial (fst r)) (i + 1) (snd r') \<le> it_retry_count ?old + 1"
    using o p pos st by (simp add: item_ok_def starts_of_def waiting_def)
  ultimately have xok: "item_ok r' x"
    using o un run same x ls by (simp add: item_ok_def untouched_def waiting_def)
  have h: "handles_ok r" using ok by (simp add: group_ok_def)
  show "group_ok tid r'"
  proof (rule group_ok_replace [OF ok i same(9,10,1-5) led start_sees_shared(1) [OF f ok i p s] _ xok])
    show "gs_state (snap r) = Running \<and> n \<notin> set (sh_cancelled (snd r')) \<and> it_state x = RetryWait
      \<and> (\<exists>t\<in>set (sh_timers (snd r')). rt_number t = n \<and> rt_serial t = rg_serial (fst r)
           \<and> rt_position t = i + 1 \<and> rt_group t = gs_id (snap r) \<and> it_retry_count x = rt_retry t)"
      if "dict_get (rg_handles (fst r')) (i + 1) = Some n" for n
    proof -
      from that same h obtain it where "it \<in> set (items r)" "it_position it = i + 1" "it_state it = RetryWait"
        unfolding handles_ok_def timer_of_def by metis
      with positions_ok_same [OF po _ i] p show ?thesis by auto
    qed
    show "dict_get (rg_handles (fst r')) (i + 1) = Some (rt_number t)"
      if "t \<in> set (sh_timers (snd r'))" "rt_serial t = rg_serial (fst r)" "rt_position t = i + 1" for t
      using that h run same by (auto simp: handles_ok_def)
    show "\<not> group_over (gs_state (snap r)) \<and> it_task x = t \<and> task_state (it_state x)"
      if "dict_get (sh_tasks (snd r')) t = Some (gs_id (snap r), i + 1)" for t
      using tk(2) [OF that] run x by (simp add: task_state_def)
  qed (use same st tk free in \<open>simp_all add: starts_of_def\<close>)
  have w: "work r' + item_weight ?old = work r + item_weight x"
    unfolding work_def same(9) by (rule work_update [OF i])
  have "item_weight x < item_weight ?old"
    using x p same by (simp add: item_weight_def weight.simps waiting_def)
  with w show less: "work r' < work r" by linarith
  show "moves r r'"
    using start_sees_shared(2) [OF f ok i p s] same less run by (simp add: moves_def)
qed

lemma group_failure_ok:
  assumes w: "windable tid r" and i: "i < length (items r)"
    and fin: "\<not> holds_slot (it_state (items r ! i))" "it_state (items r ! i) \<noteq> Pending"
  shows "group_ok tid (begin_group_failure env ck i code r)"
    and "moves r (begin_group_failure env ck i code r)"
    and "gs_state (snap (begin_group_failure env ck i code r)) = Failing"
    and "items (begin_group_failure env ck i code r) ! i = items r ! i"
  using wound_ok [OF w begin_group_failure_effect(1) [OF i fin]] begin_group_failure_effect [OF i fin]
  by simp_all

lemma start_failed_ok:
  assumes f: "fresh_starts env tid" and ok: "group_ok tid r" and i: "i < length (items r)"
    and p: "it_state (items r ! i) = Pending" and x: "it_state x = StartFailed"
    and s: "start_sees i (tid (length (sh_starts (snd r)))) b x r r4"
    and r': "r' = persisted env ck (begin_group_failure env ck i DomainTaskStartFailed r4)"
  shows "group_ok tid r'" and "moves r r'" and "work r' < work r" and "gs_state (snap r') = Failing"
proof -
  let ?old = "items r ! i"
  have po: "positions_ok (items r)" using ok by (simp add: group_ok_def)
  have pos: "it_position ?old = i + 1" using po i by (simp add: positions_ok_def)
  have o: "item_ok r ?old" using ok i by (simp add: group_ok_def)
  then have run: "gs_state (snap r) = Running" using p by (simp add: item_ok_def)
  note tk = start_sees_tasks [OF f ok i p s]
  have same: "gs_id (snap r4) = gs_id (snap r)" "gs_state (snap r4) = gs_state (snap r)"
    "gs_slots (snap r4) = gs_slots (snap r)" "gs_policy (snap r4) = gs_policy (snap r)"
    "rg_serial (fst r4) = rg_serial (fst r)" "rg_handles (fst r4) = rg_handles (fst r)"
    "sh_timers (snd r4) = sh_timers (snd r)"
    "items r4 = (items r)[i := x]" "it_position x = i + 1"
    "it_retry_count x = it_retry_count ?old" "it_quality x = it_quality ?old"
    using s pos by (simp_all add: start_sees_def)
  obtain d where st: "sh_starts (snd r4) = sh_starts (snd r) @ [\<lparr>sc_serial = rg_serial (fst r),
      sc_position = i + 1, sc_domain = d\<rparr>]"
    using s pos by (auto simp: start_sees_def)
  have "starts_of (rg_serial (fst r)) (i + 1) (snd r4) \<le> it_retry_count ?old + 1"
    using o p pos st by (simp add: item_ok_def starts_of_def waiting_def)
  then have e: "ended r4 x" using o x same by (simp add: ended_def item_ok_def holds_slot_def)
  have led: "ledger_at p (fst r4) = ledger_at p (fst r)" for p
    using s by (simp add: start_sees_def ledger_at_def)
  have w: "windable tid r4"
  proof (rule windable_replace [OF ok i same(8,9,1-6) led _ start_sees_shared(1) [OF f ok i p s] _ e])
    show "it_task x = t \<and> task_state (it_state x)"
      if "dict_get (sh_tasks (snd r4)) t = Some (gs_id (snap r), i + 1)" for t
      using tk(2) [OF that] x by (simp add: task_state_def)
  qed (use same st tk run in \<open>simp_all add: starts_of_def\<close>)
  have i4: "i < length (items r4)" "items r4 ! i = x" using i same by simp_all
  have fin: "\<not> holds_slot (it_state (items r4 ! i))" "it_state (items r4 ! i) \<noteq> Pending"
    using i4 x by (simp_all add: holds_slot_def)
  note bgf = group_failure_ok [OF w i4(1) fin, of env ck DomainTaskStartFailed]
  have wk: "work r4 + item_weight ?old = work r + item_weight x"
    unfolding work_def same(8) by (rule work_update [OF i])
  have "item_weight x = 0" "0 < item_weight ?old"
    using x p by (simp_all add: item_weight_def weight.simps waiting_def)
  with wk have less: "work r4 < work r" by linarith
  have m4: "moves r r4"
    using start_sees_shared(2) [OF f ok i p s] same less run by (simp add: moves_def)
  show "group_ok tid r'" unfolding r' using bgf(1) group_ok_cong [OF same_core_persisted] by blast
  have m: "moves r4 r'" unfolding r' using bgf(2) moves_cong [OF same_core_persisted] moves_trans by blast
  then show "moves r r'" using m4 moves_trans by blast
  show "work r' < work r" using m less by (simp add: moves_def)
  show "gs_state (snap r') = Failing" using bgf(3) by (simp add: r')
qed

section \<open>Filling\<close>

lemma moves_work: "moves a b \<Longrightarrow> work b \<le> work a"
  by (simp add: moves_def)

lemma fill_loop_ok:
  assumes "fresh_starts env tid" and "group_ok tid r" and "gs_state (snap r) = Running"
  shows "group_ok tid (fill_loop env ck r) \<and> moves r (fill_loop env ck r)
    \<and> filled (fill_loop env ck r) \<and> \<not> group_over (gs_state (snap (fill_loop env ck r)))
    \<and> (first_pending r \<noteq> None \<longrightarrow> slots_held r < gs_slots (snap r) \<longrightarrow> work (fill_loop env ck r) < work r)"
  using assms
proof (induction env ck r rule: fill_loop.induct)
  case (1 env ck r)
  show ?case
  proof (cases "gs_slots (snap r) \<le> slots_held r")
    case True
    then have "fill_loop env ck r = r" by (subst fill_loop.simps) simp
    then show ?thesis using True 1 by (simp add: filled_def group_ok_def)
  next
    case free: False
    show ?thesis
    proof (cases "first_pending r")
      case None
      then have "fill_loop env ck r = r" by (subst fill_loop.simps) simp
      then show ?thesis using None 1 by (simp add: filled_def)
    next
      case (Some i)
      then have i: "i < length (items r)" "it_state (items r ! i) = Pending"
        using index_from_0_Some unfolding first_pending_def by blast+
      consider (bound) r' x where "start_domain env ck i r = (True, r')" "it_state x = Active"
            "start_sees i (tid (length (sh_starts (snd r)))) True x r r'"
        | (failed) r4 x b where "start_domain env ck i r
              = (False, persisted env ck (begin_group_failure env ck i DomainTaskStartFailed r4))"
            "it_state x = StartFailed" "start_sees i (tid (length (sh_starts (snd r)))) b x r r4"
        using start_domain_effect [OF 1(2) i(1), of ck] by blast
      then show ?thesis
      proof cases
        case bound
        have eq: "fill_loop env ck r = fill_loop env ck r'"
          using free Some bound(1) by (subst fill_loop.simps) simp
        note b = start_bound_ok [OF 1(2,3) i _ bound(2,3)]
        have g: "group_ok tid r'" "moves r r'" "work r' < work r" using b free by simp_all
        have "gs_state (snap r') = Running" using bound(3) 1(4) by (simp add: start_sees_def)
        note ih = 1(1) [OF free Some bound(1) [symmetric] refl 1(2) g(1) this]
        have "moves r (fill_loop env ck r')" using ih g(2) moves_trans by blast
        moreover have "work (fill_loop env ck r') < work r" using ih g(3) moves_work le_less_trans by blast
        ultimately show ?thesis using ih unfolding eq by blast
      next
        case failed
        have eq: "fill_loop env ck r = persisted env ck (begin_group_failure env ck i DomainTaskStartFailed r4)"
          using free Some failed(1) by (subst fill_loop.simps) simp
        note b = start_failed_ok [OF 1(2,3) i failed(2,3) refl, of ck]
        show ?thesis using b unfolding eq by (simp add: filled_def)
      qed
    qed
  qed
qed

lemma pending_running:
  assumes "group_ok tid r" and "it \<in> set (items r)" and "waiting (it_state it)"
  shows "gs_state (snap r) = Running"
  using assms by (cases "it_state it") (auto simp: group_ok_def item_ok_def waiting_def)

lemma fill_slots_ok:
  assumes "fresh_starts env tid" and "group_ok tid r"
  shows "group_ok tid (fill_slots env ck r)" and "moves r (fill_slots env ck r)"
    and "filled (fill_slots env ck r)"
    and "first_pending r \<noteq> None \<Longrightarrow> slots_held r < gs_slots (snap r) \<Longrightarrow> work (fill_slots env ck r) < work r"
    and "\<not> group_over (gs_state (snap r)) \<Longrightarrow> \<not> group_over (gs_state (snap (fill_slots env ck r)))"
proof -
  have run: "gs_state (snap r) = Running" if "first_pending r = Some i" for i
  proof -
    have "i < length (items r)" "it_state (items r ! i) = Pending"
      using that index_from_0_Some unfolding first_pending_def by blast+
    then show ?thesis using pending_running [OF assms(2) nth_mem] by (simp add: waiting_def)
  qed
  have "group_ok tid (fill_slots env ck r) \<and> moves r (fill_slots env ck r) \<and> filled (fill_slots env ck r)
    \<and> (first_pending r \<noteq> None \<longrightarrow> slots_held r < gs_slots (snap r) \<longrightarrow> work (fill_slots env ck r) < work r)
    \<and> (\<not> group_over (gs_state (snap r)) \<longrightarrow> \<not> group_over (gs_state (snap (fill_slots env ck r))))"
  proof (cases "gs_state (snap r) = Running")
    case True
    then have "fill_slots env ck r = fill_loop env ck r" by (simp add: fill_slots_def)
    then show ?thesis using fill_loop_ok [OF assms True, of ck] by metis
  next
    case False
    then have "first_pending r = None" using run by (cases "first_pending r") auto
    moreover have "fill_slots env ck r = r" using False by (simp add: fill_slots_def)
    ultimately show ?thesis using False assms(2) moves_refl by (simp add: filled_def)
  qed
  then show "group_ok tid (fill_slots env ck r)" "moves r (fill_slots env ck r)"
    "filled (fill_slots env ck r)"
    "first_pending r \<noteq> None \<Longrightarrow> slots_held r < gs_slots (snap r) \<Longrightarrow> work (fill_slots env ck r) < work r"
    "\<not> group_over (gs_state (snap r)) \<Longrightarrow> \<not> group_over (gs_state (snap (fill_slots env ck r)))"
    by blast+
qed

end
