(* ===== verification/RotationSettle.thy ===== *)
theory RotationSettle
  imports RotationFill
begin

text \<open>
  Every operation on a group keeps the invariant and leaves the group settled:
  its slots are filled or nothing waits, and it is over exactly when no domain
  waits or runs.
\<close>

section \<open>Ending a group\<close>

lemma over_idle:
  assumes "group_ok tid r" and "group_over (gs_state (snap r))"
  shows "idle r"
  unfolding idle_def
proof
  fix it assume "it \<in> set (items r)"
  then have "state_ok r it (it_state it)" using assms(1) by (simp add: group_ok_def item_ok_def)
  then show "\<not> holds_slot (it_state it) \<and> it_state it \<noteq> Pending"
    using assms(2) by (cases "it_state it") (auto simp: holds_slot_def)
qed

lemma not_idle_slot:
  assumes "group_ok tid r" and "filled r" and "\<not> idle r"
  shows "0 < slots_held r"
proof (cases "\<exists>it\<in>set (items r). holds_slot (it_state it)")
  case True
  then show ?thesis by (auto simp: slots_held_def filter_empty_conv)
next
  case False
  then obtain it where it: "it \<in> set (items r)" "it_state it = Pending"
    using assms(3) by (auto simp: idle_def)
  have "gs_state (snap r) = Running"
    using pending_running [OF assms(1) it(1)] it(2) by (simp add: waiting_def)
  moreover have "first_pending r \<noteq> None"
    unfolding first_pending_def index_from_None using it by blast
  ultimately have "slots_held r = gs_slots (snap r)" using assms(2) by (simp add: filled_def)
  then show ?thesis using assms(1) by (simp add: group_ok_def)
qed

lemma filter_dict_get:
  assumes "dict_ok d"
  shows "dict_get (filter (\<lambda>(t, g, p). g \<noteq> gid) d) t =
    (case dict_get d t of None \<Rightarrow> None | Some (g, p) \<Rightarrow> if g \<noteq> gid then Some (g, p) else None)"
proof -
  have eq: "(\<lambda>(t, g, p). g \<noteq> gid) = (\<lambda>(t, v). fst v \<noteq> gid)" by auto
  show ?thesis
    unfolding eq using dict_get_filter [OF assms, of "\<lambda>t v. fst v \<noteq> gid" t] by (auto split: option.splits)
qed

lemma final_state_over: "group_over (final_state r)"
  by (cases "gs_state (snap r)") (simp_all add: final_state_def)

lemma retire_effect:
  "items (retire_runtime r) = items r \<and> gs_id (snap (retire_runtime r)) = gs_id (snap r)
   \<and> gs_state (snap (retire_runtime r)) = gs_state (snap r)
   \<and> gs_slots (snap (retire_runtime r)) = gs_slots (snap r)
   \<and> gs_policy (snap (retire_runtime r)) = gs_policy (snap r)
   \<and> rg_serial (fst (retire_runtime r)) = rg_serial (fst r)
   \<and> (\<forall>p. dict_get (rg_handles (fst (retire_runtime r))) p = None)
   \<and> sh_tasks (snd (retire_runtime r)) = filter (\<lambda>(t, g, p). g \<noteq> gs_id (snap r)) (sh_tasks (snd r))
   \<and> sh_timers (snd (retire_runtime r)) = sh_timers (snd r)
   \<and> sh_starts (snd (retire_runtime r)) = sh_starts (snd r)
   \<and> sh_scheduled (snd (retire_runtime r)) = sh_scheduled (snd r)
   \<and> set (sh_cancelled (snd (retire_runtime r)))
        = set (sh_cancelled (snd r)) \<union> {n. \<exists>p. dict_get (rg_handles (fst r)) p = Some n}"
  using cancel_all_effect [of r] by (simp add: retire_runtime_def Let_def quiet_def)

text \<open>What is left of a group that is over, whether or not the manager keeps it.\<close>

lemma retired_ok:
  assumes ok: "group_ok tid r" and idle: "idle r"
    and same: "items r1 = items r" "gs_id (snap r1) = gs_id (snap r)"
      "gs_slots (snap r1) = gs_slots (snap r)" "gs_policy (snap r1) = gs_policy (snap r)"
      "rg_serial (fst r1) = rg_serial (fst r)" "rg_handles (fst r1) = rg_handles (fst r)"
      "sh_tasks (snd r1) = sh_tasks (snd r)" "sh_timers (snd r1) = sh_timers (snd r)"
      "sh_cancelled (snd r1) = sh_cancelled (snd r)" "sh_starts (snd r1) = sh_starts (snd r)"
      "sh_scheduled (snd r1) = sh_scheduled (snd r)"
    and over: "group_over (gs_state (snap r1))"
  shows "settled tid (retire_runtime r1)" and "moves r (retire_runtime r1)"
    and "group_over (gs_state (snap (retire_runtime r1)))"
    and "\<And>t p. dict_get (sh_tasks (snd (retire_runtime r1))) t \<noteq> Some (gs_id (snap r), p)"
proof -
  let ?r' = "retire_runtime r1"
  note e = retire_effect [of r1, unfolded same]
  have sh: "shared_ok tid (snd r)" using ok by (simp add: group_ok_def)
  then have d: "dict_ok (sh_tasks (snd r))" by (simp add: shared_ok_def task_dict_def)
  have get: "dict_get (sh_tasks (snd ?r')) t = (case dict_get (sh_tasks (snd r)) t of None \<Rightarrow> None
      | Some (g, p) \<Rightarrow> if g \<noteq> gs_id (snap r) then Some (g, p) else None)" for t
    using e filter_dict_get [OF d, of "gs_id (snap r)" t] by simp
  show none: "dict_get (sh_tasks (snd ?r')) t \<noteq> Some (gs_id (snap r), p)" for t p
    unfolding get by (auto split: option.splits if_splits)
  show over': "group_over (gs_state (snap ?r'))" using e over by simp
  have timer: "\<exists>t\<in>set (sh_timers (snd r)). rt_number t = n \<and> rt_serial t = rg_serial (fst r)"
    if "dict_get (rg_handles (fst r)) p = Some n" for p n
    using that handles_own_timers [of r] ok by (simp add: group_ok_def own_timers_def)
  have c: "n \<in> set (sh_cancelled (snd r)) \<or> (\<exists>t\<in>set (sh_timers (snd r)). rt_number t = n \<and> rt_serial t = rg_serial (fst r))"
    if "n \<in> set (sh_cancelled (snd ?r'))" for n
    using that e timer by auto
  have st: "sh_tasks (snd r\<lparr>sh_cancelled := sh_cancelled (snd ?r')\<rparr>) = sh_tasks (snd r)"
    "sh_timers (snd r\<lparr>sh_cancelled := sh_cancelled (snd ?r')\<rparr>) = sh_timers (snd r)"
    "sh_starts (snd r\<lparr>sh_cancelled := sh_cancelled (snd ?r')\<rparr>) = sh_starts (snd r)"
    "sh_scheduled (snd r\<lparr>sh_cancelled := sh_cancelled (snd ?r')\<rparr>) = sh_scheduled (snd r)"
    "set (sh_cancelled (snd r)) \<subseteq> set (sh_cancelled (snd r\<lparr>sh_cancelled := sh_cancelled (snd ?r')\<rparr>))"
    using e by simp_all
  have fr: "frame g (rg_serial (fst r)) (snd r) (snd r\<lparr>sh_cancelled := sh_cancelled (snd ?r')\<rparr>)"
    "shared_ok tid (snd r\<lparr>sh_cancelled := sh_cancelled (snd ?r')\<rparr>)" for g
    using frame_cancelled [OF sh st, where s = "rg_serial (fst r)"] c by simp_all
  have tk: "dict_get (sh_tasks (snd ?r')) t = Some (g, p) \<longleftrightarrow> dict_get (sh_tasks (snd r)) t = Some (g, p)"
    if "g \<noteq> gs_id (snap r)" for t g p
    unfolding get using that by (auto split: option.splits if_splits)
  have frame: "frame (gs_id (snap r)) (rg_serial (fst r)) (snd r) (snd ?r')"
    using fr(1) tk e unfolding frame_def by (simp add: starts_of_def)
  have sh': "shared_ok tid (snd ?r')"
  proof -
    have "\<exists>n<length (sh_starts (snd r)). t = tid n" if "dict_get (sh_tasks (snd ?r')) t = Some v" for t v
    proof -
      have "dict_get (sh_tasks (snd r)) t = Some v"
        using that unfolding get by (auto split: option.splits if_splits)
      then show ?thesis using sh unfolding shared_ok_def by blast
    qed
    moreover have "task_dict (snd ?r')" using d e by (simp add: task_dict_def)
    ultimately show ?thesis
      using fr(2) e unfolding shared_ok_def by (simp add: starts_of_def task_dict_def)
  qed
  have run: "gs_state (snap ?r') \<noteq> Running" using over' by auto
  have item: "item_ok ?r' it" if it: "it \<in> set (items r)" for it
  proof -
    have o: "item_ok r it" using ok it by (simp add: group_ok_def)
    have "\<not> holds_slot (it_state it)" "it_state it \<noteq> Pending" using idle it by (auto simp: idle_def)
    then have "state_ok ?r' it (it_state it)"
      using run by (cases "it_state it") (simp_all add: holds_slot_def)
    then show ?thesis using o e by (simp add: item_ok_def starts_of_def)
  qed
  have "slots_held ?r' = slots_held r" using e by (simp add: slots_held_def)
  moreover have "handles_ok ?r'" using e run by (simp add: handles_ok_def)
  moreover have "tasks_ok ?r'" using none e by (simp add: tasks_ok_def)
  ultimately have g: "group_ok tid ?r'" using ok e sh' item by (simp add: group_ok_def)
  then show "settled tid ?r'"
    using over' run idle e by (simp add: settled_def filled_def idle_def)
  show "moves r ?r'"
    using frame e over' run by (simp add: moves_def work_def)
qed

lemma finalize_ok:
  assumes ok: "group_ok tid r" and fl: "filled r" and fin: "finalize_if_idle env ck r = (gone, r')"
  shows "settled tid r'" and "moves r r'"
    and "gone \<Longrightarrow> group_over (gs_state (snap r')) \<and> (\<forall>t p. dict_get (sh_tasks (snd r')) t \<noteq> Some (gs_id (snap r), p))"
proof -
  have "settled tid r' \<and> moves r r' \<and> (gone \<longrightarrow> group_over (gs_state (snap r'))
      \<and> (\<forall>t p. dict_get (sh_tasks (snd r')) t \<noteq> Some (gs_id (snap r), p)))"
  proof (cases "idle r")
    case False
    then have "r' = r" "\<not> gone" using fin by (simp_all add: finalize_if_idle_def)
    moreover have "\<not> group_over (gs_state (snap r))" using over_idle [OF ok] False by blast
    ultimately show ?thesis
      using ok fl not_idle_slot [OF ok fl False] by (simp add: settled_def)
  next
    case True
    define r0 where "r0 = upd_snap (\<lambda>s. s\<lparr>gs_state := final_state r,
        gs_finished := Some (case gs_finished s of Some f \<Rightarrow> f | None \<Rightarrow> ck_wall ck)\<rparr>) r"
    have r': "r' = retire_runtime (persisted env ck r0)"
      using fin True by (simp add: finalize_if_idle_def r0_def persisted_def Let_def case_prod_unfold)
    have r0: "items r0 = items r" "gs_id (snap r0) = gs_id (snap r)" "gs_slots (snap r0) = gs_slots (snap r)"
      "gs_policy (snap r0) = gs_policy (snap r)" "rg_serial (fst r0) = rg_serial (fst r)"
      "rg_handles (fst r0) = rg_handles (fst r)" "snd r0 = snd r" "gs_state (snap r0) = final_state r"
      by (simp_all add: r0_def upd_snap_def)
    note ret = retired_ok [OF ok True, of "persisted env ck r0"]
    show ?thesis
      unfolding r' using ret r0 by (simp add: final_state_over)
  qed
  then show "settled tid r'" "moves r r'"
    "gone \<Longrightarrow> group_over (gs_state (snap r')) \<and> (\<forall>t p. dict_get (sh_tasks (snd r')) t \<noteq> Some (gs_id (snap r), p))"
    by blast+
qed

text \<open>The last steps of most operations: store, fill the slots, end the group when it is idle.\<close>

lemma fill_finalize_ok:
  assumes f: "fresh_starts env tid" and ok: "group_ok tid r"
    and fin: "finalize_if_idle env ck (fill_slots env ck (persisted env ck r)) = (gone, r')"
  shows "settled tid r'" and "moves r r'"
    and "gone \<Longrightarrow> group_over (gs_state (snap r')) \<and> (\<forall>t p. dict_get (sh_tasks (snd r')) t \<noteq> Some (gs_id (snap r), p))"
proof -
  have p: "group_ok tid (persisted env ck r)" using ok group_ok_cong [OF same_core_persisted] by blast
  note fs = fill_slots_ok [OF f p, of ck]
  note fo = finalize_ok [OF fs(1,3) fin]
  have m: "moves r (fill_slots env ck (persisted env ck r))"
    using moves_trans [OF moves_cong [OF same_core_persisted] fs(2)] .
  show "settled tid r'" by (rule fo)
  show "moves r r'" by (rule moves_trans [OF m fo(2)])
  have "gs_id (snap (fill_slots env ck (persisted env ck r))) = gs_id (snap r)" using m by (simp add: moves_def)
  then show "gone \<Longrightarrow> group_over (gs_state (snap r')) \<and> (\<forall>t p. dict_get (sh_tasks (snd r')) t \<noteq> Some (gs_id (snap r), p))"
    using fo(3) by simp
qed

section \<open>Operations that change the quality of one item\<close>

text \<open>
  An update of item \<open>i\<close> that leaves its state, or drains it for quality, and
  touches neither the task map nor the timers.
\<close>

lemma group_ok_tweak:
  assumes ok: "group_ok tid r" and i: "i < length (items r)"
    and its: "items r' = (items r)[i := x]"
    and same: "gs_id (snap r') = gs_id (snap r)" "gs_state (snap r') = gs_state (snap r)"
      "gs_slots (snap r') = gs_slots (snap r)" "gs_policy (snap r') = gs_policy (snap r)"
      "rg_serial (fst r') = rg_serial (fst r)" "rg_handles (fst r') = rg_handles (fst r)"
      "sh_tasks (snd r') = sh_tasks (snd r)" "sh_timers (snd r') = sh_timers (snd r)"
      "sh_cancelled (snd r') = sh_cancelled (snd r)" "sh_starts (snd r') = sh_starts (snd r)"
      "sh_scheduled (snd r') = sh_scheduled (snd r)"
    and ledgers: "\<And>p. p \<noteq> it_position (items r ! i) \<Longrightarrow> ledger_at p (fst r') = ledger_at p (fst r)"
    and x: "it_position x = it_position (items r ! i)" "it_task x = it_task (items r ! i)"
      "it_retry_count x = it_retry_count (items r ! i)"
    and old: "task_state (it_state (items r ! i))"
    and st: "(it_state x = it_state (items r ! i)
        \<and> it_trigger x = it_trigger (items r ! i)
        \<and> (it_state x = Active \<longrightarrow> ledger_sound r' x \<and> good_quality (gs_policy (snap r)) (it_quality x)))
      \<or> (it_state (items r ! i) = Active \<and> it_state x = Draining \<and> it_trigger x \<noteq> None)"
  shows "group_ok tid r'" and "moves r r'" and "slots_held r' = slots_held r"
    and "first_pending r' \<noteq> None \<Longrightarrow> first_pending r \<noteq> None"
proof -
  let ?old = "items r ! i"
  have po: "positions_ok (items r)" using ok by (simp add: group_ok_def)
  have pos: "it_position ?old = i + 1" using po i by (simp add: positions_ok_def)
  have o: "item_ok r ?old" using ok i by (simp add: group_ok_def)
  have h: "handles_ok r" using ok by (simp add: group_ok_def)
  have m: "mapped r' x = mapped r ?old" using same x by (simp add: mapped_def)
  have live: "holds_slot (it_state x) = holds_slot (it_state ?old)" "\<not> waiting (it_state x)"
    "\<not> waiting (it_state ?old)" "it_state x \<noteq> RetryWait" "task_state (it_state x)"
    using st old by (auto simp: holds_slot_def task_state_def waiting_def)
  have "state_ok r' x (it_state x)"
    using st o old m same by (cases "it_state ?old") (auto simp: item_ok_def task_state_def)
  then have xok: "item_ok r' x"
    using o x same live by (simp add: item_ok_def starts_of_def)
  have tt: "\<not> group_over (gs_state (snap r)) \<and> it_task x = t \<and> task_state (it_state x)"
    if t: "dict_get (sh_tasks (snd r)) t = Some (gs_id (snap r), i + 1)" for t
  proof -
    obtain j where "i + 1 = j + 1" "it_task (items r ! j) = t" "\<not> group_over (gs_state (snap r))"
      using task_item [OF ok t] by metis
    then show ?thesis using x live by simp
  qed
  have sh: "shared_ok tid (snd r')"
    using ok same by (simp add: group_ok_def shared_ok_def task_dict_def starts_of_def)
  show "group_ok tid r'"
  proof (rule group_ok_replace [OF ok i its _ same(1-5) _ sh _ xok])
    show "gs_state (snap r) = Running \<and> n \<notin> set (sh_cancelled (snd r')) \<and> it_state x = RetryWait
      \<and> (\<exists>t\<in>set (sh_timers (snd r')). rt_number t = n \<and> rt_serial t = rg_serial (fst r)
           \<and> rt_position t = i + 1 \<and> rt_group t = gs_id (snap r) \<and> it_retry_count x = rt_retry t)"
      if "dict_get (rg_handles (fst r')) (i + 1) = Some n" for n
    proof -
      from that same h obtain it where "it \<in> set (items r)" "it_position it = i + 1" "it_state it = RetryWait"
        unfolding handles_ok_def timer_of_def by metis
      with positions_ok_same [OF po _ i] live show ?thesis by (auto simp: waiting_def)
    qed
    show "dict_get (rg_handles (fst r')) (i + 1) = Some (rt_number t)"
      if "t \<in> set (sh_timers (snd r'))" "rt_serial t = rg_serial (fst r)" "rt_position t = i + 1"
        "gs_state (snap r) = Running" for t
      using that h same by (auto simp: handles_ok_def)
    show "\<not> group_over (gs_state (snap r)) \<and> it_task x = t \<and> task_state (it_state x)"
      if "dict_get (sh_tasks (snd r')) t = Some (gs_id (snap r), i + 1)" for t
      using tt that same by simp
  qed (use same x pos live ledgers in \<open>simp_all add: starts_of_def\<close>)
  have w: "work r' + item_weight ?old = work r + item_weight x"
    unfolding work_def its by (rule work_update [OF i])
  have "item_weight x = item_weight ?old"
    using x st by (auto simp: item_weight_def weight.simps waiting_def)
  with w have "work r' = work r" by linarith
  then show "moves r r'"
    using same its by (simp add: moves_def frame_def starts_of_def)
  show "slots_held r' = slots_held r"
    using slots_held_update [OF i, of "\<lambda>it. holds_slot (it_state it)" x] live
    unfolding slots_held_def its by (auto split: if_splits)
  show "first_pending r \<noteq> None" if "first_pending r' \<noteq> None"
    using that live(2) i unfolding first_pending_def index_from_None its
    by (metis in_update_cases nth_mem waiting_def)
qed

lemma settled_tweak:
  assumes "settled tid r" and "group_ok tid r'" and "moves r r'" and "slots_held r' = slots_held r"
    and "first_pending r' \<noteq> None \<Longrightarrow> first_pending r \<noteq> None" and "gs_state (snap r') = gs_state (snap r)"
  shows "settled tid r'"
proof -
  have "filled r'" using assms by (auto simp: settled_def filled_def moves_def)
  then show ?thesis using assms over_idle by (auto simp: settled_def)
qed

end
