(* ===== verification/RotationQuality.thy ===== *)
theory RotationQuality
  imports RotationSettle
begin

text \<open>
  The callbacks that report registrations and payment links: the domain in use is
  drained as soon as its counters cross a threshold of the policy, and nothing
  else about the group changes.
\<close>

section \<open>Changes of one item\<close>

definition tweaks :: "nat \<Rightarrow> group_run \<Rightarrow> group_run \<Rightarrow> bool" where
  "tweaks i r r' \<longleftrightarrow> items r' = (items r)[i := items r' ! i]
     \<and> it_position (items r' ! i) = it_position (items r ! i) \<and> it_task (items r' ! i) = it_task (items r ! i)
     \<and> it_retry_count (items r' ! i) = it_retry_count (items r ! i)
     \<and> gs_id (snap r') = gs_id (snap r) \<and> gs_state (snap r') = gs_state (snap r)
     \<and> gs_slots (snap r') = gs_slots (snap r) \<and> gs_policy (snap r') = gs_policy (snap r)
     \<and> rg_serial (fst r') = rg_serial (fst r) \<and> rg_handles (fst r') = rg_handles (fst r)
     \<and> sh_tasks (snd r') = sh_tasks (snd r) \<and> sh_timers (snd r') = sh_timers (snd r)
     \<and> sh_cancelled (snd r') = sh_cancelled (snd r) \<and> sh_starts (snd r') = sh_starts (snd r)
     \<and> sh_scheduled (snd r') = sh_scheduled (snd r)
     \<and> (\<forall>p. p \<noteq> it_position (items r ! i) \<longrightarrow> ledger_at p (fst r') = ledger_at p (fst r))"

lemma tweaks_refl [simp]: "tweaks i r r"
  by (simp add: tweaks_def)

lemma tweaks_trans: "tweaks i a b \<Longrightarrow> tweaks i b c \<Longrightarrow> tweaks i a c"
  unfolding tweaks_def by (metis list_update_overwrite)

lemma tweaks_core: "same_core r r' \<Longrightarrow> tweaks i r r'"
  by (simp add: same_core_def tweaks_def ledger_at_def)

lemma tweaks_upd_item:
  assumes "i < length (items r)" and "it_position (f (items r ! i)) = it_position (items r ! i)"
    and "it_task (f (items r ! i)) = it_task (items r ! i)"
    and "it_retry_count (f (items r ! i)) = it_retry_count (items r ! i)"
  shows "tweaks i r (upd_item i f r)"
  using assms by (simp add: tweaks_def ledger_at_def)

lemma tweaks_persisted [simp]: "tweaks i r (persisted env ck r)"
  by (rule tweaks_core) simp

lemma tweaks_mark_recovery: "i < length (items r) \<Longrightarrow> tweaks i r (mark_recovery ck i r)"
  by (simp add: mark_recovery_def tweaks_def Let_def upd_item_def upd_snap_def ledger_at_def)

lemma tweaks_recompute: "i < length (items r) \<Longrightarrow> tweaks i r (recompute_link_quality i r)"
  unfolding recompute_link_quality_def Let_def by (rule tweaks_upd_item) simp_all

lemma tweaks_set_ledger: "tweaks i r (set_ledger i l r)"
  by (simp add: set_ledger_def tweaks_def ledger_at_def)

lemma tweaks_trigger: "i < length (items r) \<Longrightarrow> tweaks i r (trigger_quality_stop env ck i code r)"
  by (simp add: trigger_quality_stop_def tweaks_def Let_def request_drain_def ledger_at_def)

lemma settled_tweaks:
  assumes st: "settled tid r" and i: "i < length (items r)" and t: "tweaks i r r'"
    and old: "task_state (it_state (items r ! i))"
    and c: "(it_state (items r' ! i) = it_state (items r ! i)
        \<and> it_trigger (items r' ! i) = it_trigger (items r ! i)
        \<and> (it_state (items r' ! i) = Active \<longrightarrow> ledger_sound r' (items r' ! i)
             \<and> good_quality (gs_policy (snap r)) (it_quality (items r' ! i))))
      \<or> (it_state (items r ! i) = Active \<and> it_state (items r' ! i) = Draining
           \<and> it_trigger (items r' ! i) \<noteq> None)"
  shows "settled tid r'" and "moves r r'"
proof -
  have ok: "group_ok tid r" using st by (simp add: settled_def)
  note tw = group_ok_tweak [OF ok i, where r' = r' and x = "items r' ! i"]
  have g: "group_ok tid r'" "moves r r'" "slots_held r' = slots_held r"
    "first_pending r' \<noteq> None \<Longrightarrow> first_pending r \<noteq> None"
    by (rule tw; use t old c in \<open>simp add: tweaks_def\<close>)+
  show "moves r r'" by (rule g)
  show "settled tid r'" by (rule settled_tweak [OF st g]) (use t in \<open>simp_all add: tweaks_def\<close>)
qed

lemma trigger_item:
  assumes "i < length (items r)"
  shows "items (trigger_quality_stop env ck i code r) ! i =
    (if it_state (items r ! i) \<noteq> Active \<or> it_task (items r ! i) = [] then items r ! i
     else (items r ! i)\<lparr>it_state := Draining, it_trigger := Some \<lparr>qt_code = code, qt_at = ck_wall ck\<rparr>\<rparr>)"
  using assms by (simp add: trigger_quality_stop_def Let_def)

lemma active_facts:
  assumes "group_ok tid r" and "i < length (items r)" and "it_state (items r ! i) = Active"
  shows "it_task (items r ! i) \<noteq> []" and "ledger_sound r (items r ! i)"
    and "good_quality (gs_policy (snap r)) (it_quality (items r ! i))"
    and "it_trigger (items r ! i) = None" and "gs_state (snap r) = Running"
  using assms by (auto simp: group_ok_def item_ok_def mapped_def dest!: bspec [OF _ nth_mem])

section \<open>Registrations\<close>

lemma registration_result_ok:
  assumes st: "settled tid r" and i: "i < length (items r)" and old: "task_state (it_state (items r ! i))"
  shows "settled tid (registration_result env ck i d r)" and "moves r (registration_result env ck i d r)"
proof -
  let ?m = "mark_recovery ck i r"
  let ?f = "\<lambda>it. it\<lparr>it_quality := count_decision d (it_quality it)\<rparr>"
  define r1 where "r1 = persisted env ck (upd_item i ?f ?m)"
  let ?old = "items r ! i" and ?p = "gs_policy (snap r)" and ?q = "count_decision d (it_quality (items r ! i))"
  have ok: "group_ok tid r" using st by (simp add: settled_def)
  have lm: "length (items ?m) = length (items r)" using i by (simp add: mark_recovery_def Let_def)
  have tm: "tweaks i r ?m" by (rule tweaks_mark_recovery [OF i])
  have t1: "tweaks i r r1"
    unfolding r1_def using tm lm i by (intro tweaks_trans [OF tm] tweaks_trans [OF tweaks_upd_item tweaks_persisted]) simp_all
  have led: "ledger_at p (fst r1) = ledger_at p (fst r)" for p
    by (simp add: r1_def ledger_at_def mark_recovery_def Let_def)
  have x1: "it_state (items r1 ! i) = it_state ?old" "it_trigger (items r1 ! i) = it_trigger ?old"
    "it_quality (items r1 ! i) = ?q" "it_task (items r1 ! i) = it_task ?old"
    "it_position (items r1 ! i) = it_position ?old"
    using i by (simp_all add: r1_def mark_recovery_def Let_def)
  have p1: "gs_policy (snap r1) = ?p" using t1 by (simp add: tweaks_def)
  have l1: "i < length (items r1)" using t1 i by (metis tweaks_def length_list_update)
  have q: "q_miss_streak ?q = q_miss_streak (it_quality ?old)" "q_registered ?q = q_registered (it_quality ?old)"
    by (simp_all add: count_decision_def Let_def)
  have eq: "registration_result env ck i d r = (if too_many_rejections ?p ?q
      then trigger_quality_stop env ck i (RejectionRateExceeded (q_disallowed ?q) (q_decisions ?q)
        (rp_rejection_threshold ?p) (rp_min_samples ?p)) r1 else r1)"
    unfolding registration_result_def r1_def [symmetric] Let_def p1 x1 by simp
  define r' where "r' = registration_result env ck i d r"
  have t: "tweaks i r r'"
    unfolding r'_def eq using tweaks_trans [OF t1 tweaks_trigger [OF l1]] t1 by simp
  have ls: "ledger_sound r' (items r1 ! i)" if a: "it_state ?old = Active" "r' = r1"
  proof -
    have "ledger_sound r ?old" using active_facts [OF ok i a(1)] by simp
    then show ?thesis using a(2) x1 q led by (simp add: ledger_sound_def)
  qed
  have c: "(it_state (items r' ! i) = it_state ?old \<and> it_trigger (items r' ! i) = it_trigger ?old
        \<and> (it_state (items r' ! i) = Active \<longrightarrow> ledger_sound r' (items r' ! i)
             \<and> good_quality ?p (it_quality (items r' ! i))))
      \<or> (it_state ?old = Active \<and> it_state (items r' ! i) = Draining \<and> it_trigger (items r' ! i) \<noteq> None)"
  proof (cases "it_state ?old = Active")
    case True
    note a = active_facts [OF ok i True]
    show ?thesis
    proof (cases "too_many_rejections ?p ?q")
      case bad: True
      then show ?thesis using True a x1 l1 by (simp add: r'_def eq trigger_item)
    next
      case False
      then have "r' = r1" by (simp add: r'_def eq)
      moreover have "good_quality ?p ?q" using False a q by (simp add: good_quality_def too_many_misses_def)
      ultimately show ?thesis using ls True x1 by simp
    qed
  next
    case False
    then show ?thesis using x1 l1 by (simp add: r'_def eq trigger_item)
  qed
  show "settled tid (registration_result env ck i d r)" "moves r (registration_result env ck i d r)"
    using settled_tweaks [OF st i t old c] by (simp_all add: r'_def)
qed

section \<open>Payment links\<close>

lemma miss_streak_insert_pending:
  assumes "la_state a = LinkPending" and "dict_get l k = None"
  shows "miss_streak (ledger_order (dict_set k a l)) = miss_streak (ledger_order l)"
proof -
  have k: "k \<notin> fst ` set l" using assms(2) by (simp add: map_of_eq_None_iff)
  let ?P = "\<lambda>a. la_state a = LinkSuccess \<or> la_state a = LinkMiss"
  have "filter ?P (ledger_order (dict_set k a l)) = filter ?P (ledger_order l)"
    unfolding ledger_order_def using assms(1) dict_set_new [OF k] by (simp add: filter_sort)
  then have "filter (\<lambda>s. s = LinkSuccess \<or> s = LinkMiss) (map la_state (ledger_order (dict_set k a l)))
    = filter (\<lambda>s. s = LinkSuccess \<or> s = LinkMiss) (map la_state (ledger_order l))"
    by (simp add: filter_map comp_def)
  then show ?thesis by (simp add: miss_streak_def)
qed

lemma recompute_item:
  assumes "i < length (items r)"
  shows "ledger_sound (recompute_link_quality i r) (items (recompute_link_quality i r) ! i)"
    and "q_miss_streak (it_quality (items (recompute_link_quality i r) ! i)) = miss_streak (ledger_order (ledger i r))"
    and "q_decisions (it_quality (items (recompute_link_quality i r) ! i)) = q_decisions (it_quality (items r ! i))"
    and "q_disallowed (it_quality (items (recompute_link_quality i r) ! i)) = q_disallowed (it_quality (items r ! i))"
    and "it_state (items (recompute_link_quality i r) ! i) = it_state (items r ! i)"
    and "it_trigger (items (recompute_link_quality i r) ! i) = it_trigger (items r ! i)"
    and "fst (recompute_link_quality i r) = (fst r)\<lparr>rg_snap := rg_snap (fst (recompute_link_quality i r))\<rparr>"
  using assms by (simp_all add: recompute_link_quality_def Let_def ledger_sound_def ledger_def ledger_at_def
      upd_item_def upd_snap_def)

lemma recompute_persisted:
  "it_quality (items (persisted env ck r) ! i) = it_quality (items r ! i)"
  "ledger_sound (persisted env ck r) it = ledger_sound r it"
  by (simp_all add: ledger_sound_def ledger_at_def)

lemma registered_account_ok:
  assumes st: "settled tid r" and i: "i < length (items r)" and old: "task_state (it_state (items r ! i))"
  shows "settled tid (registered_account env ck i k order r)"
    and "moves r (registered_account env ck i k order r)"
proof -
  let ?old = "items r ! i" and ?m = "mark_recovery ck i r"
  define l where "l = ledger i ?m"
  define l' where "l' = (if dict_get l k = None
      then dict_set k \<lparr>la_id = k, la_order = positive_int order 1, la_state = LinkPending,
             la_reason = ''registration_succeeded'', la_updated = ck_wall ck\<rparr> l else l)"
  define r1 where "r1 = set_ledger i l' ?m"
  define r2 where "r2 = recompute_link_quality i r1"
  define r' where "r' = persisted env ck r2"
  have eq: "registered_account env ck i k order r = r'"
    by (simp add: registered_account_def Let_def l_def l'_def r1_def r2_def r'_def)
  have ok: "group_ok tid r" using st by (simp add: settled_def)
  have items1: "items r1 = items ?m" by (simp add: r1_def set_ledger_def)
  have lm: "i < length (items ?m)" "i < length (items r1)"
    using i items1 by (simp_all add: mark_recovery_def Let_def)
  have pm: "it_position (items ?m ! i) = it_position ?old" using i by (simp add: mark_recovery_def Let_def)
  have t: "tweaks i r r'"
    unfolding r'_def r2_def r1_def using tweaks_mark_recovery [OF i] lm
    by (intro tweaks_trans [OF tweaks_trans [OF tweaks_trans [OF tweaks_mark_recovery [OF i] tweaks_set_ledger]
          tweaks_recompute] tweaks_persisted]) (simp add: set_ledger_def)
  have ll: "ledger i r1 = l'" by (simp add: r1_def set_ledger_def ledger_def ledger_at_def)
  have lo: "l = ledger_at (it_position ?old) (fst r)"
    using pm by (simp add: l_def ledger_def ledger_at_def mark_recovery_def Let_def)
  have ms: "miss_streak (ledger_order l') = miss_streak (ledger_order l)"
    by (simp add: l'_def miss_streak_insert_pending)
  note rc = recompute_item [OF lm(2), folded r2_def]
  have x: "it_state (items r' ! i) = it_state ?old" "it_trigger (items r' ! i) = it_trigger ?old"
    "q_decisions (it_quality (items r' ! i)) = q_decisions (it_quality ?old)"
    "q_disallowed (it_quality (items r' ! i)) = q_disallowed (it_quality ?old)"
    "q_miss_streak (it_quality (items r' ! i)) = miss_streak (ledger_order l)"
    using rc ll ms i items1 by (simp_all add: r'_def mark_recovery_def Let_def)
  have sound: "ledger_sound r' (items r' ! i)" using rc(1) by (simp add: r'_def recompute_persisted)
  have good: "good_quality (gs_policy (snap r)) (it_quality (items r' ! i))" if "it_state ?old = Active"
  proof -
    note a = active_facts [OF ok i that]
    have "q_miss_streak (it_quality ?old) = miss_streak (ledger_order l)"
      using a(2) lo by (simp add: ledger_sound_def Let_def)
    then show ?thesis
      using a(3) x by (simp add: good_quality_def too_many_rejections_def too_many_misses_def)
  qed
  have c: "(it_state (items r' ! i) = it_state ?old \<and> it_trigger (items r' ! i) = it_trigger ?old
        \<and> (it_state (items r' ! i) = Active \<longrightarrow> ledger_sound r' (items r' ! i)
             \<and> good_quality (gs_policy (snap r)) (it_quality (items r' ! i))))
      \<or> (it_state ?old = Active \<and> it_state (items r' ! i) = Draining \<and> it_trigger (items r' ! i) \<noteq> None)"
    using x sound good by simp
  show "settled tid (registered_account env ck i k order r)" "moves r (registered_account env ck i k order r)"
    using settled_tweaks [OF st i t old c] by (simp_all add: eq)
qed

lemma after_link_outcome_ok:
  assumes st: "settled tid r" and i: "i < length (items r)" and old: "task_state (it_state (items r ! i))"
    and r0: "r0 = r \<or> r0 = set_ledger i l r"
  shows "settled tid (after_link_outcome env ck i r0)" and "moves r (after_link_outcome env ck i r0)"
proof -
  let ?old = "items r ! i" and ?p = "gs_policy (snap r)"
  define r1 where "r1 = persisted env ck (recompute_link_quality i r0)"
  define q where "q = it_quality (items r1 ! i)"
  define r' where "r' = after_link_outcome env ck i r0"
  have ok: "group_ok tid r" using st by (simp add: settled_def)
  have items0: "items r0 = items r" "i < length (items r0)" using r0 i by (auto simp: set_ledger_def)
  have t0: "tweaks i r r0" using r0 tweaks_set_ledger [of i r l] tweaks_refl [of i r] by metis
  have t1: "tweaks i r r1"
    unfolding r1_def by (intro tweaks_trans [OF tweaks_trans [OF t0 tweaks_recompute] tweaks_persisted] items0)
  have l1: "i < length (items r1)" using t1 i by (metis tweaks_def length_list_update)
  have p1: "gs_policy (snap r1) = ?p" using t1 by (simp add: tweaks_def)
  note rc = recompute_item [OF items0(2)]
  have x1: "it_state (items r1 ! i) = it_state ?old" "it_trigger (items r1 ! i) = it_trigger ?old"
    "q_decisions q = q_decisions (it_quality ?old)" "q_disallowed q = q_disallowed (it_quality ?old)"
    using rc items0 by (simp_all add: r1_def q_def)
  have sound: "ledger_sound r1 (items r1 ! i)" using rc(1) by (simp add: r1_def recompute_persisted)
  have eq: "r' = (if too_many_misses ?p q
      then trigger_quality_stop env ck i (NoPaymentLinkStreak (q_miss_streak q) (rp_streak_threshold ?p)) r1 else r1)"
    unfolding r'_def after_link_outcome_def r1_def [symmetric] Let_def p1 q_def by simp
  have t: "tweaks i r r'"
    unfolding eq using tweaks_trans [OF t1 tweaks_trigger [OF l1]] t1 by simp
  have tk: "it_task (items r1 ! i) = it_task ?old" using t1 by (simp add: tweaks_def)
  have c: "(it_state (items r' ! i) = it_state ?old \<and> it_trigger (items r' ! i) = it_trigger ?old
        \<and> (it_state (items r' ! i) = Active \<longrightarrow> ledger_sound r' (items r' ! i)
             \<and> good_quality ?p (it_quality (items r' ! i))))
      \<or> (it_state ?old = Active \<and> it_state (items r' ! i) = Draining \<and> it_trigger (items r' ! i) \<noteq> None)"
  proof (cases "it_state ?old = Active")
    case True
    note a = active_facts [OF ok i True]
    show ?thesis
    proof (cases "too_many_misses ?p q")
      case bad: True
      then show ?thesis using True a x1 l1 tk by (simp add: eq trigger_item)
    next
      case False
      then have "r' = r1" by (simp add: eq)
      moreover have "good_quality ?p q"
        using False a x1 by (simp add: good_quality_def too_many_rejections_def)
      ultimately show ?thesis using sound True x1 by (simp add: q_def)
    qed
  next
    case False
    then show ?thesis using x1 l1 by (simp add: eq trigger_item)
  qed
  show "settled tid (after_link_outcome env ck i r0)" "moves r (after_link_outcome env ck i r0)"
    using settled_tweaks [OF st i t old c] by (simp_all add: r'_def)
qed

lemma apply_outcome_ok:
  assumes st: "settled tid r" and i: "i < length (items r)" and old: "task_state (it_state (items r ! i))"
  shows "settled tid (apply_outcome env ck i k reason change r)"
    and "moves r (apply_outcome env ck i k reason change r)"
  by (cases "dict_get (ledger i r) k"; cases "change (la_state (the (dict_get (ledger i r) k)))";
      simp add: apply_outcome_def st after_link_outcome_ok(1) [OF assms disjI1 [OF refl]]
        after_link_outcome_ok(1) [OF assms disjI2 [OF refl]])
    (cases "dict_get (ledger i r) k"; cases "change (la_state (the (dict_get (ledger i r) k)))";
      simp add: apply_outcome_def after_link_outcome_ok(2) [OF assms disjI1 [OF refl]]
        after_link_outcome_ok(2) [OF assms disjI2 [OF refl]])

end
