(* ===== verification/RotationEnd.thy ===== *)
theory RotationEnd
  imports RotationQuality
begin

text \<open>
  The end of a task: its domain ends, or waits for a technical retry, or the group
  winds down; then the free slot is filled. The retry timers and the operator's
  stop are the other two ways a waiting domain moves on.
\<close>

section \<open>The task of an item is over\<close>

definition finished :: "domain_state \<Rightarrow> bool" where
  "finished s \<longleftrightarrow> \<not> holds_slot s \<and> s \<noteq> Pending \<and> s \<noteq> StartFailed"

lemma finished_ok: "finished s \<Longrightarrow> state_ok r it s"
  by (cases s) (simp_all add: finished_def holds_slot_def)

lemma no_handle:
  assumes "group_ok tid r" and "i < length (items r)" and "it_state (items r ! i) \<noteq> RetryWait"
  shows "dict_get (rg_handles (fst r)) (i + 1) = None"
proof (rule ccontr)
  assume "dict_get (rg_handles (fst r)) (i + 1) \<noteq> None"
  then obtain n where "dict_get (rg_handles (fst r)) (i + 1) = Some n" by blast
  moreover have "handles_ok r" "positions_ok (items r)" using assms(1) by (simp_all add: group_ok_def)
  ultimately obtain it where "it \<in> set (items r)" "it_position it = i + 1" "it_state it = RetryWait"
    unfolding handles_ok_def timer_of_def by metis
  with positions_ok_same [OF \<open>positions_ok (items r)\<close> _ assms(2)] assms(3) show False by blast
qed

lemma no_timer:
  assumes "group_ok tid r" and "i < length (items r)" and "it_state (items r ! i) \<noteq> RetryWait"
    and "gs_state (snap r) = Running" and "t \<in> set (sh_timers (snd r))" and "rt_serial t = rg_serial (fst r)"
  shows "rt_position t \<noteq> i + 1"
  using no_handle [OF assms(1-3)] assms by (auto simp: group_ok_def handles_ok_def)

lemma end_item_ok:
  assumes ok: "group_ok tid r" and i: "i < length (items r)"
    and t: "dict_get (sh_tasks (snd r)) t = Some (gs_id (snap r), i + 1)"
    and its: "items r' = (items r)[i := x]"
    and same: "gs_id (snap r') = gs_id (snap r)" "gs_state (snap r') = gs_state (snap r)"
      "gs_slots (snap r') = gs_slots (snap r)" "gs_policy (snap r') = gs_policy (snap r)"
      "rg_serial (fst r') = rg_serial (fst r)" "rg_handles (fst r') = rg_handles (fst r)"
      "sh_tasks (snd r') = dict_pop t (sh_tasks (snd r))" "sh_timers (snd r') = sh_timers (snd r)"
      "sh_cancelled (snd r') = sh_cancelled (snd r)" "sh_starts (snd r') = sh_starts (snd r)"
      "sh_scheduled (snd r) \<le> sh_scheduled (snd r')"
    and ledgers: "\<And>p. p \<noteq> i + 1 \<Longrightarrow> ledger_at p (fst r') = ledger_at p (fst r)"
    and x: "it_position x = i + 1" "finished (it_state x)"
      "it_retry_count (items r ! i) \<le> it_retry_count x" "it_retry_count x \<le> technical_retry_limit"
  shows "group_ok tid r'" and "moves r r'"
    and "holds_slot (it_state (items r ! i)) \<Longrightarrow> work r' < work r"
proof -
  let ?old = "items r ! i"
  have po: "positions_ok (items r)" and sh: "shared_ok tid (snd r)" using ok by (simp_all add: group_ok_def)
  have pos: "it_position ?old = i + 1" using po i by (simp add: positions_ok_def)
  have o: "item_ok r ?old" using ok i by (simp add: group_ok_def)
  obtain ts: "task_state (it_state ?old)" and tk: "it_task ?old = t" and run: "\<not> group_over (gs_state (snap r))"
    using task_item [OF ok t] by (metis add_right_cancel)
  have nr: "it_state ?old \<noteq> RetryWait" "\<not> waiting (it_state ?old)" using ts by (auto simp: task_state_def waiting_def)
  have nw: "\<not> waiting (it_state x)" "\<not> live_task (it_state x)" "\<not> holds_slot (it_state x)"
    using x(2) by (auto simp: finished_def holds_slot_def waiting_def)
  have "starts_of (rg_serial (fst r)) (i + 1) (snd r) \<le> it_retry_count x + 1"
    using o pos nr x(3) by (simp add: item_ok_def)
  then have xok: "item_ok r' x"
    using x same finished_ok [OF x(2)] nw by (simp add: item_ok_def starts_of_def)
  have get: "dict_get (sh_tasks (snd r')) t' = (if t' = t then None else dict_get (sh_tasks (snd r)) t')" for t'
    using same(7) by simp
  have sh': "shared_ok tid (snd r')"
  proof -
    have "\<exists>n<length (sh_starts (snd r)). t' = tid n" if "dict_get (sh_tasks (snd r')) t' = Some v" for t' v
      using that sh get unfolding shared_ok_def by (metis option.distinct(1))
    moreover have "task_dict (snd r')" using sh same(7) by (simp add: shared_ok_def task_dict_def)
    moreover have "rt_number t' < sh_scheduled (snd r')" if "t' \<in> set (sh_timers (snd r))" for t'
      using sh that same(11) by (auto simp: shared_ok_def intro: less_le_trans)
    moreover have "n < sh_scheduled (snd r')" if "n \<in> set (sh_cancelled (snd r))" for n
      using sh that same(11) by (auto simp: shared_ok_def intro: less_le_trans)
    moreover have "starts_of s p (snd r') \<le> technical_retry_limit + 1" for s p
      using sh same(10) by (simp add: shared_ok_def starts_of_def)
    ultimately show ?thesis using sh same unfolding shared_ok_def by simp
  qed
  note nh = no_handle [OF ok i nr(1)]
  show "group_ok tid r'"
  proof (rule group_ok_replace [OF ok i its x(1) same(1-5) ledgers sh' _ xok])
    show "\<not> group_over (gs_state (snap r)) \<and> it_task x = t' \<and> task_state (it_state x)"
      if "dict_get (sh_tasks (snd r')) t' = Some (gs_id (snap r), i + 1)" for t'
    proof -
      from that get have t': "dict_get (sh_tasks (snd r)) t' = Some (gs_id (snap r), i + 1)" "t' \<noteq> t"
        by (auto split: if_splits)
      have "it_task ?old = t'" using task_item [OF ok t'(1)] by (metis add_right_cancel)
      with tk t'(2) show ?thesis by simp
    qed
    show "dict_get (rg_handles (fst r')) (i + 1) = Some (rt_number t')"
      if "t' \<in> set (sh_timers (snd r'))" "rt_serial t' = rg_serial (fst r)" "rt_position t' = i + 1"
        "gs_state (snap r) = Running" for t'
      using no_timer [OF ok i nr(1) that(4) _ that(2)] that same by simp
    show "dict_get (sh_tasks (snd r')) t' = Some (gs_id (snap r), p) \<longleftrightarrow>
      dict_get (sh_tasks (snd r)) t' = Some (gs_id (snap r), p)" if "p \<noteq> i + 1" for t' p
      using get t that by auto
  qed (use same nh nw in \<open>simp_all add: starts_of_def\<close>)
  have w: "work r' + item_weight ?old = work r + item_weight x"
    unfolding work_def its by (rule work_update [OF i])
  have zero: "item_weight x = 0" using nw by (simp add: item_weight_def weight.simps)
  with w have le: "work r' \<le> work r" by linarith
  have frame: "frame (gs_id (snap r)) (rg_serial (fst r)) (snd r) (snd r')"
    using same get t by (auto simp: frame_def starts_of_def)
  show "moves r r'" using frame same its le run by (simp add: moves_def)
  show "work r' < work r" if h: "holds_slot (it_state ?old)"
  proof -
    have "0 < item_weight ?old" using h nr by (auto simp: item_weight_def weight.simps holds_slot_def waiting_def)
    with w zero show ?thesis by linarith
  qed
qed

section \<open>Waiting for a retry\<close>

lemma wait_item_ok:
  assumes ok: "group_ok tid r" and i: "i < length (items r)"
    and t: "dict_get (sh_tasks (snd r)) t = Some (gs_id (snap r), i + 1)"
    and its: "items r' = (items r)[i := x]" and n: "n = sh_scheduled (snd r)"
    and same: "gs_id (snap r') = gs_id (snap r)" "gs_state (snap r') = gs_state (snap r)"
      "gs_slots (snap r') = gs_slots (snap r)" "gs_policy (snap r') = gs_policy (snap r)"
      "rg_serial (fst r') = rg_serial (fst r)"
      "rg_handles (fst r') = dict_set (i + 1) n (rg_handles (fst r))"
      "sh_tasks (snd r') = dict_pop t (sh_tasks (snd r))"
      "sh_timers (snd r') = sh_timers (snd r) @ [tm]"
      "sh_cancelled (snd r') = sh_cancelled (snd r)" "sh_starts (snd r') = sh_starts (snd r)"
      "sh_scheduled (snd r') = n + 1" "rg_ledgers (fst r') = rg_ledgers (fst r)"
    and tm: "rt_number tm = n" "rt_group tm = gs_id (snap r)" "rt_serial tm = rg_serial (fst r)"
      "rt_position tm = i + 1" "rt_retry tm = it_retry_count x"
    and old: "it_state (items r ! i) = Active" "untouched (items r ! i)"
      "it_retry_count (items r ! i) < technical_retry_limit"
    and x: "it_position x = i + 1" "it_state x = RetryWait" "it_quality x = it_quality (items r ! i)"
      "it_trigger x = it_trigger (items r ! i)" "it_retry_count x = it_retry_count (items r ! i) + 1"
  shows "group_ok tid r'" and "moves r r'" and "work r' < work r"
proof -
  let ?old = "items r ! i"
  have po: "positions_ok (items r)" and sh: "shared_ok tid (snd r)" and h: "handles_ok r"
    using ok by (simp_all add: group_ok_def)
  have pos: "it_position ?old = i + 1" using po i by (simp add: positions_ok_def)
  have o: "item_ok r ?old" using ok i by (simp add: group_ok_def)
  note af = active_facts [OF ok i old(1)]
  have tk: "it_task ?old = t" using task_item [OF ok t] by (metis add_right_cancel)
  have led: "ledger_at p (fst r') = ledger_at p (fst r)" for p using same by (simp add: ledger_at_def)
  have "ledger_sound r' x" using af(2) led x pos by (simp add: ledger_sound_def)
  moreover have "starts_of (rg_serial (fst r)) (i + 1) (snd r) \<le> it_retry_count ?old + 1"
    using o pos old(1) by (simp add: item_ok_def waiting_def)
  ultimately have xok: "item_ok r' x"
    using x old same af by (simp add: item_ok_def starts_of_def waiting_def untouched_def)
  have get: "dict_get (sh_tasks (snd r')) t' = (if t' = t then None else dict_get (sh_tasks (snd r)) t')" for t'
    using same(7) by simp
  have lt: "\<forall>t'\<in>set (sh_timers (snd r)). rt_number t' < n" "\<forall>m\<in>set (sh_cancelled (snd r)). m < n"
    using sh n by (simp_all add: shared_ok_def)
  have sh': "shared_ok tid (snd r')"
  proof -
    have "\<exists>m<length (sh_starts (snd r)). t' = tid m" if "dict_get (sh_tasks (snd r')) t' = Some v" for t' v
      using that sh get unfolding shared_ok_def by (metis option.distinct(1))
    moreover have "task_dict (snd r')" using sh same(7) by (simp add: shared_ok_def task_dict_def)
    moreover have "distinct (map rt_number (sh_timers (snd r')))"
      using sh same(8) tm(1) lt(1) by (auto simp: shared_ok_def)
    moreover have "starts_of s p (snd r') \<le> technical_retry_limit + 1" for s p
      using sh same(10) by (simp add: shared_ok_def starts_of_def)
    ultimately show ?thesis using sh same lt tm(1) unfolding shared_ok_def by (auto simp: less_Suc_eq)
  qed
  have nr: "it_state ?old \<noteq> RetryWait" using old by simp
  show "group_ok tid r'"
  proof (rule group_ok_replace [OF ok i its x(1) same(1-5) led sh' _ xok])
    show "\<not> group_over (gs_state (snap r)) \<and> it_task x = t' \<and> task_state (it_state x)"
      if "dict_get (sh_tasks (snd r')) t' = Some (gs_id (snap r), i + 1)" for t'
    proof -
      from that get have t': "dict_get (sh_tasks (snd r)) t' = Some (gs_id (snap r), i + 1)" "t' \<noteq> t"
        by (auto split: if_splits)
      have "it_task ?old = t'" using task_item [OF ok t'(1)] by (metis add_right_cancel)
      with tk t'(2) show ?thesis by simp
    qed
    show "gs_state (snap r) = Running \<and> m \<notin> set (sh_cancelled (snd r')) \<and> it_state x = RetryWait
      \<and> (\<exists>t\<in>set (sh_timers (snd r')). rt_number t = m \<and> rt_serial t = rg_serial (fst r)
           \<and> rt_position t = i + 1 \<and> rt_group t = gs_id (snap r) \<and> it_retry_count x = rt_retry t)"
      if "dict_get (rg_handles (fst r')) (i + 1) = Some m" for m
      using that same lt tm x af by auto
    show "dict_get (rg_handles (fst r')) (i + 1) = Some (rt_number t')"
      if "t' \<in> set (sh_timers (snd r'))" "rt_serial t' = rg_serial (fst r)" "rt_position t' = i + 1"
        "gs_state (snap r) = Running" for t'
      using no_timer [OF ok i nr that(4) _ that(2)] that same tm by auto
    show "dict_get (sh_tasks (snd r')) t' = Some (gs_id (snap r), p) \<longleftrightarrow>
      dict_get (sh_tasks (snd r)) t' = Some (gs_id (snap r), p)" if "p \<noteq> i + 1" for t' p
      using get t that by auto
    show "t' \<in> set (sh_timers (snd r')) \<longleftrightarrow> t' \<in> set (sh_timers (snd r))"
      if "rt_serial t' = rg_serial (fst r)" "rt_position t' \<noteq> i + 1" for t'
      using that same tm by auto
  qed (use same old in \<open>simp_all add: starts_of_def holds_slot_def\<close>)
  have w: "work r' + item_weight ?old = work r + item_weight x"
    unfolding work_def its by (rule work_update [OF i])
  have "item_weight x < item_weight ?old"
    using x old by (simp add: item_weight_def weight.simps waiting_def)
  with w show less: "work r' < work r" by linarith
  have frame: "frame (gs_id (snap r)) (rg_serial (fst r)) (snd r) (snd r')"
    using same get t tm n by (auto simp: frame_def starts_of_def)
  show "moves r r'" using frame same its less af by (simp add: moves_def)
qed

lemma record_failure_simps [simp]:
  "items (snd (record_technical_failure ck i t c e r)) = items r"
  "gs_id (snap (snd (record_technical_failure ck i t c e r))) = gs_id (snap r)"
  "gs_state (snap (snd (record_technical_failure ck i t c e r))) = gs_state (snap r)"
  "gs_slots (snap (snd (record_technical_failure ck i t c e r))) = gs_slots (snap r)"
  "gs_policy (snap (snd (record_technical_failure ck i t c e r))) = gs_policy (snap r)"
  "rg_serial (fst (snd (record_technical_failure ck i t c e r))) = rg_serial (fst r)"
  "rg_handles (fst (snd (record_technical_failure ck i t c e r))) = rg_handles (fst r)"
  "rg_ledgers (fst (snd (record_technical_failure ck i t c e r))) = rg_ledgers (fst r)"
  "snd (snd (record_technical_failure ck i t c e r)) = snd r"
  by (simp_all add: record_technical_failure_def Let_def upd_snap_def)

lemma ledger_at_upd [simp]: "ledger_at p (fst (upd_item i f r)) = ledger_at p (fst r)"
  by (simp add: ledger_at_def)

lemma schedule_retry_ok:
  assumes ok: "group_ok tid r" and i: "i < length (items r)"
    and t: "dict_get (sh_tasks (snd r)) t = Some (gs_id (snap r), i + 1)"
    and old: "it_state (items r ! i) = Active" "untouched (items r ! i)"
    and its: "items r1 = (items r)[i := y]"
    and same: "gs_id (snap r1) = gs_id (snap r)" "gs_state (snap r1) = gs_state (snap r)"
      "gs_slots (snap r1) = gs_slots (snap r)" "gs_policy (snap r1) = gs_policy (snap r)"
      "rg_serial (fst r1) = rg_serial (fst r)" "rg_handles (fst r1) = rg_handles (fst r)"
      "sh_tasks (snd r1) = dict_pop t (sh_tasks (snd r))" "sh_timers (snd r1) = sh_timers (snd r)"
      "sh_cancelled (snd r1) = sh_cancelled (snd r)" "sh_starts (snd r1) = sh_starts (snd r)"
      "sh_scheduled (snd r1) = sh_scheduled (snd r)" "rg_ledgers (fst r1) = rg_ledgers (fst r)"
    and y: "it_position y = it_position (items r ! i)" "it_quality y = it_quality (items r ! i)"
      "it_trigger y = it_trigger (items r ! i)" "it_retry_count y = it_retry_count (items r ! i)"
    and r2: "r2 = schedule_technical_retry env ck i t code error r1"
  shows "group_ok tid r2 \<and> moves r r2 \<and> work r2 < work r
    \<and> (it_state (items r2 ! i) = RetryWait \<or> finished (it_state (items r2 ! i)))"
proof -
  let ?old = "items r ! i" and ?lim = "rp_retry_limit (gs_policy (snap r))"
  have pos: "it_position ?old = i + 1" using ok i by (simp add: group_ok_def positions_ok_def)
  note af = active_facts [OF ok i old(1)]
  have lim: "?lim = technical_retry_limit" using ok by (simp add: group_ok_def policy_ok_def)
  have slot: "holds_slot (it_state ?old)" using old by (simp add: holds_slot_def)
  have rc: "it_retry_count ?old \<le> technical_retry_limit" using ok i by (simp add: group_ok_def item_ok_def)
  define y1 where "y1 = y\<lparr>it_retry_limit := ?lim\<rparr>"
  define ra where "ra = snd (record_technical_failure ck i t code error (upd_item i (\<lambda>it. it\<lparr>it_retry_limit := ?lim\<rparr>) r1))"
  define dom where "dom = fst (record_technical_failure ck i t code error (upd_item i (\<lambda>it. it\<lparr>it_retry_limit := ?lim\<rparr>) r1))"
  have items_a: "items ra = (items r)[i := y1]" using i its by (simp add: ra_def y1_def)
  have nth_a: "items ra ! i = y1" using items_a i by simp
  have sa: "gs_id (snap ra) = gs_id (snap r)" "gs_state (snap ra) = gs_state (snap r)"
      "gs_slots (snap ra) = gs_slots (snap r)" "gs_policy (snap ra) = gs_policy (snap r)"
      "rg_serial (fst ra) = rg_serial (fst r)" "rg_handles (fst ra) = rg_handles (fst r)"
      "sh_tasks (snd ra) = dict_pop t (sh_tasks (snd r))" "sh_timers (snd ra) = sh_timers (snd r)"
      "sh_cancelled (snd ra) = sh_cancelled (snd r)" "sh_starts (snd ra) = sh_starts (snd r)"
      "sh_scheduled (snd ra) = sh_scheduled (snd r)" "rg_ledgers (fst ra) = rg_ledgers (fst r)"
    using same by (simp_all add: ra_def)
  have y1: "it_position y1 = i + 1" "it_quality y1 = it_quality ?old" "it_trigger y1 = it_trigger ?old"
    "it_retry_count y1 = it_retry_count ?old" using y pos by (simp_all add: y1_def)
  have fail: "group_ok tid (begin_group_failure env ck i fc rb) \<and> moves r (begin_group_failure env ck i fc rb)
      \<and> work (begin_group_failure env ck i fc rb) < work r
      \<and> finished (it_state (items (begin_group_failure env ck i fc rb) ! i))"
    if b: "items rb = (items r)[i := z]" "gs_id (snap rb) = gs_id (snap r)" "gs_state (snap rb) = gs_state (snap r)"
      "gs_slots (snap rb) = gs_slots (snap r)" "gs_policy (snap rb) = gs_policy (snap r)"
      "rg_serial (fst rb) = rg_serial (fst r)" "rg_handles (fst rb) = rg_handles (fst r)"
      "sh_tasks (snd rb) = dict_pop t (sh_tasks (snd r))" "sh_timers (snd rb) = sh_timers (snd r)"
      "sh_cancelled (snd rb) = sh_cancelled (snd r)" "sh_starts (snd rb) = sh_starts (snd r)"
      "sh_scheduled (snd r) \<le> sh_scheduled (snd rb)" "rg_ledgers (fst rb) = rg_ledgers (fst r)"
      "it_position z = i + 1" "it_state z = TechnicalFailed" "it_retry_count ?old \<le> it_retry_count z"
      "it_retry_count z \<le> technical_retry_limit" for rb z fc
  proof -
    have fz: "finished (it_state z)" using b by (simp add: finished_def holds_slot_def)
    have led: "ledger_at p (fst rb) = ledger_at p (fst r)" for p using b by (simp add: ledger_at_def)
    note e = end_item_ok [OF ok i t b(1-12) led b(14) fz b(16,17)]
    have ib: "i < length (items rb)" "items rb ! i = z" using b i by simp_all
    have w: "windable tid rb" using e(1) af b by (intro group_ok_windable) simp_all
    have fin: "\<not> holds_slot (it_state (items rb ! i))" "it_state (items rb ! i) \<noteq> Pending"
      using ib b by (simp_all add: holds_slot_def)
    note g = group_failure_ok [OF w ib(1) fin, of env ck fc]
    have "work (begin_group_failure env ck i fc rb) < work r"
      using moves_work [OF g(2)] e(3) [OF slot] by linarith
    then show ?thesis using g(1,4) moves_trans [OF e(2) g(2)] ib fz by simp
  qed
  have eq: "r2 = (if rp_circuit_domains (gs_policy (snap r)) \<le> dom
       then begin_group_failure env ck i (TechnicalCircuitOpen dom code) (upd_item i (failed_item ck code error) ra)
       else if ?lim \<le> it_retry_count y1
       then begin_group_failure env ck i (TechnicalRetryExhausted code (it_retry_count y1))
              (upd_item i (failed_item ck code error) ra)
       else schedule_timer env ck i (persisted env ck (upd_item i (waiting_item ck code error) ra)))"
    unfolding r2 schedule_technical_retry_def same(4) Let_def case_prod_unfold
      ra_def [symmetric] dom_def [symmetric] nth_a ..
  have ff: "items (upd_item i (failed_item ck code error) ra) = (items r)[i := failed_item ck code error y1]"
    using items_a nth_a by simp
  have two: ?thesis if "r2 = begin_group_failure env ck i fc (upd_item i (failed_item ck code error) ra)" for fc
    using fail [OF ff, of fc] that sa y1 rc by (simp add: failed_item_def)
  show ?thesis
  proof (cases "rp_circuit_domains (gs_policy (snap r)) \<le> dom \<or> ?lim \<le> it_retry_count y1")
    case True
    then show ?thesis using eq two by (cases "rp_circuit_domains (gs_policy (snap r)) \<le> dom") simp_all
  next
    case False
    define z where "z = waiting_item ck code error y1"
    define rb where "rb = persisted env ck (upd_item i (waiting_item ck code error) ra)"
    have r2b: "r2 = schedule_timer env ck i rb" using eq False by (simp add: rb_def)
    have z: "it_position z = i + 1" "it_state z = RetryWait" "it_quality z = it_quality ?old"
      "it_trigger z = it_trigger ?old" "it_retry_count z = it_retry_count ?old + 1"
      using y1 by (simp_all add: z_def waiting_item_def Let_def)
    have items_b: "items rb = (items r)[i := z]" using items_a nth_a by (simp add: rb_def z_def)
    have nth_b: "items rb ! i = z" using items_b i by simp
    have lt: "it_retry_count ?old < technical_retry_limit" using False y1 lim by simp
    show ?thesis
    proof (cases "re_schedule env (sh_scheduled (snd rb))")
      case None
      define tm where "tm = \<lparr>rt_number = sh_scheduled (snd r), rt_group = gs_id (snap r),
        rt_serial = rg_serial (fst r), rt_position = i + 1, rt_retry = it_retry_count z,
        rt_delay = retry_delay_seconds (it_retry_count z)\<rparr>"
      have e: "items r2 = (items r)[i := z]" "gs_id (snap r2) = gs_id (snap r)" "gs_state (snap r2) = gs_state (snap r)"
        "gs_slots (snap r2) = gs_slots (snap r)" "gs_policy (snap r2) = gs_policy (snap r)"
        "rg_serial (fst r2) = rg_serial (fst r)"
        "rg_handles (fst r2) = dict_set (i + 1) (sh_scheduled (snd r)) (rg_handles (fst r))"
        "sh_tasks (snd r2) = dict_pop t (sh_tasks (snd r))"
        "sh_timers (snd r2) = sh_timers (snd r) @ [tm]"
        "sh_cancelled (snd r2) = sh_cancelled (snd r)" "sh_starts (snd r2) = sh_starts (snd r)"
        "sh_scheduled (snd r2) = sh_scheduled (snd r) + 1" "rg_ledgers (fst r2) = rg_ledgers (fst r)"
        using None items_b nth_b sa z unfolding r2b schedule_timer_def Let_def
        by (simp_all add: rb_def tm_def)
      have tm: "rt_number tm = sh_scheduled (snd r)" "rt_group tm = gs_id (snap r)" "rt_serial tm = rg_serial (fst r)"
        "rt_position tm = i + 1" "rt_retry tm = it_retry_count z" by (simp_all add: tm_def)
      have "it_state (items r2 ! i) = RetryWait" using e z i by simp
      then show ?thesis using wait_item_ok [OF ok i t e(1) refl e(2-13) tm old lt z] by blast
    next
      case (Some msg)
      let ?rc = "upd_item i (\<lambda>it. it\<lparr>it_state := TechnicalFailed, it_error := take 1000 (re_sanitize env msg),
         it_next_retry := None\<rparr>) (upd_shared (\<lambda>sh. sh\<lparr>sh_scheduled := sh_scheduled (snd rb) + 1\<rparr>) rb)"
      let ?z = "z\<lparr>it_state := TechnicalFailed, it_error := take 1000 (re_sanitize env msg), it_next_retry := None\<rparr>"
      have r2c: "r2 = begin_group_failure env ck i TechnicalRetryScheduleFailed ?rc"
        unfolding r2b schedule_timer_def Let_def using Some by simp
      have "items ?rc = (items r)[i := ?z]" using items_b nth_b by simp
      from fail [OF this, of TechnicalRetryScheduleFailed]
      show ?thesis unfolding r2c using sa z lt by (simp add: rb_def)
    qed
  qed
qed

section \<open>The end of a task, as a whole\<close>

lemma drop_ledger_simps [simp]:
  "items (drop_ledger i r) = items r" "gs_id (snap (drop_ledger i r)) = gs_id (snap r)"
  "gs_state (snap (drop_ledger i r)) = gs_state (snap r)"
  "gs_slots (snap (drop_ledger i r)) = gs_slots (snap r)"
  "gs_policy (snap (drop_ledger i r)) = gs_policy (snap r)"
  "rg_serial (fst (drop_ledger i r)) = rg_serial (fst r)"
  "rg_handles (fst (drop_ledger i r)) = rg_handles (fst r)" "snd (drop_ledger i r) = snd r"
  "ledger_at p (fst (drop_ledger i r))
     = (if p = it_position (items r ! i) then [] else ledger_at p (fst r))"
  by (simp_all add: drop_ledger_def ledger_at_def)

lemma drop_ledger_ok:
  assumes ok: "group_ok tid r" and i: "i < length (items r)" and x: "finished (it_state (items r ! i))"
  shows "group_ok tid (drop_ledger i r)" and "moves r (drop_ledger i r)"
proof -
  let ?x = "items r ! i"
  have po: "positions_ok (items r)" using ok by (simp add: group_ok_def)
  have pos: "it_position ?x = i + 1" using po i by (simp add: positions_ok_def)
  have nr: "it_state ?x \<noteq> RetryWait" using x by (auto simp: finished_def holds_slot_def)
  have "item_ok r ?x" using ok i by (simp add: group_ok_def)
  then have xok: "item_ok (drop_ledger i r) ?x" using finished_ok [OF x] by (simp add: item_ok_def)
  have its: "items (drop_ledger i r) = (items r)[i := ?x]" by simp
  note nh = no_handle [OF ok i nr]
  show "group_ok tid (drop_ledger i r)"
  proof (rule group_ok_replace [OF ok i its pos _ _ _ _ _ _ _ _ xok])
    show "\<not> group_over (gs_state (snap r)) \<and> it_task ?x = t \<and> task_state (it_state ?x)"
      if "dict_get (sh_tasks (snd (drop_ledger i r))) t = Some (gs_id (snap r), i + 1)" for t
    proof -
      from that have t: "dict_get (sh_tasks (snd r)) t = Some (gs_id (snap r), i + 1)" by simp
      show ?thesis using task_item [OF ok t] by (metis add_right_cancel)
    qed
    show "dict_get (rg_handles (fst (drop_ledger i r))) (i + 1) = Some (rt_number t)"
      if "t \<in> set (sh_timers (snd (drop_ledger i r)))" "rt_serial t = rg_serial (fst r)" "rt_position t = i + 1"
        "gs_state (snap r) = Running" for t
      using no_timer [OF ok i nr that(4) _ that(2)] that by simp
    show "shared_ok tid (snd (drop_ledger i r))" using ok by (simp add: group_ok_def)
  qed (use pos nh in simp_all)
  show "moves r (drop_ledger i r)" by (simp add: moves_def work_def)
qed

lemma end_attempt_simps [simp]:
  "it_position (end_attempt ck t s e it) = it_position it" "it_state (end_attempt ck t s e it) = it_state it"
  "it_task (end_attempt ck t s e it) = it_task it" "it_retry_count (end_attempt ck t s e it) = it_retry_count it"
  "it_quality (end_attempt ck t s e it) = it_quality it" "it_trigger (end_attempt ck t s e it) = it_trigger it"
  by (simp_all add: end_attempt_def split: option.splits)

lemma end_state_finished: "finished (end_state g status it)"
  by (simp add: end_state_def finished_def holds_slot_def)

lemma running_active:
  assumes "group_ok tid r" and "i < length (items r)" and "task_state (it_state (items r ! i))"
    and "gs_state (snap r) = Running" and "it_trigger (items r ! i) = None"
  shows "it_state (items r ! i) = Active"
proof -
  have "state_ok r (items r ! i) (it_state (items r ! i))"
    using assms(1,2) by (simp add: group_ok_def item_ok_def)
  then show ?thesis using assms(3-5) by (auto simp: task_state_def)
qed

lemma task_ended_ok:
  assumes f: "fresh_starts env tid" and st: "settled tid r0" and i: "i < length (items r0)"
    and t: "dict_get (sh_tasks (snd r0)) t = Some (gs_id (snap r0), i + 1)"
    and e: "task_ended env ck i t tk r0 = (gone, r')"
  shows "settled tid r'" and "moves r0 r'"
    and "gone \<Longrightarrow> group_over (gs_state (snap r')) \<and> (\<forall>t p. dict_get (sh_tasks (snd r')) t \<noteq> Some (gs_id (snap r0), p))"
    and "holds_slot (it_state (items r0 ! i)) \<Longrightarrow> work r' < work r0"
proof -
  let ?old = "items r0 ! i"
  define r where "r = upd_shared (\<lambda>sh. sh\<lparr>sh_tasks := dict_pop t (sh_tasks sh)\<rparr>) r0"
  define status error where "status = terminal_status tk" and "error = terminal_error env tk"
  define retryable where "retryable = retryable_failure status error"
  define abnormal where "abnormal = (status = ''failed'' \<or> status = ''interrupted'')"
  have ok: "group_ok tid r0" using st by (simp add: settled_def)
  have pos: "it_position ?old = i + 1" using ok i by (simp add: group_ok_def positions_ok_def)
  have ts: "task_state (it_state ?old)" and run: "\<not> group_over (gs_state (snap r0))"
    using task_item [OF ok t] by (metis add_right_cancel)+
  have rc: "it_retry_count ?old \<le> technical_retry_limit" using ok i by (simp add: group_ok_def item_ok_def)
  have tail: "settled tid r' \<and> moves r0 r' \<and> (gone \<longrightarrow> group_over (gs_state (snap r'))
      \<and> (\<forall>t p. dict_get (sh_tasks (snd r')) t \<noteq> Some (gs_id (snap r0), p)))
      \<and> (holds_slot (it_state ?old) \<longrightarrow> work r' < work r0)"
    if g: "group_ok tid rx" "moves r0 rx" "holds_slot (it_state ?old) \<longrightarrow> work rx < work r0"
      and fin: "finalize_if_idle env ck (fill_slots env ck (persisted env ck rx)) = (gone, r')" for rx
  proof -
    note ff = fill_finalize_ok [OF f g(1) fin]
    have "gs_id (snap rx) = gs_id (snap r0)" using g(2) by (simp add: moves_def)
    then show ?thesis using ff moves_trans [OF g(2) ff(2)] moves_work [OF ff(2)] g(3) by auto
  qed
  have "settled tid r' \<and> moves r0 r' \<and> (gone \<longrightarrow> group_over (gs_state (snap r'))
      \<and> (\<forall>t p. dict_get (sh_tasks (snd r')) t \<noteq> Some (gs_id (snap r0), p)))
      \<and> (holds_slot (it_state ?old) \<longrightarrow> work r' < work r0)"
  proof (cases "abnormal \<and> it_trigger ?old = None \<and> gs_state (snap r0) = Running \<and> retryable \<noteq> None
      \<and> \<not> has_progress ?old tk")
    case True
    define r1 where "r1 = upd_item i (\<lambda>it. (end_attempt ck t TechnicalFailed error it)\<lparr>it_terminal := Some (ck_wall ck)\<rparr>) r"
    define r2 where "r2 = schedule_technical_retry env ck i t (the retryable) error r1"
    define r3 where "r3 = (if it_state (items r2 ! i) \<noteq> RetryWait then drop_ledger i r2 else r2)"
    have fin: "finalize_if_idle env ck (fill_slots env ck (persisted env ck r3)) = (gone, r')"
      using e True unfolding task_ended_def r3_def r2_def r1_def r_def abnormal_def retryable_def status_def error_def
      by (simp add: Let_def)
    have act: "it_state ?old = Active" using running_active [OF ok i ts] True by simp
    have un: "untouched ?old" using True by (simp add: untouched_def has_progress_def)
    have "group_ok tid r2 \<and> moves r0 r2 \<and> work r2 < work r0
      \<and> (it_state (items r2 ! i) = RetryWait \<or> finished (it_state (items r2 ! i)))"
      by (rule schedule_retry_ok [OF ok i t act un, where ?r1.0 = r1
            and y = "(end_attempt ck t TechnicalFailed error ?old)\<lparr>it_terminal := Some (ck_wall ck)\<rparr>"])
        (simp_all add: r1_def r_def r2_def)
    then have r2: "group_ok tid r2" "moves r0 r2" "work r2 < work r0"
      "it_state (items r2 ! i) = RetryWait \<or> finished (it_state (items r2 ! i))" by blast+
    have i2: "i < length (items r2)" using r2(2) i by (simp add: moves_def)
    have "group_ok tid r3 \<and> moves r2 r3"
    proof (cases "it_state (items r2 ! i) = RetryWait")
      case False
      then show ?thesis using drop_ledger_ok [OF r2(1) i2] r2(4) by (simp add: r3_def)
    qed (simp add: r3_def r2)
    then have "group_ok tid r3" "moves r0 r3" "work r3 < work r0"
      using r2 moves_trans moves_work le_less_trans by blast+
    then show ?thesis using tail [OF _ _ _ fin] by blast
  next
    case False
    define s where "s = end_state (gs_state (snap r0)) status ?old"
    define plain where "plain = (it_trigger ?old = None \<and> gs_state (snap r0) \<noteq> Stopping \<and> gs_state (snap r0) \<noteq> Failing)"
    define r1 where "r1 = upd_item i (\<lambda>it. it\<lparr>it_state := s\<rparr>) r"
    define r2 where "r2 = (if plain \<and> status = ''done'' then mark_recovery ck i r1 else r1)"
    define r3 where "r3 = upd_item i (\<lambda>it. end_attempt ck t s (if abnormal then error else [])
                         (it\<lparr>it_error := (if plain \<and> abnormal then error else it_error it),
                             it_terminal := Some (ck_wall ck), it_next_retry := None\<rparr>)) r2"
    define r4 where "r4 = drop_ledger i r3"
    define code where "code = (case retryable of
                             Some code \<Rightarrow> if has_progress ?old tk then TechnicalFailureAfterProgress code
                               else if status = ''interrupted'' then DomainTaskInterrupted
                               else DomainTaskFailed
                           | None \<Rightarrow> if status = ''interrupted'' then DomainTaskInterrupted
                               else DomainTaskFailed)"
    define r5 where "r5 = (if abnormal \<and> it_trigger ?old = None \<and> gs_state (snap r0) = Running
                        then begin_group_failure env ck i code r4 else r4)"
    have old': "items r ! i = ?old" "gs_state (snap r) = gs_state (snap r0)" by (simp_all add: r_def)
    have "task_ended env ck i t tk r0 = finalize_if_idle env ck (fill_slots env ck (persisted env ck r5))"
      using False unfolding task_ended_def Let_def r_def [symmetric] status_def [symmetric] error_def [symmetric]
        retryable_def [symmetric] abnormal_def [symmetric] old' s_def [symmetric] plain_def [symmetric]
        code_def [symmetric] r1_def [symmetric] r2_def [symmetric] r3_def [symmetric] r4_def [symmetric]
        r5_def [symmetric]
      by (subst if_not_P) auto
    then have fin: "finalize_if_idle env ck (fill_slots env ck (persisted env ck r5)) = (gone, r')"
      using e by simp
    have r2': "items r2 = (items r0)[i := items r2 ! i]" "it_position (items r2 ! i) = i + 1"
      "it_state (items r2 ! i) = s" "it_retry_count (items r2 ! i) = it_retry_count ?old"
      "gs_id (snap r2) = gs_id (snap r0)" "gs_state (snap r2) = gs_state (snap r0)"
      "gs_slots (snap r2) = gs_slots (snap r0)" "gs_policy (snap r2) = gs_policy (snap r0)"
      "rg_serial (fst r2) = rg_serial (fst r0)" "rg_handles (fst r2) = rg_handles (fst r0)"
      "rg_ledgers (fst r2) = rg_ledgers (fst r0)" "snd r2 = snd r"
      using i pos by (simp_all add: r2_def r1_def r_def mark_recovery_def Let_def)
    have i2: "i < length (items r2)" using i r2'(1) by (metis length_list_update)
    have r4: "items r4 = (items r0)[i := items r4 ! i]" "it_position (items r4 ! i) = i + 1"
      "it_state (items r4 ! i) = s" "it_retry_count (items r4 ! i) = it_retry_count ?old"
    proof -
      have "items r4 = (items r2)[i := items r4 ! i]" using i2 by (simp add: r4_def r3_def)
      then show "items r4 = (items r0)[i := items r4 ! i]" using r2'(1) by (metis list_update_overwrite)
    qed (use i2 r2' in \<open>simp_all add: r4_def r3_def\<close>)
    have s4: "gs_id (snap r4) = gs_id (snap r0)" "gs_state (snap r4) = gs_state (snap r0)"
      "gs_slots (snap r4) = gs_slots (snap r0)" "gs_policy (snap r4) = gs_policy (snap r0)"
      "rg_serial (fst r4) = rg_serial (fst r0)" "rg_handles (fst r4) = rg_handles (fst r0)"
      "sh_tasks (snd r4) = dict_pop t (sh_tasks (snd r0))" "sh_timers (snd r4) = sh_timers (snd r0)"
      "sh_cancelled (snd r4) = sh_cancelled (snd r0)" "sh_starts (snd r4) = sh_starts (snd r0)"
      "sh_scheduled (snd r0) \<le> sh_scheduled (snd r4)"
      using r2' by (simp_all add: r4_def r3_def r_def)
    have p3: "it_position (items r3 ! i) = i + 1" using i2 r2' by (simp add: r3_def)
    have l3: "ledger_at p (fst r3) = ledger_at p (fst r0)" for p
      unfolding r3_def ledger_at_upd using r2'(11) by (simp add: ledger_at_def)
    have led: "ledger_at p (fst r4) = ledger_at p (fst r0)" if "p \<noteq> i + 1" for p
      using that p3 l3 by (simp add: r4_def)
    have fz: "finished (it_state (items r4 ! i))" unfolding r4(3) s_def by (rule end_state_finished)
    have rc4: "it_retry_count (items r4 ! i) \<le> technical_retry_limit" using rc r4 by simp
    note e4 = end_item_ok [OF ok i t r4(1) s4 led r4(2) fz eq_refl [OF r4(4) [symmetric]] rc4]
    have g4: "group_ok tid r4" "moves r0 r4" "holds_slot (it_state ?old) \<longrightarrow> work r4 < work r0"
      by (rule e4(1), assumption) (rule e4(2), assumption, rule impI, rule e4(3), assumption+)
    have "group_ok tid r5 \<and> moves r0 r5 \<and> (holds_slot (it_state ?old) \<longrightarrow> work r5 < work r0)"
    proof (cases "abnormal \<and> it_trigger ?old = None \<and> gs_state (snap r0) = Running")
      case True
      then have r5: "r5 = begin_group_failure env ck i code r4" by (simp add: r5_def)
      have w: "windable tid r4" using g4(1) run s4(2) by (intro group_ok_windable) simp_all
      have i4: "i < length (items r4)" using r4(1) i by (metis length_list_update)
      have fin: "\<not> holds_slot (it_state (items r4 ! i))" "it_state (items r4 ! i) \<noteq> Pending"
        using fz by (simp_all add: finished_def)
      note g = group_failure_ok [OF w i4 fin, of env ck code, folded r5]
      show ?thesis using g(1) moves_trans [OF g4(2) g(2)] moves_work [OF g(2)] g4(3)
        by (auto intro: le_less_trans)
    next
      case False
      then have "r5 = r4" unfolding r5_def by (rule if_not_P)
      then show ?thesis using g4 by simp
    qed
    then show ?thesis using tail [OF _ _ _ fin] by blast
  qed
  then show "settled tid r'" "moves r0 r'"
    "gone \<Longrightarrow> group_over (gs_state (snap r')) \<and> (\<forall>t p. dict_get (sh_tasks (snd r')) t \<noteq> Some (gs_id (snap r0), p))"
    "holds_slot (it_state (items r0 ! i)) \<Longrightarrow> work r' < work r0"
    by blast+
qed

end
