(* ===== verification/RotationRetry.thy ===== *)
theory RotationRetry
  imports RotationEnd
begin

text \<open>A retry timer that comes due, the operator's stop, and the start of a group.\<close>

section \<open>Timers\<close>

definition without_timer :: "nat \<Rightarrow> shared \<Rightarrow> shared" where
  "without_timer n sh = sh\<lparr>sh_timers := filter (\<lambda>t. rt_number t \<noteq> n) (sh_timers sh)\<rparr>"

lemma without_timer_simps [simp]:
  "sh_tasks (without_timer n sh) = sh_tasks sh" "sh_starts (without_timer n sh) = sh_starts sh"
  "sh_cancelled (without_timer n sh) = sh_cancelled sh" "sh_scheduled (without_timer n sh) = sh_scheduled sh"
  "sh_timers (without_timer n sh) = filter (\<lambda>t. rt_number t \<noteq> n) (sh_timers sh)"
  by (simp_all add: without_timer_def)

lemma timer_unique:
  assumes "shared_ok tid sh" and "t \<in> set (sh_timers sh)" and "t' \<in> set (sh_timers sh)"
    and "rt_number t = rt_number t'"
  shows "t = t'"
  using assms unfolding shared_ok_def by (metis distinct_map inj_onD)

lemma without_timer_ok:
  assumes sh: "shared_ok tid sh" and t: "t \<in> set (sh_timers sh)"
  shows "shared_ok tid (without_timer (rt_number t) sh)"
    and "frame g (rt_serial t) sh (without_timer (rt_number t) sh)"
proof -
  have "distinct (map rt_number (filter (\<lambda>u. rt_number u \<noteq> rt_number t) (sh_timers sh)))"
    using sh by (simp add: shared_ok_def distinct_map_filter)
  then show "shared_ok tid (without_timer (rt_number t) sh)"
    using sh unfolding shared_ok_def by (simp add: task_dict_def starts_of_def)
  show "frame g (rt_serial t) sh (without_timer (rt_number t) sh)"
    using timer_unique [OF sh t] by (fastforce simp: frame_def starts_of_def)
qed

lemma timer_item:
  assumes ok: "group_ok tid r" and t: "t \<in> set (sh_timers (snd r))" "rt_serial t = rg_serial (fst r)"
    and run: "gs_state (snap r) = Running"
  obtains i where "i < length (items r)" and "rt_position t = i + 1" and "it_state (items r ! i) = RetryWait"
    and "it_retry_count (items r ! i) = rt_retry t" and "item_for_position (rt_position t) r = Some i"
    and "dict_get (rg_handles (fst r)) (rt_position t) = Some (rt_number t)"
proof -
  have h: "dict_get (rg_handles (fst r)) (rt_position t) = Some (rt_number t)"
    using ok t run by (simp add: group_ok_def handles_ok_def)
  then obtain t' where t': "t' \<in> set (sh_timers (snd r))" "timer_of r (rt_position t) (rt_number t) t'"
    using ok unfolding group_ok_def handles_ok_def by blast
  have "t' = t" using ok t' t timer_unique [of tid "snd r" t' t] by (simp add: group_ok_def timer_of_def)
  with t' obtain it where it: "it \<in> set (items r)" "it_position it = rt_position t" "it_state it = RetryWait"
    "it_retry_count it = rt_retry t" by (auto simp: timer_of_def)
  then obtain i where i: "i < length (items r)" "items r ! i = it" by (metis in_set_conv_nth)
  have po: "positions_ok (items r)" using ok by (simp add: group_ok_def)
  then have p: "rt_position t = i + 1" using i it by (auto simp: positions_ok_def)
  have "item_for_position (rt_position t) r = Some i"
  proof (cases "item_for_position (rt_position t) r")
    case None
    then show ?thesis using it unfolding item_for_position_def index_from_None by blast
  next
    case (Some j)
    then have "j < length (items r)" "it_position (items r ! j) = rt_position t"
      using index_from_0_Some unfolding item_for_position_def by blast+
    then have "j = i" using po p by (simp add: positions_ok_def)
    then show ?thesis using Some by simp
  qed
  with that i it p h show ?thesis by blast
qed

lemma filled_cong: "same_core r r' \<Longrightarrow> filled r' = filled r"
  by (simp add: same_core_def filled_def first_pending_def slots_held_def)

text \<open>The callback of a timer of the group, up to filling the slots.\<close>

lemma retry_wait_over_ok:
  assumes st: "settled tid r" and t: "t \<in> set (sh_timers (snd r))" "rt_serial t = rg_serial (fst r)"
    and run: "gs_state (snap r) = Running"
    and i: "i < length (items r)" "rt_position t = i + 1" "it_state (items r ! i) = RetryWait"
  defines "r' \<equiv> upd_item i retry_item (cancel_handle (rt_position t) (fst r, without_timer (rt_number t) (snd r)))"
  shows "group_ok tid r'" and "moves r r'" and "slots_held r' < gs_slots (snap r')" and "first_pending r' \<noteq> None"
proof -
  let ?old = "items r ! i" and ?n = "rt_number t"
  have ok: "group_ok tid r" using st by (simp add: settled_def)
  have po: "positions_ok (items r)" and sh: "shared_ok tid (snd r)" and hk: "handles_ok r"
    using ok by (simp_all add: group_ok_def)
  have pos: "it_position ?old = i + 1" using po i by (simp add: positions_ok_def)
  have o: "item_ok r ?old" using ok i by (simp add: group_ok_def)
  have h: "dict_get (rg_handles (fst r)) (i + 1) = Some ?n"
    using ok t run i by (auto simp: group_ok_def handles_ok_def)
  define r1 where "r1 = (fst r, without_timer ?n (snd r))"
  have c: "cancel_handle (rt_position t) r1 = (fst r\<lparr>rg_handles := dict_pop (i + 1) (rg_handles (fst r))\<rparr>,
      (without_timer ?n (snd r))\<lparr>sh_cancelled := sh_cancelled (snd r) @ [?n]\<rparr>)"
    using h i by (simp add: cancel_handle_def r1_def)
  have e: "items r' = (items r)[i := retry_item ?old]" "gs_id (snap r') = gs_id (snap r)"
    "gs_state (snap r') = gs_state (snap r)" "gs_slots (snap r') = gs_slots (snap r)"
    "gs_policy (snap r') = gs_policy (snap r)" "rg_serial (fst r') = rg_serial (fst r)"
    "rg_handles (fst r') = dict_pop (i + 1) (rg_handles (fst r))" "rg_ledgers (fst r') = rg_ledgers (fst r)"
    "sh_tasks (snd r') = sh_tasks (snd r)" "sh_starts (snd r') = sh_starts (snd r)"
    "sh_scheduled (snd r') = sh_scheduled (snd r)" "sh_cancelled (snd r') = sh_cancelled (snd r) @ [?n]"
    "sh_timers (snd r') = filter (\<lambda>u. rt_number u \<noteq> ?n) (sh_timers (snd r))"
    unfolding r'_def r1_def [symmetric] c by simp_all
  have lt: "?n < sh_scheduled (snd r)" using sh t by (simp add: shared_ok_def)
  have sh': "shared_ok tid (snd r')"
    using without_timer_ok(1) [OF sh t(1)] e lt unfolding shared_ok_def
    by (auto simp: task_dict_def starts_of_def)
  have x: "it_position (retry_item ?old) = i + 1" "it_state (retry_item ?old) = Pending"
    "it_retry_count (retry_item ?old) = it_retry_count ?old" "it_quality (retry_item ?old) = it_quality ?old"
    "it_trigger (retry_item ?old) = it_trigger ?old"
    using pos by (simp_all add: retry_item_def)
  have "ledger_sound r' (retry_item ?old) = ledger_sound r ?old"
    using e(8) x pos by (simp add: ledger_sound_def ledger_at_def)
  then have xok: "item_ok r' (retry_item ?old)"
    using o i x e run pos
    by (simp add: item_ok_def starts_of_def waiting_def untouched_def)
  show g: "group_ok tid r'"
  proof (rule group_ok_replace [OF ok i(1) e(1) x(1) e(2-6) _ sh' _ xok])
    show "ledger_at p (fst r') = ledger_at p (fst r)" for p using e by (simp add: ledger_at_def)
    show "\<not> group_over (gs_state (snap r)) \<and> it_task (retry_item ?old) = u \<and> task_state (it_state (retry_item ?old))"
      if "dict_get (sh_tasks (snd r')) u = Some (gs_id (snap r), i + 1)" for u
    proof -
      from that e have u: "dict_get (sh_tasks (snd r)) u = Some (gs_id (snap r), i + 1)" by simp
      have "task_state (it_state ?old)" using task_item [OF ok u] by (metis add_right_cancel)
      then show ?thesis using i by (simp add: task_state_def)
    qed
    show "dict_get (rg_handles (fst r')) (i + 1) = Some (rt_number u)"
      if "u \<in> set (sh_timers (snd r'))" "rt_serial u = rg_serial (fst r)" "rt_position u = i + 1"
        "gs_state (snap r) = Running" for u
      using that e h hk by (auto simp: handles_ok_def)
    show "u \<in> set (sh_timers (snd r')) \<longleftrightarrow> u \<in> set (sh_timers (snd r))"
      if "rt_serial u = rg_serial (fst r)" "rt_position u \<noteq> i + 1" for u
      using that e timer_unique [OF sh _ t(1), of u] i by auto
    show "m \<notin> set (sh_cancelled (snd r'))"
      if m: "p \<noteq> i + 1" "dict_get (rg_handles (fst r)) p = Some m" "m \<notin> set (sh_cancelled (snd r))" for p m
    proof -
      obtain u where "u \<in> set (sh_timers (snd r))" "rt_number u = m" "rt_position u = p"
        using hk m(2) unfolding handles_ok_def timer_of_def by blast
      then have "m \<noteq> ?n" using timer_unique [OF sh _ t(1), of u] i m(1) by auto
      then show ?thesis using m e by simp
    qed
  qed (use e i x in \<open>simp_all add: starts_of_def holds_slot_def\<close>)
  have w: "work r' + item_weight ?old = work r + item_weight (retry_item ?old)"
    unfolding work_def e(1) by (rule work_update [OF i(1)])
  have "item_weight (retry_item ?old) = item_weight ?old"
    using x i by (simp add: item_weight_def weight.simps waiting_def)
  with w have wk: "work r' = work r" by linarith
  have frame: "frame (gs_id (snap r)) (rg_serial (fst r)) (snd r) (snd r')"
    using without_timer_ok(2) [OF sh t(1), of "gs_id (snap r)"] e t unfolding frame_def by (auto simp: starts_of_def)
  show "moves r r'" using frame e wk run by (simp add: moves_def)
  show "slots_held r' < gs_slots (snap r')"
    using slots_held_update [OF i(1), of "\<lambda>it. holds_slot (it_state it)" "retry_item ?old"] ok e i x
    by (simp add: slots_held_def group_ok_def holds_slot_def)
  show "first_pending r' \<noteq> None"
    unfolding first_pending_def index_from_None e(1) using x(2) set_update_memI [OF i(1)] by blast
qed

lemma retry_fill_ok:
  assumes f: "fresh_starts env tid" and g: "group_ok tid r" and free: "slots_held r < gs_slots (snap r)"
    and p: "first_pending r \<noteq> None"
    and fin: "finalize_if_idle env ck (persisted env ck (fill_slots env ck (persisted env ck r))) = (gone, r')"
  shows "settled tid r'" and "moves r r'" and "work r' < work r"
    and "gone \<Longrightarrow> group_over (gs_state (snap r')) \<and> (\<forall>t p. dict_get (sh_tasks (snd r')) t \<noteq> Some (gs_id (snap r), p))"
proof -
  let ?a = "persisted env ck r" and ?c = "persisted env ck (fill_slots env ck (persisted env ck r))"
  have a: "group_ok tid ?a" using g group_ok_cong [OF same_core_persisted] by blast
  note fs = fill_slots_ok [OF f a, of ck]
  have p': "first_pending ?a \<noteq> None" "slots_held ?a < gs_slots (snap ?a)"
    using p free by (simp_all add: first_pending_def slots_held_def)
  have wa: "work ?a = work r" by (simp add: work_def)
  have c: "group_ok tid ?c" "filled ?c" "moves (fill_slots env ck ?a) ?c"
    using fs(1,3) group_ok_cong [OF same_core_persisted] filled_cong [OF same_core_persisted]
      moves_cong [OF same_core_persisted] by blast+
  note fo = finalize_ok [OF c(1,2) fin]
  have m: "moves r ?c" using moves_trans [OF moves_trans [OF moves_cong [OF same_core_persisted] fs(2)] c(3)] .
  show "settled tid r'" by (rule fo)
  show "moves r r'" by (rule moves_trans [OF m fo(2)])
  show "work r' < work r" using fs(4) [OF p'] moves_work [OF c(3)] moves_work [OF fo(2)] wa by linarith
  have "gs_id (snap ?c) = gs_id (snap r)" using m by (simp add: moves_def)
  then show "gone \<Longrightarrow> group_over (gs_state (snap r')) \<and> (\<forall>t p. dict_get (sh_tasks (snd r')) t \<noteq> Some (gs_id (snap r), p))"
    using fo(3) by simp
qed

text \<open>A timer that outlived its group's work: only the timer goes.\<close>

lemma stale_timer_ok:
  assumes st: "settled tid r" and t: "t \<in> set (sh_timers (snd r))" "rt_serial t = rg_serial (fst r)"
    and run: "gs_state (snap r) \<noteq> Running"
  shows "settled tid (fst r, without_timer (rt_number t) (snd r))"
    and "moves r (fst r, without_timer (rt_number t) (snd r))"
    and "dict_get (rg_handles (fst r)) p = None"
proof -
  let ?r' = "(fst r, without_timer (rt_number t) (snd r))"
  have ok: "group_ok tid r" using st by (simp add: settled_def)
  have sh: "shared_ok tid (snd r)" using ok by (simp add: group_ok_def)
  have h: "dict_get (rg_handles (fst r)) p = None" for p
    using ok run unfolding group_ok_def handles_ok_def by (metis not_Some_eq)
  then show "dict_get (rg_handles (fst r)) p = None" .
  have "handles_ok ?r'" using h run by (simp add: handles_ok_def)
  moreover have "state_ok ?r' it s = state_ok r it s" for it s
    by (cases s) (simp_all add: mapped_def ledger_sound_def)
  then have "item_ok ?r' it = item_ok r it" for it by (simp add: item_ok_def starts_of_def)
  moreover have "tasks_ok ?r' = tasks_ok r" by (simp add: tasks_ok_def)
  ultimately have "group_ok tid ?r'"
    using ok without_timer_ok(1) [OF sh t(1)] by (simp add: group_ok_def slots_held_def)
  then show "settled tid ?r'" using st run by (simp add: settled_def filled_def slots_held_def idle_def)
  show "moves r ?r'" using without_timer_ok(2) [OF sh t(1)] t by (simp add: moves_def work_def)
qed

section \<open>Stopping a group\<close>

lemma stop_ok:
  assumes st: "settled tid r" and run: "\<not> group_over (gs_state (snap r))"
    and same: "items r1 = items r" "gs_id (snap r1) = gs_id (snap r)" "gs_state (snap r1) = Stopping"
      "gs_slots (snap r1) = gs_slots (snap r)" "gs_policy (snap r1) = gs_policy (snap r)"
      "rg_serial (fst r1) = rg_serial (fst r)" "rg_handles (fst r1) = rg_handles (fst r)" "snd r1 = snd r"
    and fin: "finalize_if_idle env ck (persisted env ck
        (over_items (stop_item env ck how) (cancel_all_handles r1))) = (gone, r')"
  shows "settled tid r'" and "moves r r'" and "gs_state (snap r') \<noteq> Running"
    and "gone \<Longrightarrow> group_over (gs_state (snap r')) \<and> (\<forall>t p. dict_get (sh_tasks (snd r')) t \<noteq> Some (gs_id (snap r), p))"
proof -
  let ?s = "over_items (stop_item env ck how) (cancel_all_handles r1)"
  have ok: "group_ok tid r" using st by (simp add: settled_def)
  note f3 = cancel_all_effect [of r1, unfolded quiet_def]
  note f4 = over_items_effect [of "stop_item env ck how" "stop_pure ck" "cancel_all_handles r1", OF stop_item_effect]
  have "items ?s ! j = stop_pure ck j (items r ! j)" if "j < length (items r)" for j
    using f4 f3 same that by simp
  then have "wound_item (items r ! j) (items ?s ! j)" if "j < length (items r)" for j
    using that by (auto simp: stop_pure_def wound_item_def waiting_def)
  then have w: "wound r ?s" unfolding wound_def using f4 f3 same unfolding only_stops_def by simp
  note g = wound_ok [OF group_ok_windable [OF ok run] w]
  have sg: "gs_state (snap ?s) = Stopping" using f4 f3 same by simp
  let ?p = "persisted env ck ?s"
  have p: "group_ok tid ?p" "moves ?s ?p" using g(1) group_ok_cong [OF same_core_persisted] moves_cong [OF same_core_persisted] by blast+
  have fl: "filled ?p" using sg by (simp add: filled_def)
  note fo = finalize_ok [OF p(1) fl fin]
  have m: "moves r ?p" by (rule moves_trans [OF g(2) p(2)])
  show "settled tid r'" by (rule fo)
  show "moves r r'" by (rule moves_trans [OF m fo(2)])
  show "gs_state (snap r') \<noteq> Running" using fo(2) sg by (simp add: moves_def)
  have "gs_id (snap ?p) = gs_id (snap r)" using m by (simp add: moves_def)
  then show "gone \<Longrightarrow> group_over (gs_state (snap r')) \<and> (\<forall>t p. dict_get (sh_tasks (snd r')) t \<noteq> Some (gs_id (snap r), p))"
    using fo(3) by simp
qed

end
