(* ===== verification/RotationWorld.thy ===== *)
theory RotationWorld
  imports RotationRetry Contracts
begin

text \<open>
  All groups of the manager together: every group is settled beside the shared
  state, and the groups do not disturb each other. \<open>step_rel\<close> is what a step may
  do to the groups that exist, and it composes along a run.
\<close>

section \<open>The invariant of the manager\<close>

definition world_ok :: "(nat \<Rightarrow> string) \<Rightarrow> manager \<Rightarrow> bool" where
  "world_ok tid m \<longleftrightarrow> shared_ok tid (mg_shared m)
     \<and> (\<forall>gid g. dict_get (mg_groups m) gid = Some g \<longrightarrow>
          gs_id (rg_snap g) = gid \<and> rg_serial g < mg_serials m \<and> settled tid (g, mg_shared m))
     \<and> (\<forall>a b g h. dict_get (mg_groups m) a = Some g \<longrightarrow> dict_get (mg_groups m) b = Some h \<longrightarrow>
          rg_serial g = rg_serial h \<longrightarrow> a = b)
     \<and> (\<forall>t g p. dict_get (sh_tasks (mg_shared m)) t = Some (g, p) \<longrightarrow> dict_get (mg_groups m) g \<noteq> None)
     \<and> (\<forall>t\<in>set (sh_timers (mg_shared m)). rt_serial t < mg_serials m)
     \<and> (\<forall>c\<in>set (sh_starts (mg_shared m)). sc_serial c < mg_serials m)"

definition gwork :: "runtime_group \<Rightarrow> nat" where
  "gwork g = sum_list (map item_weight (gs_items (rg_snap g)))"

definition quiesced :: "nat \<Rightarrow> manager \<Rightarrow> bool" where
  "quiesced s m \<longleftrightarrow> s < mg_serials m \<and>
     (\<forall>gid g. dict_get (mg_groups m) gid = Some g \<longrightarrow> rg_serial g = s \<longrightarrow> gs_state (rg_snap g) \<noteq> Running)"

definition step_rel :: "manager \<Rightarrow> manager \<Rightarrow> bool" where
  "step_rel m m' \<longleftrightarrow> mg_serials m \<le> mg_serials m'
     \<and> (\<forall>gid g'. dict_get (mg_groups m') gid = Some g' \<longrightarrow> rg_serial g' < mg_serials m \<longrightarrow>
          (\<exists>g. dict_get (mg_groups m) gid = Some g \<and> rg_serial g = rg_serial g' \<and> gwork g' \<le> gwork g
             \<and> length (gs_items (rg_snap g')) = length (gs_items (rg_snap g))
             \<and> (gs_state (rg_snap g) \<noteq> Running \<longrightarrow> gs_state (rg_snap g') \<noteq> Running)
             \<and> (group_over (gs_state (rg_snap g)) \<longrightarrow> group_over (gs_state (rg_snap g')))))
     \<and> (\<forall>s. quiesced s m \<longrightarrow> (\<forall>p. starts_of s p (mg_shared m') = starts_of s p (mg_shared m)))"

lemma step_rel_refl [simp]: "step_rel m m"
  by (auto simp: step_rel_def)

lemma step_rel_quiesced:
  assumes "step_rel m m'" and "quiesced s m"
  shows "quiesced s m'"
  using assms unfolding step_rel_def quiesced_def by (metis less_le_trans)

lemma step_rel_trans:
  assumes a: "step_rel m1 m2" and b: "step_rel m2 m3"
  shows "step_rel m1 m3"
proof -
  have "\<exists>g. dict_get (mg_groups m1) gid = Some g \<and> rg_serial g = rg_serial g' \<and> gwork g' \<le> gwork g
             \<and> length (gs_items (rg_snap g')) = length (gs_items (rg_snap g))
             \<and> (gs_state (rg_snap g) \<noteq> Running \<longrightarrow> gs_state (rg_snap g') \<noteq> Running)
             \<and> (group_over (gs_state (rg_snap g)) \<longrightarrow> group_over (gs_state (rg_snap g')))"
    if g': "dict_get (mg_groups m3) gid = Some g'" "rg_serial g' < mg_serials m1" for gid g'
  proof -
    have "rg_serial g' < mg_serials m2" using g' a by (simp add: step_rel_def)
    then obtain g2 where g2: "dict_get (mg_groups m2) gid = Some g2" "rg_serial g2 = rg_serial g'"
      "gwork g' \<le> gwork g2" "length (gs_items (rg_snap g')) = length (gs_items (rg_snap g2))"
      "gs_state (rg_snap g2) \<noteq> Running \<longrightarrow> gs_state (rg_snap g') \<noteq> Running"
      "group_over (gs_state (rg_snap g2)) \<longrightarrow> group_over (gs_state (rg_snap g'))"
      using b g'(1) unfolding step_rel_def by blast
    then have "rg_serial g2 < mg_serials m1" using g' by simp
    then obtain g1 where "dict_get (mg_groups m1) gid = Some g1" "rg_serial g1 = rg_serial g2"
      "gwork g2 \<le> gwork g1" "length (gs_items (rg_snap g2)) = length (gs_items (rg_snap g1))"
      "gs_state (rg_snap g1) \<noteq> Running \<longrightarrow> gs_state (rg_snap g2) \<noteq> Running"
      "group_over (gs_state (rg_snap g1)) \<longrightarrow> group_over (gs_state (rg_snap g2))"
      using a g2(1) unfolding step_rel_def by blast
    then show ?thesis using g2 by (intro exI [of _ g1]) auto
  qed
  moreover have "starts_of s p (mg_shared m3) = starts_of s p (mg_shared m1)" if "quiesced s m1" for s p
    using a b that step_rel_quiesced [OF a that] by (simp add: step_rel_def)
  moreover have "mg_serials m1 \<le> mg_serials m3" using a b by (simp add: step_rel_def)
  ultimately show ?thesis unfolding step_rel_def by blast
qed

section \<open>Groups do not disturb each other\<close>

lemma other_settled:
  assumes st: "settled tid (g, sh)" and fr: "frame gid s sh sh'" and sh': "shared_ok tid sh'"
    and g: "gs_id (rg_snap g) \<noteq> gid" "rg_serial g \<noteq> s"
  shows "settled tid (g, sh')"
proof -
  have ok: "group_ok tid (g, sh)" using st by (simp add: settled_def)
  have tk: "dict_get (sh_tasks sh') t = Some (gs_id (rg_snap g), p)
      \<longleftrightarrow> dict_get (sh_tasks sh) t = Some (gs_id (rg_snap g), p)" for t p
    using fr g unfolding frame_def by blast
  have tm: "t \<in> set (sh_timers sh') \<longleftrightarrow> t \<in> set (sh_timers sh)" if "rt_serial t = rg_serial g" for t
    using fr g that unfolding frame_def by metis
  have st': "starts_of (rg_serial g) p sh' = starts_of (rg_serial g) p sh" for p
    using fr g unfolding frame_def by metis
  have "state_ok (g, sh') it s' = state_ok (g, sh) it s'" for it s'
    by (cases s') (simp_all add: mapped_def ledger_sound_def tk)
  then have it: "item_ok (g, sh') it = item_ok (g, sh) it" for it
    using st' by (simp add: item_ok_def)
  have tasks: "tasks_ok (g, sh')" using ok tk by (simp add: group_ok_def tasks_ok_def)
  have h: "handles_ok (g, sh)" using ok by (simp add: group_ok_def)
  have tmo: "timer_of (g, sh') p n t = timer_of (g, sh) p n t" for p n t by (simp add: timer_of_def)
  have "handles_ok (g, sh')"
    unfolding handles_ok_def fst_conv snd_conv
  proof (intro conjI allI impI ballI)
    fix p n assume a: "dict_get (rg_handles g) p = Some n"
    from h a have run: "gs_state (rg_snap g) = Running" and n: "n \<notin> set (sh_cancelled sh)"
      unfolding handles_ok_def by simp_all
    from h a obtain t where t: "t \<in> set (sh_timers sh)" "timer_of (g, sh) p n t"
      unfolding handles_ok_def by fastforce
    have ts: "rt_serial t = rg_serial g" "rt_number t = n" using t(2) by (simp_all add: timer_of_def)
    have t': "t \<in> set (sh_timers sh')" using t tm ts by simp
    show "gs_state (rg_snap g) = Running" by (rule run)
    show "n \<notin> set (sh_cancelled sh')"
    proof
      assume "n \<in> set (sh_cancelled sh')"
      then have "rt_serial t = s" using fr n t' ts unfolding frame_def by metis
      then show False using ts g by simp
    qed
    show "\<exists>t\<in>set (sh_timers sh'). timer_of (g, sh') p n t" using t' t(2) tmo by blast
  next
    fix t assume "t \<in> set (sh_timers sh')" "rt_serial t = rg_serial g" "gs_state (rg_snap g) = Running"
    then show "dict_get (rg_handles g) (rt_position t) = Some (rt_number t)"
      using h tm unfolding handles_ok_def by simp
  qed
  then have "group_ok tid (g, sh')"
    using ok it tasks sh' by (simp add: group_ok_def slots_held_def)
  then show ?thesis using st by (simp add: settled_def filled_def slots_held_def idle_def first_pending_def)
qed

lemma settle_get:
  "dict_get (mg_groups (settle_group gid (gone, r) m)) k =
     (if k = gid then if gone then None else Some (fst r) else dict_get (mg_groups m) k)"
  "mg_shared (settle_group gid (gone, r) m) = snd r"
  "mg_serials (settle_group gid (gone, r) m) = mg_serials m"
  by (simp_all add: settle_group_def put_group_def)

text \<open>Putting the result of an operation back keeps the invariant.\<close>

lemma world_settle:
  assumes others: "\<And>k g. k \<noteq> gid \<Longrightarrow> dict_get (mg_groups m) k = Some g \<Longrightarrow>
      gs_id (rg_snap g) = k \<and> rg_serial g < mg_serials m \<and> rg_serial g \<noteq> s \<and> settled tid (g, mg_shared m)"
    and inj: "\<And>a b g h. a \<noteq> gid \<Longrightarrow> b \<noteq> gid \<Longrightarrow> dict_get (mg_groups m) a = Some g \<Longrightarrow>
      dict_get (mg_groups m) b = Some h \<Longrightarrow> rg_serial g = rg_serial h \<Longrightarrow> a = b"
    and tasks: "\<And>t g p. g \<noteq> gid \<Longrightarrow> dict_get (sh_tasks (mg_shared m)) t = Some (g, p) \<Longrightarrow>
      dict_get (mg_groups m) g \<noteq> None"
    and timers: "\<And>t. t \<in> set (sh_timers (mg_shared m)) \<Longrightarrow> rt_serial t < mg_serials m"
    and starts: "\<And>c. c \<in> set (sh_starts (mg_shared m)) \<Longrightarrow> sc_serial c < mg_serials m"
    and s: "s < mg_serials m"
    and fr: "frame gid s (mg_shared m) (snd r')" and st: "settled tid r'"
    and id: "gs_id (snap r') = gid" "rg_serial (fst r') = s"
    and gone: "gone \<Longrightarrow> \<forall>t p. dict_get (sh_tasks (snd r')) t \<noteq> Some (gid, p)"
  shows "world_ok tid (settle_group gid (gone, r') m)"
proof -
  let ?m = "settle_group gid (gone, r') m"
  have sh: "shared_ok tid (snd r')" using st by (simp add: settled_def group_ok_def)
  have "gs_id (rg_snap g) = k \<and> rg_serial g < mg_serials m \<and> settled tid (g, snd r')"
    if k: "dict_get (mg_groups ?m) k = Some g" for k g
  proof (cases "k = gid")
    case True
    then have "g = fst r'" using k by (simp add: settle_get split: if_splits)
    then show ?thesis using st id s True by simp
  next
    case False
    then have "dict_get (mg_groups m) k = Some g" using k by (simp add: settle_get)
    then show ?thesis using others [OF False] other_settled [OF _ fr sh] False by auto
  qed
  moreover have "a = b" if ab: "dict_get (mg_groups ?m) a = Some g" "dict_get (mg_groups ?m) b = Some h"
    "rg_serial g = rg_serial h" for a b g h
  proof (cases "a = gid"; cases "b = gid")
    assume "a = gid" "b \<noteq> gid"
    then show ?thesis using ab others [of b h] id by (simp add: settle_get split: if_splits)
  next
    assume "a \<noteq> gid" "b = gid"
    then show ?thesis using ab others [of a g] id by (simp add: settle_get split: if_splits)
  next
    assume "a \<noteq> gid" "b \<noteq> gid"
    then show ?thesis using ab inj [of a b g h] by (simp add: settle_get)
  qed simp
  moreover have "dict_get (mg_groups ?m) g \<noteq> None"
    if t: "dict_get (sh_tasks (snd r')) t = Some (g, p)" for t g p
  proof (cases "g = gid")
    case True
    then show ?thesis using gone t by (auto simp: settle_get)
  next
    case False
    then have "dict_get (sh_tasks (mg_shared m)) t = Some (g, p)" using fr t unfolding frame_def by blast
    then show ?thesis using tasks [OF False] False by (simp add: settle_get)
  qed
  moreover have "rt_serial t < mg_serials m" if "t \<in> set (sh_timers (snd r'))" for t
    using that fr timers s unfolding frame_def by metis
  moreover have "sc_serial c < mg_serials m" if "c \<in> set (sh_starts (snd r'))" for c
    using that fr starts s unfolding frame_def by metis
  ultimately show ?thesis
    unfolding world_ok_def using sh by (simp add: settle_get(2,3))
qed

lemma world_settle_step:
  assumes w: "world_ok tid m" and g: "dict_get (mg_groups m) gid = Some g"
    and mv: "moves (g, mg_shared m) r'" and st: "settled tid r'"
    and gone: "gone \<Longrightarrow> \<forall>t p. dict_get (sh_tasks (snd r')) t \<noteq> Some (gid, p)"
  shows "world_ok tid (settle_group gid (gone, r') m)" and "step_rel m (settle_group gid (gone, r') m)"
proof -
  have id: "gs_id (rg_snap g) = gid" "rg_serial g < mg_serials m" using w g by (simp_all add: world_ok_def)
  have fr: "frame gid (rg_serial g) (mg_shared m) (snd r')" using mv id by (simp add: moves_def)
  show "world_ok tid (settle_group gid (gone, r') m)"
  proof (rule world_settle [OF _ _ _ _ _ id(2) fr st])
    show "gs_id (rg_snap h) = k \<and> rg_serial h < mg_serials m \<and> rg_serial h \<noteq> rg_serial g
        \<and> settled tid (h, mg_shared m)" if "k \<noteq> gid" "dict_get (mg_groups m) k = Some h" for k h
      using w g that unfolding world_ok_def by metis
    show "a = b" if "dict_get (mg_groups m) a = Some h" "dict_get (mg_groups m) b = Some h'"
      "rg_serial h = rg_serial h'" for a b h h'
      using w that unfolding world_ok_def by metis
    show "dict_get (mg_groups m) k \<noteq> None" if "dict_get (sh_tasks (mg_shared m)) t = Some (k, p)" for t k p
      using w that unfolding world_ok_def by metis
  qed (use w mv id gone in \<open>simp_all add: world_ok_def moves_def\<close>)
  have work: "gwork (fst r') \<le> gwork g" using mv by (simp add: moves_def work_def gwork_def)
  have starts: "starts_of s p (snd r') = starts_of s p (mg_shared m)" if q: "quiesced s m" for s p
  proof (cases "s = rg_serial g")
    case True
    then have "gs_state (rg_snap g) \<noteq> Running" using q g by (simp add: quiesced_def)
    then show ?thesis using mv by (simp add: moves_def starts_of_def)
  next
    case False
    then show ?thesis using fr unfolding frame_def by metis
  qed
  have "\<exists>h. dict_get (mg_groups m) k = Some h \<and> rg_serial h = rg_serial h' \<and> gwork h' \<le> gwork h
             \<and> length (gs_items (rg_snap h')) = length (gs_items (rg_snap h))
             \<and> (gs_state (rg_snap h) \<noteq> Running \<longrightarrow> gs_state (rg_snap h') \<noteq> Running)
             \<and> (group_over (gs_state (rg_snap h)) \<longrightarrow> group_over (gs_state (rg_snap h')))"
    if h': "dict_get (mg_groups (settle_group gid (gone, r') m)) k = Some h'" for k h'
  proof (cases "k = gid")
    case True
    then have "h' = fst r'" using h' by (simp add: settle_get split: if_splits)
    then show ?thesis using True g mv work by (intro exI [of _ g]) (simp add: moves_def)
  next
    case False
    then show ?thesis using h' by (intro exI [of _ h']) (simp add: settle_get)
  qed
  then show "step_rel m (settle_group gid (gone, r') m)"
    unfolding step_rel_def using starts by (simp add: settle_get(2,3))
qed

end
