(* ===== verification/RotationRun.thy ===== *)
theory RotationRun
  imports RotationWorld
begin

text \<open>Every event keeps the invariant of the manager, hence every run does.\<close>

section \<open>Callbacks about a task\<close>

lemma resolve_facts:
  assumes w: "world_ok tid m" and res: "resolve_task task m = Some (gid, r, i)"
  obtains g where "dict_get (mg_groups m) gid = Some g" and "r = (g, mg_shared m)" and "settled tid r"
    and "gs_id (snap r) = gid" and "i < length (items r)" and "task_state (it_state (items r ! i))"
    and "dict_get (sh_tasks (snd r)) (py_strip task) = Some (gs_id (snap r), i + 1)"
proof -
  from res obtain p g where p: "dict_get (sh_tasks (mg_shared m)) (py_strip task) = Some (gid, p)"
    and g: "dict_get (mg_groups m) gid = Some g" and r: "r = (g, mg_shared m)"
    and i: "item_for_position p (g, mg_shared m) = Some i"
    by (auto simp: resolve_task_def split: option.splits)
  have id: "gs_id (rg_snap g) = gid" and st: "settled tid r" using w g r by (simp_all add: world_ok_def)
  then have ok: "group_ok tid r" by (simp add: settled_def)
  have t: "dict_get (sh_tasks (snd r)) (py_strip task) = Some (gs_id (snap r), p)" using p r id by simp
  obtain j where j: "j < length (items r)" "p = j + 1" "task_state (it_state (items r ! j))"
    using task_item [OF ok t] by metis
  have "i < length (items r)" "it_position (items r ! i) = p"
    using i r index_from_0_Some unfolding item_for_position_def by blast+
  then have "i = j" using ok j by (simp add: group_ok_def positions_ok_def)
  with that g r st id j t show ?thesis by auto
qed

lemma on_task_ok:
  assumes w: "world_ok tid m"
    and f: "\<And>r i. settled tid r \<Longrightarrow> i < length (items r) \<Longrightarrow> task_state (it_state (items r ! i)) \<Longrightarrow>
      dict_get (sh_tasks (snd r)) (py_strip task) = Some (gs_id (snap r), i + 1) \<Longrightarrow>
      settled tid (snd (f i r)) \<and> moves r (snd (f i r))
      \<and> (fst (f i r) \<longrightarrow> (\<forall>t p. dict_get (sh_tasks (snd (snd (f i r)))) t \<noteq> Some (gs_id (snap r), p)))"
  shows "world_ok tid (on_task task f m) \<and> step_rel m (on_task task f m)"
proof (cases "resolve_task task m")
  case None
  then show ?thesis using w by (simp add: on_task_def)
next
  case (Some v)
  obtain gid r i where v: "resolve_task task m = Some (gid, r, i)" using Some by (cases v) auto
  from resolve_facts [OF w v] obtain g where g: "dict_get (mg_groups m) gid = Some g" "r = (g, mg_shared m)"
    "settled tid r" "gs_id (snap r) = gid" "i < length (items r)" "task_state (it_state (items r ! i))"
    "dict_get (sh_tasks (snd r)) (py_strip task) = Some (gs_id (snap r), i + 1)" by metis
  have eq: "on_task task f m = settle_group gid (fst (f i r), snd (f i r)) m" using v by (simp add: on_task_def)
  note fi = f [OF g(3,5,6,7)]
  have "moves (g, mg_shared m) (snd (f i r))" using fi g by simp
  from world_settle_step [OF w g(1) this, of "fst (f i r)"] fi g(4)
  show ?thesis unfolding eq by simp
qed

lemma quality_step:
  assumes w: "world_ok tid m"
    and f: "\<And>r i. settled tid r \<Longrightarrow> i < length (items r) \<Longrightarrow> task_state (it_state (items r ! i)) \<Longrightarrow>
      settled tid (f i r) \<and> moves r (f i r)"
  shows "world_ok tid (on_task task (\<lambda>i r. (False, f i r)) m) \<and> step_rel m (on_task task (\<lambda>i r. (False, f i r)) m)"
  using f by (intro on_task_ok [OF w]) simp

section \<open>Timers\<close>

lemma drop_timer_world:
  assumes w: "world_ok tid m" and t: "t \<in> set (sh_timers (mg_shared m))"
    and stale: "\<And>gid g. dict_get (mg_groups m) gid = Some g \<Longrightarrow> rg_serial g = rt_serial t \<Longrightarrow>
      gs_state (rg_snap g) \<noteq> Running"
  shows "world_ok tid (m\<lparr>mg_shared := without_timer (rt_number t) (mg_shared m)\<rparr>)"
    and "step_rel m (m\<lparr>mg_shared := without_timer (rt_number t) (mg_shared m)\<rparr>)"
proof -
  let ?sh = "without_timer (rt_number t) (mg_shared m)"
  have sh: "shared_ok tid (mg_shared m)" using w by (simp add: world_ok_def)
  note wt = without_timer_ok [OF sh t]
  have "settled tid (g, ?sh)" if g: "dict_get (mg_groups m) gid = Some g" for gid g
  proof (cases "rg_serial g = rt_serial t")
    case True
    have "settled tid (g, mg_shared m)" using w g by (simp add: world_ok_def)
    from stale_timer_ok(1) [OF this, of t] t True stale [OF g] show ?thesis by simp
  next
    case False
    have "settled tid (g, mg_shared m)" using w g by (simp add: world_ok_def)
    moreover obtain other where "gs_id (rg_snap g) \<noteq> other" by (metis list.distinct(1) not_Cons_self)
    ultimately show ?thesis using other_settled [OF _ wt(2) wt(1)] False by blast
  qed
  then show "world_ok tid (m\<lparr>mg_shared := ?sh\<rparr>)" using w wt(1) unfolding world_ok_def by simp
  show "step_rel m (m\<lparr>mg_shared := ?sh\<rparr>)" by (auto simp: step_rel_def starts_of_def)
qed

lemma timer_step:
  assumes f: "fresh_starts env tid" and w: "world_ok tid m"
  shows "world_ok tid (timer_fires env ck n m) \<and> step_rel m (timer_fires env ck n m)"
proof (cases "find (\<lambda>t. rt_number t = n) (sh_timers (mg_shared m))")
  case None
  then show ?thesis using w by (simp add: timer_fires_def)
next
  case (Some t)
  then have t: "t \<in> set (sh_timers (mg_shared m))" "rt_number t = n"
    by (auto simp: find_Some_iff in_set_conv_nth)
  let ?sh = "without_timer (rt_number t) (mg_shared m)"
  let ?m = "m\<lparr>mg_shared := ?sh\<rparr>"
  have eq: "timer_fires env ck n m = retry_callback env ck t ?m"
    using Some t by (simp add: timer_fires_def without_timer_def)
  show ?thesis
  proof (cases "\<exists>g. dict_get (mg_groups m) (rt_group t) = Some g \<and> rg_serial g = rt_serial t")
    case False
    have "gs_state (rg_snap g) \<noteq> Running"
      if g: "dict_get (mg_groups m) gid = Some g" "rg_serial g = rt_serial t" for gid g
    proof
      assume run: "gs_state (rg_snap g) = Running"
      have st: "settled tid (g, mg_shared m)" "gs_id (rg_snap g) = gid" using w g by (simp_all add: world_ok_def)
      then have ok: "group_ok tid (g, mg_shared m)" by (simp add: settled_def)
      have "dict_get (rg_handles g) (rt_position t) = Some (rt_number t)"
        using ok t g run unfolding group_ok_def handles_ok_def by fastforce
      then obtain t' where t': "t' \<in> set (sh_timers (mg_shared m))"
        "timer_of (g, mg_shared m) (rt_position t) (rt_number t) t'"
        using ok unfolding group_ok_def handles_ok_def by fastforce
      have "shared_ok tid (mg_shared m)" using w by (simp add: world_ok_def)
      then have "t' = t" using timer_unique t' t by (simp add: timer_of_def)
      then have "rt_group t = gid" using t' st by (simp add: timer_of_def)
      then show False using False g by blast
    qed
    note d = drop_timer_world [OF w t(1) this]
    have "retry_callback env ck t ?m = ?m"
      using False by (auto simp: retry_callback_def split: option.splits)
    then show ?thesis using d eq by simp
  next
    case True
    then obtain g where g: "dict_get (mg_groups m) (rt_group t) = Some g" "rg_serial g = rt_serial t" by blast
    let ?r = "(g, mg_shared m)" and ?gid = "rt_group t"
    have st: "settled tid ?r" and id: "gs_id (rg_snap g) = ?gid" using w g by (simp_all add: world_ok_def)
    then have ok: "group_ok tid ?r" by (simp add: settled_def)
    let ?rc = "cancel_handle (rt_position t) (g, ?sh)"
    have put: "put_group k r (m\<lparr>mg_shared := s\<rparr>) = settle_group k (False, r) m"
      "settle_group k br (m\<lparr>mg_shared := s\<rparr>) = settle_group k br m" for k r br s
      by (simp_all add: settle_group_def put_group_def)
    show ?thesis
    proof (cases "gs_state (rg_snap g) = Running")
      case False
      have sp: "settled tid (g, ?sh)" "moves ?r (g, ?sh)" "dict_get (rg_handles g) (rt_position t) = None"
        using stale_timer_ok [OF st, of t] t g False by simp_all
      have rc: "?rc = (g, ?sh)" using sp(3) by (simp add: cancel_handle_def)
      have "retry_callback env ck t ?m = settle_group ?gid (False, (g, ?sh)) m"
        using g rc False put by (auto simp: retry_callback_def retry_due_def Let_def split: option.splits)
      then show ?thesis using eq world_settle_step [OF w g(1) sp(2,1), of False] by simp
    next
      case run: True
      have run': "gs_state (snap ?r) = Running" using run by simp
      obtain i where i: "i < length (items ?r)" "rt_position t = i + 1" "it_state (items ?r ! i) = RetryWait"
        "it_retry_count (items ?r ! i) = rt_retry t" "item_for_position (rt_position t) ?r = Some i"
        using timer_item [OF ok _ _ run', of t] t g by (metis fst_conv snd_conv)
      let ?u = "upd_item i retry_item ?rc"
      have ro: "group_ok tid ?u" "moves ?r ?u" "slots_held ?u < gs_slots (snap ?u)" "first_pending ?u \<noteq> None"
        using retry_wait_over_ok [OF st _ _ run' i(1-3)] t g by simp_all
      have ce: "quiet (g, ?sh) ?rc" using cancel_handle_effect by blast
      have due: "item_for_position (rt_position t) ?rc = Some i" "retry_due t i ?rc"
        using ce i run by (simp_all add: quiet_def item_for_position_def retry_due_def)
      obtain gone r' where fin: "finalize_if_idle env ck (persisted env ck (fill_slots env ck
          (persisted env ck ?u))) = (gone, r')" by (metis surj_pair)
      have "retry_callback env ck t ?m = settle_group ?gid (gone, r') m"
        using g due fin put by (simp add: retry_callback_def)
      moreover note rf = retry_fill_ok [OF f ro(1,3,4) fin]
      moreover have "moves ?r r'" by (rule moves_trans [OF ro(2) rf(2)])
      moreover have "gs_id (snap ?u) = ?gid" using ro(2) id by (simp add: moves_def)
      ultimately show ?thesis using eq world_settle_step [OF w g(1) _ rf(1), of gone] by simp
    qed
  qed
qed

section \<open>Stopping, reading, restarting\<close>

lemma stop_step:
  assumes w: "world_ok tid m"
  shows "world_ok tid (snd (stop_group env ck k mode why m)) \<and> step_rel m (snd (stop_group env ck k mode why m))"
proof (cases "dict_get (mg_groups m) (py_strip k)")
  case None
  then show ?thesis using w by (simp add: stop_group_def)
next
  case (Some g)
  let ?gid = "py_strip k" and ?r = "(g, mg_shared m)"
  have st: "settled tid ?r" and id: "gs_id (rg_snap g) = ?gid" using w Some by (simp_all add: world_ok_def)
  show ?thesis
  proof (cases "group_over (gs_state (rg_snap g))")
    case True
    then show ?thesis using Some w by (simp add: stop_group_def Let_def)
  next
    case False
    define r1 where "r1 = upd_snap (\<lambda>s. s\<lparr>gs_state := Stopping, gs_stop_reason :=
      UserText (take 1000 (if why = [] then default_stop_text else why))\<rparr>) ?r"
    define how where "how = (if mode = ''immediate'' then Immediate else AfterCurrent)"
    obtain gone r' where fin: "finalize_if_idle env ck (persisted env ck
        (over_items (stop_item env ck how) (cancel_all_handles r1))) = (gone, r')" by (metis surj_pair)
    have s: "items r1 = items ?r" "gs_id (snap r1) = gs_id (snap ?r)" "gs_state (snap r1) = Stopping"
      "gs_slots (snap r1) = gs_slots (snap ?r)" "gs_policy (snap r1) = gs_policy (snap ?r)"
      "rg_serial (fst r1) = rg_serial (fst ?r)" "rg_handles (fst r1) = rg_handles (fst ?r)" "snd r1 = snd ?r"
      by (simp_all add: r1_def upd_snap_def)
    have nf: "\<not> group_over (gs_state (snap ?r))" using False by simp
    note so = stop_ok [OF st nf s fin]
    have "snd (stop_group env ck k mode why m) = settle_group ?gid (gone, r') m"
      using Some False fin unfolding stop_group_def Let_def r1_def how_def by simp
    then show ?thesis using world_settle_step [OF w Some so(2,1), of gone] so(4) id by simp
  qed
qed

lemma get_step:
  assumes w: "world_ok tid m"
  shows "world_ok tid (snd (get_group env ck k m)) \<and> step_rel m (snd (get_group env ck k m))"
proof (cases "dict_get (mg_groups m) (py_strip k)")
  case None
  then show ?thesis using w by (simp add: get_group_def)
next
  case (Some g)
  let ?gid = "py_strip k" and ?r = "(g, mg_shared m)"
  have st: "settled tid ?r" and id: "gs_id (rg_snap g) = ?gid" using w Some by (simp_all add: world_ok_def)
  have ok: "group_ok tid ?r" using st by (simp add: settled_def)
  show ?thesis
  proof (cases "group_over (gs_state (rg_snap g))")
    case False
    then show ?thesis using Some w by (simp add: get_group_def Let_def)
  next
    case True
    have idle: "idle ?r" using over_idle [OF ok] True by simp
    let ?p = "persisted env ck ?r"
    have ret: "settled tid (retire_runtime ?p)" "moves ?r (retire_runtime ?p)"
      "\<And>t p. dict_get (sh_tasks (snd (retire_runtime ?p))) t \<noteq> Some (gs_id (snap ?r), p)"
      by (rule retired_ok [OF ok idle, of ?p]; use True in simp)+
    have pp: "settled tid ?p" "moves ?r ?p"
      using settled_tweak [OF st, of ?p] group_ok_cong [OF same_core_persisted] ok
        moves_cong [OF same_core_persisted] by (simp_all add: slots_held_def first_pending_def)
    have eq: "snd (get_group env ck k m) = settle_group ?gid
        (if fst (persist env ck ?r) then (True, retire_runtime ?p) else (False, ?p)) m"
      using Some True by (simp add: get_group_def Let_def case_prod_unfold persisted_def)
    show ?thesis
      unfolding eq
      using world_settle_step [OF w Some ret(2,1), of True] world_settle_step [OF w Some pp(2,1), of False] ret(3) id
      by simp
  qed
qed

lemma restart_step:
  assumes w: "world_ok tid m"
  shows "world_ok tid (restart ck m) \<and> step_rel m (restart ck m)"
  using w by (simp add: restart_def world_ok_def step_rel_def shared_ok_def task_dict_def starts_of_def)

section \<open>Creating a group\<close>

lemma new_group_ok:
  assumes w: "world_ok tid m" and free: "dict_get (mg_groups m) gid = None" and ds: "ds \<noteq> []"
    and r: "r = (new_group (mg_serials m) (new_snapshot ck q gid ds), mg_shared m)"
  shows "group_ok tid r" and "gs_state (snap r) = Running" and "gs_id (snap r) = gid"
    and "rg_serial (fst r) = mg_serials m" and "length (items r) = length ds"
proof -
  show f: "gs_state (snap r) = Running" "gs_id (snap r) = gid" "rg_serial (fst r) = mg_serials m"
    "length (items r) = length ds"
    by (simp_all add: r new_group_def new_snapshot_def)
  have its: "items r ! i = new_item (i + 1) (ds ! i)" if "i < length ds" for i
    using that by (simp add: r new_group_def new_snapshot_def)
  have sh: "shared_ok tid (mg_shared m)" using w by (simp add: world_ok_def)
  have starts: "starts_of (mg_serials m) p (mg_shared m) = 0" for p
    using w by (auto simp: world_ok_def starts_of_def filter_empty_conv)
  have item: "item_ok r (items r ! i) \<and> \<not> holds_slot (it_state (items r ! i))" if "i < length ds" for i
    using f starts its [OF that]
    by (simp add: item_ok_def new_item_def untouched_def new_quality_def ledger_sound_def ledger_at_def
        waiting_def holds_slot_def r new_group_def ledger_order_def miss_streak_def)
  have "dict_get (sh_tasks (mg_shared m)) t \<noteq> Some (gid, p)" for t p
    using w free unfolding world_ok_def by blast
  then have "tasks_ok r" using f by (simp add: tasks_ok_def r)
  moreover have "handles_ok r"
    using w by (auto simp: handles_ok_def world_ok_def r new_group_def)
  moreover have "policy_ok (gs_policy (snap r))"
    by (simp add: r new_group_def new_snapshot_def new_policy_def policy_ok_def positive_int_def)
  moreover have "0 < gs_slots (snap r)"
    using ds by (simp add: r new_group_def new_snapshot_def positive_int_def)
  moreover have "slots_held r = 0"
    using item f by (auto simp: slots_held_def filter_empty_conv in_set_conv_nth)
  moreover have "positions_ok (items r)"
    using its f by (simp add: positions_ok_def new_item_def)
  ultimately show "group_ok tid r"
    using sh item f by (simp add: group_ok_def all_nth r)
qed

lemma create_step:
  assumes f: "fresh_starts env tid" and w: "world_ok tid m"
  shows "world_ok tid (snd (create_group env ck q m)) \<and> step_rel m (snd (create_group env ck q m))"
proof -
  define gid ds where "gid = py_strip (gq_id q)" and "ds = normalize_domains (gq_domains q)"
  show ?thesis
  proof (cases "gid = [] \<or> ds = [] \<or> dict_get (mg_groups m) gid \<noteq> None")
    case True
    then have "snd (create_group env ck q m) = m"
      unfolding create_group_def Let_def gid_def ds_def by auto
    then show ?thesis using w by simp
  next
    case False
    define r0 where "r0 = (new_group (mg_serials m) (new_snapshot ck q gid ds), mg_shared m)"
    define r where "r = persisted env ck r0"
    define m1 where "m1 = m\<lparr>mg_serials := mg_serials m + 1\<rparr>"
    have m1: "mg_groups m1 = mg_groups m" "mg_shared m1 = mg_shared m" "mg_serials m1 = mg_serials m + 1"
      by (simp_all add: m1_def)
    note n = new_group_ok [OF w _ _ r0_def]
    have ok: "group_ok tid r" using n(1) False group_ok_cong [OF same_core_persisted] by (simp add: r_def)
    have shr: "sh_tasks (snd r) = sh_tasks (mg_shared m)" "sh_timers (snd r) = sh_timers (mg_shared m)"
      "sh_cancelled (snd r) = sh_cancelled (mg_shared m)" "sh_starts (snd r) = sh_starts (mg_shared m)"
      "sh_scheduled (snd r) = sh_scheduled (mg_shared m)" by (simp_all add: r_def r0_def)
    have id: "gs_id (snap r) = gid" "rg_serial (fst r) = mg_serials m"
      using n False by (simp_all add: r_def)
    have eq: "snd (create_group env ck q m) = (if \<not> fst (persist env ck r0) then m1\<lparr>mg_shared := snd r\<rparr>
        else settle_group gid (finalize_if_idle env ck (fill_slots env ck r)) m1)"
      using False unfolding create_group_def gid_def [symmetric] ds_def [symmetric] r_def persisted_def r0_def m1_def Let_def
      by (simp add: case_prod_unfold)
    show ?thesis
    proof (cases "fst (persist env ck r0)")
      case notp: False
      have sg: "settled tid (g, snd r)" if "dict_get (mg_groups m) k = Some g" for k g
      proof -
        have st: "settled tid (g, mg_shared m)" using w that by (simp add: world_ok_def)
        have sc: "same_core (g, mg_shared m) (g, snd r)" using shr by (simp add: same_core_def)
        have "group_ok tid (g, snd r)" using group_ok_cong [OF sc] st by (simp add: settled_def)
        then show ?thesis
          using settled_tweak [OF st _ moves_cong [OF sc]] by (simp add: slots_held_def first_pending_def)
      qed
      have "shared_ok tid (snd r)" using ok by (simp add: group_ok_def)
      then have "world_ok tid (m1\<lparr>mg_shared := snd r\<rparr>)"
        using w sg shr unfolding world_ok_def m1_def by (auto simp: less_Suc_eq)
      moreover have "step_rel m (m1\<lparr>mg_shared := snd r\<rparr>)"
        using shr by (auto simp: step_rel_def m1_def starts_of_def)
      ultimately show ?thesis using notp eq by simp
    next
      case True
      note fs = fill_slots_ok [OF f ok, of ck]
      obtain gone r' where fin: "finalize_if_idle env ck (fill_slots env ck r) = (gone, r')" by (metis surj_pair)
      note fo = finalize_ok [OF fs(1,3) fin]
      have mv: "moves r r'" by (rule moves_trans [OF fs(2) fo(2)])
      have id': "gs_id (snap r') = gid" "rg_serial (fst r') = mg_serials m" using mv id by (simp_all add: moves_def)
      have fr: "frame gid (mg_serials m) (mg_shared m) (snd r')"
        using mv id shr unfolding moves_def frame_def by (simp add: starts_of_def)
      have old: "dict_get (mg_groups m) k = Some g \<Longrightarrow> gs_id (rg_snap g) = k \<and> rg_serial g < mg_serials m
          \<and> settled tid (g, mg_shared m)" for k g using w by (simp add: world_ok_def)
      have gid': "gs_id (snap (fill_slots env ck r)) = gid" using fs(2) id by (simp add: moves_def)
      have "world_ok tid (settle_group gid (gone, r') m1)"
      proof (rule world_settle [OF _ _ _ _ _ _ _ fo(1) id'])
        show "gs_id (rg_snap g) = k \<and> rg_serial g < mg_serials m1 \<and> rg_serial g \<noteq> mg_serials m
          \<and> settled tid (g, mg_shared m1)" if "dict_get (mg_groups m1) k = Some g" for k g
          using old [of k g] that by (simp add: m1_def)
        show "a = b" if "dict_get (mg_groups m1) a = Some h" "dict_get (mg_groups m1) b = Some h'"
          "rg_serial h = rg_serial h'" for a b h h'
          using w that unfolding world_ok_def m1 by blast
        show "dict_get (mg_groups m1) k \<noteq> None" if "dict_get (sh_tasks (mg_shared m1)) t = Some (k, p)" for t k p
          using w that unfolding world_ok_def m1 by blast
        show "rt_serial t < mg_serials m1" if "t \<in> set (sh_timers (mg_shared m1))" for t
          using w that by (simp add: world_ok_def m1_def less_Suc_eq)
        show "sc_serial c < mg_serials m1" if "c \<in> set (sh_starts (mg_shared m1))" for c
          using w that by (simp add: world_ok_def m1_def less_Suc_eq)
        show "\<forall>t p. dict_get (sh_tasks (snd r')) t \<noteq> Some (gid, p)" if gone using fo(3) [OF that] gid' by simp
      qed (use fr in \<open>simp_all add: m1_def\<close>)
      moreover have "step_rel m (settle_group gid (gone, r') m1)"
      proof -
        have "starts_of s p (snd r') = starts_of s p (mg_shared m)" if "quiesced s m" for s p
          using that fr unfolding quiesced_def frame_def by (metis less_irrefl)
        moreover have "\<exists>h. dict_get (mg_groups m) k = Some h \<and> h = h'"
          if "dict_get (mg_groups (settle_group gid (gone, r') m1)) k = Some h'" "rg_serial h' < mg_serials m" for k h'
          using that id' by (auto simp: settle_get m1_def split: if_splits)
        ultimately show ?thesis unfolding step_rel_def by (auto simp: settle_get(2,3) m1_def)
      qed
      ultimately show ?thesis using eq True fin by simp
    qed
  qed
qed

section \<open>Runs\<close>

lemma rotation_step_ok:
  assumes f: "fresh_starts env tid" and w: "world_ok tid m"
  shows "world_ok tid (rotation_step env e m) \<and> step_rel m (rotation_step env e m)"
proof -
  obtain ck ev where e: "e = (ck, ev)" by (cases e)
  show ?thesis
  proof (cases ev)
    case (EvRegistration t d)
    then show ?thesis
      using quality_step [OF w, of "\<lambda>i r. registration_result env ck i _ r" t] registration_result_ok w e
      by (simp add: record_registration_result_def split: option.splits)
  next
    case (EvAccount t a k)
    then show ?thesis
      using quality_step [OF w, of "\<lambda>i r. registered_account env ck i (positive_int a 0) k r" t]
        registered_account_ok w e
      by (simp add: record_registered_account_def)
  next
    case (EvEligibility t lr)
    then show ?thesis
      using quality_step [OF w, of "\<lambda>i r. apply_outcome env ck i _ _ _ r" t] apply_outcome_ok w e
      by (simp add: record_eligibility_result_def Let_def)
  next
    case (EvLink t lr)
    then show ?thesis
      using quality_step [OF w, of "\<lambda>i r. apply_outcome env ck i _ _ _ r" t] apply_outcome_ok w e
      by (simp add: record_link_result_def Let_def)
  next
    case (EvTerminal t tk)
    have "world_ok tid (handle_task_terminal env ck t tk m) \<and> step_rel m (handle_task_terminal env ck t tk m)"
      unfolding handle_task_terminal_def
    proof (rule on_task_ok [OF w])
      fix r i assume a: "settled tid r" "i < length (items r)" "task_state (it_state (items r ! i))"
        "dict_get (sh_tasks (snd r)) (py_strip t) = Some (gs_id (snap r), i + 1)"
      show "settled tid (snd (task_ended env ck i (py_strip t) tk r)) \<and> moves r (snd (task_ended env ck i (py_strip t) tk r))
        \<and> (fst (task_ended env ck i (py_strip t) tk r) \<longrightarrow>
            (\<forall>u p. dict_get (sh_tasks (snd (snd (task_ended env ck i (py_strip t) tk r)))) u \<noteq> Some (gs_id (snap r), p)))"
        using task_ended_ok [OF f a(1,2,4) prod.collapse [symmetric], of ck tk] by blast
    qed
    then show ?thesis using e EvTerminal by simp
  qed (use e w create_step [OF f w] timer_step [OF f w] stop_step [OF w] get_step [OF w] restart_step [OF w] in simp_all)
qed

lemma world_ok_empty: "world_ok tid empty_manager"
  by (simp add: world_ok_def empty_manager_def empty_shared_def shared_ok_def task_dict_def starts_of_def)

lemma rotation_run_ok:
  assumes "fresh_starts env tid" and "world_ok tid m"
  shows "world_ok tid (rotation_run env evs m) \<and> step_rel m (rotation_run env evs m)"
  using assms(2)
proof (induction evs arbitrary: m)
  case (Cons e evs)
  have s: "world_ok tid (rotation_step env e m)" "step_rel m (rotation_step env e m)"
    using rotation_step_ok [OF assms(1) Cons.prems, of e] by blast+
  then have "world_ok tid (rotation_run env evs (rotation_step env e m))
    \<and> step_rel (rotation_step env e m) (rotation_run env evs (rotation_step env e m))" by (intro Cons.IH)
  then show ?case using step_rel_trans [OF s(2)] by (simp add: rotation_run_def)
qed (simp add: rotation_run_def)

end
