(* ===== verification/RotationProgress.thy ===== *)
theory RotationProgress
  imports RotationRun
begin

text \<open>
  The events that move a group towards its end, the measure they lower, and what
  the failure of a group does to its state.
\<close>

section \<open>Progress\<close>

text \<open>
  An event is due for a group when it is the end of one of the group's tasks, or
  an armed retry timer of the group.
\<close>

fun due :: "manager \<Rightarrow> string \<Rightarrow> rotation_event \<Rightarrow> bool" where
  "due m gid (EvTerminal t tk) =
     (case resolve_task t m of
        None \<Rightarrow> False
      | Some (k, r, i) \<Rightarrow> k = gid \<and> live_task (it_state (items r ! i)))"
| "due m gid (EvTimer n) =
     (case dict_get (mg_groups m) gid of
        None \<Rightarrow> False
      | Some g \<Rightarrow> gs_state (rg_snap g) = Running \<and> n \<notin> set (sh_cancelled (mg_shared m))
          \<and> (\<exists>t\<in>set (sh_timers (mg_shared m)). rt_number t = n \<and> rt_serial t = rg_serial g))"
| "due m gid _ = False"

definition has_group :: "manager \<Rightarrow> string \<Rightarrow> nat \<Rightarrow> bool" where
  "has_group m gid s = (case dict_get (mg_groups m) gid of None \<Rightarrow> False | Some g \<Rightarrow> rg_serial g = s)"

fun due_count ::
  "rotation_env \<Rightarrow> string \<Rightarrow> nat \<Rightarrow> (clock \<times> rotation_event) list \<Rightarrow> manager \<Rightarrow> nat" where
  "due_count env gid s [] m = 0"
| "due_count env gid s (e # es) m =
     (if has_group m gid s \<and> due m gid (snd e) then 1 else 0) + due_count env gid s es (rotation_step env e m)"

lemma item_found:
  assumes "positions_ok (items r)" and "i < length (items r)"
  shows "item_for_position (i + 1) r = Some i"
proof (cases "item_for_position (i + 1) r")
  case None
  then have "it_position (items r ! i) \<noteq> i + 1"
    using nth_mem [OF assms(2)] unfolding item_for_position_def index_from_None by blast
  then show ?thesis using assms by (simp add: positions_ok_def)
next
  case (Some j)
  then have "j < length (items r)" "it_position (items r ! j) = i + 1"
    using index_from_0_Some unfolding item_for_position_def by blast+
  then show ?thesis using Some assms by (simp add: positions_ok_def)
qed

lemma due_exists:
  assumes f: "fresh_starts env tid" and w: "world_ok tid m" and g: "dict_get (mg_groups m) gid = Some g"
    and run: "\<not> group_over (gs_state (rg_snap g))"
  shows "\<exists>ev. due m gid ev"
proof -
  let ?r = "(g, mg_shared m)"
  have st: "settled tid ?r" and id: "gs_id (rg_snap g) = gid" using w g by (simp_all add: world_ok_def)
  have ok: "group_ok tid ?r" using st by (simp add: settled_def)
  have "0 < slots_held ?r" using st run by (simp add: settled_def)
  then obtain i where i: "i < length (items ?r)" "holds_slot (it_state (items ?r ! i))"
    by (auto simp: slots_held_def filter_empty_conv in_set_conv_nth)
  let ?it = "items ?r ! i"
  have so: "state_ok ?r ?it (it_state ?it)" using ok i by (simp add: group_ok_def item_ok_def)
  have pos: "it_position ?it = i + 1" using ok i by (simp add: group_ok_def positions_ok_def)
  show ?thesis
  proof (cases "it_state ?it = RetryWait")
    case True
    then have gr: "gs_state (rg_snap g) = Running"
      and h: "dict_get (rg_handles g) (i + 1) \<noteq> None" using so pos by auto
    then obtain n where "dict_get (rg_handles g) (i + 1) = Some n" by blast
    then have "n \<notin> set (sh_cancelled (mg_shared m))"
      "\<exists>t\<in>set (sh_timers (mg_shared m)). rt_number t = n \<and> rt_serial t = rg_serial g"
      using ok unfolding group_ok_def handles_ok_def timer_of_def by fastforce+
    then have "due m gid (EvTimer n)" using g gr by simp
    then show ?thesis by blast
  next
    case False
    then have live: "live_task (it_state ?it)" using i by (simp add: holds_slot_def)
    then have m: "mapped ?r ?it" using so by (cases "it_state ?it") simp_all
    then have t: "dict_get (sh_tasks (mg_shared m)) (it_task ?it) = Some (gid, i + 1)"
      using id pos by (simp add: mapped_def)
    have "shared_ok tid (mg_shared m)" using w by (simp add: world_ok_def)
    then obtain n where "it_task ?it = tid n" using t unfolding shared_ok_def by blast
    then have strip: "py_strip (it_task ?it) = it_task ?it" using f by (simp add: fresh_starts_def)
    have j: "item_for_position (i + 1) ?r = Some i"
      using item_found [of ?r i] ok i by (simp add: group_ok_def)
    have "resolve_task (it_task ?it) m = Some (gid, ?r, i)"
      using t g j strip by (simp add: resolve_task_def)
    then have "due m gid (EvTerminal (it_task ?it) tk)" for tk using live by simp
    then show ?thesis by blast
  qed
qed

lemma due_step:
  assumes f: "fresh_starts env tid" and w: "world_ok tid m" and g: "dict_get (mg_groups m) gid = Some g"
    and d: "due m gid ev"
    and g': "dict_get (mg_groups (rotation_step env (ck, ev) m)) gid = Some g'"
  shows "gwork g' < gwork g"
proof (cases ev)
  case (EvTerminal t tk)
  from d obtain r i where res: "resolve_task t m = Some (gid, r, i)" and live: "live_task (it_state (items r ! i))"
    using EvTerminal by (auto split: option.splits)
  obtain "r = (g, mg_shared m)" "settled tid r" "i < length (items r)"
    "dict_get (sh_tasks (snd r)) (py_strip t) = Some (gs_id (snap r), i + 1)"
    using resolve_facts [OF w res] g by (metis option.inject)
  note r = this
  obtain gone r' where e: "task_ended env ck i (py_strip t) tk r = (gone, r')" by (metis surj_pair)
  have "work r' < work r" using task_ended_ok(4) [OF f r(2,3,4) e] live by (simp add: holds_slot_def)
  moreover have "rotation_step env (ck, ev) m = settle_group gid (gone, r') m"
    using EvTerminal res e by (simp add: handle_task_terminal_def on_task_def)
  then have "g' = fst r'" using g' by (simp add: settle_get split: if_splits)
  ultimately show ?thesis using r by (simp add: work_def gwork_def)
next
  case (EvTimer n)
  from d obtain t where t: "t \<in> set (sh_timers (mg_shared m))" "rt_number t = n" "rt_serial t = rg_serial g"
    and run: "gs_state (rg_snap g) = Running" using EvTimer g by auto
  let ?r = "(g, mg_shared m)" and ?sh = "without_timer n (mg_shared m)"
  have st: "settled tid ?r" and id: "gs_id (rg_snap g) = gid" and sh: "shared_ok tid (mg_shared m)"
    using w g by (simp_all add: world_ok_def)
  then have ok: "group_ok tid ?r" by (simp add: settled_def)
  have run': "gs_state (snap ?r) = Running" using run by simp
  obtain t0 where t0: "find (\<lambda>t. rt_number t = n) (sh_timers (mg_shared m)) = Some t0"
    using t(1,2) by (cases "find (\<lambda>t. rt_number t = n) (sh_timers (mg_shared m))") (auto simp: find_None_iff)
  then have "t0 \<in> set (sh_timers (mg_shared m))" "rt_number t0 = n"
    by (auto simp: find_Some_iff in_set_conv_nth)
  then have tt: "t0 = t" using timer_unique [OF sh] t by metis
  have t': "t \<in> set (sh_timers (snd ?r))" "rt_serial t = rg_serial (fst ?r)" using t by simp_all
  obtain i where i: "i < length (items ?r)" "rt_position t = i + 1" "it_state (items ?r ! i) = RetryWait"
    "it_retry_count (items ?r ! i) = rt_retry t" "item_for_position (rt_position t) ?r = Some i"
    "dict_get (rg_handles (fst ?r)) (rt_position t) = Some (rt_number t)"
    by (rule timer_item [OF ok t' run'])
  have "rt_group t = gid"
  proof -
    obtain t' where "t' \<in> set (sh_timers (mg_shared m))" "timer_of ?r (rt_position t) (rt_number t) t'"
      using ok i(6) unfolding group_ok_def handles_ok_def by fastforce
    then show ?thesis using timer_unique [OF sh, of t' t] t id by (simp add: timer_of_def)
  qed
  let ?u = "upd_item i retry_item (cancel_handle (rt_position t) (g, ?sh))"
  have ro: "group_ok tid ?u" "moves ?r ?u" "slots_held ?u < gs_slots (snap ?u)" "first_pending ?u \<noteq> None"
    using retry_wait_over_ok [OF st _ _ _ i(1-3)] t run by simp_all
  have ce: "quiet (g, ?sh) (cancel_handle (rt_position t) (g, ?sh))" using cancel_handle_effect by blast
  have due: "item_for_position (rt_position t) (cancel_handle (rt_position t) (g, ?sh)) = Some i"
    "retry_due t i (cancel_handle (rt_position t) (g, ?sh))"
    using ce i run by (simp_all add: quiet_def item_for_position_def retry_due_def)
  obtain gone r' where fin: "finalize_if_idle env ck (persisted env ck (fill_slots env ck
      (persisted env ck ?u))) = (gone, r')" by (metis surj_pair)
  have step: "rotation_step env (ck, ev) m = settle_group gid (gone, r') m"
    using EvTimer t0 tt g \<open>rt_group t = gid\<close> t due fin
    by (simp add: timer_fires_def retry_callback_def settle_group_def put_group_def without_timer_def [symmetric])
  have "work r' < work ?u" by (rule retry_fill_ok(3) [OF f ro(1,3,4) fin])
  also have "\<dots> \<le> work ?r" by (rule moves_work [OF ro(2)])
  finally have "work r' < work ?r" .
  moreover have "g' = fst r'" using g' unfolding step by (simp add: settle_get split: if_splits)
  ultimately show ?thesis by (simp add: work_def gwork_def)
qed (use d in simp_all)

lemma due_count_work:
  assumes f: "fresh_starts env tid"
  shows "world_ok tid m \<Longrightarrow> dict_get (mg_groups m) gid = Some g \<Longrightarrow> rg_serial g = s \<Longrightarrow>
    dict_get (mg_groups (rotation_run env evs m)) gid = Some g' \<Longrightarrow> rg_serial g' = s \<Longrightarrow>
    gwork g' + due_count env gid s evs m \<le> gwork g"
proof (induction evs arbitrary: m g)
  case Nil
  then show ?case by (simp add: rotation_run_def)
next
  case (Cons e evs)
  let ?m = "rotation_step env e m"
  note ok = rotation_step_ok [OF f Cons.prems(1), of e]
  have ser: "s < mg_serials m" using Cons.prems(1-3) by (auto simp: world_ok_def)
  have ru: "rotation_run env (e # evs) m = rotation_run env evs ?m" by (simp add: rotation_run_def)
  have "step_rel ?m (rotation_run env evs ?m)" using rotation_run_ok [OF f] ok by blast
  moreover have "rg_serial g' < mg_serials ?m"
    using Cons.prems(5) ser ok by (simp add: step_rel_def)
  ultimately obtain g1 where g1: "dict_get (mg_groups ?m) gid = Some g1" "rg_serial g1 = s"
    using Cons.prems(4,5) unfolding ru step_rel_def by metis
  have ih: "gwork g' + due_count env gid s evs ?m \<le> gwork g1"
    using Cons.IH [OF _ g1] Cons.prems(4,5) ok unfolding ru by blast
  have "gwork g1 \<le> gwork g" using ok g1 ser Cons.prems(2) unfolding step_rel_def by (metis option.inject)
  moreover have "gwork g1 < gwork g" if "due m gid (snd e)"
    using due_step [OF f Cons.prems(1,2) that, of "fst e"] g1 by simp
  ultimately show ?case using ih by (auto simp: has_group_def)
qed

lemma gwork_bound:
  assumes "group_ok tid (g, sh)"
  shows "gwork g \<le> 6 * length (gs_items (rg_snap g))"
proof -
  have "item_weight it \<le> 6" for it :: domain_item
  proof -
    have "2 * (2 - it_retry_count it) \<le> 4" "2 * (2 - it_retry_count it) \<le> 5" by simp_all
    then show ?thesis by (simp add: item_weight_def weight.simps technical_retry_limit_def)
  qed
  then have "sum_list (map item_weight its) \<le> 6 * length its" for its :: "domain_item list"
  proof (induction its)
    case (Cons it its)
    then show ?case using add_mono [of "item_weight it" 6] by simp
  qed simp
  then show ?thesis by (simp add: gwork_def)
qed

lemma no_work_over:
  assumes "settled tid (g, sh)" and "gwork g = 0"
  shows "group_over (gs_state (rg_snap g))"
proof (rule ccontr)
  assume "\<not> group_over (gs_state (rg_snap g))"
  then have "0 < slots_held (g, sh)" using assms(1) by (simp add: settled_def)
  then obtain it where it: "it \<in> set (gs_items (rg_snap g))" "holds_slot (it_state it)"
    by (auto simp: slots_held_def filter_empty_conv)
  have "0 < item_weight it" using it(2) by (auto simp: item_weight_def weight.simps holds_slot_def waiting_def)
  then show False using assms(2) it(1) by (auto simp: gwork_def sum_list_eq_0_iff)
qed

lemma due_has_work:
  assumes w: "world_ok tid m" and g: "dict_get (mg_groups m) gid = Some g" and d: "due m gid ev"
  shows "0 < gwork g"
proof -
  have st: "settled tid (g, mg_shared m)" using w g by (simp add: world_ok_def)
  have "\<not> group_over (gs_state (rg_snap g))"
  proof
    assume over: "group_over (gs_state (rg_snap g))"
    then have idle: "idle (g, mg_shared m)" using st by (simp add: settled_def)
    show False
    proof (cases ev)
      case (EvTerminal t tk)
      from d obtain r i where res: "resolve_task t m = Some (gid, r, i)" and live: "live_task (it_state (items r ! i))"
        using EvTerminal by (auto split: option.splits)
      obtain "r = (g, mg_shared m)" "i < length (items r)"
        using resolve_facts [OF w res] g by (metis option.inject)
      then show False using idle live by (auto simp: idle_def holds_slot_def)
    qed (use d over g in auto)
  qed
  then show ?thesis using no_work_over [OF st] by blast
qed

lemma gone_stays_gone:
  assumes f: "fresh_starts env tid" and w: "world_ok tid m" and s: "s < mg_serials m"
    and n: "\<not> has_group m gid s"
  shows "\<not> has_group (rotation_step env e m) gid s"
proof
  let ?m = "rotation_step env e m"
  assume "has_group ?m gid s"
  then obtain g' where g': "dict_get (mg_groups ?m) gid = Some g'" "rg_serial g' = s"
    by (auto simp: has_group_def split: option.splits)
  have "step_rel m ?m" using rotation_step_ok [OF f w] by blast
  then obtain g where "dict_get (mg_groups m) gid = Some g" "rg_serial g = s"
    using g' s unfolding step_rel_def by metis
  then show False using n by (simp add: has_group_def)
qed

lemma due_count_gone:
  assumes f: "fresh_starts env tid"
  shows "world_ok tid m \<Longrightarrow> s < mg_serials m \<Longrightarrow> \<not> has_group m gid s \<Longrightarrow> due_count env gid s evs m = 0"
proof (induction evs arbitrary: m)
  case (Cons e evs)
  have "mg_serials m \<le> mg_serials (rotation_step env e m)"
    using rotation_step_ok [OF f Cons.prems(1), of e] by (simp add: step_rel_def)
  then show ?case
    using Cons rotation_step_ok [OF f Cons.prems(1), of e] gone_stays_gone [OF f Cons.prems(1,2,3), of e] by simp
qed simp

lemma due_count_le:
  assumes f: "fresh_starts env tid"
  shows "world_ok tid m \<Longrightarrow> dict_get (mg_groups m) gid = Some g \<Longrightarrow>
    due_count env gid (rg_serial g) evs m \<le> gwork g"
proof (induction evs arbitrary: m g)
  case (Cons e evs)
  let ?m = "rotation_step env e m" and ?s = "rg_serial g"
  have ok: "world_ok tid ?m" "step_rel m ?m" using rotation_step_ok [OF f Cons.prems(1), of e] by blast+
  have ser: "?s < mg_serials m" "?s < mg_serials ?m"
    using Cons.prems ok(2) by (auto simp: world_ok_def step_rel_def intro: less_le_trans)
  have here: "has_group m gid ?s" using Cons.prems(2) by (simp add: has_group_def)
  show ?case
  proof (cases "has_group ?m gid ?s")
    case False
    have "due_count env gid ?s evs ?m = 0" by (rule due_count_gone [OF f ok(1) ser(2) False])
    then show ?thesis using due_has_work [OF Cons.prems, of "snd e"] by (auto simp: here)
  next
    case True
    then obtain g1 where g1: "dict_get (mg_groups ?m) gid = Some g1" "rg_serial g1 = ?s"
      by (auto simp: has_group_def split: option.splits)
    have ih: "due_count env gid ?s evs ?m \<le> gwork g1" using Cons.IH [OF ok(1) g1(1)] g1(2) by simp
    have "gwork g1 \<le> gwork g" using ok(2) g1 ser Cons.prems(2) unfolding step_rel_def by (metis option.inject)
    moreover have "gwork g1 < gwork g" if "due m gid (snd e)"
      using due_step [OF f Cons.prems that, of "fst e"] g1 by simp
    ultimately show ?thesis using ih here by auto
  qed
qed simp

lemma can_finish:
  assumes f: "fresh_starts env tid"
  shows "world_ok tid m \<Longrightarrow> dict_get (mg_groups m) gid = Some g \<Longrightarrow>
    \<exists>evs. length evs \<le> gwork g \<and> (\<forall>h. dict_get (mg_groups (rotation_run env evs m)) gid = Some h \<longrightarrow>
      rg_serial h = rg_serial g \<longrightarrow> group_over (gs_state (rg_snap h)))"
proof (induction "gwork g" arbitrary: m g rule: less_induct)
  case less
  show ?case
  proof (cases "group_over (gs_state (rg_snap g))")
    case True
    then show ?thesis using less.prems by (intro exI [of _ "[]"]) (simp add: rotation_run_def)
  next
    case False
    obtain ev where d: "due m gid ev" using due_exists [OF f less.prems False] by blast
    let ?e = "(\<lparr>ck_wall = 0, ck_mono = 0\<rparr>, ev)"
    let ?m = "rotation_step env ?e m"
    have w: "world_ok tid ?m" using rotation_step_ok [OF f less.prems(1)] by blast
    have pos: "0 < gwork g" by (rule due_has_work [OF less.prems d])
    have run: "rotation_run env (?e # evs) m = rotation_run env evs ?m" for evs by (simp add: rotation_run_def)
    show ?thesis
    proof (cases "has_group ?m gid (rg_serial g)")
      case False
      have one: "rotation_run env [?e] m = ?m" by (simp add: rotation_run_def)
      show ?thesis
        by (rule exI [of _ "[?e]"]) (use False pos in \<open>auto simp: one has_group_def\<close>)
    next
      case True
      then obtain g1 where g1: "dict_get (mg_groups ?m) gid = Some g1" "rg_serial g1 = rg_serial g"
        by (auto simp: has_group_def split: option.splits)
      have lt: "gwork g1 < gwork g" by (rule due_step [OF f less.prems d g1(1)])
      from less.hyps [OF lt w g1(1)] obtain evs where evs: "length evs \<le> gwork g1"
        "\<forall>h. dict_get (mg_groups (rotation_run env evs ?m)) gid = Some h \<longrightarrow> rg_serial h = rg_serial g1 \<longrightarrow>
           group_over (gs_state (rg_snap h))" by blast
      show ?thesis
        by (rule exI [of _ "?e # evs"]) (use evs lt g1(2) in \<open>simp only: run, simp\<close>)
    qed
  qed
qed

section \<open>A group that fails\<close>

lemma cancel_all_snap: "rg_snap (fst (cancel_all_handles r)) = rg_snap (fst r)"
proof -
  have "rg_snap (fst (fold cancel_handle ps r)) = rg_snap (fst r)" for ps
    by (induction ps arbitrary: r) (simp_all add: cancel_handle_def split: option.splits)
  then show ?thesis by (simp add: cancel_all_handles_def)
qed

lemma begin_group_failure_starts:
  "sh_starts (snd (begin_group_failure env ck i code r)) = sh_starts (snd r)
   \<and> gs_state (snap (begin_group_failure env ck i code r)) = Failing
   \<and> map_option gf_code (gs_failure (snap (begin_group_failure env ck i code r))) = Some code"
proof -
  have oi: "gs_failure (snap (over_items f x)) = gs_failure (snap x)" for f x
    by (simp add: over_items_def Let_def case_prod_unfold)
  note f4 = over_items_effect [of "fail_domain_item env ck i" "fail_pure ck i", OF fail_item_effect, unfolded only_stops_def]
  note f3 = cancel_all_effect [unfolded quiet_def]
  show ?thesis
    using f4 f3 by (simp add: begin_group_failure_def Let_def oi cancel_all_snap cancel_pending_def upd_snap_def)
qed

lemma finalize_starts:
  "sh_starts (snd (snd (finalize_if_idle env ck r))) = sh_starts (snd r)
   \<and> (gs_state (snap r) = Failing \<longrightarrow>
        gs_state (snap (snd (finalize_if_idle env ck r))) \<in> {Failing, GroupFailed})
   \<and> gs_failure (snap (snd (finalize_if_idle env ck r))) = gs_failure (snap r)"
proof (cases "idle r")
  case False
  then show ?thesis by (simp add: finalize_if_idle_def)
next
  case True
  have g: "gs_failure (snap (retire_runtime x)) = gs_failure (snap x)" for x
    by (simp add: retire_runtime_def Let_def cancel_all_snap)
  have p: "gs_failure (snap (persisted env ck x)) = gs_failure (snap x)" for x
    by (simp add: persisted_def persist_def Let_def upd_snap_def)
  let ?x = "persisted env ck (upd_snap (\<lambda>s. s\<lparr>gs_state := final_state r,
                  gs_finished := Some (case gs_finished s of Some f \<Rightarrow> f | None \<Rightarrow> ck_wall ck)\<rparr>) r)"
  have eq: "snd (finalize_if_idle env ck r) = retire_runtime ?x"
    using True by (simp add: finalize_if_idle_def persisted_def Let_def case_prod_unfold)
  show ?thesis
    unfolding eq using retire_effect [of ?x] by (auto simp: g p final_state_def upd_snap_def)
qed

lemma failing_tail:
  assumes "gs_state (snap r) = Failing"
  shows "sh_starts (snd (snd (finalize_if_idle env ck (fill_slots env ck (persisted env ck r))))) = sh_starts (snd r)"
    and "gs_state (snap (snd (finalize_if_idle env ck (fill_slots env ck (persisted env ck r))))) \<in> {Failing, GroupFailed}"
    and "gs_failure (snap (snd (finalize_if_idle env ck (fill_slots env ck (persisted env ck r))))) = gs_failure (snap r)"
proof -
  have e: "fill_slots env ck (persisted env ck r) = persisted env ck r" using assms by (simp add: fill_slots_def)
  have p: "gs_failure (snap (persisted env ck r)) = gs_failure (snap r)"
    by (simp add: persisted_def persist_def Let_def upd_snap_def)
  show "sh_starts (snd (snd (finalize_if_idle env ck (fill_slots env ck (persisted env ck r))))) = sh_starts (snd r)"
    "gs_state (snap (snd (finalize_if_idle env ck (fill_slots env ck (persisted env ck r))))) \<in> {Failing, GroupFailed}"
    "gs_failure (snap (snd (finalize_if_idle env ck (fill_slots env ck (persisted env ck r))))) = gs_failure (snap r)"
    unfolding e using finalize_starts [of env ck "persisted env ck r"] assms p by simp_all
qed

end
