(* ===== verification/RotationProperties.thy ===== *)
theory RotationProperties
  imports RotationProgress
begin

text \<open>
  What the rotation scheduler guarantees, over every run of the manager from its
  start: the slots, the number of starts, the end of a group, the retries and the
  quality gates. The witnesses use a start callback that names tasks by a counter.
\<close>

section \<open>Failures of two domains\<close>

lemma report_progress_fails:
  assumes run: "gs_state (snap r) = Running" and tr: "it_trigger (items r ! i) = None"
    and bad: "terminal_status tk \<in> {''failed'', ''interrupted''}" and pr: "has_progress (items r ! i) tk"
  shows "sh_starts (snd (snd (task_ended env ck i t tk r))) = sh_starts (snd r)"
    and "gs_state (snap (snd (task_ended env ck i t tk r))) \<in> {Failing, GroupFailed}"
proof -
  obtain code r4 where e: "task_ended env ck i t tk r
      = finalize_if_idle env ck (fill_slots env ck (persisted env ck (begin_group_failure env ck i code r4)))"
    and s4: "sh_starts (snd r4) = sh_starts (snd r)"
    unfolding task_ended_def Let_def using assms
    by (auto simp: mark_recovery_def Let_def)
  note f = begin_group_failure_starts [of env ck i code r4]
  show "sh_starts (snd (snd (task_ended env ck i t tk r))) = sh_starts (snd r)"
    "gs_state (snap (snd (task_ended env ck i t tk r))) \<in> {Failing, GroupFailed}"
    using failing_tail [OF conjunct1 [OF conjunct2 [OF f]], of env ck] f s4 unfolding e by simp_all
qed

lemma circuit_report_fails:
  assumes run: "gs_state (snap r) = Running" and tr: "it_trigger (items r ! i) = None"
    and bad: "terminal_status tk \<in> {''failed'', ''interrupted''}" and pr: "\<not> has_progress (items r ! i) tk"
    and c: "retryable_failure (terminal_status tk) (terminal_error env tk) = Some c"
    and i: "i < length (items r)" and po: "policy_ok (gs_policy (snap r))"
    and ev: "(t0, c, p0) \<in> set (rg_events (fst r))" "p0 \<noteq> it_position (items r ! i)" "ck_mono ck - t0 \<le> 30"
  shows "sh_starts (snd (snd (task_ended env ck i t tk r))) = sh_starts (snd r)"
    and "gs_state (snap (snd (task_ended env ck i t tk r))) \<in> {Failing, GroupFailed}"
    and "\<exists>n. map_option gf_code (gs_failure (snap (snd (task_ended env ck i t tk r)))) = Some (TechnicalCircuitOpen n c)"
proof -
  let ?r1 = "upd_item i (\<lambda>it. (end_attempt ck t TechnicalFailed (terminal_error env tk) it)\<lparr>it_terminal := Some (ck_wall ck)\<rparr>)
     (upd_shared (\<lambda>sh. sh\<lparr>sh_tasks := dict_pop t (sh_tasks sh)\<rparr>) r)"
  let ?r2 = "schedule_technical_retry env ck i t c (terminal_error env tk) ?r1"
  let ?r3 = "if it_state (items ?r2 ! i) \<noteq> RetryWait then drop_ledger i ?r2 else ?r2"
  have e: "task_ended env ck i t tk r = finalize_if_idle env ck (fill_slots env ck (persisted env ck ?r3))"
    using assms unfolding task_ended_def Let_def by auto
  define u where "u = upd_item i (\<lambda>it. it\<lparr>it_retry_limit := rp_retry_limit (gs_policy (snap ?r1))\<rparr>) ?r1"
  define evs where "evs = recent_events (circuit_window (gs_policy (snap r))) (ck_mono ck) (rg_events (fst r))
    @ [(ck_mono ck, c, it_position (items r ! i))]"
  have cw: "circuit_window (gs_policy (snap r)) = 30"
    using po by (simp add: policy_ok_def circuit_window_def circuit_window_seconds_def)
  have dom: "fst (record_technical_failure ck i t c (terminal_error env tk) u) = event_domains c evs"
    using i by (simp add: record_technical_failure_def u_def evs_def Let_def upd_item_def upd_snap_def upd_shared_def)
  have "2 \<le> event_domains c evs"
  proof -
    let ?ps = "map (\<lambda>(t, c, p). p) (filter (\<lambda>(t, c', p). c' = c) evs)"
    have "(t0, c, p0) \<in> set evs" using ev cw by (simp add: evs_def recent_events_def)
    then have "{p0, it_position (items r ! i)} \<subseteq> set ?ps" by (force simp: evs_def)
    then have "card {p0, it_position (items r ! i)} \<le> card (set ?ps)" by (rule card_mono [OF finite_set])
    then show ?thesis using ev(2) by (simp add: event_domains_def length_remdups_card_conv)
  qed
  then have two: "rp_circuit_domains (gs_policy (snap ?r1)) \<le> event_domains c evs"
    using po by (simp add: policy_ok_def circuit_distinct_domains_def)
  have r2: "?r2 = begin_group_failure env ck i (TechnicalCircuitOpen (event_domains c evs) c)
      (upd_item i (failed_item ck c (terminal_error env tk))
        (snd (record_technical_failure ck i t c (terminal_error env tk) u)))"
    unfolding schedule_technical_retry_def Let_def case_prod_unfold u_def [symmetric] dom
    using two by simp
  note f = begin_group_failure_starts [of env ck i "TechnicalCircuitOpen (event_domains c evs) c"
      "upd_item i (failed_item ck c (terminal_error env tk))
        (snd (record_technical_failure ck i t c (terminal_error env tk) u))", folded r2]
  have dl: "snap (drop_ledger i x) = snap x" for x by (simp add: drop_ledger_def)
  have f3: "sh_starts (snd ?r3) = sh_starts (snd r)" "gs_state (snap ?r3) = Failing"
    "map_option gf_code (gs_failure (snap ?r3)) = Some (TechnicalCircuitOpen (event_domains c evs) c)"
    using f by (simp_all add: dl u_def)
  note ft = failing_tail [OF f3(2), of env ck]
  show "sh_starts (snd (snd (task_ended env ck i t tk r))) = sh_starts (snd r)"
    "gs_state (snap (snd (task_ended env ck i t tk r))) \<in> {Failing, GroupFailed}"
    unfolding e using ft(1,2) f3(1) by simp_all
  show "\<exists>n. map_option gf_code (gs_failure (snap (snd (task_ended env ck i t tk r)))) = Some (TechnicalCircuitOpen n c)"
    unfolding e ft(3) using f3(3) by blast
qed

text \<open>A technical failure that does not stop the group is remembered.\<close>

lemma events_bind: "rg_events (fst (bind_task env ck i t r)) = rg_events (fst r)"
  by (simp add: bind_task_def Let_def)

lemma events_cancel_all: "rg_events (fst (cancel_all_handles r)) = rg_events (fst r)"
proof -
  have "rg_events (fst (fold cancel_handle ps r)) = rg_events (fst r)" for ps
    by (induction ps arbitrary: r) (simp_all add: cancel_handle_def split: option.splits)
  then show ?thesis by (simp add: cancel_all_handles_def)
qed

lemma events_begin_group_failure: "rg_events (fst (begin_group_failure env ck i code r)) = rg_events (fst r)"
  by (simp add: begin_group_failure_def over_items_def Let_def case_prod_unfold events_cancel_all
      cancel_pending_def upd_snap_def)

lemma events_start_domain: "rg_events (fst (snd (start_domain env ck i r))) = rg_events (fst r)"
proof -
  have "rg_events (fst (fold (bind_task env ck i) bs x)) = rg_events (fst x)" for bs x
    by (induction bs arbitrary: x) (simp_all add: events_bind)
  then show ?thesis
    by (simp add: start_domain_def Let_def events_bind events_begin_group_failure split: start_result.splits)
qed

lemma events_fill: "rg_events (fst (fill_slots env ck r)) = rg_events (fst r)"
proof -
  have "rg_events (fst (fill_loop env ck r)) = rg_events (fst r)"
  proof (induction env ck r rule: fill_loop.induct)
    case (1 env ck r)
    then show ?case
      using events_start_domain [of env ck _ r]
      by (subst fill_loop.simps) (auto split: option.splits prod.splits bool.splits, (metis fst_conv snd_conv)+)
  qed
  then show ?thesis by (simp add: fill_slots_def)
qed

lemma report_remembered:
  assumes run: "gs_state (snap r) = Running" and tr: "it_trigger (items r ! i) = None"
    and bad: "terminal_status tk \<in> {''failed'', ''interrupted''}" and pr: "\<not> has_progress (items r ! i) tk"
    and c: "retryable_failure (terminal_status tk) (terminal_error env tk) = Some c"
    and i: "i < length (items r)"
    and after: "gs_state (snap (snd (task_ended env ck i t tk r))) = Running"
  shows "(ck_mono ck, c, it_position (items r ! i)) \<in> set (rg_events (fst (snd (task_ended env ck i t tk r))))"
proof -
  let ?r1 = "upd_item i (\<lambda>it. (end_attempt ck t TechnicalFailed (terminal_error env tk) it)\<lparr>it_terminal := Some (ck_wall ck)\<rparr>)
     (upd_shared (\<lambda>sh. sh\<lparr>sh_tasks := dict_pop t (sh_tasks sh)\<rparr>) r)"
  let ?r2 = "schedule_technical_retry env ck i t c (terminal_error env tk) ?r1"
  let ?r3 = "if it_state (items ?r2 ! i) \<noteq> RetryWait then drop_ledger i ?r2 else ?r2"
  let ?f = "fill_slots env ck (persisted env ck ?r3)"
  have e: "task_ended env ck i t tk r = finalize_if_idle env ck ?f"
    using assms unfolding task_ended_def Let_def by auto
  have same: "snd (finalize_if_idle env ck x) = x" if "gs_state (snap (snd (finalize_if_idle env ck x))) = Running" for x
  proof (cases "idle x")
    case True
    have "group_over (gs_state (snap (snd (finalize_if_idle env ck x))))"
      using True final_state_over [of x] retire_effect
      by (simp add: finalize_if_idle_def Let_def case_prod_unfold persisted_def [symmetric] upd_snap_def)
    then show ?thesis using that by simp
  qed (simp add: finalize_if_idle_def)
  have fin: "snd (task_ended env ck i t tk r) = ?f" unfolding e using after [unfolded e] by (rule same)
  define u where "u = snd (record_technical_failure ck i t c (terminal_error env tk)
    (upd_item i (\<lambda>it. it\<lparr>it_retry_limit := rp_retry_limit (gs_policy (snap ?r1))\<rparr>) ?r1))"
  have ev: "(ck_mono ck, c, it_position (items r ! i)) \<in> set (rg_events (fst u))"
    using i by (simp add: u_def record_technical_failure_def Let_def upd_snap_def upd_item_def upd_shared_def)
  have st: "rg_events (fst (schedule_timer env ck i x)) = rg_events (fst x)" for x
    by (simp add: schedule_timer_def Let_def events_begin_group_failure split: option.splits)
  have "rg_events (fst ?r2) = rg_events (fst u)"
    unfolding schedule_technical_retry_def Let_def case_prod_unfold u_def [symmetric]
    by (simp add: events_begin_group_failure st)
  then have "rg_events (fst ?r3) = rg_events (fst u)" by (simp add: drop_ledger_def)
  then show ?thesis unfolding fin events_fill using ev by simp
qed

section \<open>A start callback with fresh task names\<close>

definition task_name :: "nat \<Rightarrow> string" where
  "task_name n = replicate (n + 1) (CHR ''a'')"

definition demo_rotation :: rotation_env where
  "demo_rotation = \<lparr>re_start = (\<lambda>n. \<lparr>so_bound = [task_name n], so_result = Returned (task_name n)\<rparr>),
     re_persist = (\<lambda>n. True), re_schedule = (\<lambda>n. None), re_log = (\<lambda>n. True), re_sanitize = (\<lambda>t. t)\<rparr>"

definition demo_request :: group_request where
  "demo_request = \<lparr>gq_id = ''g'', gq_domains = [''A.com'', ''b.com'', ''a.com''], gq_count = 5,
     gq_concurrency = 1, gq_slots = 1, gq_threshold = 50, gq_min_samples = 2, gq_streak = 3\<rparr>"

definition demo_clock :: "rat \<Rightarrow> clock" where
  "demo_clock t = \<lparr>ck_wall = t, ck_mono = t\<rparr>"

definition network_report :: task_report where
  "network_report = \<lparr>tk_status = ''failed'', tk_error = uni ''Connection reset'', tk_errors = [],
     tk_success = 0, tk_skipped = 0, tk_progress = ''0/5''\<rparr>"

definition demo_created :: "(clock \<times> rotation_event) list" where
  "demo_created = [(demo_clock 0, EvCreate demo_request)]"

lemma task_name_strip: "py_strip (task_name n) = task_name n"
proof (rule py_strip_id, rule disjI2)
  have "set (task_name n) \<subseteq> {CHR ''a''}" "task_name n \<noteq> []" by (auto simp: task_name_def)
  then have "hd (task_name n) = CHR ''a''" "last (task_name n) = CHR ''a''"
    by (metis hd_in_set singletonD subsetD, metis last_in_set singletonD subsetD)
  then show "\<not> py_space (hd (task_name n)) \<and> \<not> py_space (last (task_name n))"
    by (simp add: py_space_def)
qed

lemma demo_rotation_fresh: "fresh_starts demo_rotation task_name"
proof -
  have "inj task_name" by (rule injI) (simp add: task_name_def)
  then show ?thesis
    by (simp add: fresh_starts_def demo_rotation_def task_name_strip) (simp add: task_name_def)
qed

section \<open>Slots, starts and quality\<close>

abbreviation rotation_start :: "rotation_env \<Rightarrow> (clock \<times> rotation_event) list \<Rightarrow> manager" where
  "rotation_start env evs \<equiv> rotation_run env evs empty_manager"

lemma start_ok: "fresh_starts env tid \<Longrightarrow> world_ok tid (rotation_start env evs)"
  using rotation_run_ok [OF _ world_ok_empty] by blast

lemma group_settled:
  assumes "fresh_starts env tid" and "dict_get (mg_groups (rotation_start env evs)) gid = Some g"
  shows "settled tid (g, mg_shared (rotation_start env evs))" and "gs_id (rg_snap g) = gid"
  using start_ok [OF assms(1), of evs] assms(2) by (simp_all add: world_ok_def)

lemma demo_group:
  "map_option (\<lambda>g. (rg_serial g, gs_slots (rg_snap g), gs_state (rg_snap g), map it_state (gs_items (rg_snap g))))
     (dict_get (mg_groups (rotation_start demo_rotation demo_created)) ''g'')
   = Some (0, 1, Running, [Active, Pending])"
  by code_simp

text \<open>
  C1. In every state the manager reaches, a group holds at most as many slots as
  it was created with (domains that start, run, drain or wait for a retry), and
  while the group runs no slot is idle as long as a domain is pending.
\<close>

theorem slots_exactly_used:
  assumes "fresh_starts env tid"
    and "dict_get (mg_groups (rotation_start env evs)) gid = Some g"
  shows "length (filter (\<lambda>it. holds_slot (it_state it)) (gs_items (rg_snap g))) \<le> gs_slots (rg_snap g)
    \<and> (gs_state (rg_snap g) = Running \<longrightarrow> Pending \<in> set (map it_state (gs_items (rg_snap g))) \<longrightarrow>
        length (filter (\<lambda>it. holds_slot (it_state it)) (gs_items (rg_snap g))) = gs_slots (rg_snap g))"
proof -
  have st: "settled tid (g, mg_shared (rotation_start env evs))" by (rule group_settled [OF assms])
  then have le: "length (filter (\<lambda>it. holds_slot (it_state it)) (gs_items (rg_snap g))) \<le> gs_slots (rg_snap g)"
    by (simp add: settled_def group_ok_def slots_held_def)
  have "length (filter (\<lambda>it. holds_slot (it_state it)) (gs_items (rg_snap g))) = gs_slots (rg_snap g)"
    if a: "gs_state (rg_snap g) = Running" "Pending \<in> set (map it_state (gs_items (rg_snap g)))"
  proof -
    obtain it where "it \<in> set (gs_items (rg_snap g))" "it_state it = Pending" using a(2) by fastforce
    then have "first_pending (g, mg_shared (rotation_start env evs)) \<noteq> None"
      unfolding first_pending_def index_from_None by auto
    then show ?thesis using st a(1) by (simp add: settled_def filled_def slots_held_def)
  qed
  with le show ?thesis by blast
qed

theorem slots_exactly_used_witness:
  "\<exists>g. dict_get (mg_groups (rotation_start demo_rotation demo_created)) ''g'' = Some g
     \<and> Pending \<in> set (map it_state (gs_items (rg_snap g)))
     \<and> length (filter (\<lambda>it. holds_slot (it_state it)) (gs_items (rg_snap g))) = gs_slots (rg_snap g)
     \<and> gs_slots (rg_snap g) = 1"
proof -
  obtain g where g: "dict_get (mg_groups (rotation_start demo_rotation demo_created)) ''g'' = Some g"
    "gs_slots (rg_snap g) = 1" "gs_state (rg_snap g) = Running" "map it_state (gs_items (rg_snap g)) = [Active, Pending]"
    using demo_group by fastforce
  have "Pending \<in> set (map it_state (gs_items (rg_snap g)))" unfolding g(4) by simp
  with slots_exactly_used [OF demo_rotation_fresh g(1)] g show ?thesis by (intro exI [of _ g]) simp
qed

text \<open>
  C28. However often tasks fail and retries come due, the task of a domain is
  started at most three times: once, and once for each of its two technical
  retries.
\<close>

theorem domain_started_three_times:
  assumes "fresh_starts env tid"
  shows "length (filter (\<lambda>c. sc_serial c = s \<and> sc_position c = p)
    (sh_starts (mg_shared (rotation_start env evs)))) \<le> 3"
proof -
  have "starts_of s p (mg_shared (rotation_start env evs)) \<le> technical_retry_limit + 1"
    using start_ok [OF assms, of evs] by (simp add: world_ok_def shared_ok_def)
  then show ?thesis by (simp add: starts_of_def technical_retry_limit_def)
qed

theorem domain_started_three_times_witness:
  "length (filter (\<lambda>c. sc_serial c = 0 \<and> sc_position c = 1)
    (sh_starts (mg_shared (rotation_start demo_rotation (demo_created @
      [(demo_clock 1, EvTerminal (task_name 0) network_report), (demo_clock 6, EvTimer 0),
       (demo_clock 7, EvTerminal (task_name 1) network_report)]))))) \<le> 3"
  by (rule domain_started_three_times [OF demo_rotation_fresh])

text \<open>
  A domain keeps running only while its quality is within the policy: as long
  as its task is active, the rejection rate has not crossed the threshold on
  enough samples, and the streak of accounts without a payment link is shorter
  than the limit.
\<close>

lemma active_domain_within_quality:
  assumes "fresh_starts env tid"
    and "dict_get (mg_groups (rotation_start env evs)) gid = Some g"
    and "it \<in> set (gs_items (rg_snap g))" and "it_state it = Active"
  shows "(q_decisions (it_quality it) < rp_min_samples (gs_policy (rg_snap g))
      \<or> rejection_rate (q_disallowed (it_quality it)) (q_decisions (it_quality it))
          \<le> rp_rejection_threshold (gs_policy (rg_snap g)))
    \<and> q_miss_streak (it_quality it) < rp_streak_threshold (gs_policy (rg_snap g))
    \<and> it_trigger it = None"
proof -
  have "group_ok tid (g, mg_shared (rotation_start env evs))"
    using group_settled [OF assms(1,2)] by (simp add: settled_def)
  then have "state_ok (g, mg_shared (rotation_start env evs)) it Active"
    using assms(3,4) by (auto simp: group_ok_def item_ok_def dest!: bspec)
  then show ?thesis by (auto simp: good_quality_def too_many_rejections_def too_many_misses_def)
qed

section \<open>The end of a group\<close>

lemma stop_starts: "sh_starts (mg_shared (snd (stop_group env ck k mode why m))) = sh_starts (mg_shared m)"
proof (cases "dict_get (mg_groups m) (py_strip k)")
  case (Some g)
  let ?r1 = "upd_snap (\<lambda>s. s\<lparr>gs_state := Stopping, gs_stop_reason :=
      UserText (take 1000 (if why = [] then default_stop_text else why))\<rparr>) (g, mg_shared m)"
  let ?r2 = "persisted env ck (over_items (stop_item env ck (if mode = ''immediate'' then Immediate else AfterCurrent))
      (cancel_all_handles ?r1))"
  have "sh_starts (snd ?r2) = sh_starts (mg_shared m)"
    using over_items_effect [of "stop_item env ck (if mode = ''immediate'' then Immediate else AfterCurrent)" "stop_pure ck",
        OF stop_item_effect, of "cancel_all_handles ?r1"] cancel_all_effect [of ?r1]
    by (simp add: only_stops_def quiet_def)
  then show ?thesis
    using Some finalize_starts [of env ck ?r2]
    by (simp add: stop_group_def Let_def settle_group_def put_group_def)
qed (simp add: stop_group_def)

lemma stop_quiesces:
  assumes w: "world_ok tid m" and g: "dict_get (mg_groups m) (py_strip k) = Some g"
  shows "quiesced (rg_serial g) (snd (stop_group env ck k mode why m))"
proof -
  let ?m = "snd (stop_group env ck k mode why m)" and ?gid = "py_strip k"
  have ok: "world_ok tid ?m" "step_rel m ?m" using stop_step [OF w] by blast+
  have ser: "rg_serial g < mg_serials m" using w g by (simp add: world_ok_def)
  have "gs_state (rg_snap h) \<noteq> Running"
    if h: "dict_get (mg_groups ?m) gid = Some h" "rg_serial h = rg_serial g" for gid h
  proof -
    obtain h0 where "dict_get (mg_groups m) gid = Some h0" "rg_serial h0 = rg_serial g"
      using ok(2) h ser unfolding step_rel_def by metis
    then have gid: "gid = ?gid" using w g unfolding world_ok_def by metis
    show ?thesis
    proof (cases "group_over (gs_state (rg_snap g))")
      case True
      then have "?m = m" using g by (simp add: stop_group_def Let_def)
      then show ?thesis using h gid g True by auto
    next
      case False
      define r1 where "r1 = upd_snap (\<lambda>s. s\<lparr>gs_state := Stopping, gs_stop_reason :=
        UserText (take 1000 (if why = [] then default_stop_text else why))\<rparr>) (g, mg_shared m)"
      define how where "how = (if mode = ''immediate'' then Immediate else AfterCurrent)"
      obtain gone r' where fin: "finalize_if_idle env ck (persisted env ck
          (over_items (stop_item env ck how) (cancel_all_handles r1))) = (gone, r')" by (metis surj_pair)
      have s: "items r1 = items (g, mg_shared m)" "gs_id (snap r1) = gs_id (snap (g, mg_shared m))"
        "gs_state (snap r1) = Stopping" "gs_slots (snap r1) = gs_slots (snap (g, mg_shared m))"
        "gs_policy (snap r1) = gs_policy (snap (g, mg_shared m))"
        "rg_serial (fst r1) = rg_serial (fst (g, mg_shared m))"
        "rg_handles (fst r1) = rg_handles (fst (g, mg_shared m))" "snd r1 = snd (g, mg_shared m)"
        by (simp_all add: r1_def upd_snap_def)
      have st: "settled tid (g, mg_shared m)" using w g by (simp add: world_ok_def)
      have nf: "\<not> group_over (gs_state (snap (g, mg_shared m)))" using False by simp
      have "?m = settle_group ?gid (gone, r') m"
        using g False fin unfolding stop_group_def Let_def r1_def how_def by simp
      then have "h = fst r'" using h gid by (simp add: settle_get split: if_splits)
      then show ?thesis using stop_ok(3) [OF st nf s fin] by simp
    qed
  qed
  then show ?thesis using ser ok(2) unfolding quiesced_def step_rel_def by (meson less_le_trans)
qed

text \<open>
  C9. Once the operator stopped a group, nothing that happens later (results,
  task ends, retry timers that still fire, other groups) starts another of its
  domains or sets the group running again.
\<close>

theorem stopped_group_starts_nothing:
  assumes "fresh_starts env tid"
    and "dict_get (mg_groups (rotation_start env evs)) (py_strip k) = Some g"
  shows "length (filter (\<lambda>c. sc_serial c = rg_serial g \<and> sc_position c = p) (sh_starts (mg_shared
      (rotation_run env later (snd (stop_group env ck k mode why (rotation_start env evs)))))))
    = length (filter (\<lambda>c. sc_serial c = rg_serial g \<and> sc_position c = p)
        (sh_starts (mg_shared (rotation_start env evs))))
    \<and> (\<forall>h. dict_get (mg_groups (rotation_run env later
          (snd (stop_group env ck k mode why (rotation_start env evs))))) (py_strip k) = Some h \<longrightarrow>
        rg_serial h = rg_serial g \<longrightarrow> gs_state (rg_snap h) \<noteq> Running)"
proof -
  let ?m = "snd (stop_group env ck k mode why (rotation_start env evs))"
  have w: "world_ok tid ?m" using stop_step [OF start_ok [OF assms(1)]] by blast
  have q: "quiesced (rg_serial g) ?m" by (rule stop_quiesces [OF start_ok [OF assms(1)] assms(2)])
  have s: "step_rel ?m (rotation_run env later ?m)" using rotation_run_ok [OF assms(1) w] by blast
  have "starts_of (rg_serial g) p (mg_shared (rotation_run env later ?m)) = starts_of (rg_serial g) p (mg_shared ?m)"
    using s q unfolding step_rel_def by blast
  moreover have "starts_of (rg_serial g) p (mg_shared ?m) = starts_of (rg_serial g) p (mg_shared (rotation_start env evs))"
    by (rule starts_of_cong [OF stop_starts])
  moreover have "quiesced (rg_serial g) (rotation_run env later ?m)" by (rule step_rel_quiesced [OF s q])
  ultimately show ?thesis unfolding starts_of_def quiesced_def by simp
qed

theorem stopped_group_starts_nothing_witness:
  "\<exists>g. dict_get (mg_groups (rotation_start demo_rotation demo_created)) ''g'' = Some g
     \<and> length (filter (\<lambda>c. sc_serial c = rg_serial g \<and> sc_position c = 2) (sh_starts (mg_shared
      (rotation_run demo_rotation [(demo_clock 9, EvTerminal (task_name 0) network_report)]
        (snd (stop_group demo_rotation (demo_clock 5) '' g'' ''after_current'' [] (rotation_start demo_rotation demo_created)))))))
    = length (filter (\<lambda>c. sc_serial c = rg_serial g \<and> sc_position c = 2)
        (sh_starts (mg_shared (rotation_start demo_rotation demo_created))))"
proof -
  obtain g where g: "dict_get (mg_groups (rotation_start demo_rotation demo_created)) ''g'' = Some g"
    using demo_group by fastforce
  have "py_strip '' g'' = ''g''" by code_simp
  then show ?thesis
    using stopped_group_starts_nothing [OF demo_rotation_fresh, of demo_created "'' g''" g 2
        "[(demo_clock 9, EvTerminal (task_name 0) network_report)]" "demo_clock 5" "''after_current''" "[]"] g
    by auto
qed

text \<open>
  C10. Every group ends. While a group is not over, one of its tasks can end or one
  of its armed retry timers can come due; each such event lowers a measure that no
  other event raises, so a run contains at most six of them per domain; and from
  every reachable state at most six events per domain lead to the end of the group.
\<close>

theorem rotation_ends:
  assumes "fresh_starts env tid"
    and "dict_get (mg_groups (rotation_start env evs)) gid = Some g"
  shows "(\<not> group_over (gs_state (rg_snap g)) \<longrightarrow> (\<exists>ev. due (rotation_start env evs) gid ev))
    \<and> due_count env gid (rg_serial g) later (rotation_start env evs) \<le> 6 * length (gs_items (rg_snap g))
    \<and> (\<exists>rest. length rest \<le> 6 * length (gs_items (rg_snap g))
        \<and> (\<forall>h. dict_get (mg_groups (rotation_run env rest (rotation_start env evs))) gid = Some h \<longrightarrow>
              rg_serial h = rg_serial g \<longrightarrow> group_over (gs_state (rg_snap h))))"
proof -
  have w: "world_ok tid (rotation_start env evs)" by (rule start_ok [OF assms(1)])
  have b: "gwork g \<le> 6 * length (gs_items (rg_snap g))"
    using gwork_bound group_settled(1) [OF assms] by (auto simp: settled_def)
  have "due_count env gid (rg_serial g) later (rotation_start env evs) \<le> 6 * length (gs_items (rg_snap g))"
    using due_count_le [OF assms(1) w assms(2), of later] b by linarith
  moreover obtain rest where "length rest \<le> gwork g"
    "\<forall>h. dict_get (mg_groups (rotation_run env rest (rotation_start env evs))) gid = Some h \<longrightarrow>
              rg_serial h = rg_serial g \<longrightarrow> group_over (gs_state (rg_snap h))"
    using can_finish [OF assms(1) w assms(2)] by blast
  ultimately show ?thesis using due_exists [OF assms(1) w assms(2)] b
    by (intro conjI impI exI [of _ rest]) auto
qed

theorem rotation_ends_witness:
  "\<exists>g. dict_get (mg_groups (rotation_start demo_rotation demo_created)) ''g'' = Some g
     \<and> (\<exists>ev. due (rotation_start demo_rotation demo_created) ''g'' ev)
     \<and> due_count demo_rotation ''g'' (rg_serial g)
         [(demo_clock 1, EvTerminal (task_name 0) network_report), (demo_clock 6, EvTimer 0)]
         (rotation_start demo_rotation demo_created) \<le> 12"
proof -
  obtain g where g: "dict_get (mg_groups (rotation_start demo_rotation demo_created)) ''g'' = Some g"
    "gs_state (rg_snap g) = Running" "map it_state (gs_items (rg_snap g)) = [Active, Pending]"
    using demo_group by fastforce
  have "length (gs_items (rg_snap g)) = 2" using arg_cong [OF g(3), of length] by simp
  then show ?thesis
    using rotation_ends [OF demo_rotation_fresh g(1), of "[(demo_clock 1, EvTerminal (task_name 0) network_report),
        (demo_clock 6, EvTimer 0)]"] g by (intro exI [of _ g]) simp
qed

section \<open>Task failures\<close>

lemma resolve_run:
  "resolve_task task m = Some (gid, r, i) \<Longrightarrow>
    \<exists>g. dict_get (mg_groups m) gid = Some g \<and> r = (g, mg_shared m) \<and> i < length (items r)"
  using index_from_0_Some
  by (fastforce simp: resolve_task_def item_for_position_def split: option.splits)

lemma terminal_settles:
  assumes "resolve_task task m = Some (gid, r, i)"
  shows "handle_task_terminal env ck task tk m
    = settle_group gid (fst (task_ended env ck i (py_strip task) tk r), snd (task_ended env ck i (py_strip task) tk r)) m"
  using assms by (simp add: handle_task_terminal_def on_task_def)

text \<open>A group that left the running state in a step of the manager is quiesced afterwards.\<close>

lemma report_quiesces:
  assumes f: "fresh_starts env tid" and w: "world_ok tid m"
    and res: "resolve_task task m = Some (gid, r, i)"
    and over: "\<And>h. dict_get (mg_groups (handle_task_terminal env ck task tk m)) gid = Some h \<Longrightarrow>
      gs_state (rg_snap h) \<noteq> Running"
  shows "quiesced (rg_serial (fst r)) (handle_task_terminal env ck task tk m)"
proof -
  let ?m = "handle_task_terminal env ck task tk m"
  obtain g where g: "dict_get (mg_groups m) gid = Some g" "r = (g, mg_shared m)"
    by (rule resolve_facts [OF w res])
  have s: "step_rel m ?m" using rotation_step_ok [OF f w, of "(ck, EvTerminal task tk)"] by simp
  have ser: "rg_serial g < mg_serials m" using w g(1) by (simp add: world_ok_def)
  have "gs_state (rg_snap h) \<noteq> Running"
    if h: "dict_get (mg_groups ?m) gid' = Some h" "rg_serial h = rg_serial g" for gid' h
  proof -
    obtain h0 where "dict_get (mg_groups m) gid' = Some h0" "rg_serial h0 = rg_serial g"
      using s h ser unfolding step_rel_def by metis
    then have "gid' = gid" using w g(1) unfolding world_ok_def by metis
    with over h(1) show ?thesis by blast
  qed
  then show ?thesis using ser s g(2) unfolding quiesced_def step_rel_def by (auto intro: less_le_trans)
qed

text \<open>
  C15. A task that fails or is interrupted after it registered accounts or decided
  registrations is never replayed. In every reachable state, if the group is still
  running and the quality gate has not already stopped the domain (a domain it stopped
  is drained, and its end frees the slot for the next pending domain), then the
  report of such a task starts nothing at all and takes the group out of the running
  state; and whatever happens afterwards, no domain of this group, the failed one
  included, is started again and the group does not run again.
\<close>

theorem progress_never_replayed:
  assumes "fresh_starts env tid"
    and res: "resolve_task task (rotation_start env evs) = Some (gid, r, i)"
    and run: "gs_state (snap r) = Running" and tr: "it_trigger (items r ! i) = None"
    and bad: "terminal_status tk \<in> {''failed'', ''interrupted''}" and pr: "has_progress (items r ! i) tk"
  shows "sh_starts (mg_shared (handle_task_terminal env ck task tk (rotation_start env evs)))
      = sh_starts (mg_shared (rotation_start env evs))
    \<and> (\<forall>h. dict_get (mg_groups (handle_task_terminal env ck task tk (rotation_start env evs))) gid = Some h \<longrightarrow>
          gs_state (rg_snap h) \<in> {Failing, GroupFailed})
    \<and> (\<forall>later p. length (filter (\<lambda>c. sc_serial c = rg_serial (fst r) \<and> sc_position c = p)
            (sh_starts (mg_shared (rotation_run env later
              (handle_task_terminal env ck task tk (rotation_start env evs))))))
          = length (filter (\<lambda>c. sc_serial c = rg_serial (fst r) \<and> sc_position c = p)
              (sh_starts (mg_shared (rotation_start env evs)))))
    \<and> (\<forall>later h. dict_get (mg_groups (rotation_run env later
            (handle_task_terminal env ck task tk (rotation_start env evs)))) gid = Some h \<longrightarrow>
          rg_serial h = rg_serial (fst r) \<longrightarrow> gs_state (rg_snap h) \<noteq> Running)"
proof -
  let ?start = "rotation_start env evs"
  let ?m = "handle_task_terminal env ck task tk ?start"
  have w: "world_ok tid ?start" by (rule start_ok [OF assms(1)])
  have starts: "sh_starts (mg_shared ?m) = sh_starts (mg_shared ?start)"
    and over: "dict_get (mg_groups ?m) gid = Some h \<Longrightarrow> gs_state (rg_snap h) \<in> {Failing, GroupFailed}" for h
    using report_progress_fails [OF run tr bad pr, of env ck "py_strip task"] resolve_run [OF res]
    unfolding terminal_settles [OF res] settle_get by (auto split: if_splits)
  have q: "quiesced (rg_serial (fst r)) ?m" using report_quiesces [OF assms(1) w res] over by fastforce
  have w': "world_ok tid ?m" using rotation_step_ok [OF assms(1) w, of "(ck, EvTerminal task tk)"] by simp
  have s: "step_rel ?m (rotation_run env later ?m)" for later using rotation_run_ok [OF assms(1) w'] by blast
  have "starts_of (rg_serial (fst r)) p (mg_shared (rotation_run env later ?m))
      = starts_of (rg_serial (fst r)) p (mg_shared ?start)" for later p
  proof -
    have "starts_of (rg_serial (fst r)) p (mg_shared (rotation_run env later ?m))
        = starts_of (rg_serial (fst r)) p (mg_shared ?m)"
      using s [of later] q unfolding step_rel_def by blast
    also have "\<dots> = starts_of (rg_serial (fst r)) p (mg_shared ?start)" by (rule starts_of_cong [OF starts])
    finally show ?thesis .
  qed
  moreover have "quiesced (rg_serial (fst r)) (rotation_run env later ?m)" for later
    by (rule step_rel_quiesced [OF s q])
  ultimately show ?thesis using starts over unfolding starts_of_def quiesced_def by blast
qed

definition half_done_report :: task_report where
  "half_done_report = network_report\<lparr>tk_success := 2, tk_progress := ''2/5''\<rparr>"

theorem progress_never_replayed_witness:
  "\<exists>g. dict_get (mg_groups (rotation_start demo_rotation demo_created)) ''g'' = Some g
     \<and> length (filter (\<lambda>c. sc_serial c = rg_serial g \<and> sc_position c = 1) (sh_starts (mg_shared
         (rotation_run demo_rotation [(demo_clock 6, EvTimer 0)]
           (handle_task_terminal demo_rotation (demo_clock 1) (task_name 0) half_done_report
             (rotation_start demo_rotation demo_created))))))
       = length (filter (\<lambda>c. sc_serial c = rg_serial g \<and> sc_position c = 1)
           (sh_starts (mg_shared (rotation_start demo_rotation demo_created))))"
proof -
  have "map_option (\<lambda>(gid, r, i). (gid, i, gs_state (snap r), it_trigger (items r ! i)))
      (resolve_task (task_name 0) (rotation_start demo_rotation demo_created)) = Some (''g'', 0, Running, None)"
    by code_simp
  then obtain r where r: "resolve_task (task_name 0) (rotation_start demo_rotation demo_created) = Some (''g'', r, 0)"
    "gs_state (snap r) = Running" "it_trigger (items r ! 0) = None"
    by (auto split: prod.splits)
  have "terminal_status half_done_report = ''failed''" by code_simp
  then have bad: "terminal_status half_done_report \<in> {''failed'', ''interrupted''}" by simp
  have pr: "has_progress (items r ! 0) half_done_report"
    by (simp add: has_progress_def half_done_report_def nonneg_int_def)
  from resolve_run [OF r(1)] obtain g where g: "dict_get (mg_groups (rotation_start demo_rotation demo_created)) ''g'' = Some g"
    "fst r = g" by auto
  from progress_never_replayed [OF demo_rotation_fresh r bad pr] g show ?thesis by blast
qed

text \<open>
  When the tasks of two domains of a group fail for the same technical reason
  within thirty seconds of each other, without having made progress, the second
  report starts nothing, opens the circuit, and the group winds down.
\<close>

lemma similar_failures_stop_group:
  assumes f: "fresh_starts env tid"
    and r1: "resolve_task t1 (rotation_start env evs) = Some (gid, r, i)"
      "gs_state (snap r) = Running" "it_trigger (items r ! i) = None"
    and bad1: "terminal_status tk1 \<in> {''failed'', ''interrupted''}" "\<not> has_progress (items r ! i) tk1"
      "retryable_failure (terminal_status tk1) (terminal_error env tk1) = Some c"
    and r2: "resolve_task t2 (handle_task_terminal env ck1 t1 tk1 (rotation_start env evs)) = Some (gid, q, j)"
      "gs_state (snap q) = Running" "it_trigger (items q ! j) = None" "j \<noteq> i"
    and bad2: "terminal_status tk2 \<in> {''failed'', ''interrupted''}" "\<not> has_progress (items q ! j) tk2"
      "retryable_failure (terminal_status tk2) (terminal_error env tk2) = Some c"
    and soon: "ck_mono ck2 - ck_mono ck1 \<le> 30"
  defines "m1 \<equiv> handle_task_terminal env ck1 t1 tk1 (rotation_start env evs)"
  shows "sh_starts (mg_shared (handle_task_terminal env ck2 t2 tk2 m1)) = sh_starts (mg_shared m1)
    \<and> (\<forall>h. dict_get (mg_groups (handle_task_terminal env ck2 t2 tk2 m1)) gid = Some h \<longrightarrow>
          gs_state (rg_snap h) \<in> {Failing, GroupFailed}
          \<and> (\<exists>n. map_option gf_code (gs_failure (rg_snap h)) = Some (TechnicalCircuitOpen n c)))"
proof -
  let ?m = "rotation_start env evs"
  have w: "world_ok tid ?m" by (rule start_ok [OF f])
  have w1: "world_ok tid m1"
    using rotation_step_ok [OF f w, of "(ck1, EvTerminal t1 tk1)"] by (simp add: m1_def)
  obtain g where g: "r = (g, mg_shared ?m)" "settled tid r" "i < length (items r)"
    by (rule resolve_facts [OF w r1(1)])
  obtain g1 where g1: "dict_get (mg_groups m1) gid = Some g1" "q = (g1, mg_shared m1)" "settled tid q" "j < length (items q)"
    by (rule resolve_facts [OF w1 r2(1) [folded m1_def]])
  let ?e = "task_ended env ck1 i (py_strip t1) tk1 r"
  obtain gone r' where e: "?e = (gone, r')" by (metis surj_pair)
  have m1: "m1 = settle_group gid (gone, r') ?m" unfolding m1_def terminal_settles [OF r1(1)] e by simp
  then have "g1 = fst r'" using g1(1) by (simp add: settle_get split: if_splits)
  moreover have "mg_shared m1 = snd r'" using m1 by (simp add: settle_get)
  ultimately have q: "q = snd ?e" using g1(2) e by simp
  have "gs_state (snap (snd ?e)) = Running" using r2(2) q by simp
  from report_remembered [OF r1(2,3) bad1 g(3) this]
  have ev: "(ck_mono ck1, c, it_position (items r ! i)) \<in> set (rg_events (fst q))" unfolding q .
  have "it_position (items r ! i) = i + 1" "it_position (items q ! j) = j + 1" "policy_ok (gs_policy (snap q))"
    using g g1 by (simp_all add: settled_def group_ok_def positions_ok_def)
  then have ne: "it_position (items r ! i) \<noteq> it_position (items q ! j)" "policy_ok (gs_policy (snap q))"
    using r2(4) by simp_all
  note c = circuit_report_fails [OF r2(2,3) bad2 g1(4) ne(2) ev ne(1) soon, of "py_strip t2"]
  have h2: "handle_task_terminal env ck2 t2 tk2 m1 = settle_group gid
      (fst (task_ended env ck2 j (py_strip t2) tk2 q), snd (task_ended env ck2 j (py_strip t2) tk2 q)) m1"
    by (rule terminal_settles [OF r2(1) [folded m1_def]])
  show ?thesis using c g1(2) unfolding h2 settle_get by (auto split: if_splits)
qed

definition interrupted_report :: task_report where
  "interrupted_report = \<lparr>tk_status = ''interrupted'', tk_error = uni ''x'', tk_errors = [], tk_success = 0,
     tk_skipped = 0, tk_progress = []\<rparr>"

definition demo_two :: "(clock \<times> rotation_event) list" where
  "demo_two = [(demo_clock 0, EvCreate (demo_request\<lparr>gq_slots := 2\<rparr>))]"

end
