(* ===== verification/RotationView.thy ===== *)
theory RotationView
  imports RotationMachine
begin

text \<open>
  What the group endpoints show: \<open>_public_group_snapshot\<close>. Each attempt of a domain
  is one task of the view, a task is listed once, and the failed domains are listed
  as errors. The snapshot is a typed record here, so the checks of the code for
  malformed JSON have nothing to reject.
\<close>

record public_task =
  pt_domain :: string
  pt_position :: nat
  pt_task :: string
  pt_state :: domain_state
  pt_error :: utext
  pt_attempt :: nat
  pt_current :: bool
  pt_started :: "time option"
  pt_terminal :: "time option"

record public_error =
  pe_domain :: string
  pe_position :: nat
  pe_state :: domain_state
  pe_message :: utext
  pe_retry_count :: nat
  pe_retry_limit :: nat

record public_group =
  pg_id :: string
  pg_state :: group_state
  pg_requested :: nat
  pg_created_count :: nat
  pg_attempt_count :: nat
  pg_failed_count :: nat
  pg_slots :: nat
  pg_policy :: rotation_policy
  pg_counts :: "(domain_state, nat) dict"
  pg_tasks :: "public_task list"
  pg_domains :: "domain_item list"
  pg_errors :: "public_error list"
  pg_failure :: "group_failure option"
  pg_technical :: "technical_event list"
  pg_stop_reason :: stop_text
  pg_created :: time
  pg_updated :: time
  pg_finished :: "time option"

definition domain_ended_text :: utext where
  "domain_ended_text = [22495, 21517, 20219, 21153, 24322, 24120, 32467, 26463]"

text \<open>The attempts of one domain that were not listed before, and the names seen so far.\<close>

fun attempt_tasks ::
  "domain_item \<Rightarrow> nat \<Rightarrow> task_attempt list \<Rightarrow> string list \<Rightarrow> public_task list \<times> string list" where
  "attempt_tasks it n [] seen = ([], seen)"
| "attempt_tasks it n (a # as) seen =
     (let t = py_strip (at_task a)
      in if t = [] \<or> t \<in> set seen then attempt_tasks it (n + 1) as seen
         else (let (ts, seen') = attempt_tasks it (n + 1) as (seen @ [t])
               in (\<lparr>pt_domain = it_domain it, pt_position = it_position it, pt_task = t,
                    pt_state = at_state a, pt_error = at_error a,
                    pt_attempt = (if at_number a = 0 then n else at_number a),
                    pt_current = (t = it_task it), pt_started = at_started a,
                    pt_terminal = at_terminal a\<rparr> # ts, seen')))"

definition item_tasks :: "domain_item \<Rightarrow> string list \<Rightarrow> public_task list \<times> string list" where
  "item_tasks it seen =
     (let (ts, seen') = attempt_tasks it 1 (it_attempts it) seen
      in if ts = [] \<and> it_task it \<noteq> []
         then ([\<lparr>pt_domain = it_domain it, pt_position = it_position it, pt_task = it_task it,
                 pt_state = it_state it, pt_error = it_error it,
                 pt_attempt = max 1 (it_attempt_count it), pt_current = True,
                 pt_started = it_started it, pt_terminal = it_terminal it\<rparr>], seen' @ [it_task it])
         else (ts, seen'))"

definition item_error :: "domain_item \<Rightarrow> public_error list" where
  "item_error it =
     (if it_state it \<in> {StartFailed, DomainFailed, TechnicalFailed}
      then [\<lparr>pe_domain = it_domain it, pe_position = it_position it, pe_state = it_state it,
             pe_message = (if it_error it \<noteq> [] then it_error it
                else case it_technical it of
                  Some f \<Rightarrow> if tf_message f \<noteq> [] then tf_message f else domain_ended_text
                | None \<Rightarrow> domain_ended_text),
             pe_retry_count = it_retry_count it, pe_retry_limit = it_retry_limit it\<rparr>]
      else [])"

definition count_in :: "domain_state \<Rightarrow> (domain_state, nat) dict \<Rightarrow> (domain_state, nat) dict" where
  "count_in s d = dict_set s ((case dict_get d s of None \<Rightarrow> 0 | Some n \<Rightarrow> n) + 1) d"

fun view_items ::
  "domain_item list \<Rightarrow> string list \<Rightarrow> nat \<times> public_task list" where
  "view_items [] seen = (0, [])"
| "view_items (it # its) seen =
     (let (ts, seen') = item_tasks it seen; (n, rest) = view_items its seen'
      in ((if ts = [] then n else n + 1), ts @ rest))"

definition public_group :: "group_snapshot \<Rightarrow> public_group" where
  "public_group s =
     (let (n, ts) = view_items (gs_items s) []; errs = concat (map item_error (gs_items s))
      in \<lparr>pg_id = gs_id s, pg_state = gs_state s, pg_requested = gs_domain_count s,
          pg_created_count = n, pg_attempt_count = length ts, pg_failed_count = length errs,
          pg_slots = gs_slots s, pg_policy = gs_policy s,
          pg_counts = fold (\<lambda>it. count_in (it_state it)) (gs_items s) [],
          pg_tasks = ts, pg_domains = gs_items s, pg_errors = errs, pg_failure = gs_failure s,
          pg_technical = gs_technical s, pg_stop_reason = gs_stop_reason s, pg_created = gs_created s,
          pg_updated = gs_updated s, pg_finished = gs_finished s\<rparr>)"

section \<open>The counts\<close>

lemma counts_step:
  "dict_get (fold (\<lambda>it. count_in (it_state it)) its d) s =
     (if length (filter (\<lambda>it. it_state it = s) its) = 0 then dict_get d s
      else Some ((case dict_get d s of None \<Rightarrow> 0 | Some n \<Rightarrow> n) + length (filter (\<lambda>it. it_state it = s) its)))"
  by (induction its arbitrary: d) (auto simp: count_in_def split: option.splits)

lemma public_counts:
  "dict_get (pg_counts (public_group s)) st =
     (let n = length (filter (\<lambda>it. it_state it = st) (gs_items s)) in if n = 0 then None else Some n)"
  by (simp add: public_group_def counts_step Let_def case_prod_unfold)

lemma failed_count:
  "pg_failed_count (public_group s) =
     length (filter (\<lambda>it. it_state it \<in> {StartFailed, DomainFailed, TechnicalFailed}) (gs_items s))"
proof -
  have "length (concat (map item_error its)) =
      length (filter (\<lambda>it. it_state it \<in> {StartFailed, DomainFailed, TechnicalFailed}) its)" for its
    by (induction its) (simp_all add: item_error_def)
  then show ?thesis by (simp add: public_group_def Let_def case_prod_unfold)
qed

lemma created_count_le: "pg_created_count (public_group s) \<le> length (gs_items s)"
proof -
  have "fst (view_items its seen) \<le> length its" for its seen
  proof (induction its arbitrary: seen)
    case (Cons it its)
    show ?case using Cons.IH [of "snd (item_tasks it seen)"] by (simp add: Let_def case_prod_unfold)
  qed simp
  then show ?thesis by (simp add: public_group_def Let_def case_prod_unfold)
qed

end
