(* ===== verification/Urls.thy ===== *)
theory Urls
  imports Prelude
begin

text \<open>
  What the program uses of \<open>urllib.parse\<close> (Python 3.12): \<open>urlsplit\<close>, the \<open>hostname\<close>
  of its result and \<open>parse_qs\<close> with blank values kept, on texts of code points. A
  network location with a bracket or a character outside ASCII is checked by the
  library with tables that are left to the parameter \<open>netloc_ok\<close>; where it says
  no, the library raises \<open>ValueError\<close>.
\<close>

section \<open>Cutting text\<close>

definition u_cut :: "nat \<Rightarrow> utext \<Rightarrow> (utext \<times> utext) option" where
  "u_cut c u = (if c \<in> set u
     then Some (takeWhile (\<lambda>x. x \<noteq> c) u, tl (dropWhile (\<lambda>x. x \<noteq> c) u)) else None)"

fun u_split :: "nat \<Rightarrow> utext \<Rightarrow> utext list" where
  "u_split c [] = [[]]"
| "u_split c (x # xs) =
     (if x = c then [] # u_split c xs
      else case u_split c xs of [] \<Rightarrow> [[x]] | w # ws \<Rightarrow> (x # w) # ws)"

lemma u_cut_Some: "u_cut c u = Some (a, b) \<Longrightarrow> u = a @ c # b \<and> c \<notin> set a"
proof -
  assume "u_cut c u = Some (a, b)"
  then have c: "c \<in> set u" and a: "a = takeWhile (\<lambda>x. x \<noteq> c) u"
    and b: "b = tl (dropWhile (\<lambda>x. x \<noteq> c) u)"
    by (auto simp: u_cut_def split: if_splits)
  have "dropWhile (\<lambda>x. x \<noteq> c) u \<noteq> []" using c by (simp add: dropWhile_eq_Nil_conv)
  moreover have "hd (dropWhile (\<lambda>x. x \<noteq> c) u) = c"
    using hd_dropWhile [of "\<lambda>x. x \<noteq> c" u] calculation by simp
  ultimately have "dropWhile (\<lambda>x. x \<noteq> c) u = c # b"
    using b by (metis list.collapse)
  then have "u = a @ c # b" using a by (metis takeWhile_dropWhile_id)
  moreover have "c \<notin> set a" using a by (auto dest: set_takeWhileD)
  ultimately show ?thesis by simp
qed

lemma u_cut_None: "u_cut c u = None \<longleftrightarrow> c \<notin> set u"
  by (simp add: u_cut_def)

section \<open>\<open>urlsplit\<close>\<close>

record split_url =
  su_scheme :: utext
  su_netloc :: utext
  su_path :: utext
  su_query :: utext
  su_fragment :: utext

definition ascii_letter :: "nat \<Rightarrow> bool" where
  "ascii_letter c \<longleftrightarrow> 65 \<le> c \<and> c \<le> 90 \<or> 97 \<le> c \<and> c \<le> 122"

definition ascii_digit :: "nat \<Rightarrow> bool" where
  "ascii_digit c \<longleftrightarrow> 48 \<le> c \<and> c \<le> 57"

text \<open>Letters, digits, plus, minus and dot.\<close>

definition scheme_code :: "nat \<Rightarrow> bool" where
  "scheme_code c \<longleftrightarrow> ascii_letter c \<or> ascii_digit c \<or> c = 43 \<or> c = 45 \<or> c = 46"

definition cut_scheme :: "utext \<Rightarrow> utext \<times> utext" where
  "cut_scheme u =
     (case u_cut 58 u of
        Some (a, b) \<Rightarrow> if a \<noteq> [] \<and> ascii_letter (hd a) \<and> list_all scheme_code a
                        then (u_lower a, b) else ([], u)
      | None \<Rightarrow> ([], u))"

text \<open>The location ends at a slash, a question mark or a number sign.\<close>

definition netloc_code :: "nat \<Rightarrow> bool" where
  "netloc_code c \<longleftrightarrow> c \<noteq> 47 \<and> c \<noteq> 63 \<and> c \<noteq> 35"

definition cut_netloc :: "utext \<Rightarrow> utext \<times> utext" where
  "cut_netloc u =
     (if take 2 u = [47, 47]
      then (takeWhile netloc_code (drop 2 u), dropWhile netloc_code (drop 2 u)) else ([], u))"

definition netloc_fine :: "(utext \<Rightarrow> bool) \<Rightarrow> utext \<Rightarrow> bool" where
  "netloc_fine netloc_ok n \<longleftrightarrow>
     (if 91 \<in> set n \<or> 93 \<in> set n \<or> list_ex (\<lambda>c. 127 < c) n then netloc_ok n else True)"

definition urlsplit :: "(utext \<Rightarrow> bool) \<Rightarrow> utext \<Rightarrow> split_url option" where
  "urlsplit netloc_ok url =
     (let u = filter (\<lambda>c. c \<noteq> 9 \<and> c \<noteq> 10 \<and> c \<noteq> 13) (dropWhile (\<lambda>c. c \<le> 32) url);
          (scheme, u1) = cut_scheme u;
          (netloc, u2) = cut_netloc u1;
          (u3, fragment) = (case u_cut 35 u2 of Some ab \<Rightarrow> ab | None \<Rightarrow> (u2, []));
          (path, query) = (case u_cut 63 u3 of Some ab \<Rightarrow> ab | None \<Rightarrow> (u3, []))
      in if \<not> netloc_fine netloc_ok netloc then None
         else Some \<lparr>su_scheme = scheme, su_netloc = netloc, su_path = path, su_query = query,
                    su_fragment = fragment\<rparr>)"

text \<open>Of the location, what follows the last \<open>@\<close>; of that, what is bracketed or before the colon.\<close>

definition hostname :: "split_url \<Rightarrow> utext option" where
  "hostname s =
     (let info = rev (takeWhile (\<lambda>c. c \<noteq> 64) (rev (su_netloc s)));
          name = (case u_cut 91 info of
                    Some (_, b) \<Rightarrow> takeWhile (\<lambda>c. c \<noteq> 93) b
                  | None \<Rightarrow> takeWhile (\<lambda>c. c \<noteq> 58) info)
      in if name = [] then None
         else Some (u_lower (takeWhile (\<lambda>c. c \<noteq> 37) name) @ dropWhile (\<lambda>c. c \<noteq> 37) name))"

section \<open>\<open>unquote\<close> and \<open>parse_qs\<close>\<close>

text \<open>
  One step of the UTF-8 decoder that replaces what it cannot decode: the code
  point and how many bytes it took. An ill-formed sequence gives the replacement
  character for its longest well-formed beginning.
\<close>

definition tail_byte :: "nat \<Rightarrow> nat \<Rightarrow> nat list \<Rightarrow> nat \<Rightarrow> bool" where
  "tail_byte lo hi bs k \<longleftrightarrow> k < length bs \<and> lo \<le> bs ! k \<and> bs ! k \<le> hi"

definition decode_step :: "nat list \<Rightarrow> nat \<times> nat" where
  "decode_step bs =
     (let b = hd bs; next = tail_byte 128 191 bs
      in if b < 128 then (b, 1)
         else if b < 194 then (65533, 1)
         else if b < 224
         then if next 1 then ((b - 192) * 64 + (bs ! 1 - 128), 2) else (65533, 1)
         else if b < 240
         then if \<not> tail_byte (if b = 224 then 160 else 128) (if b = 237 then 159 else 191) bs 1
              then (65533, 1)
              else if \<not> next 2 then (65533, 2)
              else (((b - 224) * 64 + (bs ! 1 - 128)) * 64 + (bs ! 2 - 128), 3)
         else if b < 245
         then if \<not> tail_byte (if b = 240 then 144 else 128) (if b = 244 then 143 else 191) bs 1
              then (65533, 1)
              else if \<not> next 2 then (65533, 2)
              else if \<not> next 3 then (65533, 3)
              else ((((b - 240) * 64 + (bs ! 1 - 128)) * 64 + (bs ! 2 - 128)) * 64 + (bs ! 3 - 128), 4)
         else (65533, 1))"

lemma decode_step_pos: "0 < snd (decode_step bs)"
  by (simp add: decode_step_def Let_def)

function utf8_decode :: "nat list \<Rightarrow> utext" where
  "utf8_decode [] = []"
| "utf8_decode (b # bs) =
     (let (c, n) = decode_step (b # bs) in c # utf8_decode (drop n (b # bs)))"
  by pat_completeness auto
termination
proof (relation "measure length")
  fix b bs x c n
  assume "x = decode_step (b # bs)" and "(c, n) = x"
  then have "0 < n" using decode_step_pos [of "b # bs"] by (metis snd_conv)
  then show "(drop n (b # bs), b # bs) \<in> measure length" by simp
qed simp

definition hex_val :: "nat \<Rightarrow> nat option" where
  "hex_val c = (if ascii_digit c then Some (c - 48)
     else if 65 \<le> c \<and> c \<le> 70 then Some (c - 55)
     else if 97 \<le> c \<and> c \<le> 102 then Some (c - 87) else None)"

fun percent_bytes :: "utext \<Rightarrow> nat list" where
  "percent_bytes (c # a # b # u) =
     (case (c = 37, hex_val a, hex_val b) of
        (True, Some x, Some y) \<Rightarrow> (16 * x + y) # percent_bytes u
      | _ \<Rightarrow> c # percent_bytes (a # b # u))"
| "percent_bytes u = u"

text \<open>Runs of ASCII are unquoted and decoded, other characters stay.\<close>

function unquote :: "utext \<Rightarrow> utext" where
  "unquote [] = []"
| "unquote (c # cs) =
     (if c < 128
      then utf8_decode (percent_bytes (takeWhile (\<lambda>x. x < 128) (c # cs)))
             @ unquote (dropWhile (\<lambda>x. x < 128) (c # cs))
      else c # unquote cs)"
  by pat_completeness auto
termination
  by (relation "measure length") (auto simp: le_imp_less_Suc length_dropWhile_le)

definition unquote_plus :: "utext \<Rightarrow> utext" where
  "unquote_plus u = unquote (map (\<lambda>c. if c = 43 then 32 else c) u)"

definition query_pairs :: "utext \<Rightarrow> (utext \<times> utext) list" where
  "query_pairs q =
     map (\<lambda>nv. case u_cut 61 nv of
                 Some (k, v) \<Rightarrow> (unquote_plus k, unquote_plus v)
               | None \<Rightarrow> (unquote_plus nv, []))
       (filter (\<lambda>nv. nv \<noteq> []) (u_split 38 q))"

definition query_values :: "utext \<Rightarrow> utext \<Rightarrow> utext list" where
  "query_values q k = map snd (filter (\<lambda>p. fst p = k) (query_pairs q))"

end
