(* ===== verification/Floats.thy ===== *)
theory Floats
  imports Prelude
begin

text \<open>
  \<open>float(value)\<close> on dynamic values. A float is an exact rational; a text that is not
  a number, and a number past the largest float, give \<open>None\<close>.
\<close>

definition count_digits :: "string \<Rightarrow> nat" where
  "count_digits s = length (filter is_digit s)"

definition float_mantissa :: "string \<Rightarrow> rat option" where
  "float_mantissa s =
     (let a = takeWhile (\<lambda>c. c \<noteq> CHR ''.'') s; rest = dropWhile (\<lambda>c. c \<noteq> CHR ''.'') s; b = tl rest;
          whole = (if a = [] \<and> b \<noteq> [] then Some 0 else parse_digits 0 False a);
          part = (if b = [] then Some 0 else parse_digits 0 False b)
      in case (whole, part) of
           (Some w, Some p) \<Rightarrow> Some (of_int w + of_int p / 10 ^ count_digits b)
         | _ \<Rightarrow> None)"

definition signed_digits :: "string \<Rightarrow> int option" where
  "signed_digits s =
     (case s of
        [] \<Rightarrow> None
      | c # cs \<Rightarrow> if c = CHR ''-'' then map_option uminus (parse_digits 0 False cs)
                  else if c = CHR ''+'' then parse_digits 0 False cs else parse_digits 0 False s)"

definition float_body :: "string \<Rightarrow> rat option" where
  "float_body s =
     (let is_e = (\<lambda>c. c = CHR ''e'' \<or> c = CHR ''E''); m = takeWhile (\<lambda>c. \<not> is_e c) s;
          rest = dropWhile (\<lambda>c. \<not> is_e c) s;
          ex = (if rest = [] then Some 0 else signed_digits (tl rest))
      in case (float_mantissa m, ex) of
           (Some q, Some k) \<Rightarrow> Some (if 0 \<le> k then q * 10 ^ nat k else q / 10 ^ nat (- k))
         | _ \<Rightarrow> None)"

definition float_text :: "string \<Rightarrow> rat option" where
  "float_text text =
     (case py_strip text of
        [] \<Rightarrow> None
      | c # cs \<Rightarrow> if c = CHR ''-'' then map_option uminus (float_body cs)
                  else if c = CHR ''+'' then float_body cs else float_body (c # cs))"

definition in_float_range :: "rat \<Rightarrow> rat option" where
  "in_float_range q = (if \<bar>q\<bar> < 2 ^ 1024 then Some q else None)"

text \<open>Small numbers are in range: evaluation does not need the bound.\<close>

lemma in_float_range_code [code]:
  "in_float_range q = (if \<bar>q\<bar> \<le> 1000000 then Some q else if \<bar>q\<bar> < 2 ^ 1024 then Some q else None)"
  by (auto simp: in_float_range_def)

fun py_float :: "pyval \<Rightarrow> rat option" where
  "py_float (PBool b) = Some (if b then 1 else 0)"
| "py_float (PInt i) = in_float_range (of_int i)"
| "py_float (PFloat q) = Some q"
| "py_float (PStr s) = Option.bind (float_text s) in_float_range"
| "py_float _ = None"

end
