(* ===== verification/LeaseText.thy ===== *)
theory LeaseText
  imports Urls Floats
begin

text \<open>
  The pure part of \<open>src/services/chatgpt_core/web_session_lease.py\<close>: what is kept
  of an error text, which payment links are accepted, what of a browser's storage
  is saved to a profile and which cookies a browser is seeded with.
\<close>

section \<open>Error texts\<close>

definition safe_error :: "utext \<Rightarrow> utext" where
  "safe_error e = take 500 (map (\<lambda>c. if c = 13 \<or> c = 10 then 32 else c) (u_strip e))"

text \<open>The pattern \<open>https?://\<close> followed by characters that are neither space nor quote.\<close>

definition url_code :: "nat \<Rightarrow> bool" where
  "url_code c \<longleftrightarrow> \<not> u_space c \<and> c \<noteq> 39 \<and> c \<noteq> 34"

definition url_scheme_length :: "utext \<Rightarrow> nat" where
  "url_scheme_length u =
     (if take 8 u = uni ''https://'' then 8 else if take 7 u = uni ''http://'' then 7 else 0)"

definition url_length :: "utext \<Rightarrow> nat" where
  "url_length u =
     (let n = url_scheme_length u; m = length (takeWhile url_code (drop n u))
      in if n = 0 \<or> m = 0 then 0 else n + m)"

function hide_urls :: "utext \<Rightarrow> utext" where
  "hide_urls [] = []"
| "hide_urls (c # cs) =
     (if url_length (c # cs) = 0 then c # hide_urls cs
      else uni ''[payment URL]'' @ hide_urls (drop (url_length (c # cs)) (c # cs)))"
  by pat_completeness auto
termination by (relation "measure length") auto

definition safe_gcash_error :: "utext \<Rightarrow> utext" where
  "safe_gcash_error e = take 500 (hide_urls (safe_error e))"

section \<open>Expiry times\<close>

text \<open>No value, a positive whole number, or the \<open>ValueError\<close>.\<close>

definition optional_expiry :: "pyval \<Rightarrow> int option option" where
  "optional_expiry v =
     (if v = PNone \<or> v = PStr [] then Some None
      else case py_float v of
             None \<Rightarrow> None
           | Some q \<Rightarrow> if py_trunc q \<le> 0 then None else Some (Some (py_trunc q)))"

section \<open>Payment links\<close>

definition redirect_host :: utext where
  "redirect_host = uni ''checkoutshopper-live.adyen.com''"

definition redirect_path :: utext where
  "redirect_path = uni ''/checkoutshopper/checkoutPaymentRedirect''"

datatype redirect_error = LinkInvalid | LinkNotOfficial | LinkWithoutData

text \<open>The texts of the three errors.\<close>

fun redirect_error_text :: "redirect_error \<Rightarrow> utext" where
  "redirect_error_text LinkInvalid = uni ''GCash '' @ [38142, 25509, 26080, 25928]"
| "redirect_error_text LinkNotOfficial =
     uni ''GCash '' @ [38142, 25509, 19981, 26159, 23448, 26041] @ uni '' Adyen ''
       @ [25903, 20184, 36339, 36716, 22320, 22336]"
| "redirect_error_text LinkWithoutData =
     uni ''GCash '' @ [38142, 25509, 32570, 23569] @ uni '' redirectData''"

definition validate_redirect :: "(utext \<Rightarrow> bool) \<Rightarrow> utext \<Rightarrow> redirect_error + utext" where
  "validate_redirect netloc_ok value =
     (let url = u_strip value
      in if url = [] \<or> 8192 < length url \<or> list_ex (\<lambda>c. c < 32) url then Inl LinkInvalid
         else case urlsplit netloc_ok url of
                None \<Rightarrow> Inl LinkInvalid
              | Some s \<Rightarrow>
                  if u_lower (su_scheme s) \<noteq> uni ''https'' \<or> u_lower (su_netloc s) \<noteq> redirect_host
                     \<or> su_path s \<noteq> redirect_path \<or> su_fragment s \<noteq> []
                  then Inl LinkNotOfficial
                  else if \<not> list_ex (\<lambda>v. u_strip v \<noteq> [])
                            (query_values (su_query s) (uni ''redirectData''))
                  then Inl LinkWithoutData
                  else Inr url)"

section \<open>Saved profiles\<close>

definition profile_suffixes :: "utext list" where
  "profile_suffixes = [uni ''chatgpt.com'', uni ''openai.com'']"

definition ends_with :: "utext \<Rightarrow> utext \<Rightarrow> bool" where
  "ends_with s suffix \<longleftrightarrow> length suffix \<le> length s \<and> drop (length s - length suffix) s = suffix"

definition profile_host_allowed :: "utext \<Rightarrow> bool" where
  "profile_host_allowed value =
     (let h = rev (dropWhile (\<lambda>c. c = 46) (rev (dropWhile (\<lambda>c. c = 46) (u_lower (u_strip value)))))
      in list_ex (\<lambda>s. h = s \<or> ends_with h (46 # s)) profile_suffixes)"

text \<open>
  \<open>str(v or '')\<close> where it can matter for a host: the text of a number, a list or a
  dict is never an allowed host, nor a URL with a location.
\<close>

fun py_text :: "pyval \<Rightarrow> utext" where
  "py_text (PStr s) = uni s"
| "py_text _ = []"

definition host_of_url :: "(utext \<Rightarrow> bool) \<Rightarrow> pyval \<Rightarrow> utext" where
  "host_of_url netloc_ok v =
     (case urlsplit netloc_ok (py_text v) of
        None \<Rightarrow> []
      | Some s \<Rightarrow> (case hostname s of None \<Rightarrow> [] | Some h \<Rightarrow> h))"

definition p_field :: "string \<Rightarrow> (string \<times> pyval) list \<Rightarrow> pyval" where
  "p_field k d = (case dict_get d k of None \<Rightarrow> PNone | Some v \<Rightarrow> v)"

definition cookie_host :: "(utext \<Rightarrow> bool) \<Rightarrow> (string \<times> pyval) list \<Rightarrow> utext" where
  "cookie_host netloc_ok c =
     (if \<not> truthy (p_field ''domain'' c) \<and> truthy (p_field ''url'' c)
      then host_of_url netloc_ok (p_field ''url'' c) else py_text (p_field ''domain'' c))"

definition keep_cookie :: "(utext \<Rightarrow> bool) \<Rightarrow> pyval \<Rightarrow> bool" where
  "keep_cookie netloc_ok v =
     (case v of PDict c \<Rightarrow> profile_host_allowed (cookie_host netloc_ok c) | _ \<Rightarrow> False)"

definition keep_origin :: "(utext \<Rightarrow> bool) \<Rightarrow> pyval \<Rightarrow> bool" where
  "keep_origin netloc_ok v =
     (case v of PDict c \<Rightarrow> profile_host_allowed (host_of_url netloc_ok (p_field ''origin'' c)) | _ \<Rightarrow> False)"

definition filter_list :: "string \<Rightarrow> (pyval \<Rightarrow> bool) \<Rightarrow> (string \<times> pyval) list \<Rightarrow> (string \<times> pyval) list" where
  "filter_list k P d =
     (case dict_get d k of
        Some (PList xs) \<Rightarrow> dict_set k (PList (filter P xs)) d
      | _ \<Rightarrow> d)"

definition filtered_storage ::
  "(utext \<Rightarrow> bool) \<Rightarrow> (string \<times> pyval) list \<Rightarrow> (string \<times> pyval) list" where
  "filtered_storage netloc_ok d =
     filter_list ''origins'' (keep_origin netloc_ok) (filter_list ''cookies'' (keep_cookie netloc_ok) d)"

section \<open>Seeding a browser\<close>

definition session_cookie_names :: "string list" where
  "session_cookie_names =
     [''__Secure-next-auth.session-token'', ''__Secure-authjs.session-token'',
      ''next-auth.session-token'', ''authjs.session-token'']"

text \<open>Names before the first equals sign, the first cookie of each name.\<close>

definition cookie_pair :: "string \<Rightarrow> (string \<times> string) option" where
  "cookie_pair raw =
     (if CHR ''='' \<notin> set raw then None
      else let name = py_strip (takeWhile (\<lambda>c. c \<noteq> CHR ''='') raw);
               value = py_strip (tl (dropWhile (\<lambda>c. c \<noteq> CHR ''='') raw))
           in if name = [] then None else Some (name, value))"

definition add_pair :: "string \<Rightarrow> (string \<times> string) list \<Rightarrow> (string \<times> string) list" where
  "add_pair raw acc =
     (case cookie_pair raw of
        None \<Rightarrow> acc
      | Some (n, v) \<Rightarrow> if n \<in> fst ` set acc then acc else acc @ [(n, v)])"

definition cookie_header_items :: "string \<Rightarrow> (string \<times> string) list" where
  "cookie_header_items h = fold add_pair (split_on CHR '';'' h) []"

record seed_cookie =
  sk_name :: string
  sk_value :: string
  sk_host_only :: bool
  sk_http_only :: bool

definition has_substring :: "string \<Rightarrow> string \<Rightarrow> bool" where
  "has_substring needle s = occurs (uni needle) (uni s)"

text \<open>A cookie with the host prefix gets the site's URL, another one the domain and path.\<close>

definition header_cookie :: "string \<times> string \<Rightarrow> seed_cookie" where
  "header_cookie p = \<lparr>sk_name = fst p, sk_value = snd p, sk_host_only = py_startswith (fst p) ''__Host-'',
     sk_http_only = has_substring ''session-token'' (fst p)\<rparr>"

definition names_session :: "string \<Rightarrow> bool" where
  "names_session n =
     list_ex (\<lambda>root. n = root \<or> py_startswith n (root @ ''.'')) session_cookie_names"

definition seed_cookies :: "string \<Rightarrow> string \<Rightarrow> string \<Rightarrow> seed_cookie list" where
  "seed_cookies header token device =
     (let pairs = cookie_header_items header; names = map fst pairs
      in map header_cookie pairs
         @ (if token \<noteq> [] \<and> \<not> list_ex names_session names
            then [\<lparr>sk_name = ''__Secure-next-auth.session-token'', sk_value = token,
                   sk_host_only = False, sk_http_only = True\<rparr>] else [])
         @ (if device \<noteq> [] \<and> ''oai-did'' \<notin> set names
            then [\<lparr>sk_name = ''oai-did'', sk_value = device, sk_host_only = False,
                   sk_http_only = False\<rparr>] else []))"

end
