(* ===== verification/LeaseState.thy ===== *)
theory LeaseState
  imports LeaseText
begin

text \<open>
  The state behind \<open>web_session_lease.py\<close>: the leases of held browsers, the commands
  that operators queue for them, the manager's two indexes and what the browsers
  were made to do. Leases and commands get a fresh \<open>uuid4\<close> each; here they are
  numbered in the order of their creation. The threads that run over this state
  are in the theory \<open>LeaseThreads\<close>.
\<close>

section \<open>Statuses\<close>

datatype lease_status =
    Reserved | WaitingCapacity | Authenticating | RefreshingSession | ReadyHolding | Releasing
  | Released | LeaseStopped | LeaseFailed | LeaseInterrupted

fun lease_over :: "lease_status \<Rightarrow> bool" where
  "lease_over Released = True"
| "lease_over LeaseStopped = True"
| "lease_over LeaseFailed = True"
| "lease_over LeaseInterrupted = True"
| "lease_over _ = False"

text \<open>The texts \<open>transition\<close> accepts.\<close>

definition lease_status_names :: "(string \<times> lease_status) list" where
  "lease_status_names =
     [(''reserved'', Reserved), (''waiting_capacity'', WaitingCapacity),
      (''authenticating'', Authenticating), (''refreshing_session'', RefreshingSession),
      (''ready_holding'', ReadyHolding), (''releasing'', Releasing), (''released'', Released),
      (''stopped'', LeaseStopped), (''failed'', LeaseFailed), (''interrupted'', LeaseInterrupted)]"

datatype remote_state =
    RemoteNotRequested | RemoteSubmitting | RemoteQueued | RemoteRunning | RemoteSucceeded
  | RemoteFailed | RemoteInterrupted

definition remote_state_names :: "(string \<times> remote_state) list" where
  "remote_state_names =
     [(''not_requested'', RemoteNotRequested), (''submitting'', RemoteSubmitting),
      (''queued'', RemoteQueued), (''running'', RemoteRunning), (''succeeded'', RemoteSucceeded),
      (''failed'', RemoteFailed), (''interrupted'', RemoteInterrupted)]"

datatype tab_state =
    TabNotRequested | TabOpening | TabReady | TabTimedOut | TabFailed | TabCancelled | TabClosed

definition command_history_limit :: nat where
  "command_history_limit = 64"

section \<open>Records\<close>

datatype command_kind = RefreshSession | OpenGcashLink

text \<open>What a finished command answers: the message and the snapshot are left out.\<close>

datatype command_result = RefreshDone | TabOpened bool string

record lease_command =
  cm_kind :: command_kind
  cm_url :: "utext option"
  cm_digest :: string
  cm_request :: string
  cm_job :: string
  cm_done :: bool
  cm_cancelled :: bool
  cm_result :: "command_result option"
  cm_error :: utext

record lease =
  ls_task :: string
  ls_account :: int
  ls_email :: string
  ls_header :: string
  ls_token :: string
  ls_device :: string
  ls_status :: lease_status
  ls_created :: time
  ls_updated :: time
  ls_ready :: "time option"
  ls_ended :: "time option"
  ls_heartbeat :: "time option"
  ls_error :: utext
  ls_release :: bool
  ls_saved :: bool
  ls_restored :: bool
  ls_refreshes :: nat
  ls_remote :: remote_state
  ls_remote_error :: utext
  ls_request :: string
  ls_job :: string
  ls_link_expires :: "int option"
  ls_qr_expires :: "int option"
  ls_digest :: string
  ls_tab :: tab_state
  ls_tab_opened :: "time option"
  ls_tab_updated :: "time option"
  ls_tab_error :: utext
  ls_tab_command :: "nat option"
  ls_queue :: "nat list"
  ls_current :: "nat option"
  ls_commands :: "(string, nat) dict"
  ls_pages :: "(string, nat) dict"
  ls_persisted :: bool
  ls_attempt :: nat

text \<open>
  \<open>ls_release\<close> is both the flag and the event, which are set together.
  \<open>ls_pages\<close> (the pages of the hold loop), \<open>ls_persisted\<close> (whether the login has
  stored credentials) and \<open>ls_attempt\<close> (the number of the login attempt) are
  variables of the thread that owns the browser.
\<close>

record navigation =
  nv_lease :: nat
  nv_request :: string
  nv_page :: nat
  nv_url :: utext

record lease_world =
  lw_leases :: "lease list"
  lw_registry :: "nat list"
  lw_active :: "(int, nat) dict"
  lw_commands :: "lease_command list"
  lw_profiles :: "(int, (string \<times> pyval) list) dict"
  lw_next_page :: nat
  lw_navigations :: "navigation list"

definition empty_lease_world :: lease_world where
  "empty_lease_world = \<lparr>lw_leases = [], lw_registry = [], lw_active = [], lw_commands = [],
     lw_profiles = [], lw_next_page = 0, lw_navigations = []\<rparr>"

text \<open>
  What the library gives the program: the check of an unusual network location,
  and the first 24 digits of the SHA-256 digest of a text.
\<close>

record lease_env =
  le_netloc_ok :: "utext \<Rightarrow> bool"
  le_digest :: "utext \<Rightarrow> string"
  le_max_history :: nat

section \<open>Access\<close>

abbreviation the_lease :: "lease_world \<Rightarrow> nat \<Rightarrow> lease" where
  "the_lease w l \<equiv> lw_leases w ! l"

abbreviation the_command :: "lease_world \<Rightarrow> nat \<Rightarrow> lease_command" where
  "the_command w c \<equiv> lw_commands w ! c"

definition upd_lease :: "nat \<Rightarrow> (lease \<Rightarrow> lease) \<Rightarrow> lease_world \<Rightarrow> lease_world" where
  "upd_lease l f w = w\<lparr>lw_leases := (lw_leases w)[l := f (lw_leases w ! l)]\<rparr>"

definition upd_command :: "nat \<Rightarrow> (lease_command \<Rightarrow> lease_command) \<Rightarrow> lease_world \<Rightarrow> lease_world" where
  "upd_command c f w = w\<lparr>lw_commands := (lw_commands w)[c := f (lw_commands w ! c)]\<rparr>"

lemma upd_lease_simps [simp]:
  "lw_leases (upd_lease l f w) = (lw_leases w)[l := f (lw_leases w ! l)]"
  "lw_registry (upd_lease l f w) = lw_registry w" "lw_active (upd_lease l f w) = lw_active w"
  "lw_commands (upd_lease l f w) = lw_commands w" "lw_profiles (upd_lease l f w) = lw_profiles w"
  "lw_next_page (upd_lease l f w) = lw_next_page w"
  "lw_navigations (upd_lease l f w) = lw_navigations w"
  by (simp_all add: upd_lease_def)

lemma upd_command_simps [simp]:
  "lw_commands (upd_command c g w) = (lw_commands w)[c := g (lw_commands w ! c)]"
  "lw_leases (upd_command c g w) = lw_leases w"
  "lw_registry (upd_command c g w) = lw_registry w" "lw_active (upd_command c g w) = lw_active w"
  "lw_profiles (upd_command c g w) = lw_profiles w"
  "lw_next_page (upd_command c g w) = lw_next_page w"
  "lw_navigations (upd_command c g w) = lw_navigations w"
  by (simp_all add: upd_command_def)

section \<open>Locked sections of one lease\<close>

definition new_lease ::
  "time \<Rightarrow> bool \<Rightarrow> string \<Rightarrow> int \<Rightarrow> string \<Rightarrow> string \<Rightarrow> string \<Rightarrow> string \<Rightarrow> lease" where
  "new_lease now saved task account email header token device =
     \<lparr>ls_task = task, ls_account = account, ls_email = py_strip email,
      ls_header = py_strip header, ls_token = py_strip token, ls_device = py_strip device,
      ls_status = Reserved, ls_created = now, ls_updated = now, ls_ready = None, ls_ended = None,
      ls_heartbeat = None, ls_error = [], ls_release = False, ls_saved = saved,
      ls_restored = (saved \<or> py_strip header \<noteq> [] \<or> py_strip token \<noteq> []), ls_refreshes = 0,
      ls_remote = RemoteNotRequested, ls_remote_error = [], ls_request = [], ls_job = [],
      ls_link_expires = None, ls_qr_expires = None, ls_digest = [], ls_tab = TabNotRequested,
      ls_tab_opened = None, ls_tab_updated = None, ls_tab_error = [], ls_tab_command = None,
      ls_queue = [], ls_current = None, ls_commands = [], ls_pages = [], ls_persisted = False,
      ls_attempt = 0\<rparr>"

text \<open>The two guards of \<open>transition\<close>, then the change itself.\<close>

definition transition_refused :: "lease_status \<Rightarrow> lease \<Rightarrow> bool" where
  "transition_refused s x \<longleftrightarrow>
     lease_over (ls_status x) \<and> s \<noteq> ls_status x
     \<or> ls_release x \<and> ls_status x = Releasing \<and> s \<noteq> Releasing \<and> \<not> lease_over s"

definition transitioned :: "time \<Rightarrow> lease_status \<Rightarrow> utext \<Rightarrow> lease \<Rightarrow> lease" where
  "transitioned now s err x =
     (let x1 = x\<lparr>ls_status := s, ls_updated := now\<rparr>;
          x2 = (if s = ReadyHolding
                then x1\<lparr>ls_ready := Some (case ls_ready x1 of Some t \<Rightarrow> t | None \<Rightarrow> now),
                        ls_heartbeat := Some now, ls_error := []\<rparr>
                else if lease_over s then x1\<lparr>ls_ended := Some now\<rparr> else x1)
      in if err = [] then x2 else x2\<lparr>ls_error := safe_error err\<rparr>)"

definition touched :: "time \<Rightarrow> lease \<Rightarrow> lease" where
  "touched now x = x\<lparr>ls_updated := now, ls_heartbeat := Some now\<rparr>"

definition release_flagged :: "time \<Rightarrow> lease \<Rightarrow> lease" where
  "release_flagged now x = x\<lparr>ls_release := True, ls_updated := now\<rparr>"

text \<open>An update of the remote state; the two expiry times were checked before.\<close>

record remote_update =
  ru_state :: string
  ru_error :: utext
  ru_request :: string
  ru_job :: string
  ru_link_expires :: pyval
  ru_qr_expires :: pyval

definition remote_updated ::
  "time \<Rightarrow> remote_state \<Rightarrow> int option \<Rightarrow> int option \<Rightarrow> remote_update \<Rightarrow> lease \<Rightarrow> lease" where
  "remote_updated now st link qr u x =
     (let request = take 256 (py_strip (ru_request u)); job = take 256 (py_strip (ru_job u))
      in x\<lparr>ls_request := or_else request (ls_request x), ls_job := or_else job (ls_job x),
           ls_link_expires := (case link of None \<Rightarrow> ls_link_expires x | Some t \<Rightarrow> Some t),
           ls_qr_expires := (case qr of None \<Rightarrow> ls_qr_expires x | Some t \<Rightarrow> Some t),
           ls_remote := st, ls_remote_error := (if ru_error u = [] then [] else safe_gcash_error (ru_error u)),
           ls_updated := now\<rparr>)"

definition lease_ready :: "lease \<Rightarrow> bool" where
  "lease_ready x \<longleftrightarrow> ls_status x = ReadyHolding \<and> \<not> ls_release x"

definition invalid_link_noted ::
  "time \<Rightarrow> string \<Rightarrow> string \<Rightarrow> string \<Rightarrow> redirect_error \<Rightarrow> lease \<Rightarrow> lease" where
  "invalid_link_noted now request job digest e x =
     x\<lparr>ls_request := request, ls_job := or_else job (ls_job x), ls_digest := digest,
       ls_tab := TabFailed, ls_tab_updated := Some now,
       ls_tab_error := safe_gcash_error (redirect_error_text e), ls_tab_command := None,
       ls_updated := now\<rparr>"

definition new_refresh_command :: lease_command where
  "new_refresh_command = \<lparr>cm_kind = RefreshSession, cm_url = None, cm_digest = [], cm_request = [],
     cm_job = [], cm_done = False, cm_cancelled = False, cm_result = None, cm_error = []\<rparr>"

definition new_open_command :: "utext \<Rightarrow> string \<Rightarrow> string \<Rightarrow> string \<Rightarrow> lease_command" where
  "new_open_command url digest request job =
     \<lparr>cm_kind = OpenGcashLink, cm_url = Some url, cm_digest = digest, cm_request = request,
      cm_job = job, cm_done = False, cm_cancelled = False, cm_result = None, cm_error = []\<rparr>"

text \<open>The oldest finished commands leave the history while it is too long.\<close>

function trim_commands ::
  "(nat \<Rightarrow> bool) \<Rightarrow> (string, nat) dict \<Rightarrow> (string, nat) dict" where
  "trim_commands finished d =
     (if length d \<le> command_history_limit then d
      else case find (\<lambda>(r, c). finished c) d of
             None \<Rightarrow> d
           | Some (r, c) \<Rightarrow> trim_commands finished (dict_pop r d))"
  by pat_completeness auto
termination
proof (relation "measure (length \<circ> snd)")
  fix finished :: "nat \<Rightarrow> bool" and d :: "(string, nat) dict" and x r c
  assume "find (\<lambda>(r, c). finished c) d = Some x" and "(r, c) = x"
  then have "(r, c) \<in> set d" by (auto simp: find_Some_iff in_set_conv_nth)
  then have "length (filter (\<lambda>(k', _). r \<noteq> k') d) < length d"
    by (intro length_filter_less) auto
  then show "((finished, dict_pop r d), finished, d) \<in> measure (length \<circ> snd)"
    by (simp add: AList.delete_eq)
qed simp

declare trim_commands.simps [simp del]

definition open_queued ::
  "time \<Rightarrow> nat \<Rightarrow> (nat \<Rightarrow> bool) \<Rightarrow> string \<Rightarrow> string \<Rightarrow> string \<Rightarrow> lease \<Rightarrow> lease" where
  "open_queued now c finished digest request job x =
     x\<lparr>ls_commands := trim_commands finished (dict_set request c (ls_commands x)),
       ls_request := request, ls_job := or_else job (ls_job x), ls_digest := digest,
       ls_tab := TabOpening, ls_tab_updated := Some now, ls_tab_error := [],
       ls_tab_command := Some c, ls_updated := now\<rparr>"

definition gcash_open_failed :: utext where
  "gcash_open_failed = uni ''GCash '' @ [26631, 31614, 39029, 25171, 24320, 22833, 36133]"

definition tab_failure_noted ::
  "time \<Rightarrow> nat \<Rightarrow> lease_command \<Rightarrow> utext \<Rightarrow> tab_state \<Rightarrow> lease \<Rightarrow> lease" where
  "tab_failure_noted now c cmd err st x =
     (if ls_request x \<noteq> cm_request cmd then x
      else x\<lparr>ls_tab := st, ls_tab_updated := Some now, ls_tab_error := err, ls_tab_command := Some c,
             ls_updated := now\<rparr>)"

definition shown_error :: "utext \<Rightarrow> utext \<Rightarrow> utext" where
  "shown_error text default_text = (if text = [] then default_text else text)"

text \<open>\<open>_record_gcash_command_failure\<close> up to the notification.\<close>

definition fail_command ::
  "time \<Rightarrow> nat \<Rightarrow> nat \<Rightarrow> utext \<Rightarrow> tab_state \<Rightarrow> lease_world \<Rightarrow> lease_world" where
  "fail_command now l c text st w =
     (let err = shown_error (safe_gcash_error text) gcash_open_failed
      in upd_command c (\<lambda>x. x\<lparr>cm_error := err, cm_url := None, cm_done := True\<rparr>)
           (upd_lease l (tab_failure_noted now c (the_command w c) err st) w))"

definition tab_opened :: "time \<Rightarrow> nat \<Rightarrow> string \<Rightarrow> lease \<Rightarrow> lease" where
  "tab_opened now c request x =
     (if ls_request x \<noteq> request then x
      else x\<lparr>ls_tab := TabReady, ls_tab_opened := Some now, ls_tab_updated := Some now,
             ls_tab_error := [], ls_tab_command := Some c, ls_updated := now\<rparr>)"

definition tab_closed :: "time \<Rightarrow> lease \<Rightarrow> lease" where
  "tab_closed now x = x\<lparr>ls_tab := TabClosed, ls_tab_updated := Some now, ls_updated := now\<rparr>"

definition tab_closable :: "tab_state \<Rightarrow> bool" where
  "tab_closable t \<longleftrightarrow> t \<noteq> TabNotRequested \<and> t \<noteq> TabClosed"

definition save_failed_text :: utext where
  "save_failed_text = [27983, 35272, 22120, 29366, 24577, 20445, 23384, 22833, 36133] @ uni '': ''"

section \<open>Snapshots\<close>

text \<open>A snapshot is a copy of the fields and one derived value.\<close>

definition held_seconds :: "time \<Rightarrow> lease \<Rightarrow> int" where
  "held_seconds now x =
     (case ls_ready x of
        None \<Rightarrow> 0
      | Some r \<Rightarrow> max 0 (py_trunc ((case ls_ended x of Some e \<Rightarrow> e | None \<Rightarrow> now) - r)))"

end
