(* ===== verification/LeaseThreads.thy ===== *)
theory LeaseThreads
  imports LeaseState
begin

text \<open>
  The threads that meet on the leases. A thread is the list of the atomic actions
  it still has to do; an action is a locked section, a read of an event, one call
  of something outside (the browser, the mailbox, the log) or a wait. Performing
  the first action gives the actions that replace it. An exception drops what the
  thread had planned: the actions that replace it are those of the handler, or
  none.

  The owner of a lease is the thread that logs the account in
  (\<open>web_session_login.py\<close>), runs the browser (\<open>any_auto/browser_register.py\<close>) and
  holds it (\<open>hold_browser\<close>). Operators' requests run in threads of their own.
\<close>

section \<open>Actions\<close>

text \<open>A plain exception, a task interruption, and the interruption that asks for the release.\<close>

datatype raised = Plain utext | TaskStop utext | ReleaseAsked

text \<open>Where an exception is raised: outside the loop of the hold, inside it, in a command.\<close>

datatype place = OutsideHold | InsideHold | InsideCommand nat

record open_request =
  oq_url :: utext
  oq_request :: string
  oq_job :: string

record lease_request =
  lq_task :: string
  lq_account :: int
  lq_email :: string
  lq_header :: string
  lq_token :: string
  lq_device :: string

text \<open>Notifications and sections that several threads use.\<close>

datatype shared_action =
    Announce nat
  | Deliver nat lease_status
  | SetStatus nat lease_status utext
  | FailPending nat utext
  | FailCommand nat nat utext tab_state
  | FinishCommand nat
  | PutCommand nat nat
  | Checkpoint nat
  | CloseTabs nat

text \<open>Requests of operators.\<close>

datatype request_action =
    AwaitRefresh nat
  | AwaitOpen nat nat
  | ReleaseLease nat
  | RefreshLease nat
  | UpdateRemote nat remote_update
  | OpenGcash nat open_request
  | OpenIfReady nat remote_update open_request
  | OpenForAccount int remote_update open_request
  | ReleaseTask string "int option"
  | RefreshTask string int
  | UpdateTarget string int nat remote_update
  | OpenTarget string int nat open_request

text \<open>The login that owns the browser.\<close>

datatype login_action =
    CreateLease lease_request
  | LoginStart nat
  | LoginAttempt nat
  | EnterBrowser nat
  | BrowserLogin nat
  | LeaveBrowser nat "raised option"
  | RunEnds nat "raised option"
  | LoginReturns nat
  | AttemptFailed nat utext
  | RetryPause nat
  | GiveUp nat utext

text \<open>The hold.\<close>

datatype hold_action =
    Publish nat place
  | LogLine nat place
  | HoldReady nat
  | HoldLoop nat
  | StopCheck nat
  | NextCommand nat
  | PageCheck nat
  | Touch nat

text \<open>One command.\<close>

datatype command_action =
    BeginCommand nat nat
  | SetCurrent nat nat
  | RefreshStart nat nat
  | RefreshRead nat nat
  | RefreshStore nat nat
  | RefreshCount nat nat
  | RefreshAnswer nat nat
  | OpenStart nat nat
  | OpenGo nat nat nat utext bool
  | OpenSettled nat nat bool
  | OpenAnswer nat nat bool
  | CommandRaised nat nat raised
  | EndCommand nat nat

datatype action =
    Shared shared_action
  | Request request_action
  | Login login_action
  | Hold hold_action
  | Command command_action

text \<open>What the world does in a step: how the call made in it ended, and what it returned.\<close>

datatype outcome = Fine | Throws raised | TimesOut

record step_input =
  in_now :: time
  in_outcome :: outcome
  in_closed :: bool
  in_tab_closed :: bool
  in_due :: bool
  in_stored :: bool
  in_retry :: bool
  in_url :: utext
  in_storage :: "(string \<times> pyval) list"

type_synonym performed = "bool \<times> action list \<times> lease_world"

section \<open>Texts\<close>

definition releasing_text :: utext where
  "releasing_text = [27983, 35272, 22120, 27491, 22312, 37322, 25918]"

definition stopped_text :: utext where
  "stopped_text = [20219, 21153, 24050, 20572, 27490]"

definition interrupted_hold_text :: utext where
  "interrupted_hold_text = [27983, 35272, 22120, 30331, 24405, 24577, 24050, 20013, 26029]"

definition open_timeout_text :: utext where
  "open_timeout_text = uni ''GCash '' @ [26631, 31614, 39029, 25171, 24320, 36229, 26102]"

definition timed_out_mark :: utext where
  "timed_out_mark = [36229, 26102]"

definition refresh_cancelled_text :: utext where
  "refresh_cancelled_text = [21516, 27493, 35831, 27714, 24050, 21462, 28040]"

definition refresh_unsaved_text :: utext where
  "refresh_unsaved_text = [21516, 27493, 35831, 27714, 24050, 21462, 28040, 65292, 32467, 26524, 26410,
     20889, 22238]"

definition open_cancelled_text :: utext where
  "open_cancelled_text = uni ''GCash '' @ [26631, 31614, 39029, 25171, 24320, 35831, 27714, 24050, 21462, 28040]"

definition tab_gone_text :: utext where
  "tab_gone_text = uni ''GCash '' @ [26631, 31614, 39029, 23548, 33322, 21518, 24050, 20851, 38381]"

definition tab_blank_text :: utext where
  "tab_blank_text = uni ''GCash '' @ [26631, 31614, 39029, 26410, 23436, 25104, 23548, 33322]"

definition command_cancelled_text :: utext where
  "command_cancelled_text = [27983, 35272, 22120, 30331, 24405, 24577, 21629, 20196, 24050, 21462, 28040]"

definition command_interrupted_text :: utext where
  "command_interrupted_text = [27983, 35272, 22120, 30331, 24405, 24577, 21629, 20196, 24050, 20013, 26029]"

definition refresh_failed_text :: utext where
  "refresh_failed_text = [21516, 27493, 26368, 26032, 30331, 24405, 24577, 22833, 36133]"

definition page_closed_text :: utext where
  "page_closed_text = [20445, 25345, 20013, 30340] @ uni '' ChatGPT '' @ [39029, 38754, 24050, 20851, 38381]"

definition release_asked_text :: utext where
  "release_asked_text = [24050, 20154, 24037, 35831, 27714, 20445, 23384, 24182, 37322, 25918, 27983,
     35272, 22120]"

fun raised_text :: "raised \<Rightarrow> utext" where
  "raised_text (Plain t) = t"
| "raised_text (TaskStop t) = t"
| "raised_text ReleaseAsked = release_asked_text"

section \<open>Exceptions of the owner\<close>

text \<open>The release can only be asked for where its event is set.\<close>

definition thrown :: "lease \<Rightarrow> step_input \<Rightarrow> raised option" where
  "thrown x i =
     (case in_outcome i of
        Throws ReleaseAsked \<Rightarrow> if ls_release x then Some ReleaseAsked else None
      | Throws e \<Rightarrow> Some e
      | _ \<Rightarrow> None)"

text \<open>The handlers of \<open>hold_browser\<close>.\<close>

fun hold_raised :: "nat \<Rightarrow> raised \<Rightarrow> action list" where
  "hold_raised l ReleaseAsked =
     [Shared (Checkpoint l), Shared (SetStatus l Releasing []), Shared (FailPending l releasing_text), Shared (CloseTabs l),
      Hold (LogLine l OutsideHold), Login (LeaveBrowser l None)]"
| "hold_raised l (TaskStop t) =
     [Shared (Checkpoint l), Shared (SetStatus l LeaseStopped []), Shared (FailPending l stopped_text), Shared (CloseTabs l),
      Login (LeaveBrowser l (Some (TaskStop t)))]"
| "hold_raised l (Plain t) =
     [Shared (Checkpoint l), Shared (SetStatus l LeaseInterrupted t),
      Shared (FailPending l (shown_error (safe_error t) interrupted_hold_text)), Shared (CloseTabs l),
      Login (LeaveBrowser l (Some (Plain t)))]"

fun raise_at :: "nat \<Rightarrow> place \<Rightarrow> raised \<Rightarrow> action list" where
  "raise_at l OutsideHold e = [Login (LeaveBrowser l (Some e))]"
| "raise_at l InsideHold e = hold_raised l e"
| "raise_at l (InsideCommand c) e = [Command (CommandRaised l c e)]"

text \<open>Calls that only check for a stop of the task, and calls that only fail.\<close>

definition task_thrown :: "step_input \<Rightarrow> raised option" where
  "task_thrown i =
     (case in_outcome i of Throws ReleaseAsked \<Rightarrow> None | Throws e \<Rightarrow> Some e | _ \<Rightarrow> None)"

definition plain_thrown :: "step_input \<Rightarrow> raised option" where
  "plain_thrown i = (case in_outcome i of Throws (Plain t) \<Rightarrow> Some (Plain t) | _ \<Rightarrow> None)"

text \<open>An exception at a place goes to the place's handler.\<close>

definition outside_call ::
  "nat \<Rightarrow> place \<Rightarrow> raised option \<Rightarrow> action list \<Rightarrow> lease_world \<Rightarrow> performed" where
  "outside_call l p e acts w =
     (case e of Some r \<Rightarrow> (True, raise_at l p r, w) | None \<Rightarrow> (False, acts, w))"

section \<open>The manager\<close>

definition active_lease :: "lease_world \<Rightarrow> int \<Rightarrow> nat option" where
  "active_lease w a =
     (case dict_get (lw_active w) a of
        None \<Rightarrow> None
      | Some l \<Rightarrow> if l \<in> set (lw_registry w) \<and> \<not> lease_over (ls_status (the_lease w l)) then Some l
                  else None)"

text \<open>Over the limit, the oldest ended leases leave the registry.\<close>

definition trimmed_registry :: "lease_env \<Rightarrow> lease_world \<Rightarrow> nat list" where
  "trimmed_registry env w =
     (let reg = lw_registry w; n = length reg - max (le_max_history env) 20;
          ended = sort_key (\<lambda>l. ls_created (the_lease w l))
                    (filter (\<lambda>l. lease_over (ls_status (the_lease w l))) reg)
      in if n = 0 then reg else filter (\<lambda>l. l \<notin> set (take n ended)) reg)"

definition create_lease ::
  "lease_env \<Rightarrow> time \<Rightarrow> lease_request \<Rightarrow> lease_world \<Rightarrow> nat option \<times> lease_world" where
  "create_lease env now q w =
     (if active_lease w (lq_account q) \<noteq> None then (None, w)
      else (let l = length (lw_leases w);
                x = new_lease now (dict_get (lw_profiles w) (lq_account q) \<noteq> None) (lq_task q)
                      (lq_account q) (lq_email q) (lq_header q) (lq_token q) (lq_device q);
                w1 = w\<lparr>lw_leases := lw_leases w @ [x], lw_registry := lw_registry w @ [l],
                       lw_active := dict_set (lq_account q) l (lw_active w)\<rparr>
            in (Some l, w1\<lparr>lw_registry := trimmed_registry env w1\<rparr>)))"

definition lease_changed :: "nat \<Rightarrow> lease_status \<Rightarrow> lease_world \<Rightarrow> lease_world" where
  "lease_changed l s w =
     (let a = ls_account (the_lease w l)
      in if lease_over s
         then (if dict_get (lw_active w) a = Some l then w\<lparr>lw_active := dict_pop a (lw_active w)\<rparr> else w)
         else w\<lparr>lw_active := dict_set a l (lw_active w)\<rparr>)"

definition active_count :: "lease_world \<Rightarrow> nat" where
  "active_count w = length (filter (\<lambda>l. \<not> lease_over (ls_status (the_lease w l))) (lw_registry w))"

definition available_capacity :: "int \<Rightarrow> lease_world \<Rightarrow> nat" where
  "available_capacity limit w = nat limit - active_count w"

definition active_task_leases :: "string \<Rightarrow> int option \<Rightarrow> lease_world \<Rightarrow> nat list" where
  "active_task_leases task account w =
     filter (\<lambda>l. let x = the_lease w l in ls_task x = task \<and> \<not> lease_over (ls_status x)
                   \<and> (account = None \<or> account = Some (ls_account x))) (lw_registry w)"

text \<open>The newest lease of each account of a task, in the order of the accounts.\<close>

definition latest_by_account :: "string \<Rightarrow> lease_world \<Rightarrow> (int, nat) dict" where
  "latest_by_account task w =
     fold (\<lambda>l d. let x = the_lease w l
                 in case dict_get d (ls_account x) of
                      None \<Rightarrow> dict_set (ls_account x) l d
                    | Some k \<Rightarrow> if ls_created (the_lease w k) \<le> ls_created x
                               then dict_set (ls_account x) l d else d)
       (filter (\<lambda>l. ls_task (the_lease w l) = task) (lw_registry w)) []"

definition task_leases :: "string \<Rightarrow> lease_world \<Rightarrow> nat list" where
  "task_leases task w = map snd (sort_key fst (latest_by_account task w))"

definition target_lease :: "string \<Rightarrow> int \<Rightarrow> nat \<Rightarrow> lease_world \<Rightarrow> bool" where
  "target_lease task account l w \<longleftrightarrow> l \<in> set (lw_registry w) \<and> ls_task (the_lease w l) = task
     \<and> ls_account (the_lease w l) = account"

definition is_ready :: "string \<Rightarrow> int \<Rightarrow> nat \<Rightarrow> lease_world \<Rightarrow> bool" where
  "is_ready task account l w \<longleftrightarrow> target_lease task account l w \<and> lease_ready (the_lease w l)"

section \<open>Requests of operators\<close>

definition set_status :: "time \<Rightarrow> nat \<Rightarrow> lease_status \<Rightarrow> utext \<Rightarrow> lease_world \<Rightarrow> performed" where
  "set_status now l s err w =
     (if transition_refused s (the_lease w l) then (False, [], w)
      else (False, [Shared (Announce l)], upd_lease l (transitioned now s err) w))"

definition fail_pending :: "time \<Rightarrow> nat \<Rightarrow> utext \<Rightarrow> lease_world \<Rightarrow> performed" where
  "fail_pending now l text w =
     (case ls_queue (the_lease w l) of
        [] \<Rightarrow> (False, [], w)
      | c # cs \<Rightarrow>
          (let w1 = upd_command c (\<lambda>x. x\<lparr>cm_cancelled := True\<rparr>) (upd_lease l (\<lambda>x. x\<lparr>ls_queue := cs\<rparr>) w)
           in if cm_kind (the_command w c) = OpenGcashLink
              then (False, [Shared (FailCommand l c text TabCancelled), Shared (FinishCommand c), Shared (FailPending l text)], w1)
              else (False, [Shared (FinishCommand c), Shared (FailPending l text)],
                    upd_command c (\<lambda>x. x\<lparr>cm_error := text\<rparr>) w1)))"

definition release_lease :: "time \<Rightarrow> nat \<Rightarrow> lease_world \<Rightarrow> performed" where
  "release_lease now l w =
     (if lease_over (ls_status (the_lease w l)) then (False, [], w)
      else (let w1 = upd_lease l (release_flagged now) w;
                w2 = (case ls_current (the_lease w l) of
                        None \<Rightarrow> w1 | Some c \<Rightarrow> upd_command c (\<lambda>x. x\<lparr>cm_cancelled := True\<rparr>) w1)
            in (False, [Shared (FailPending l releasing_text), Shared (SetStatus l Releasing [])], w2)))"

definition add_command :: "lease_command \<Rightarrow> lease_world \<Rightarrow> nat \<times> lease_world" where
  "add_command x w = (length (lw_commands w), w\<lparr>lw_commands := lw_commands w @ [x]\<rparr>)"

definition refresh_lease :: "nat \<Rightarrow> lease_world \<Rightarrow> performed" where
  "refresh_lease l w =
     (if \<not> lease_ready (the_lease w l) then (True, [], w)
      else (let (c, w1) = add_command new_refresh_command w in (False, [Shared (PutCommand l c), Request (AwaitRefresh c)], w1)))"

definition update_remote :: "time \<Rightarrow> nat \<Rightarrow> remote_update \<Rightarrow> lease_world \<Rightarrow> performed" where
  "update_remote now l u w =
     (case (dict_get remote_state_names (py_lower (py_strip (ru_state u))),
            optional_expiry (ru_link_expires u), optional_expiry (ru_qr_expires u)) of
        (Some st, Some link, Some qr) \<Rightarrow>
          (False, [Shared (Announce l)], upd_lease l (remote_updated now st link qr u) w)
      | _ \<Rightarrow> (True, [], w))"

definition open_queue :: "lease_env \<Rightarrow> time \<Rightarrow> nat \<Rightarrow> utext \<Rightarrow> string \<Rightarrow> string \<Rightarrow> lease_world \<Rightarrow> performed" where
  "open_queue env now l url request job w =
     (let x = the_lease w l; digest = le_digest env url
      in if \<not> lease_ready x then (True, [], w)
         else case dict_get (ls_commands x) request of
                Some c \<Rightarrow>
                  (let old = cm_job (the_command w c)
                   in if cm_digest (the_command w c) \<noteq> digest then (True, [], w)
                      else if old \<noteq> [] \<and> job \<noteq> [] \<and> old \<noteq> job then (True, [], w)
                      else (False, [Request (AwaitOpen l c)], w))
              | None \<Rightarrow>
                  if list_ex (\<lambda>(r, c). \<not> cm_done (the_command w c)) (ls_commands x) then (True, [], w)
                  else (let (c, w1) = add_command (new_open_command url digest request job) w
                        in (False, [Shared (Announce l), Shared (PutCommand l c), Request (AwaitOpen l c)],
                            upd_lease l (open_queued now c (\<lambda>k. cm_done (the_command w1 k))
                              digest request job) w1)))"

definition open_gcash :: "lease_env \<Rightarrow> time \<Rightarrow> nat \<Rightarrow> open_request \<Rightarrow> lease_world \<Rightarrow> performed" where
  "open_gcash env now l q w =
     (let request = py_strip (oq_request q); job = take 256 (py_strip (oq_job q))
      in if request = [] \<or> 256 < length request then (True, [], w)
         else case validate_redirect (le_netloc_ok env) (oq_url q) of
                Inl e \<Rightarrow>
                  if lease_ready (the_lease w l)
                  then (True, [Shared (Announce l)],
                        upd_lease l (invalid_link_noted now request job (le_digest env (oq_url q)) e) w)
                  else (True, [], w)
              | Inr url \<Rightarrow> open_queue env now l url request job w)"

definition await_refresh :: "step_input \<Rightarrow> nat \<Rightarrow> lease_world \<Rightarrow> performed" where
  "await_refresh i c w =
     (if cm_done (the_command w c) then (cm_error (the_command w c) \<noteq> [], [], w)
      else if in_outcome i = TimesOut
      then (True, [], upd_command c (\<lambda>x. x\<lparr>cm_cancelled := True\<rparr>) w)
      else (False, [Request (AwaitRefresh c)], w))"

definition await_open :: "step_input \<Rightarrow> nat \<Rightarrow> nat \<Rightarrow> lease_world \<Rightarrow> performed" where
  "await_open i l c w =
     (if cm_done (the_command w c) then (cm_error (the_command w c) \<noteq> [], [], w)
      else if in_outcome i = TimesOut
      then (True, [Shared (FailCommand l c open_timeout_text TabTimedOut)],
            upd_command c (\<lambda>x. x\<lparr>cm_cancelled := True\<rparr>) w)
      else (False, [Request (AwaitOpen l c)], w))"

fun perform_request :: "lease_env \<Rightarrow> step_input \<Rightarrow> request_action \<Rightarrow> lease_world \<Rightarrow> performed" where
  "perform_request env i (AwaitRefresh c) w = await_refresh i c w"
| "perform_request env i (AwaitOpen l c) w = await_open i l c w"
| "perform_request env i (ReleaseLease l) w = release_lease (in_now i) l w"
| "perform_request env i (RefreshLease l) w = refresh_lease l w"
| "perform_request env i (UpdateRemote l u) w = update_remote (in_now i) l u w"
| "perform_request env i (OpenGcash l q) w = open_gcash env (in_now i) l q w"
| "perform_request env i (OpenForAccount a u q) w =
     (case active_lease w a of None \<Rightarrow> (True, [], w) | Some l \<Rightarrow> (False, [Request (OpenIfReady l u q)], w))"
| "perform_request env i (OpenIfReady l u q) w =
     (if lease_ready (the_lease w l) then (False, [Request (UpdateRemote l u), Request (OpenGcash l q)], w) else (True, [], w))"
| "perform_request env i (ReleaseTask task account) w =
     (False, map (Request \<circ> ReleaseLease) (active_task_leases task account w), w)"
| "perform_request env i (RefreshTask task account) w =
     (case active_task_leases task (Some account) w of
        [] \<Rightarrow> (True, [], w) | ls \<Rightarrow> (False, [Request (RefreshLease (last ls))], w))"
| "perform_request env i (UpdateTarget task account l u) w =
     (if target_lease task account l w then (False, [Request (UpdateRemote l u)], w) else (True, [], w))"
| "perform_request env i (OpenTarget task account l q) w =
     (if target_lease task account l w then (False, [Request (OpenGcash l q)], w) else (True, [], w))"

end
