(* ===== verification/LeaseOwner.thy ===== *)
theory LeaseOwner
  imports LeaseThreads
begin

text \<open>
  The actions of the thread that owns a browser, and the machine: events are new
  threads and steps of the threads there are.
\<close>

section \<open>Shared actions\<close>

text \<open>Saving the profile never raises; what went wrong becomes the lease's error.\<close>

definition save_profile :: "lease_env \<Rightarrow> step_input \<Rightarrow> nat \<Rightarrow> lease_world \<Rightarrow> lease_world" where
  "save_profile env i l w =
     (let now = in_now i
      in case in_outcome i of
           Throws e \<Rightarrow> upd_lease l (\<lambda>x. x\<lparr>ls_error := save_failed_text @ safe_error (raised_text e),
                        ls_updated := now\<rparr>) w
         | _ \<Rightarrow> upd_lease l (\<lambda>x. x\<lparr>ls_saved := True, ls_updated := now\<rparr>)
                 (w\<lparr>lw_profiles := dict_set (ls_account (the_lease w l))
                      (filtered_storage (le_netloc_ok env) (in_storage i)) (lw_profiles w)\<rparr>))"

fun perform_shared :: "lease_env \<Rightarrow> step_input \<Rightarrow> shared_action \<Rightarrow> lease_world \<Rightarrow> performed" where
  "perform_shared env i (Announce l) w = (False, [Shared (Deliver l (ls_status (the_lease w l)))], w)"
| "perform_shared env i (Deliver l s) w = (False, [], lease_changed l s w)"
| "perform_shared env i (SetStatus l s e) w = set_status (in_now i) l s e w"
| "perform_shared env i (FailPending l t) w = fail_pending (in_now i) l t w"
| "perform_shared env i (FailCommand l c t st) w =
     (False, [Shared (Announce l)], fail_command (in_now i) l c t st w)"
| "perform_shared env i (FinishCommand c) w = (False, [], upd_command c (\<lambda>x. x\<lparr>cm_done := True\<rparr>) w)"
| "perform_shared env i (PutCommand l c) w =
     (False, [], upd_lease l (\<lambda>x. x\<lparr>ls_queue := ls_queue x @ [c]\<rparr>) w)"
| "perform_shared env i (Checkpoint l) w = (False, [], save_profile env i l w)"
| "perform_shared env i (CloseTabs l) w =
     (if tab_closable (ls_tab (the_lease w l))
      then (False, [Shared (Announce l)], upd_lease l (tab_closed (in_now i)) w) else (False, [], w))"

section \<open>The login\<close>

text \<open>
  After the lease is created the login writes log lines, which check for a stop of
  the task, and tries up to \<open>max_attempts\<close> times. \<open>in_retry\<close> is the classification
  of the failure as temporary.
\<close>

definition create_step :: "lease_env \<Rightarrow> step_input \<Rightarrow> lease_request \<Rightarrow> lease_world \<Rightarrow> performed" where
  "create_step env i q w =
     (case create_lease env (in_now i) q w of
        (None, w') \<Rightarrow> (True, [], w')
      | (Some l, w') \<Rightarrow> (False, [Shared (Announce l), Login (LoginStart l)], w'))"

text \<open>The handlers of \<open>run\<close> around the browser.\<close>

definition run_ends :: "nat \<Rightarrow> raised option \<Rightarrow> lease_world \<Rightarrow> action list" where
  "run_ends l e w =
     (let x = the_lease w l
      in case e of
           None \<Rightarrow> (if ls_status x = Releasing then [Shared (SetStatus l Released [])] else [])
                    @ [Login (LoginReturns l)]
         | Some ReleaseAsked \<Rightarrow> [Shared (SetStatus l Released [])]
         | Some (TaskStop t) \<Rightarrow>
             (if lease_over (ls_status x) then [] else [Shared (SetStatus l LeaseStopped [])])
         | Some (Plain t) \<Rightarrow>
             (if ls_ready x \<noteq> None \<and> \<not> lease_over (ls_status x)
              then [Shared (SetStatus l LeaseInterrupted t)] else []) @ [Login (AttemptFailed l t)])"

definition later_raised :: "raised option \<Rightarrow> raised option \<Rightarrow> raised option" where
  "later_raised new old = (case new of Some e \<Rightarrow> Some e | None \<Rightarrow> old)"

text \<open>Closing the browser saves the profile once more if the release was asked for, and may raise.\<close>

definition leave_browser ::
  "lease_env \<Rightarrow> step_input \<Rightarrow> nat \<Rightarrow> raised option \<Rightarrow> lease_world \<Rightarrow> performed" where
  "leave_browser env i l e w =
     (if ls_release (the_lease w l)
      then (False, [Shared (Checkpoint l), Login (RunEnds l e)], w) else (False, [Login (RunEnds l e)], w))"

fun perform_login :: "lease_env \<Rightarrow> nat \<Rightarrow> step_input \<Rightarrow> login_action \<Rightarrow> lease_world \<Rightarrow> performed" where
  "perform_login env max_attempts i (CreateLease q) w = create_step env i q w"
| "perform_login env max_attempts i (LoginStart l) w =
     (if task_thrown i \<noteq> None then (True, [], w)
      else (False, [Login (LoginAttempt l)], upd_lease l (\<lambda>x. x\<lparr>ls_attempt := 1\<rparr>) w))"
| "perform_login env max_attempts i (LoginAttempt l) w =
     (case task_thrown i of
        None \<Rightarrow> (False, [Shared (SetStatus l WaitingCapacity []), Login (EnterBrowser l)], w)
      | Some (Plain t) \<Rightarrow> (True, [Login (AttemptFailed l t)], w)
      | Some e \<Rightarrow> (True, [], w))"
| "perform_login env max_attempts i (EnterBrowser l) w =
     (case thrown (the_lease w l) i of
        None \<Rightarrow> (False, [Shared (SetStatus l Authenticating []), Login (BrowserLogin l)], w)
      | Some e \<Rightarrow> (True, [Login (RunEnds l (Some e))], w))"
| "perform_login env max_attempts i (BrowserLogin l) w =
     (case thrown (the_lease w l) i of
        None \<Rightarrow> (False, [Shared (Checkpoint l), Hold (Publish l OutsideHold), Hold (HoldReady l)], w)
      | Some e \<Rightarrow> (True, [Login (LeaveBrowser l (Some e))], w))"
| "perform_login env max_attempts i (LeaveBrowser l e) w = leave_browser env i l e w"
| "perform_login env max_attempts i (RunEnds l e) w =
     (True, run_ends l (later_raised (plain_thrown i) e) w, w)"
| "perform_login env max_attempts i (LoginReturns l) w =
     (case task_thrown i of
        Some (Plain t) \<Rightarrow> (True, [Login (AttemptFailed l t)], w)
      | _ \<Rightarrow> (True, [], w))"
| "perform_login env max_attempts i (AttemptFailed l t) w =
     (if task_thrown i \<noteq> None then (True, [], w)
      else if ls_attempt (the_lease w l) < max_attempts \<and> in_retry i
      then (True, [Login (RetryPause l)], w) else (True, [Login (GiveUp l t)], w))"
| "perform_login env max_attempts i (RetryPause l) w =
     (if task_thrown i \<noteq> None then (True, [], w)
      else (False, [Login (LoginAttempt l)], upd_lease l (\<lambda>x. x\<lparr>ls_attempt := ls_attempt x + 1\<rparr>) w))"
| "perform_login env max_attempts i (GiveUp l t) w =
     (if ls_persisted (the_lease w l) \<or> lease_over (ls_status (the_lease w l)) then (True, [], w)
      else (True, [Shared (SetStatus l LeaseFailed t)], w))"

section \<open>The hold\<close>

definition publish :: "step_input \<Rightarrow> nat \<Rightarrow> place \<Rightarrow> lease_world \<Rightarrow> performed" where
  "publish i l p w =
     (let w1 = (if in_stored i \<or> task_thrown i = None
                then upd_lease l (\<lambda>x. x\<lparr>ls_persisted := True\<rparr>) w else w)
      in outside_call l p (task_thrown i) [] w1)"

definition page_check :: "step_input \<Rightarrow> nat \<Rightarrow> lease_world \<Rightarrow> performed" where
  "page_check i l w =
     (let x = the_lease w l
      in if \<not> in_due i then (False, [Hold (HoldLoop l)], w)
         else case plain_thrown i of
                Some e \<Rightarrow> (True, hold_raised l e, w)
              | None \<Rightarrow>
                  if in_closed i then (True, hold_raised l (Plain page_closed_text), w)
                  else if ls_request x \<noteq> [] \<and> dict_get (ls_pages x) (ls_request x) \<noteq> None
                          \<and> ls_tab x = TabReady \<and> in_tab_closed i
                  then (False, [Shared (CloseTabs l), Hold (Touch l), Hold (HoldLoop l)], w)
                  else (False, [Hold (Touch l), Hold (HoldLoop l)], w))"

fun perform_hold :: "step_input \<Rightarrow> hold_action \<Rightarrow> lease_world \<Rightarrow> performed" where
  "perform_hold i (Publish l p) w = publish i l p w"
| "perform_hold i (LogLine l p) w = outside_call l p (task_thrown i) [] w"
| "perform_hold i (HoldReady l) w =
     (if ls_release (the_lease w l)
      then (False, [Shared (SetStatus l Releasing []), Hold (LogLine l OutsideHold),
                    Login (LeaveBrowser l None)], w)
      else (False, [Shared (SetStatus l ReadyHolding []), Hold (LogLine l OutsideHold), Hold (HoldLoop l)],
            upd_lease l (\<lambda>x. x\<lparr>ls_pages := []\<rparr>) w))"
| "perform_hold i (HoldLoop l) w =
     (if ls_release (the_lease w l)
      then (False, [Shared (SetStatus l Releasing []), Shared (Checkpoint l), Shared (CloseTabs l),
                    Hold (LogLine l InsideHold), Login (LeaveBrowser l None)], w)
      else (False, [Hold (StopCheck l)], w))"
| "perform_hold i (StopCheck l) w =
     (if ls_release (the_lease w l) then (True, hold_raised l ReleaseAsked, w)
      else outside_call l InsideHold (task_thrown i) [Hold (NextCommand l)] w)"
| "perform_hold i (NextCommand l) w =
     (case ls_queue (the_lease w l) of
        [] \<Rightarrow> (False, [Hold (PageCheck l)], w)
      | c # cs \<Rightarrow> (False, [Command (BeginCommand l c)], upd_lease l (\<lambda>x. x\<lparr>ls_queue := cs\<rparr>) w))"
| "perform_hold i (PageCheck l) w = page_check i l w"
| "perform_hold i (Touch l) w = (False, [], upd_lease l (touched (in_now i)) w)"

section \<open>Commands\<close>

definition raise_command :: "nat \<Rightarrow> nat \<Rightarrow> raised \<Rightarrow> lease_world \<Rightarrow> performed" where
  "raise_command l c e w = (True, [Command (CommandRaised l c e)], w)"

definition begin_command :: "nat \<Rightarrow> nat \<Rightarrow> lease_world \<Rightarrow> performed" where
  "begin_command l c w =
     (let cmd = the_command w c; cancelled = (cm_cancelled cmd \<or> ls_release (the_lease w l));
          w1 = upd_command c (\<lambda>x. x\<lparr>cm_cancelled := cancelled\<rparr>) w
      in if cancelled then raise_command l c (Plain (shown_error (cm_error cmd) command_cancelled_text)) w1
         else (False, [Command (SetCurrent l c)], w1))"

text \<open>A page belongs to one remote request; a closed one is replaced by a new page.\<close>

definition open_start :: "lease_env \<Rightarrow> step_input \<Rightarrow> nat \<Rightarrow> nat \<Rightarrow> lease_world \<Rightarrow> performed" where
  "open_start env i l c w =
     (let cmd = the_command w c; x = the_lease w l; url = (case cm_url cmd of Some u \<Rightarrow> u | None \<Rightarrow> [])
      in if cm_cancelled cmd
         then raise_command l c (Plain (shown_error (cm_error cmd) open_cancelled_text)) w
         else case validate_redirect (le_netloc_ok env) url of
                Inl e \<Rightarrow> raise_command l c (Plain (redirect_error_text e)) w
              | Inr u \<Rightarrow>
                  (case (dict_get (ls_pages x) (cm_request cmd), plain_thrown i) of
                     (_, Some e) \<Rightarrow> raise_command l c e w
                   | (old, None) \<Rightarrow>
                       (case (old, in_closed i) of
                          (Some p, False) \<Rightarrow> (False, [Command (OpenGo l c p u True)], w)
                        | _ \<Rightarrow>
                            (let p = lw_next_page w
                             in (False, [Command (OpenGo l c p u False)],
                                 upd_lease l (\<lambda>y. y\<lparr>ls_pages := dict_set (cm_request cmd) p (ls_pages y)\<rparr>)
                                   (w\<lparr>lw_next_page := p + 1\<rparr>))))))"

definition open_go ::
  "step_input \<Rightarrow> nat \<Rightarrow> nat \<Rightarrow> nat \<Rightarrow> utext \<Rightarrow> bool \<Rightarrow> lease_world \<Rightarrow> performed" where
  "open_go i l c p u reused w =
     (let cmd = the_command w c;
          w1 = w\<lparr>lw_navigations := lw_navigations w
                 @ [\<lparr>nv_lease = l, nv_request = cm_request cmd, nv_page = p, nv_url = u\<rparr>]\<rparr>
      in if cm_cancelled cmd
         then raise_command l c (Plain (shown_error (cm_error cmd) open_cancelled_text)) w
         else case plain_thrown i of
                Some e \<Rightarrow> raise_command l c e w1
              | None \<Rightarrow> (False, [Command (OpenSettled l c reused)], w1))"

definition open_settled :: "step_input \<Rightarrow> nat \<Rightarrow> nat \<Rightarrow> bool \<Rightarrow> lease_world \<Rightarrow> performed" where
  "open_settled i l c reused w =
     (let cmd = the_command w c; url = u_strip (in_url i)
      in if cm_cancelled cmd \<or> ls_release (the_lease w l)
         then raise_command l c (Plain (shown_error (cm_error cmd) open_cancelled_text)) w
         else if in_closed i then raise_command l c (Plain tab_gone_text) w
         else if url = [] \<or> url = uni ''about:blank'' then raise_command l c (Plain tab_blank_text) w
         else case plain_thrown i of
                Some e \<Rightarrow> raise_command l c e w
              | None \<Rightarrow> (False, [Command (OpenAnswer l c reused)], w))"

definition open_answer :: "step_input \<Rightarrow> nat \<Rightarrow> nat \<Rightarrow> bool \<Rightarrow> lease_world \<Rightarrow> performed" where
  "open_answer i l c reused w =
     (let request = cm_request (the_command w c)
      in (False, [Shared (Announce l), Hold (LogLine l (InsideCommand c)), Command (EndCommand l c),
                  Hold (NextCommand l)],
          upd_command c (\<lambda>x. x\<lparr>cm_result := Some (TabOpened reused request), cm_url := None,
              cm_done := True\<rparr>)
            (upd_lease l (tab_opened (in_now i) c request) w)))"

text \<open>The handlers around one command of the queue.\<close>

definition failure_tab :: "lease \<Rightarrow> lease_command \<Rightarrow> utext \<Rightarrow> tab_state" where
  "failure_tab x cmd text =
     (if occurs timed_out_mark text then TabTimedOut
      else if cm_cancelled cmd \<or> ls_release x then TabCancelled else TabFailed)"

definition command_raised :: "nat \<Rightarrow> nat \<Rightarrow> raised \<Rightarrow> lease_world \<Rightarrow> performed" where
  "command_raised l c e w =
     (let cmd = the_command w c
      in case e of
           Plain t \<Rightarrow>
             (if cm_kind cmd = OpenGcashLink
              then (let text = shown_error (cm_error cmd) t
                    in (True, [Shared (FailCommand l c text (failure_tab (the_lease w l) cmd text)),
                               Command (EndCommand l c), Hold (NextCommand l)], w))
              else (let err = shown_error (safe_error t) refresh_failed_text
                    in (True, [Shared (SetStatus l ReadyHolding err), Command (EndCommand l c),
                               Hold (NextCommand l)],
                        upd_command c (\<lambda>x. x\<lparr>cm_error := err\<rparr>) w)))
         | _ \<Rightarrow>
             (True, Command (EndCommand l c) # hold_raised l e,
              upd_command c (\<lambda>x. x\<lparr>cm_error := shown_error (safe_error (raised_text e))
                 command_interrupted_text\<rparr>) w))"

definition end_command :: "nat \<Rightarrow> nat \<Rightarrow> lease_world \<Rightarrow> lease_world" where
  "end_command l c w =
     upd_command c (\<lambda>x. x\<lparr>cm_done := True\<rparr>)
       (upd_lease l (\<lambda>x. if ls_current x = Some c then x\<lparr>ls_current := None\<rparr> else x) w)"

fun perform_command :: "lease_env \<Rightarrow> step_input \<Rightarrow> command_action \<Rightarrow> lease_world \<Rightarrow> performed" where
  "perform_command env i (BeginCommand l c) w = begin_command l c w"
| "perform_command env i (SetCurrent l c) w =
     (False, [Command (if cm_kind (the_command w c) = RefreshSession then RefreshStart l c else OpenStart l c)],
      upd_lease l (\<lambda>x. x\<lparr>ls_current := Some c\<rparr>) w)"
| "perform_command env i (RefreshStart l c) w =
     (if cm_cancelled (the_command w c) then raise_command l c (Plain refresh_cancelled_text) w
      else (False, [Shared (SetStatus l RefreshingSession []), Command (RefreshRead l c)], w))"
| "perform_command env i (RefreshRead l c) w =
     outside_call l (InsideCommand c) (thrown (the_lease w l) i) [Command (RefreshStore l c)] w"
| "perform_command env i (RefreshStore l c) w =
     (if cm_cancelled (the_command w c) then raise_command l c (Plain refresh_unsaved_text) w
      else (False, [Shared (Checkpoint l), Hold (Publish l (InsideCommand c)), Command (RefreshCount l c)], w))"
| "perform_command env i (RefreshCount l c) w =
     (False, [Shared (SetStatus l ReadyHolding []), Command (RefreshAnswer l c)],
      upd_lease l (\<lambda>x. x\<lparr>ls_refreshes := ls_refreshes x + 1\<rparr>) w)"
| "perform_command env i (RefreshAnswer l c) w =
     (False, [Hold (LogLine l (InsideCommand c)), Command (EndCommand l c), Hold (NextCommand l)],
      upd_command c (\<lambda>x. x\<lparr>cm_result := Some RefreshDone\<rparr>) w)"
| "perform_command env i (OpenStart l c) w = open_start env i l c w"
| "perform_command env i (OpenGo l c p u reused) w = open_go i l c p u reused w"
| "perform_command env i (OpenSettled l c reused) w = open_settled i l c reused w"
| "perform_command env i (OpenAnswer l c reused) w = open_answer i l c reused w"
| "perform_command env i (CommandRaised l c e) w = command_raised l c e w"
| "perform_command env i (EndCommand l c) w = (False, [], end_command l c w)"

section \<open>The machine\<close>

fun perform :: "lease_env \<Rightarrow> nat \<Rightarrow> step_input \<Rightarrow> action \<Rightarrow> lease_world \<Rightarrow> performed" where
  "perform env m i (Shared a) w = perform_shared env i a w"
| "perform env m i (Request a) w = perform_request env i a w"
| "perform env m i (Login a) w = perform_login env m i a w"
| "perform env m i (Hold a) w = perform_hold i a w"
| "perform env m i (Command a) w = perform_command env i a w"

text \<open>
  An event starts a thread with one of the calls the program makes, or lets one
  thread do one action.
\<close>

datatype lease_call =
    CallLogin lease_request
  | CallRelease string "int option"
  | CallRefresh string int
  | CallUpdate string int nat remote_update
  | CallOpen string int nat open_request
  | CallOpenForAccount int pyval pyval open_request

fun call_action :: "lease_call \<Rightarrow> action" where
  "call_action (CallLogin q) = Login (CreateLease q)"
| "call_action (CallRelease task account) = Request (ReleaseTask task account)"
| "call_action (CallRefresh task account) = Request (RefreshTask task account)"
| "call_action (CallUpdate task account l u) = Request (UpdateTarget task account l u)"
| "call_action (CallOpen task account l q) = Request (OpenTarget task account l q)"
| "call_action (CallOpenForAccount a link qr q) =
     Request (OpenForAccount a \<lparr>ru_state = ''succeeded'', ru_error = [], ru_request = oq_request q,
       ru_job = oq_job q, ru_link_expires = link, ru_qr_expires = qr\<rparr> q)"

datatype lease_event = NewThread lease_call | RunThread nat step_input

record lease_system =
  sy_threads :: "action list list"
  sy_world :: lease_world

definition start_system :: lease_system where
  "start_system = \<lparr>sy_threads = [], sy_world = empty_lease_world\<rparr>"

definition run_thread :: "lease_env \<Rightarrow> nat \<Rightarrow> nat \<Rightarrow> step_input \<Rightarrow> lease_system \<Rightarrow> lease_system" where
  "run_thread env m n i s =
     (if n < length (sy_threads s)
      then (case sy_threads s ! n of
              [] \<Rightarrow> s
            | a # rest \<Rightarrow>
                (let (raised, acts, w) = perform env m i a (sy_world s)
                 in \<lparr>sy_threads = (sy_threads s)[n := acts @ (if raised then [] else rest)], sy_world = w\<rparr>))
      else s)"

fun lease_step :: "lease_env \<Rightarrow> nat \<Rightarrow> lease_event \<Rightarrow> lease_system \<Rightarrow> lease_system" where
  "lease_step env m (NewThread call) s = s\<lparr>sy_threads := sy_threads s @ [[call_action call]]\<rparr>"
| "lease_step env m (RunThread n i) s = run_thread env m n i s"

definition lease_run :: "lease_env \<Rightarrow> nat \<Rightarrow> lease_event list \<Rightarrow> lease_system \<Rightarrow> lease_system" where
  "lease_run env m evs s = fold (lease_step env m) evs s"

end
