(* ===== verification/LeaseMoves.thy ===== *)
theory LeaseMoves
  imports LeaseOwner
begin

text \<open>
  What one action can do to the state: a lease keeps its identity and its status
  only moves forward, a command keeps what it was made of and only loses its link.
  Every action is such a move, so every run is one.
\<close>

section \<open>Moves\<close>

definition lease_moves :: "lease \<Rightarrow> lease \<Rightarrow> bool" where
  "lease_moves x y \<longleftrightarrow>
     ls_task y = ls_task x \<and> ls_account y = ls_account x \<and> ls_created y = ls_created x
     \<and> (lease_over (ls_status x) \<longrightarrow> ls_status y = ls_status x)
     \<and> (ls_release x \<longrightarrow> ls_release y)
     \<and> (ls_release x \<and> ls_status x = Releasing \<longrightarrow> ls_status y = Releasing \<or> lease_over (ls_status y))"

definition command_moves :: "lease_command \<Rightarrow> lease_command \<Rightarrow> bool" where
  "command_moves x y \<longleftrightarrow>
     cm_kind y = cm_kind x \<and> cm_request y = cm_request x \<and> cm_digest y = cm_digest x
     \<and> cm_job y = cm_job x \<and> (cm_url y = cm_url x \<or> cm_url y = None)
     \<and> (cm_done x \<longrightarrow> cm_done y) \<and> (cm_cancelled x \<longrightarrow> cm_cancelled y)"

definition extends :: "('a \<Rightarrow> 'a \<Rightarrow> bool) \<Rightarrow> 'a list \<Rightarrow> 'a list \<Rightarrow> bool" where
  "extends R xs ys \<longleftrightarrow> length xs \<le> length ys \<and> (\<forall>i<length xs. R (xs ! i) (ys ! i))"

definition world_moves :: "lease_world \<Rightarrow> lease_world \<Rightarrow> bool" where
  "world_moves w w' \<longleftrightarrow>
     extends lease_moves (lw_leases w) (lw_leases w')
     \<and> extends command_moves (lw_commands w) (lw_commands w')"

lemma lease_moves_refl [simp, intro]: "lease_moves x x"
  by (simp add: lease_moves_def)

lemma command_moves_refl [simp, intro]: "command_moves x x"
  by (simp add: command_moves_def)

lemma lease_moves_trans: "lease_moves x y \<Longrightarrow> lease_moves y z \<Longrightarrow> lease_moves x z"
  unfolding lease_moves_def by (cases "lease_over (ls_status y)") auto

lemma command_moves_trans: "command_moves x y \<Longrightarrow> command_moves y z \<Longrightarrow> command_moves x z"
  unfolding command_moves_def by auto

lemma extends_refl: "(\<And>x. R x x) \<Longrightarrow> extends R xs xs"
  by (simp add: extends_def)

lemma extends_trans:
  assumes "\<And>x y z. R x y \<Longrightarrow> R y z \<Longrightarrow> R x z" and "extends R xs ys" and "extends R ys zs"
  shows "extends R xs zs"
  using assms unfolding extends_def by (meson order_less_le_trans order_trans)

lemma extends_update:
  assumes "\<And>x. R x x" and "R (xs ! i) y"
  shows "extends R xs (xs[i := y])"
  unfolding extends_def
proof (intro conjI allI impI)
  fix k assume "k < length xs"
  then show "R (xs ! k) (xs[i := y] ! k)" using assms by (cases "k = i") auto
qed simp

lemma extends_append: "(\<And>x. R x x) \<Longrightarrow> extends R xs (xs @ ys)"
  unfolding extends_def by (auto simp: nth_append)

lemma world_moves_refl [simp, intro]: "world_moves w w"
  by (simp add: world_moves_def extends_refl)

lemma world_moves_trans:
  assumes "world_moves u v" and "world_moves v w"
  shows "world_moves u w"
  using assms unfolding world_moves_def
  by (metis (no_types, lifting) extends_trans lease_moves_trans command_moves_trans)

lemma moves_same:
  "lw_leases w' = lw_leases w \<Longrightarrow> lw_commands w' = lw_commands w \<Longrightarrow> world_moves w w'"
  by (simp add: world_moves_def extends_refl)

lemma moves_upd_lease: "lease_moves (the_lease w l) (f (the_lease w l)) \<Longrightarrow> world_moves w (upd_lease l f w)"
  by (simp add: world_moves_def extends_refl extends_update)

lemma moves_upd_command:
  "command_moves (the_command w c) (f (the_command w c)) \<Longrightarrow> world_moves w (upd_command c f w)"
  by (simp add: world_moves_def extends_refl extends_update)

lemma moves_add_command: "world_moves w (w\<lparr>lw_commands := lw_commands w @ [x]\<rparr>)"
  by (simp add: world_moves_def extends_refl extends_append)

section \<open>The locked sections move a lease\<close>

lemma transitioned_fields [simp]:
  "ls_status (transitioned now s e x) = s" "ls_task (transitioned now s e x) = ls_task x"
  "ls_account (transitioned now s e x) = ls_account x" "ls_created (transitioned now s e x) = ls_created x"
  "ls_release (transitioned now s e x) = ls_release x" "ls_commands (transitioned now s e x) = ls_commands x"
  "ls_pages (transitioned now s e x) = ls_pages x" "ls_queue (transitioned now s e x) = ls_queue x"
  "ls_attempt (transitioned now s e x) = ls_attempt x" "ls_request (transitioned now s e x) = ls_request x"
  "ls_remote_error (transitioned now s e x) = ls_remote_error x"
  "ls_tab_error (transitioned now s e x) = ls_tab_error x"
  "ls_persisted (transitioned now s e x) = ls_persisted x"
  by (simp_all add: transitioned_def Let_def)

lemma transitioned_moves: "\<not> transition_refused s x \<Longrightarrow> lease_moves x (transitioned now s e x)"
  by (auto simp: lease_moves_def transition_refused_def)

lemma section_moves [simp]:
  "lease_moves x (touched now x)" "lease_moves x (release_flagged now x)"
  "lease_moves x (remote_updated now st link qr u x)"
  "lease_moves x (invalid_link_noted now request job digest e x)"
  "lease_moves x (open_queued now c finished digest request job x)"
  "lease_moves x (tab_failure_noted now c cmd err ts x)"
  "lease_moves x (tab_opened now c request x)" "lease_moves x (tab_closed now x)"
  by (simp_all add: lease_moves_def touched_def release_flagged_def remote_updated_def Let_def
      invalid_link_noted_def open_queued_def tab_failure_noted_def tab_opened_def tab_closed_def)

lemma fail_command_moves: "world_moves w (fail_command now l c t st w)"
  unfolding fail_command_def Let_def
  by (rule world_moves_trans [OF moves_upd_lease moves_upd_command]) (simp_all add: command_moves_def)

lemma save_profile_moves: "world_moves w (save_profile env i l w)"
proof -
  have "world_moves w (upd_lease l (\<lambda>x. x\<lparr>ls_saved := True, ls_updated := in_now i\<rparr>) (w\<lparr>lw_profiles := ps\<rparr>))" for ps
    by (rule world_moves_trans [OF moves_same moves_upd_lease]) (simp_all add: lease_moves_def)
  moreover have "world_moves w (upd_lease l (\<lambda>x. x\<lparr>ls_error := t, ls_updated := in_now i\<rparr>) w)" for t
    by (rule moves_upd_lease) (simp add: lease_moves_def)
  ultimately show ?thesis unfolding save_profile_def Let_def by (simp split: outcome.split)
qed

lemma create_lease_moves: "world_moves w (snd (create_lease env now q w))"
  by (simp add: create_lease_def Let_def world_moves_def extends_refl extends_append)

lemma lease_changed_moves: "world_moves w (lease_changed l s w)"
  by (simp add: lease_changed_def Let_def moves_same)

lemma end_command_moves: "world_moves w (end_command l c w)"
  unfolding end_command_def
  by (rule world_moves_trans [OF moves_upd_lease moves_upd_command])
    (simp_all add: lease_moves_def command_moves_def)

section \<open>Every action moves the world\<close>

abbreviation after :: "performed \<Rightarrow> lease_world" where
  "after p \<equiv> snd (snd p)"

abbreviation planned :: "performed \<Rightarrow> action list" where
  "planned p \<equiv> fst (snd p)"

lemma set_status_moves: "world_moves w (after (set_status now l s e w))"
  by (simp add: set_status_def moves_upd_lease transitioned_moves)

lemma fail_pending_moves: "world_moves w (after (fail_pending now l t w))"
proof (cases "ls_queue (the_lease w l)")
  case Nil
  then show ?thesis by (simp add: fail_pending_def)
next
  case (Cons c cs)
  have 1: "world_moves w (upd_command c (\<lambda>x. x\<lparr>cm_cancelled := True\<rparr>) (upd_lease l (\<lambda>x. x\<lparr>ls_queue := cs\<rparr>) w))"
    (is "world_moves w ?w1")
    by (rule world_moves_trans [OF moves_upd_lease moves_upd_command])
      (simp_all add: lease_moves_def command_moves_def)
  have "world_moves ?w1 (upd_command c (\<lambda>x. x\<lparr>cm_error := t\<rparr>) ?w1)"
    by (rule moves_upd_command) (simp add: command_moves_def)
  note 2 = world_moves_trans [OF 1 this]
  show ?thesis using Cons 1 2 by (simp add: fail_pending_def Let_def)
qed

lemma release_lease_moves: "world_moves w (after (release_lease now l w))"
proof -
  have 1: "world_moves w (upd_lease l (release_flagged now) w)" (is "world_moves w ?w1")
    by (rule moves_upd_lease) simp
  have 2: "world_moves w (upd_command c (\<lambda>x. x\<lparr>cm_cancelled := True\<rparr>) ?w1)" for c
    by (rule world_moves_trans [OF 1 moves_upd_command]) (simp add: command_moves_def)
  show ?thesis using 1 2 by (simp add: release_lease_def Let_def split: option.split)
qed

lemma open_queue_moves: "world_moves w (after (open_queue env now l url request job w))"
proof -
  have "world_moves w (upd_lease l (open_queued now c f d request job) (w\<lparr>lw_commands := lw_commands w @ [x]\<rparr>))" for c f d x
    by (rule world_moves_trans [OF moves_add_command moves_upd_lease]) simp
  then show ?thesis by (simp add: open_queue_def Let_def add_command_def split: option.split)
qed

lemma open_gcash_moves: "world_moves w (after (open_gcash env now l q w))"
  by (simp add: open_gcash_def Let_def open_queue_moves moves_upd_lease split: sum.split)

lemma perform_shared_moves: "world_moves w (after (perform_shared env i a w))"
  by (cases a) (simp_all add: lease_changed_moves set_status_moves fail_pending_moves fail_command_moves
      save_profile_moves moves_upd_command moves_upd_lease command_moves_def lease_moves_def tab_closed_def)

lemma perform_request_moves: "world_moves w (after (perform_request env i a w))"
  by (cases a)
    (simp_all add: await_refresh_def await_open_def release_lease_moves refresh_lease_def update_remote_def
      open_gcash_moves moves_upd_command command_moves_def add_command_def Let_def moves_add_command
      moves_upd_lease split: option.split list.split)

lemma perform_login_moves: "world_moves w (after (perform_login env m i a w))"
proof (cases a)
  case (CreateLease q)
  then show ?thesis using create_lease_moves [of w env "in_now i" q]
    by (auto simp: create_step_def split: option.split prod.split)
qed (auto simp: leave_browser_def moves_upd_lease lease_moves_def split: option.split raised.split)

lemma perform_hold_moves: "world_moves w (after (perform_hold i a w))"
  by (cases a)
    (simp_all add: publish_def page_check_def outside_call_def Let_def moves_upd_lease lease_moves_def
      touched_def split: option.split list.split)

lemma open_start_moves: "world_moves w (after (open_start env i l c w))"
proof -
  have "world_moves w (upd_lease l (\<lambda>y. y\<lparr>ls_pages := f y\<rparr>) (w\<lparr>lw_next_page := p\<rparr>))" for f p
    by (rule world_moves_trans [OF moves_same moves_upd_lease]) (simp_all add: lease_moves_def)
  then show ?thesis
    by (simp add: open_start_def Let_def raise_command_def split: option.split sum.split bool.split)
qed

lemma open_answer_moves: "world_moves w (after (open_answer i l c reused w))"
proof -
  have "world_moves w (upd_command c f (upd_lease l (tab_opened (in_now i) c r) w))"
    if "\<And>x. command_moves x (f x)" for f r
    by (rule world_moves_trans [OF moves_upd_lease moves_upd_command]) (simp_all add: that)
  then show ?thesis by (simp add: open_answer_def Let_def command_moves_def)
qed

lemma perform_command_moves: "world_moves w (after (perform_command env i a w))"
  by (cases a)
    (simp_all add: begin_command_def raise_command_def Let_def outside_call_def open_start_moves
      open_go_def open_settled_def open_answer_moves command_raised_def end_command_moves moves_same
      moves_upd_lease lease_moves_def moves_upd_command command_moves_def
      split: option.split raised.split)

lemma perform_moves: "world_moves w (after (perform env m i a w))"
  by (cases a) (simp_all add: perform_shared_moves perform_request_moves perform_login_moves
      perform_hold_moves perform_command_moves)

section \<open>Steps of threads\<close>

text \<open>A step either starts a thread, or performs one action of one thread, or does nothing.\<close>

lemma lease_step_cases:
  assumes "s' = lease_step env m ev s"
  obtains (new) call where "s' = s\<lparr>sy_threads := sy_threads s @ [[call_action call]]\<rparr>"
        "ev = NewThread call"
    | (act) n i a rest where "n < length (sy_threads s)" "sy_threads s ! n = a # rest"
        "sy_threads s' = (sy_threads s)[n := planned (perform env m i a (sy_world s))
            @ (if fst (perform env m i a (sy_world s)) then [] else rest)]"
        "sy_world s' = after (perform env m i a (sy_world s))" "ev = RunThread n i"
    | (idle) n i where "s' = s" "ev = RunThread n i" "n < length (sy_threads s) \<longrightarrow> sy_threads s ! n = []"
proof (cases ev)
  case (NewThread call)
  then show ?thesis using assms new by simp
next
  case (RunThread n i)
  show ?thesis
  proof (cases "n < length (sy_threads s) \<and> sy_threads s ! n \<noteq> []")
    case True
    then obtain a rest where ar: "sy_threads s ! n = a # rest" by (cases "sy_threads s ! n") auto
    show ?thesis
    proof (rule act [of n a rest i])
      show "n < length (sy_threads s)" using True by simp
      show "sy_threads s ! n = a # rest" by (rule ar)
      show "sy_threads s' = (sy_threads s)[n := planned (perform env m i a (sy_world s))
            @ (if fst (perform env m i a (sy_world s)) then [] else rest)]"
        using assms RunThread True ar by (simp add: run_thread_def Let_def split: prod.split)
      show "sy_world s' = after (perform env m i a (sy_world s))"
        using assms RunThread True ar by (simp add: run_thread_def Let_def split: prod.split)
      show "ev = RunThread n i" by (rule RunThread)
    qed
  next
    case False
    show ?thesis
    proof (rule idle)
      show "s' = s" using assms RunThread False by (auto simp: run_thread_def split: list.split)
      show "n < length (sy_threads s) \<longrightarrow> sy_threads s ! n = []" using False by simp
    qed (rule RunThread)
  qed
qed

lemma lease_step_moves: "world_moves (sy_world s) (sy_world (lease_step env m ev s))"
  by (rule lease_step_cases [OF refl, of env m ev s]) (auto simp: perform_moves)

lemma lease_run_Nil [simp]: "lease_run env m [] s = s"
  by (simp add: lease_run_def)

lemma lease_run_Cons [simp]: "lease_run env m (ev # evs) s = lease_run env m evs (lease_step env m ev s)"
  by (simp add: lease_run_def)

lemma lease_run_append: "lease_run env m (es @ fs) s = lease_run env m fs (lease_run env m es s)"
  by (simp add: lease_run_def)

lemma lease_run_moves: "world_moves (sy_world s) (sy_world (lease_run env m evs s))"
proof (induction evs arbitrary: s)
  case (Cons ev evs)
  show ?case using world_moves_trans [OF lease_step_moves Cons.IH] by simp
qed simp

end
