(* ===== verification/LeaseRegistry.thy ===== *)
theory LeaseRegistry
  imports LeaseMoves
begin

text \<open>
  Which lease an action is about, what an action can plan, and that only the creation
  of a lease and the reports of a status touch the manager's two indexes.
\<close>

section \<open>The lease of an action\<close>

fun shared_lease :: "shared_action \<Rightarrow> nat option" where
  "shared_lease (FinishCommand c) = None"
| "shared_lease (Announce l) = Some l"
| "shared_lease (Deliver l s) = Some l"
| "shared_lease (SetStatus l s e) = Some l"
| "shared_lease (FailPending l t) = Some l"
| "shared_lease (FailCommand l c t st) = Some l"
| "shared_lease (PutCommand l c) = Some l"
| "shared_lease (Checkpoint l) = Some l"
| "shared_lease (CloseTabs l) = Some l"

fun request_lease :: "request_action \<Rightarrow> nat option" where
  "request_lease (AwaitOpen l c) = Some l"
| "request_lease (ReleaseLease l) = Some l"
| "request_lease (RefreshLease l) = Some l"
| "request_lease (UpdateRemote l u) = Some l"
| "request_lease (OpenGcash l q) = Some l"
| "request_lease (OpenIfReady l u q) = Some l"
| "request_lease _ = None"

fun login_lease :: "login_action \<Rightarrow> nat option" where
  "login_lease (CreateLease q) = None"
| "login_lease (LoginStart l) = Some l"
| "login_lease (LoginAttempt l) = Some l"
| "login_lease (EnterBrowser l) = Some l"
| "login_lease (BrowserLogin l) = Some l"
| "login_lease (LeaveBrowser l e) = Some l"
| "login_lease (RunEnds l e) = Some l"
| "login_lease (LoginReturns l) = Some l"
| "login_lease (AttemptFailed l t) = Some l"
| "login_lease (RetryPause l) = Some l"
| "login_lease (GiveUp l t) = Some l"

fun hold_lease :: "hold_action \<Rightarrow> nat" where
  "hold_lease (Publish l p) = l"
| "hold_lease (LogLine l p) = l"
| "hold_lease (HoldReady l) = l"
| "hold_lease (HoldLoop l) = l"
| "hold_lease (StopCheck l) = l"
| "hold_lease (NextCommand l) = l"
| "hold_lease (PageCheck l) = l"
| "hold_lease (Touch l) = l"

fun command_lease :: "command_action \<Rightarrow> nat" where
  "command_lease (BeginCommand l c) = l"
| "command_lease (SetCurrent l c) = l"
| "command_lease (RefreshStart l c) = l"
| "command_lease (RefreshRead l c) = l"
| "command_lease (RefreshStore l c) = l"
| "command_lease (RefreshCount l c) = l"
| "command_lease (RefreshAnswer l c) = l"
| "command_lease (OpenStart l c) = l"
| "command_lease (OpenGo l c p u r) = l"
| "command_lease (OpenSettled l c r) = l"
| "command_lease (OpenAnswer l c r) = l"
| "command_lease (CommandRaised l c e) = l"
| "command_lease (EndCommand l c) = l"

fun act_lease :: "action \<Rightarrow> nat option" where
  "act_lease (Shared a) = shared_lease a"
| "act_lease (Request a) = request_lease a"
| "act_lease (Login a) = login_lease a"
| "act_lease (Hold a) = Some (hold_lease a)"
| "act_lease (Command a) = Some (command_lease a)"

text \<open>
  \<open>about l acts\<close>: the actions are about the lease \<open>l\<close> or about none, and none of
  them is a report.
\<close>

fun is_report :: "action \<Rightarrow> bool" where
  "is_report (Shared (Deliver l s)) = True"
| "is_report _ = False"

definition about :: "nat \<Rightarrow> action list \<Rightarrow> bool" where
  "about l acts \<longleftrightarrow> (\<forall>a\<in>set acts. (act_lease a = Some l \<or> act_lease a = None) \<and> \<not> is_report a)"

lemma about_simps [simp]:
  "about l []"
  "about l (a # as) \<longleftrightarrow> (act_lease a = Some l \<or> act_lease a = None) \<and> \<not> is_report a \<and> about l as"
  "about l (as @ bs) \<longleftrightarrow> about l as \<and> about l bs"
  by (auto simp: about_def)

lemma about_raised [simp]: "about l (hold_raised l e)" "about l (raise_at l p e)"
proof -
  show *: "about l (hold_raised l e)" by (cases e) simp_all
  show "about l (raise_at l p e)" using * by (cases p) simp_all
qed

lemma about_run_ends [simp]: "about l (run_ends l e w)"
  by (simp add: run_ends_def Let_def split: option.split raised.split)

lemma about_outside [simp]: "about l acts \<Longrightarrow> about l (planned (outside_call l p e acts w))"
  by (simp add: outside_call_def split: option.split)

lemma about_shared:
  assumes "shared_lease a = Some l" and "\<And>k. a \<noteq> Announce k"
  shows "about l (planned (perform_shared env i a w))"
  using assms
  by (cases a) (auto simp: set_status_def fail_pending_def Let_def split: list.split)

lemma about_request:
  assumes "request_lease a = Some l"
  shows "about l (planned (perform_request env i a w))"
  using assms
  by (cases a) (simp_all add: await_open_def release_lease_def refresh_lease_def add_command_def Let_def
      update_remote_def open_gcash_def open_queue_def split: option.split sum.split)

lemma about_login:
  assumes "login_lease a = Some l"
  shows "about l (planned (perform_login env m i a w))"
  using assms by (cases a) (auto simp: leave_browser_def split: option.split raised.split)

lemma about_hold: "about (hold_lease a) (planned (perform_hold i a w))"
  by (cases a) (simp_all add: publish_def page_check_def Let_def split: option.split list.split)

lemma about_command: "about (command_lease a) (planned (perform_command env i a w))"
  by (cases a) (simp_all add: begin_command_def raise_command_def Let_def open_start_def open_go_def
      open_settled_def open_answer_def command_raised_def
      split: option.split raised.split sum.split bool.split)

text \<open>Requests that look a lease up find one of the registry.\<close>

lemma about_lookup:
  assumes "request_lease a = None" and "x \<in> set (planned (perform_request env i a w))"
  shows "\<not> is_report x \<and> (act_lease x = None \<or> (\<exists>l\<in>set (lw_registry w). act_lease x = Some l))"
proof (cases a)
  case (OpenForAccount acc u q)
  then show ?thesis using assms
    by (auto simp: active_lease_def split: option.splits if_splits)
next
  case (ReleaseTask t acc)
  then show ?thesis using assms by (auto simp: active_task_leases_def)
next
  case (RefreshTask t acc)
  have "last ls \<in> set (lw_registry w)" if "ls = active_task_leases t (Some acc) w" "ls \<noteq> []" for ls
    using last_in_set [OF that(2)] that(1) unfolding active_task_leases_def by auto
  then show ?thesis using assms RefreshTask by (auto split: list.splits)
qed (use assms in \<open>auto simp: await_refresh_def target_lease_def split: if_splits\<close>)

section \<open>Only creation and reports touch the indexes\<close>

definition indexes :: "lease_world \<Rightarrow> nat list \<times> (int, nat) dict \<times> nat" where
  "indexes w = (lw_registry w, lw_active w, length (lw_leases w))"

lemma indexes_upd [simp]:
  "indexes (upd_lease l f w) = indexes w" "indexes (upd_command c g w) = indexes w"
  "indexes (w\<lparr>lw_commands := cs\<rparr>) = indexes w" "indexes (w\<lparr>lw_profiles := ps\<rparr>) = indexes w"
  "indexes (w\<lparr>lw_next_page := n\<rparr>) = indexes w" "indexes (w\<lparr>lw_navigations := ns\<rparr>) = indexes w"
  by (simp_all add: indexes_def)

lemma shared_indexes:
  "\<not> is_report (Shared a) \<Longrightarrow> indexes (after (perform_shared env i a w)) = indexes w"
  by (cases a) (simp_all add: set_status_def fail_pending_def fail_command_def save_profile_def Let_def
      split: list.split outcome.split)

lemma request_indexes: "indexes (after (perform_request env i a w)) = indexes w"
  by (cases a) (simp_all add: await_refresh_def await_open_def release_lease_def refresh_lease_def
      add_command_def Let_def update_remote_def open_gcash_def open_queue_def
      split: option.split sum.split list.split)

lemma login_indexes:
  "login_lease a \<noteq> None \<Longrightarrow> indexes (after (perform_login env m i a w)) = indexes w"
  by (cases a) (simp_all add: leave_browser_def split: option.split raised.split)

lemma hold_indexes: "indexes (after (perform_hold i a w)) = indexes w"
  by (cases a) (simp_all add: publish_def outside_call_def page_check_def Let_def split: option.split list.split)

lemma command_indexes: "indexes (after (perform_command env i a w)) = indexes w"
  by (cases a) (simp_all add: begin_command_def raise_command_def Let_def open_start_def open_go_def
      open_settled_def open_answer_def command_raised_def end_command_def outside_call_def
      split: option.split raised.split sum.split bool.split)

fun is_create :: "action \<Rightarrow> bool" where
  "is_create (Login (CreateLease q)) = True"
| "is_create _ = False"

lemma perform_indexes:
  assumes "\<not> is_report a" and "\<not> is_create a"
  shows "indexes (after (perform env m i a w)) = indexes w"
proof (cases a)
  case (Login b)
  then have "login_lease b \<noteq> None" using assms by (cases b) simp_all
  then show ?thesis using Login by (simp add: login_indexes)
qed (use assms shared_indexes in \<open>simp_all add: request_indexes hold_indexes command_indexes\<close>)

lemma perform_plan:
  assumes "\<not> is_create a" and "x \<in> set (planned (perform env m i a w))"
  shows "act_lease x = None \<or> act_lease x = act_lease a \<or> (\<exists>l\<in>set (lw_registry w). act_lease x = Some l)"
    and "is_report x \<Longrightarrow> \<exists>l. a = Shared (Announce l) \<and> x = Shared (Deliver l (ls_status (the_lease w l)))"
proof -
  have "(act_lease x = None \<or> act_lease x = act_lease a \<or> (\<exists>l\<in>set (lw_registry w). act_lease x = Some l))
    \<and> (is_report x \<longrightarrow> (\<exists>l. a = Shared (Announce l) \<and> x = Shared (Deliver l (ls_status (the_lease w l)))))"
  proof (cases a)
    case (Shared b)
    show ?thesis
    proof (cases "\<exists>k. b = Announce k")
      case True
      then show ?thesis using Shared assms by auto
    next
      case False
      show ?thesis
      proof (cases "shared_lease b")
        case None
        then show ?thesis using Shared assms by (cases b) auto
      next
        case (Some l)
        then have "about l (planned (perform_shared env i b w))" using False by (intro about_shared) auto
        then show ?thesis using Shared assms Some by (auto simp: about_def)
      qed
    qed
  next
    case (Request b)
    show ?thesis
    proof (cases "request_lease b")
      case None
      then show ?thesis using about_lookup [OF None, of x env i w] Request assms by auto
    next
      case (Some l)
      then show ?thesis using about_request [OF Some, of env i w] Request assms by (auto simp: about_def)
    qed
  next
    case (Login b)
    then obtain l where "login_lease b = Some l" using assms(1) by (cases b) simp_all
    then show ?thesis using about_login [of b l env m i w] Login assms by (auto simp: about_def)
  next
    case (Hold b)
    then show ?thesis using about_hold [of b i w] assms by (auto simp: about_def)
  next
    case (Command b)
    then show ?thesis using about_command [of b env i w] assms by (auto simp: about_def)
  qed
  then show "act_lease x = None \<or> act_lease x = act_lease a \<or> (\<exists>l\<in>set (lw_registry w). act_lease x = Some l)"
    and "is_report x \<Longrightarrow> \<exists>l. a = Shared (Announce l) \<and> x = Shared (Deliver l (ls_status (the_lease w l)))"
    by blast+
qed

end
