(* ===== verification/LeaseHolders.thy ===== *)
theory LeaseHolders
  imports LeaseRegistry
begin

text \<open>
  The abstract view of the leases, a map from accounts to the lease that holds the
  browser, the invariant under which the manager's index agrees with it, and the
  simulation: every step of an orderly run is a step of the abstract view.
\<close>

section \<open>The abstract view\<close>

text \<open>For an account the lease that holds its browser; an abstract step takes or gives back one.\<close>

type_synonym holders = "int \<Rightarrow> nat option"

datatype holder_op = Acquire int nat | Drop int nat | NoChange

fun holder_step :: "holder_op \<Rightarrow> holders \<Rightarrow> holders" where
  "holder_step (Acquire a l) h = (if h a = None then h(a := Some l) else h)"
| "holder_step (Drop a l) h = (if h a = Some l then h(a := None) else h)"
| "holder_step NoChange h = h"

definition lease_active :: "lease_world \<Rightarrow> int \<Rightarrow> nat \<Rightarrow> bool" where
  "lease_active w a l \<longleftrightarrow> l < length (lw_leases w) \<and> ls_account (the_lease w l) = a
     \<and> \<not> lease_over (ls_status (the_lease w l))"

definition holders_of :: "lease_world \<Rightarrow> holders" where
  "holders_of w a = find (lease_active w a) [0..<length (lw_leases w)]"

fun op_of_action :: "action \<Rightarrow> lease_world \<Rightarrow> holder_op" where
  "op_of_action (Login (CreateLease q)) w = Acquire (lq_account q) (length (lw_leases w))"
| "op_of_action (Shared (SetStatus l s e)) w =
     (if lease_over s then Drop (ls_account (the_lease w l)) l else NoChange)"
| "op_of_action _ w = NoChange"

definition next_action :: "lease_event \<Rightarrow> lease_system \<Rightarrow> action option" where
  "next_action ev s =
     (case ev of
        NewThread call \<Rightarrow> None
      | RunThread n i \<Rightarrow> if n < length (sy_threads s)
          then (case sy_threads s ! n of [] \<Rightarrow> None | a # rest \<Rightarrow> Some a) else None)"

definition holder_op_of :: "lease_event \<Rightarrow> lease_system \<Rightarrow> holder_op" where
  "holder_op_of ev s =
     (case next_action ev s of None \<Rightarrow> NoChange | Some a \<Rightarrow> op_of_action a (sy_world s))"

section \<open>Late reports\<close>

text \<open>
  A report is late when it says that a lease is active which has ended since the
  status was read. A run is orderly if no account gets a lease while a late
  report on an earlier lease of this account is on its way.
\<close>

fun late_report :: "lease_world \<Rightarrow> int \<Rightarrow> action \<Rightarrow> bool" where
  "late_report w a (Shared (Deliver l s)) \<longleftrightarrow>
     \<not> lease_over s \<and> lease_over (ls_status (the_lease w l)) \<and> ls_account (the_lease w l) = a"
| "late_report w a _ \<longleftrightarrow> False"

definition in_flight :: "lease_system \<Rightarrow> action list" where
  "in_flight s = concat (sy_threads s)"

definition orderly_step :: "lease_event \<Rightarrow> lease_system \<Rightarrow> bool" where
  "orderly_step ev s \<longleftrightarrow>
     (case next_action ev s of
        Some (Login (CreateLease q)) \<Rightarrow> list_all (\<lambda>x. \<not> late_report (sy_world s) (lq_account q) x) (in_flight s)
      | _ \<Rightarrow> True)"

fun orderly_run :: "lease_env \<Rightarrow> nat \<Rightarrow> lease_event list \<Rightarrow> lease_system \<Rightarrow> bool" where
  "orderly_run env m [] s \<longleftrightarrow> True"
| "orderly_run env m (ev # evs) s \<longleftrightarrow> orderly_step ev s \<and> orderly_run env m evs (lease_step env m ev s)"

lemma orderly_run_append:
  "orderly_run env m (es @ fs) s \<longleftrightarrow> orderly_run env m es s \<and> orderly_run env m fs (lease_run env m es s)"
  by (induction es arbitrary: s) auto

section \<open>The invariant\<close>

text \<open>
  Leases that threads are about exist, reports of an end are true, an active lease
  is in the registry and is what the index gives for its account, and where a
  report is late no lease of the account is active.
\<close>

definition report_true :: "lease_world \<Rightarrow> action \<Rightarrow> bool" where
  "report_true w x \<longleftrightarrow>
     (\<forall>l s. x = Shared (Deliver l s) \<longrightarrow> lease_over s \<longrightarrow> lease_over (ls_status (the_lease w l)))"

definition report_harmless :: "lease_world \<Rightarrow> action \<Rightarrow> bool" where
  "report_harmless w x \<longleftrightarrow> (\<forall>a l. late_report w a x \<longrightarrow> \<not> lease_active w a l)"

definition indexed :: "lease_world \<Rightarrow> bool" where
  "indexed w \<longleftrightarrow> (\<forall>a l. lease_active w a l \<longrightarrow> l \<in> set (lw_registry w) \<and> dict_get (lw_active w) a = Some l)"

definition keyed :: "lease_world \<Rightarrow> bool" where
  "keyed w \<longleftrightarrow> (\<forall>a l. dict_get (lw_active w) a = Some l \<longrightarrow>
     l < length (lw_leases w) \<and> ls_account (the_lease w l) = a)"

definition registry_inv :: "lease_system \<Rightarrow> bool" where
  "registry_inv s \<longleftrightarrow>
     (let w = sy_world s in
      (\<forall>l\<in>set (lw_registry w). l < length (lw_leases w)) \<and> indexed w \<and> keyed w
      \<and> (\<forall>x\<in>set (in_flight s). (\<forall>l. act_lease x = Some l \<longrightarrow> l < length (lw_leases w))
           \<and> report_true w x \<and> report_harmless w x))"

lemma registry_invD:
  assumes "registry_inv s"
  shows "l \<in> set (lw_registry (sy_world s)) \<Longrightarrow> l < length (lw_leases (sy_world s))"
    and "indexed (sy_world s)"
    and "x \<in> set (in_flight s) \<Longrightarrow> act_lease x = Some l \<Longrightarrow> l < length (lw_leases (sy_world s))"
    and "x \<in> set (in_flight s) \<Longrightarrow> report_true (sy_world s) x"
    and "x \<in> set (in_flight s) \<Longrightarrow> report_harmless (sy_world s) x"
    and "keyed (sy_world s)"
  using assms unfolding registry_inv_def Let_def by blast+

lemma registry_inv_start: "registry_inv start_system"
  by (simp add: registry_inv_def start_system_def empty_lease_world_def in_flight_def indexed_def
      keyed_def lease_active_def)

lemma indexed_unique: "indexed w \<Longrightarrow> lease_active w a l \<Longrightarrow> lease_active w a k \<Longrightarrow> l = k"
  unfolding indexed_def by (metis option.inject)

lemma find_upt_unique:
  assumes "P k" and "k < n" and "\<And>l. P l \<Longrightarrow> l < n \<Longrightarrow> l = k"
  shows "find P [0..<n] = Some k"
proof -
  have "find P [0..<n] \<noteq> None" using assms(1,2) by (auto simp: find_None_iff)
  then obtain j where j: "find P [0..<n] = Some j" by blast
  then have "P j" "j < n" by (auto simp: find_Some_iff)
  then show ?thesis using j assms(3) by simp
qed

lemma holders_of_None: "holders_of w a = None \<longleftrightarrow> (\<forall>l. \<not> lease_active w a l)"
  unfolding holders_of_def by (auto simp: find_None_iff lease_active_def)

lemma holders_of_Some:
  assumes "indexed w"
  shows "holders_of w a = Some l \<longleftrightarrow> lease_active w a l"
proof
  assume "holders_of w a = Some l"
  then show "lease_active w a l" by (auto simp: holders_of_def find_Some_iff)
next
  assume *: "lease_active w a l"
  then have "l < length (lw_leases w)" by (simp add: lease_active_def)
  then show "holders_of w a = Some l" unfolding holders_of_def
    using * indexed_unique [OF assms] by (intro find_upt_unique) auto
qed

lemma holders_same:
  assumes "indexed w" and "indexed w'" and "\<And>l. lease_active w' a l \<longleftrightarrow> lease_active w a l"
  shows "holders_of w' a = holders_of w a"
proof (cases "holders_of w a")
  case None
  then have "\<forall>l. \<not> lease_active w' a l" using assms(3) by (simp add: holders_of_None)
  then have "holders_of w' a = None" by (simp add: holders_of_None)
  then show ?thesis using None by simp
next
  case (Some l)
  then have "lease_active w' a l" using holders_of_Some [OF assms(1)] assms(3) by blast
  then have "holders_of w' a = Some l" using holders_of_Some [OF assms(2)] by blast
  then show ?thesis using Some by simp
qed

lemma active_lease_iff:
  assumes "indexed w" and "\<And>l. l \<in> set (lw_registry w) \<Longrightarrow> l < length (lw_leases w)"
  shows "active_lease w a = None \<longrightarrow> (\<forall>l. \<not> lease_active w a l)"
  using assms unfolding indexed_def active_lease_def lease_active_def
  by (auto split: option.splits if_splits)

section \<open>Every orderly step keeps it\<close>

lemma moved_over:
  assumes "world_moves w w'" and "l < length (lw_leases w)"
  shows "lease_over (ls_status (the_lease w l)) \<Longrightarrow> ls_status (the_lease w' l) = ls_status (the_lease w l)"
    and "ls_account (the_lease w' l) = ls_account (the_lease w l)"
    and "ls_task (the_lease w' l) = ls_task (the_lease w l)"
    and "l < length (lw_leases w')"
  using assms unfolding world_moves_def extends_def lease_moves_def by auto

lemma moved_active:
  assumes "world_moves w w'" and "l < length (lw_leases w)" and "lease_active w' a l"
  shows "lease_active w a l"
  using moved_over [OF assms(1,2)] assms(2,3) unfolding lease_active_def by metis

lemma in_flight_head:
  assumes "n < length (sy_threads s)" and "sy_threads s ! n = a # rest"
  shows "a \<in> set (in_flight s)" and "set rest \<subseteq> set (in_flight s)"
proof -
  have th: "a # rest \<in> set (sy_threads s)" using assms by (metis nth_mem)
  show "a \<in> set (in_flight s)" unfolding in_flight_def set_concat by (rule UN_I [OF th]) simp
  show "set rest \<subseteq> set (in_flight s)"
    unfolding in_flight_def set_concat by (rule subsetI, rule UN_I [OF th]) simp
qed

lemma in_flight_update:
  assumes "n < length (sy_threads s)" and "sy_threads s ! n = a # rest" and "set rs \<subseteq> set rest"
  shows "set (concat ((sy_threads s)[n := xs @ rs])) \<subseteq> set xs \<union> set (in_flight s)"
proof -
  have "set (concat ((sy_threads s)[n := xs @ rs])) \<subseteq> set (xs @ rs) \<union> set (in_flight s)"
    using set_update_subset_insert [of "sy_threads s" n "xs @ rs"] unfolding in_flight_def by fastforce
  then show ?thesis using assms(3) in_flight_head(2) [OF assms(1,2)] by auto
qed

definition action_inv :: "lease_world \<Rightarrow> action \<Rightarrow> bool" where
  "action_inv w x \<longleftrightarrow> (\<forall>l. act_lease x = Some l \<longrightarrow> l < length (lw_leases w))
     \<and> report_true w x \<and> report_harmless w x"

lemma registry_invI:
  assumes "\<And>l. l \<in> set (lw_registry w) \<Longrightarrow> l < length (lw_leases w)" and "indexed w"
    and "keyed w" and "set (concat ts) \<subseteq> A" and "\<And>x. x \<in> A \<Longrightarrow> action_inv w x"
  shows "registry_inv \<lparr>sy_threads = ts, sy_world = w\<rparr>"
  using assms unfolding registry_inv_def Let_def in_flight_def action_inv_def by (simp; blast)

lemma quiet_inv:
  assumes inv: "registry_inv s" and n: "n < length (sy_threads s)" "sy_threads s ! n = a # rest"
    and quiet: "\<not> is_report a" "\<not> is_create a"
    and w': "w' = after (perform env m i a (sy_world s))"
    and ts: "ts = (sy_threads s)[n := planned (perform env m i a (sy_world s)) @ rs]" "set rs \<subseteq> set rest"
  shows "registry_inv \<lparr>sy_threads = ts, sy_world = w'\<rparr>"
proof -
  let ?w = "sy_world s"
  have mv: "world_moves ?w w'" using w' perform_moves by simp
  have ix: "lw_registry w' = lw_registry ?w" "lw_active w' = lw_active ?w"
    "length (lw_leases w') = length (lw_leases ?w)"
    using perform_indexes [OF quiet, of env m i ?w] w' by (simp_all add: indexes_def)
  note a = in_flight_head [OF n]
  note D = registry_invD [OF inv]
  have idx: "indexed w'"
    unfolding indexed_def
  proof (intro allI impI)
    fix b l assume "lease_active w' b l"
    moreover from this have "l < length (lw_leases ?w)" using ix by (simp add: lease_active_def)
    ultimately have "lease_active ?w b l" using moved_active [OF mv] by blast
    then show "l \<in> set (lw_registry w') \<and> dict_get (lw_active w') b = Some l"
      using D(2) ix unfolding indexed_def by simp
  qed
  have old: "action_inv w' x"
    if x: "x \<in> set (in_flight s)" for x
    unfolding action_inv_def
  proof (intro conjI)
    show "\<forall>l. act_lease x = Some l \<longrightarrow> l < length (lw_leases w')" using D(3) [OF x] ix by simp
    show "report_true w' x"
      unfolding report_true_def
    proof (intro allI impI)
      fix l st assume r: "x = Shared (Deliver l st)" "lease_over st"
      then have "l < length (lw_leases ?w)" using D(3) [OF x] by simp
      moreover have "lease_over (ls_status (the_lease ?w l))" using D(4) [OF x] r by (simp add: report_true_def)
      ultimately show "lease_over (ls_status (the_lease w' l))" using moved_over(1) [OF mv] by metis
    qed
    show "report_harmless w' x"
      unfolding report_harmless_def
    proof (intro allI impI notI)
      fix b k assume late: "late_report w' b x" and act: "lease_active w' b k"
      then obtain l st where r: "x = Shared (Deliver l st)" "\<not> lease_over st"
          "lease_over (ls_status (the_lease w' l))" "ls_account (the_lease w' l) = b"
        by (cases "(w', b, x)" rule: late_report.cases) auto
      have l: "l < length (lw_leases ?w)" using D(3) [OF x] r by simp
      have k: "lease_active ?w b k" using moved_active [OF mv _ act] act ix by (simp add: lease_active_def)
      show False
      proof (cases "lease_over (ls_status (the_lease ?w l))")
        case True
        then have "late_report ?w b x" using r moved_over(2) [OF mv l] by simp
        then show False using D(5) [OF x] k by (auto simp: report_harmless_def)
      next
        case False
        then have "lease_active ?w b l" using l r moved_over(2) [OF mv l] by (simp add: lease_active_def)
        then have "l = k" using indexed_unique [OF D(2)] k by blast
        then show False using act r(3) by (simp add: lease_active_def)
      qed
    qed
  qed
  have new: "action_inv w' x"
    if x: "x \<in> set (planned (perform env m i a ?w))" for x
    unfolding action_inv_def
  proof (intro conjI)
    show "\<forall>l. act_lease x = Some l \<longrightarrow> l < length (lw_leases w')"
      using perform_plan(1) [OF quiet(2) x] D(1) D(3) [OF a(1)] ix by auto
    have "is_report x \<Longrightarrow> \<exists>l. a = Shared (Announce l) \<and> x = Shared (Deliver l (ls_status (the_lease ?w l)))"
      using perform_plan(2) [OF quiet(2) x] .
    then have r: "x = Shared (Deliver l st) \<Longrightarrow> st = ls_status (the_lease w' l)" for l st
      using w' by (cases "is_report x") auto
    show "report_true w' x" using r by (auto simp: report_true_def)
    show "report_harmless w' x" using r unfolding report_harmless_def
      by (cases x rule: is_report.cases) auto
  qed
  show ?thesis
    unfolding ts(1)
  proof (rule registry_invI [OF _ idx _ in_flight_update [OF n ts(2)]])
    show "keyed w'" using D(6) ix moved_over(2) [OF mv] unfolding keyed_def by auto
    show "l < length (lw_leases w')" if "l \<in> set (lw_registry w')" for l using D(1) ix that by simp
    show "action_inv w' x" if "x \<in> set (planned (perform env m i a ?w)) \<union> set (in_flight s)" for x
      using old new that by blast
  qed
qed

lemma report_inv:
  assumes inv: "registry_inv s" and n: "n < length (sy_threads s)" "sy_threads s ! n = Shared (Deliver l st) # rest"
    and w': "w' = lease_changed l st (sy_world s)"
  shows "registry_inv \<lparr>sy_threads = (sy_threads s)[n := rest], sy_world = w'\<rparr>"
proof -
  let ?w = "sy_world s"
  note D = registry_invD [OF inv]
  have same: "lw_leases w' = lw_leases ?w" "lw_registry w' = lw_registry ?w"
    by (simp_all add: w' lease_changed_def Let_def)
  have x: "Shared (Deliver l st) \<in> set (in_flight s)"
    by (rule in_flight_head [OF n])
  have active: "lease_active w' = lease_active ?w" by (simp add: lease_active_def same fun_eq_iff)
  have idx: "indexed w'"
    unfolding indexed_def active
  proof (intro allI impI conjI)
    fix a k assume k: "lease_active ?w a k"
    then have ix: "k \<in> set (lw_registry ?w)" "dict_get (lw_active ?w) a = Some k"
      using D(2) unfolding indexed_def by blast+
    show "k \<in> set (lw_registry w')" using ix same by simp
    show "dict_get (lw_active w') a = Some k"
    proof (cases "lease_over st")
      case True
      then have "lease_over (ls_status (the_lease ?w l))" using D(4) [OF x] by (simp add: report_true_def)
      then have "k \<noteq> l" using k by (auto simp: lease_active_def)
      then show ?thesis using True ix by (auto simp: w' lease_changed_def Let_def)
    next
      case False
      show ?thesis
      proof (cases "a = ls_account (the_lease ?w l)")
        case True
        then have "\<not> late_report ?w a (Shared (Deliver l st))"
          using D(5) [OF x] k unfolding report_harmless_def by blast
        then have "lease_active ?w a l" using False True D(3) [OF x] by (auto simp: lease_active_def)
        then have "l = k" using indexed_unique [OF D(2)] k by blast
        then show ?thesis using False True by (simp add: w' lease_changed_def Let_def)
      next
        case other: False
        then show ?thesis using False ix by (simp add: w' lease_changed_def Let_def)
      qed
    qed
  qed
  have late: "late_report w' = late_report ?w"
  proof (intro ext)
    fix a y show "late_report w' a y = late_report ?w a y"
      by (cases "(w', a, y)" rule: late_report.cases) (simp_all add: same)
  qed
  have "action_inv w' y = action_inv ?w y" for y
    by (simp add: action_inv_def report_true_def report_harmless_def late active same)
  moreover have "action_inv ?w y" if "y \<in> set (in_flight s)" for y
    unfolding action_inv_def using D(3-5) [OF that] by blast
  ultimately have ok: "action_inv w' y" if "y \<in> set (in_flight s)" for y using that by blast
  show ?thesis
  proof (rule registry_invI [OF _ idx])
    show "set (concat ((sy_threads s)[n := rest])) \<subseteq> set (in_flight s)"
      using in_flight_update [OF n order_refl, of "[]"] by simp
    show "keyed w'"
      unfolding keyed_def same
    proof (intro allI impI)
      fix b k assume "dict_get (lw_active w') b = Some k"
      then have "dict_get (lw_active ?w) b = Some k \<or> b = ls_account (the_lease ?w l) \<and> k = l"
        by (auto simp: w' lease_changed_def Let_def split: if_splits)
      then show "k < length (lw_leases ?w) \<and> ls_account (the_lease ?w k) = b"
      proof
        assume "dict_get (lw_active ?w) b = Some k"
        then show ?thesis using D(6) unfolding keyed_def by blast
      next
        assume "b = ls_account (the_lease ?w l) \<and> k = l"
        then show ?thesis using D(3) [OF x] by simp
      qed
    qed
    show "k < length (lw_leases w')" if "k \<in> set (lw_registry w')" for k using D(1) that by (simp add: same)
  qed (rule ok)
qed

lemma trimmed_registry_keeps:
  assumes "l \<in> set (lw_registry w)" and "\<not> lease_over (ls_status (the_lease w l))"
  shows "l \<in> set (trimmed_registry env w)"
  using assms by (auto simp: trimmed_registry_def Let_def dest: in_set_takeD)

lemma trimmed_registry_subset: "set (trimmed_registry env w) \<subseteq> set (lw_registry w)"
  by (auto simp: trimmed_registry_def Let_def)

lemma create_lease_Some:
  assumes "create_lease env now q w = (Some l, w')"
  shows "l = length (lw_leases w)" "active_lease w (lq_account q) = None"
    "\<exists>x. lw_leases w' = lw_leases w @ [x] \<and> ls_account x = lq_account q \<and> ls_status x = Reserved"
    "lw_active w' = dict_set (lq_account q) l (lw_active w)"
    "l \<in> set (lw_registry w')" "set (lw_registry w') \<subseteq> insert l (set (lw_registry w))"
    "\<And>k. k \<in> set (lw_registry w) \<Longrightarrow> k < length (lw_leases w) \<Longrightarrow>
       \<not> lease_over (ls_status (the_lease w k)) \<Longrightarrow> k \<in> set (lw_registry w')"
proof -
  define w1 where "w1 = w\<lparr>lw_leases := lw_leases w @ [new_lease now (dict_get (lw_profiles w) (lq_account q) \<noteq> None)
      (lq_task q) (lq_account q) (lq_email q) (lq_header q) (lq_token q) (lq_device q)],
      lw_registry := lw_registry w @ [length (lw_leases w)],
      lw_active := dict_set (lq_account q) (length (lw_leases w)) (lw_active w)\<rparr>"
  have none: "active_lease w (lq_account q) = None"
    and w': "l = length (lw_leases w)" "w' = w1\<lparr>lw_registry := trimmed_registry env w1\<rparr>"
    using assms by (auto simp: create_lease_def Let_def w1_def split: if_splits)
  show "active_lease w (lq_account q) = None" by (rule none)
  show "l = length (lw_leases w)" by (rule w')
  show "\<exists>x. lw_leases w' = lw_leases w @ [x] \<and> ls_account x = lq_account q \<and> ls_status x = Reserved"
    by (simp add: w'(2) w1_def new_lease_def)
  show "lw_active w' = dict_set (lq_account q) l (lw_active w)" by (simp add: w' w1_def)
  have "l \<in> set (lw_registry w1)" "\<not> lease_over (ls_status (the_lease w1 l))"
    by (simp_all add: w1_def w'(1) new_lease_def)
  then show "l \<in> set (lw_registry w')" using trimmed_registry_keeps by (simp add: w'(2))
  show "set (lw_registry w') \<subseteq> insert l (set (lw_registry w))"
    using trimmed_registry_subset [of env w1] by (auto simp: w'(2) w1_def w'(1))
  show "k \<in> set (lw_registry w')" if "k \<in> set (lw_registry w)" "k < length (lw_leases w)"
      "\<not> lease_over (ls_status (the_lease w k))" for k
    using that trimmed_registry_keeps [of k w1 env] by (simp add: w'(2) w1_def nth_append)
qed

lemma create_inv:
  assumes inv: "registry_inv s" and n: "n < length (sy_threads s)" "sy_threads s ! n = Login (CreateLease q) # rest"
    and created: "create_lease env now q (sy_world s) = (Some l, w')"
    and orderly: "list_all (\<lambda>x. \<not> late_report (sy_world s) (lq_account q) x) (in_flight s)"
    and ts: "ts = (sy_threads s)[n := [Shared (Announce l), Login (LoginStart l)] @ rest]"
  shows "registry_inv \<lparr>sy_threads = ts, sy_world = w'\<rparr>"
proof -
  let ?w = "sy_world s"
  note D = registry_invD [OF inv] and C = create_lease_Some [OF created]
  obtain x where x: "lw_leases w' = lw_leases ?w @ [x]" "ls_account x = lq_account q" "ls_status x = Reserved"
    using C(3) by blast
  have len: "length (lw_leases w') = Suc (length (lw_leases ?w))" using x by simp
  have at: "the_lease w' k = the_lease ?w k" if "k < length (lw_leases ?w)" for k
    using that x by (simp add: nth_append)
  have new: "the_lease w' l = x" using x C(1) by (simp add: nth_append)
  have none: "\<not> lease_active ?w (lq_account q) k" for k
    using active_lease_iff [OF D(2) D(1)] C(2) by blast
  have active: "lease_active w' b k \<longleftrightarrow> lease_active ?w b k \<or> b = lq_account q \<and> k = l" for b k
    using at new x(2,3) C(1) len unfolding lease_active_def
    by (cases "k < length (lw_leases ?w)"; cases "k = l") auto
  have idx: "indexed w'"
    unfolding indexed_def
  proof (intro allI impI)
    fix b k assume "lease_active w' b k"
    then consider (old) "lease_active ?w b k" "b \<noteq> lq_account q" | (fresh) "b = lq_account q" "k = l"
      using active none by blast
    then show "k \<in> set (lw_registry w') \<and> dict_get (lw_active w') b = Some k"
    proof cases
      case old
      then show ?thesis using D(2) C(4,7) unfolding indexed_def lease_active_def by auto
    qed (use C in simp)
  qed
  have ok: "action_inv w' y"
    if y: "y \<in> set (in_flight s)" for y
    unfolding action_inv_def
  proof (intro conjI)
    show "\<forall>k. act_lease y = Some k \<longrightarrow> k < length (lw_leases w')" using D(3) [OF y] len by auto
    have k: "y = Shared (Deliver k st) \<Longrightarrow> the_lease w' k = the_lease ?w k" for k st
      using D(3) [OF y] at by simp
    show "report_true w' y" using D(4) [OF y] k unfolding report_true_def by metis
    have late: "late_report w' b y = late_report ?w b y" for b
      using k by (cases "(w', b, y)" rule: late_report.cases) simp_all
    have "\<not> late_report ?w (lq_account q) y" using orderly y by (simp add: list_all_iff)
    then show "report_harmless w' y" using D(5) [OF y] unfolding report_harmless_def late active by blast
  qed
  have fresh: "action_inv w' y" if "y \<in> {Shared (Announce l), Login (LoginStart l)}" for y
    using that C(1) len by (auto simp: action_inv_def report_true_def report_harmless_def)
  show ?thesis
    unfolding ts
  proof (rule registry_invI [OF _ idx _ in_flight_update [OF n order_refl]])
    show "keyed w'" using D(6) C(1,4) at new x(2) len unfolding keyed_def
      by (auto simp: less_Suc_eq)
    show "k < length (lw_leases w')" if "k \<in> set (lw_registry w')" for k
      using that C(1,6) D(1) len by fastforce
    show "action_inv w' y" if "y \<in> set [Shared (Announce l), Login (LoginStart l)] \<union> set (in_flight s)" for y
      using ok fresh that by auto
  qed
qed

lemma registry_inv_step:
  assumes inv: "registry_inv s" and orderly: "orderly_step ev s"
  shows "registry_inv (lease_step env m ev s)"
proof (rule lease_step_cases [OF refl, of env m ev s])
  fix call assume new: "lease_step env m ev s = s\<lparr>sy_threads := sy_threads s @ [[call_action call]]\<rparr>"
  have act: "act_lease (call_action call) = None" "\<not> is_report (call_action call)" by (cases call; simp)+
  have "action_inv (sy_world s) (call_action call)"
    using act unfolding action_inv_def report_true_def report_harmless_def
    by (cases "call_action call" rule: is_report.cases) auto
  moreover have "action_inv (sy_world s) x" if "x \<in> set (in_flight s)" for x
    using registry_invD(3-5) [OF inv that] unfolding action_inv_def by blast
  ultimately have "registry_inv \<lparr>sy_threads = sy_threads s @ [[call_action call]], sy_world = sy_world s\<rparr>"
    using registry_invD(1,2,6) [OF inv]
    by (intro registry_invI [where A = "insert (call_action call) (set (in_flight s))"])
      (auto simp: in_flight_def)
  then show ?thesis using new by (cases s) simp
next
  fix n i a rest
  let ?s' = "lease_step env m ev s" and ?p = "perform env m i a (sy_world s)"
  assume act: "n < length (sy_threads s)" "sy_threads s ! n = a # rest"
    and ts: "sy_threads ?s' = (sy_threads s)[n := planned ?p @ (if fst ?p then [] else rest)]"
    and w: "sy_world ?s' = after ?p" and ev: "ev = RunThread n i"
  have "registry_inv \<lparr>sy_threads = (sy_threads s)[n := planned ?p @ (if fst ?p then [] else rest)],
      sy_world = after ?p\<rparr>"
  proof (cases "is_report a")
    case True
    then obtain l st where a: "a = Shared (Deliver l st)" by (cases a rule: is_report.cases) auto
    show ?thesis using report_inv [OF inv act(1) act(2) [unfolded a] refl] a by simp
  next
    case report: False
    show ?thesis
    proof (cases "is_create a")
      case True
      then obtain q where a: "a = Login (CreateLease q)" by (cases a rule: is_create.cases) auto
      have o: "list_all (\<lambda>x. \<not> late_report (sy_world s) (lq_account q) x) (in_flight s)"
        using orderly act a ev by (simp add: orderly_step_def next_action_def)
      obtain r w' where r: "create_lease env (in_now i) q (sy_world s) = (r, w')" by (metis surj_pair)
      show ?thesis
      proof (cases r)
        case None
        then have w': "w' = sy_world s" using r by (auto simp: create_lease_def Let_def split: if_splits)
        have "action_inv (sy_world s) x" if "x \<in> set (in_flight s)" for x
          using registry_invD(3-5) [OF inv that] unfolding action_inv_def by blast
        then have "registry_inv \<lparr>sy_threads = (sy_threads s)[n := [] @ []], sy_world = sy_world s\<rparr>"
          using in_flight_update [OF act, of "[]" "[]"] registry_invD(1,2,6) [OF inv]
          by (intro registry_invI [where A = "set (in_flight s)"]) auto
        then show ?thesis using a r None w' by (simp add: create_step_def)
      next
        case (Some l)
        show ?thesis using create_inv [OF inv act(1) act(2) [unfolded a] r [unfolded Some] o refl] a r Some
          by (simp add: create_step_def)
      qed
    next
      case False
      show ?thesis
        by (rule quiet_inv [OF inv act report False refl refl]) simp
    qed
  qed
  then show ?thesis using ts w by (cases ?s') simp
next
  assume "lease_step env m ev s = s"
  then show ?thesis using inv by simp
qed

lemma registry_inv_run:
  "registry_inv s \<Longrightarrow> orderly_run env m evs s \<Longrightarrow> registry_inv (lease_run env m evs s)"
  by (induction evs arbitrary: s) (auto intro: registry_inv_step)

section \<open>Statuses change in one place\<close>

definition statuses :: "lease_world \<Rightarrow> lease_status list" where
  "statuses w = map ls_status (lw_leases w)"

lemma statuses_upd_lease:
  "ls_status (f (the_lease w l)) = ls_status (the_lease w l) \<Longrightarrow> statuses (upd_lease l f w) = statuses w"
  unfolding statuses_def by (simp add: map_update) (metis list_update_id map_update)

lemma statuses_same [simp]:
  "statuses (upd_command c g w) = statuses w" "statuses (w\<lparr>lw_commands := cs\<rparr>) = statuses w"
  "statuses (w\<lparr>lw_profiles := ps\<rparr>) = statuses w" "statuses (w\<lparr>lw_next_page := n\<rparr>) = statuses w"
  "statuses (w\<lparr>lw_navigations := ns\<rparr>) = statuses w" "statuses (w\<lparr>lw_active := d\<rparr>) = statuses w"
  by (simp_all add: statuses_def)

lemma section_status [simp]:
  "ls_status (touched now x) = ls_status x" "ls_status (release_flagged now x) = ls_status x"
  "ls_status (remote_updated now st link qr u x) = ls_status x"
  "ls_status (invalid_link_noted now request job digest e x) = ls_status x"
  "ls_status (open_queued now c finished digest request job x) = ls_status x"
  "ls_status (tab_failure_noted now c cmd err ts x) = ls_status x"
  "ls_status (tab_opened now c request x) = ls_status x" "ls_status (tab_closed now x) = ls_status x"
  by (simp_all add: touched_def release_flagged_def remote_updated_def Let_def
      invalid_link_noted_def open_queued_def tab_failure_noted_def tab_opened_def tab_closed_def)

fun sets_status :: "action \<Rightarrow> bool" where
  "sets_status (Shared (SetStatus l s e)) = True"
| "sets_status _ = False"

lemma perform_statuses:
  assumes "\<not> is_create a" and "\<not> sets_status a"
  shows "statuses (after (perform env m i a w)) = statuses w"
proof (cases a)
  case (Shared b)
  then show ?thesis using assms by (cases b) (simp_all add: lease_changed_def fail_pending_def
      fail_command_def save_profile_def Let_def statuses_upd_lease split: list.split outcome.split)
next
  case (Request b)
  then show ?thesis by (cases b) (simp_all add: await_refresh_def await_open_def release_lease_def
      refresh_lease_def add_command_def Let_def update_remote_def open_gcash_def open_queue_def
      statuses_upd_lease split: option.split sum.split list.split)
next
  case (Login b)
  then show ?thesis using assms by (cases b) (simp_all add: leave_browser_def statuses_upd_lease
      split: option.split raised.split)
next
  case (Hold b)
  then show ?thesis by (cases b) (simp_all add: publish_def outside_call_def page_check_def Let_def
      statuses_upd_lease split: option.split list.split)
next
  case (Command b)
  then show ?thesis by (cases b) (simp_all add: begin_command_def raise_command_def Let_def open_start_def
      open_go_def open_settled_def open_answer_def command_raised_def end_command_def outside_call_def
      statuses_upd_lease split: option.split raised.split sum.split bool.split)
qed

lemma lease_active_statuses:
  assumes "world_moves w w'" and "length (lw_leases w') = length (lw_leases w)" and "statuses w' = statuses w"
  shows "lease_active w' = lease_active w"
proof (intro ext)
  fix a l
  have "ls_status (the_lease w' l) = ls_status (the_lease w l)" if "l < length (lw_leases w)"
    using that assms(2,3) unfolding statuses_def by (metis nth_map)
  then show "lease_active w' a l = lease_active w a l"
    using moved_over(2) [OF assms(1)] assms(2) unfolding lease_active_def by auto
qed

section \<open>The refinement\<close>

lemma holders_eqI:
  assumes "indexed w" and "indexed w'" and "lease_active w' = lease_active w"
  shows "holders_of w' = holders_of w"
  using holders_same [OF assms(1,2)] assms(3) by (intro ext) simp

lemma holders_set_status:
  assumes inv: "indexed (sy_world s)" and inv': "indexed w'"
    and l: "l < length (lw_leases (sy_world s))"
    and w': "w' = after (set_status now l st e (sy_world s))"
  shows "holders_of w' = holder_step (op_of_action (Shared (SetStatus l st e)) (sy_world s)) (holders_of (sy_world s))"
proof -
  let ?w = "sy_world s" and ?a = "ls_account (the_lease (sy_world s) l)"
  have mv: "world_moves ?w w'" using set_status_moves w' by simp
  have len: "length (lw_leases w') = length (lw_leases ?w)" by (simp add: w' set_status_def)
  have other: "the_lease w' k = the_lease ?w k" if "k \<noteq> l" for k
    using that by (simp add: w' set_status_def)
  show ?thesis
  proof (cases "lease_over (ls_status (the_lease ?w l)) \<or> \<not> lease_over st")
    case True
    have "lease_over (ls_status (the_lease w' l)) = lease_over (ls_status (the_lease ?w l))"
      using True l by (auto simp: w' set_status_def transition_refused_def)
    then have "lease_active w' = lease_active ?w"
      using other len moved_over(2) [OF mv l] unfolding lease_active_def fun_eq_iff by metis
    then have same: "holders_of w' = holders_of ?w" by (rule holders_eqI [OF inv inv'])
    have "holders_of ?w ?a \<noteq> Some l" if "lease_over (ls_status (the_lease ?w l))"
      using that by (simp add: holders_of_Some [OF inv] lease_active_def)
    then show ?thesis using True same by auto
  next
    case False
    then have st: "lease_over st" "lease_active ?w ?a l" using l by (auto simp: lease_active_def)
    have "ls_status (the_lease w' l) = st"
      using False l by (auto simp: w' set_status_def transition_refused_def)
    then have act: "lease_active w' a k \<longleftrightarrow> lease_active ?w a k \<and> k \<noteq> l" for a k
      using st other [of k] len unfolding lease_active_def by (cases "k = l") auto
    have "holders_of ?w ?a = Some l" using holders_of_Some [OF inv] st(2) by blast
    moreover have "holders_of w' a = (if a = ?a then None else holders_of ?w a)" for a
    proof (cases "a = ?a")
      case True
      then show ?thesis using act indexed_unique [OF inv st(2)] by (auto simp: holders_of_None)
    next
      case False
      then have "lease_active w' a k = lease_active ?w a k" for k
        using act by (auto simp: lease_active_def)
      then have "holders_of w' a = holders_of ?w a" by (rule holders_same [OF inv inv'])
      then show ?thesis using False by simp
    qed
    ultimately show ?thesis using st(1) by (simp add: fun_eq_iff)
  qed
qed

lemma holders_create:
  assumes inv: "registry_inv s" and inv': "indexed w'"
    and created: "create_lease env now q (sy_world s) = (r, w')"
  shows "holders_of w' = holder_step (Acquire (lq_account q) (length (lw_leases (sy_world s)))) (holders_of (sy_world s))"
proof -
  let ?w = "sy_world s" and ?a = "lq_account q"
  note D = registry_invD [OF inv]
  show ?thesis
  proof (cases r)
    case None
    then have same: "w' = ?w" and some: "active_lease ?w ?a \<noteq> None"
      using created by (auto simp: create_lease_def Let_def split: if_splits)
    from some obtain l where "dict_get (lw_active ?w) ?a = Some l" "\<not> lease_over (ls_status (the_lease ?w l))"
      by (auto simp: active_lease_def split: option.splits if_splits)
    then have "lease_active ?w ?a l" using D(6) by (auto simp: keyed_def lease_active_def)
    then have "holders_of ?w ?a = Some l" using holders_of_Some [OF D(2)] by blast
    then show ?thesis using same by simp
  next
    case (Some l)
    note C = create_lease_Some [OF created [unfolded Some]]
    obtain x where x: "lw_leases w' = lw_leases ?w @ [x]" "ls_account x = ?a" "ls_status x = Reserved"
      using C(3) by blast
    have none: "\<not> lease_active ?w ?a k" for k
      using active_lease_iff [OF D(2) D(1)] C(2) by blast
    have at: "the_lease w' k = the_lease ?w k" if "k < length (lw_leases ?w)" for k
      using that x by (simp add: nth_append)
    have new: "the_lease w' l = x" using x C(1) by (simp add: nth_append)
    have act: "lease_active w' b k \<longleftrightarrow> lease_active ?w b k \<or> b = ?a \<and> k = l" for b k
      using at new x C(1) unfolding lease_active_def
      by (cases "k < length (lw_leases ?w)"; cases "k = l") auto
    have "holders_of w' b = (if b = ?a then Some l else holders_of ?w b)" for b
    proof (cases "b = ?a")
      case True
      then show ?thesis using holders_of_Some [OF inv'] act by auto
    next
      case False
      then have "lease_active w' b k = lease_active ?w b k" for k using act by auto
      then have "holders_of w' b = holders_of ?w b" by (rule holders_same [OF D(2) inv'])
      then show ?thesis using False by simp
    qed
    moreover have "holders_of ?w ?a = None" using none by (simp add: holders_of_None)
    ultimately show ?thesis using C(1) by (simp add: fun_eq_iff)
  qed
qed

lemma step_refines:
  assumes inv: "registry_inv s" and inv': "registry_inv (lease_step env m ev s)"
  shows "holders_of (sy_world (lease_step env m ev s))
    = holder_step (holder_op_of ev s) (holders_of (sy_world s))"
proof (rule lease_step_cases [OF refl, of env m ev s])
  fix call assume "lease_step env m ev s = s\<lparr>sy_threads := sy_threads s @ [[call_action call]]\<rparr>"
    and "ev = NewThread call"
  then show ?thesis by (simp add: holder_op_of_def next_action_def)
next
  fix n i a rest
  let ?w = "sy_world s" and ?w' = "sy_world (lease_step env m ev s)"
  assume act: "n < length (sy_threads s)" "sy_threads s ! n = a # rest"
    and w: "?w' = after (perform env m i a ?w)" and ev: "ev = RunThread n i"
  have op: "holder_op_of ev s = op_of_action a ?w" using act ev by (simp add: holder_op_of_def next_action_def)
  note D = registry_invD [OF inv] and D' = registry_invD(2) [OF inv']
  consider (create) q where "a = Login (CreateLease q)" | (status) l st e where "a = Shared (SetStatus l st e)"
    | (other) "\<not> is_create a" "\<not> sets_status a"
    by (cases a rule: is_create.cases; cases a rule: sets_status.cases) auto
  then show ?thesis
  proof cases
    case create
    obtain r w1 where r: "create_lease env (in_now i) q ?w = (r, w1)" by (metis surj_pair)
    then have "?w' = w1" using w create by (cases r) (simp_all add: create_step_def)
    then show ?thesis using holders_create [OF inv _ r] D' op create by simp
  next
    case status
    have "l < length (lw_leases ?w)" using D(3) [OF in_flight_head(1) [OF act]] status by simp
    then show ?thesis using holders_set_status [OF D(2) D'] w op status by simp
  next
    case other
    have op': "op_of_action a ?w = NoChange" using other by (cases "(a, ?w)" rule: op_of_action.cases) auto
    have mv: "world_moves ?w ?w'" by (rule lease_step_moves)
    have st: "statuses ?w' = statuses ?w" using w perform_statuses [OF other] by simp
    then have "length (lw_leases ?w') = length (lw_leases ?w)" unfolding statuses_def by (metis length_map)
    then have "holders_of ?w' = holders_of ?w"
      using holders_eqI [OF D(2) D'] lease_active_statuses [OF mv] st by blast
    then show ?thesis using op op' by simp
  qed
next
  fix n i
  assume "lease_step env m ev s = s" and "ev = RunThread n i"
    and "n < length (sy_threads s) \<longrightarrow> sy_threads s ! n = []"
  then show ?thesis by (auto simp: holder_op_of_def next_action_def)
qed

end
