(* ===== verification/LeaseCommands.thy ===== *)
theory LeaseCommands
  imports LeaseHolders Contracts
begin

text \<open>
  The commands of a lease: every number a queue, a history or a thread holds is a
  command there is; a history has one entry for a remote request, at most one
  unfinished command and at most as many entries as the limit.
\<close>

section \<open>Trimming the history\<close>

lemma trim_commands_props:
  assumes "dict_ok d" and "length (filter (\<lambda>(r, c). \<not> finished c) d) \<le> 1"
  shows "length (trim_commands finished d) \<le> command_history_limit
    \<and> set (trim_commands finished d) \<subseteq> set d \<and> dict_ok (trim_commands finished d)
    \<and> length (filter (\<lambda>(r, c). \<not> finished c) (trim_commands finished d)) \<le> 1"
  using assms
proof (induction finished d rule: trim_commands.induct)
  case (1 finished d)
  show ?case
  proof (cases "length d \<le> command_history_limit")
    case True
    then have "trim_commands finished d = d" by (subst trim_commands.simps) simp
    then show ?thesis using True 1 by simp
  next
    case long: False
    show ?thesis
    proof (cases "find (\<lambda>(r, c). finished c) d")
      case None
      then have "filter (\<lambda>(r, c). \<not> finished c) d = d"
        by (intro filter_True) (auto simp: find_None_iff)
      then have "length d \<le> 1" using 1(3) by simp
      then show ?thesis using long by (simp add: command_history_limit_def)
    next
      case (Some p)
      obtain r c where p: "p = (r, c)" by (cases p) auto
      have "set (dict_pop r d) \<subseteq> set d" by (auto simp: set_dict_pop)
      moreover have "length (filter (\<lambda>(r, c). \<not> finished c) (dict_pop r d)) \<le> 1"
      proof -
        have "filter (\<lambda>(r, c). \<not> finished c) (dict_pop r d)
            = filter (\<lambda>q. r \<noteq> fst q) (filter (\<lambda>(r, c). \<not> finished c) d)"
          unfolding AList.delete_eq by (simp add: conj_commute case_prod_beta)
        then show ?thesis using 1(3) by (metis (lifting) length_filter_le order_trans)
      qed
      moreover have "trim_commands finished d = trim_commands finished (dict_pop r d)"
        using long Some p by (subst trim_commands.simps) simp
      ultimately show ?thesis using 1(1) [OF long Some p [symmetric]] 1(2) by auto
    qed
  qed
qed

section \<open>Well-formed leases\<close>

definition history_ok :: "lease_command list \<Rightarrow> (string, nat) dict \<Rightarrow> bool" where
  "history_ok cs d \<longleftrightarrow> dict_ok d \<and> (\<forall>(r, c)\<in>set d. c < length cs \<and> cm_request (cs ! c) = r)
     \<and> length d \<le> command_history_limit \<and> length (filter (\<lambda>(r, c). \<not> cm_done (cs ! c)) d) \<le> 1"

definition lease_ok :: "lease_command list \<Rightarrow> lease \<Rightarrow> bool" where
  "lease_ok cs x \<longleftrightarrow> (\<forall>c\<in>set (ls_queue x). c < length cs) \<and> (\<forall>c. ls_current x = Some c \<longrightarrow> c < length cs)
     \<and> history_ok cs (ls_commands x)"

definition commands_ok :: "lease_world \<Rightarrow> bool" where
  "commands_ok w \<longleftrightarrow> (\<forall>x\<in>set (lw_leases w). lease_ok (lw_commands w) x)"

lemma history_ok_moves:
  assumes "extends command_moves cs ds" and "history_ok cs d"
  shows "history_ok ds d"
proof -
  have m: "c < length ds \<and> cm_request (ds ! c) = cm_request (cs ! c) \<and> (cm_done (cs ! c) \<longrightarrow> cm_done (ds ! c))"
    if "c < length cs" for c
    using that assms(1) unfolding extends_def command_moves_def by auto
  have "filter (\<lambda>(r, c). \<not> cm_done (ds ! c)) d
      = filter (\<lambda>(r, c). \<not> cm_done (ds ! c)) (filter (\<lambda>(r, c). \<not> cm_done (cs ! c)) d)"
    using assms(2) m unfolding history_ok_def by (auto intro!: filter_cong)
  then have "length (filter (\<lambda>(r, c). \<not> cm_done (ds ! c)) d) \<le> length (filter (\<lambda>(r, c). \<not> cm_done (cs ! c)) d)"
    by (metis length_filter_le)
  then show ?thesis using assms(2) m unfolding history_ok_def by fastforce
qed

lemma lease_ok_moves: "extends command_moves cs ds \<Longrightarrow> lease_ok cs x \<Longrightarrow> lease_ok ds x"
  using history_ok_moves unfolding lease_ok_def extends_def by (metis order_less_le_trans)

lemma lease_ok_same:
  "ls_queue y = ls_queue x \<Longrightarrow> ls_current y = ls_current x \<Longrightarrow> ls_commands y = ls_commands x \<Longrightarrow>
    lease_ok cs y = lease_ok cs x"
  by (simp add: lease_ok_def)

lemma commands_ok_moves:
  "lw_leases w' = lw_leases w \<Longrightarrow> extends command_moves (lw_commands w) (lw_commands w') \<Longrightarrow>
    commands_ok w \<Longrightarrow> commands_ok w'"
  using lease_ok_moves unfolding commands_ok_def by metis

lemma commands_ok_upd_command:
  assumes "commands_ok w" and "command_moves (the_command w c) (g (the_command w c))"
  shows "commands_ok (upd_command c g w)"
proof (rule commands_ok_moves [OF _ _ assms(1)])
  show "extends command_moves (lw_commands w) (lw_commands (upd_command c g w))"
    using assms(2) by (simp add: extends_update)
qed simp

lemma commands_ok_upd_lease:
  assumes "commands_ok w"
    and "l < length (lw_leases w) \<Longrightarrow> lease_ok (lw_commands w) (the_lease w l) \<Longrightarrow>
      lease_ok (lw_commands w) (f (the_lease w l))"
  shows "commands_ok (upd_lease l f w)"
proof (cases "l < length (lw_leases w)")
  case True
  then show ?thesis using assms set_update_subset_insert [of "lw_leases w" l "f (the_lease w l)"]
    unfolding commands_ok_def by auto
next
  case False
  then have "lw_leases (upd_lease l f w) = lw_leases w" by (simp add: list_update_beyond)
  then show ?thesis using assms(1) unfolding commands_ok_def by simp
qed

lemma commands_ok_lease: "commands_ok w \<Longrightarrow> l < length (lw_leases w) \<Longrightarrow> lease_ok (lw_commands w) (the_lease w l)"
  by (simp add: commands_ok_def)

section \<open>The commands of an action\<close>

fun shared_command :: "shared_action \<Rightarrow> nat option" where
  "shared_command (FailCommand l c t st) = Some c"
| "shared_command (FinishCommand c) = Some c"
| "shared_command (PutCommand l c) = Some c"
| "shared_command _ = None"

fun request_command :: "request_action \<Rightarrow> nat option" where
  "request_command (AwaitRefresh c) = Some c"
| "request_command (AwaitOpen l c) = Some c"
| "request_command _ = None"

fun place_command :: "place \<Rightarrow> nat option" where
  "place_command (InsideCommand c) = Some c"
| "place_command _ = None"

fun hold_command :: "hold_action \<Rightarrow> nat option" where
  "hold_command (Publish l p) = place_command p"
| "hold_command (LogLine l p) = place_command p"
| "hold_command _ = None"

fun command_number :: "command_action \<Rightarrow> nat" where
  "command_number (BeginCommand l c) = c"
| "command_number (SetCurrent l c) = c"
| "command_number (RefreshStart l c) = c"
| "command_number (RefreshRead l c) = c"
| "command_number (RefreshStore l c) = c"
| "command_number (RefreshCount l c) = c"
| "command_number (RefreshAnswer l c) = c"
| "command_number (OpenStart l c) = c"
| "command_number (OpenGo l c p u r) = c"
| "command_number (OpenSettled l c r) = c"
| "command_number (OpenAnswer l c r) = c"
| "command_number (CommandRaised l c e) = c"
| "command_number (EndCommand l c) = c"

fun act_command :: "action \<Rightarrow> nat option" where
  "act_command (Shared a) = shared_command a"
| "act_command (Request a) = request_command a"
| "act_command (Login a) = None"
| "act_command (Hold a) = hold_command a"
| "act_command (Command a) = Some (command_number a)"

text \<open>The actions hold no command but those below \<open>n\<close>.\<close>

definition below :: "nat \<Rightarrow> action list \<Rightarrow> bool" where
  "below n acts \<longleftrightarrow> (\<forall>a\<in>set acts. \<forall>c. act_command a = Some c \<longrightarrow> c < n)"

lemma below_simps [simp]:
  "below n []"
  "below n (a # as) \<longleftrightarrow> (\<forall>c. act_command a = Some c \<longrightarrow> c < n) \<and> below n as"
  "below n (as @ bs) \<longleftrightarrow> below n as \<and> below n bs"
  by (auto simp: below_def)

lemma below_mono: "below n acts \<Longrightarrow> n \<le> k \<Longrightarrow> below k acts"
  unfolding below_def by fastforce

lemma below_raised [simp]: "below n (hold_raised l e)"
  by (cases e) simp_all

lemma below_raise_at: "(\<And>c. place_command p = Some c \<Longrightarrow> c < n) \<Longrightarrow> below n (raise_at l p e)"
  by (cases p) simp_all

lemma below_run_ends [simp]: "below n (run_ends l e w)"
  by (simp add: run_ends_def Let_def split: option.split raised.split)

lemma below_outside:
  "(\<And>c. place_command p = Some c \<Longrightarrow> c < n) \<Longrightarrow> below n acts \<Longrightarrow>
    below n (planned (outside_call l p e acts w))"
  by (simp add: outside_call_def below_raise_at split: option.split)

section \<open>Every action keeps leases well-formed\<close>

lemma section_queues [simp]:
  "ls_queue (touched now x) = ls_queue x" "ls_current (touched now x) = ls_current x"
  "ls_commands (touched now x) = ls_commands x"
  "ls_queue (release_flagged now x) = ls_queue x" "ls_current (release_flagged now x) = ls_current x"
  "ls_commands (release_flagged now x) = ls_commands x"
  "ls_queue (remote_updated now st link qr u x) = ls_queue x"
  "ls_current (remote_updated now st link qr u x) = ls_current x"
  "ls_commands (remote_updated now st link qr u x) = ls_commands x"
  "ls_queue (invalid_link_noted now request job digest e x) = ls_queue x"
  "ls_current (invalid_link_noted now request job digest e x) = ls_current x"
  "ls_commands (invalid_link_noted now request job digest e x) = ls_commands x"
  "ls_queue (tab_failure_noted now c cmd err ts x) = ls_queue x"
  "ls_current (tab_failure_noted now c cmd err ts x) = ls_current x"
  "ls_commands (tab_failure_noted now c cmd err ts x) = ls_commands x"
  "ls_queue (tab_opened now c request x) = ls_queue x" "ls_current (tab_opened now c request x) = ls_current x"
  "ls_commands (tab_opened now c request x) = ls_commands x"
  "ls_queue (tab_closed now x) = ls_queue x" "ls_current (tab_closed now x) = ls_current x"
  "ls_commands (tab_closed now x) = ls_commands x"
  "ls_current (transitioned now s err x) = ls_current x"
  by (simp_all add: touched_def release_flagged_def remote_updated_def Let_def
      invalid_link_noted_def tab_failure_noted_def tab_opened_def tab_closed_def transitioned_def)

lemma lease_ok_sections [simp]:
  "lease_ok cs (touched now x) = lease_ok cs x" "lease_ok cs (release_flagged now x) = lease_ok cs x"
  "lease_ok cs (remote_updated now st link qr u x) = lease_ok cs x"
  "lease_ok cs (invalid_link_noted now request job digest e x) = lease_ok cs x"
  "lease_ok cs (tab_failure_noted now c cmd err ts x) = lease_ok cs x"
  "lease_ok cs (tab_opened now c request x) = lease_ok cs x" "lease_ok cs (tab_closed now x) = lease_ok cs x"
  "lease_ok cs (transitioned now s err x) = lease_ok cs x"
  "lease_ok cs (x\<lparr>ls_saved := b, ls_updated := t\<rparr>) = lease_ok cs x"
  "lease_ok cs (x\<lparr>ls_error := er, ls_updated := t\<rparr>) = lease_ok cs x"
  "lease_ok cs (x\<lparr>ls_pages := ps\<rparr>) = lease_ok cs x" "lease_ok cs (x\<lparr>ls_persisted := b\<rparr>) = lease_ok cs x"
  "lease_ok cs (x\<lparr>ls_attempt := k\<rparr>) = lease_ok cs x" "lease_ok cs (x\<lparr>ls_refreshes := k\<rparr>) = lease_ok cs x"
  by (simp_all add: lease_ok_def)

lemma commands_ok_same [simp]:
  "commands_ok (w\<lparr>lw_profiles := ps\<rparr>) = commands_ok w" "commands_ok (w\<lparr>lw_next_page := n\<rparr>) = commands_ok w"
  "commands_ok (w\<lparr>lw_navigations := ns\<rparr>) = commands_ok w" "commands_ok (w\<lparr>lw_active := d\<rparr>) = commands_ok w"
  "commands_ok (w\<lparr>lw_registry := rs\<rparr>) = commands_ok w"
  by (simp_all add: commands_ok_def)

lemma commands_ok_add: "commands_ok w \<Longrightarrow> commands_ok (w\<lparr>lw_commands := lw_commands w @ [x]\<rparr>)"
  by (rule commands_ok_moves [of _ w]) (simp_all add: extends_append)

text \<open>Both halves at once: the leases stay well-formed and the plan holds known commands.\<close>

definition step_ok :: "lease_world \<Rightarrow> performed \<Rightarrow> bool" where
  "step_ok w p \<longleftrightarrow> commands_ok (after p) \<and> below (length (lw_commands (after p))) (planned p)
     \<and> length (lw_commands w) \<le> length (lw_commands (after p))"

lemma fail_pending_ok:
  assumes "commands_ok w" and l: "l < length (lw_leases w)"
  shows "step_ok w (fail_pending now l t w)"
proof (cases "ls_queue (the_lease w l)")
  case Nil
  then show ?thesis using assms by (simp add: fail_pending_def step_ok_def)
next
  case (Cons c cs)
  have ok: "lease_ok (lw_commands w) (the_lease w l)" using commands_ok_lease assms by blast
  then have c: "c < length (lw_commands w)" using Cons by (simp add: lease_ok_def)
  have 1: "commands_ok (upd_lease l (\<lambda>x. x\<lparr>ls_queue := cs\<rparr>) w)"
    using ok Cons by (intro commands_ok_upd_lease assms(1)) (simp add: lease_ok_def)
  have 2: "commands_ok (upd_command c (\<lambda>x. x\<lparr>cm_cancelled := True\<rparr>) (upd_lease l (\<lambda>x. x\<lparr>ls_queue := cs\<rparr>) w))"
    (is "commands_ok ?w2")
    by (rule commands_ok_upd_command [OF 1]) (simp add: command_moves_def)
  have 3: "commands_ok (upd_command c (\<lambda>x. x\<lparr>cm_error := t\<rparr>) ?w2)"
    by (rule commands_ok_upd_command [OF 2]) (simp add: command_moves_def)
  show ?thesis using 2 3 Cons c by (simp add: fail_pending_def Let_def step_ok_def)
qed

lemma history_ok_add:
  assumes "history_ok cs d" and "dict_get d r = None" and "\<not> list_ex (\<lambda>(r, c). \<not> cm_done (cs ! c)) d"
    and x: "cm_request x = r" and f: "f = (\<lambda>k. cm_done ((cs @ [x]) ! k))"
  shows "history_ok (cs @ [x]) (trim_commands f (dict_set r (length cs) d))"
proof -
  have new: "dict_set r (length cs) d = d @ [(r, length cs)]"
    using assms(2) by (intro dict_set_new) (simp add: map_of_eq_None_iff)
  have old: "c < length cs \<and> cm_request (cs ! c) = k \<and> cm_done (cs ! c)" if "(k, c) \<in> set d" for k c
    using that assms(1,3) unfolding history_ok_def list_ex_iff by auto
  have "filter (\<lambda>(r, c). \<not> f c) d = []"
    using old by (auto simp: filter_empty_conv f nth_append)
  then have "length (filter (\<lambda>(r, c). \<not> f c) (dict_set r (length cs) d)) \<le> 1" by (simp add: new)
  moreover have "dict_ok (dict_set r (length cs) d)" using assms(1) by (simp add: history_ok_def)
  ultimately have T: "length (trim_commands f (dict_set r (length cs) d)) \<le> command_history_limit
      \<and> set (trim_commands f (dict_set r (length cs) d)) \<subseteq> set (dict_set r (length cs) d)
      \<and> dict_ok (trim_commands f (dict_set r (length cs) d))
      \<and> length (filter (\<lambda>(r, c). \<not> f c) (trim_commands f (dict_set r (length cs) d))) \<le> 1"
    using trim_commands_props by blast
  have "c < length (cs @ [x]) \<and> cm_request ((cs @ [x]) ! c) = k"
    if "(k, c) \<in> set (trim_commands f (dict_set r (length cs) d))" for k c
  proof -
    have "(k, c) \<in> set d \<or> k = r \<and> c = length cs" using that T new by auto
    then show ?thesis using old [of k c] x by (auto simp: nth_append)
  qed
  then show ?thesis unfolding history_ok_def using T by (auto simp: f)
qed

lemma open_queue_ok:
  assumes "commands_ok w" and l: "l < length (lw_leases w)"
  shows "step_ok w (open_queue env now l url request job w)"
proof -
  let ?x = "the_lease w l"
  have ok: "lease_ok (lw_commands w) ?x" using commands_ok_lease assms by blast
  show ?thesis
  proof (cases "lease_ready ?x \<and> dict_get (ls_commands ?x) request = None
      \<and> \<not> list_ex (\<lambda>(r, c). \<not> cm_done (the_command w c)) (ls_commands ?x)")
    case False
    then show ?thesis using assms ok
      by (auto simp: open_queue_def Let_def step_ok_def lease_ok_def history_ok_def dest!: map_of_SomeD
          split: option.split)
  next
    case True
    let ?d = "le_digest env url"
    define x where "x = new_open_command url ?d request job"
    define w1 where "w1 = w\<lparr>lw_commands := lw_commands w @ [x]\<rparr>"
    let ?f = "open_queued now (length (lw_commands w)) (\<lambda>k. cm_done (the_command w1 k)) ?d request job"
    have "history_ok (lw_commands w1) (ls_commands (?f ?x))"
      using history_ok_add [of "lw_commands w" "ls_commands ?x" request x] True ok
      by (simp add: open_queued_def w1_def x_def new_open_command_def lease_ok_def)
    then have "lease_ok (lw_commands w1) (?f ?x)"
      using ok by (auto simp: lease_ok_def open_queued_def w1_def)
    then have "commands_ok (upd_lease l ?f w1)"
      using commands_ok_add [OF assms(1)] by (intro commands_ok_upd_lease) (simp_all add: w1_def)
    then show ?thesis using True
      by (simp add: open_queue_def Let_def add_command_def step_ok_def w1_def x_def)
  qed
qed

text \<open>An action the invariant speaks about: its lease and its command exist.\<close>

definition action_known :: "lease_world \<Rightarrow> action \<Rightarrow> bool" where
  "action_known w a \<longleftrightarrow> (\<forall>l. act_lease a = Some l \<longrightarrow> l < length (lw_leases w))
     \<and> (\<forall>c. act_command a = Some c \<longrightarrow> c < length (lw_commands w))"

lemma upd_command_ok:
  assumes "commands_ok w" and "\<And>x. command_moves x (g x)"
  shows "commands_ok (upd_command c g w)"
  using assms by (intro commands_ok_upd_command) simp_all

lemma perform_shared_ok:
  assumes "commands_ok w" and "action_known w (Shared a)"
  shows "step_ok w (perform_shared env i a w)"
proof (cases a)
  case (FailPending l t)
  then show ?thesis using assms fail_pending_ok by (simp add: action_known_def)
next
  case (FailCommand l c t st)
  have "commands_ok (upd_lease l f w)" if "\<And>x cs. lease_ok cs (f x) = lease_ok cs x" for f
    using that by (intro commands_ok_upd_lease assms(1)) simp
  then have "commands_ok (fail_command (in_now i) l c t st w)"
    unfolding fail_command_def Let_def by (intro upd_command_ok) (simp_all add: command_moves_def)
  then show ?thesis using FailCommand by (simp add: step_ok_def fail_command_def Let_def)
next
  case (Checkpoint l)
  then show ?thesis using assms(1)
    by (auto simp: step_ok_def save_profile_def Let_def intro!: commands_ok_upd_lease split: outcome.split)
next
  case (PutCommand l c)
  then show ?thesis using assms
    by (auto simp: step_ok_def action_known_def lease_ok_def intro!: commands_ok_upd_lease)
next
  case (Deliver l s)
  then show ?thesis using assms(1) by (simp add: step_ok_def lease_changed_def Let_def)
qed (use assms(1) in \<open>auto simp: step_ok_def set_status_def command_moves_def
      intro!: commands_ok_upd_lease upd_command_ok\<close>)

lemma release_lease_ok:
  assumes "commands_ok w"
  shows "step_ok w (release_lease now l w)"
proof -
  have 1: "commands_ok (upd_lease l (release_flagged now) w)"
    by (intro commands_ok_upd_lease assms) simp
  have "commands_ok (upd_command c (\<lambda>x. x\<lparr>cm_cancelled := True\<rparr>) (upd_lease l (release_flagged now) w))" for c
    by (rule upd_command_ok [OF 1]) (simp add: command_moves_def)
  then show ?thesis using assms 1 by (simp add: release_lease_def Let_def step_ok_def split: option.split)
qed

lemma open_gcash_ok:
  assumes "commands_ok w" and "l < length (lw_leases w)"
  shows "step_ok w (open_gcash env now l q w)"
proof -
  have "step_ok w (True, [], w)" using assms(1) by (simp add: step_ok_def)
  moreover have "step_ok w (True, [Shared (Announce l)], upd_lease l (invalid_link_noted now r j d e) w)" for r j d e
    using commands_ok_upd_lease [OF assms(1)] by (simp add: step_ok_def)
  ultimately show ?thesis using open_queue_ok [OF assms]
    unfolding open_gcash_def Let_def by (simp split: sum.split)
qed

lemma perform_request_ok:
  assumes "commands_ok w" and "action_known w (Request a)"
  shows "step_ok w (perform_request env i a w)"
proof (cases a)
  case (ReleaseLease l)
  then show ?thesis using release_lease_ok assms by simp
next
  case (OpenGcash l q)
  then show ?thesis using open_gcash_ok assms by (simp add: action_known_def)
next
  case (RefreshLease l)
  then show ?thesis using assms(1) commands_ok_add
    by (simp add: refresh_lease_def add_command_def Let_def step_ok_def)
next
  case (UpdateRemote l u)
  have "commands_ok (upd_lease l (remote_updated (in_now i) st link qr u) w)" for st link qr
    by (intro commands_ok_upd_lease assms(1)) simp
  then show ?thesis using UpdateRemote assms(1)
    by (auto simp: update_remote_def step_ok_def split: option.split)
next
  case (ReleaseTask t acc)
  then show ?thesis using assms(1) by (auto simp: step_ok_def below_def)
qed (use assms in \<open>auto simp: step_ok_def await_refresh_def await_open_def action_known_def command_moves_def
      intro!: upd_command_ok split: option.split list.split\<close>)

lemma create_lease_ok:
  assumes "commands_ok w" and "create_lease env now q w = (r, w')"
  shows "commands_ok w'" and "lw_commands w' = lw_commands w"
proof -
  have "lease_ok cs (new_lease now b t a e h k d)" for cs b t a e h k d
    by (simp add: lease_ok_def new_lease_def history_ok_def command_history_limit_def)
  then show "commands_ok w'" and "lw_commands w' = lw_commands w"
    using assms by (auto simp: create_lease_def Let_def commands_ok_def split: if_splits)
qed

lemma perform_login_ok:
  assumes "commands_ok w"
  shows "step_ok w (perform_login env m i a w)"
proof (cases a)
  case (CreateLease q)
  obtain r w' where r: "create_lease env (in_now i) q w = (r, w')" by (metis surj_pair)
  then show ?thesis using CreateLease create_lease_ok [OF assms r]
    by (cases r) (simp_all add: create_step_def step_ok_def)
qed (use assms in \<open>auto simp: step_ok_def leave_browser_def intro!: commands_ok_upd_lease
      split: option.split raised.split\<close>)

lemma perform_hold_ok:
  assumes "commands_ok w" and "action_known w (Hold a)"
  shows "step_ok w (perform_hold i a w)"
proof (cases a)
  case (Publish l p)
  have "commands_ok (upd_lease l (\<lambda>x. x\<lparr>ls_persisted := True\<rparr>) w)"
    by (intro commands_ok_upd_lease assms(1)) simp
  then show ?thesis using Publish assms
    by (auto simp: step_ok_def publish_def Let_def outside_call_def action_known_def
        intro!: below_raise_at split: option.split)
next
  case (LogLine l p)
  then show ?thesis using assms
    by (auto simp: step_ok_def outside_call_def action_known_def intro!: below_raise_at split: option.split)
next
  case (NextCommand l)
  show ?thesis
  proof (cases "ls_queue (the_lease w l)")
    case Nil
    then show ?thesis using NextCommand assms(1) by (simp add: step_ok_def)
  next
    case (Cons c cs)
    have l: "l < length (lw_leases w)" using assms(2) NextCommand by (simp add: action_known_def)
    have ok: "lease_ok (lw_commands w) (the_lease w l)" using commands_ok_lease [OF assms(1) l] .
    then have "c < length (lw_commands w)" using Cons by (simp add: lease_ok_def)
    moreover have "commands_ok (upd_lease l (\<lambda>x. x\<lparr>ls_queue := cs\<rparr>) w)"
      using ok Cons by (intro commands_ok_upd_lease assms(1)) (simp add: lease_ok_def)
    ultimately show ?thesis using NextCommand Cons by (simp add: step_ok_def)
  qed
next
  case (StopCheck l)
  then show ?thesis using assms(1) by (simp add: step_ok_def outside_call_def split: option.split)
qed (use assms(1) in \<open>auto simp: step_ok_def page_check_def Let_def intro!: commands_ok_upd_lease
      split: option.split\<close>)

lemma open_start_ok:
  assumes "commands_ok w" and "c < length (lw_commands w)"
  shows "step_ok w (open_start env i l c w)"
proof -
  have "commands_ok (upd_lease l (\<lambda>y. y\<lparr>ls_pages := f y\<rparr>) (w\<lparr>lw_next_page := p\<rparr>))" for f p
    using assms(1) by (intro commands_ok_upd_lease) simp_all
  then show ?thesis using assms
    by (simp add: step_ok_def open_start_def Let_def raise_command_def split: option.split sum.split bool.split)
qed

lemma open_answer_ok:
  assumes "commands_ok w" and "c < length (lw_commands w)"
  shows "step_ok w (open_answer i l c reused w)"
proof -
  have "commands_ok (upd_lease l (tab_opened (in_now i) c r) w)" for r
    by (intro commands_ok_upd_lease assms(1)) simp
  then have "commands_ok (upd_command c g (upd_lease l (tab_opened (in_now i) c r) w))"
    if "\<And>x. command_moves x (g x)" for g r
    using that by (intro upd_command_ok)
  then show ?thesis using assms(2) by (simp add: step_ok_def open_answer_def Let_def command_moves_def)
qed

lemma end_command_ok:
  assumes "commands_ok w"
  shows "commands_ok (end_command l c w)"
  unfolding end_command_def
  by (intro upd_command_ok commands_ok_upd_lease assms) (auto simp: command_moves_def lease_ok_def)

lemma perform_command_ok:
  assumes "commands_ok w" and "action_known w (Command a)"
  shows "step_ok w (perform_command env i a w)"
proof (cases a)
  case (SetCurrent l c)
  then show ?thesis using assms
    by (auto simp: step_ok_def action_known_def lease_ok_def intro!: commands_ok_upd_lease)
next
  case (BeginCommand l c)
  have on: "commands_ok (upd_command c (\<lambda>x. x\<lparr>cm_cancelled := True\<rparr>) w)"
    by (intro commands_ok_upd_command assms(1)) (simp add: command_moves_def)
  have off: "commands_ok (upd_command c (\<lambda>x. x\<lparr>cm_cancelled := False\<rparr>) w)"
    if "\<not> cm_cancelled (the_command w c)"
    using that by (intro commands_ok_upd_command assms(1)) (simp add: command_moves_def)
  show ?thesis
    using BeginCommand assms(2) on off
    by (cases "cm_cancelled (the_command w c)"; cases "ls_release (the_lease w l)")
      (simp_all add: step_ok_def begin_command_def raise_command_def Let_def action_known_def)
next
  case (OpenStart l c)
  then show ?thesis using assms open_start_ok by (simp add: action_known_def)
next
  case (OpenAnswer l c r)
  then show ?thesis using assms open_answer_ok by (simp add: action_known_def)
next
  case (EndCommand l c)
  then show ?thesis using end_command_ok [OF assms(1)] by (simp add: step_ok_def end_command_def)
next
  case (CommandRaised l c e)
  then show ?thesis using assms
    by (auto simp: step_ok_def command_raised_def Let_def action_known_def command_moves_def
        intro!: upd_command_ok split: raised.split)
qed (use assms in \<open>auto simp: step_ok_def begin_command_def raise_command_def Let_def outside_call_def open_go_def
      open_settled_def action_known_def command_moves_def
      intro!: upd_command_ok commands_ok_upd_lease split: option.split\<close>)

lemma perform_ok:
  assumes "commands_ok w" and "action_known w a"
  shows "step_ok w (perform env m i a w)"
  using assms perform_shared_ok perform_request_ok perform_login_ok perform_hold_ok perform_command_ok
  by (cases a) auto

section \<open>Every run keeps them\<close>

definition world_ok :: "lease_system \<Rightarrow> bool" where
  "world_ok s \<longleftrightarrow> (\<forall>l\<in>set (lw_registry (sy_world s)). l < length (lw_leases (sy_world s)))
     \<and> commands_ok (sy_world s) \<and> (\<forall>a\<in>set (in_flight s). action_known (sy_world s) a)"

lemma world_ok_start: "world_ok start_system"
  by (simp add: world_ok_def start_system_def empty_lease_world_def commands_ok_def in_flight_def)

lemma action_known_moves: "world_moves w w' \<Longrightarrow> action_known w a \<Longrightarrow> action_known w' a"
  unfolding world_moves_def extends_def action_known_def by (meson order_less_le_trans)

lemma create_registry:
  assumes reg: "\<And>l. l \<in> set (lw_registry w) \<Longrightarrow> l < length (lw_leases w)"
    and r: "create_lease env now q w = (Some k, w')"
  shows "k < length (lw_leases w')" and "l \<in> set (lw_registry w') \<Longrightarrow> l < length (lw_leases w')"
proof -
  note C = create_lease_Some [OF r]
  have len: "length (lw_leases w') = Suc (length (lw_leases w))" using C(3) by auto
  then show "k < length (lw_leases w')" using C(1) by simp
  assume "l \<in> set (lw_registry w')"
  then have "l = k \<or> l \<in> set (lw_registry w)" using C(6) by auto
  then show "l < length (lw_leases w')" using C(1) reg [of l] len by auto
qed

lemma perform_registry:
  assumes reg: "\<And>l. l \<in> set (lw_registry w) \<Longrightarrow> l < length (lw_leases w)"
    and l: "l \<in> set (lw_registry (after (perform env m i a w)))"
  shows "l < length (lw_leases (after (perform env m i a w)))"
proof (cases "is_create a")
  case True
  then obtain q where a: "a = Login (CreateLease q)" by (cases a rule: is_create.cases) auto
  obtain r w1 where r: "create_lease env (in_now i) q w = (r, w1)" by (metis surj_pair)
  show ?thesis
  proof (cases r)
    case None
    then have "w1 = w" using r by (auto simp: create_lease_def Let_def split: if_splits)
    then show ?thesis using None r a l reg by (simp add: create_step_def)
  next
    case (Some k)
    then show ?thesis using create_registry(2) [OF reg r [unfolded Some]] r a l by (simp add: create_step_def)
  qed
next
  case False
  have len: "length (lw_leases w) \<le> length (lw_leases (after (perform env m i a w)))"
    using perform_moves [of w env m i a] by (simp add: world_moves_def extends_def)
  have "lw_registry (after (perform env m i a w)) = lw_registry w"
  proof (cases "is_report a")
    case True
    then obtain l st where "a = Shared (Deliver l st)" by (cases a rule: is_report.cases) auto
    then show ?thesis by (simp add: lease_changed_def Let_def)
  next
    case r: False
    then show ?thesis using perform_indexes [OF r False, of env m i w] by (simp add: indexes_def)
  qed
  then show ?thesis using l reg len by (metis order_less_le_trans)
qed

lemma perform_known:
  assumes reg: "\<And>l. l \<in> set (lw_registry w) \<Longrightarrow> l < length (lw_leases w)"
    and "commands_ok w" and "action_known w a" and x: "x \<in> set (planned (perform env m i a w))"
  shows "action_known (after (perform env m i a w)) x"
  unfolding action_known_def
proof (intro conjI allI impI)
  let ?w' = "after (perform env m i a w)"
  show "c < length (lw_commands ?w')" if "act_command x = Some c" for c
    using perform_ok [OF assms(2,3), of env m i] x that unfolding step_ok_def below_def by blast
  fix k assume k: "act_lease x = Some k"
  show "k < length (lw_leases ?w')"
  proof (cases "is_create a")
    case True
    then obtain q where a: "a = Login (CreateLease q)" by (cases a rule: is_create.cases) auto
    obtain r w1 where r: "create_lease env (in_now i) q w = (r, w1)" by (metis surj_pair)
    then obtain j where j: "r = Some j" using x a by (cases r) (simp_all add: create_step_def)
    then have "k = j" using r a x k by (auto simp: create_step_def)
    then show ?thesis using create_registry(1) [OF reg r [unfolded j]] r a j by (simp add: create_step_def)
  next
    case False
    have "k < length (lw_leases w)"
      using perform_plan(1) [OF False x] k reg assms(3) unfolding action_known_def by auto
    then show ?thesis using perform_moves [of w env m i a] by (simp add: world_moves_def extends_def)
  qed
qed

lemma world_ok_step:
  assumes ok: "world_ok s"
  shows "world_ok (lease_step env m ev s)"
proof (rule lease_step_cases [OF refl, of env m ev s])
  fix call assume new: "lease_step env m ev s = s\<lparr>sy_threads := sy_threads s @ [[call_action call]]\<rparr>"
  have "action_known (sy_world s) (call_action call)" by (cases call) (simp_all add: action_known_def)
  then show ?thesis using ok new by (auto simp: world_ok_def in_flight_def)
next
  fix n i a rest
  let ?s' = "lease_step env m ev s" and ?p = "perform env m i a (sy_world s)"
  assume act: "n < length (sy_threads s)" "sy_threads s ! n = a # rest"
    and ts: "sy_threads ?s' = (sy_threads s)[n := planned ?p @ (if fst ?p then [] else rest)]"
    and w: "sy_world ?s' = after ?p"
  have a: "action_known (sy_world s) a" and c: "commands_ok (sy_world s)"
    and reg: "\<And>l. l \<in> set (lw_registry (sy_world s)) \<Longrightarrow> l < length (lw_leases (sy_world s))"
    using ok in_flight_head(1) [OF act] unfolding world_ok_def by blast+
  have "set (in_flight ?s') \<subseteq> set (planned ?p) \<union> set (in_flight s)"
    unfolding in_flight_def [of ?s'] ts by (rule in_flight_update [OF act]) simp
  moreover have "action_known (after ?p) x" if "x \<in> set (planned ?p)" for x
    by (rule perform_known(1) [OF reg c a that])
  moreover have "action_known (after ?p) x" if "x \<in> set (in_flight s)" for x
    using action_known_moves [OF perform_moves] ok that unfolding world_ok_def by blast
  ultimately have "\<forall>x\<in>set (in_flight ?s'). action_known (after ?p) x" by blast
  moreover have "commands_ok (after ?p)" using perform_ok [OF c a] by (simp add: step_ok_def)
  moreover have "\<forall>l\<in>set (lw_registry (after ?p)). l < length (lw_leases (after ?p))"
    using perform_registry [OF reg] by blast
  ultimately show ?thesis unfolding world_ok_def w by blast
next
  assume "lease_step env m ev s = s"
  then show ?thesis using ok by simp
qed

interpretation leases: invariant_machine "lease_step env m" world_ok for env m
  by unfold_locales (rule world_ok_step)

lemma world_ok_run: "world_ok s \<Longrightarrow> world_ok (lease_run env m evs s)"
  unfolding lease_run_def by (rule leases.run_keeps)

end
