(* ===== verification/LeasePages.thy ===== *)
theory LeasePages
  imports LeaseCommands
begin

text \<open>
  The pages of a held browser: which link is official, which page a request of a
  lease may use, and that every run opens official links only and never uses a
  page for two requests or for two leases.
\<close>

section \<open>The form of an official link\<close>

definition official_link :: "utext \<Rightarrow> bool" where
  "official_link u \<longleftrightarrow>
     (\<exists>s h q. u = s @ uni ''://'' @ h @ redirect_path @ 63 # q \<and> u_lower s = uni ''https''
        \<and> u_lower h = redirect_host \<and> length u \<le> 8192 \<and> (\<forall>c\<in>set u. 32 \<le> c))"

lemma u_lower_idem [simp]: "u_lower (u_lower s) = u_lower s"
proof -
  have "u_lower (u_lower_code c) = u_lower_code c" for c
    by (simp add: u_lower_code_def u_lower_def)
  then show ?thesis by (induction s) (simp_all add: u_lower_def)
qed

lemma cut_scheme_form:
  assumes "cut_scheme u = (s, r)" and "s \<noteq> []"
  shows "\<exists>a. u = a @ 58 # r \<and> u_lower a = s"
  using assms by (auto simp: cut_scheme_def dest!: u_cut_Some split: option.splits if_splits)

lemma cut_netloc_form:
  assumes "cut_netloc u = (n, r)" and "n \<noteq> []"
  shows "u = 47 # 47 # n @ r"
proof -
  have *: "take 2 u = [47, 47]" "n = takeWhile netloc_code (drop 2 u)" "r = dropWhile netloc_code (drop 2 u)"
    using assms by (auto simp: cut_netloc_def split: if_splits)
  then have "n @ r = drop 2 u" by simp
  then show ?thesis using *(1) by (metis append_Cons append_Nil append_take_drop_id)
qed

lemma query_values_Nil: "query_values [] k = []"
  by (simp add: query_values_def query_pairs_def)

lemma u_strip_front:
  assumes "u_strip v \<noteq> []"
  shows "\<not> u_space (hd (u_strip v))"
proof -
  let ?d = "dropWhile u_space v"
  have "?d \<noteq> []" using assms unfolding u_strip_def by (metis dropWhile.simps(1) rev.simps(1))
  moreover have "\<not> u_space (hd ?d)" using calculation hd_dropWhile by blast
  moreover have "u_strip v = rev (dropWhile u_space (rev ?d))" by (simp add: u_strip_def)
  moreover obtain t where "?d = rev (dropWhile u_space (rev ?d)) @ t"
    by (metis rev_append rev_rev_ident takeWhile_dropWhile_id)
  ultimately show ?thesis using assms by (metis hd_append2)
qed

lemma no_cut:
  assumes "u \<noteq> []" and "\<not> u_space (hd u)" and "\<forall>c\<in>set u. 32 \<le> c"
  shows "filter (\<lambda>c. c \<noteq> 9 \<and> c \<noteq> 10 \<and> c \<noteq> 13) (dropWhile (\<lambda>c. c \<le> 32) u) = u"
proof -
  have "hd u \<noteq> 32" using assms(2) by (auto simp: u_space_def Let_def)
  then have "\<not> hd u \<le> 32" using assms(1,3) by (metis hd_in_set le_antisym)
  then have "dropWhile (\<lambda>c. c \<le> 32) u = u" using assms(1) by (cases u) auto
  then show ?thesis using assms(3) by (auto intro!: filter_True)
qed

lemma urlsplit_form:
  assumes s: "urlsplit ok u = Some s"
    and u: "filter (\<lambda>c. c \<noteq> 9 \<and> c \<noteq> 10 \<and> c \<noteq> 13) (dropWhile (\<lambda>c. c \<le> 32) u) = u"
    and ne: "su_scheme s \<noteq> []" "su_netloc s \<noteq> []" "su_query s \<noteq> []"
  shows "\<exists>a q. u = a @ 58 # 47 # 47 # su_netloc s @ su_path s @ 63 # q \<and> u_lower a = su_scheme s"
proof -
  obtain sc u1 where 1: "cut_scheme u = (sc, u1)" by (metis surj_pair)
  obtain n u2 where 2: "cut_netloc u1 = (n, u2)" by (metis surj_pair)
  obtain u3 f where 3: "(case u_cut 35 u2 of Some ab \<Rightarrow> ab | None \<Rightarrow> (u2, [])) = (u3, f)" by (metis surj_pair)
  obtain p q where 4: "(case u_cut 63 u3 of Some ab \<Rightarrow> ab | None \<Rightarrow> (u3, [])) = (p, q)" by (metis surj_pair)
  have sq: "su_scheme s = sc" "su_netloc s = n" "su_path s = p" "su_query s = q"
    using s unfolding urlsplit_def Let_def u 1 prod.case 2 3 4 by (auto split: if_splits)
  obtain a where a: "u = a @ 58 # u1" "u_lower a = sc"
    using cut_scheme_form [OF 1] ne sq by auto
  have b: "u1 = 47 # 47 # n @ u2" using cut_netloc_form [OF 2] ne sq by simp
  have "u_cut 63 u3 = Some (p, q)" using 4 ne sq by (auto split: option.splits)
  then have c: "u3 = p @ 63 # q" using u_cut_Some by blast
  obtain t where "u2 = u3 @ t" using 3 by (auto dest!: u_cut_Some split: option.splits)
  then have "u = a @ 58 # 47 # 47 # n @ p @ 63 # (q @ t)" using a(1) b c by simp
  then show ?thesis using a(2) sq by metis
qed

lemma validate_redirect_official:
  assumes "validate_redirect ok v = Inr u"
  shows "official_link u"
proof -
  have u: "u = u_strip v" "u \<noteq> []" "length u \<le> 8192" "\<forall>c\<in>set u. 32 \<le> c"
    using assms by (auto simp: validate_redirect_def Let_def list_ex_iff not_less
        split: if_splits option.splits)
  obtain s where s: "urlsplit ok u = Some s" "u_lower (su_scheme s) = uni ''https''"
      "u_lower (su_netloc s) = redirect_host" "su_path s = redirect_path"
      "list_ex (\<lambda>x. u_strip x \<noteq> []) (query_values (su_query s) (uni ''redirectData''))"
    using assms u(1) by (auto simp: validate_redirect_def Let_def split: if_splits option.splits)
  have "su_scheme s \<noteq> []" using s(2) by (auto simp: u_lower_def uni_def)
  moreover have "su_netloc s \<noteq> []" using s(3) by (auto simp: u_lower_def redirect_host_def uni_def)
  moreover have "su_query s \<noteq> []" using s(5) by (auto simp: query_values_Nil)
  moreover have "\<not> u_space (hd u)" using u_strip_front u(1,2) by simp
  ultimately obtain a q where *: "u = a @ 58 # 47 # 47 # su_netloc s @ su_path s @ 63 # q"
      "u_lower a = su_scheme s"
    using urlsplit_form [OF s(1) no_cut [OF u(2) _ u(4)]] by blast
  have "u_lower a = uni ''https''" using *(2) s(2) by (metis u_lower_idem)
  moreover have "u = a @ uni ''://'' @ su_netloc s @ redirect_path @ 63 # q"
    using *(1) s(4) by (simp add: uni_def)
  ultimately show ?thesis using s(3) u(3,4) unfolding official_link_def by blast
qed

section \<open>What a page belongs to\<close>

text \<open>
  A page belongs to a request of a lease when the lease keeps it for the request,
  when it has navigated for it, or when an action is about to.
\<close>

definition page_of :: "lease_world \<Rightarrow> action set \<Rightarrow> nat \<Rightarrow> nat \<Rightarrow> string \<Rightarrow> bool" where
  "page_of w acts p l r \<longleftrightarrow>
     l < length (lw_leases w) \<and> (r, p) \<in> set (ls_pages (the_lease w l))
     \<or> (\<exists>v\<in>set (lw_navigations w). nv_page v = p \<and> nv_lease v = l \<and> nv_request v = r)
     \<or> (\<exists>c u b. Command (OpenGo l c p u b) \<in> acts \<and> r = cm_request (the_command w c))"

definition pages_sole :: "lease_world \<Rightarrow> action set \<Rightarrow> bool" where
  "pages_sole w acts \<longleftrightarrow>
     (\<forall>p l r. page_of w acts p l r \<longrightarrow>
        p < lw_next_page w \<and> (\<forall>k t. page_of w acts p k t \<longrightarrow> k = l \<and> t = r))"

definition links_official :: "lease_world \<Rightarrow> action set \<Rightarrow> bool" where
  "links_official w acts \<longleftrightarrow> (\<forall>v\<in>set (lw_navigations w). official_link (nv_url v))
     \<and> (\<forall>l c p u b. Command (OpenGo l c p u b) \<in> acts \<longrightarrow> official_link u)"

lemma pages_sole_step:
  assumes sole: "pages_sole w acts" and nx: "lw_next_page w \<le> lw_next_page w'"
    and new: "\<And>p l r. page_of w' acts' p l r \<Longrightarrow>
      page_of w acts p l r \<or> p = lw_next_page w \<and> l = l0 \<and> r = r0 \<and> lw_next_page w < lw_next_page w'"
  shows "pages_sole w' acts'"
  unfolding pages_sole_def
proof (intro allI impI conjI)
  have below: "page_of w acts p i j \<Longrightarrow> p < lw_next_page w" for p i j
    using sole unfolding pages_sole_def by blast
  fix p l r assume p: "page_of w' acts' p l r"
  then show "p < lw_next_page w'" using new below nx by fastforce
  fix k t assume q: "page_of w' acts' p k t"
  have "\<not> page_of w acts (lw_next_page w) i j" for i j using below by blast
  then show "k = l" and "t = r" using sole new [OF p] new [OF q] unfolding pages_sole_def by blast+
qed

section \<open>Which actions concern pages\<close>

definition pages_view :: "lease_world \<Rightarrow> (string, nat) dict list \<times> nat \<times> navigation list" where
  "pages_view w = (map ls_pages (lw_leases w), lw_next_page w, lw_navigations w)"

lemma pages_view_upd_lease:
  "ls_pages (f (the_lease w l)) = ls_pages (the_lease w l) \<Longrightarrow> pages_view (upd_lease l f w) = pages_view w"
  unfolding pages_view_def by (simp add: map_update) (metis list_update_id map_update)

lemma pages_view_same [simp]:
  "pages_view (upd_command c g w) = pages_view w" "pages_view (w\<lparr>lw_commands := cs\<rparr>) = pages_view w"
  "pages_view (w\<lparr>lw_profiles := ps\<rparr>) = pages_view w" "pages_view (w\<lparr>lw_active := d\<rparr>) = pages_view w"
  "pages_view (w\<lparr>lw_registry := rs\<rparr>) = pages_view w"
  by (simp_all add: pages_view_def)

lemma section_pages [simp]:
  "ls_pages (touched now x) = ls_pages x" "ls_pages (release_flagged now x) = ls_pages x"
  "ls_pages (remote_updated now st link qr u x) = ls_pages x"
  "ls_pages (invalid_link_noted now request job digest e x) = ls_pages x"
  "ls_pages (open_queued now c finished digest request job x) = ls_pages x"
  "ls_pages (tab_failure_noted now c cmd err ts x) = ls_pages x"
  "ls_pages (tab_opened now c request x) = ls_pages x" "ls_pages (tab_closed now x) = ls_pages x"
  "ls_pages (transitioned now s err x) = ls_pages x"
  by (simp_all add: touched_def release_flagged_def remote_updated_def Let_def
      invalid_link_noted_def open_queued_def tab_failure_noted_def tab_opened_def tab_closed_def
      transitioned_def)

fun uses_pages :: "action \<Rightarrow> bool" where
  "uses_pages (Hold (HoldReady l)) = True"
| "uses_pages (Command (OpenStart l c)) = True"
| "uses_pages (Command (OpenGo l c p u b)) = True"
| "uses_pages _ = False"

lemma uses_pages_cases:
  assumes "uses_pages a"
  obtains (ready) l where "a = Hold (HoldReady l)"
    | (start) l c where "a = Command (OpenStart l c)" | (go) l c p u b where "a = Command (OpenGo l c p u b)"
  using assms by (cases a rule: uses_pages.cases) auto

fun is_go :: "action \<Rightarrow> bool" where
  "is_go (Command (OpenGo l c p u b)) = True"
| "is_go _ = False"

lemma perform_pages_view:
  assumes "\<not> is_create a" and "\<not> uses_pages a"
  shows "pages_view (after (perform env m i a w)) = pages_view w"
proof (cases a)
  case (Shared b)
  then show ?thesis using assms by (cases b) (simp_all add: lease_changed_def fail_pending_def
      set_status_def fail_command_def save_profile_def Let_def pages_view_upd_lease
      split: list.split outcome.split)
next
  case (Request b)
  then show ?thesis by (cases b) (simp_all add: await_refresh_def await_open_def release_lease_def
      refresh_lease_def add_command_def Let_def update_remote_def open_gcash_def open_queue_def
      pages_view_upd_lease split: option.split sum.split list.split)
next
  case (Login b)
  then show ?thesis using assms by (cases b) (simp_all add: leave_browser_def pages_view_upd_lease
      split: option.split raised.split)
next
  case (Hold b)
  then show ?thesis using assms by (cases b) (simp_all add: publish_def outside_call_def page_check_def Let_def
      pages_view_upd_lease split: option.split list.split)
next
  case (Command b)
  then show ?thesis using assms by (cases b) (simp_all add: begin_command_def raise_command_def Let_def
      open_settled_def open_answer_def command_raised_def end_command_def outside_call_def
      pages_view_upd_lease split: option.split raised.split)
qed

lemma no_go_raised [simp]: "x \<in> set (hold_raised l e) \<Longrightarrow> \<not> is_go x" "x \<in> set (raise_at l p e) \<Longrightarrow> \<not> is_go x"
proof -
  have *: "y \<in> set (hold_raised l e) \<Longrightarrow> \<not> is_go y" for y by (cases e) auto
  show "x \<in> set (hold_raised l e) \<Longrightarrow> \<not> is_go x" using * .
  show "x \<in> set (raise_at l p e) \<Longrightarrow> \<not> is_go x" using * by (cases p) auto
qed

lemma no_go_run_ends [simp]: "x \<in> set (run_ends l e w) \<Longrightarrow> \<not> is_go x"
  by (auto simp: run_ends_def Let_def split: option.splits raised.splits if_splits)

lemma perform_no_go:
  assumes "\<not> uses_pages a" and "x \<in> set (planned (perform env m i a w))"
  shows "\<not> is_go x"
proof (cases a)
  case (Shared b)
  then show ?thesis using assms by (cases b)
    (auto simp: fail_pending_def set_status_def Let_def split: list.splits if_splits)
next
  case (Request b)
  then show ?thesis using assms by (cases b) (auto simp: await_refresh_def await_open_def release_lease_def
      refresh_lease_def add_command_def Let_def update_remote_def open_gcash_def open_queue_def
      split: option.splits sum.splits list.splits if_splits)
next
  case (Login b)
  then show ?thesis using assms by (cases b) (auto simp: create_step_def leave_browser_def
      split: option.splits raised.splits prod.splits if_splits)
next
  case (Hold b)
  then show ?thesis using assms by (cases b) (auto simp: publish_def outside_call_def page_check_def Let_def
      split: option.splits list.splits if_splits)
next
  case (Command b)
  then show ?thesis using assms by (cases b) (auto simp: begin_command_def raise_command_def Let_def
      open_settled_def open_answer_def command_raised_def outside_call_def
      split: option.splits raised.splits if_splits)
qed

section \<open>Every step keeps pages to themselves\<close>

lemma page_ofI:
  "l < length (lw_leases w) \<Longrightarrow> (r, p) \<in> set (ls_pages (the_lease w l)) \<Longrightarrow> page_of w acts p l r"
  "v \<in> set (lw_navigations w) \<Longrightarrow> page_of w acts (nv_page v) (nv_lease v) (nv_request v)"
  "Command (OpenGo l c p u b) \<in> acts \<Longrightarrow> page_of w acts p l (cm_request (the_command w c))"
  unfolding page_of_def by blast+

lemma page_of_step:
  assumes p: "page_of w' acts' p l r"
    and leases: "l < length (lw_leases w') \<Longrightarrow> (r, p) \<in> set (ls_pages (the_lease w' l)) \<Longrightarrow> page_of w acts p l r \<or> Q"
    and navs: "\<And>v. v \<in> set (lw_navigations w') \<Longrightarrow>
      v \<in> set (lw_navigations w) \<or> page_of w acts (nv_page v) (nv_lease v) (nv_request v)"
    and going: "\<And>c u b. Command (OpenGo l c p u b) \<in> acts' \<Longrightarrow> r = cm_request (the_command w' c) \<Longrightarrow>
      page_of w acts p l r \<or> Q"
  shows "page_of w acts p l r \<or> Q"
proof -
  consider (lease) "l < length (lw_leases w')" "(r, p) \<in> set (ls_pages (the_lease w' l))"
    | (nav) v where "v \<in> set (lw_navigations w')" "nv_page v = p" "nv_lease v = l" "nv_request v = r"
    | (go) c u b where "Command (OpenGo l c p u b) \<in> acts'" "r = cm_request (the_command w' c)"
    using p unfolding page_of_def by blast
  then show ?thesis
  proof cases
    case lease
    then show ?thesis by (rule leases)
  next
    case nav
    then show ?thesis using navs page_ofI(2) by metis
  next
    case go
    then show ?thesis by (rule going)
  qed
qed

lemma request_kept:
  "world_moves w w' \<Longrightarrow> c < length (lw_commands w) \<Longrightarrow> cm_request (the_command w' c) = cm_request (the_command w c)"
  unfolding world_moves_def extends_def command_moves_def by blast

lemma going_before:
  assumes "world_moves w w'" and "\<And>x. x \<in> acts \<Longrightarrow> action_known w x"
    and "Command (OpenGo l c p u b) \<in> acts" and "r = cm_request (the_command w' c)"
  shows "page_of w acts p l r"
proof -
  have "c < length (lw_commands w)" using assms(2) [OF assms(3)] by (simp add: action_known_def)
  then show ?thesis using request_kept [OF assms(1)] page_ofI(3) [OF assms(3), of w] assms(4) by metis
qed

text \<open>The new page of a step that asks for one.\<close>

fun new_page_of :: "lease_world \<Rightarrow> action \<Rightarrow> nat \<times> string" where
  "new_page_of w (Command (OpenStart l c)) = (l, cm_request (the_command w c))"
| "new_page_of w a = (0, [])"

lemma open_start_cases:
  obtains (refused) e where "open_start env i l c w = (True, [Command (CommandRaised l c e)], w)"
    | (again) p u where "open_start env i l c w = (False, [Command (OpenGo l c p u True)], w)"
        "official_link u" "(cm_request (the_command w c), p) \<in> set (ls_pages (the_lease w l))"
    | (new) u where "open_start env i l c w
          = (False, [Command (OpenGo l c (lw_next_page w) u False)],
             upd_lease l (\<lambda>y. y\<lparr>ls_pages := dict_set (cm_request (the_command w c)) (lw_next_page w) (ls_pages y)\<rparr>)
               (w\<lparr>lw_next_page := lw_next_page w + 1\<rparr>))"
        "official_link u"
proof (cases "cm_cancelled (the_command w c)")
  case True
  then show ?thesis using refused by (simp add: open_start_def Let_def raise_command_def)
next
  case not_cancelled: False
  define url where "url = (case cm_url (the_command w c) of Some u \<Rightarrow> u | None \<Rightarrow> [])"
  show ?thesis
  proof (cases "validate_redirect (le_netloc_ok env) url")
    case (Inl e)
    then show ?thesis using not_cancelled refused
      by (simp add: open_start_def Let_def raise_command_def url_def)
  next
    case (Inr u)
    note o = validate_redirect_official [OF Inr]
    show ?thesis
    proof (cases "plain_thrown i")
      case (Some e)
      then show ?thesis using not_cancelled Inr refused
        by (cases "dict_get (ls_pages (the_lease w l)) (cm_request (the_command w c))")
          (simp_all add: open_start_def Let_def raise_command_def url_def)
    next
      case None
      show ?thesis
      proof (cases "dict_get (ls_pages (the_lease w l)) (cm_request (the_command w c))")
        case fresh: None
        then show ?thesis using not_cancelled Inr None o new
          by (simp add: open_start_def Let_def url_def)
      next
        case (Some p)
        then have "(cm_request (the_command w c), p) \<in> set (ls_pages (the_lease w l))"
          by (rule map_of_SomeD)
        then show ?thesis using not_cancelled Inr None Some o new again
          by (cases "in_closed i") (simp_all add: open_start_def Let_def url_def)
      qed
    qed
  qed
qed

lemma open_start_page:
  assumes known: "\<And>x. x \<in> acts \<Longrightarrow> action_known w x" and a: "Command (OpenStart k c) \<in> acts"
    and w': "w' = after (perform env m i (Command (OpenStart k c)) w)"
    and p: "page_of w' (set (planned (perform env m i (Command (OpenStart k c)) w)) \<union> acts) p l r"
  shows "page_of w acts p l r
    \<or> p = lw_next_page w \<and> l = k \<and> r = cm_request (the_command w c) \<and> lw_next_page w < lw_next_page w'"
    (is "_ \<or> ?Q")
proof (rule page_of_step [OF p])
  let ?r = "cm_request (the_command w c)"
  have k: "k < length (lw_leases w)" "c < length (lw_commands w)"
    using known [OF a] by (simp_all add: action_known_def)
  have mv: "world_moves w w'" unfolding w' by (rule perform_moves)
  show "page_of w acts p l r \<or> ?Q"
    if l: "l < length (lw_leases w')" "(r, p) \<in> set (ls_pages (the_lease w' l))"
  proof (cases rule: open_start_cases [of env i k c w])
    case new
    have "(r, p) \<in> set (ls_pages (the_lease w l)) \<or> l = k \<and> r = ?r \<and> p = lw_next_page w"
      using l new w' k set_dict_set_subset [of ?r "lw_next_page w" "ls_pages (the_lease w k)"]
      by (cases "l = k") auto
    then show ?thesis using l(1) new w' page_ofI(1) by auto
  qed (use l w' page_ofI(1) in auto)
  show "v \<in> set (lw_navigations w) \<or> page_of w acts (nv_page v) (nv_lease v) (nv_request v)"
    if "v \<in> set (lw_navigations w')" for v
    by (cases rule: open_start_cases [of env i k c w]) (use that w' in auto)
  show "page_of w acts p l r \<or> ?Q"
    if go: "Command (OpenGo l d p u b) \<in> set (planned (perform env m i (Command (OpenStart k c)) w)) \<union> acts"
      and r: "r = cm_request (the_command w' d)" for d u b
  proof (cases "Command (OpenGo l d p u b) \<in> acts")
    case True
    then show ?thesis using going_before [OF mv known True r] by blast
  next
    case False
    have "r = ?r" if "d = c" using request_kept [OF mv k(2)] r that by simp
    then show ?thesis
      by (cases rule: open_start_cases [of env i k c w]) (use go False k(1) w' page_ofI(1) in auto)
  qed
qed

lemma open_go_page:
  assumes known: "\<And>x. x \<in> acts \<Longrightarrow> action_known w x" and a: "Command (OpenGo k c n u b) \<in> acts"
    and w': "w' = after (perform env m i (Command (OpenGo k c n u b)) w)"
    and p: "page_of w' (set (planned (perform env m i (Command (OpenGo k c n u b)) w)) \<union> acts) p l r"
  shows "page_of w acts p l r"
proof -
  have mv: "world_moves w w'" unfolding w' by (rule perform_moves)
  have "page_of w acts p l r \<or> False"
  proof (rule page_of_step [OF p])
    show "page_of w acts p l r \<or> False"
      if "l < length (lw_leases w')" "(r, p) \<in> set (ls_pages (the_lease w' l))"
      using that w' page_ofI(1) by (auto simp: open_go_def Let_def raise_command_def split: option.splits if_splits)
    show "v \<in> set (lw_navigations w) \<or> page_of w acts (nv_page v) (nv_lease v) (nv_request v)"
      if "v \<in> set (lw_navigations w')" for v
      using that w' page_ofI(3) [OF a, of w]
      by (auto simp: open_go_def Let_def raise_command_def split: option.splits if_splits)
    show "page_of w acts p l r \<or> False"
      if go: "Command (OpenGo l d p v e) \<in> set (planned (perform env m i (Command (OpenGo k c n u b)) w)) \<union> acts"
        and r: "r = cm_request (the_command w' d)" for d v e
    proof -
      have "Command (OpenGo l d p v e) \<in> acts"
        using go by (auto simp: open_go_def Let_def raise_command_def split: option.splits if_splits)
      then show ?thesis using going_before [OF mv known _ r] by blast
    qed
  qed
  then show ?thesis by simp
qed

lemma perform_page_of:
  assumes known: "\<And>x. x \<in> acts \<Longrightarrow> action_known w x" and a: "a \<in> acts"
    and w': "w' = after (perform env m i a w)"
    and p: "page_of w' (set (planned (perform env m i a w)) \<union> acts) p l r"
  shows "page_of w acts p l r
    \<or> p = lw_next_page w \<and> (l, r) = new_page_of w a \<and> lw_next_page w < lw_next_page w'" (is "_ \<or> ?Q")
proof -
  have mv: "world_moves w w'" unfolding w' by (rule perform_moves)
  note old = going_before [OF mv known]
  have quiet: "page_of w acts p l r \<or> ?Q"
    if "\<And>k. k < length (lw_leases w') \<Longrightarrow> set (ls_pages (the_lease w' k)) \<subseteq>
          (if k < length (lw_leases w) then set (ls_pages (the_lease w k)) else {})"
      and "lw_navigations w' = lw_navigations w" and "\<And>x. x \<in> set (planned (perform env m i a w)) \<Longrightarrow> \<not> is_go x"
  proof (rule page_of_step [OF p])
    show "page_of w acts p l r \<or> ?Q"
      if "l < length (lw_leases w')" "(r, p) \<in> set (ls_pages (the_lease w' l))"
    proof -
      have "l < length (lw_leases w) \<and> (r, p) \<in> set (ls_pages (the_lease w l))"
        using \<open>\<And>k. k < length (lw_leases w') \<Longrightarrow> _\<close> [OF that(1)] that(2) by (auto split: if_splits)
      then show ?thesis using page_ofI(1) by blast
    qed
    show "v \<in> set (lw_navigations w) \<or> page_of w acts (nv_page v) (nv_lease v) (nv_request v)"
      if "v \<in> set (lw_navigations w')" for v
      using that \<open>lw_navigations w' = lw_navigations w\<close> by simp
    show "page_of w acts p l r \<or> ?Q"
      if "Command (OpenGo l c p u b) \<in> set (planned (perform env m i a w)) \<union> acts"
        "r = cm_request (the_command w' c)" for c u b
    proof -
      have "Command (OpenGo l c p u b) \<in> acts"
        using that(1) \<open>\<And>x. x \<in> set (planned (perform env m i a w)) \<Longrightarrow> \<not> is_go x\<close> by fastforce
      then show ?thesis using old that(2) by blast
    qed
  qed
  have still: ?thesis if "\<not> uses_pages a"
  proof (cases "is_create a")
    case True
    then obtain q where q: "a = Login (CreateLease q)" by (cases a rule: is_create.cases) auto
    have "lw_navigations w' = lw_navigations w
        \<and> (\<exists>ys. lw_leases w' = lw_leases w @ ys \<and> (\<forall>y\<in>set ys. ls_pages y = []))"
      using w' q by (auto simp: create_step_def create_lease_def new_lease_def Let_def)
    then show ?thesis by (intro quiet perform_no_go [OF that]) (auto simp: nth_append)
  next
    case False
    then have v: "pages_view w' = pages_view w" using perform_pages_view [OF _ that] w' by simp
    then have len: "length (lw_leases w') = length (lw_leases w)"
      unfolding pages_view_def by (metis length_map prod.inject)
    have "ls_pages (the_lease w' k) = ls_pages (the_lease w k)" if "k < length (lw_leases w)" for k
      using v that len unfolding pages_view_def by (metis nth_map prod.inject)
    then show ?thesis using v len by (intro quiet perform_no_go [OF that]) (auto simp: pages_view_def)
  qed
  show ?thesis
  proof (cases "uses_pages a")
    case True
    then show ?thesis
    proof (cases rule: uses_pages_cases)
      case (ready k)
      then have "k < length (lw_leases w)" using known [OF a] by (simp add: action_known_def)
      then show ?thesis by (intro quiet) (auto simp: w' ready nth_list_update split: if_splits)
    next
      case (start k c)
      show ?thesis using open_start_page [OF known a [unfolded start] w' [unfolded start]] p start by simp
    next
      case (go k c n u b)
      show ?thesis using open_go_page [OF known a [unfolded go] w' [unfolded go]] p go by simp
    qed
  qed (rule still)
qed

lemma perform_next_page: "lw_next_page w \<le> lw_next_page (after (perform env m i a w))"
proof (cases "is_create a \<or> uses_pages a")
  case True
  then consider (create) q where "a = Login (CreateLease q)" | (pages) "uses_pages a"
    by (cases a rule: is_create.cases) auto
  then show ?thesis
  proof cases
    case create
    then show ?thesis by (auto simp: create_step_def create_lease_def Let_def split: prod.split option.split)
  next
    case pages
    then show ?thesis
      by (cases rule: uses_pages_cases) (simp_all add: open_start_def open_go_def raise_command_def Let_def
          split: option.split sum.split bool.split)
  qed
next
  case False
  then have "pages_view (after (perform env m i a w)) = pages_view w"
    by (intro perform_pages_view) simp_all
  then show ?thesis by (simp add: pages_view_def)
qed

lemma perform_links:
  assumes "links_official w acts" and "a \<in> acts"
  shows "links_official (after (perform env m i a w)) (set (planned (perform env m i a w)) \<union> acts)"
proof (cases "uses_pages a")
  case True
  then show ?thesis
  proof (cases rule: uses_pages_cases)
    case ready
    then show ?thesis using assms(1) by (auto simp: links_official_def)
  next
    case (start l c)
    have "lw_navigations (after (perform env m i a w)) = lw_navigations w"
      by (cases rule: open_start_cases [of env i l c w]) (simp_all add: start)
    moreover have "official_link u" if "Command (OpenGo k d p u b) \<in> set (planned (perform env m i a w))" for k d p u b
      by (cases rule: open_start_cases [of env i l c w]) (use that start in auto)
    ultimately show ?thesis using assms(1) unfolding links_official_def by auto
  next
    case (go l c p u b)
    then have "official_link u" using assms unfolding links_official_def by blast
    then show ?thesis using go assms(1) unfolding links_official_def
      by (auto simp: open_go_def Let_def raise_command_def split: option.splits if_splits)
  qed
next
  case False
  have "lw_navigations (after (perform env m i a w)) = lw_navigations w"
  proof (cases "is_create a")
    case True
    then obtain q where "a = Login (CreateLease q)" by (cases a rule: is_create.cases) auto
    then show ?thesis by (auto simp: create_step_def create_lease_def Let_def split: option.split prod.split)
  next
    case create: False
    show ?thesis using perform_pages_view [OF create False, of env m i w] by (simp add: pages_view_def)
  qed
  moreover have "\<not> is_go x" if "x \<in> set (planned (perform env m i a w))" for x
    by (rule perform_no_go [OF False that])
  ultimately show ?thesis using assms(1) unfolding links_official_def by fastforce
qed

section \<open>Every run\<close>

definition pages_ok :: "lease_system \<Rightarrow> bool" where
  "pages_ok s \<longleftrightarrow> world_ok s \<and> pages_sole (sy_world s) (set (in_flight s))
     \<and> links_official (sy_world s) (set (in_flight s))"

lemma pages_ok_start: "pages_ok start_system"
  using world_ok_start by (simp add: pages_ok_def start_system_def empty_lease_world_def in_flight_def
      pages_sole_def page_of_def links_official_def)

lemma links_fewer: "links_official w acts \<Longrightarrow> acts' \<subseteq> acts \<Longrightarrow> links_official w acts'"
  unfolding links_official_def by blast

lemma page_of_mono: "page_of w acts' p l r \<Longrightarrow> acts' \<subseteq> acts \<Longrightarrow> page_of w acts p l r"
  unfolding page_of_def by blast

lemma pages_ok_step:
  assumes ok: "pages_ok s"
  shows "pages_ok (lease_step env m ev s)"
proof (rule lease_step_cases [OF refl, of env m ev s])
  fix call assume new: "lease_step env m ev s = s\<lparr>sy_threads := sy_threads s @ [[call_action call]]\<rparr>"
  have "\<not> is_go (call_action call)" by (cases call) simp_all
  then have "call_action call \<noteq> Command (OpenGo l c p u b)" for l c p u b by auto
  then have "(Command (OpenGo l c p u b) \<in> insert (call_action call) A) = (Command (OpenGo l c p u b) \<in> A)"
    for l c p u b A by (metis insert_iff)
  then have "page_of w (insert (call_action call) A) = page_of w A"
      "links_official w (insert (call_action call) A) = links_official w A" for w A
    unfolding page_of_def links_official_def by (simp_all only: )
  moreover have "set (in_flight (lease_step env m ev s)) = insert (call_action call) (set (in_flight s))"
    by (simp add: new in_flight_def)
  ultimately show ?thesis using ok world_ok_step [of s env m ev] unfolding pages_ok_def pages_sole_def
    by (simp add: new)
next
  fix n i a rest
  let ?s' = "lease_step env m ev s" and ?w = "sy_world s" and ?p = "perform env m i a (sy_world s)"
  assume act: "n < length (sy_threads s)" "sy_threads s ! n = a # rest"
    and ts: "sy_threads ?s' = (sy_threads s)[n := planned ?p @ (if fst ?p then [] else rest)]"
    and w: "sy_world ?s' = after ?p"
  let ?acts = "set (in_flight s)"
  have a: "a \<in> ?acts" by (rule in_flight_head(1) [OF act])
  have sub: "set (in_flight ?s') \<subseteq> set (planned ?p) \<union> ?acts"
    unfolding in_flight_def [of ?s'] ts by (rule in_flight_update [OF act]) simp
  have known: "action_known ?w x" if "x \<in> ?acts" for x
    using ok that unfolding pages_ok_def world_ok_def by blast
  obtain l0 r0 where lr: "new_page_of ?w a = (l0, r0)" by (metis surj_pair)
  have "pages_sole (after ?p) (set (in_flight ?s'))"
  proof (rule pages_sole_step)
    show "pages_sole ?w ?acts" using ok by (simp add: pages_ok_def)
    show "lw_next_page ?w \<le> lw_next_page (after ?p)" by (rule perform_next_page)
    fix p l r assume "page_of (after ?p) (set (in_flight ?s')) p l r"
    then have "page_of (after ?p) (set (planned ?p) \<union> ?acts) p l r" using page_of_mono sub by blast
    then show "page_of ?w ?acts p l r
        \<or> p = lw_next_page ?w \<and> l = l0 \<and> r = r0 \<and> lw_next_page ?w < lw_next_page (after ?p)"
      using perform_page_of [OF known a refl] lr by (metis prod.inject)
  qed
  moreover have "links_official (after ?p) (set (in_flight ?s'))"
    using ok perform_links [OF _ a] links_fewer [OF _ sub] by (simp add: pages_ok_def)
  ultimately show ?thesis using ok world_ok_step [of s env m ev] w by (simp add: pages_ok_def)
next
  assume "lease_step env m ev s = s"
  then show ?thesis using ok by simp
qed

interpretation pages: invariant_machine "lease_step env m" pages_ok for env m
  by unfold_locales (rule pages_ok_step)

lemma pages_ok_run: "pages_ok s \<Longrightarrow> pages_ok (lease_run env m evs s)"
  unfolding lease_run_def by (rule pages.run_keeps)

end
