(* ===== verification/LeaseLife.thy ===== *)
theory LeaseLife
  imports LeasePages
begin

text \<open>
  Leases without an owner. Operators' requests never end a lease: without the actions
  of its owner a lease is active for ever.
\<close>

section \<open>Leases without an owner\<close>

fun operator_action :: "action \<Rightarrow> bool" where
  "operator_action (Request a) = True"
| "operator_action (Shared (SetStatus l s e)) = (s = Releasing)"
| "operator_action (Shared a) = True"
| "operator_action a = False"

definition unowned :: "nat \<Rightarrow> lease_system \<Rightarrow> bool" where
  "unowned l s \<longleftrightarrow> (\<forall>x\<in>set (in_flight s). act_lease x = Some l \<longrightarrow> operator_action x)"

lemma request_plans_requests: "x \<in> set (planned (perform_request env i a w)) \<Longrightarrow> operator_action x"
  by (cases a) (auto simp: await_refresh_def await_open_def release_lease_def refresh_lease_def
      add_command_def Let_def update_remote_def open_gcash_def open_queue_def
      split: option.splits sum.splits list.splits if_splits)

lemma operator_plans:
  assumes "operator_action a" and "x \<in> set (planned (perform env m i a w))"
  shows "operator_action x"
proof (cases a)
  case (Shared b)
  then show ?thesis using assms
    by (cases b) (auto simp: set_status_def fail_pending_def Let_def split: list.splits if_splits)
next
  case (Request b)
  then show ?thesis using assms request_plans_requests by simp
qed (use assms in auto)

lemma other_plans:
  assumes "act_lease a \<noteq> Some l" and "l < length (lw_leases w)"
    and "x \<in> set (planned (perform env m i a w))" and "act_lease x = Some l"
  shows "operator_action x"
proof (cases "is_create a")
  case True
  then obtain q where "a = Login (CreateLease q)" by (cases a rule: is_create.cases) auto
  then show ?thesis using assms by (auto simp: create_step_def create_lease_def Let_def split: if_splits)
next
  case False
  show ?thesis
  proof (cases a)
    case (Request b)
    then show ?thesis using assms(3) request_plans_requests by simp
  next
    case (Shared b)
    show ?thesis
    proof (cases "\<exists>k. b = Announce k")
      case True
      then show ?thesis using Shared assms(3) by auto
    next
      case nf: False
      show ?thesis
      proof (cases "shared_lease b")
        case None
        then show ?thesis using Shared assms(3) by (cases b) auto
      next
        case (Some k)
        then show ?thesis using about_shared [OF Some, of env i w] nf Shared assms by (auto simp: about_def)
      qed
    qed
  next
    case (Login b)
    then obtain k where "login_lease b = Some k" using False by (cases b) simp_all
    then show ?thesis using about_login [of b k env m i w] Login assms by (auto simp: about_def)
  next
    case (Hold b)
    then show ?thesis using about_hold [of b i w] assms by (auto simp: about_def)
  next
    case (Command b)
    then show ?thesis using about_command [of b env i w] assms by (auto simp: about_def)
  qed
qed

lemma set_status_other: "k \<noteq> l \<Longrightarrow> the_lease (after (set_status now k s e w)) l = the_lease w l"
  by (simp add: set_status_def)

lemma status_kept:
  assumes "l < length (lw_leases w)" and "act_lease a = Some l \<Longrightarrow> operator_action a"
  shows "ls_status (the_lease (after (perform env m i a w)) l) \<in> {ls_status (the_lease w l), Releasing}"
proof (cases "is_create a \<or> sets_status a")
  case True
  then consider (create) q where "a = Login (CreateLease q)" | (status) k s e where "a = Shared (SetStatus k s e)"
    by (cases a rule: is_create.cases; cases a rule: sets_status.cases) auto
  then show ?thesis
  proof cases
    case create
    then show ?thesis using assms(1) by (auto simp: create_step_def create_lease_def Let_def nth_append)
  next
    case status
    show ?thesis
    proof (cases "k = l")
      case True
      then have "s = Releasing" using status assms(2) by simp
      then show ?thesis using status assms(1) True by (simp add: set_status_def transitioned_def Let_def)
    next
      case False
      then show ?thesis using status set_status_other by simp
    qed
  qed
next
  case False
  then have "statuses (after (perform env m i a w)) = statuses w" by (intro perform_statuses) simp_all
  moreover from this have "length (lw_leases (after (perform env m i a w))) = length (lw_leases w)"
    unfolding statuses_def by (metis length_map)
  ultimately show ?thesis using assms(1) unfolding statuses_def by (metis insertI1 nth_map)
qed

lemma unowned_step:
  assumes l: "l < length (lw_leases (sy_world s))" and un: "unowned l s"
    and act: "\<not> lease_over (ls_status (the_lease (sy_world s) l))"
  shows "unowned l (lease_step env m ev s)
    \<and> \<not> lease_over (ls_status (the_lease (sy_world (lease_step env m ev s)) l))"
proof (rule lease_step_cases [OF refl, of env m ev s])
  fix call assume "lease_step env m ev s = s\<lparr>sy_threads := sy_threads s @ [[call_action call]]\<rparr>"
  moreover have "act_lease (call_action call) = None" by (cases call) simp_all
  ultimately show ?thesis using un act by (auto simp: unowned_def in_flight_def)
next
  fix n i a rest
  let ?s' = "lease_step env m ev s" and ?p = "perform env m i a (sy_world s)"
  assume th: "n < length (sy_threads s)" "sy_threads s ! n = a # rest"
    and ts: "sy_threads ?s' = (sy_threads s)[n := planned ?p @ (if fst ?p then [] else rest)]"
    and w: "sy_world ?s' = after ?p"
  have a: "act_lease a = Some l \<Longrightarrow> operator_action a"
    using un in_flight_head(1) [OF th] unfolding unowned_def by blast
  have sub: "set (in_flight ?s') \<subseteq> set (planned ?p) \<union> set (in_flight s)"
    unfolding in_flight_def [of ?s'] ts by (rule in_flight_update [OF th]) simp
  have "operator_action x" if "x \<in> set (planned ?p)" "act_lease x = Some l" for x
    using operator_plans [OF a that(1)] other_plans [OF _ l that] by blast
  then have "unowned l ?s'" using sub un unfolding unowned_def by blast
  moreover have "\<not> lease_over (ls_status (the_lease (sy_world ?s') l))"
    using status_kept [OF l a, of env m i] act w by auto
  ultimately show ?thesis by simp
next
  assume "lease_step env m ev s = s"
  then show ?thesis using un act by simp
qed

definition stranded :: "nat \<Rightarrow> lease_system \<Rightarrow> bool" where
  "stranded l s \<longleftrightarrow> l < length (lw_leases (sy_world s)) \<and> unowned l s
     \<and> \<not> lease_over (ls_status (the_lease (sy_world s) l))"

lemma stranded_step: "stranded l s \<Longrightarrow> stranded l (lease_step env m ev s)"
  using unowned_step moved_over(4) [OF lease_step_moves] unfolding stranded_def by blast

interpretation stranded: frozen_machine "lease_step env m" "stranded l"
    "\<lambda>s. ls_account (the_lease (sy_world s) l)" for env m l
proof (unfold_locales, goal_cases)
  case (1 s e)
  then show ?case by (rule stranded_step)
next
  case (2 s e)
  then show ?case using moved_over(2) [OF lease_step_moves] by (simp add: stranded_def)
qed

text \<open>A stranded lease is the active lease of its account for ever.\<close>

lemma stranded_active:
  assumes "stranded l s" and "ls_account (the_lease (sy_world s) l) = a"
  shows "lease_active (sy_world (lease_run env m evs s)) a l"
  using stranded.run_keeps [OF assms(1)] stranded.run_obs [OF assms(1)] assms(2)
  unfolding lease_run_def by (simp add: stranded_def lease_active_def)

end
