(* ===== verification/LeaseOwnership.thy ===== *)
theory LeaseOwnership
  imports LeaseLife
begin

text \<open>
  The owner of a lease: at most one thread has actions that only an owner does. What
  the other threads can do to the lease meanwhile is little, so a plan of the owner
  that no call interrupts is carried out whatever the others do in between.
\<close>

section \<open>One owner\<close>

definition owner_action :: "nat \<Rightarrow> action \<Rightarrow> bool" where
  "owner_action l x \<longleftrightarrow> act_lease x = Some l \<and> \<not> operator_action x"

definition sole_owners :: "lease_system \<Rightarrow> bool" where
  "sole_owners s \<longleftrightarrow> (\<forall>l n k. n < length (sy_threads s) \<longrightarrow> k < length (sy_threads s) \<longrightarrow>
     (\<exists>x\<in>set (sy_threads s ! n). owner_action l x) \<longrightarrow> (\<exists>x\<in>set (sy_threads s ! k). owner_action l x) \<longrightarrow> n = k)"

definition owned_ok :: "lease_system \<Rightarrow> bool" where
  "owned_ok s \<longleftrightarrow> world_ok s \<and> sole_owners s"

lemma in_flightI: "n < length (sy_threads s) \<Longrightarrow> x \<in> set (sy_threads s ! n) \<Longrightarrow> x \<in> set (in_flight s)"
  unfolding in_flight_def by (auto intro: nth_mem)

lemma owner_lease: "world_ok s \<Longrightarrow> n < length (sy_threads s) \<Longrightarrow> x \<in> set (sy_threads s ! n) \<Longrightarrow>
    owner_action l x \<Longrightarrow> l < length (lw_leases (sy_world s))"
  using in_flightI unfolding world_ok_def action_known_def owner_action_def by blast

text \<open>An owner's action is planned by the owner, or by the thread that creates the lease.\<close>

lemma planned_owner:
  assumes "x \<in> set (planned (perform env m i a w))" and "owner_action l x" and "l < length (lw_leases w)"
  shows "owner_action l a"
proof (rule ccontr)
  assume a: "\<not> owner_action l a"
  have "operator_action x"
  proof (cases "act_lease a = Some l")
    case True
    with a have "operator_action a" by (simp add: owner_action_def)
    then show ?thesis using assms(1) by (rule operator_plans)
  next
    case False
    then show ?thesis using other_plans assms by (auto simp: owner_action_def)
  qed
  then show False using assms(2) by (simp add: owner_action_def)
qed

lemma sole_owners_step:
  assumes ok: "world_ok s" and sole: "sole_owners s"
  shows "sole_owners (lease_step env m ev s)"
proof (rule lease_step_cases [OF refl, of env m ev s])
  fix call assume new: "lease_step env m ev s = s\<lparr>sy_threads := sy_threads s @ [[call_action call]]\<rparr>"
  have "\<not> owner_action l (call_action call)" for l by (cases call) (simp_all add: owner_action_def)
  then show ?thesis using sole unfolding new sole_owners_def
    by (auto simp: nth_append less_Suc_eq split: if_splits)
next
  fix n i a rest
  let ?s' = "lease_step env m ev s" and ?p = "perform env m i a (sy_world s)"
  assume th: "n < length (sy_threads s)" "sy_threads s ! n = a # rest"
    and ts: "sy_threads ?s' = (sy_threads s)[n := planned ?p @ (if fst ?p then [] else rest)]"
  have was: "\<exists>y\<in>set (sy_threads s ! j). owner_action l y"
    if x: "j < length (sy_threads s)" "x \<in> set (sy_threads ?s' ! j)" "owner_action l x"
      and l: "l < length (lw_leases (sy_world s))" for j x l
  proof (cases "j = n")
    case True
    then have "x \<in> set (planned ?p) \<or> x \<in> set rest" using x(2) th(1) ts by (auto split: if_splits)
    then show ?thesis using planned_owner [OF _ x(3) l] x(3) th True by auto
  next
    case False
    then show ?thesis using x th(1) ts by auto
  qed
  have fresh: "j = n" if x: "j < length (sy_threads s)" "x \<in> set (sy_threads ?s' ! j)" "owner_action l x"
      and l: "\<not> l < length (lw_leases (sy_world s))" for j x l
  proof (rule ccontr)
    assume "j \<noteq> n"
    then have "x \<in> set (sy_threads s ! j)" using x th(1) ts by simp
    then show False using owner_lease [OF ok x(1) _ x(3)] l by blast
  qed
  show ?thesis unfolding sole_owners_def
  proof (intro allI impI)
    fix l j k
    assume "j < length (sy_threads ?s')" "k < length (sy_threads ?s')"
      and jk: "\<exists>x\<in>set (sy_threads ?s' ! j). owner_action l x" "\<exists>x\<in>set (sy_threads ?s' ! k). owner_action l x"
    then have "j < length (sy_threads s)" "k < length (sy_threads s)" by (simp_all add: ts)
    then show "j = k"
      using jk was fresh sole unfolding sole_owners_def by (cases "l < length (lw_leases (sy_world s))") metis+
  qed
next
  assume "lease_step env m ev s = s"
  then show ?thesis using sole by simp
qed

interpretation owners: invariant_machine "lease_step env m" owned_ok for env m
  by unfold_locales (simp add: owned_ok_def world_ok_step sole_owners_step)

lemma owned_ok_start: "owned_ok start_system"
  using world_ok_start by (simp add: owned_ok_def sole_owners_def start_system_def)

lemma owned_ok_run: "owned_ok s \<Longrightarrow> owned_ok (lease_run env m evs s)"
  unfolding lease_run_def by (rule owners.run_keeps)

lemma owned_ok_reached: "owned_ok (lease_run env m evs start_system)"
  by (rule owned_ok_run [OF owned_ok_start])

lemma owner_elsewhere:
  assumes "owned_ok s" and "n < length (sy_threads s)" and "\<exists>x\<in>set (sy_threads s ! n). owner_action l x"
    and "k < length (sy_threads s)" and "k \<noteq> n" and "x \<in> set (sy_threads s ! k)"
  shows "\<not> owner_action l x"
  using assms unfolding owned_ok_def sole_owners_def by blast

text \<open>When the owner's thread has nothing left to do, the lease has no owner any more.\<close>

lemma owner_gone:
  assumes ok: "owned_ok s" and n: "n < length (sy_threads s)" "\<exists>x\<in>set (sy_threads s ! n). owner_action l x"
    and s': "sy_threads s' = (sy_threads s)[n := []]"
  shows "unowned l s'"
  unfolding unowned_def
proof (intro ballI impI)
  fix x assume "x \<in> set (in_flight s')" and l: "act_lease x = Some l"
  then obtain k where k: "k < length (sy_threads s')" "x \<in> set (sy_threads s' ! k)"
    unfolding in_flight_def set_concat by (metis UN_iff in_set_conv_nth)
  then have "k \<noteq> n" "k < length (sy_threads s)" "x \<in> set (sy_threads s ! k)"
    using s' n(1) by (auto simp: nth_list_update split: if_splits)
  then have "\<not> owner_action l x" using owner_elsewhere [OF ok n] by blast
  then show "operator_action x" using l by (simp add: owner_action_def)
qed

section \<open>What other threads do to a lease\<close>

definition others_moved :: "nat \<Rightarrow> lease_world \<Rightarrow> lease_world \<Rightarrow> bool" where
  "others_moved l w w' \<longleftrightarrow> l < length (lw_leases w) \<and> world_moves w w'
     \<and> ls_status (the_lease w' l) \<in> {ls_status (the_lease w l), Releasing}
     \<and> (lease_over (ls_status (the_lease w l)) \<longrightarrow> ls_release (the_lease w' l) = ls_release (the_lease w l))"

lemma others_movedD:
  assumes "others_moved l w w'"
  shows "l < length (lw_leases w)" "l < length (lw_leases w')"
    and "ls_account (the_lease w' l) = ls_account (the_lease w l)"
    and "ls_release (the_lease w l) \<Longrightarrow> ls_release (the_lease w' l)"
    and "ls_status (the_lease w' l) = ls_status (the_lease w l) \<or> ls_status (the_lease w' l) = Releasing"
    and "lease_over (ls_status (the_lease w l)) \<Longrightarrow> ls_status (the_lease w' l) = ls_status (the_lease w l)"
    and "lease_over (ls_status (the_lease w l)) \<Longrightarrow> ls_release (the_lease w' l) = ls_release (the_lease w l)"
proof -
  have m: "world_moves w w'" and l: "l < length (lw_leases w)" using assms by (simp_all add: others_moved_def)
  show "l < length (lw_leases w)" by (rule l)
  show "l < length (lw_leases w')" "ls_account (the_lease w' l) = ls_account (the_lease w l)"
    using moved_over(4,2) [OF m l] .
  show "lease_over (ls_status (the_lease w l)) \<Longrightarrow> ls_status (the_lease w' l) = ls_status (the_lease w l)"
    using moved_over(1) [OF m l] .
  show "ls_release (the_lease w l) \<Longrightarrow> ls_release (the_lease w' l)"
    using m l unfolding world_moves_def extends_def lease_moves_def by blast
qed (use assms in \<open>simp_all add: others_moved_def\<close>)

text \<open>The release of a lease that is over is not asked for any more.\<close>

definition releases :: "lease_world \<Rightarrow> bool list" where
  "releases w = map ls_release (lw_leases w)"

lemma releases_upd_lease:
  "ls_release (f (the_lease w l)) = ls_release (the_lease w l) \<Longrightarrow> releases (upd_lease l f w) = releases w"
  unfolding releases_def by (simp add: map_update) (metis list_update_id map_update)

lemma releases_same [simp]:
  "releases (upd_command c g w) = releases w" "releases (w\<lparr>lw_commands := cs\<rparr>) = releases w"
  "releases (w\<lparr>lw_profiles := ps\<rparr>) = releases w" "releases (w\<lparr>lw_next_page := n\<rparr>) = releases w"
  "releases (w\<lparr>lw_navigations := ns\<rparr>) = releases w" "releases (w\<lparr>lw_active := d\<rparr>) = releases w"
  by (simp_all add: releases_def)

lemma section_release [simp]:
  "ls_release (touched now x) = ls_release x"
  "ls_release (remote_updated now st link qr u x) = ls_release x"
  "ls_release (invalid_link_noted now request job digest e x) = ls_release x"
  "ls_release (open_queued now c finished digest request job x) = ls_release x"
  "ls_release (tab_failure_noted now c cmd err ts x) = ls_release x"
  "ls_release (tab_opened now c request x) = ls_release x" "ls_release (tab_closed now x) = ls_release x"
  by (simp_all add: touched_def remote_updated_def Let_def invalid_link_noted_def open_queued_def
      tab_failure_noted_def tab_opened_def tab_closed_def)

fun asks_release :: "action \<Rightarrow> bool" where
  "asks_release (Request (ReleaseLease l)) = True"
| "asks_release _ = False"

lemma perform_releases:
  assumes "\<not> is_create a" and "\<not> asks_release a"
  shows "releases (after (perform env m i a w)) = releases w"
proof (cases a)
  case (Shared b)
  then show ?thesis by (cases b) (simp_all add: lease_changed_def fail_pending_def set_status_def
      fail_command_def save_profile_def Let_def releases_upd_lease split: list.split outcome.split)
next
  case (Request b)
  then show ?thesis using assms by (cases b) (simp_all add: await_refresh_def await_open_def
      refresh_lease_def add_command_def Let_def update_remote_def open_gcash_def open_queue_def
      releases_upd_lease split: option.split sum.split list.split)
next
  case (Login b)
  then show ?thesis using assms by (cases b) (simp_all add: leave_browser_def releases_upd_lease
      split: option.split raised.split)
next
  case (Hold b)
  then show ?thesis by (cases b) (simp_all add: publish_def outside_call_def page_check_def Let_def
      releases_upd_lease split: option.split list.split)
next
  case (Command b)
  then show ?thesis by (cases b) (simp_all add: begin_command_def raise_command_def Let_def open_start_def
      open_go_def open_settled_def open_answer_def command_raised_def end_command_def outside_call_def
      releases_upd_lease split: option.split raised.split sum.split bool.split)
qed

lemma release_kept:
  assumes l: "l < length (lw_leases w)" and over: "lease_over (ls_status (the_lease w l))"
  shows "ls_release (the_lease (after (perform env m i a w)) l) = ls_release (the_lease w l)"
proof (cases "is_create a \<or> asks_release a")
  case True
  then consider (create) q where "a = Login (CreateLease q)" | (ask) k where "a = Request (ReleaseLease k)"
    by (cases a rule: is_create.cases; cases a rule: asks_release.cases) auto
  then show ?thesis
  proof cases
    case create
    then show ?thesis using l by (auto simp: create_step_def create_lease_def Let_def nth_append)
  next
    case ask
    then show ?thesis using over by (cases "k = l") (simp_all add: release_lease_def Let_def split: option.split)
  qed
next
  case False
  then have r: "releases (after (perform env m i a w)) = releases w" by (intro perform_releases) simp_all
  then have "length (lw_leases (after (perform env m i a w))) = length (lw_leases w)"
    unfolding releases_def by (metis length_map)
  then show ?thesis using r l unfolding releases_def by (metis nth_map)
qed

lemma over_release_step:
  assumes "l < length (lw_leases (sy_world s))" and "lease_over (ls_status (the_lease (sy_world s) l))"
  shows "ls_release (the_lease (sy_world (lease_step env m ev s)) l) = ls_release (the_lease (sy_world s) l)"
  by (rule lease_step_cases [OF refl, of env m ev s]) (simp_all add: release_kept [OF assms])

lemma over_release_run:
  assumes "l < length (lw_leases (sy_world s))" and "lease_over (ls_status (the_lease (sy_world s) l))"
  shows "ls_release (the_lease (sy_world (lease_run env m evs s)) l) = ls_release (the_lease (sy_world s) l)"
  using assms
proof (induction evs arbitrary: s)
  case (Cons ev evs)
  note moved = moved_over [OF lease_step_moves Cons.prems(1), of env m ev]
  show ?case using Cons.IH [of "lease_step env m ev s"] moved(1,4) Cons.prems over_release_step [OF Cons.prems]
    by simp
qed simp

section \<open>The owner's plan\<close>

text \<open>The steps of the owner's thread within a run, and one of them.\<close>

fun own_inputs :: "nat \<Rightarrow> lease_event list \<Rightarrow> step_input list" where
  "own_inputs n [] = []"
| "own_inputs n (NewThread call # evs) = own_inputs n evs"
| "own_inputs n (RunThread k i # evs) = (if k = n then i # own_inputs n evs else own_inputs n evs)"

definition own_step ::
  "lease_env \<Rightarrow> nat \<Rightarrow> step_input \<Rightarrow> action list \<Rightarrow> lease_world \<Rightarrow> action list \<times> lease_world" where
  "own_step env m i acts w =
     (case acts of
        [] \<Rightarrow> ([], w)
      | a # rest \<Rightarrow> (let (raised, plan, w') = perform env m i a w in (plan @ (if raised then [] else rest), w')))"

lemma own_inputs_append: "own_inputs n (es @ fs) = own_inputs n es @ own_inputs n fs"
  by (induction n es rule: own_inputs.induct) simp_all

lemma run_own:
  assumes "n < length (sy_threads s)"
  shows "sy_threads (lease_step env m (RunThread n i) s) ! n = fst (own_step env m i (sy_threads s ! n) (sy_world s))"
    and "sy_world (lease_step env m (RunThread n i) s) = snd (own_step env m i (sy_threads s ! n) (sy_world s))"
  using assms by (auto simp: run_thread_def own_step_def split: list.splits prod.splits)

lemma threads_grow: "length (sy_threads s) \<le> length (sy_threads (lease_step env m ev s))"
  by (rule lease_step_cases [OF refl, of env m ev s]) simp_all

lemma threads_grow_run: "length (sy_threads s) \<le> length (sy_threads (lease_run env m evs s))"
  by (induction evs arbitrary: s) (auto intro: order_trans [OF threads_grow])

text \<open>A thread that is done does nothing more.\<close>

lemma done_stays:
  assumes "n < length (sy_threads s)" and "sy_threads s ! n = []"
  shows "sy_threads (lease_run env m evs s) ! n = []"
  using assms
proof (induction evs arbitrary: s)
  case (Cons ev evs)
  have "sy_threads (lease_step env m ev s) ! n = []"
    by (rule lease_step_cases [OF refl, of env m ev s]) (use Cons.prems in \<open>auto simp: nth_append nth_list_update\<close>)
  then show ?case using Cons.IH [of "lease_step env m ev s"] Cons.prems(1) threads_grow [of s env m ev] by simp
qed simp

text \<open>A step of another thread leaves the owner's plan and moves its lease a little.\<close>

lemma others_step:
  assumes ok: "owned_ok s" and n: "n < length (sy_threads s)" "\<exists>x\<in>set (sy_threads s ! n). owner_action l x"
    and ev: "\<And>i. ev \<noteq> RunThread n i"
  shows "sy_threads (lease_step env m ev s) ! n = sy_threads s ! n
    \<and> others_moved l (sy_world s) (sy_world (lease_step env m ev s))"
proof -
  have l: "l < length (lw_leases (sy_world s))"
    using ok owner_lease n unfolding owned_ok_def by blast
  show ?thesis
  proof (rule lease_step_cases [OF refl, of env m ev s])
    fix call assume "lease_step env m ev s = s\<lparr>sy_threads := sy_threads s @ [[call_action call]]\<rparr>"
    then show ?thesis using n(1) l by (simp add: nth_append others_moved_def)
  next
    fix k i a rest
    assume k: "k < length (sy_threads s)" "sy_threads s ! k = a # rest" and e: "ev = RunThread k i"
      and ts: "sy_threads (lease_step env m ev s) = (sy_threads s)[k := planned (perform env m i a (sy_world s))
        @ (if fst (perform env m i a (sy_world s)) then [] else rest)]"
      and w: "sy_world (lease_step env m ev s) = after (perform env m i a (sy_world s))"
    have kn: "k \<noteq> n" using ev e by blast
    then have "\<not> owner_action l a" using owner_elsewhere [OF ok n k(1)] k(2) by simp
    then have "act_lease a = Some l \<Longrightarrow> operator_action a" by (simp add: owner_action_def)
    note kept = status_kept [OF l this, of env m i]
    have "world_moves (sy_world s) (after (perform env m i a (sy_world s)))"
      using lease_step_moves [of s env m ev] unfolding w .
    then show ?thesis using kept release_kept [OF l] l kn unfolding ts w others_moved_def by simp
  next
    assume "lease_step env m ev s = s"
    then show ?thesis using l by (simp add: others_moved_def)
  qed
qed

text \<open>
  A plan in stages: every step of the owner with an input of the kind \<open>ok\<close> comes
  nearer to stage 0, and nothing that another thread does changes the stage. Then
  the owner reaches stage 0 in as many steps of its own as the number of the stage,
  however the steps of others are mixed in.
\<close>

locale owner_plan =
  fixes env :: lease_env and m :: nat and l :: nat and ok :: "step_input \<Rightarrow> bool"
    and stage :: "nat \<Rightarrow> action list \<Rightarrow> lease_world \<Rightarrow> bool"
  assumes own: "stage k acts w \<Longrightarrow> 0 < k \<Longrightarrow> ok i \<Longrightarrow> l < length (lw_leases w) \<Longrightarrow>
      \<exists>j<k. stage j (fst (own_step env m i acts w)) (snd (own_step env m i acts w))"
    and owner: "stage k acts w \<Longrightarrow> 0 < k \<Longrightarrow> \<exists>x\<in>set acts. owner_action l x"
    and others: "stage k acts w \<Longrightarrow> 0 < k \<Longrightarrow> others_moved l w w' \<Longrightarrow> stage k acts w'"
begin

lemma reaches:
  assumes "owned_ok s" and "n < length (sy_threads s)" and "stage k (sy_threads s ! n) (sy_world s)"
    and "list_all ok (own_inputs n evs)" and "k \<le> length (own_inputs n evs)"
  shows "\<exists>es fs. evs = es @ fs \<and> length (own_inputs n es) \<le> k
    \<and> stage 0 (sy_threads (lease_run env m es s) ! n) (sy_world (lease_run env m es s))"
  using assms
proof (induction evs arbitrary: s k)
  case Nil
  then show ?case by simp
next
  case (Cons ev evs)
  show ?case
  proof (cases "k = 0")
    case True
    then show ?thesis using Cons.prems(3) by (intro exI [of _ "[]"] exI [of _ "ev # evs"]) simp
  next
    case False
    let ?s = "lease_step env m ev s"
    have ok': "owned_ok ?s" using owned_ok_run [OF Cons.prems(1), of env m "[ev]"] by simp
    have n': "n < length (sy_threads ?s)" using Cons.prems(2) threads_grow order_less_le_trans by blast
    have o: "\<exists>x\<in>set (sy_threads s ! n). owner_action l x" using owner Cons.prems(3) False by blast
    obtain j where j: "stage j (sy_threads ?s ! n) (sy_world ?s)" "list_all ok (own_inputs n evs)"
      "j \<le> length (own_inputs n evs)" "length (own_inputs n [ev]) + j \<le> k"
    proof (cases "\<exists>i. ev = RunThread n i")
      case True
      then obtain i where i: "ev = RunThread n i" by blast
      have "l < length (lw_leases (sy_world s))"
        using Cons.prems(1,2) o owner_lease unfolding owned_ok_def by blast
      moreover have "ok i" using Cons.prems(4) i by simp
      ultimately obtain j where "j < k" "stage j (sy_threads ?s ! n) (sy_world ?s)"
        using own [OF Cons.prems(3)] False unfolding i run_own [OF Cons.prems(2)] by blast
      then show thesis using that Cons.prems(4,5) i by simp
    next
      case no: False
      then have same: "own_inputs n (ev # evs) = own_inputs n evs" "own_inputs n [ev] = []"
        by (cases ev; simp)+
      have "stage k (sy_threads ?s ! n) (sy_world ?s)"
        using others_step [OF Cons.prems(1,2) o, of ev env m] others [OF Cons.prems(3)] False no by auto
      then show thesis using that Cons.prems(4,5) same by simp
    qed
    obtain es fs where "evs = es @ fs" "length (own_inputs n es) \<le> j"
      "stage 0 (sy_threads (lease_run env m es ?s) ! n) (sy_world (lease_run env m es ?s))"
      using Cons.IH [OF ok' n' j(1-3)] by blast
    then show ?thesis using j(4) own_inputs_append [of n "[ev]" es]
      by (intro exI [of _ "ev # es"] exI [of _ fs]) simp
  qed
qed

end

end
