(* ===== verification/LeasePlans.thy ===== *)
theory LeasePlans
  imports LeaseOwnership
begin

text \<open>
  Three plans of the owner of a lease in stages: from the head of the hold loop to the
  saved profile, from there to the end of the released lease, and from a failed
  attempt on a lease that is over to the next hold on the same lease.
\<close>

lemma fine_thrown [simp]:
  "in_outcome i = Fine \<Longrightarrow> thrown x i = None" "in_outcome i = Fine \<Longrightarrow> task_thrown i = None"
  "in_outcome i = Fine \<Longrightarrow> plain_thrown i = None"
  by (simp_all add: thrown_def task_thrown_def plain_thrown_def)

lemma lease_changed_same [simp]:
  "lw_leases (lease_changed l s w) = lw_leases w" "lw_profiles (lease_changed l s w) = lw_profiles w"
  by (simp_all add: lease_changed_def Let_def)

lemma saved_same [simp]:
  assumes "in_outcome i = Fine" and "l < length (lw_leases w)"
  shows "ls_status (the_lease (save_profile env i l w) l) = ls_status (the_lease w l)"
    "ls_release (the_lease (save_profile env i l w) l) = ls_release (the_lease w l)"
    "ls_account (the_lease (save_profile env i l w) l) = ls_account (the_lease w l)"
    "dict_get (lw_profiles (save_profile env i l w)) (ls_account (the_lease w l))
      = Some (filtered_storage (le_netloc_ok env) (in_storage i))"
  using assms by (simp_all add: save_profile_def Let_def)

lemma set_status_plain:
  assumes "l < length (lw_leases w)" and "\<not> transition_refused st (the_lease w l)"
  shows "fst (set_status now l st e w) = False" "planned (set_status now l st e w) = [Shared (Announce l)]"
    "ls_status (the_lease (after (set_status now l st e w)) l) = st"
    "ls_release (the_lease (after (set_status now l st e w)) l) = ls_release (the_lease w l)"
    "ls_account (the_lease (after (set_status now l st e w)) l) = ls_account (the_lease w l)"
  using assms by (simp_all add: set_status_def)

section \<open>From the hold loop to the saved profile\<close>

definition leaving :: "nat \<Rightarrow> action list" where
  "leaving l = [Hold (LogLine l InsideHold), Login (LeaveBrowser l None)]"

inductive saving_plan :: "nat \<Rightarrow> nat \<Rightarrow> action list \<Rightarrow> bool" for l :: nat where
  "saving_plan l 5 [Hold (HoldLoop l)]"
| "saving_plan l 4 (Shared (SetStatus l Releasing []) # Shared (Checkpoint l) # Shared (CloseTabs l) # leaving l)"
| "saving_plan l 3 (Shared (Announce l) # Shared (Checkpoint l) # Shared (CloseTabs l) # leaving l)"
| "saving_plan l 2 (Shared (Deliver l st) # Shared (Checkpoint l) # Shared (CloseTabs l) # leaving l)"
| "saving_plan l 1 (Shared (Checkpoint l) # Shared (CloseTabs l) # leaving l)"
| "saving_plan l 0 (Shared (CloseTabs l) # leaving l)"

lemmas saving_stages = saving_plan.intros [unfolded leaving_def]
  saving_plan.intros(5) [unfolded leaving_def One_nat_def]

definition saving :: "lease_env \<Rightarrow> (step_input \<Rightarrow> bool) \<Rightarrow> nat \<Rightarrow> int \<Rightarrow> nat \<Rightarrow> action list \<Rightarrow> lease_world \<Rightarrow> bool" where
  "saving env ok l a k acts w \<longleftrightarrow> saving_plan l k acts \<and> ls_release (the_lease w l)
     \<and> ls_account (the_lease w l) = a \<and> \<not> lease_over (ls_status (the_lease w l))
     \<and> (k \<le> 3 \<longrightarrow> ls_status (the_lease w l) = Releasing)
     \<and> (k = 0 \<longrightarrow> (\<exists>i. ok i \<and> dict_get (lw_profiles w) a = Some (filtered_storage (le_netloc_ok env) (in_storage i))))"

lemma saving_own:
  assumes st: "saving env ok l a k acts w" and "0 < k" and i: "ok i" "in_outcome i = Fine"
    and l: "l < length (lw_leases w)"
  shows "\<exists>j<k. saving env ok l a j (fst (own_step env m i acts w)) (snd (own_step env m i acts w))"
proof -
  have plan: "saving_plan l k acts" and w: "ls_release (the_lease w l)" "ls_account (the_lease w l) = a"
    "\<not> lease_over (ls_status (the_lease w l))" "k \<le> 3 \<Longrightarrow> ls_status (the_lease w l) = Releasing"
    using st by (simp_all add: saving_def)
  from plan show ?thesis
  proof cases
    case 1
    then show ?thesis using w by (intro exI [of _ 4])
        (simp add: own_step_def saving_def leaving_def saving_stages)
  next
    case 2
    have "\<not> transition_refused Releasing (the_lease w l)" using w(3) by (auto simp: transition_refused_def)
    note s = set_status_plain [OF l this]
    show ?thesis using w 2 s by (intro exI [of _ 3])
        (simp add: own_step_def saving_def leaving_def saving_stages split_beta)
  next
    case 3
    then show ?thesis using w by (intro exI [of _ 2]) (simp add: own_step_def saving_def leaving_def saving_stages)
  next
    case (4 st)
    then show ?thesis using w by (intro exI [of _ 1]) (simp add: own_step_def saving_def leaving_def saving_stages)
  next
    case 5
    then show ?thesis using w i l saved_same(4) [OF i(2) l, of env] by (intro exI [of _ 0])
        (auto simp: own_step_def saving_def leaving_def saving_stages)
  next
    case 6
    then show ?thesis using assms(2) by simp
  qed
qed

interpretation saving: owner_plan env m l "\<lambda>i. ok i \<and> in_outcome i = Fine" "saving env ok l a"
  for env m l ok a
proof (unfold_locales, goal_cases)
  case (1 k acts w i)
  then show ?case using saving_own by blast
next
  case (2 k acts w)
  then have "saving_plan l k acts" by (simp add: saving_def)
  then show ?case using 2(2) by cases (auto simp: owner_action_def leaving_def)
next
  case (3 k acts w w')
  then show ?case using others_movedD [OF 3(3)] by (auto simp: saving_def)
qed

section \<open>From the saved profile to the end of the lease\<close>

inductive closing_plan :: "nat \<Rightarrow> nat \<Rightarrow> action list \<Rightarrow> bool" for l :: nat where
  "closing_plan l 11 (Shared (CloseTabs l) # leaving l)"
| "closing_plan l 10 (Shared (Announce l) # leaving l)"
| "closing_plan l 9 (Shared (Deliver l st) # leaving l)"
| "closing_plan l 8 (leaving l)"
| "closing_plan l 7 [Login (LeaveBrowser l None)]"
| "closing_plan l 6 [Shared (Checkpoint l), Login (RunEnds l None)]"
| "closing_plan l 5 [Login (RunEnds l None)]"
| "closing_plan l 4 [Shared (SetStatus l Released []), Login (LoginReturns l)]"
| "closing_plan l 3 [Shared (Announce l), Login (LoginReturns l)]"
| "closing_plan l 2 [Shared (Deliver l st), Login (LoginReturns l)]"
| "closing_plan l 1 [Login (LoginReturns l)]"
| "closing_plan l 0 []"

lemmas closing_stages = closing_plan.intros [unfolded leaving_def]
  closing_plan.intros(11) [unfolded One_nat_def]

definition closing :: "nat \<Rightarrow> nat \<Rightarrow> action list \<Rightarrow> lease_world \<Rightarrow> bool" where
  "closing l k acts w \<longleftrightarrow> closing_plan l k acts \<and> ls_release (the_lease w l)
     \<and> ls_status (the_lease w l) = (if 4 \<le> k then Releasing else Released)"

lemma closing_own:
  assumes st: "closing l k acts w" and "0 < k" and i: "in_outcome i = Fine" and l: "l < length (lw_leases w)"
  shows "\<exists>j<k. closing l j (fst (own_step env m i acts w)) (snd (own_step env m i acts w))"
proof -
  have plan: "closing_plan l k acts" and w: "ls_release (the_lease w l)"
    "4 \<le> k \<Longrightarrow> ls_status (the_lease w l) = Releasing" "\<not> 4 \<le> k \<Longrightarrow> ls_status (the_lease w l) = Released"
    using st by (simp_all add: closing_def)
  note simps = own_step_def closing_def leaving_def closing_stages i
  from plan show ?thesis
  proof cases
    case 1
    show ?thesis
    proof (cases "tab_closable (ls_tab (the_lease w l))")
      case True
      then show ?thesis using w 1 l by (intro exI [of _ 10]) (simp add: simps tab_closed_def)
    next
      case False
      then show ?thesis using w 1 by (intro exI [of _ 8]) (simp add: simps)
    qed
  next
    case 2
    then show ?thesis using w by (intro exI [of _ 9]) (simp add: simps)
  next
    case (3 st)
    then show ?thesis using w by (intro exI [of _ 8]) (simp add: simps)
  next
    case 4
    then show ?thesis using w by (intro exI [of _ 7]) (simp add: simps outside_call_def)
  next
    case 5
    then show ?thesis using w by (intro exI [of _ 6]) (simp add: simps leave_browser_def)
  next
    case 6
    then show ?thesis using w saved_same(1,2) [OF i l] by (intro exI [of _ 5]) (simp add: simps)
  next
    case 7
    then show ?thesis using w by (intro exI [of _ 4]) (simp add: simps run_ends_def later_raised_def)
  next
    case 8
    have "\<not> transition_refused Released (the_lease w l)" using w(2) 8(1) by (simp add: transition_refused_def)
    note s = set_status_plain [OF l this]
    show ?thesis using w 8 s by (intro exI [of _ 3]) (simp add: simps split_beta)
  next
    case 9
    then show ?thesis using w by (intro exI [of _ 2]) (simp add: simps)
  next
    case (10 st)
    then show ?thesis using w by (intro exI [of _ 1]) (simp add: simps)
  next
    case 11
    then show ?thesis using w by (intro exI [of _ 0]) (simp add: simps)
  next
    case 12
    then show ?thesis using assms(2) by simp
  qed
qed

interpretation closing: owner_plan env m l "\<lambda>i. in_outcome i = Fine" "closing l" for env m l
proof (unfold_locales, goal_cases)
  case (1 k acts w i)
  then show ?case using closing_own by blast
next
  case (2 k acts w)
  then have "closing_plan l k acts" by (simp add: closing_def)
  then show ?case using 2(2) by cases (auto simp: owner_action_def leaving_def)
next
  case (3 k acts w w')
  then show ?case using others_movedD [OF 3(3)] by (auto simp: closing_def split: if_splits)
qed

lemma closing_finishes:
  assumes ok: "owned_ok s" "n < length (sy_threads s)" "closing l 11 (sy_threads s ! n) (sy_world s)"
    and fine: "list_all (\<lambda>i. in_outcome i = Fine) (own_inputs n evs)" "11 \<le> length (own_inputs n evs)"
  shows "sy_threads (lease_run env m evs s) ! n = []"
    and "ls_status (the_lease (sy_world (lease_run env m evs s)) l) = Released"
proof -
  obtain es fs where e: "evs = es @ fs"
      "closing l 0 (sy_threads (lease_run env m es s) ! n) (sy_world (lease_run env m es s))"
    using closing.reaches [OF ok fine, of env m] by blast
  let ?t = "lease_run env m es s"
  have "\<exists>x\<in>set (sy_threads s ! n). owner_action l x" using closing.owner [OF ok(3)] by simp
  then have "l < length (lw_leases (sy_world s))"
    using ok(1,2) owner_lease unfolding owned_ok_def by blast
  then have l: "l < length (lw_leases (sy_world ?t))" by (rule moved_over(4) [OF lease_run_moves])
  have n: "n < length (sy_threads ?t)" using ok(2) threads_grow_run [of s env m es] by simp
  have "closing_plan l 0 (sy_threads ?t ! n)" and over: "ls_status (the_lease (sy_world ?t) l) = Released"
    using e(2) by (simp_all add: closing_def)
  then have "sy_threads ?t ! n = []" by (auto elim: closing_plan.cases)
  then show "sy_threads (lease_run env m evs s) ! n = []"
    using done_stays [OF n] by (simp add: e(1) lease_run_append)
  show "ls_status (the_lease (sy_world (lease_run env m evs s)) l) = Released"
    using moved_over(1) [OF lease_run_moves l, of env m fs] over by (simp add: e(1) lease_run_append)
qed

section \<open>From a failed attempt to the next hold\<close>

inductive retry_plan :: "nat \<Rightarrow> nat \<Rightarrow> action list \<Rightarrow> bool" for l :: nat where
  "retry_plan l 11 [Login (RetryPause l)]"
| "retry_plan l 10 [Login (LoginAttempt l)]"
| "retry_plan l 9 [Shared (SetStatus l WaitingCapacity []), Login (EnterBrowser l)]"
| "retry_plan l 8 [Login (EnterBrowser l)]"
| "retry_plan l 7 [Shared (SetStatus l Authenticating []), Login (BrowserLogin l)]"
| "retry_plan l 6 [Login (BrowserLogin l)]"
| "retry_plan l 5 [Shared (Checkpoint l), Hold (Publish l OutsideHold), Hold (HoldReady l)]"
| "retry_plan l 4 [Hold (Publish l OutsideHold), Hold (HoldReady l)]"
| "retry_plan l 3 [Hold (HoldReady l)]"
| "retry_plan l 2 [Shared (SetStatus l ReadyHolding []), Hold (LogLine l OutsideHold), Hold (HoldLoop l)]"
| "retry_plan l 1 [Hold (LogLine l OutsideHold), Hold (HoldLoop l)]"
| "retry_plan l 0 [Hold (HoldLoop l)]"

lemmas retry_stages = retry_plan.intros retry_plan.intros(11) [unfolded One_nat_def]

definition retrying :: "nat \<Rightarrow> nat \<Rightarrow> action list \<Rightarrow> lease_world \<Rightarrow> bool" where
  "retrying l k acts w \<longleftrightarrow> retry_plan l k acts \<and> lease_over (ls_status (the_lease w l))
     \<and> \<not> ls_release (the_lease w l)"

lemma refused_when_over:
  "lease_over (ls_status (the_lease w l)) \<Longrightarrow> \<not> lease_over st \<Longrightarrow> set_status now l st e w = (False, [], w)"
  by (auto simp: set_status_def transition_refused_def)

lemma retrying_own:
  assumes st: "retrying l k acts w" and "0 < k" and i: "in_outcome i = Fine" and l: "l < length (lw_leases w)"
  shows "\<exists>j<k. retrying l j (fst (own_step env m i acts w)) (snd (own_step env m i acts w))"
proof -
  have plan: "retry_plan l k acts" and w: "lease_over (ls_status (the_lease w l))" "\<not> ls_release (the_lease w l)"
    using st by (simp_all add: retrying_def)
  note simps = own_step_def retrying_def retry_stages refused_when_over publish_def outside_call_def
  from plan have "retrying l (k - 1) (fst (own_step env m i acts w)) (snd (own_step env m i acts w))"
    by cases (use w i l assms(2) saved_same(1,2) [OF i l] in \<open>simp_all add: simps\<close>)
  then show ?thesis using assms(2) by (intro exI [of _ "k - 1"]) simp
qed

interpretation retrying: owner_plan env m l "\<lambda>i. in_outcome i = Fine" "retrying l" for env m l
proof (unfold_locales, goal_cases)
  case (1 k acts w i)
  then show ?case using retrying_own by blast
next
  case (2 k acts w)
  then have "retry_plan l k acts" by (simp add: retrying_def)
  then show ?case using 2(2) by cases (auto simp: owner_action_def)
next
  case (3 k acts w w')
  then show ?case using others_movedD(6,7) [OF 3(3)] by (simp add: retrying_def)
qed

end
