(* ===== verification/LeaseTextProofs.thy ===== *)
theory LeaseTextProofs
  imports LeaseText
begin

text \<open>
  A shown payment error holds no link, and the cookies that a browser is seeded
  with have different names.
\<close>

section \<open>Links in a text\<close>

fun shows_link :: "utext \<Rightarrow> bool" where
  "shows_link [] = False"
| "shows_link (c # cs) = (url_length (c # cs) \<noteq> 0 \<or> shows_link cs)"

definition link_heads :: "utext set" where
  "link_heads = {[104, 116, 116, 112, 58, 47, 47], [104, 116, 116, 112, 115, 58, 47, 47]}"

lemma takeWhile_drop_nonempty:
  "length (takeWhile P (drop n u)) \<noteq> 0 \<longleftrightarrow> n < length u \<and> P (u ! n)"
  by (cases "n < length u") (simp_all add: Cons_nth_drop_Suc [symmetric])

lemma url_length_iff:
  "url_length u \<noteq> 0 \<longleftrightarrow> (\<exists>p\<in>link_heads. take (length p) u = p \<and> length p < length u \<and> url_code (u ! length p))"
proof -
  have h: "uni ''https://'' = [104, 116, 116, 112, 115, 58, 47, 47]" "uni ''http://'' = [104, 116, 116, 112, 58, 47, 47]"
    by (simp_all add: uni_def)
  have x: "take 7 u = [104, 116, 116, 112, 58, 47, 47] \<Longrightarrow> take 8 u \<noteq> [104, 116, 116, 112, 115, 58, 47, 47]"
    by (cases u; cases "tl u"; cases "tl (tl u)"; cases "tl (tl (tl u))"; cases "tl (tl (tl (tl u)))") auto
  have heads: "(\<exists>p\<in>link_heads. Q p) \<longleftrightarrow> Q [104, 116, 116, 112, 58, 47, 47] \<or> Q [104, 116, 116, 112, 115, 58, 47, 47]" for Q
    unfolding link_heads_def by blast
  have n: "length [104, 116, 116, 112, 58, 47, 47 :: nat] = 7" "length [104, 116, 116, 112, 115, 58, 47, 47 :: nat] = 8"
    by simp_all
  consider (s) "take 8 u = [104, 116, 116, 112, 115, 58, 47, 47]"
    | (p) "take 7 u = [104, 116, 116, 112, 58, 47, 47]" "take 8 u \<noteq> [104, 116, 116, 112, 115, 58, 47, 47]"
    | (no) "take 7 u \<noteq> [104, 116, 116, 112, 58, 47, 47]" "take 8 u \<noteq> [104, 116, 116, 112, 115, 58, 47, 47]"
    by blast
  then show ?thesis
  proof cases
    case s
    then have "url_length u = (let m = length (takeWhile url_code (drop 8 u)) in if m = 0 then 0 else 8 + m)"
      unfolding url_length_def url_scheme_length_def h by simp
    moreover have "take 7 u \<noteq> [104, 116, 116, 112, 58, 47, 47]" using x s by blast
    ultimately show ?thesis unfolding heads n using s takeWhile_drop_nonempty [of url_code 8 u] by (auto simp: Let_def)
  next
    case p
    then have "url_length u = (let m = length (takeWhile url_code (drop 7 u)) in if m = 0 then 0 else 7 + m)"
      unfolding url_length_def url_scheme_length_def h by simp
    then show ?thesis unfolding heads n using p takeWhile_drop_nonempty [of url_code 7 u] by (auto simp: Let_def)
  next
    case no
    then have "url_length u = 0" unfolding url_length_def url_scheme_length_def h by simp
    then show ?thesis unfolding heads n using no by simp
  qed
qed

lemma url_length_head [simp]: "c \<noteq> 104 \<Longrightarrow> url_length (c # cs) = 0"
  using url_length_iff [of "c # cs"] by (auto simp: link_heads_def)

text \<open>Up to the first link nothing changes; there the text goes on with a bracket.\<close>

lemma hide_urls_front:
  "hide_urls u = u \<or> (\<exists>k t. k < length u \<and> u ! k = 104 \<and> hide_urls u = take k u @ 91 # t)"
proof (induction u rule: hide_urls.induct)
  case (2 c cs)
  show ?case
  proof (cases "url_length (c # cs) = 0")
    case True
    then show ?thesis
      using 2(1) [OF True]
    proof (elim disjE exE conjE)
      fix k t assume "k < length cs" "cs ! k = 104" "hide_urls cs = take k cs @ 91 # t"
      then show ?thesis using True by (intro disjI2 exI [of _ "Suc k"] exI [of _ t]) simp
    qed simp
  next
    case False
    then have "c = 104" by (metis url_length_head)
    then show ?thesis using False by (intro disjI2 exI [of _ 0]) (simp add: uni_def)
  qed
qed simp

lemma no_new_link:
  assumes "url_length (c # hide_urls cs) \<noteq> 0"
  shows "url_length (c # cs) \<noteq> 0"
proof -
  obtain p where p: "p \<in> link_heads" "take (length p) (c # hide_urls cs) = p"
      "length p < length (c # hide_urls cs)" "url_code ((c # hide_urls cs) ! length p)"
    using assms url_length_iff by blast
  have head: "91 \<notin> set p" "0 < length p" using p(1) by (auto simp: link_heads_def)
  from hide_urls_front [of cs] show ?thesis
  proof (elim disjE exE conjE)
    fix k t assume k: "k < length cs" "cs ! k = 104" and t: "hide_urls cs = take k cs @ 91 # t"
    have bracket: "(c # hide_urls cs) ! Suc k = 91" using t k(1) by (simp add: nth_append)
    have "\<not> Suc k < length p"
    proof
      assume *: "Suc k < length p"
      then have "p ! Suc k = 91" using p(2,3) bracket by (metis nth_take)
      then show False using * head(1) nth_mem by metis
    qed
    then have le: "length p \<le> Suc k" by simp
    have "take (Suc k) (c # hide_urls cs) = take (Suc k) (c # cs)" using t k(1) by simp
    then have same: "take (length p) (c # cs) = p"
      using p(2) le by (metis min.absorb1 take_take)
    have "url_code ((c # cs) ! length p)"
    proof (cases "length p = Suc k")
      case True
      then show ?thesis using k(2) by (simp add: url_code_def u_space_def Let_def)
    next
      case False
      then have "length p < Suc k" using le by simp
      then show ?thesis using p(4) \<open>take (Suc k) (c # hide_urls cs) = take (Suc k) (c # cs)\<close> by (metis nth_take)
    qed
    then show ?thesis using same p(1) le k(1) url_length_iff by fastforce
  qed (use assms in simp)
qed

lemma no_link_left: "\<not> shows_link (hide_urls u)"
proof (induction u rule: hide_urls.induct)
  case (2 c cs)
  then show ?case using no_new_link [of c cs]
    by (cases "url_length (c # cs) = 0") (auto simp: uni_def simp del: hide_urls.simps(2) simp add: hide_urls.simps(2))
qed simp

lemma shows_link_drop: "shows_link u \<longleftrightarrow> (\<exists>k. url_length (drop k u) \<noteq> 0)"
proof (induction u)
  case Nil
  then show ?case by (simp add: url_length_def url_scheme_length_def uni_def)
next
  case (Cons c cs)
  show ?case
  proof
    assume "shows_link (c # cs)"
    then show "\<exists>k. url_length (drop k (c # cs)) \<noteq> 0"
      using Cons.IH by (metis drop0 drop_Suc_Cons shows_link.simps(2))
  next
    assume "\<exists>k. url_length (drop k (c # cs)) \<noteq> 0"
    then obtain k where "url_length (drop k (c # cs)) \<noteq> 0" by blast
    then show "shows_link (c # cs)" using Cons.IH by (cases k) auto
  qed
qed

lemma shows_link_take:
  assumes "shows_link (take n u)"
  shows "shows_link u"
proof -
  obtain k where "url_length (drop k (take n u)) \<noteq> 0" using assms shows_link_drop by blast
  then obtain p where p: "p \<in> link_heads" "take (length p) (take (n - k) (drop k u)) = p"
      "length p < length (take (n - k) (drop k u))" "url_code (take (n - k) (drop k u) ! length p)"
    using url_length_iff unfolding drop_take by blast
  then have "take (length p) (drop k u) = p" "length p < length (drop k u)" "url_code (drop k u ! length p)"
    by (auto simp: min_def split: if_splits)
  then have "url_length (drop k u) \<noteq> 0" using p(1) url_length_iff by blast
  then show ?thesis using shows_link_drop by blast
qed

lemma gcash_error_shows_no_link: "\<not> shows_link (safe_gcash_error e)"
  using no_link_left shows_link_take unfolding safe_gcash_error_def by blast

section \<open>Seeded cookies\<close>

lemma add_pair_distinct: "distinct (map fst acc) \<Longrightarrow> distinct (map fst (add_pair raw acc))"
  by (auto simp: add_pair_def split: option.split prod.split)

lemma header_items_distinct: "distinct (map fst (cookie_header_items h))"
proof -
  have "distinct (map fst (fold add_pair xs acc))" if "distinct (map fst acc)" for xs acc
    using that by (induction xs arbitrary: acc) (simp_all add: add_pair_distinct)
  then show ?thesis by (simp add: cookie_header_items_def)
qed

lemma seed_names_distinct: "distinct (map sk_name (seed_cookies h t d))"
proof -
  let ?names = "map fst (cookie_header_items h)"
  have m: "map sk_name (map header_cookie ps) = map fst ps" for ps
    by (simp add: header_cookie_def)
  have "''__Secure-next-auth.session-token'' \<notin> set ?names" if "\<not> list_ex names_session ?names"
    using that by (auto simp: list_ex_iff names_session_def session_cookie_names_def)
  then show ?thesis using header_items_distinct [of h]
    by (auto simp: seed_cookies_def Let_def m header_cookie_def comp_def)
qed

end
