(* ===== verification/LeaseProperties.thy ===== *)
theory LeaseProperties
  imports LeasePlans LeaseTextProofs "HOL-Library.Code_Target_Nat"
begin

text \<open>
  The properties of the web session leases. The runs that are evaluated use one
  login request for the account 7 and inputs that either let a call succeed or
  make it raise.
\<close>

section \<open>Runs to evaluate\<close>

definition sample_env :: lease_env where
  "sample_env = \<lparr>le_netloc_ok = (\<lambda>n. True), le_digest = (\<lambda>u. ''d''), le_max_history = 20\<rparr>"

definition sample_login :: lease_request where
  "sample_login = \<lparr>lq_task = ''t'', lq_account = 7, lq_email = ''a'', lq_header = [], lq_token = [],
     lq_device = []\<rparr>"

definition fine_input :: step_input where
  "fine_input = \<lparr>in_now = 1, in_outcome = Fine, in_closed = False, in_tab_closed = False, in_due = True,
     in_stored = False, in_retry = True, in_url = uni ''x'', in_storage = []\<rparr>"

abbreviation fine :: "nat \<Rightarrow> lease_event" where
  "fine n \<equiv> RunThread n fine_input"

abbreviation raising :: "nat \<Rightarrow> raised \<Rightarrow> lease_event" where
  "raising n e \<equiv> RunThread n (fine_input\<lparr>in_outcome := Throws e\<rparr>)"

abbreviation login_event :: lease_event where
  "login_event \<equiv> NewThread (CallLogin sample_login)"

text \<open>The first login holds its browser.\<close>

definition held_run :: "lease_event list" where
  "held_run = login_event # replicate 20 (fine 0)"

text \<open>Two payment links, one after the other.\<close>

definition sample_open :: "string \<Rightarrow> open_request" where
  "sample_open r = \<lparr>oq_url = uni (''https://checkoutshopper-live.adyen.com/checkoutshopper/''
     @ ''checkoutPaymentRedirect?redirectData=x''), oq_request = r, oq_job = []\<rparr>"

definition payment_run :: "lease_event list" where
  "payment_run = held_run
     @ NewThread (CallOpen ''t'' 7 0 (sample_open ''a'')) # replicate 5 (fine 1) @ replicate 16 (fine 0)
     @ NewThread (CallOpen ''t'' 7 0 (sample_open ''b'')) # replicate 5 (fine 2) @ replicate 7 (fine 0)"

text \<open>An operator asks for the release.\<close>

definition released_run :: "lease_event list" where
  "released_run = held_run @ NewThread (CallRelease ''t'' None) # replicate 4 (fine 1)"

text \<open>The hold fails with an error that counts as temporary, up to the end of the attempt.\<close>

definition interrupted_run :: "lease_event list" where
  "interrupted_run = held_run @ replicate 3 (fine 0) @ raising 0 (Plain []) # replicate 8 (fine 0)"



text \<open>A login before its first attempt.\<close>

definition starting_run :: "lease_event list" where
  "starting_run = [login_event, fine 0, fine 0, fine 0]"

section \<open>Who holds the browser of an account\<close>

text \<open>
  C3. At the level of accounts the whole machine of leases, commands, threads and
  indexes is a map from an account to the lease that holds its browser: as long as
  no account gets a lease while a late report on an earlier one is on its way,
  every step takes a free account, gives back the one it holds, or changes nothing.
\<close>

theorem leases_refine_holders:
  assumes "orderly_run env m (evs @ [ev]) start_system"
  shows "holders_of (sy_world (lease_run env m (evs @ [ev]) start_system))
    = holder_step (holder_op_of ev (lease_run env m evs start_system))
        (holders_of (sy_world (lease_run env m evs start_system)))"
proof -
  let ?s = "lease_run env m evs start_system"
  have "registry_inv ?s"
    using assms registry_inv_run [OF registry_inv_start] by (simp add: orderly_run_append)
  moreover have "registry_inv (lease_step env m ev ?s)"
    using registry_inv_run [OF registry_inv_start assms] by (simp add: lease_run_append)
  ultimately show ?thesis using step_refines by (simp add: lease_run_append)
qed

lemma first_step_acquires:
  "orderly_run sample_env 2 ([login_event] @ [fine 0]) start_system"
  "holder_op_of (fine 0) (lease_run sample_env 2 [login_event] start_system) = Acquire 7 0"
  "holders_of (sy_world (lease_run sample_env 2 [login_event] start_system)) 7 = None"
  by code_simp+

theorem leases_refine_holders_witness:
  "holders_of (sy_world (lease_run sample_env 2 ([login_event] @ [fine 0]) start_system)) 7 = Some 0"
  unfolding leases_refine_holders [OF first_step_acquires(1)] first_step_acquires(2)
  by (simp only: holder_step.simps first_step_acquires(3) fun_upd_same if_True refl)

text \<open>
  C4. In such a run two active leases of one account are the same lease: no account
  has two browsers.
\<close>

theorem one_browser_per_account:
  assumes "orderly_run env m evs start_system"
    and "lease_active (sy_world (lease_run env m evs start_system)) a l"
    and "lease_active (sy_world (lease_run env m evs start_system)) a k"
  shows "l = k"
  using indexed_unique [OF registry_invD(2) [OF registry_inv_run [OF registry_inv_start assms(1)]]] assms(2,3)
  by blast

lemma held_run_orderly: "orderly_run sample_env 2 held_run start_system"
  by code_simp

lemma held_run_active: "lease_active (sy_world (lease_run sample_env 2 held_run start_system)) 7 0"
  by code_simp

theorem one_browser_per_account_witness:
  "{l. lease_active (sy_world (lease_run sample_env 2 held_run start_system)) 7 l} = {0}"
  using one_browser_per_account [OF held_run_orderly held_run_active] held_run_active by auto

text \<open>
  The manager's admission is exact: in such a run a login is refused if and only
  if a lease of the account is active.
\<close>

lemma login_refused_iff_held:
  assumes "orderly_run env m evs start_system"
  shows "fst (create_lease env now q (sy_world (lease_run env m evs start_system))) = None
    \<longleftrightarrow> (\<exists>l. lease_active (sy_world (lease_run env m evs start_system)) (lq_account q) l)"
proof -
  let ?w = "sy_world (lease_run env m evs start_system)"
  have inv: "registry_inv (lease_run env m evs start_system)"
    by (rule registry_inv_run [OF registry_inv_start assms])
  have "fst (create_lease env now q ?w) = None \<longleftrightarrow> active_lease ?w (lq_account q) \<noteq> None"
    by (simp add: create_lease_def Let_def)
  also have "\<dots> \<longleftrightarrow> (\<exists>l. lease_active ?w (lq_account q) l)"
  proof
    assume "active_lease ?w (lq_account q) \<noteq> None"
    then obtain l where "dict_get (lw_active ?w) (lq_account q) = Some l" "\<not> lease_over (ls_status (the_lease ?w l))"
      by (auto simp: active_lease_def split: option.splits if_splits)
    then show "\<exists>l. lease_active ?w (lq_account q) l"
      using registry_invD(6) [OF inv] unfolding keyed_def lease_active_def by blast
  next
    assume "\<exists>l. lease_active ?w (lq_account q) l"
    then show "active_lease ?w (lq_account q) \<noteq> None"
      using active_lease_iff [OF registry_invD(2,1) [OF inv]] by blast
  qed
  finally show ?thesis .
qed




section \<open>How leases end\<close>

text \<open>
  A lease that is over keeps its status whatever the threads do afterwards.
\<close>

lemma ended_lease_stays_ended:
  assumes "l < length (lw_leases (sy_world s))" and "lease_over (ls_status (the_lease (sy_world s) l))"
  shows "ls_status (the_lease (sy_world (lease_run env m evs s)) l) = ls_status (the_lease (sy_world s) l)"
  using moved_over(1) [OF lease_run_moves assms] .

text \<open>
  C25. A release that was asked for is completed. In every reachable state in which the
  owner of a lease that is not over stands at the head of its hold loop (where every
  command and every check of the page ends) and the release was asked for, sixteen
  further steps of the owner in which no call fails are enough, however the steps of
  other threads and new calls are mixed in: they leave the lease released and the owner's
  thread finished, and on the way the profile of the account was saved as what the
  browser gave in one of these steps.
\<close>

theorem release_completes:
  fixes evs env m
  defines "s \<equiv> lease_run env m evs start_system"
  assumes n: "n < length (sy_threads s)" "sy_threads s ! n = [Hold (HoldLoop l)]"
    and asked: "ls_release (the_lease (sy_world s) l)" "\<not> lease_over (ls_status (the_lease (sy_world s) l))"
    and fine: "list_all (\<lambda>i. in_outcome i = Fine) (own_inputs n later)" "16 \<le> length (own_inputs n later)"
  shows "ls_status (the_lease (sy_world (lease_run env m later s)) l) = Released
    \<and> sy_threads (lease_run env m later s) ! n = []
    \<and> (\<exists>es fs i. later = es @ fs \<and> i \<in> set (own_inputs n later)
        \<and> dict_get (lw_profiles (sy_world (lease_run env m es s))) (ls_account (the_lease (sy_world s) l))
          = Some (filtered_storage (le_netloc_ok env) (in_storage i)))"
proof -
  let ?ok = "\<lambda>i. i \<in> set (own_inputs n later)" and ?a = "ls_account (the_lease (sy_world s) l)"
  have ok: "owned_ok s" unfolding s_def by (rule owned_ok_reached)
  have "saving env ?ok l ?a 5 (sy_threads s ! n) (sy_world s)"
    using n(2) asked by (simp add: saving_def saving_plan.intros)
  moreover have "list_all (\<lambda>i. ?ok i \<and> in_outcome i = Fine) (own_inputs n later)"
    using fine(1) by (simp add: list_all_iff)
  ultimately obtain es fs where e: "later = es @ fs" "length (own_inputs n es) \<le> 5"
      "saving env ?ok l ?a 0 (sy_threads (lease_run env m es s) ! n) (sy_world (lease_run env m es s))"
    using saving.reaches [OF ok n(1), of env ?ok l ?a 5 later m] fine(2) by auto
  let ?t = "lease_run env m es s"
  have t: "owned_ok ?t" "n < length (sy_threads ?t)"
    using owned_ok_run [OF ok] n(1) threads_grow_run [of s env m es] by simp_all
  have "saving_plan l 0 (sy_threads ?t ! n)" using e(3) by (simp add: saving_def)
  then have "closing_plan l 11 (sy_threads ?t ! n)" by cases (simp_all add: closing_plan.intros)
  then have "closing l 11 (sy_threads ?t ! n) (sy_world ?t)" using e(3) by (simp add: closing_def saving_def)
  moreover have "list_all (\<lambda>i. in_outcome i = Fine) (own_inputs n fs)" "11 \<le> length (own_inputs n fs)"
    using fine e(1,2) by (simp_all add: own_inputs_append)
  ultimately have "sy_threads (lease_run env m later s) ! n = []"
      "ls_status (the_lease (sy_world (lease_run env m later s)) l) = Released"
    using closing_finishes [OF t, of l fs env m] by (simp_all add: e(1) lease_run_append)
  moreover have "\<exists>i. ?ok i \<and> dict_get (lw_profiles (sy_world ?t)) ?a
      = Some (filtered_storage (le_netloc_ok env) (in_storage i))"
    using e(3) by (simp add: saving_def)
  ultimately show ?thesis using e(1) by metis
qed

lemma released_run_result:
  "0 < length (sy_threads (lease_run sample_env 2 released_run start_system))"
  "sy_threads (lease_run sample_env 2 released_run start_system) ! 0 = [Hold (HoldLoop 0)]"
  "ls_release (the_lease (sy_world (lease_run sample_env 2 released_run start_system)) 0)"
  "\<not> lease_over (ls_status (the_lease (sy_world (lease_run sample_env 2 released_run start_system)) 0))"
  by code_simp+

text \<open>The owner's sixteen steps, with another login that is refused in between.\<close>

definition mixed_steps :: "lease_event list" where
  "mixed_steps = replicate 7 (fine 0) @ login_event # fine 2 # replicate 9 (fine 0)"

theorem release_completes_witness:
  "ls_status (the_lease (sy_world (lease_run sample_env 2 mixed_steps
     (lease_run sample_env 2 released_run start_system))) 0) = Released"
proof -
  have "own_inputs 0 mixed_steps = replicate 16 fine_input" by code_simp
  then have "list_all (\<lambda>i. in_outcome i = Fine) (own_inputs 0 mixed_steps)" "16 \<le> length (own_inputs 0 mixed_steps)"
    by (simp_all add: list_all_iff fine_input_def)
  from release_completes [OF released_run_result this] show ?thesis by blast
qed

text \<open>
  C38. A task that is stopped while its login is outside the browser strands the lease. In
  every reachable state in which a login with a lease that is not over is about to begin
  (its start, an attempt, the end of a failed attempt or the pause before the next) and the
  task's stop is raised there, the thread is gone after that step, and whatever happens
  later, other logins, requests of operators and releases, the lease stays the active
  one of its account.
\<close>

theorem stop_strands_lease:
  fixes evs env m
  defines "s \<equiv> lease_run env m evs start_system"
  assumes n: "n < length (sy_threads s)" "sy_threads s ! n = Login a # rest"
    and a: "a \<in> {LoginStart l, LoginAttempt l, AttemptFailed l u, RetryPause l}"
    and stop: "in_outcome i = Throws (TaskStop t)"
    and active: "\<not> lease_over (ls_status (the_lease (sy_world s) l))"
  shows "sy_threads (lease_run env m [RunThread n i] s) ! n = []
    \<and> lease_active (sy_world (lease_run env m (RunThread n i # later) s)) (ls_account (the_lease (sy_world s) l)) l"
proof -
  let ?t = "s\<lparr>sy_threads := (sy_threads s)[n := []]\<rparr>"
  have ok: "owned_ok s" unfolding s_def by (rule owned_ok_reached)
  have own: "owner_action l (Login a)" using a by (auto simp: owner_action_def)
  have "perform env m i (Login a) (sy_world s) = (True, [], sy_world s)"
    using a stop by (auto simp: task_thrown_def)
  then have t: "run_thread env m n i s = ?t" using n by (simp add: run_thread_def)
  have "unowned l ?t" by (rule owner_gone [OF ok n(1)]) (use n(2) own in auto)
  moreover have "l < length (lw_leases (sy_world s))"
    using ok owner_lease [OF _ n(1) _ own] n(2) by (simp add: owned_ok_def)
  ultimately have "stranded l ?t" using active by (simp add: stranded_def)
  then have "lease_active (sy_world (lease_run env m later ?t)) (ls_account (the_lease (sy_world ?t) l)) l"
    by (rule stranded_active) simp
  then show ?thesis using n(1) by (simp add: t)
qed

theorem stop_strands_lease_witness:
  "\<forall>later. lease_active (sy_world (lease_run sample_env 1
      (RunThread 0 (fine_input\<lparr>in_outcome := Throws (TaskStop [])\<rparr>) # later)
      (lease_run sample_env 1 starting_run start_system))) 7 0"
proof
  fix later
  let ?s = "lease_run sample_env 1 starting_run start_system"
  have s: "0 < length (sy_threads ?s)" "sy_threads ?s ! 0 = Login (LoginStart 0) # []"
      "\<not> lease_over (ls_status (the_lease (sy_world ?s) 0))" "ls_account (the_lease (sy_world ?s) 0) = 7"
    by code_simp+
  have "LoginStart 0 \<in> {LoginStart 0, LoginAttempt 0, AttemptFailed 0 [], RetryPause 0}" by simp
  from stop_strands_lease [OF s(1,2) this _ s(3), of "fine_input\<lparr>in_outcome := Throws (TaskStop [])\<rparr>" "[]" later] s(4)
  show "lease_active (sy_world (lease_run sample_env 1
      (RunThread 0 (fine_input\<lparr>in_outcome := Throws (TaskStop [])\<rparr>) # later) ?s)) 7 0" by simp
qed

text \<open>
  C39. A login that is tried again after its lease has ended holds the next browser on the
  lease that is over. In every reachable state in which an attempt has failed on a lease
  that is over and whose release was not asked for, attempts are left and the failure
  counts as temporary, the owner's next twelve steps, if no call in them fails, bring it
  to the head of the hold loop on this very lease, however the steps of other threads are
  mixed in; and from then on the lease stays over, its release is never asked for, and no
  request to release a task ever finds it.
\<close>

theorem retried_login_holds_ended_lease:
  fixes evs env m
  defines "s \<equiv> lease_run env m evs start_system"
  assumes n: "n < length (sy_threads s)" "sy_threads s ! n = [Login (AttemptFailed l t)]"
    and ended: "lease_over (ls_status (the_lease (sy_world s) l))" "\<not> ls_release (the_lease (sy_world s) l)"
    and again: "ls_attempt (the_lease (sy_world s) l) < m" "in_retry i" "in_outcome i = Fine"
    and fine: "list_all (\<lambda>i. in_outcome i = Fine) (own_inputs n later)" "11 \<le> length (own_inputs n later)"
  shows "\<exists>es fs. later = es @ fs
    \<and> sy_threads (lease_run env m (RunThread n i # es) s) ! n = [Hold (HoldLoop l)]
    \<and> (\<forall>more. lease_over (ls_status (the_lease (sy_world (lease_run env m (RunThread n i # es @ more) s)) l))
        \<and> \<not> ls_release (the_lease (sy_world (lease_run env m (RunThread n i # es @ more) s)) l)
        \<and> (\<forall>task account. l \<notin> set (active_task_leases task account
              (sy_world (lease_run env m (RunThread n i # es @ more) s)))))"
proof -
  let ?s1 = "s\<lparr>sy_threads := (sy_threads s)[n := [Login (RetryPause l)]]\<rparr>"
  have ok: "owned_ok s" unfolding s_def by (rule owned_ok_reached)
  have l: "l < length (lw_leases (sy_world s))"
    using ok owner_lease [of s n "Login (AttemptFailed l t)" l] n by (simp add: owned_ok_def owner_action_def)
  have s1: "run_thread env m n i s = ?s1"
    using n again by (simp add: run_thread_def)
  have ok1: "owned_ok ?s1" using owned_ok_run [OF ok, of env m "[RunThread n i]"] by (simp add: s1)
  have "retrying l 11 (sy_threads ?s1 ! n) (sy_world ?s1)"
    using n(1) ended by (simp add: retrying_def retry_plan.intros)
  moreover have "n < length (sy_threads ?s1)" using n(1) by simp
  ultimately obtain es fs where e: "later = es @ fs"
      "retrying l 0 (sy_threads (lease_run env m es ?s1) ! n) (sy_world (lease_run env m es ?s1))"
    using retrying.reaches [OF ok1 _ _ fine, of l env m] by blast
  have "retry_plan l 0 (sy_threads (lease_run env m es ?s1) ! n)" using e(2) by (simp add: retrying_def)
  then have hold: "sy_threads (lease_run env m es ?s1) ! n = [Hold (HoldLoop l)]"
    by (auto elim: retry_plan.cases)
  have over: "lease_over (ls_status (the_lease (sy_world (lease_run env m xs ?s1)) l))
      \<and> \<not> ls_release (the_lease (sy_world (lease_run env m xs ?s1)) l)" for xs
    using ended_lease_stays_ended [of l ?s1 env m xs] over_release_run [of l ?s1 env m xs] l ended by simp
  then have "l \<notin> set (active_task_leases task account (sy_world (lease_run env m xs ?s1)))" for xs task account
    by (simp add: active_task_leases_def Let_def)
  then show ?thesis using e(1) hold over by (intro exI [of _ es] exI [of _ fs]) (simp add: s1)
qed

lemma interrupted_run_result:
  "0 < length (sy_threads (lease_run sample_env 2 interrupted_run start_system))"
  "sy_threads (lease_run sample_env 2 interrupted_run start_system) ! 0 = [Login (AttemptFailed 0 [])]"
  "lease_over (ls_status (the_lease (sy_world (lease_run sample_env 2 interrupted_run start_system)) 0))"
  "\<not> ls_release (the_lease (sy_world (lease_run sample_env 2 interrupted_run start_system)) 0)"
  "ls_attempt (the_lease (sy_world (lease_run sample_env 2 interrupted_run start_system)) 0) < 2"
  by code_simp+

theorem retried_login_holds_ended_lease_witness:
  "\<exists>es. sy_threads (lease_run sample_env 2 (fine 0 # es) (lease_run sample_env 2 interrupted_run start_system)) ! 0
      = [Hold (HoldLoop 0)]"
proof -
  have "own_inputs 0 (replicate 11 (fine 0)) = replicate 11 fine_input" by code_simp
  then have f: "list_all (\<lambda>i. in_outcome i = Fine) (own_inputs 0 (replicate 11 (fine 0)))"
      "11 \<le> length (own_inputs 0 (replicate 11 (fine 0)))"
    by (simp_all add: list_all_iff fine_input_def)
  have i: "in_retry fine_input" "in_outcome fine_input = Fine" by (simp_all add: fine_input_def)
  from retried_login_holds_ended_lease [OF interrupted_run_result i f] show ?thesis by blast
qed

section \<open>Commands and payment pages\<close>

text \<open>
  C26. In every run the state is well-formed: each number that the registry, a queue, a
  history or the plan of a thread holds is that of a lease or command there is, and a
  history has at most 64 commands, one of each request, at most one of them unfinished.
\<close>

theorem lease_system_well_formed: "world_ok (lease_run env m evs start_system)"
  by (rule world_ok_run [OF world_ok_start])

text \<open>
  C23. Every page a held browser is sent to is an official payment link: scheme https,
  exactly the official host without user or port, exactly the official path, and a
  query.
\<close>

theorem only_official_links_opened:
  assumes "v \<in> set (lw_navigations (sy_world (lease_run env m evs start_system)))"
  shows "official_link (nv_url v)"
  using assms pages_ok_run [OF pages_ok_start, of env m evs] by (simp add: pages_ok_def links_official_def)

lemma payment_run_navigations:
  "map (\<lambda>v. (nv_lease v, nv_request v, nv_page v)) (lw_navigations (sy_world (lease_run sample_env 2 payment_run start_system)))
    = [(0, ''a'', 0), (0, ''b'', 1)]"
  by code_simp

lemma payment_run_two: "length (lw_navigations (sy_world (lease_run sample_env 2 payment_run start_system))) = 2"
  using arg_cong [OF payment_run_navigations, of length] by simp

theorem only_official_links_opened_witness:
  "official_link (nv_url (lw_navigations (sy_world (lease_run sample_env 2 payment_run start_system)) ! 1))"
  by (rule only_official_links_opened [OF nth_mem]) (simp add: payment_run_two)

text \<open>
  C22. A page is used for one request of one lease only: navigations for different
  requests or for different leases are on different pages.
\<close>

theorem payment_pages_not_shared:
  assumes "v \<in> set (lw_navigations (sy_world (lease_run env m evs start_system)))"
    and "u \<in> set (lw_navigations (sy_world (lease_run env m evs start_system)))"
    and "(nv_lease v, nv_request v) \<noteq> (nv_lease u, nv_request u)"
  shows "nv_page v \<noteq> nv_page u"
proof
  let ?s = "lease_run env m evs start_system"
  assume eq: "nv_page v = nv_page u"
  have "pages_sole (sy_world ?s) (set (in_flight ?s))"
    using pages_ok_run [OF pages_ok_start, of env m evs] by (simp add: pages_ok_def)
  moreover have "page_of (sy_world ?s) (set (in_flight ?s)) (nv_page v) (nv_lease v) (nv_request v)"
      "page_of (sy_world ?s) (set (in_flight ?s)) (nv_page v) (nv_lease u) (nv_request u)"
    using page_ofI(2) [OF assms(1)] page_ofI(2) [OF assms(2)] eq by auto
  ultimately show False using assms(3) unfolding pages_sole_def by (metis prod.inject)
qed

theorem payment_pages_not_shared_witness:
  "nv_page (lw_navigations (sy_world (lease_run sample_env 2 payment_run start_system)) ! 0)
    \<noteq> nv_page (lw_navigations (sy_world (lease_run sample_env 2 payment_run start_system)) ! 1)"
proof (rule payment_pages_not_shared)
  let ?nv = "lw_navigations (sy_world (lease_run sample_env 2 payment_run start_system))"
  show "?nv ! 0 \<in> set ?nv" and "?nv ! 1 \<in> set ?nv" using payment_run_two by simp_all
  have "nv_request (?nv ! 0) = ''a''" "nv_request (?nv ! 1) = ''b''"
    using arg_cong [OF payment_run_navigations, of "\<lambda>xs. fst (snd (xs ! 0))"]
      arg_cong [OF payment_run_navigations, of "\<lambda>xs. fst (snd (xs ! 1))"] payment_run_two by simp_all
  then show "(nv_lease (?nv ! 0), nv_request (?nv ! 0)) \<noteq> (nv_lease (?nv ! 1), nv_request (?nv ! 1))" by simp
qed

end
