(* ===== verification/GateConfig.thy ===== *)
theory GateConfig
  imports Floats
begin

text \<open>
  Settings and readings of the browser gate
  (\<open>services/chatgpt_core/sentinel_browser.py\<close>): how many browsers may run, how many
  slots each lane has for itself, how far launches are apart, and whether the
  container and the host have room for one more browser. What is stored in the
  settings, the environment and the text of the kernel's files are arguments.
\<close>

section \<open>Settings\<close>

record capacity_config =
  cc_mode :: string
  cc_max_concurrency :: pyval
  cc_registration_reserve :: pyval
  cc_recheck_reserve :: pyval
  cc_persistent_max :: pyval
  cc_pid_budget :: pyval
  cc_pid_emergency :: pyval
  cc_host_memory_mib :: pyval
  cc_cpu_limit :: pyval
  cc_launch_interval :: pyval

definition default_concurrency :: int where
  "default_concurrency = 6"

definition persistent_max_sessions :: int where
  "persistent_max_sessions = 32"

text \<open>A stored text that is not empty, else the environment, else the default.\<close>

definition config_value ::
  "(string, string) dict \<Rightarrow> (string \<Rightarrow> string option) \<Rightarrow> string \<Rightarrow> string \<Rightarrow> pyval \<Rightarrow> pyval" where
  "config_value stored env key env_name default_value =
     (case dict_get stored key of
        Some (c # cs) \<Rightarrow> PStr (c # cs)
      | _ \<Rightarrow> (case env env_name of Some t \<Rightarrow> PStr t | None \<Rightarrow> default_value))"

definition mode_text :: "pyval \<Rightarrow> string" where
  "mode_text v = (case v of PStr t \<Rightarrow> py_lower (py_strip (or_else t ''adaptive'')) | _ \<Rightarrow> ''adaptive'')"

definition read_config :: "(string, string) dict \<Rightarrow> (string \<Rightarrow> string option) \<Rightarrow> capacity_config" where
  "read_config stored env =
     \<lparr>cc_mode = mode_text (config_value stored env ''chatgpt_runtime_browser_capacity_mode''
        ''AUTH_BROWSER_CAPACITY_MODE'' (PStr ''adaptive'')),
      cc_max_concurrency = config_value stored env ''chatgpt_runtime_auth_browser_max_concurrency''
        ''AUTH_BROWSER_MAX_CONCURRENCY'' (PInt default_concurrency),
      cc_registration_reserve = config_value stored env ''chatgpt_runtime_auth_browser_registration_reserve''
        ''AUTH_BROWSER_REGISTRATION_RESERVE'' (PInt 4),
      cc_recheck_reserve = config_value stored env ''chatgpt_runtime_auth_browser_recheck_reserve''
        ''AUTH_BROWSER_RECHECK_RESERVE'' (PInt 2),
      cc_persistent_max = config_value stored env ''chatgpt_web_session_hold_max_sessions''
        ''WEB_SESSION_HOLD_MAX_SESSIONS'' (PInt 2),
      cc_pid_budget = config_value stored env ''chatgpt_runtime_auth_browser_pid_budget''
        ''AUTH_BROWSER_PID_RESERVE'' (PInt 128),
      cc_pid_emergency = config_value stored env ''chatgpt_runtime_pid_emergency_reserve''
        ''AUTH_BROWSER_PID_EMERGENCY_RESERVE'' (PInt 256),
      cc_host_memory_mib = config_value stored env ''chatgpt_runtime_host_memory_reserve_mib''
        ''AUTH_BROWSER_HOST_MEMORY_RESERVE_MIB'' (PInt 2048),
      cc_cpu_limit = config_value stored env ''chatgpt_runtime_cpu_psi_avg10_limit''
        ''AUTH_BROWSER_CPU_PSI_AVG10_LIMIT'' (PInt 15),
      cc_launch_interval = config_value stored env ''chatgpt_runtime_auth_browser_launch_interval_seconds''
        ''AUTH_BROWSER_LAUNCH_INTERVAL_SECONDS'' (PInt 4)\<rparr>"

text \<open>The settings are read again when they are older than a second, or on demand.\<close>

definition runtime_config ::
  "bool \<Rightarrow> time \<Rightarrow> (string, string) dict \<Rightarrow> (string \<Rightarrow> string option)
    \<Rightarrow> (capacity_config \<times> time) option \<Rightarrow> capacity_config \<times> (capacity_config \<times> time) option" where
  "runtime_config force now stored env cache =
     (case cache of
        Some (c, t) \<Rightarrow> if \<not> force \<and> now - t < 1 then (c, cache)
          else (read_config stored env, Some (read_config stored env, now))
      | None \<Rightarrow> (read_config stored env, Some (read_config stored env, now)))"

text \<open>\<open>float(str(value).strip())\<close>: only texts and numbers are numbers.\<close>

fun runtime_number :: "pyval \<Rightarrow> rat option" where
  "runtime_number (PInt i) = in_float_range (of_int i)"
| "runtime_number (PFloat q) = Some q"
| "runtime_number (PStr s) = Option.bind (float_text s) in_float_range"
| "runtime_number _ = None"

definition bounded_int :: "pyval \<Rightarrow> int \<Rightarrow> int \<Rightarrow> int option \<Rightarrow> int" where
  "bounded_int v default_value minimum maximum =
     (let parsed = (case runtime_number v of Some q \<Rightarrow> py_trunc q | None \<Rightarrow> default_value);
          bounded = max minimum parsed
      in case maximum of Some m \<Rightarrow> min m bounded | None \<Rightarrow> bounded)"

definition bounded_float :: "pyval \<Rightarrow> rat \<Rightarrow> rat \<Rightarrow> rat \<Rightarrow> rat" where
  "bounded_float v default_value minimum maximum =
     (let parsed = (case runtime_number v of Some q \<Rightarrow> q | None \<Rightarrow> default_value)
      in max minimum (min maximum parsed))"

definition adaptive_mode :: "capacity_config \<Rightarrow> bool" where
  "adaptive_mode c \<longleftrightarrow> or_else (cc_mode c) ''adaptive'' \<noteq> ''fixed''"

definition concurrency_limit :: "capacity_config \<Rightarrow> int" where
  "concurrency_limit c = bounded_int (cc_max_concurrency c) default_concurrency 1 None"

definition persistent_limit :: "capacity_config \<Rightarrow> int" where
  "persistent_limit c = bounded_int (cc_persistent_max c) 2 1 (Some persistent_max_sessions)"

definition launch_interval :: "capacity_config \<Rightarrow> rat" where
  "launch_interval c = bounded_float (cc_launch_interval c) 4 0 60"

section \<open>Reserved slots\<close>

datatype gate_lane = RegistrationLane | RecheckLane

text \<open>The larger reserve is cut first until both fit.\<close>

function cut_reserves :: "int \<Rightarrow> int \<Rightarrow> int \<Rightarrow> int \<times> int" where
  "cut_reserves bound r c =
     (if r + c \<le> bound then (r, c)
      else if c < r \<and> 0 < r then cut_reserves bound (r - 1) c
      else if 0 < c then cut_reserves bound r (c - 1)
      else if 0 < r then cut_reserves bound (r - 1) c
      else (r, c))"
  by pat_completeness auto
termination by (relation "measure (\<lambda>(bound, r, c). nat r + nat c)") auto

declare cut_reserves.simps [simp del]

definition lane_reserves :: "int \<Rightarrow> capacity_config \<Rightarrow> gate_lane \<Rightarrow> int" where
  "lane_reserves limit c =
     (let tot = max 1 limit;
          r = bounded_int (cc_registration_reserve c) (min 4 tot) 0 (Some tot);
          k = bounded_int (cc_recheck_reserve c) (min 2 tot) 0 (Some tot);
          (r', k') = (if tot = 1 \<and> 0 < r \<and> 0 < k then (0, 1) else cut_reserves tot r k)
      in (\<lambda>l. case l of RegistrationLane \<Rightarrow> r' | RecheckLane \<Rightarrow> k'))"

section \<open>Room for one more browser\<close>

text \<open>The environment's text is taken to be no infinite number: on one the code raises.\<close>

definition slot_reserve_bytes :: "string option \<Rightarrow> int" where
  "slot_reserve_bytes env =
     (let mib = (case float_text (case env of Some t \<Rightarrow> or_else t ''1280'' | None \<Rightarrow> ''1280'') of
                   Some q \<Rightarrow> py_trunc q | None \<Rightarrow> 1280)
      in max 512 (min mib 2048) * 1024 * 1024)"

text \<open>A file with one number; no file, \<open>max\<close> and anything else are no number.\<close>

definition read_int_file :: "string option \<Rightarrow> int option" where
  "read_int_file f =
     (case f of None \<Rightarrow> None
      | Some t \<Rightarrow> let v = py_strip t in if v = [] \<or> v = ''max'' then None else parse_int v)"

definition memory_allows :: "int option \<Rightarrow> int option \<Rightarrow> int \<Rightarrow> bool" where
  "memory_allows current limit reserve =
     (case (current, limit) of
        (Some a, Some b) \<Rightarrow> b \<le> 0 \<or> a + reserve \<le> b
      | _ \<Rightarrow> True)"

definition pid_reserve :: "capacity_config \<Rightarrow> int" where
  "pid_reserve c = bounded_int (cc_pid_budget c) 0 0 (Some 4096)"

definition pid_emergency_reserve :: "capacity_config \<Rightarrow> int" where
  "pid_emergency_reserve c = bounded_int (cc_pid_emergency c) 0 0 (Some 4096)"

text \<open>The flag remembers that processes were short; it is cleared at one more budget of room.\<close>

definition pid_headroom ::
  "int \<Rightarrow> int \<Rightarrow> int option \<Rightarrow> int option \<Rightarrow> bool \<Rightarrow> bool \<times> bool" where
  "pid_headroom reserve emergency current limit blocked =
     (case (current, limit) of
        (Some a, Some b) \<Rightarrow>
          if reserve + emergency \<le> 0 \<or> b \<le> 0 then (True, blocked)
          else (let required = reserve + emergency;
                    still = (blocked \<and> \<not> a \<le> max 0 (b - required - max 1 reserve));
                    blocked' = (b < a + required \<or> still)
                in (\<not> blocked', blocked'))
      | _ \<Rightarrow> (True, blocked))"

definition host_memory_reserve :: "capacity_config \<Rightarrow> int" where
  "host_memory_reserve c = bounded_int (cc_host_memory_mib c) 0 0 (Some 262144) * 1024 * 1024"

definition host_memory_allows :: "int option \<Rightarrow> int \<Rightarrow> int \<Rightarrow> bool" where
  "host_memory_allows available reserve budget =
     (case available of None \<Rightarrow> True | Some a \<Rightarrow> reserve \<le> 0 \<or> reserve + budget \<le> a)"

definition cpu_limit :: "capacity_config \<Rightarrow> rat" where
  "cpu_limit c = bounded_float (cc_cpu_limit c) 15 0 100"

definition cpu_pressure :: "rat option \<Rightarrow> rat \<Rightarrow> bool \<Rightarrow> bool \<times> bool" where
  "cpu_pressure avg10 limit blocked =
     (case avg10 of
        None \<Rightarrow> (True, blocked)
      | Some a \<Rightarrow>
          if limit \<le> 0 then (True, blocked)
          else (let still = (blocked \<and> \<not> a \<le> max 0 (limit * (4 / 5)));
                    blocked' = (limit \<le> a \<or> still)
                in (\<not> blocked', blocked')))"

section \<open>Lemmas\<close>

lemma concurrency_limit_pos: "1 \<le> concurrency_limit c"
  by (simp add: concurrency_limit_def bounded_int_def Let_def)

lemma persistent_limit_range: "1 \<le> persistent_limit c \<and> persistent_limit c \<le> 32"
  by (auto simp: persistent_limit_def bounded_int_def persistent_max_sessions_def Let_def)

lemma bounded_int_range: "m \<le> M \<Longrightarrow> m \<le> bounded_int v d m (Some M) \<and> bounded_int v d m (Some M) \<le> M"
  by (auto simp: bounded_int_def Let_def)

lemma cut_reserves_fit:
  assumes "0 \<le> r" and "0 \<le> c" and "0 \<le> bound" and "cut_reserves bound r c = (r', c')"
  shows "r' + c' \<le> bound \<and> 0 \<le> r' \<and> r' \<le> r \<and> 0 \<le> c' \<and> c' \<le> c"
  using assms
proof (induction bound r c rule: cut_reserves.induct)
  case (1 bound r c)
  show ?case
    using 1(4-7) 1(1-3) cut_reserves.simps [of bound r c] by (simp split: if_splits; linarith)
qed

lemma cut_reserves_keep:
  assumes "2 \<le> bound" and "0 < r" and "0 < c" and "r \<le> bound" and "c \<le> bound" and "cut_reserves bound r c = (r', c')"
  shows "0 < r' \<and> 0 < c'"
  using assms
proof (induction bound r c rule: cut_reserves.induct)
  case (1 bound r c)
  show ?case
    using 1(4-9) 1(1-3) cut_reserves.simps [of bound r c] by (simp split: if_splits; linarith)
qed

text \<open>The reserves fit into the limit, and with two slots or more neither lane loses its own.\<close>

lemma lane_reserves_fit:
  assumes "1 \<le> limit"
  shows "0 \<le> lane_reserves limit c l \<and> lane_reserves limit c RegistrationLane + lane_reserves limit c RecheckLane \<le> limit"
proof -
  define r where "r = bounded_int (cc_registration_reserve c) (min 4 limit) 0 (Some limit)"
  define k where "k = bounded_int (cc_recheck_reserve c) (min 2 limit) 0 (Some limit)"
  have rk: "0 \<le> r" "0 \<le> k" using bounded_int_range [of 0 limit] assms unfolding r_def k_def by auto
  obtain r' k' where c: "cut_reserves limit r k = (r', k')" by (metis surj_pair)
  have "0 \<le> r' \<and> 0 \<le> k' \<and> r' + k' \<le> limit" using cut_reserves_fit [OF rk _ c] assms by simp
  then show ?thesis using assms c
    by (cases l) (auto simp: lane_reserves_def Let_def r_def [symmetric] k_def [symmetric] max_def)
qed

end
