(* ===== verification/GateQueue.thy ===== *)
theory GateQueue
  imports GateConfig
begin

text \<open>
  The state of the browser gate (\<open>services/chatgpt_core/sentinel_browser.py\<close>) and the
  sections that change it under its lock: tickets of browsers that wait, counts of
  the browsers that run, the permits of held browsers, the time of the next launch
  and the two flags of the resource checks. The settings may be read again at every
  use, so a section gets the result of its \<open>n\<close>-th read.
\<close>

section \<open>State\<close>

record gate_ticket =
  tk_sequence :: nat
  tk_operation :: string
  tk_registration :: bool
  tk_enqueued :: time
  tk_wake :: bool

record gate =
  gt_queue :: "gate_ticket list"
  gt_sequence :: nat
  gt_active :: int
  gt_lanes :: "gate_lane \<Rightarrow> int"
  gt_waiters :: int
  gt_persistent :: int
  gt_permits :: int
  gt_next_launch :: time
  gt_pids_short :: bool
  gt_cpu_short :: bool

definition empty_gate :: gate where
  "empty_gate = \<lparr>gt_queue = [], gt_sequence = 0, gt_active = 0, gt_lanes = (\<lambda>l. 0), gt_waiters = 0,
     gt_persistent = 0, gt_permits = persistent_max_sessions, gt_next_launch = 0,
     gt_pids_short = False, gt_cpu_short = False\<rparr>"

record launch_turn =
  lt_launch_at :: time
  lt_interval :: time

text \<open>What a section sees: its reads of the settings, of the clock and of the kernel's files.\<close>

record gate_input =
  gi_config :: "nat \<Rightarrow> capacity_config"
  gi_clock :: "nat \<Rightarrow> time"
  gi_pids :: "string option"
  gi_pids_max :: "string option"
  gi_memory :: "string option"
  gi_memory_max :: "string option"
  gi_available :: "int option"
  gi_cpu :: "rat option"
  gi_slot_reserve :: "string option"

datatype wait_reason =
    NoTicket
  | BehindInQueue nat nat nat
  | LaneReserved gate_lane nat nat int int
  | LaunchStagger time time
  | AtCapacity int
  | PidsShort
  | MemoryShort
  | HostMemoryShort
  | CpuPressure

section \<open>Waiting\<close>

definition ticket_lane :: "gate_ticket \<Rightarrow> gate_lane" where
  "ticket_lane t = (if tk_registration t then RegistrationLane else RecheckLane)"

definition registration_priority :: "string \<Rightarrow> bool" where
  "registration_priority p \<longleftrightarrow>
     py_lower (py_strip (or_else p ''normal'')) \<in> {''registration'', ''register'', ''high''}"

definition enqueue :: "string \<Rightarrow> string \<Rightarrow> time \<Rightarrow> gate \<Rightarrow> gate" where
  "enqueue operation priority now g =
     (let n = gt_sequence g + 1;
          t = \<lparr>tk_sequence = n, tk_operation = or_else operation ''browser_work'',
               tk_registration = registration_priority priority, tk_enqueued = now,
               tk_wake = (gt_queue g = [])\<rparr>
      in g\<lparr>gt_sequence := n, gt_queue := gt_queue g @ [t],
           gt_waiters := (if tk_registration t then gt_waiters g + 1 else gt_waiters g)\<rparr>)"

definition reset_idle_lanes :: "gate \<Rightarrow> gate" where
  "reset_idle_lanes g = (if 0 < gt_active g then g else g\<lparr>gt_lanes := (\<lambda>l. 0)\<rparr>)"

text \<open>A lane is protected while it waits and has fewer slots than its reserve.\<close>

definition protected_lane :: "(gate_lane \<Rightarrow> int) \<Rightarrow> gate \<Rightarrow> gate_lane \<Rightarrow> bool" where
  "protected_lane reserves g l \<longleftrightarrow>
     gt_lanes g l < reserves l \<and> list_ex (\<lambda>t. ticket_lane t = l) (gt_queue g)"

definition eligible_ticket :: "(gate_lane \<Rightarrow> int) \<Rightarrow> gate \<Rightarrow> (gate_ticket \<times> bool) option" where
  "eligible_ticket reserves g =
     (case gt_queue g of
        [] \<Rightarrow> None
      | t # ts \<Rightarrow>
          (case find (\<lambda>t. protected_lane reserves g (ticket_lane t)) (gt_queue g) of
             Some p \<Rightarrow> Some (p, True) | None \<Rightarrow> Some (t, False)))"

text \<open>The position of a ticket, counted from one; zero where it is not there.\<close>

fun queue_position :: "nat \<Rightarrow> gate_ticket list \<Rightarrow> nat" where
  "queue_position n [] = 0"
| "queue_position n (t # ts) =
     (if tk_sequence t = n then 1
      else case queue_position n ts of 0 \<Rightarrow> 0 | Suc k \<Rightarrow> Suc (Suc k))"

definition woken :: "gate_ticket list \<Rightarrow> gate_ticket list" where
  "woken ts = map (\<lambda>t. t\<lparr>tk_wake := True\<rparr>) ts"

fun without_ticket :: "nat \<Rightarrow> gate_ticket list \<Rightarrow> gate_ticket list" where
  "without_ticket n [] = []"
| "without_ticket n (t # ts) = (if tk_sequence t = n then ts else t # without_ticket n ts)"

definition remove_ticket :: "nat \<Rightarrow> gate \<Rightarrow> gate \<times> bool" where
  "remove_ticket n g =
     (case find (\<lambda>t. tk_sequence t = n) (gt_queue g) of
        None \<Rightarrow> (g, False)
      | Some t \<Rightarrow> (g\<lparr>gt_queue := woken (without_ticket n (gt_queue g)),
                    gt_waiters := (if tk_registration t then max 0 (gt_waiters g - 1) else gt_waiters g)\<rparr>,
                   True))"

section \<open>Launch turns\<close>

definition launch_delay :: "rat \<Rightarrow> time \<Rightarrow> gate \<Rightarrow> time \<times> time" where
  "launch_delay interval now g =
     (if interval \<le> 0 then (0, 0) else (max 0 (gt_next_launch g - now), interval))"

definition claim_turn :: "rat \<Rightarrow> time \<Rightarrow> gate \<Rightarrow> gate \<times> launch_turn" where
  "claim_turn interval now g =
     (if interval \<le> 0 then (g, \<lparr>lt_launch_at = now, lt_interval = 0\<rparr>)
      else (let start = max now (gt_next_launch g)
            in (g\<lparr>gt_next_launch := start + interval\<rparr>, \<lparr>lt_launch_at = start, lt_interval = interval\<rparr>)))"

section \<open>Resources\<close>

definition check_pids :: "gate_input \<Rightarrow> nat \<Rightarrow> gate \<Rightarrow> bool \<times> gate" where
  "check_pids i k g =
     (let (ok, short) = pid_headroom (pid_reserve (gi_config i k)) (pid_emergency_reserve (gi_config i (k + 1)))
            (read_int_file (gi_pids i)) (read_int_file (gi_pids_max i)) (gt_pids_short g)
      in (ok, g\<lparr>gt_pids_short := short\<rparr>))"

definition check_memory :: "gate_input \<Rightarrow> bool" where
  "check_memory i = memory_allows (read_int_file (gi_memory i)) (read_int_file (gi_memory_max i))
     (slot_reserve_bytes (gi_slot_reserve i))"

definition check_host_memory :: "gate_input \<Rightarrow> nat \<Rightarrow> bool" where
  "check_host_memory i k = host_memory_allows (gi_available i) (host_memory_reserve (gi_config i k))
     (slot_reserve_bytes (gi_slot_reserve i))"

definition check_cpu :: "gate_input \<Rightarrow> nat \<Rightarrow> gate \<Rightarrow> bool \<times> gate" where
  "check_cpu i k g =
     (let (ok, short) = cpu_pressure (gi_cpu i) (cpu_limit (gi_config i k)) (gt_cpu_short g)
      in (ok, g\<lparr>gt_cpu_short := short\<rparr>))"

text \<open>The checks before a slot is given: each one only if those before it passed.\<close>

definition slot_resources :: "gate_input \<Rightarrow> gate \<Rightarrow> wait_reason option \<times> gate" where
  "slot_resources i g =
     (let (pids, g1) = check_pids i 5 g
      in if \<not> pids then (Some PidsShort, g1)
         else if 1 \<le> gt_active g \<and> \<not> check_memory i then (Some MemoryShort, g1)
         else if \<not> check_host_memory i 7 then (Some HostMemoryShort, g1)
         else (let (cpu, g2) = check_cpu i 8 g1
               in if \<not> cpu then (Some CpuPressure, g2) else (None, g2)))"

text \<open>
  One round of the checks before the browser is created: all of them, then the first
  that failed.
\<close>

definition launch_resources :: "gate_input \<Rightarrow> gate \<Rightarrow> wait_reason option \<times> gate" where
  "launch_resources i g =
     (let slots = gt_active g + gt_persistent g; (pids, g1) = check_pids i 1 g;
          memory = (2 \<le> slots \<longrightarrow> check_memory i); host = check_host_memory i 3;
          (cpu, g2) = check_cpu i 4 g1
      in (if \<not> pids then Some PidsShort else if \<not> memory then Some MemoryShort
          else if \<not> host then Some HostMemoryShort else if \<not> cpu then Some CpuPressure else None, g2))"

section \<open>Slots\<close>

definition behind :: "gate_input \<Rightarrow> gate_ticket \<Rightarrow> gate_ticket \<Rightarrow> bool \<Rightarrow> gate \<Rightarrow> wait_reason" where
  "behind i t p reserved g =
     (let pos = queue_position (tk_sequence t) (gt_queue g); depth = length (gt_queue g);
          first = tk_sequence (hd (gt_queue g))
      in if reserved \<and> tk_sequence p \<noteq> first
         then LaneReserved (ticket_lane t) pos depth (gt_lanes g (ticket_lane t))
                (lane_reserves (concurrency_limit (gi_config i 2)) (gi_config i 3) (ticket_lane t))
         else BehindInQueue pos depth first)"

definition take_slot :: "gate_lane \<Rightarrow> gate \<Rightarrow> gate" where
  "take_slot l g = g\<lparr>gt_active := gt_active g + 1, gt_lanes := (gt_lanes g)(l := gt_lanes g l + 1)\<rparr>"

text \<open>\<open>_try_acquire_locked\<close>.\<close>

definition try_acquire :: "gate_input \<Rightarrow> gate_ticket \<Rightarrow> gate \<Rightarrow> (wait_reason + launch_turn) \<times> gate" where
  "try_acquire i t g0 =
     (if gt_queue g0 = [] then (Inl NoTicket, g0)
      else (let g = reset_idle_lanes g0
            in case eligible_ticket (lane_reserves (concurrency_limit (gi_config i 0)) (gi_config i 1)) g of
                 None \<Rightarrow> (Inl NoTicket, g)
               | Some (p, reserved) \<Rightarrow>
                   if tk_sequence p \<noteq> tk_sequence t then (Inl (behind i t p reserved g), g)
                   else (let (delay, interval) = launch_delay (launch_interval (gi_config i 2)) (gi_clock i 0) g
                         in if 0 < delay then (Inl (LaunchStagger delay interval), g)
                            else if concurrency_limit (gi_config i 3) \<le> gt_active g
                            then (Inl (AtCapacity (concurrency_limit (gi_config i 3))), g)
                            else (let (short, g1) = (if adaptive_mode (gi_config i 4) then slot_resources i g else (None, g))
                                  in case short of
                                       Some why \<Rightarrow> (Inl why, g1)
                                     | None \<Rightarrow>
                                         (let (g2, turn) = claim_turn (launch_interval (gi_config i 9)) (gi_clock i 1) g1
                                          in (Inr turn, take_slot (ticket_lane t) g2))))))"

text \<open>The end of a browser that has a slot.\<close>

definition release_slot :: "gate_lane \<Rightarrow> gate \<Rightarrow> gate" where
  "release_slot l g =
     g\<lparr>gt_active := max 0 (gt_active g - 1), gt_lanes := (gt_lanes g)(l := max 0 (gt_lanes g l - 1)),
       gt_queue := woken (gt_queue g)\<rparr>"

definition clear_wake :: "nat \<Rightarrow> gate \<Rightarrow> gate" where
  "clear_wake n g =
     g\<lparr>gt_queue := map (\<lambda>t. if tk_sequence t = n then t\<lparr>tk_wake := False\<rparr> else t) (gt_queue g)\<rparr>"

end
