(* ===== verification/GateMachine.thy ===== *)
theory GateMachine
  imports GateQueue
begin

text \<open>
  The callers of the browser gate as a machine: \<open>run_with_browser_capacity\<close> queues for
  a slot, \<open>run_with_persistent_browser_capacity\<close> takes a permit and one of the held
  slots; both then wait for their launch turn and for resources, run the browser and
  give back what they took. An event is a new caller, the next step of one, or its
  end by an exception (a stop of the task, the log, the browser), which can come in
  every wait.
\<close>

section \<open>Callers\<close>

datatype launch_stage = AwaitTurn launch_turn | ReadsMode | AwaitResources | BrowserRuns

datatype gate_client =
    InQueue nat
  | InSlot gate_lane launch_stage
  | WantsPermit
  | HasPermit
  | ClaimsTurn
  | Held launch_stage
  | LeavesHold
  | Finished

record gate_system =
  gs_gate :: gate
  gs_clients :: "gate_client list"

definition start_gate :: gate_system where
  "start_gate = \<lparr>gs_gate = empty_gate, gs_clients = []\<rparr>"

section \<open>Steps\<close>

text \<open>One round of the loop around \<open>_try_acquire_locked\<close>, with the removal of the ticket.\<close>

definition poll_slot :: "gate_input \<Rightarrow> nat \<Rightarrow> gate \<Rightarrow> gate_client \<times> gate" where
  "poll_slot i n g =
     (case find (\<lambda>t. tk_sequence t = n) (gt_queue g) of
        None \<Rightarrow> (InQueue n, g)
      | Some t \<Rightarrow>
          (case try_acquire i t (clear_wake n g) of
             (Inl why, g1) \<Rightarrow> (InQueue n, g1)
           | (Inr turn, g1) \<Rightarrow>
               (let (g2, removed) = remove_ticket n g1
                in if removed then (InSlot (ticket_lane t) (AwaitTurn turn), g2)
                   else (Finished, release_slot (ticket_lane t) g2))))"

text \<open>
  Waiting for the turn; then the capacity mode is read once, and only in the adaptive
  mode the resources are waited for, round by round; the browser runs until it returns.
\<close>

definition launch_step :: "gate_input \<Rightarrow> launch_stage \<Rightarrow> gate \<Rightarrow> launch_stage option \<times> gate" where
  "launch_step i st g =
     (case st of
        AwaitTurn turn \<Rightarrow> (Some (if lt_launch_at turn \<le> gi_clock i 0 then ReadsMode else st), g)
      | ReadsMode \<Rightarrow> (Some (if adaptive_mode (gi_config i 0) then AwaitResources else BrowserRuns), g)
      | AwaitResources \<Rightarrow>
          (let (short, g1) = launch_resources i g
           in (Some (if short = None then BrowserRuns else st), g1))
      | BrowserRuns \<Rightarrow> (None, g))"

definition leave_hold :: "gate \<Rightarrow> gate" where
  "leave_hold g = g\<lparr>gt_persistent := max 0 (gt_persistent g - 1)\<rparr>"

fun client_step :: "gate_input \<Rightarrow> gate_client \<Rightarrow> gate \<Rightarrow> gate_client \<times> gate" where
  "client_step i (InQueue n) g = poll_slot i n g"
| "client_step i (InSlot l st) g =
     (case launch_step i st g of
        (Some st', g1) \<Rightarrow> (InSlot l st', g1) | (None, g1) \<Rightarrow> (Finished, release_slot l g1))"
| "client_step i WantsPermit g =
     (if 0 < gt_permits g then (HasPermit, g\<lparr>gt_permits := gt_permits g - 1\<rparr>) else (WantsPermit, g))"
| "client_step i HasPermit g =
     (if gt_persistent g < persistent_limit (gi_config i 0)
      then (ClaimsTurn, g\<lparr>gt_persistent := gt_persistent g + 1\<rparr>)
      else (WantsPermit, g\<lparr>gt_permits := gt_permits g + 1\<rparr>))"
| "client_step i ClaimsTurn g =
     (let (g1, turn) = claim_turn (launch_interval (gi_config i 0)) (gi_clock i 0) g
      in (Held (AwaitTurn turn), g1))"
| "client_step i (Held st) g =
     (case launch_step i st g of
        (Some st', g1) \<Rightarrow> (Held st', g1) | (None, g1) \<Rightarrow> (LeavesHold, leave_hold g1))"
| "client_step i LeavesHold g = (Finished, g\<lparr>gt_permits := gt_permits g + 1\<rparr>)"
| "client_step i Finished g = (Finished, g)"

text \<open>
  An exception: what is left is the \<open>finally\<close> part. Between the permit and the count
  of held browsers, and after the count was lowered, nothing raises.
\<close>

fun client_raises :: "gate_client \<Rightarrow> gate \<Rightarrow> gate_client \<times> gate" where
  "client_raises (InQueue n) g = (Finished, fst (remove_ticket n g))"
| "client_raises (InSlot l st) g = (Finished, release_slot l g)"
| "client_raises WantsPermit g = (Finished, g)"
| "client_raises ClaimsTurn g = (LeavesHold, leave_hold g)"
| "client_raises (Held st) g = (LeavesHold, leave_hold g)"
| "client_raises c g = (c, g)"

datatype gate_event =
    ArriveQueued string string time
  | ArriveHold
  | ClientStep nat gate_input
  | ClientRaises nat
  | TakeSnapshot gate_input

text \<open>The snapshot samples the resources, which moves the flags, and resets idle lanes.\<close>

definition snapshot_effect :: "gate_input \<Rightarrow> gate \<Rightarrow> gate" where
  "snapshot_effect i g =
     (let (pids, g1) = check_pids i 1 g; (cpu, g2) = check_cpu i 4 g1 in reset_idle_lanes g2)"

fun gate_step :: "gate_event \<Rightarrow> gate_system \<Rightarrow> gate_system" where
  "gate_step (ArriveQueued operation priority now) s =
     (let g = enqueue operation priority now (gs_gate s)
      in \<lparr>gs_gate = g, gs_clients = gs_clients s @ [InQueue (gt_sequence g)]\<rparr>)"
| "gate_step ArriveHold s = s\<lparr>gs_clients := gs_clients s @ [WantsPermit]\<rparr>"
| "gate_step (ClientStep k i) s =
     (if k < length (gs_clients s)
      then (let (c, g) = client_step i (gs_clients s ! k) (gs_gate s)
            in \<lparr>gs_gate = g, gs_clients = (gs_clients s)[k := c]\<rparr>) else s)"
| "gate_step (ClientRaises k) s =
     (if k < length (gs_clients s)
      then (let (c, g) = client_raises (gs_clients s ! k) (gs_gate s)
            in \<lparr>gs_gate = g, gs_clients = (gs_clients s)[k := c]\<rparr>) else s)"
| "gate_step (TakeSnapshot i) s = s\<lparr>gs_gate := snapshot_effect i (gs_gate s)\<rparr>"

definition gate_run :: "gate_event list \<Rightarrow> gate_system \<Rightarrow> gate_system" where
  "gate_run evs s = fold gate_step evs s"

text \<open>The operator's view of the counters.\<close>

record gate_view =
  gv_active :: int
  gv_lanes :: "gate_lane \<Rightarrow> int"
  gv_persistent :: int
  gv_registration_waiters :: int
  gv_recheck_waiters :: nat
  gv_depth :: nat
  gv_head :: "nat option"

definition gate_snapshot :: "gate \<Rightarrow> gate_view" where
  "gate_snapshot g =
     (let g1 = reset_idle_lanes g
      in \<lparr>gv_active = gt_active g, gv_lanes = gt_lanes g1, gv_persistent = gt_persistent g,
          gv_registration_waiters = gt_waiters g,
          gv_recheck_waiters = length (filter (\<lambda>t. \<not> tk_registration t) (gt_queue g)),
          gv_depth = length (gt_queue g),
          gv_head = (case gt_queue g of [] \<Rightarrow> None | t # _ \<Rightarrow> Some (tk_sequence t))\<rparr>)"

end
