(* ===== verification/GateProofs.thy ===== *)
theory GateProofs
  imports GateMachine Contracts
begin

text \<open>
  The invariant of the browser gate: every counter is the number of callers it counts,
  the queue holds one ticket for each caller that waits, in the order of the numbers,
  and the permits that are left and those that are taken make up the hard limit.
\<close>

section \<open>Counting\<close>

definition tally :: "('a \<Rightarrow> bool) \<Rightarrow> 'a list \<Rightarrow> int" where
  "tally P xs = int (length (filter P xs))"

lemma tally_simps [simp]:
  "tally P [] = 0" "tally P (x # xs) = (if P x then 1 else 0) + tally P xs"
  "tally P (xs @ ys) = tally P xs + tally P ys" "0 \<le> tally P xs"
  by (simp_all add: tally_def)

lemma tally_update:
  "k < length xs \<Longrightarrow> tally P (xs[k := y]) = tally P xs - (if P (xs ! k) then 1 else 0) + (if P y then 1 else 0)"
proof (induction xs arbitrary: k)
  case (Cons x xs)
  then show ?case by (cases k) auto
qed simp

lemma tally_pos: "k < length xs \<Longrightarrow> P (xs ! k) \<Longrightarrow> 1 \<le> tally P xs"
proof (induction xs arbitrary: k)
  case (Cons x xs)
  then show ?case by (cases k) (auto simp: add_increasing add_increasing2)
qed simp

lemma tally_add_pos: "1 \<le> tally P xs \<Longrightarrow> 0 < tally P xs + tally Q ys" "1 \<le> tally P xs \<Longrightarrow> 0 < tally Q ys + tally P xs"
  using tally_simps(4) [of Q ys] by linarith+

lemma tally_mono: "(\<And>x. P x \<Longrightarrow> Q x) \<Longrightarrow> tally P xs \<le> tally Q xs"
  by (induction xs) auto

fun in_slot :: "gate_lane \<Rightarrow> gate_client \<Rightarrow> bool" where
  "in_slot l (InSlot k st) = (k = l)"
| "in_slot l _ = False"

fun in_hold :: "gate_client \<Rightarrow> bool" where
  "in_hold ClaimsTurn = True"
| "in_hold (Held st) = True"
| "in_hold _ = False"

fun has_permit :: "gate_client \<Rightarrow> bool" where
  "has_permit HasPermit = True"
| "has_permit LeavesHold = True"
| "has_permit c = in_hold c"

section \<open>The invariant\<close>

definition ticket_keys :: "gate \<Rightarrow> (nat \<times> bool) list" where
  "ticket_keys g = map (\<lambda>t. (tk_sequence t, tk_registration t)) (gt_queue g)"

definition counts_ok :: "gate \<Rightarrow> gate_client list \<Rightarrow> bool" where
  "counts_ok g cs \<longleftrightarrow>
     gt_active g = tally (in_slot RegistrationLane) cs + tally (in_slot RecheckLane) cs
     \<and> (\<forall>l. gt_lanes g l = tally (in_slot l) cs) \<and> gt_persistent g = tally in_hold cs
     \<and> gt_permits g = persistent_max_sessions - tally has_permit cs \<and> 0 \<le> gt_permits g"

definition queue_ok :: "gate \<Rightarrow> gate_client list \<Rightarrow> bool" where
  "queue_ok g cs \<longleftrightarrow>
     sorted_wrt (<) (map fst (ticket_keys g)) \<and> (\<forall>n\<in>set (map fst (ticket_keys g)). n \<le> gt_sequence g)
     \<and> gt_waiters g = tally snd (ticket_keys g)
     \<and> (\<forall>n. tally (\<lambda>c. c = InQueue n) cs = tally (\<lambda>k. fst k = n) (ticket_keys g))"

definition gate_ok :: "gate_system \<Rightarrow> bool" where
  "gate_ok s \<longleftrightarrow> counts_ok (gs_gate s) (gs_clients s) \<and> queue_ok (gs_gate s) (gs_clients s)"

lemma gate_ok_start: "gate_ok start_gate"
  by (simp add: gate_ok_def start_gate_def counts_ok_def queue_ok_def empty_gate_def ticket_keys_def
      persistent_max_sessions_def)

text \<open>What the invariant sees of the gate.\<close>

definition counters :: "gate \<Rightarrow> int \<times> (gate_lane \<Rightarrow> int) \<times> int \<times> int" where
  "counters g = (gt_active g, gt_lanes g, gt_persistent g, gt_permits g)"

definition queue_view :: "gate \<Rightarrow> (nat \<times> bool) list \<times> nat \<times> int" where
  "queue_view g = (ticket_keys g, gt_sequence g, gt_waiters g)"

lemma counts_ok_cong: "counters g = counters h \<Longrightarrow> counts_ok g cs = counts_ok h cs"
  by (simp add: counts_ok_def counters_def)

lemma queue_ok_cong: "queue_view g = queue_view h \<Longrightarrow> queue_ok g cs = queue_ok h cs"
  by (simp add: queue_ok_def queue_view_def)

lemma views_simps [simp]:
  "counters (g\<lparr>gt_pids_short := a\<rparr>) = counters g" "counters (g\<lparr>gt_cpu_short := a\<rparr>) = counters g"
  "counters (g\<lparr>gt_next_launch := t\<rparr>) = counters g" "counters (clear_wake n g) = counters g"
  "queue_view (g\<lparr>gt_pids_short := a\<rparr>) = queue_view g" "queue_view (g\<lparr>gt_cpu_short := a\<rparr>) = queue_view g"
  "queue_view (g\<lparr>gt_next_launch := t\<rparr>) = queue_view g" "queue_view (clear_wake n g) = queue_view g"
  "queue_view (take_slot l g) = queue_view g" "queue_view (release_slot l g) = queue_view g"
  "queue_view (leave_hold g) = queue_view g" "queue_view (g\<lparr>gt_permits := p\<rparr>) = queue_view g"
  "queue_view (g\<lparr>gt_persistent := p\<rparr>) = queue_view g"
  by (auto simp: counters_def queue_view_def ticket_keys_def clear_wake_def take_slot_def release_slot_def
      leave_hold_def woken_def)

lemma reset_idle_same: "counts_ok g cs \<Longrightarrow> reset_idle_lanes g = g"
proof (cases "0 < gt_active g")
  case False
  assume ok: "counts_ok g cs"
  have n: "0 \<le> tally (in_slot RegistrationLane) cs" "0 \<le> tally (in_slot RecheckLane) cs" by (rule tally_simps)+
  have a: "gt_active g = tally (in_slot RegistrationLane) cs + tally (in_slot RecheckLane) cs"
    and l: "\<And>l. gt_lanes g l = tally (in_slot l) cs"
    using ok by (simp_all add: counts_ok_def)
  have z: "tally (in_slot RegistrationLane) cs = 0" "tally (in_slot RecheckLane) cs = 0"
    using n a False by linarith+
  have "gt_lanes g = (\<lambda>l. 0)"
  proof
    fix k show "gt_lanes g k = 0" using z by (cases k) (simp_all add: l)
  qed
  then show ?thesis by (cases g) (simp add: reset_idle_lanes_def)
qed (simp add: reset_idle_lanes_def)

section \<open>What the sections do\<close>

lemma check_views [simp]:
  "counters (snd (check_pids i k g)) = counters g" "queue_view (snd (check_pids i k g)) = queue_view g"
  "counters (snd (check_cpu i k g)) = counters g" "queue_view (snd (check_cpu i k g)) = queue_view g"
  by (simp_all add: check_pids_def check_cpu_def split: prod.split)

lemma slot_resources_views [simp]:
  "counters (snd (slot_resources i g)) = counters g" "queue_view (snd (slot_resources i g)) = queue_view g"
proof -
  obtain p g1 where 1: "check_pids i 5 g = (p, g1)" by (metis surj_pair)
  obtain c g2 where 2: "check_cpu i 8 g1 = (c, g2)" by (metis surj_pair)
  have "counters g1 = counters g" "queue_view g1 = queue_view g"
    using check_views(1,2) [of i 5 g] 1 by simp_all
  moreover have "counters g2 = counters g1" "queue_view g2 = queue_view g1"
    using check_views(3,4) [of i 8 g1] 2 by simp_all
  ultimately show "counters (snd (slot_resources i g)) = counters g"
    "queue_view (snd (slot_resources i g)) = queue_view g"
    by (simp_all add: slot_resources_def 1 2)
qed

lemma launch_resources_views [simp]:
  "counters (snd (launch_resources i g)) = counters g" "queue_view (snd (launch_resources i g)) = queue_view g"
proof -
  obtain p g1 where 1: "check_pids i (Suc 0) g = (p, g1)" by (metis surj_pair)
  obtain c g2 where 2: "check_cpu i 4 g1 = (c, g2)" by (metis surj_pair)
  have "counters g1 = counters g" "queue_view g1 = queue_view g"
    using check_views(1,2) [of i "Suc 0" g] 1 by simp_all
  moreover have "counters g2 = counters g1" "queue_view g2 = queue_view g1"
    using check_views(3,4) [of i 4 g1] 2 by simp_all
  ultimately show "counters (snd (launch_resources i g)) = counters g"
    "queue_view (snd (launch_resources i g)) = queue_view g"
    by (simp_all add: launch_resources_def 1 2)
qed

lemma claim_turn_views [simp]:
  "counters (fst (claim_turn d now g)) = counters g" "queue_view (fst (claim_turn d now g)) = queue_view g"
  by (simp_all add: claim_turn_def Let_def)

lemma launch_step_views [simp]:
  "counters (snd (launch_step i st g)) = counters g" "queue_view (snd (launch_step i st g)) = queue_view g"
  by (cases st; simp add: launch_step_def case_prod_unfold Let_def)+

lemma snapshot_views [simp]:
  assumes "counts_ok g cs"
  shows "counters (snapshot_effect i g) = counters g" "queue_view (snapshot_effect i g) = queue_view g"
proof -
  obtain p g1 where 1: "check_pids i (Suc 0) g = (p, g1)" by (metis surj_pair)
  obtain c g2 where 2: "check_cpu i 4 g1 = (c, g2)" by (metis surj_pair)
  have v: "counters g1 = counters g" "queue_view g1 = queue_view g"
      "counters g2 = counters g1" "queue_view g2 = queue_view g1"
    using check_views(1,2) [of i "Suc 0" g] 1 check_views(3,4) [of i 4 g1] 2 by simp_all
  then have "reset_idle_lanes g2 = g2" using assms counts_ok_cong [of g2 g] by (intro reset_idle_same) simp
  then show "counters (snapshot_effect i g) = counters g" "queue_view (snapshot_effect i g) = queue_view g"
    using v by (simp_all add: snapshot_effect_def 1 2)
qed

text \<open>A round either waits and changes no count, or gives a slot to the eligible ticket.\<close>

definition may_grant :: "gate_input \<Rightarrow> nat \<Rightarrow> gate \<Rightarrow> bool" where
  "may_grant i n g \<longleftrightarrow>
     (\<exists>p r. eligible_ticket (lane_reserves (concurrency_limit (gi_config i 0)) (gi_config i 1)) g = Some (p, r)
        \<and> tk_sequence p = n)
     \<and> gt_active g < concurrency_limit (gi_config i 3)
     \<and> fst (launch_delay (launch_interval (gi_config i 2)) (gi_clock i 0) g) \<le> 0"

lemma slot_resources_launch [simp]: "gt_next_launch (snd (slot_resources i g)) = gt_next_launch g"
  by (simp add: slot_resources_def check_pids_def check_cpu_def case_prod_unfold Let_def)

lemma try_acquire_cases:
  assumes same: "reset_idle_lanes g = g"
  obtains (waits) why g' where "try_acquire i t g = (Inl why, g')" "counters g' = counters g"
      "queue_view g' = queue_view g" "gt_next_launch g' = gt_next_launch g"
  | (granted) turn g' h where "try_acquire i t g = (Inr turn, take_slot (ticket_lane t) g')"
      "counters g' = counters g" "queue_view g' = queue_view g" "may_grant i (tk_sequence t) g"
      "gt_next_launch h = gt_next_launch g"
      "claim_turn (launch_interval (gi_config i 9)) (gi_clock i 1) h = (g', turn)"
proof (cases "eligible_ticket (lane_reserves (concurrency_limit (gi_config i 0)) (gi_config i 1)) g")
  case None
  then show thesis using waits [of NoTicket g] same by (simp add: try_acquire_def)
next
  case (Some pr)
  obtain p r where pr: "eligible_ticket (lane_reserves (concurrency_limit (gi_config i 0)) (gi_config i 1)) g = Some (p, r)"
    using Some by (cases pr) simp
  then have q: "gt_queue g \<noteq> []" by (auto simp: eligible_ticket_def)
  obtain d e where d: "launch_delay (launch_interval (gi_config i 2)) (gi_clock i 0) g = (d, e)" by (metis surj_pair)
  obtain s g1 where s: "(if adaptive_mode (gi_config i 4) then slot_resources i g else (None, g)) = (s, g1)"
    by (metis surj_pair)
  have g1: "g1 = (if adaptive_mode (gi_config i 4) then snd (slot_resources i g) else g)"
    using s by (simp split: if_splits)
  have v: "counters g1 = counters g" "queue_view g1 = queue_view g" "gt_next_launch g1 = gt_next_launch g"
    by (simp_all add: g1)
  obtain g2 turn where c: "claim_turn (launch_interval (gi_config i 9)) (gi_clock i 1) g1 = (g2, turn)"
    by (metis surj_pair)
  have g2: "g2 = fst (claim_turn (launch_interval (gi_config i 9)) (gi_clock i 1) g1)" using c by simp
  have w: "counters g2 = counters g1" "queue_view g2 = queue_view g1" by (simp_all add: g2)
  show thesis
  proof (cases "tk_sequence p = tk_sequence t \<and> \<not> 0 < d \<and> \<not> concurrency_limit (gi_config i 3) \<le> gt_active g")
    case False
    have "\<exists>why. try_acquire i t g = (Inl why, g)"
      using False q pr d same by (cases "tk_sequence p = tk_sequence t"; cases "0 < d"; simp add: try_acquire_def)
    then show thesis using waits [of _ g] by auto
  next
    case True
    show thesis
    proof (cases s)
      case None
      then show thesis using granted [of turn g2 g1] True q pr d same s c v w
        by (simp add: try_acquire_def may_grant_def)
    next
      case (Some why)
      then show thesis using waits [of why g1] True q pr d same s v by (simp add: try_acquire_def)
    qed
  qed
qed

section \<open>Tickets that leave the queue\<close>

lemma tally_map [simp]: "tally P (map f xs) = tally (\<lambda>x. P (f x)) xs"
  by (induction xs) auto

lemma tally_some: "1 \<le> tally P xs \<Longrightarrow> \<exists>x. find P xs = Some x"
  by (induction xs) auto

lemma without_ticket_tally:
  "find (\<lambda>t. tk_sequence t = n) ts = Some t \<Longrightarrow> tally P ts = (if P t then 1 else 0) + tally P (without_ticket n ts)"
  by (induction ts) (auto split: if_splits)

lemma without_ticket_set: "set (without_ticket n ts) \<subseteq> set ts"
  by (induction ts) auto

lemma without_ticket_sorted:
  "sorted_wrt (<) (map tk_sequence ts) \<Longrightarrow> sorted_wrt (<) (map tk_sequence (without_ticket n ts))"
proof (induction ts)
  case (Cons t ts)
  then show ?case using without_ticket_set [of n ts] by auto
qed simp

lemma find_ticket: "find (\<lambda>t. tk_sequence t = n) ts = Some t \<Longrightarrow> tk_sequence t = n \<and> t \<in> set ts"
  by (induction ts) (auto split: if_splits)

lemma woken_simps [simp]:
  "map tk_sequence (woken ts) = map tk_sequence ts"
  "tally (\<lambda>t. tk_sequence t = m) (woken ts) = tally (\<lambda>t. tk_sequence t = m) ts"
  "tally tk_registration (woken ts) = tally tk_registration ts"
  "(\<forall>t\<in>set (woken ts). tk_sequence t \<le> m) = (\<forall>t\<in>set ts. tk_sequence t \<le> m)"
  by (induction ts) (auto simp: woken_def)

lemma queue_ok_iff:
  "queue_ok g cs \<longleftrightarrow>
     sorted_wrt (<) (map tk_sequence (gt_queue g)) \<and> (\<forall>t\<in>set (gt_queue g). tk_sequence t \<le> gt_sequence g)
     \<and> gt_waiters g = tally tk_registration (gt_queue g)
     \<and> (\<forall>n. tally (\<lambda>c. c = InQueue n) cs = tally (\<lambda>t. tk_sequence t = n) (gt_queue g))"
  by (auto simp: queue_ok_def ticket_keys_def comp_def)

lemma waiting_has_ticket:
  assumes "queue_ok g cs" and "k < length cs" and "cs ! k = InQueue n"
  shows "\<exists>t. find (\<lambda>t. tk_sequence t = n) (gt_queue g) = Some t"
  using tally_pos [of k cs "\<lambda>c. c = InQueue n"] assms by (intro tally_some) (simp add: queue_ok_iff)

lemma remove_ticket_ok:
  assumes ok: "queue_ok g cs" and k: "k < length cs" "cs ! k = InQueue n" and c: "\<And>m. c \<noteq> InQueue m"
  shows "snd (remove_ticket n g) \<and> queue_ok (fst (remove_ticket n g)) (cs[k := c])
    \<and> counters (fst (remove_ticket n g)) = counters g \<and> gt_next_launch (fst (remove_ticket n g)) = gt_next_launch g"
proof -
  obtain t where t: "find (\<lambda>t. tk_sequence t = n) (gt_queue g) = Some t" using waiting_has_ticket [OF ok k] by auto
  note n = find_ticket [OF t] and w = without_ticket_tally [OF t]
  have "tally (\<lambda>x. x = InQueue m) (cs[k := c]) = tally (\<lambda>t. tk_sequence t = m) (without_ticket n (gt_queue g))" for m
    using ok k c n w [of "\<lambda>t. tk_sequence t = m"] by (auto simp: queue_ok_iff tally_update)
  moreover have "\<forall>t\<in>set (without_ticket n (gt_queue g)). tk_sequence t \<le> gt_sequence g"
    using ok without_ticket_set [of n "gt_queue g"] by (auto simp: queue_ok_iff)
  moreover have "(if tk_registration t then max 0 (gt_waiters g - 1) else gt_waiters g)
      = tally tk_registration (without_ticket n (gt_queue g))"
    using ok w [of tk_registration] by (simp add: queue_ok_iff)
  ultimately have "queue_ok (fst (remove_ticket n g)) (cs[k := c])"
    using ok by (simp add: queue_ok_iff remove_ticket_def t without_ticket_sorted)
  then show ?thesis by (simp add: remove_ticket_def t counters_def)
qed

section \<open>Every event keeps the invariant\<close>

lemma update_same: "cs ! k = c \<Longrightarrow> cs[k := c] = cs"
  by auto

lemma queue_ok_other:
  assumes "queue_ok g cs" and "queue_view h = queue_view g" and "k < length cs"
    and "\<And>m. (cs ! k = InQueue m) = (c = InQueue m)"
  shows "queue_ok h (cs[k := c])"
proof -
  have "queue_ok g (cs[k := c])" using assms(1,3,4) by (simp add: queue_ok_def tally_update)
  then show ?thesis using queue_ok_cong [OF assms(2)] by simp
qed

definition places :: "gate_client \<Rightarrow> (gate_lane \<Rightarrow> int) \<times> int \<times> int" where
  "places c = (\<lambda>l. of_bool (in_slot l c), of_bool (in_hold c), of_bool (has_permit c))"

lemma counts_ok_other:
  assumes "counts_ok g cs" and "counters h = counters g" and "k < length cs" and "places (cs ! k) = places c"
  shows "counts_ok h (cs[k := c])"
proof -
  have "in_slot l (cs ! k) = in_slot l c" "in_hold (cs ! k) = in_hold c" "has_permit (cs ! k) = has_permit c" for l
    using assms(4) by (auto simp: places_def fun_eq_iff of_bool_def split: if_splits)
  then have "counts_ok g (cs[k := c])" using assms(1,3) by (simp add: counts_ok_def tally_update)
  then show ?thesis using counts_ok_cong [OF assms(2)] by simp
qed

lemma take_slot_ok:
  "counts_ok g cs \<Longrightarrow> k < length cs \<Longrightarrow> cs ! k = InQueue n \<Longrightarrow> counts_ok (take_slot l g) (cs[k := InSlot l st])"
  by (cases l) (auto simp: counts_ok_def take_slot_def tally_update)

lemma release_slot_ok:
  "counts_ok g cs \<Longrightarrow> k < length cs \<Longrightarrow> cs ! k = InSlot l st \<Longrightarrow> counts_ok (release_slot l g) (cs[k := Finished])"
  using tally_pos [of k cs "in_slot l"]
  by (cases l) (auto simp: counts_ok_def release_slot_def tally_update max_def tally_add_pos)

lemma leave_hold_ok:
  "counts_ok g cs \<Longrightarrow> k < length cs \<Longrightarrow> in_hold (cs ! k) \<Longrightarrow> counts_ok (leave_hold g) (cs[k := LeavesHold])"
  using tally_pos [of k cs in_hold]
  by (cases "cs ! k") (auto simp: counts_ok_def leave_hold_def tally_update max_def)

lemma return_permit_ok:
  "counts_ok g cs \<Longrightarrow> k < length cs \<Longrightarrow> cs ! k \<in> {HasPermit, LeavesHold} \<Longrightarrow> c \<in> {Finished, WantsPermit}
    \<Longrightarrow> counts_ok (g\<lparr>gt_permits := gt_permits g + 1\<rparr>) (cs[k := c])"
  using tally_pos [of k cs has_permit]
  by (cases "cs ! k") (auto simp: counts_ok_def tally_update)

lemma enqueue_ok:
  assumes "gate_ok s"
  shows "gate_ok (gate_step (ArriveQueued operation priority now) s)"
  using assms
  by (force simp: gate_ok_def counts_ok_def queue_ok_iff enqueue_def Let_def sorted_wrt_append less_Suc_eq_le le_Suc_eq)

lemma clear_wake_simps [simp]:
  "gt_active (clear_wake n g) = gt_active g" "gt_next_launch (clear_wake n g) = gt_next_launch g"
  "counts_ok (clear_wake n g) cs = counts_ok g cs" "queue_ok (clear_wake n g) cs = queue_ok g cs"
  by (simp_all add: clear_wake_def [of n g, THEN arg_cong [where f = gt_active]]
      clear_wake_def [of n g, THEN arg_cong [where f = gt_next_launch]]
      counts_ok_cong [of "clear_wake n g" g] queue_ok_cong [of "clear_wake n g" g])

text \<open>
  A round of a caller with a ticket: it waits on, or it leaves the queue with a slot.
\<close>

lemma poll_slot_cases:
  assumes ok: "counts_ok g cs" "queue_ok g cs" and k: "k < length cs" "cs ! k = InQueue n"
  obtains (waits) h where "poll_slot i n g = (InQueue n, h)" "counters h = counters g" "queue_view h = queue_view g"
      "gt_next_launch h = gt_next_launch g"
  | (granted) t turn h' h0 where "poll_slot i n g = (InSlot (ticket_lane t) (AwaitTurn turn), h')"
      "find (\<lambda>t. tk_sequence t = n) (gt_queue g) = Some t" "may_grant i n (clear_wake n g)"
      "counts_ok h' (cs[k := InSlot (ticket_lane t) (AwaitTurn turn)])"
      "queue_ok h' (cs[k := InSlot (ticket_lane t) (AwaitTurn turn)])"
      "gt_next_launch h0 = gt_next_launch g"
      "claim_turn (launch_interval (gi_config i 9)) (gi_clock i 1) h0 = (h0\<lparr>gt_next_launch := gt_next_launch h'\<rparr>, turn)"
proof -
  obtain t where t: "find (\<lambda>t. tk_sequence t = n) (gt_queue g) = Some t" using waiting_has_ticket [OF ok(2) k] by auto
  have n: "tk_sequence t = n" using find_ticket [OF t] by simp
  have same: "reset_idle_lanes (clear_wake n g) = clear_wake n g" using ok by (intro reset_idle_same) simp
  show thesis
  proof (cases rule: try_acquire_cases [OF same, of i t])
    case (1 why g')
    then show thesis using waits [of g'] by (simp add: poll_slot_def t)
  next
    case (2 turn g' h)
    let ?g1 = "take_slot (ticket_lane t) g'" and ?c = "InSlot (ticket_lane t) (AwaitTurn turn)"
    have v: "counters g' = counters g" "queue_view ?g1 = queue_view g" using 2(2,3) by simp_all
    have q: "queue_ok ?g1 cs" using queue_ok_cong [OF v(2)] ok by simp
    note r = remove_ticket_ok [OF q k, of ?c, simplified]
    have "counts_ok ?g1 (cs[k := ?c])" using counts_ok_cong [OF v(1)] ok take_slot_ok [of g' cs k n] k by simp
    then have c: "counts_ok (fst (remove_ticket n ?g1)) (cs[k := ?c])" using counts_ok_cong r by blast
    have l: "gt_next_launch (fst (remove_ticket n ?g1)) = gt_next_launch g'" using r by (simp add: take_slot_def)
    have "g' = h\<lparr>gt_next_launch := gt_next_launch g'\<rparr>"
      using 2(6) by (auto simp: claim_turn_def Let_def split: if_splits)
    then show thesis
      using granted [of t turn "fst (remove_ticket n ?g1)" h] t n 2 r c l by (simp add: poll_slot_def case_prod_unfold)
  qed
qed

text \<open>The counters after the step of a caller that is not in the queue.\<close>

lemma client_step_other:
  assumes ok: "counts_ok g cs" and k: "k < length cs" and c: "\<And>n. cs ! k \<noteq> InQueue n"
    and s: "client_step i (cs ! k) g = (c, h)"
  shows "counts_ok h (cs[k := c]) \<and> queue_view h = queue_view g \<and> (\<forall>n. c \<noteq> InQueue n)"
proof (cases "cs ! k")
  case (InSlot l st)
  obtain o' g1 where l: "launch_step i st g = (o', g1)" by (metis surj_pair)
  then have g1: "g1 = snd (launch_step i st g)" by simp
  have v: "counters g1 = counters g" "queue_view g1 = queue_view g" by (simp_all add: g1)
  show ?thesis
  proof (cases o')
    case None
    then show ?thesis using s InSlot l v k ok counts_ok_cong [OF v(1)] release_slot_ok [of g1 cs k l st] by auto
  next
    case (Some st')
    then show ?thesis using s InSlot l v k counts_ok_other [OF ok v(1) k, of c] by (auto simp: places_def)
  qed
next
  case (Held st)
  obtain o' g1 where l: "launch_step i st g = (o', g1)" by (metis surj_pair)
  then have g1: "g1 = snd (launch_step i st g)" by simp
  have v: "counters g1 = counters g" "queue_view g1 = queue_view g" by (simp_all add: g1)
  show ?thesis
  proof (cases o')
    case None
    then show ?thesis using s Held l v k ok counts_ok_cong [OF v(1)] leave_hold_ok [of g1 cs k] by auto
  next
    case (Some st')
    then show ?thesis using s Held l v k counts_ok_other [OF ok v(1) k, of c] by (auto simp: places_def)
  qed
next
  case WantsPermit
  then show ?thesis using s ok k by (auto simp: counts_ok_def tally_update split: if_splits)
next
  case HasPermit
  then show ?thesis using s ok k return_permit_ok [OF ok k, of WantsPermit]
    by (auto simp: counts_ok_def tally_update split: if_splits)
next
  case ClaimsTurn
  let ?g1 = "fst (claim_turn (launch_interval (gi_config i 0)) (gi_clock i 0) g)"
  have "counters ?g1 = counters g" by simp
  then show ?thesis using s ClaimsTurn counts_ok_other [OF ok _ k, of ?g1 c]
    by (auto simp: places_def case_prod_unfold Let_def)
next
  case LeavesHold
  then show ?thesis using s return_permit_ok [OF ok k, of Finished] by auto
next
  case Finished
  then show ?thesis using s ok k by (auto simp: update_same)
qed (use c in simp)

lemma client_step_ok:
  assumes ok: "counts_ok g cs" "queue_ok g cs" and k: "k < length cs" and s: "client_step i (cs ! k) g = (c, h)"
  shows "counts_ok h (cs[k := c]) \<and> queue_ok h (cs[k := c])"
proof (cases "\<exists>n. cs ! k = InQueue n")
  case True
  then obtain n where n: "cs ! k = InQueue n" by auto
  show ?thesis
  proof (cases rule: poll_slot_cases [OF ok k n, of i])
    case (1 h)
    then show ?thesis using s n k ok counts_ok_cong [OF 1(2)] queue_ok_cong [OF 1(3)]
      by (auto simp: update_same)
  next
    case (2 t turn h' h0)
    then show ?thesis using s n by simp
  qed
next
  case False
  then have "counts_ok h (cs[k := c])" "queue_view h = queue_view g" "\<And>n. (cs ! k = InQueue n) = (c = InQueue n)"
    using client_step_other [OF ok(1) k _ s] by auto
  then show ?thesis using queue_ok_other [OF ok(2) _ k, of h c] by simp
qed

lemma client_raises_ok:
  assumes ok: "counts_ok g cs" "queue_ok g cs" and k: "k < length cs" and s: "client_raises (cs ! k) g = (c, h)"
  shows "counts_ok h (cs[k := c]) \<and> queue_ok h (cs[k := c])"
proof (cases "cs ! k")
  case (InQueue n)
  note r = remove_ticket_ok [OF ok(2) k InQueue, of Finished, simplified]
  have "counters h = counters g" using s InQueue r by auto
  then show ?thesis using s InQueue r counts_ok_other [OF ok(1) _ k, of h Finished] by (auto simp: places_def)
next
  case (InSlot l st)
  then show ?thesis using s release_slot_ok [OF ok(1) k InSlot] queue_ok_other [OF ok(2) _ k, of h c] by auto
next
  case ClaimsTurn
  then show ?thesis using s leave_hold_ok [OF ok(1) k] queue_ok_other [OF ok(2) _ k, of h c] by auto
next
  case (Held st)
  then show ?thesis using s leave_hold_ok [OF ok(1) k] queue_ok_other [OF ok(2) _ k, of h c] by auto
next
  case WantsPermit
  then show ?thesis using s counts_ok_other [OF ok(1) _ k, of h c] queue_ok_other [OF ok(2) _ k, of h c]
    by (auto simp: places_def)
qed (use s ok k in \<open>auto simp: update_same\<close>)

lemma gate_step_ok: "gate_ok s \<Longrightarrow> gate_ok (gate_step e s)"
proof (cases e)
  case (ArriveQueued operation priority now)
  assume "gate_ok s" then show ?thesis unfolding ArriveQueued by (rule enqueue_ok)
next
  case ArriveHold
  assume "gate_ok s" then show ?thesis by (auto simp: ArriveHold gate_ok_def counts_ok_def queue_ok_def)
next
  case (ClientStep k i)
  assume ok: "gate_ok s"
  then show ?thesis using client_step_ok [of "gs_gate s" "gs_clients s" k i]
    by (auto simp: ClientStep gate_ok_def split: prod.split)
next
  case (ClientRaises k)
  assume ok: "gate_ok s"
  then show ?thesis using client_raises_ok [of "gs_gate s" "gs_clients s" k]
    by (auto simp: ClientRaises gate_ok_def split: prod.split)
next
  case (TakeSnapshot i)
  assume ok: "gate_ok s"
  then show ?thesis using snapshot_views [of "gs_gate s" "gs_clients s" i]
      counts_ok_cong [of "snapshot_effect i (gs_gate s)" "gs_gate s"]
      queue_ok_cong [of "snapshot_effect i (gs_gate s)" "gs_gate s"] by (simp add: TakeSnapshot gate_ok_def)
qed

interpretation browser_gate: invariant_machine gate_step gate_ok
  by unfold_locales (rule gate_step_ok)

lemma gate_run_ok: "gate_ok s \<Longrightarrow> gate_ok (gate_run evs s)"
  unfolding gate_run_def by (rule browser_gate.run_keeps)

end
