(* ===== verification/GateTurns.thy ===== *)
theory GateTurns
  imports GateProofs
begin

text \<open>
  What a run of the browser gate gives out: the tickets that got a slot, in order, and
  the launch turns that were claimed, with the lemmas on one step of each.
\<close>

section \<open>Slots and turns that are given\<close>

definition client_after :: "nat \<Rightarrow> gate_event \<Rightarrow> gate_system \<Rightarrow> gate_client" where
  "client_after k e s = gs_clients (gate_step e s) ! k"

text \<open>The ticket that gets a slot in an event.\<close>

definition ticket_granted :: "gate_event \<Rightarrow> gate_system \<Rightarrow> nat option" where
  "ticket_granted e s =
     (case e of
        ClientStep k i \<Rightarrow>
          if k < length (gs_clients s)
          then (case (gs_clients s ! k, client_after k e s) of (InQueue n, InSlot l st) \<Rightarrow> Some n | _ \<Rightarrow> None) else None
      | _ \<Rightarrow> None)"

text \<open>The launch time that is claimed in an event.\<close>

definition turn_claimed :: "gate_event \<Rightarrow> gate_system \<Rightarrow> time option" where
  "turn_claimed e s =
     (case e of
        ClientStep k i \<Rightarrow>
          if k < length (gs_clients s)
          then (case (gs_clients s ! k, client_after k e s) of
                  (InQueue n, InSlot l (AwaitTurn t)) \<Rightarrow> Some (lt_launch_at t)
                | (ClaimsTurn, Held (AwaitTurn t)) \<Rightarrow> Some (lt_launch_at t) | _ \<Rightarrow> None) else None
      | _ \<Rightarrow> None)"

fun along :: "(gate_event \<Rightarrow> gate_system \<Rightarrow> 'a option) \<Rightarrow> gate_event list \<Rightarrow> gate_system \<Rightarrow> 'a list" where
  "along f [] s = []"
| "along f (e # es) s = (case f e s of Some x \<Rightarrow> [x] | None \<Rightarrow> []) @ along f es (gate_step e s)"

definition granted_tickets :: "gate_event list \<Rightarrow> gate_system \<Rightarrow> nat list" where
  "granted_tickets evs s = along ticket_granted evs s"

definition claimed_turns :: "gate_event list \<Rightarrow> gate_system \<Rightarrow> time list" where
  "claimed_turns evs s = along turn_claimed evs s"

text \<open>A condition on what the steps of a run read.\<close>

definition reads :: "(nat \<Rightarrow> gate_input \<Rightarrow> bool) \<Rightarrow> gate_event list \<Rightarrow> bool" where
  "reads P evs \<longleftrightarrow>
     list_all (\<lambda>e. case e of ClientStep k i \<Rightarrow> list_all (\<lambda>n. P n i) [0..<10]
       | TakeSnapshot i \<Rightarrow> list_all (\<lambda>n. P n i) [0..<10] | _ \<Rightarrow> True) evs"

lemma reads_simps [simp]:
  "reads P []" "reads P (ClientStep k i # es) \<longleftrightarrow> (\<forall>n<10. P n i) \<and> reads P es"
  "reads P (TakeSnapshot i # es) \<longleftrightarrow> (\<forall>n<10. P n i) \<and> reads P es"
  "reads P (ArriveQueued a b t # es) \<longleftrightarrow> reads P es" "reads P (ArriveHold # es) \<longleftrightarrow> reads P es"
  "reads P (ClientRaises k # es) \<longleftrightarrow> reads P es"
  by (auto simp: reads_def list_all_iff)

lemma reads_Cons: "reads P (e # es) \<Longrightarrow> reads P [e] \<and> reads P es"
  by (simp add: reads_def)

section \<open>One step\<close>

lemma step_at: "k < length (gs_clients s) \<Longrightarrow> client_step i (gs_clients s ! k) (gs_gate s) = (c, h)
    \<Longrightarrow> gate_step (ClientStep k i) s = \<lparr>gs_gate = h, gs_clients = (gs_clients s)[k := c]\<rparr>"
  by simp

lemma launch_step_launch [simp]: "gt_next_launch (snd (launch_step i st g)) = gt_next_launch g"
  by (cases st; simp add: launch_step_def launch_resources_def check_pids_def check_cpu_def case_prod_unfold Let_def)

lemma launch_step_eq: "launch_step i st g = (x, h) \<Longrightarrow> gt_next_launch h = gt_next_launch g"
  using launch_step_launch [of i st g] by (metis snd_conv)

lemma launch_step_active: "launch_step i st g = (x, h) \<Longrightarrow> gt_active h = gt_active g"
  using launch_step_views(1) [of i st g] by (simp add: counters_def)

text \<open>A ticket gets its slot in a round in which it is the eligible one.\<close>

lemma ticket_granted_step:
  assumes ok: "gate_ok s" and g: "ticket_granted e s = Some n"
  obtains k i t turn where "e = ClientStep k i" "k < length (gs_clients s)" "gs_clients s ! k = InQueue n"
    "find (\<lambda>t. tk_sequence t = n) (gt_queue (gs_gate s)) = Some t" "may_grant i n (clear_wake n (gs_gate s))"
    "gs_clients (gate_step e s) = (gs_clients s)[k := InSlot (ticket_lane t) (AwaitTurn turn)]"
proof -
  obtain k i where e: "e = ClientStep k i" and k: "k < length (gs_clients s)" "gs_clients s ! k = InQueue n"
    using g by (auto simp: ticket_granted_def split: gate_event.splits if_splits gate_client.splits)
  have q: "counts_ok (gs_gate s) (gs_clients s)" "queue_ok (gs_gate s) (gs_clients s)" using ok by (simp_all add: gate_ok_def)
  show thesis
  proof (cases rule: poll_slot_cases [OF q k, of i])
    case (1 h)
    then show thesis using g k e by (simp add: ticket_granted_def client_after_def)
  next
    case (2 t turn h' h0)
    then show thesis using that [OF e k 2(2,3)] k e by simp
  qed
qed

text \<open>The count of browsers with a slot rises only below the limit that was read.\<close>

lemma active_step:
  assumes ok: "gate_ok s"
  shows "gt_active (gs_gate (gate_step e s)) \<le> gt_active (gs_gate s)
    \<or> (\<exists>k i. e = ClientStep k i \<and> gt_active (gs_gate (gate_step e s)) \<le> concurrency_limit (gi_config i 3))"
proof (cases e)
  case (ClientStep k i)
  show ?thesis
  proof (cases "k < length (gs_clients s)")
    case k: True
    have q: "counts_ok (gs_gate s) (gs_clients s)" "queue_ok (gs_gate s) (gs_clients s)" using ok by (simp_all add: gate_ok_def)
    then have a: "0 \<le> gt_active (gs_gate s)" by (simp add: counts_ok_def)
    show ?thesis
    proof (cases "gs_clients s ! k")
      case (InQueue n)
      show ?thesis
      proof (cases rule: poll_slot_cases [OF q k InQueue, of i])
        case (1 h)
        then show ?thesis using k InQueue ClientStep by (simp add: counters_def)
      next
        case (2 t turn h' h0)
        have "gt_active h' = gt_active (gs_gate s) + 1"
          using 2(4) q(1) k InQueue by (cases "ticket_lane t") (auto simp: counts_ok_def tally_update)
        then show ?thesis using 2 k InQueue ClientStep by (simp add: may_grant_def)
      qed
    qed (use ClientStep k a in \<open>auto simp: release_slot_def leave_hold_def claim_turn_def Let_def
        dest: launch_step_active split: prod.split option.split\<close>)
  qed (simp add: ClientStep)
next
  case (ClientRaises k)
  then show ?thesis
    using ok by (cases "gs_clients s ! k")
      (auto simp: release_slot_def leave_hold_def remove_ticket_def gate_ok_def counts_ok_def split: option.split)
next
  case (TakeSnapshot i)
  then show ?thesis using ok snapshot_views(1) [of "gs_gate s" "gs_clients s" i] by (simp add: gate_ok_def counters_def)
qed (simp_all add: enqueue_def Let_def)

text \<open>A launch time is claimed no earlier than the next free one and moves it by the interval.\<close>

lemma claim_turn_launch:
  "claim_turn interval now g = (h, turn) \<Longrightarrow> gt_next_launch g \<le> gt_next_launch h"
  by (auto simp: claim_turn_def Let_def split: if_splits)

lemma claim_turn_spaced:
  "claim_turn interval now g = (h, turn) \<Longrightarrow> 0 < d \<Longrightarrow> d \<le> interval
    \<Longrightarrow> gt_next_launch g \<le> lt_launch_at turn \<and> lt_launch_at turn + d \<le> gt_next_launch h"
  by (auto simp: claim_turn_def Let_def split: if_splits)

lemma launch_times_step:
  assumes ok: "gate_ok s"
  shows "gt_next_launch (gs_gate s) \<le> gt_next_launch (gs_gate (gate_step e s))"
    and "turn_claimed e s = Some x \<Longrightarrow> 0 < d \<Longrightarrow> reads (\<lambda>n i. d \<le> launch_interval (gi_config i n)) [e]
      \<Longrightarrow> gt_next_launch (gs_gate s) \<le> x \<and> x + d \<le> gt_next_launch (gs_gate (gate_step e s))"
proof -
  have "gt_next_launch (gs_gate s) \<le> gt_next_launch (gs_gate (gate_step e s))
    \<and> (\<forall>x. turn_claimed e s = Some x \<longrightarrow> 0 < d \<longrightarrow> reads (\<lambda>n i. d \<le> launch_interval (gi_config i n)) [e]
      \<longrightarrow> gt_next_launch (gs_gate s) \<le> x \<and> x + d \<le> gt_next_launch (gs_gate (gate_step e s)))"
  proof (cases e)
    case (ClientStep k i)
    show ?thesis
    proof (cases "k < length (gs_clients s)")
      case k: True
      have q: "counts_ok (gs_gate s) (gs_clients s)" "queue_ok (gs_gate s) (gs_clients s)"
        using ok by (simp_all add: gate_ok_def)
      show ?thesis
      proof (cases "gs_clients s ! k")
        case (InQueue n)
        show ?thesis
        proof (cases rule: poll_slot_cases [OF q k InQueue, of i])
          case (1 h)
          then show ?thesis using k InQueue ClientStep by (simp add: turn_claimed_def client_after_def)
        next
          case (2 t turn h' h0)
          then show ?thesis using k InQueue ClientStep claim_turn_launch [OF 2(7)] claim_turn_spaced [OF 2(7), of d]
            by (simp add: turn_claimed_def client_after_def)
        qed
      next
        case ClaimsTurn
        obtain h turn where c: "claim_turn (launch_interval (gi_config i 0)) (gi_clock i 0) (gs_gate s) = (h, turn)"
          by (metis surj_pair)
        then show ?thesis using k ClaimsTurn ClientStep claim_turn_launch [OF c] claim_turn_spaced [OF c, of d]
          by (simp add: turn_claimed_def client_after_def)
      qed (use ClientStep k in \<open>auto simp: turn_claimed_def client_after_def release_slot_def leave_hold_def
          dest: launch_step_eq split: prod.split option.split\<close>)
    qed (simp add: ClientStep turn_claimed_def)
  next
    case (ClientRaises k)
    then show ?thesis
      by (cases "gs_clients s ! k")
        (auto simp: turn_claimed_def release_slot_def leave_hold_def remove_ticket_def split: option.split)
  qed (simp_all add: turn_claimed_def enqueue_def snapshot_effect_def check_pids_def check_cpu_def
      reset_idle_lanes_def case_prod_unfold Let_def)
  then show "gt_next_launch (gs_gate s) \<le> gt_next_launch (gs_gate (gate_step e s))"
    and "turn_claimed e s = Some x \<Longrightarrow> 0 < d \<Longrightarrow> reads (\<lambda>n i. d \<le> launch_interval (gi_config i n)) [e]
      \<Longrightarrow> gt_next_launch (gs_gate s) \<le> x \<and> x + d \<le> gt_next_launch (gs_gate (gate_step e s))"
    by blast+
qed

section \<open>The order of the grants\<close>

lemma find_first_le:
  "sorted_wrt (<) (map f ts) \<Longrightarrow> find P ts = Some p \<Longrightarrow> t \<in> set ts \<Longrightarrow> P t \<Longrightarrow> f p \<le> (f t :: nat)"
  by (induction ts) (auto split: if_splits)

lemma find_map: "find P (map f xs) = map_option f (find (\<lambda>x. P (f x)) xs)"
  by (induction xs) auto

definition wake_cleared :: "nat \<Rightarrow> gate_ticket \<Rightarrow> gate_ticket" where
  "wake_cleared n t = (if tk_sequence t = n then t\<lparr>tk_wake := False\<rparr> else t)"

lemma wake_cleared_simps [simp]:
  "tk_sequence (wake_cleared n t) = tk_sequence t" "ticket_lane (wake_cleared n t) = ticket_lane t"
  by (simp_all add: wake_cleared_def ticket_lane_def)

lemma clear_wake_queue: "gt_queue (clear_wake n g) = map (wake_cleared n) (gt_queue g)"
  by (simp add: clear_wake_def wake_cleared_def)

lemma clear_wake_views [simp]:
  "map tk_sequence (gt_queue (clear_wake n g)) = map tk_sequence (gt_queue g)"
  "gt_lanes (clear_wake n g) = gt_lanes g" "(gt_queue (clear_wake n g) = []) = (gt_queue g = [])"
  by (simp_all add: clear_wake_queue comp_def) (simp add: clear_wake_def)

lemma protected_lane_clear_wake [simp]: "protected_lane reserves (clear_wake n g) l = protected_lane reserves g l"
  by (simp add: protected_lane_def clear_wake_queue list_ex_iff)

definition eligible_number :: "(gate_lane \<Rightarrow> int) \<Rightarrow> gate \<Rightarrow> nat option" where
  "eligible_number reserves g = map_option (\<lambda>x. tk_sequence (fst x)) (eligible_ticket reserves g)"

lemma eligible_number_eq:
  "eligible_number reserves g =
     (if gt_queue g = [] then None
      else (case map_option tk_sequence (find (\<lambda>t. protected_lane reserves g (ticket_lane t)) (gt_queue g)) of
              Some n \<Rightarrow> Some n | None \<Rightarrow> Some (hd (map tk_sequence (gt_queue g)))))"
  by (cases "gt_queue g") (auto simp: eligible_number_def eligible_ticket_def split: option.split)

lemma eligible_number_clear_wake [simp]: "eligible_number reserves (clear_wake n g) = eligible_number reserves g"
proof -
  have "map_option tk_sequence (find (\<lambda>t. protected_lane reserves g (ticket_lane t)) (gt_queue (clear_wake n g)))
      = map_option tk_sequence (find (\<lambda>t. protected_lane reserves g (ticket_lane t)) (gt_queue g))"
    by (simp add: clear_wake_queue find_map option.map_comp comp_def)
  then show ?thesis unfolding eligible_number_eq clear_wake_views protected_lane_clear_wake by simp
qed

definition has_ticket :: "nat \<Rightarrow> gate_lane \<Rightarrow> gate \<Rightarrow> bool" where
  "has_ticket m l g \<longleftrightarrow> list_ex (\<lambda>t. tk_sequence t = m \<and> ticket_lane t = l) (gt_queue g)"

text \<open>A ticket whose lane is short of its reserve is passed by none that came later.\<close>

lemma grant_respects_order:
  assumes sorted: "sorted_wrt (<) (map tk_sequence (gt_queue g))" and m: "has_ticket m l g"
    and short: "gt_lanes g l < lane_reserves (concurrency_limit (gi_config i 0)) (gi_config i 1) l"
    and grant: "may_grant i n (clear_wake n g)"
  shows "n \<le> m"
proof -
  let ?R = "lane_reserves (concurrency_limit (gi_config i 0)) (gi_config i 1)"
  have "eligible_number ?R (clear_wake n g) = Some n"
    using grant by (auto simp: may_grant_def eligible_number_def)
  then have "eligible_number ?R g = Some n" by simp
  then obtain p r where p: "eligible_ticket ?R g = Some (p, r)" "tk_sequence p = n"
    by (cases "eligible_ticket ?R g") (auto simp: eligible_number_def)
  obtain t where t: "t \<in> set (gt_queue g)" "tk_sequence t = m" "ticket_lane t = l"
    using m by (auto simp: has_ticket_def list_ex_iff)
  then have pr: "protected_lane ?R g (ticket_lane t)"
    using short by (auto simp: protected_lane_def list_ex_iff)
  then have "find (\<lambda>t. protected_lane ?R g (ticket_lane t)) (gt_queue g) \<noteq> None"
    using t by (auto simp: find_None_iff)
  then have "find (\<lambda>t. protected_lane ?R g (ticket_lane t)) (gt_queue g) = Some p"
    using p by (auto simp: eligible_ticket_def split: list.splits option.splits)
  from find_first_le [OF sorted this t(1) pr] show ?thesis using p t by simp
qed

text \<open>The callers that wait with a ticket up to a number.\<close>

fun waits_upto :: "nat \<Rightarrow> gate_client \<Rightarrow> bool" where
  "waits_upto m (InQueue n) = (n \<le> m)"
| "waits_upto m _ = False"

definition waiting_upto :: "nat \<Rightarrow> gate_system \<Rightarrow> int" where
  "waiting_upto m s = tally (waits_upto m) (gs_clients s)"

lemma waits_upto_Suc: "tally (waits_upto (Suc m)) cs = tally (waits_upto m) cs + tally (\<lambda>c. c = InQueue (Suc m)) cs"
proof (induction cs)
  case (Cons c cs)
  then show ?case by (cases c) auto
qed simp

lemma waits_upto_0: "tally (waits_upto 0) cs = tally (\<lambda>c. c = InQueue 0) cs"
proof (induction cs)
  case (Cons c cs)
  then show ?case by (cases c) auto
qed simp

lemma upto_Suc: "tally (\<lambda>t. tk_sequence t \<le> Suc m) ts = tally (\<lambda>t. tk_sequence t \<le> m) ts + tally (\<lambda>t. tk_sequence t = Suc m) ts"
  by (induction ts) auto

lemma waiting_upto_queue:
  "queue_ok g cs \<Longrightarrow> tally (waits_upto m) cs = tally (\<lambda>t. tk_sequence t \<le> m) (gt_queue g)"
proof (induction m)
  case 0
  then show ?case by (simp add: waits_upto_0 queue_ok_iff)
next
  case (Suc m)
  then show ?case by (simp add: waits_upto_Suc upto_Suc queue_ok_iff)
qed

lemma position_upto:
  "sorted_wrt (<) (map tk_sequence ts) \<Longrightarrow> \<exists>t\<in>set ts. tk_sequence t = m
    \<Longrightarrow> tally (\<lambda>t. tk_sequence t \<le> m) ts = int (queue_position m ts) \<and> 0 < queue_position m ts"
proof (induction ts)
  case (Cons t ts)
  show ?case
  proof (cases "tk_sequence t = m")
    case True
    have "tally (\<lambda>t. tk_sequence t \<le> m) ts = 0"
      using Cons.prems(1) True by (auto simp: tally_def filter_empty_conv)
    then show ?thesis using True by simp
  next
    case False
    then have e: "\<exists>t\<in>set ts. tk_sequence t = m" using Cons.prems(2) by auto
    then have "tk_sequence t \<le> m" using Cons.prems(1) by auto
    then show ?thesis using Cons False e by (auto split: nat.split)
  qed
qed simp

lemma waiting_upto_step:
  assumes ok: "gate_ok s" and m: "has_ticket m l (gs_gate s)"
  shows "waiting_upto m (gate_step e s) \<le> waiting_upto m s"
    and "ticket_granted e s = Some n \<Longrightarrow> n \<le> m \<Longrightarrow> waiting_upto m (gate_step e s) = waiting_upto m s - 1"
proof -
  have q: "counts_ok (gs_gate s) (gs_clients s)" "queue_ok (gs_gate s) (gs_clients s)"
    using ok by (simp_all add: gate_ok_def)
  show "waiting_upto m (gate_step e s) \<le> waiting_upto m s"
  proof (cases e)
    case (ArriveQueued operation priority now)
    have "m \<le> gt_sequence (gs_gate s)"
      using q(2) m by (auto simp: queue_ok_iff has_ticket_def list_ex_iff)
    then show ?thesis by (simp add: ArriveQueued waiting_upto_def enqueue_def Let_def)
  next
    case (ClientStep k i)
    show ?thesis
    proof (cases "k < length (gs_clients s)")
      case k: True
      obtain c h where c: "client_step i (gs_clients s ! k) (gs_gate s) = (c, h)" by (metis surj_pair)
      have "waits_upto m c \<Longrightarrow> waits_upto m (gs_clients s ! k)"
      proof (cases "gs_clients s ! k")
        case (InQueue n)
        assume "waits_upto m c"
        then show ?thesis using c InQueue by (cases rule: poll_slot_cases [OF q k InQueue, of i]) auto
      qed (use client_step_other [OF q(1) k _ c] in \<open>cases c; auto\<close>)+
      then show ?thesis using c k by (simp add: ClientStep waiting_upto_def tally_update)
    qed (simp add: ClientStep)
  next
    case (ClientRaises k)
    then show ?thesis
      by (cases "k < length (gs_clients s)"; cases "gs_clients s ! k")
        (simp_all add: waiting_upto_def tally_update case_prod_unfold)
  qed (simp_all add: waiting_upto_def)
  assume g: "ticket_granted e s = Some n" and n: "n \<le> m"
  show "waiting_upto m (gate_step e s) = waiting_upto m s - 1"
    by (rule ticket_granted_step [OF ok g]) (use n in \<open>simp add: waiting_upto_def tally_update\<close>)
qed

text \<open>A run in which the ticket waits at every step and its lane is short at every round.\<close>

fun kept_short :: "nat \<Rightarrow> gate_lane \<Rightarrow> gate_event list \<Rightarrow> gate_system \<Rightarrow> bool" where
  "kept_short m l [] s = True"
| "kept_short m l (e # es) s =
     (has_ticket m l (gs_gate s)
      \<and> (case e of ClientStep k i \<Rightarrow>
           gt_lanes (gs_gate s) l < lane_reserves (concurrency_limit (gi_config i 0)) (gi_config i 1) l
         | _ \<Rightarrow> True)
      \<and> kept_short m l es (gate_step e s))"

lemma grants_upto:
  "gate_ok s \<Longrightarrow> kept_short m l evs s \<Longrightarrow>
    (\<forall>n\<in>set (granted_tickets evs s). n \<le> m) \<and> int (length (granted_tickets evs s)) \<le> waiting_upto m s"
proof (induction evs arbitrary: s)
  case Nil
  then show ?case by (simp add: granted_tickets_def waiting_upto_def)
next
  case (Cons e es)
  let ?s = "gate_step e s"
  have IH: "(\<forall>n\<in>set (granted_tickets es ?s). n \<le> m) \<and> int (length (granted_tickets es ?s)) \<le> waiting_upto m ?s"
    using Cons.IH [OF gate_step_ok [OF Cons.prems(1)], of e] Cons.prems(2) by simp
  have h: "has_ticket m l (gs_gate s)" using Cons.prems by simp
  show ?case
  proof (cases "ticket_granted e s")
    case None
    then show ?thesis using IH waiting_upto_step(1) [OF Cons.prems(1) h, of e] by (simp add: granted_tickets_def)
  next
    case (Some n)
    have "n \<le> m"
    proof (rule ticket_granted_step [OF Cons.prems(1) Some])
      fix k i t turn assume "e = ClientStep k i" "may_grant i n (clear_wake n (gs_gate s))"
      then show "n \<le> m"
        using Cons.prems h by (intro grant_respects_order) (auto simp: gate_ok_def queue_ok_iff)
    qed
    then show ?thesis using IH waiting_upto_step(2) [OF Cons.prems(1) h Some] Some by (simp add: granted_tickets_def)
  qed
qed

section \<open>Launch times of a run\<close>

lemma turns_spaced:
  assumes "0 < d"
  shows "gate_ok s \<Longrightarrow> reads (\<lambda>n i. d \<le> launch_interval (gi_config i n)) evs \<Longrightarrow>
    sorted_wrt (\<lambda>x y. x + d \<le> y) (claimed_turns evs s) \<and> (\<forall>x\<in>set (claimed_turns evs s). gt_next_launch (gs_gate s) \<le> x)"
proof (induction evs arbitrary: s)
  case (Cons e es)
  note r = reads_Cons [OF Cons.prems(2)] and ok = Cons.prems(1)
  note IH = Cons.IH [OF gate_step_ok [OF ok, of e]]
  note m = launch_times_step(1) [OF ok, of e]
  show ?case
  proof (cases "turn_claimed e s")
    case None
    then show ?thesis using IH r m by (auto simp: claimed_turns_def)
  next
    case (Some x)
    have "gt_next_launch (gs_gate s) \<le> x \<and> x + d \<le> gt_next_launch (gs_gate (gate_step e s))"
      using launch_times_step(2) [OF ok Some assms] r by simp
    then show ?thesis using IH r m Some by (fastforce simp: claimed_turns_def)
  qed
qed (simp add: claimed_turns_def)

section \<open>The limit on a run\<close>

lemma run_within_limit:
  "gate_ok s \<Longrightarrow> reads (\<lambda>n i. concurrency_limit (gi_config i n) \<le> L) evs \<Longrightarrow> gt_active (gs_gate s) \<le> L
    \<Longrightarrow> gt_active (gs_gate (gate_run evs s)) \<le> L"
proof (induction evs arbitrary: s)
  case (Cons e es)
  have "gt_active (gs_gate (gate_step e s)) \<le> L"
    using active_step [OF Cons.prems(1), of e]
  proof
    assume "\<exists>k i. e = ClientStep k i \<and> gt_active (gs_gate (gate_step e s)) \<le> concurrency_limit (gi_config i 3)"
    then obtain k i where e: "e = ClientStep k i" "gt_active (gs_gate (gate_step e s)) \<le> concurrency_limit (gi_config i 3)"
      by auto
    then have "concurrency_limit (gi_config i 3) \<le> L" using reads_Cons [OF Cons.prems(2)] by simp
    then show ?thesis using e by simp
  qed (use Cons.prems(3) in simp)
  then show ?case
    using Cons.IH [OF gate_step_ok [OF Cons.prems(1), of e]] reads_Cons [OF Cons.prems(2)] by (simp add: gate_run_def)
qed (simp add: gate_run_def)

section \<open>Progress\<close>

lemma tally_none: "(\<And>x. x \<in> set xs \<Longrightarrow> \<not> P x) \<Longrightarrow> tally P xs = 0"
  by (induction xs) auto

lemma tally_in_set: "1 \<le> tally P xs \<Longrightarrow> \<exists>k<length xs. P (xs ! k)"
  using tally_none [of xs P] by (metis in_set_conv_nth not_one_le_zero)

lemma eligible_in_queue: "eligible_ticket reserves g = Some (p, r) \<Longrightarrow> p \<in> set (gt_queue g)"
  by (auto simp: eligible_ticket_def find_Some_iff split: list.splits option.splits if_splits)

lemma eligible_caller:
  assumes "queue_ok g cs" and "gt_queue g \<noteq> []"
  obtains k n where "k < length cs" "cs ! k = InQueue n" "eligible_number reserves g = Some n"
proof -
  obtain p r where p: "eligible_ticket reserves g = Some (p, r)"
    using assms(2)
    by (cases "gt_queue g"; cases "find (\<lambda>t. protected_lane reserves g (ticket_lane t)) (gt_queue g)")
      (auto simp: eligible_ticket_def)
  obtain j where "j < length (gt_queue g)" "gt_queue g ! j = p"
    using eligible_in_queue [OF p] by (auto simp: in_set_conv_nth)
  then have "1 \<le> tally (\<lambda>t. tk_sequence t = tk_sequence p) (gt_queue g)" by (intro tally_pos [of j]) auto
  then have "1 \<le> tally (\<lambda>c. c = InQueue (tk_sequence p)) cs" using assms(1) by (simp add: queue_ok_iff)
  then obtain k where "k < length cs" "cs ! k = InQueue (tk_sequence p)" using tally_in_set by blast
  then show thesis using that [of k "tk_sequence p"] p by (simp add: eligible_number_def)
qed

lemma slot_resources_clear_wake [simp]: "fst (slot_resources i (clear_wake n g)) = fst (slot_resources i g)"
proof -
  have "gt_pids_short (clear_wake n g) = gt_pids_short g" by (simp add: clear_wake_def)
  then obtain p b where p: "check_pids i 5 (clear_wake n g) = (p, (clear_wake n g)\<lparr>gt_pids_short := b\<rparr>)"
      "check_pids i 5 g = (p, g\<lparr>gt_pids_short := b\<rparr>)"
    by (simp add: check_pids_def case_prod_unfold Let_def)
  have "fst (check_cpu i 8 ((clear_wake n g)\<lparr>gt_pids_short := b\<rparr>)) = fst (check_cpu i 8 (g\<lparr>gt_pids_short := b\<rparr>))"
    by (simp add: check_cpu_def clear_wake_def case_prod_unfold Let_def)
  then show ?thesis by (simp add: slot_resources_def p case_prod_unfold Let_def)
qed

lemma try_acquire_grants:
  assumes "reset_idle_lanes g = g" and e: "eligible_ticket (lane_reserves (concurrency_limit (gi_config i 0)) (gi_config i 1)) g = Some (p, r)"
    and "tk_sequence p = tk_sequence t" and "gt_active g < concurrency_limit (gi_config i 3)"
    and "gt_next_launch g \<le> gi_clock i 0" and "adaptive_mode (gi_config i 4) \<Longrightarrow> fst (slot_resources i g) = None"
  shows "\<exists>turn h. try_acquire i t g = (Inr turn, h)"
proof -
  have q: "gt_queue g \<noteq> []" using e by (auto simp: eligible_ticket_def)
  obtain d x where d: "launch_delay (launch_interval (gi_config i 2)) (gi_clock i 0) g = (d, x)" by (metis surj_pair)
  then have "\<not> 0 < d" using assms(5) by (auto simp: launch_delay_def split: if_splits)
  moreover obtain g1 where "(if adaptive_mode (gi_config i 4) then slot_resources i g else (None, g)) = (None, g1)"
    using assms(6) by (cases "adaptive_mode (gi_config i 4)"; cases "slot_resources i g"; simp)
  ultimately show ?thesis using q e assms(1,3,4) d by (simp add: try_acquire_def case_prod_unfold Let_def)
qed

lemma caller_granted:
  assumes ok: "gate_ok s" and k: "k < length (gs_clients s)" "gs_clients s ! k = InQueue n"
    and e: "eligible_number (lane_reserves (concurrency_limit (gi_config i 0)) (gi_config i 1)) (gs_gate s) = Some n"
    and "gt_active (gs_gate s) < concurrency_limit (gi_config i 3)" and "gt_next_launch (gs_gate s) \<le> gi_clock i 0"
    and "adaptive_mode (gi_config i 4) \<Longrightarrow> fst (slot_resources i (gs_gate s)) = None"
  shows "ticket_granted (ClientStep k i) s = Some n"
proof -
  let ?g = "clear_wake n (gs_gate s)" and ?R = "lane_reserves (concurrency_limit (gi_config i 0)) (gi_config i 1)"
  have q: "counts_ok (gs_gate s) (gs_clients s)" "queue_ok (gs_gate s) (gs_clients s)" using ok by (simp_all add: gate_ok_def)
  obtain t where t: "find (\<lambda>t. tk_sequence t = n) (gt_queue (gs_gate s)) = Some t" using waiting_has_ticket [OF q(2) k] by auto
  have "eligible_number ?R ?g = Some n" using e by simp
  then obtain p r where p: "eligible_ticket ?R ?g = Some (p, r)" "tk_sequence p = n"
    by (cases "eligible_ticket ?R ?g") (auto simp: eligible_number_def)
  have "reset_idle_lanes ?g = ?g" using q by (intro reset_idle_same) simp
  then obtain turn h where "try_acquire i t ?g = (Inr turn, h)"
    using try_acquire_grants [OF _ p(1), of t] p(2) find_ticket [OF t] assms(5-7) by auto
  then have no: "fst (poll_slot i n (gs_gate s)) \<noteq> InQueue n"
    by (simp add: poll_slot_def t case_prod_unfold Let_def)
  show ?thesis
  proof (cases rule: poll_slot_cases [OF q k, of i])
    case (1 h)
    then show ?thesis using no by simp
  next
    case (2 t turn h' h0)
    then show ?thesis using k by (simp add: ticket_granted_def client_after_def)
  qed
qed

section \<open>Counts of callers\<close>

lemma slots_by_lane:
  "tally (\<lambda>c. \<exists>l st. c = InSlot l st) cs = tally (in_slot RegistrationLane) cs + tally (in_slot RecheckLane) cs"
proof (induction cs)
  case (Cons c cs)
  show ?case
  proof (cases c)
    case (InSlot l st)
    then show ?thesis using Cons by (cases l) auto
  qed (use Cons in auto)
qed simp

lemma waits_upto_iff: "waits_upto m c \<longleftrightarrow> (\<exists>n. c = InQueue n \<and> n \<le> m)"
  by (cases c) auto

lemma hold_has_permit: "in_hold c \<Longrightarrow> has_permit c"
  by (cases c) auto

lemma queue_depth:
  assumes "queue_ok g cs"
  shows "int (length (gt_queue g)) = tally (\<lambda>c. \<exists>n. c = InQueue n) cs"
proof -
  have "tally (\<lambda>t. tk_sequence t \<le> gt_sequence g) (gt_queue g) = int (length (gt_queue g))"
    using assms by (auto simp: tally_def queue_ok_iff intro!: arg_cong [of _ _ length] filter_True)
  moreover have "waits_upto (gt_sequence g) c = (\<exists>n. c = InQueue n)" if c: "c \<in> set cs" for c
  proof -
    have "n \<le> gt_sequence g" if cn: "c = InQueue n" for n
    proof -
      obtain k where k: "k < length cs" "cs ! k = InQueue n" using c cn in_set_conv_nth [of c cs] by auto
      obtain t where "find (\<lambda>t. tk_sequence t = n) (gt_queue g) = Some t" using waiting_has_ticket [OF assms k] by blast
      from find_ticket [OF this] show ?thesis using assms by (auto simp: queue_ok_iff)
    qed
    then show ?thesis unfolding waits_upto_iff by blast
  qed
  then have "tally (waits_upto (gt_sequence g)) cs = tally (\<lambda>c. \<exists>n. c = InQueue n) cs"
    by (simp add: tally_def cong: filter_cong)
  ultimately show ?thesis using waiting_upto_queue [OF assms, of "gt_sequence g"] by simp
qed

lemma queue_waiters:
  "queue_ok g cs \<Longrightarrow>
    gt_waiters g + int (length (filter (\<lambda>t. \<not> tk_registration t) (gt_queue g))) = int (length (gt_queue g))"
  using sum_length_filter_compl [of tk_registration "gt_queue g"] by (simp add: queue_ok_iff tally_def)

end
