(* ===== verification/GatePids.thy ===== *)
theory GatePids
  imports GateTurns
begin

text \<open>
  The process check of the browser gate when the container allows few processes: the
  flag that says that they are short is cleared only below a threshold, which a
  small allowance puts at zero.
\<close>

definition tight_pids :: "int \<Rightarrow> int \<Rightarrow> gate_input \<Rightarrow> bool" where
  "tight_pids reserve emergency i \<longleftrightarrow>
     (case (read_int_file (gi_pids i), read_int_file (gi_pids_max i)) of
        (Some a, Some b) \<Rightarrow> 1 \<le> a \<and> 0 < b \<and> b \<le> reserve + emergency + max 1 reserve
      | _ \<Rightarrow> False)"

definition tight_read :: "int \<Rightarrow> int \<Rightarrow> nat \<Rightarrow> gate_input \<Rightarrow> bool" where
  "tight_read reserve emergency n i \<longleftrightarrow>
     adaptive_mode (gi_config i n) \<and> pid_reserve (gi_config i n) = reserve
     \<and> pid_emergency_reserve (gi_config i n) = emergency \<and> tight_pids reserve emergency i"

lemma pid_headroom_stays:
  "1 \<le> a \<Longrightarrow> 0 < b \<Longrightarrow> 0 < r + e \<Longrightarrow> b \<le> r + e + max 1 r \<Longrightarrow> pid_headroom r e (Some a) (Some b) True = (False, True)"
  by (simp add: pid_headroom_def Let_def)

lemma check_pids_stays:
  assumes "0 < r + e" and "\<forall>n<10. tight_read r e n i" and "k + 1 < 10" and "gt_pids_short g"
  shows "check_pids i k g = (False, g)"
proof -
  have c: "pid_reserve (gi_config i k) = r" "pid_emergency_reserve (gi_config i (k + 1)) = e" "tight_pids r e i"
    using assms(2)[rule_format, of k] assms(2)[rule_format, of "k + 1"] assms(3) by (simp_all add: tight_read_def)
  then obtain a b where "read_int_file (gi_pids i) = Some a" "read_int_file (gi_pids_max i) = Some b" "1 \<le> a" "0 < b"
      "b \<le> r + e + max 1 r"
    by (auto simp: tight_pids_def split: option.splits)
  then show ?thesis
    using c assms(1,4) pid_headroom_stays [of a b r e] by (cases g) (simp add: check_pids_def)
qed

lemma check_cpu_flag [simp]: "gt_pids_short (snd (check_cpu i k g)) = gt_pids_short g"
  by (simp add: check_cpu_def case_prod_unfold Let_def)

lemma poll_slot_stays:
  assumes "0 < r + e" and t: "\<forall>n<10. tight_read r e n i" and "gt_pids_short g"
  shows "fst (poll_slot i n g) = InQueue n \<and> gt_pids_short (snd (poll_slot i n g))"
proof (cases "find (\<lambda>t. tk_sequence t = n) (gt_queue g)")
  case None
  then show ?thesis using assms by (simp add: poll_slot_def)
next
  case (Some tk)
  let ?g = "reset_idle_lanes (clear_wake n g)"
  have s: "gt_pids_short ?g" "gt_pids_short (clear_wake n g)"
    using assms(3) by (simp_all add: reset_idle_lanes_def clear_wake_def)
  have r: "slot_resources i ?g = (Some PidsShort, ?g)"
    using check_pids_stays [OF assms(1) t _ s(1), of 5] by (simp add: slot_resources_def)
  have a: "adaptive_mode (gi_config i 4)" using t by (simp add: tight_read_def)
  have "\<exists>why h. try_acquire i tk (clear_wake n g) = (Inl why, h) \<and> gt_pids_short h"
    using s r a by (auto simp: try_acquire_def Let_def split: option.split prod.split)
  then show ?thesis using Some by (auto simp: poll_slot_def)
qed

lemma launch_step_stays:
  assumes "0 < r + e" and t: "\<forall>n<10. tight_read r e n i" and "gt_pids_short g"
  shows "gt_pids_short (snd (launch_step i st g))"
proof (cases st)
  case AwaitResources
  then show ?thesis
    using check_pids_stays [OF assms(1) t _ assms(3), of 1] assms(3)
    by (simp add: launch_step_def launch_resources_def case_prod_unfold Let_def)
qed (use assms in \<open>simp_all add: launch_step_def\<close>)

lemma client_step_stays:
  assumes "0 < r + e" and t: "\<forall>n<10. tight_read r e n i" and "gt_pids_short g"
  shows "gt_pids_short (snd (client_step i c g))"
  using assms poll_slot_stays [OF assms] launch_step_stays [OF assms]
  by (cases c) (auto simp: release_slot_def leave_hold_def claim_turn_def Let_def case_prod_unfold split: option.split)

lemma client_raises_stays: "gt_pids_short (snd (client_raises c g)) = gt_pids_short g"
  by (cases c) (auto simp: release_slot_def leave_hold_def remove_ticket_def split: option.split)

lemma snapshot_stays:
  assumes "0 < r + e" and t: "\<forall>n<10. tight_read r e n i" and "gt_pids_short g"
  shows "gt_pids_short (snapshot_effect i g)"
  using check_pids_stays [OF assms(1) t _ assms(3), of 1] assms(3)
  by (simp add: snapshot_effect_def reset_idle_lanes_def case_prod_unfold Let_def)

lemma step_stays:
  assumes "0 < r + e" and "reads (tight_read r e) [ev]" and "gt_pids_short (gs_gate s)"
  shows "gt_pids_short (gs_gate (gate_step ev s)) \<and> ticket_granted ev s = None"
proof (cases ev)
  case (ClientStep k i)
  then have t: "\<forall>n<10. tight_read r e n i" using assms(2) by simp
  show ?thesis
  proof (cases "k < length (gs_clients s) \<and> (\<exists>n. gs_clients s ! k = InQueue n)")
    case True
    then obtain n where "gs_clients s ! k = InQueue n" by blast
    then show ?thesis
      using True poll_slot_stays [OF assms(1) t assms(3), of n] client_step_stays [OF assms(1) t assms(3), of "InQueue n"]
      by (simp add: ClientStep ticket_granted_def client_after_def case_prod_unfold)
  next
    case False
    obtain c h where c: "client_step i (gs_clients s ! k) (gs_gate s) = (c, h)" by (metis surj_pair)
    then have "gt_pids_short h" using client_step_stays [OF assms(1) t assms(3), of "gs_clients s ! k"] by simp
    then have "gt_pids_short (gs_gate (gate_step ev s))" using c assms(3) by (simp add: ClientStep)
    moreover have "ticket_granted ev s = None"
      using False by (auto simp: ClientStep ticket_granted_def split: gate_client.split)
    ultimately show ?thesis by blast
  qed
next
  case (TakeSnapshot i)
  then show ?thesis using snapshot_stays [OF assms(1) _ assms(3), of i] assms(2) by (simp add: ticket_granted_def)
qed (use assms client_raises_stays in \<open>auto simp: ticket_granted_def enqueue_def Let_def case_prod_unfold\<close>)

lemma run_stays:
  assumes "0 < r + e"
  shows "reads (tight_read r e) evs \<Longrightarrow> gt_pids_short (gs_gate s) \<Longrightarrow>
    granted_tickets evs s = [] \<and> gt_pids_short (gs_gate (gate_run evs s))"
proof (induction evs arbitrary: s)
  case (Cons ev es)
  then show ?case using step_stays [OF assms, of ev s] reads_Cons [OF Cons.prems(1)] Cons.IH [of "gate_step ev s"]
    by (simp add: granted_tickets_def gate_run_def)
qed (simp add: granted_tickets_def gate_run_def)

end
