(* ===== verification/GateProperties.thy ===== *)
theory GateProperties
  imports GatePids "HOL-Library.Code_Target_Nat"
begin

text \<open>
  The properties of the browser gate. The runs that are evaluated use the default
  settings, a clock, and a container with or without a number of processes.
\<close>

section \<open>Runs to evaluate\<close>

definition default_config :: capacity_config where
  "default_config = read_config [] (\<lambda>n. None)"

definition one_slot :: capacity_config where
  "one_slot = default_config\<lparr>cc_max_concurrency := PInt 1, cc_mode := ''fixed''\<rparr>"

definition two_slots :: capacity_config where
  "two_slots = default_config\<lparr>cc_max_concurrency := PInt 2, cc_mode := ''fixed''\<rparr>"

definition gate_inp :: "capacity_config \<Rightarrow> time \<Rightarrow> string option \<Rightarrow> gate_input" where
  "gate_inp c now pids = \<lparr>gi_config = (\<lambda>n. c), gi_clock = (\<lambda>n. now), gi_pids = pids, gi_pids_max = Some ''512'',
     gi_memory = None, gi_memory_max = None, gi_available = None, gi_cpu = None, gi_slot_reserve = None\<rparr>"

abbreviation poll_event :: "nat \<Rightarrow> capacity_config \<Rightarrow> time \<Rightarrow> gate_event" where
  "poll_event k c now \<equiv> ClientStep k (gate_inp c now None)"

abbreviation arrive_event :: "string \<Rightarrow> gate_event" where
  "arrive_event priority \<equiv> ArriveQueued ''login'' priority 0"

text \<open>Two browsers ask for the one slot, and one is held.\<close>

definition one_slot_run :: "gate_event list" where
  "one_slot_run = [arrive_event [], arrive_event [], ArriveHold, poll_event 0 one_slot 0, poll_event 1 one_slot 9,
     poll_event 2 one_slot 9, poll_event 2 one_slot 9, poll_event 2 one_slot 9]"

text \<open>The slot is given back.\<close>

definition ended_run :: "gate_event list" where
  "ended_run = [arrive_event [], arrive_event ''high'', ArriveHold, poll_event 0 one_slot 0, ClientRaises 0,
     ClientRaises 1, ClientRaises 2]"

text \<open>Two rechecks came before a registration, and the recheck lane has its slot.\<close>

definition mixed_run :: "gate_event list" where
  "mixed_run = [arrive_event [], arrive_event [], arrive_event [], arrive_event ''high'', poll_event 0 two_slots 0]"

definition passed_polls :: "gate_event list" where
  "passed_polls = [poll_event 1 two_slots 9, poll_event 2 two_slots 9, poll_event 3 two_slots 9]"

text \<open>Processes were short once.\<close>

definition short_pids_run :: "gate_event list" where
  "short_pids_run = [arrive_event [], ClientStep 0 (gate_inp default_config 0 (Some ''200''))]"

definition later_polls :: "gate_event list" where
  "later_polls = [ClientStep 0 (gate_inp default_config 9 (Some ''1''))]"

section \<open>How many browsers run\<close>

text \<open>
  C6. Whatever the order in which browsers arrive, wait, launch, end, fail and are
  watched, the number of browsers with a slot never exceeds the largest limit that was
  read, and at most 32 browsers are held.
\<close>

theorem browsers_within_limit:
  assumes "reads (\<lambda>n i. concurrency_limit (gi_config i n) \<le> L) evs" and "0 \<le> L"
  shows "length (filter (\<lambda>c. \<exists>l st. c = InSlot l st) (gs_clients (gate_run evs start_gate))) \<le> nat L
    \<and> length (filter in_hold (gs_clients (gate_run evs start_gate))) \<le> 32"
proof -
  let ?s = "gate_run evs start_gate"
  have c: "counts_ok (gs_gate ?s) (gs_clients ?s)" using gate_run_ok [OF gate_ok_start, of evs] by (simp add: gate_ok_def)
  have "gt_active (gs_gate ?s) \<le> L"
    using run_within_limit [OF gate_ok_start assms(1)] assms(2) by (simp add: start_gate_def empty_gate_def)
  then have "tally (\<lambda>c. \<exists>l st. c = InSlot l st) (gs_clients ?s) \<le> L"
    using c slots_by_lane [of "gs_clients ?s"] by (simp add: counts_ok_def)
  moreover have "tally in_hold (gs_clients ?s) \<le> 32"
    using c tally_mono [of in_hold has_permit "gs_clients ?s"] hold_has_permit
    by (simp add: counts_ok_def persistent_max_sessions_def)
  ultimately show ?thesis by (simp add: tally_def)
qed

lemma one_slot_reads: "reads (\<lambda>n i. concurrency_limit (gi_config i n) \<le> 1) one_slot_run"
  by code_simp

lemma one_slot_callers: "gs_clients (gate_run one_slot_run start_gate)
    = [InSlot RecheckLane (AwaitTurn \<lparr>lt_launch_at = 0, lt_interval = 4\<rparr>), InQueue 2,
       Held (AwaitTurn \<lparr>lt_launch_at = 9, lt_interval = 4\<rparr>)]"
  by code_simp

theorem browsers_within_limit_witness:
  "length (filter (\<lambda>c. \<exists>l st. c = InSlot l st) (gs_clients (gate_run one_slot_run start_gate))) = 1"
  using browsers_within_limit [OF one_slot_reads] by (simp add: one_slot_callers)

text \<open>
  C7. The operator's view is exact: it shows as active, per lane, as held and as
  waiting the callers that are in these places, and once every caller has ended,
  by whatever way, nothing is taken and all 32 permits are there.
\<close>

theorem gate_counts_exact:
  "(let s = gate_run evs start_gate; v = gate_snapshot (gs_gate s); cs = gs_clients s
    in gv_active v = tally (in_slot RegistrationLane) cs + tally (in_slot RecheckLane) cs
       \<and> gv_lanes v = (\<lambda>l. tally (in_slot l) cs) \<and> gv_persistent v = tally in_hold cs
       \<and> int (gv_depth v) = tally (\<lambda>c. \<exists>n. c = InQueue n) cs
       \<and> gv_registration_waiters v + int (gv_recheck_waiters v) = int (gv_depth v)
       \<and> (filter (\<lambda>c. c \<noteq> Finished) cs = [] \<longrightarrow>
            gv_active v = 0 \<and> gv_persistent v = 0 \<and> gv_depth v = 0 \<and> gt_permits (gs_gate s) = 32))"
proof -
  let ?s = "gate_run evs start_gate"
  have c: "counts_ok (gs_gate ?s) (gs_clients ?s)" and q: "queue_ok (gs_gate ?s) (gs_clients ?s)"
    using gate_run_ok [OF gate_ok_start, of evs] by (simp_all add: gate_ok_def)
  have none: "tally P (gs_clients ?s) = 0" if "filter (\<lambda>c. c \<noteq> Finished) (gs_clients ?s) = []" "\<not> P Finished" for P
    using that by (intro tally_none) (auto simp: filter_empty_conv)
  show ?thesis
    using c none [of "in_slot l" for l] none [of in_hold] none [of has_permit] none [of "\<lambda>c. \<exists>n. c = InQueue n"]
      queue_depth [OF q] queue_waiters [OF q]
    by (auto simp: Let_def gate_snapshot_def reset_idle_same [OF c] counts_ok_def persistent_max_sessions_def)
qed

lemma ended_run_clients: "gs_clients (gate_run ended_run start_gate) = [Finished, Finished, Finished]"
  by code_simp

theorem gate_counts_exact_witness:
  "gv_active (gate_snapshot (gs_gate (gate_run ended_run start_gate))) = 0
    \<and> gt_permits (gs_gate (gate_run ended_run start_gate)) = 32"
  using gate_counts_exact [of ended_run] by (simp add: Let_def ended_run_clients)

section \<open>Order and progress\<close>

text \<open>
  C19. A waiting browser of a lane that has fewer slots than its reserve is passed by
  no browser that came later: up to its own start at most as many browsers get a slot
  as the position says that it was told.
\<close>

theorem protected_ticket_not_overtaken:
  assumes "s = gate_run before start_gate" and "has_ticket m l (gs_gate s)" and "kept_short m l evs s"
  shows "(\<forall>n\<in>set (granted_tickets evs s). n \<le> m)
    \<and> length (granted_tickets evs s) \<le> queue_position m (gt_queue (gs_gate s))"
proof -
  have ok: "gate_ok s" using gate_run_ok [OF gate_ok_start] assms(1) by simp
  then have q: "queue_ok (gs_gate s) (gs_clients s)" by (simp add: gate_ok_def)
  have "waiting_upto m s = int (queue_position m (gt_queue (gs_gate s)))"
    using waiting_upto_queue [OF q] q assms(2) position_upto
    by (simp add: waiting_upto_def queue_ok_iff has_ticket_def list_ex_iff) blast
  then show ?thesis using grants_upto [OF ok assms(3)] by simp
qed

lemma mixed_run_short:
  "has_ticket 4 RegistrationLane (gs_gate (gate_run mixed_run start_gate))"
  "kept_short 4 RegistrationLane passed_polls (gate_run mixed_run start_gate)"
  "granted_tickets passed_polls (gate_run mixed_run start_gate) = [4]"
  by code_simp+

theorem protected_ticket_not_overtaken_witness:
  "1 \<le> queue_position 4 (gt_queue (gs_gate (gate_run mixed_run start_gate)))"
  using protected_ticket_not_overtaken [OF refl mixed_run_short(1,2)] by (simp add: mixed_run_short(3))

text \<open>
  C20. The gate never gets stuck: when a browser waits, a slot is free, the next
  launch time has come and the checks pass (or are off), then the round of one of
  the waiting callers, the one that the rule chooses, gets the slot.
\<close>

theorem gate_never_stuck:
  assumes "s = gate_run evs start_gate" and "gt_queue (gs_gate s) \<noteq> []" and "gi_config i = (\<lambda>n. c)"
    and "gt_active (gs_gate s) < concurrency_limit c" and "gt_next_launch (gs_gate s) \<le> gi_clock i 0"
    and "adaptive_mode c \<Longrightarrow> fst (slot_resources i (gs_gate s)) = None"
  shows "\<exists>k n. ticket_granted (ClientStep k i) s = Some n
    \<and> eligible_number (lane_reserves (concurrency_limit c) c) (gs_gate s) = Some n"
proof -
  have ok: "gate_ok s" using gate_run_ok [OF gate_ok_start] assms(1) by simp
  then have "queue_ok (gs_gate s) (gs_clients s)" by (simp add: gate_ok_def)
  then obtain k n where "k < length (gs_clients s)" "gs_clients s ! k = InQueue n"
      "eligible_number (lane_reserves (concurrency_limit c) c) (gs_gate s) = Some n"
    using eligible_caller assms(2) by metis
  then show ?thesis using caller_granted [OF ok, of k n i] assms(3-6) by auto
qed

lemma mixed_run_waits:
  "gt_queue (gs_gate (gate_run mixed_run start_gate)) \<noteq> []"
  "gi_config (gate_inp two_slots 9 None) = (\<lambda>n. two_slots)"
  "gt_active (gs_gate (gate_run mixed_run start_gate)) < concurrency_limit two_slots"
  "gt_next_launch (gs_gate (gate_run mixed_run start_gate)) \<le> gi_clock (gate_inp two_slots 9 None) 0"
  "\<not> adaptive_mode two_slots"
  "eligible_number (lane_reserves (concurrency_limit two_slots) two_slots) (gs_gate (gate_run mixed_run start_gate)) = Some 4"
  by (code_simp, simp add: gate_inp_def, code_simp+)

theorem gate_never_stuck_witness:
  "\<exists>k. ticket_granted (ClientStep k (gate_inp two_slots 9 None)) (gate_run mixed_run start_gate) = Some 4"
  using gate_never_stuck [OF refl mixed_run_waits(1-4)] mixed_run_waits(5,6) by auto

text \<open>
  C21. Launches are apart: when every interval that is read is at least \<open>d\<close>, then of
  two launch turns that are claimed, by queued or by held browsers, the later one
  is at least \<open>d\<close> after the earlier one.
\<close>

theorem launches_spaced:
  assumes "0 < d" and "reads (\<lambda>n i. d \<le> launch_interval (gi_config i n)) evs"
  shows "sorted_wrt (\<lambda>x y. x + d \<le> y) (claimed_turns evs start_gate)"
  using turns_spaced [OF assms(1) gate_ok_start assms(2)] by blast

lemma one_slot_turns:
  "reads (\<lambda>n i. 4 \<le> launch_interval (gi_config i n)) one_slot_run" "claimed_turns one_slot_run start_gate = [0, 9]"
  by code_simp+

theorem launches_spaced_witness: "sorted_wrt (\<lambda>x y. x + 4 \<le> y) [0 :: rat, 9]"
  using launches_spaced [of 4 one_slot_run] one_slot_turns by simp

section \<open>Processes\<close>

text \<open>
  C37. When the container allows no more processes than the reserves and one more
  budget (512 with the default settings), the process check shuts the gate for good:
  once it failed, no queued browser ever gets a slot, and the flag is never cleared,
  however many processes end and whatever the callers do.
\<close>

theorem pid_gate_never_reopens:
  assumes "0 < reserve + emergency" and "reads (tight_read reserve emergency) evs"
    and "gt_pids_short (gs_gate (gate_run before start_gate))"
  shows "granted_tickets evs (gate_run before start_gate) = []
    \<and> gt_pids_short (gs_gate (gate_run (before @ evs) start_gate))"
  using run_stays [OF assms] by (simp add: gate_run_def)

lemma short_pids_reads:
  "reads (tight_read 128 256) later_polls" "gt_pids_short (gs_gate (gate_run short_pids_run start_gate))"
  "granted_tickets later_polls (gate_run [arrive_event []] start_gate) = [1]"
  by code_simp+

theorem pid_gate_never_reopens_witness:
  "granted_tickets later_polls (gate_run short_pids_run start_gate) = []
    \<and> granted_tickets later_polls (gate_run [arrive_event []] start_gate) = [1]"
  using pid_gate_never_reopens [OF _ short_pids_reads(1,2)] short_pids_reads(3) by simp

end
