(* ===== verification/Spec2Isabelle.thy ===== *)
theory Spec2Isabelle
  imports TaskStoreProofs PixCdkProofs FixedGroupsProofs ProxyPool ExitIpRegistry OtpBudget DeliveryProperties AuthLimits RotationProperties RotationView LeaseProperties GateProperties
begin

text \<open>
  A verification library for a service that registers accounts on an external
  platform and hands finished accounts out. Registrations, logins and payments run as
  tasks in threads; the modules of \<open>src/core\<close> and \<open>src/services\<close> that are modelled
  here are what these threads share: who may start, who holds a resource, what is
  recorded, and who is let in. All files named below are under \<open>src/\<close>.

  \<^bold>\<open>How the parts meet.\<close> A task of the API is a record of the task store and has a
  controller that its threads and the operators call. The rotation scheduler starts one
  task after the other, each for one mail domain, and reads what became of them. A task
  takes an exit address, a proxy and, for a payment, an activation code from shared
  registries; while it waits for a code from a mailbox it spends a time budget. A
  logged-in browser can be held for operators under a lease. Every browser, held or not,
  passes a capacity gate first. Finished accounts are put
  into fixed groups or delivered against card codes. Everything is behind the session of
  the administrator.

  \<^bold>\<open>Theories and sources.\<close>

  \<^item> \<open>Prelude\<close>, \<open>Contracts\<close>, \<open>Rows\<close>, \<open>Urls\<close>, \<open>Floats\<close>: what the components share. Dicts with their
    insertion order, dynamic values, text; the interfaces as locales (a machine with an
    invariant, one with a frozen observation, an exclusive lease, a failure gate, a keyed
    store), which the components interpret on their own operations; sorting and paging of
    table rows; what is used of \<open>urllib.parse\<close>; Python's reading of floats.
  \<^item> \<open>TaskControl\<close>, \<open>TaskControlProofs\<close> (\<open>core/task_runtime.py\<close>, \<open>RegisterTaskControl\<close>):
    stop requests, skips, attempts and the wait for a verification code. One locked method
    is one step; the wait is a loop that gives the lock up between two rounds.
  \<^item> \<open>TaskStore\<close>, \<open>TaskStoreProofs\<close> (same file, \<open>RegisterTaskRecord\<close>, \<open>RegisterTaskStore\<close>):
    the records, their bounded logs, the two critical sections of \<open>finish\<close>, the cleanup.
  \<^item> \<open>PixCdk\<close>, \<open>PixCdkProofs\<close> (\<open>core/pix_cdk_usage.py\<close>): leases, review locks and the
    history of paid orders of activation codes.
  \<^item> \<open>FixedGroups\<close>, \<open>FixedGroupsProofs\<close> (\<open>services/account_fixed_groups.py\<close>): groups and
    their members.
  \<^item> \<open>ProxyPool\<close> (\<open>core/proxy_pool.py\<close> and the score of \<open>services/proxy_scanner.py\<close>),
    \<open>ExitIpRegistry\<close> (\<open>core/chatgpt_register_exit_ip_registry.py\<close>), \<open>OtpBudget\<close>
    (\<open>services/chatgpt_core/otp_budget.py\<close>).
  \<^item> \<open>DeliveryAccess\<close>, \<open>DeliveryStock\<close>, \<open>DeliveryRedeem\<close>, \<open>DeliveryAdmin\<close>, \<open>DeliveryListing\<close>
    follow \<open>services/delivery_cards/service.py\<close> from its first line to its last;
    \<open>DeliveryProofs\<close>, \<open>DeliveryMachine\<close> and \<open>DeliveryProperties\<close> hold the invariant, the
    machine of requests, administration and outside changes, and the properties.
  \<^item> \<open>AuthCodec\<close>, \<open>AuthState\<close>, \<open>AuthRoutes\<close>, \<open>AuthHandlers\<close> (\<open>api/auth.py\<close>): codecs,
    stored state, primitive writes, routes; \<open>AuthContract\<close>, \<open>AuthProofs\<close>, \<open>AuthSafety\<close>,
    \<open>AuthLimits\<close>: what an invariant of the routes has to meet, and the properties.
  \<^item> \<open>RotationState\<close>, \<open>RotationOps\<close>, \<open>RotationManager\<close>, \<open>RotationMachine\<close>, \<open>RotationView\<close>
    (\<open>services/chatgpt_core/registration_domain_rotation.py\<close>): the groups of domains, the
    locked operations, the entry points and retry timers, what the endpoints show; the
    other \<open>Rotation\<close> theories prove the invariant operation by operation (\<open>RotationFill\<close>,
    \<open>RotationWind\<close>, \<open>RotationEnd\<close>, \<open>RotationRetry\<close>, \<open>RotationQuality\<close>), for a group
    (\<open>RotationSettle\<close>) and for all groups (\<open>RotationWorld\<close>, \<open>RotationRun\<close>).
  \<^item> \<open>LeaseText\<close>, \<open>LeaseState\<close>, \<open>LeaseThreads\<close>, \<open>LeaseOwner\<close>
    (\<open>services/chatgpt_core/web_session_lease.py\<close>, with the parts of \<open>web_session_login.py\<close>
    and \<open>any_auto/browser_register.py\<close> that drive a lease): texts and links, the locked
    sections, and threads as lists of the atomic actions they still have to do. An
    exception replaces what the thread had planned by the actions of the handler.
    \<open>LeaseMoves\<close>, \<open>LeaseRegistry\<close>, \<open>LeaseHolders\<close>, \<open>LeaseCommands\<close>, \<open>LeasePages\<close> and
    \<open>LeaseTextProofs\<close> prove what they guarantee; \<open>LeaseLife\<close> shows that nobody but its owner
    ends a lease, \<open>LeaseOwnership\<close> that a lease has at most one owner and that a plan of
    the owner is carried out whatever other threads do in between, and \<open>LeasePlans\<close> the
    three plans (saving, closing, trying again) that \<open>LeaseProperties\<close> uses.
  \<^item> \<open>GateConfig\<close>, \<open>GateQueue\<close>, \<open>GateMachine\<close> (the capacity gate of
    \<open>services/chatgpt_core/sentinel_browser.py\<close>): settings and resource checks, the queue
    with its two lanes and the sections under the lock, and the callers as a machine with
    one step per round of their loops. \<open>GateProofs\<close> has the invariant that ties every
    counter to the callers, \<open>GateTurns\<close> the slots and launch turns of a run, \<open>GatePids\<close>
    the process check; \<open>GateProperties\<close> the properties.

  \<^bold>\<open>Conventions.\<close> A locked method or a database transaction is one step of its component;
  what the code does without the lock is several steps, and every interleaving of such
  steps is a run. A record has the fields of its class or table row, a dict is an
  association list without a repeated key, a table a dict by its primary key. An
  exception is the left side of a sum or an error constructor; the texts of messages for
  people are constructors with the values they show, or lists of code points. Python's
  integers are \<open>int\<close>, floats and times exact rationals, bytes words of eight bits. A clock
  reading, a random text, the result of a network or database call and the order of the
  threads are arguments of the step that uses them. Hash functions, the password hasher,
  the parser of network addresses, the classifications of accounts and the callbacks of
  other modules are parameters; where a property needs something of a parameter it is a
  hypothesis with a name (\<open>fresh_starts\<close>: the start callback of the rotation returns a new
  task name each time).

  \<^bold>\<open>What the lemmas show.\<close> Every machine has an invariant that each of its operations keeps
  and hence, through \<open>invariant_machine\<close>, each of its runs. On it rest: exclusion
  (activation codes, exit addresses, domains in slots, one browser per account, one card
  per account), finality (stop requests, deliveries, ended sessions, paid orders),
  reference definitions that the code's loops equal (longest window of a log, batch view,
  members of a group), bounds (browsers with a slot, launches, starts of a domain, guesses, waiting time, histories), the
  refinement of the leases to a map from accounts to holders, and liveness (a wait ends, with
  a handler of actions as well; a round robin is fair, a rotation can always end, a release
  completes under every interleaving once the owner is back at its hold loop, the browser
  gate is never stuck and lets nobody pass a browser whose lane is short of its reserve).

  \<^bold>\<open>Bounds and termination.\<close> No definition takes fuel. Loops over lists are structural; the
  others have a measure: the trimming of logs and command histories the length of what is
  left, the filling of slots the number of pending domains, text scanners the length of the
  text. Waits are rounds that are given as a list, and the properties say by which round
  they are over. A rotation takes at most six of its events for each domain; a release is
  through after sixteen steps of the owner from the head of its hold loop, two of which only
  occur where a payment page was open; steps of other threads in between do not count.

  \<^bold>\<open>Where the code falls short.\<close> Three theorems of \<open>LeaseProperties\<close> describe states that
  are reached but should not be, and what then happens in every case: a report that is
  delivered after its lease ended lets a second browser of the account in, a task stopped
  before or between its attempts leaves a lease that nothing ends, and a login that is
  tried again after its lease ended holds its browser on that lease, where no release finds
  it.
  \<open>pid_gate_never_reopens\<close> shows that the process check of the browser gate can shut for
  good where the container allows few processes.
  \<open>failed_proxy_not_offered\<close> and \<open>expired_never_stored\<close> show that a reported success does
  not end the cooldown of a proxy, and that no card is ever stored as expired.

  \<^bold>\<open>Not modelled.\<close> The HTTP routes apart from those of the administrator, because they parse
  requests and call the services; mailbox, SMS, payment and platform clients and the browser
  automation, whose behaviour is that of third parties; fingerprints and anti-bot scripts, with the worker processes that run them;
  the SQL of the account lists; database schema and migrations; start-up. Within the
  modelled files: the publication of copies to task metadata, JSON shapes of answers, file
  permissions, log texts, and the row locks for other databases than SQLite and PostgreSQL.
\<close>

end
